(* ===== verification/Prelude.thy ===== *)
theory Prelude
  imports
    Main
    "HOL-Library.Char_ord"
    "HOL-Library.List_Lexorder"
    "HOL-Library.Finite_Map"
    "HOL-Library.Word"
begin

text \<open>
  The Go level the component theories share: 64-bit integers with their wrap-around, instants of
  time, the byte-string helpers and regular expressions of the sources, the errors of all modelled
  packages as one datatype, and lemmas on association, sorting and finite maps. A Go string is a
  \<open>string\<close> (a list of bytes), ordered lexicographically as Go orders strings.
\<close>

named_theorems go_arith \<open>wrap-around facts about int64 values inside their range\<close>

named_theorems key_simps \<open>equations that tell the keys of different collections apart\<close>

section \<open>Errors\<close>

text \<open>
  The sentinel errors of the packages. Errors with the same text in two packages are different
  values in Go (\<open>errors.Is\<close> compares identities) and so are different constructors here:
  \<open>KvErrConflict\<close> is retried by the transaction runner, \<open>ErrConflict\<close> is not.
  \<open>ErrDecode\<close> is any error of the gob decoder, \<open>ErrOther\<close> any error of the environment
  (transport, cancellation, disk).
\<close>

datatype err =
    KvErrConflict | KvErrInvalid | KvErrCapacity | KvErrNotLeader
  | MetadataErrNotFound
  | ErrNotFound | ErrConflict | ErrForbidden | ErrQuota | ErrInvalid | ErrStorage
  | Duplicate string
  | ErrReauthentication | ErrUnauthorized | ErrCSRF | ErrAccountSwitch | ErrRateLimited
  | ErrUnlockDenied | ErrUnlockLimited
  | ErrAgentInvalid | ErrFirebaseRefused
  | ErrDecode
  | ErrOther string

section \<open>Machine integers\<close>

definition max_int64 :: int where
  "max_int64 = 9223372036854775807"

definition max_uint64 :: int where
  "max_uint64 = 18446744073709551615"

text \<open>Go's int64 arithmetic: the mathematical result reduced to two's complement.\<close>

definition wrap64 :: "int \<Rightarrow> int" where
  "wrap64 x = (x + 9223372036854775808) mod 18446744073709551616 - 9223372036854775808"

definition in_int64 :: "int \<Rightarrow> bool" where
  "in_int64 x \<longleftrightarrow> - 9223372036854775808 \<le> x \<and> x \<le> max_int64"

definition wrap_uint64 :: "int \<Rightarrow> int" where
  "wrap_uint64 x = x mod 18446744073709551616"

definition inc64 :: "int \<Rightarrow> int" where
  "inc64 x = wrap64 (x + 1)"

lemma wrap64_id [go_arith]: "in_int64 x \<Longrightarrow> wrap64 x = x"
  by (simp add: wrap64_def in_int64_def max_int64_def)

lemma wrap64_range: "in_int64 (wrap64 x)"
proof -
  have "0 \<le> (x + 9223372036854775808) mod 18446744073709551616"
    and "(x + 9223372036854775808) mod 18446744073709551616 < 18446744073709551616"
    by simp_all
  then show ?thesis by (simp add: wrap64_def in_int64_def max_int64_def)
qed

lemma inc64_id [go_arith]: "0 \<le> x \<Longrightarrow> x < max_int64 \<Longrightarrow> inc64 x = x + 1"
  by (simp add: inc64_def wrap64_def max_int64_def)

lemma inc64_wraps: "inc64 max_int64 = - 9223372036854775808"
  by (simp add: inc64_def wrap64_def max_int64_def)

lemma wrap_uint64_id [go_arith]: "0 \<le> x \<Longrightarrow> x \<le> max_uint64 \<Longrightarrow> wrap_uint64 x = x"
  by (simp add: wrap_uint64_def max_uint64_def)

section \<open>Time\<close>

text \<open>
  An instant is the number of nanoseconds since Go's zero time (January 1, year 1), so that
  \<open>time.Time{}\<close> is 0, \<open>IsZero\<close> is equality with 0, \<open>Before\<close> is the order and
  \<open>Truncate\<close> rounds down to a multiple counted from the zero time.
\<close>

type_synonym time = int

definition second :: int where "second = 1000000000"
definition minute :: int where "minute = 60 * second"
definition hour :: int where "hour = 3600 * second"
definition day :: int where "day = 24 * hour"

definition IsZero :: "time \<Rightarrow> bool" where
  "IsZero t \<longleftrightarrow> t = 0"

definition Truncate :: "time \<Rightarrow> int \<Rightarrow> time" where
  "Truncate t d = (if d \<le> 0 then t else t - t mod d)"

lemmas duration_defs = second_def minute_def hour_def day_def

lemma Truncate_le: "Truncate t d \<le> t"
  by (simp add: Truncate_def)

lemma Truncate_add_gt: "0 < d \<Longrightarrow> t < Truncate t d + d"
  by (simp add: Truncate_def)

section \<open>Strings and regular expressions\<close>

definition char_between :: "nat \<Rightarrow> nat \<Rightarrow> char \<Rightarrow> bool" where
  "char_between lo hi c \<longleftrightarrow> lo \<le> of_char c \<and> of_char c \<le> hi"

definition is_lower :: "char \<Rightarrow> bool" where "is_lower c \<longleftrightarrow> char_between 97 122 c"
definition is_upper :: "char \<Rightarrow> bool" where "is_upper c \<longleftrightarrow> char_between 65 90 c"
definition is_digit :: "char \<Rightarrow> bool" where "is_digit c \<longleftrightarrow> char_between 48 57 c"
definition is_hex :: "char \<Rightarrow> bool" where "is_hex c \<longleftrightarrow> is_digit c \<or> char_between 97 102 c"
definition is_lower_alnum :: "char \<Rightarrow> bool" where "is_lower_alnum c \<longleftrightarrow> is_lower c \<or> is_digit c"
definition is_alnum :: "char \<Rightarrow> bool" where "is_alnum c \<longleftrightarrow> is_lower_alnum c \<or> is_upper c"

lemmas char_class_defs =
  char_between_def is_lower_def is_upper_def is_digit_def is_hex_def is_lower_alnum_def is_alnum_def

text \<open>\<open>strings.Cut\<close>: the part before the first separator, the part after it, and whether
  the separator occurs.\<close>

definition cut :: "char \<Rightarrow> string \<Rightarrow> string \<times> string \<times> bool" where
  "cut c s = (let a = takeWhile (\<lambda>x. x \<noteq> c) s in
     if length a = length s then (s, [], False) else (a, drop (Suc (length a)) s, True))"

definition has_prefix :: "string \<Rightarrow> string \<Rightarrow> bool" where
  "has_prefix s p \<longleftrightarrow> take (length p) s = p"

definition trim_prefix :: "string \<Rightarrow> string \<Rightarrow> string" where
  "trim_prefix s p = (if has_prefix s p then drop (length p) s else s)"

definition collection_of :: "string \<Rightarrow> string" where
  "collection_of key = fst (cut (CHR ''/'') key)"

lemma has_prefix_append [simp]: "has_prefix (p @ s) p"
  by (simp add: has_prefix_def)

lemma has_prefixE: "has_prefix s p \<Longrightarrow> \<exists>r. s = p @ r"
  by (metis append_take_drop_id has_prefix_def)

lemma trim_prefix_append [simp]: "trim_prefix (p @ s) p = s"
  by (simp add: trim_prefix_def)

lemma cut_append: "c \<notin> set a \<Longrightarrow> cut c (a @ c # b) = (a, b, True)"
proof -
  assume "c \<notin> set a"
  then have "takeWhile (\<lambda>x. x \<noteq> c) (a @ c # b) = a"
    by (induction a) auto
  then show ?thesis by (simp add: cut_def)
qed

lemma collection_of_append [simp]:
  "CHR ''/'' \<notin> set a \<Longrightarrow> collection_of (a @ CHR ''/'' # b) = a"
  by (simp add: collection_of_def cut_append)

lemma collection_takeWhile: "collection_of k = takeWhile (\<lambda>x. x \<noteq> CHR ''/'') k"
  by (simp add: collection_of_def cut_def Let_def) (metis takeWhile_eq_take take_all order_refl)

text \<open>The order of Go strings is the bytewise lexicographic one of the library.\<close>

lemma go_string_order: "(''a'' :: string) < ''ab'' \<and> (''ab'' :: string) < ''b''"
  by (simp add: less_char_def)

section \<open>Sorted lists of identifiers\<close>

text \<open>\<open>sort.Search\<close> and \<open>sort.SearchStrings\<close>: binary search. On a sorted list it gives the least
  index whose element is not below the key.\<close>

function search_loop :: "(nat \<Rightarrow> bool) \<Rightarrow> nat \<Rightarrow> nat \<Rightarrow> nat" where
  "search_loop f i j = (if i < j then let h = (i + j) div 2 in
     if \<not> f h then search_loop f (h + 1) j else search_loop f i h else i)"
  by pat_completeness auto
termination by (relation "measure (\<lambda>(f, i, j). j - i)") auto

declare search_loop.simps [simp del]

definition SearchStrings :: "string list \<Rightarrow> string \<Rightarrow> nat" where
  "SearchStrings xs k = search_loop (\<lambda>h. k \<le> xs ! h) 0 (length xs)"

lemma search_loop_least:
  assumes "i \<le> p" "p \<le> j" "\<And>h. h < j \<Longrightarrow> f h \<longleftrightarrow> p \<le> h"
  shows "search_loop f i j = p"
  using assms
proof (induction f i j rule: search_loop.induct)
  case (1 f i j)
  show ?case
  proof (cases "i < j")
    case True
    let ?h = "(i + j) div 2"
    have h: "?h < j" "i \<le> ?h" using True by linarith+
    show ?thesis
    proof (cases "f ?h")
      case f: True
      then have "search_loop f i ?h = p" using 1 True h by auto
      then show ?thesis using True f by (simp add: search_loop.simps[of f i j] Let_def)
    next
      case f: False
      then have "search_loop f (?h + 1) j = p" using 1 True h by auto
      then show ?thesis using True f by (simp add: search_loop.simps[of f i j] Let_def)
    qed
  next
    case False
    then show ?thesis using 1 by (simp add: search_loop.simps[of f i j])
  qed
qed

lemma takeWhile_less_sorted:
  assumes "sorted xs"
  shows "takeWhile (\<lambda>x. x < k) xs = filter (\<lambda>x. x < (k::'a::linorder)) xs"
  using assms
proof (induction xs)
  case (Cons x xs)
  then show ?case
  proof (cases "x < k")
    case False
    then have "\<forall>y \<in> set xs. \<not> y < k" using Cons.prems by fastforce
    then show ?thesis using False by (simp add: filter_empty_conv)
  qed simp
qed simp

lemma SearchStrings_sorted:
  assumes "sorted xs"
  shows "SearchStrings xs k = length (takeWhile (\<lambda>x. x < k) xs)"
  unfolding SearchStrings_def
proof (rule search_loop_least)
  let ?p = "length (takeWhile (\<lambda>x. x < k) xs)"
  show "?p \<le> length xs" by (rule length_takeWhile_le)
  fix h assume h: "h < length xs"
  show "k \<le> xs ! h \<longleftrightarrow> ?p \<le> h"
  proof
    assume "k \<le> xs ! h"
    then show "?p \<le> h" by (metis not_le nth_mem set_takeWhileD takeWhile_nth)
  next
    assume p: "?p \<le> h"
    then have "\<not> xs ! ?p < k" using h nth_length_takeWhile[of "\<lambda>x. x < k" xs] by simp
    then show "k \<le> xs ! h" using assms p h sorted_nth_mono[of xs ?p h] by auto
  qed
qed simp

lemma SearchStrings_found:
  assumes "sorted xs"
  shows "(SearchStrings xs k < length xs \<and> xs ! SearchStrings xs k = k) \<longleftrightarrow> k \<in> set xs"
proof
  assume "SearchStrings xs k < length xs \<and> xs ! SearchStrings xs k = k"
  then show "k \<in> set xs" by (metis nth_mem)
next
  assume k: "k \<in> set xs"
  let ?n = "length (takeWhile (\<lambda>x. x < k) xs)"
  have n: "?n < length xs"
  proof (rule ccontr)
    assume "\<not> ?n < length xs"
    then have "takeWhile (\<lambda>x. x < k) xs = xs"
      by (metis length_takeWhile_le not_less le_antisym takeWhile_eq_take take_all order_refl)
    then show False using k by (metis set_takeWhileD less_irrefl)
  qed
  then have "\<not> xs ! ?n < k" using nth_length_takeWhile by blast
  moreover have "xs ! ?n \<le> k"
  proof -
    from k obtain j where j: "j < length xs" "xs ! j = k" by (metis in_set_conv_nth)
    have "?n \<le> j"
    proof (rule ccontr)
      assume "\<not> ?n \<le> j"
      then have "xs ! j < k"
        by (metis not_le_imp_less nth_mem set_takeWhileD takeWhile_nth)
      then show False using j by simp
    qed
    then show ?thesis using assms j sorted_nth_mono by metis
  qed
  ultimately show "SearchStrings xs k < length xs \<and> xs ! SearchStrings xs k = k"
    using n by (simp add: SearchStrings_sorted[OF assms])
qed

lemma set_remove_nth:
  assumes "distinct xs" "i < length xs"
  shows "set (take i xs @ drop (Suc i) xs) = set xs - {xs ! i}"
proof -
  have "xs = take i xs @ xs ! i # drop (Suc i) xs"
    using assms(2) by (simp add: id_take_nth_drop)
  then have "set xs = insert (xs ! i) (set (take i xs @ drop (Suc i) xs))"
    and "xs ! i \<notin> set (take i xs @ drop (Suc i) xs)"
    using assms(1) by (metis Un_insert_right list.simps(15) set_append,
      metis distinct_append not_distinct_conv_prefix distinct.simps(2) in_set_conv_decomp
        append_assoc disjoint_insert(1) list.simps(15) set_append Un_iff)
  then show ?thesis by auto
qed

section \<open>Transition systems\<close>

text \<open>A step relation with an invariant that every step keeps: the invariant then holds along every
  run, and so does any reflexive and transitive relation that each step from a good state respects.\<close>

locale invariant_system =
  fixes step :: "'s \<Rightarrow> 's \<Rightarrow> bool" and inv :: "'s \<Rightarrow> bool"
  assumes preserved: "step s s' \<Longrightarrow> inv s \<Longrightarrow> inv s'"
begin

lemma invariant: "step\<^sup>*\<^sup>* s s' \<Longrightarrow> inv s \<Longrightarrow> inv s'"
  by (induction rule: rtranclp_induct) (auto dest: preserved)

lemma monotone:
  assumes "step\<^sup>*\<^sup>* s s'" "inv s"
    and "\<And>a. R a a" "\<And>a b c. R a b \<Longrightarrow> R b c \<Longrightarrow> R a c"
    and "\<And>a b. step a b \<Longrightarrow> inv a \<Longrightarrow> R a b"
  shows "R s s'"
  using assms(1)
proof (induction rule: rtranclp_induct)
  case (step y z)
  then have "inv y" using invariant[OF _ assms(2)] by blast
  then show ?case using step assms(4,5) by blast
qed (rule assms(3))

end

text \<open>
  A refinement of a specification with an invariant: concrete steps, taken from states whose
  abstraction satisfies the invariant, are abstract steps and keep a concrete invariant; abstract
  steps keep the abstract one. Then both hold wherever the concrete machine can go.
\<close>

locale refinement =
  fixes cstep :: "'s \<Rightarrow> 's \<Rightarrow> bool" and abs :: "'s \<Rightarrow> 'a" and astep :: "'a \<Rightarrow> 'a \<Rightarrow> bool"
    and ainv :: "'a \<Rightarrow> bool" and cinv :: "'s \<Rightarrow> bool"
  assumes simulation: "cstep s s' \<Longrightarrow> ainv (abs s) \<Longrightarrow> astep (abs s) (abs s')"
    and keeps: "cstep s s' \<Longrightarrow> ainv (abs s) \<Longrightarrow> cinv s \<Longrightarrow> cinv s'"
    and preserved: "astep a a' \<Longrightarrow> ainv a \<Longrightarrow> ainv a'"
begin

sublocale concrete: invariant_system cstep "\<lambda>s. ainv (abs s) \<and> cinv s"
  by unfold_locales (auto dest: simulation keeps preserved)

sublocale bare: invariant_system cstep "\<lambda>s. ainv (abs s)"
  by unfold_locales (auto dest: simulation preserved)

lemma invariant:
  assumes "cstep\<^sup>*\<^sup>* s s'" "ainv (abs s)" "cinv s"
  shows "ainv (abs s') \<and> cinv s'"
  using concrete.invariant[OF assms(1)] assms(2,3) by blast

lemma simulated:
  assumes "cstep\<^sup>*\<^sup>* s s'" "ainv (abs s)"
  shows "astep\<^sup>*\<^sup>* (abs s) (abs s')"
proof -
  have "astep\<^sup>*\<^sup>* (abs s) (abs s') \<and> ainv (abs s')"
    using assms by (induction rule: rtranclp_induct) (auto dest: simulation preserved intro: rtranclp.rtrancl_into_rtrancl)
  then show ?thesis ..
qed

text \<open>A relation that every abstract step from a good state respects holds between any two states of
  a run, if it is reflexive and transitive.\<close>

lemma monotone:
  assumes "cstep\<^sup>*\<^sup>* s s'" "ainv (abs s)"
    and "\<And>a. R a a" "\<And>a b c. R a b \<Longrightarrow> R b c \<Longrightarrow> R a c"
    and "\<And>a b. astep a b \<Longrightarrow> ainv a \<Longrightarrow> R a b"
  shows "R (abs s) (abs s')"
  by (rule bare.monotone[OF assms(1,2)]) (auto intro: assms(3) assms(4) assms(5) dest: simulation)

end

end
