(* ===== verification/Cluster_State.thy ===== *)
theory Cluster_State
  imports Prelude
begin

text \<open>
  The consensus storage protocol (\<open>internal/kv/protocol.go\<close>) and the replicated state machine
  (\<open>internal/cluster/state.go\<close>): versioned records, transactions of checks and writes, validation,
  \<open>Apply\<close>, reads, snapshots and \<open>Restore\<close>.

  A value is a \<open>json.RawMessage\<close> the state machine never looks into, so its type is a parameter
  \<open>'v\<close>; \<open>raw_ops\<close> gives its length and \<open>json.Valid\<close>. The bytes of a log entry are a parameter
  \<open>'c\<close>; \<open>wire\<close> gives their length, the strict JSON decoder and the SHA-256 history chain. The mutex
  makes every operation atomic, so each is one function of the state.
\<close>

section \<open>The protocol\<close>

record 'v raw_ops =
  raw_len :: "'v \<Rightarrow> nat"
  raw_valid :: "'v \<Rightarrow> bool"

record 'v kv_record =
  r_Version :: "64 word"
  r_Value :: 'v

record kv_check =
  c_Key :: string
  c_Version :: "64 word"

text \<open>A nil value is \<open>None\<close>: it has length 0 and is not valid JSON.\<close>

record 'v kv_write =
  w_Key :: string
  w_Value :: "'v option"
  w_Delete :: bool

datatype durability = DurabilityUnset | Replicated | Local | DurabilityOther string

definition Durability_Valid :: "durability \<Rightarrow> bool" where
  "Durability_Valid d \<longleftrightarrow> d = DurabilityUnset \<or> d = Replicated \<or> d = Local"

definition Durability_Effective :: "durability \<Rightarrow> durability" where
  "Durability_Effective d = (if d = DurabilityUnset then Replicated else d)"

record 'v kv_transaction =
  t_Schema :: int
  t_Checks :: "kv_check list"
  t_Writes :: "'v kv_write list"
  t_Durability :: durability
  t_Revision :: "64 word"

section \<open>Limits and document keys\<close>

definition maxCommand :: nat where "maxCommand = 1048576"
definition maxValue :: nat where "maxValue = 65536"
definition maxChanges :: nat where "maxChanges = 128"
definition maxRecords :: int where "maxRecords = 100000"
definition maxStateBytes :: int where "maxStateBytes = 134217728"
definition maxSnapshot :: nat where "maxSnapshot = 268435456"

definition documentKey :: "string \<Rightarrow> bool" where
  "documentKey s = (case cut (CHR ''/'') s of (a, b, ok) \<Rightarrow>
     ok \<and> a \<noteq> [] \<and> is_lower (hd a) \<and> length a \<le> 48
     \<and> list_all (\<lambda>c. is_lower_alnum c \<or> c = CHR ''_'') a
     \<and> b \<noteq> [] \<and> length b \<le> 128
     \<and> list_all (\<lambda>c. is_alnum c \<or> c = CHR ''_'' \<or> c = CHR ''-'') b)"

section \<open>Validation\<close>

definition opt_len :: "'v raw_ops \<Rightarrow> 'v option \<Rightarrow> nat" where
  "opt_len ops v = (case v of None \<Rightarrow> 0 | Some x \<Rightarrow> raw_len ops x)"

definition opt_valid :: "'v raw_ops \<Rightarrow> 'v option \<Rightarrow> bool" where
  "opt_valid ops v = (case v of None \<Rightarrow> False | Some x \<Rightarrow> raw_valid ops x)"

fun validate_checks :: "kv_check list \<Rightarrow> string list \<Rightarrow> string list option" where
  "validate_checks [] checked = Some checked"
| "validate_checks (c # cs) checked =
     (if \<not> documentKey (c_Key c) \<or> c_Key c \<in> set checked then None
      else validate_checks cs (c_Key c # checked))"

fun validate_writes ::
  "'v raw_ops \<Rightarrow> string list \<Rightarrow> 'v kv_write list \<Rightarrow> string list \<Rightarrow> bool" where
  "validate_writes ops checked [] written = True"
| "validate_writes ops checked (w # ws) written =
     (if w_Key w \<notin> set checked \<or> w_Key w \<in> set written
         \<or> (w_Delete w \<and> opt_len ops (w_Value w) \<noteq> 0)
         \<or> (\<not> w_Delete w \<and> (opt_len ops (w_Value w) > maxValue \<or> \<not> opt_valid ops (w_Value w)))
      then False else validate_writes ops checked ws (w_Key w # written))"

definition validateTransaction :: "'v raw_ops \<Rightarrow> 'v kv_transaction \<Rightarrow> err option" where
  "validateTransaction ops t =
     (if t_Schema t \<noteq> 1 \<or> \<not> Durability_Valid (t_Durability t)
         \<or> length (t_Checks t) = 0 \<or> length (t_Checks t) > maxChanges
         \<or> length (t_Writes t) = 0 \<or> length (t_Writes t) > maxChanges
      then Some KvErrInvalid
      else case validate_checks (t_Checks t) [] of
        None \<Rightarrow> Some KvErrInvalid
      | Some checked \<Rightarrow>
          if validate_writes ops checked (t_Writes t) [] then None else Some KvErrInvalid)"

section \<open>The state machine\<close>

type_synonym 'v records = "(string, 'v kv_record) fmap"

record 'v cstate =
  s_clusterID :: string
  s_records :: "'v records"
  s_bytes :: int
  s_index :: "64 word"
  s_generation :: "64 word"
  s_versionCeiling :: "64 word"
  s_historyDigest :: string

definition newState :: "string \<Rightarrow> 'v cstate" where
  "newState cid = \<lparr>s_clusterID = cid, s_records = fmempty, s_bytes = 0, s_index = 0,
     s_generation = 0, s_versionCeiling = 0, s_historyDigest = []\<rparr>"

record ('c, 'v) wire =
  data_len :: "'c \<Rightarrow> nat"
  decode_tx :: "'c \<Rightarrow> 'v kv_transaction option"
  chain :: "string \<Rightarrow> 'c \<Rightarrow> string"

record 'c raft_log =
  l_Index :: "64 word"
  l_Term :: "64 word"
  l_Data :: 'c

text \<open>Reading a missing key of a Go map gives the zero record, whose version is 0.\<close>

definition version_of :: "'v records \<Rightarrow> string \<Rightarrow> 64 word" where
  "version_of m k = (case fmlookup m k of None \<Rightarrow> 0 | Some r \<Rightarrow> r_Version r)"

definition entry_size :: "'v raw_ops \<Rightarrow> string \<Rightarrow> 'v kv_record \<Rightarrow> int" where
  "entry_size ops k r = int (length k + raw_len ops (r_Value r))"

text \<open>The prospective record count and byte size, accumulated over the writes.\<close>

definition account :: "'v raw_ops \<Rightarrow> 'v records \<Rightarrow> 'v kv_write \<Rightarrow> int \<times> int \<Rightarrow> int \<times> int" where
  "account ops m w = (\<lambda>(count, sz).
     (let (count, sz) = (case fmlookup m (w_Key w) of
            None \<Rightarrow> (count, sz)
          | Some old \<Rightarrow> (count - 1, sz - entry_size ops (w_Key w) old))
      in if w_Delete w then (count, sz)
         else (count + 1, sz + int (length (w_Key w) + opt_len ops (w_Value w)))))"

definition apply_write :: "64 word \<Rightarrow> 'v kv_write \<Rightarrow> 'v cstate \<Rightarrow> 'v cstate" where
  "apply_write version w s =
     (if w_Delete w then s\<lparr>s_records := fmdrop (w_Key w) (s_records s)\<rparr>
      else case w_Value w of
        None \<Rightarrow> s
      | Some v \<Rightarrow>
          s\<lparr>s_records := fmupd (w_Key w) \<lparr>r_Version = version, r_Value = v\<rparr> (s_records s),
            s_versionCeiling := max version (s_versionCeiling s)\<rparr>)"

definition log_version :: "'c raft_log \<Rightarrow> 'v kv_transaction \<Rightarrow> 64 word" where
  "log_version l t = (if t_Revision t \<noteq> 0 then t_Revision t else l_Index l)"

definition Apply ::
  "'v raw_ops \<Rightarrow> ('c, 'v) wire \<Rightarrow> 'v cstate \<Rightarrow> 'c raft_log \<Rightarrow> err option \<times> 'v cstate" where
  "Apply ops wr s0 l = (let s = s0\<lparr>s_index := l_Index l\<rparr> in
     if data_len wr (l_Data l) > maxCommand then (Some KvErrInvalid, s)
     else case decode_tx wr (l_Data l) of
       None \<Rightarrow> (Some KvErrInvalid, s)
     | Some t \<Rightarrow>
         if validateTransaction ops t \<noteq> None then (Some KvErrInvalid, s)
         else if t_Revision t \<noteq> 0
                 \<and> (drop_bit 32 (t_Revision t) \<noteq> l_Term l \<or> (ucast (t_Revision t) :: 32 word) = 0)
              then (Some KvErrInvalid, s)
         else if list_ex (\<lambda>c. version_of (s_records s) (c_Key c) \<noteq> c_Version c) (t_Checks t)
              then (Some KvErrConflict, s)
         else (let (count, sz) = fold (account ops (s_records s)) (t_Writes t)
                     (int (fcard (fmdom (s_records s))), s_bytes s)
               in if count > maxRecords \<or> sz > maxStateBytes then (Some KvErrCapacity, s)
                  else (let version = log_version l t;
                            s1 = s\<lparr>s_versionCeiling := max version (s_versionCeiling s),
                                   s_historyDigest := chain wr (s_historyDigest s) (l_Data l)\<rparr>;
                            s2 = fold (apply_write version) (t_Writes t) s1
                        in (None, s2\<lparr>s_bytes := sz\<rparr>))))"

fun copyRecords :: "'v records \<Rightarrow> string list \<Rightarrow> 'v records" where
  "copyRecords m [] = fmempty"
| "copyRecords m (k # ks) = (case fmlookup m k of
     None \<Rightarrow> copyRecords m ks
   | Some r \<Rightarrow> fmupd k r (copyRecords m ks))"

definition read_state :: "'v cstate \<Rightarrow> string list \<Rightarrow> 'v records" where
  "read_state s keys = copyRecords (s_records s) keys"

definition appliedIndex :: "'v cstate \<Rightarrow> 64 word" where
  "appliedIndex s = s_index s"

section \<open>Snapshots\<close>

text \<open>A decoded snapshot; its record map may be nil (\<open>None\<close>).\<close>

record 'v snapshot =
  sn_Schema :: int
  sn_ClusterID :: string
  sn_Index :: "64 word"
  sn_Records :: "'v records option"
  sn_VersionCeiling :: "64 word"
  sn_HistoryDigest :: string

definition Snapshot :: "'v cstate \<Rightarrow> 'v snapshot" where
  "Snapshot s = \<lparr>sn_Schema = 1, sn_ClusterID = s_clusterID s, sn_Index = s_index s,
     sn_Records = Some (s_records s), sn_VersionCeiling = s_versionCeiling s,
     sn_HistoryDigest = s_historyDigest s\<rparr>"

text \<open>\<open>hex.DecodeString\<close> gives 32 bytes exactly for 64 hexadecimal digits of either case.\<close>

definition hex_digest32 :: "string \<Rightarrow> bool" where
  "hex_digest32 s \<longleftrightarrow> length s = 64 \<and> list_all (\<lambda>c. is_hex c \<or> char_between 65 70 c) s"

text \<open>The loop over the decoded map, in the order \<open>ks\<close> the runtime chooses.\<close>

fun restore_size ::
  "'v raw_ops \<Rightarrow> 'v snapshot \<Rightarrow> 'v records \<Rightarrow> string list \<Rightarrow> int \<Rightarrow> err + int" where
  "restore_size ops sn m [] sz = Inr sz"
| "restore_size ops sn m (k # ks) sz = (case fmlookup m k of
     None \<Rightarrow> restore_size ops sn m ks sz
   | Some r \<Rightarrow>
       if \<not> documentKey k \<or> r_Version r = 0 \<or> r_Version r > max (sn_Index sn) (sn_VersionCeiling sn)
          \<or> raw_len ops (r_Value r) > maxValue \<or> \<not> raw_valid ops (r_Value r)
       then Inl KvErrInvalid
       else if sz + entry_size ops k r > maxStateBytes then Inl KvErrCapacity
       else restore_size ops sn m ks (sz + entry_size ops k r))"

text \<open>\<open>Restore\<close> on the bytes \<open>data\<close>: \<open>len\<close> and \<open>decode\<close> are their length and strict JSON decoding,
  \<open>order\<close> the iteration order of the decoded map.\<close>

definition Restore ::
  "'v raw_ops \<Rightarrow> ('b \<Rightarrow> nat) \<Rightarrow> ('b \<Rightarrow> 'v snapshot option) \<Rightarrow> ('v records \<Rightarrow> string list)
    \<Rightarrow> 'v cstate \<Rightarrow> 'b \<Rightarrow> err option \<times> 'v cstate" where
  "Restore ops len decode order s data =
     (if len data > maxSnapshot then (Some KvErrInvalid, s)
      else case decode data of
        None \<Rightarrow> (Some KvErrInvalid, s)
      | Some sn \<Rightarrow> (case sn_Records sn of
          None \<Rightarrow> (Some KvErrInvalid, s)
        | Some m \<Rightarrow>
            if sn_Schema sn \<noteq> 1 \<or> sn_ClusterID sn \<noteq> s_clusterID s
               \<or> int (fcard (fmdom m)) > maxRecords then (Some KvErrInvalid, s)
            else if sn_HistoryDigest sn \<noteq> [] \<and> \<not> hex_digest32 (sn_HistoryDigest sn)
              then (Some KvErrInvalid, s)
            else (case restore_size ops sn m (order m) 0 of
                Inl e \<Rightarrow> (Some e, s)
              | Inr sz \<Rightarrow>
                  (None, s\<lparr>s_generation := s_generation s + 1, s_records := m,
                           s_index := sn_Index sn, s_bytes := sz,
                           s_versionCeiling := sn_VersionCeiling sn,
                           s_historyDigest := sn_HistoryDigest sn\<rparr>))))"


section \<open>What validation guarantees\<close>

definition write_ok :: "'v raw_ops \<Rightarrow> 'v kv_write \<Rightarrow> bool" where
  "write_ok ops w \<longleftrightarrow> (if w_Delete w then opt_len ops (w_Value w) = 0
     else opt_len ops (w_Value w) \<le> maxValue \<and> opt_valid ops (w_Value w))"

lemma write_ok_value:
  assumes "write_ok ops w" "\<not> w_Delete w"
  obtains v where "w_Value w = Some v" "raw_len ops v \<le> maxValue" "raw_valid ops v"
  using assms by (auto simp: write_ok_def opt_len_def opt_valid_def split: option.splits)

lemma validate_checks_Some:
  "validate_checks cs ck = Some r \<Longrightarrow>
     set r = set ck \<union> c_Key ` set cs \<and> (\<forall>c \<in> set cs. documentKey (c_Key c))
     \<and> distinct (map c_Key cs) \<and> set ck \<inter> c_Key ` set cs = {}"
proof (induction cs ck rule: validate_checks.induct)
  case (2 c cs ck)
  from "2.prems" have g: "documentKey (c_Key c)" "c_Key c \<notin> set ck"
    and v: "validate_checks cs (c_Key c # ck) = Some r"
    by (simp_all split: if_splits)
  have "\<not> (\<not> documentKey (c_Key c) \<or> c_Key c \<in> set ck)" using g by simp
  note IH = "2.IH"[OF this v]
  show ?case using g IH by (auto simp del: validate_checks.simps)
qed simp

lemma validate_writes_True:
  "validate_writes ops ck ws wr \<Longrightarrow>
     w_Key ` set ws \<subseteq> set ck \<and> distinct (map w_Key ws) \<and> set wr \<inter> w_Key ` set ws = {}
     \<and> (\<forall>w \<in> set ws. write_ok ops w)"
proof (induction ws arbitrary: wr)
  case (Cons w ws)
  from Cons.prems have g: "w_Key w \<in> set ck" "w_Key w \<notin> set wr" "write_ok ops w"
    and v: "validate_writes ops ck ws (w_Key w # wr)"
    by (auto simp: write_ok_def split: if_splits)
  show ?case using g Cons.IH[OF v] by auto
qed simp

lemma validateTransaction_None:
  assumes "validateTransaction ops t = None"
  shows "distinct (map w_Key (t_Writes t))"
    and "w_Key ` set (t_Writes t) \<subseteq> c_Key ` set (t_Checks t)"
    and "\<forall>c \<in> set (t_Checks t). documentKey (c_Key c)"
    and "\<forall>w \<in> set (t_Writes t). write_ok ops w"
    and "t_Writes t \<noteq> []" and "t_Checks t \<noteq> []"
    and "distinct (map c_Key (t_Checks t))"
    and "length (t_Checks t) \<le> maxChanges"
proof -
  from assms obtain r where r: "validate_checks (t_Checks t) [] = Some r"
    and w: "validate_writes ops r (t_Writes t) []"
    and l: "t_Writes t \<noteq> []" "t_Checks t \<noteq> []" "length (t_Checks t) \<le> maxChanges"
    by (auto simp: validateTransaction_def split: if_splits option.splits)
  show "distinct (map w_Key (t_Writes t))" "\<forall>w \<in> set (t_Writes t). write_ok ops w"
    using validate_writes_True[OF w] by blast+
  show "w_Key ` set (t_Writes t) \<subseteq> c_Key ` set (t_Checks t)"
    using validate_writes_True[OF w] validate_checks_Some[OF r] by simp
  show "\<forall>c \<in> set (t_Checks t). documentKey (c_Key c)" "distinct (map c_Key (t_Checks t))"
    using validate_checks_Some[OF r] by blast+
  show "t_Writes t \<noteq> []" "t_Checks t \<noteq> []" "length (t_Checks t) \<le> maxChanges"
    using l by blast+
qed

section \<open>The effect of the writes on the records\<close>

definition put_write :: "64 word \<Rightarrow> 'v kv_write \<Rightarrow> 'v records \<Rightarrow> 'v records" where
  "put_write version w m =
     (if w_Delete w then fmdrop (w_Key w) m
      else case w_Value w of
        None \<Rightarrow> m
      | Some v \<Rightarrow> fmupd (w_Key w) \<lparr>r_Version = version, r_Value = v\<rparr> m)"

lemma s_records_apply_write [simp]:
  "s_records (apply_write version w s) = put_write version w (s_records s)"
  by (auto simp: apply_write_def put_write_def split: option.splits)

lemma apply_write_frame [simp]:
  "s_clusterID (apply_write version w s) = s_clusterID s"
  "s_index (apply_write version w s) = s_index s"
  "s_generation (apply_write version w s) = s_generation s"
  "s_historyDigest (apply_write version w s) = s_historyDigest s"
  by (auto simp: apply_write_def split: option.splits)

lemma fold_apply_write [simp]:
  "s_records (fold (apply_write version) ws s) = fold (put_write version) ws (s_records s)"
  "s_clusterID (fold (apply_write version) ws s) = s_clusterID s"
  "s_index (fold (apply_write version) ws s) = s_index s"
  "s_generation (fold (apply_write version) ws s) = s_generation s"
  "s_historyDigest (fold (apply_write version) ws s) = s_historyDigest s"
  by (induction ws arbitrary: s) auto

lemma fold_apply_write_ceiling:
  "version \<le> s_versionCeiling s \<Longrightarrow>
     s_versionCeiling (fold (apply_write version) ws s) = s_versionCeiling s"
proof (induction ws arbitrary: s)
  case (Cons w ws)
  have "s_versionCeiling (apply_write version w s) = s_versionCeiling s"
    using Cons.prems by (auto simp: apply_write_def max_def split: option.splits)
  then show ?case using Cons by simp
qed simp

text \<open>A write list with distinct keys acts key by key.\<close>

definition written :: "64 word \<Rightarrow> 'v kv_write \<Rightarrow> 'v kv_record option" where
  "written version w = (if w_Delete w then None
     else map_option (\<lambda>v. \<lparr>r_Version = version, r_Value = v\<rparr>) (w_Value w))"

lemma lookup_put_write:
  "write_ok ops w \<Longrightarrow> fmlookup (put_write version w m) k =
     (if k = w_Key w then written version w else fmlookup m k)"
  by (auto simp: put_write_def written_def write_ok_def opt_valid_def split: option.splits if_splits)

lemma lookup_fold_put_write_other:
  "\<forall>w \<in> set ws. write_ok ops w \<Longrightarrow> k \<notin> w_Key ` set ws \<Longrightarrow>
     fmlookup (fold (put_write version) ws m) k = fmlookup m k"
  by (induction ws arbitrary: m) (auto simp: lookup_put_write)

lemma lookup_fold_put_write:
  assumes "\<forall>w \<in> set ws. write_ok ops w" "distinct (map w_Key ws)" "w \<in> set ws"
  shows "fmlookup (fold (put_write version) ws m) (w_Key w) = written version w"
  using assms
proof (induction ws arbitrary: m)
  case (Cons x ws)
  then show ?case
    by (cases "w = x") (auto simp: lookup_put_write lookup_fold_put_write_other image_iff)
qed simp

section \<open>Accounting is exact\<close>

definition records_size :: "'v raw_ops \<Rightarrow> 'v records \<Rightarrow> int" where
  "records_size ops m = (\<Sum>k \<in> fset (fmdom m). entry_size ops k (the (fmlookup m k)))"

definition old_size :: "'v raw_ops \<Rightarrow> 'v records \<Rightarrow> string \<Rightarrow> int" where
  "old_size ops m k = (case fmlookup m k of None \<Rightarrow> 0 | Some r \<Rightarrow> entry_size ops k r)"

lemma records_size_fmdrop: "records_size ops (fmdrop k m) = records_size ops m - old_size ops m k"
proof (cases "fmlookup m k")
  case None
  then have "fmdrop k m = m" by (intro fmap_ext) auto
  then show ?thesis using None by (simp add: old_size_def)
next
  case (Some r)
  then have k: "k \<in> fset (fmdom m)" by (simp add: fmdomI)
  have "records_size ops (fmdrop k m) =
      (\<Sum>j \<in> fset (fmdom m) - {k}. entry_size ops j (the (fmlookup m j)))"
    unfolding records_size_def by (rule sum.cong) auto
  also have "\<dots> = records_size ops m - entry_size ops k r"
    using k Some unfolding records_size_def by (simp add: sum_diff1)
  finally show ?thesis using Some by (simp add: old_size_def)
qed

lemma records_size_fmupd:
  "records_size ops (fmupd k r m) = records_size ops m - old_size ops m k + entry_size ops k r"
proof -
  have "records_size ops (fmupd k r m) =
      (\<Sum>j \<in> insert k (fset (fmdom m) - {k}). entry_size ops j (the (fmlookup (fmupd k r m) j)))"
    unfolding records_size_def by (rule sum.cong) auto
  also have "\<dots> = entry_size ops k r +
      (\<Sum>j \<in> fset (fmdom m) - {k}. entry_size ops j (the (fmlookup (fmupd k r m) j)))"
    by (subst sum.insert) auto
  also have "(\<Sum>j \<in> fset (fmdom m) - {k}. entry_size ops j (the (fmlookup (fmupd k r m) j)))
      = records_size ops (fmdrop k m)"
    unfolding records_size_def by (rule sum.cong) auto
  finally show ?thesis by (simp add: records_size_fmdrop)
qed

lemma fcard_fmdrop:
  "int (fcard (fmdom m |-| {|k|})) = int (fcard (fmdom m)) - (if fmlookup m k = None then 0 else 1)"
proof (cases "fmlookup m k")
  case None
  then have "k |\<notin>| fmdom m" by (simp add: fmdom_notI)
  then show ?thesis using None by simp
next
  case (Some r)
  then have k: "k \<in> fset (fmdom m)" by (simp add: fmdomI)
  then have "0 < card (fset (fmdom m))" by (metis card_gt_0_iff empty_iff finite_fset)
  then show ?thesis using k Some by (simp add: fcard.rep_eq card_Diff_singleton)
qed

lemma fcard_fmupd:
  "int (fcard (finsert k (fmdom m))) = int (fcard (fmdom m)) + (if fmlookup m k = None then 1 else 0)"
  by (auto simp: fcard_finsert_if fmdom_notI dest: fmdomI)

lemma account_put_write:
  assumes "write_ok ops w" "fmlookup m' (w_Key w) = fmlookup m (w_Key w)"
  shows "account ops m w (int (fcard (fmdom m')), records_size ops m') =
    (int (fcard (fmdom (put_write version w m'))), records_size ops (put_write version w m'))"
proof (cases "w_Delete w")
  case True
  then show ?thesis using assms(2)
    by (auto simp: account_def put_write_def records_size_fmdrop fcard_fmdrop old_size_def
        split: option.splits)
next
  case False
  from write_ok_value[OF assms(1) False] obtain v where "w_Value w = Some v" by metis
  then show ?thesis using False assms(2)
    by (auto simp: account_def put_write_def records_size_fmupd fcard_fmupd old_size_def
        entry_size_def opt_len_def split: option.splits)
qed

lemma fold_account:
  assumes "\<forall>w \<in> set ws. write_ok ops w" "distinct (map w_Key ws)"
    and "\<forall>w \<in> set ws. fmlookup m' (w_Key w) = fmlookup m (w_Key w)"
  shows "fold (account ops m) ws (int (fcard (fmdom m')), records_size ops m') =
    (int (fcard (fmdom (fold (put_write version) ws m'))),
     records_size ops (fold (put_write version) ws m'))"
  using assms
proof (induction ws arbitrary: m')
  case (Cons w ws)
  have "\<forall>x \<in> set ws. fmlookup (put_write version w m') (w_Key x) = fmlookup m (w_Key x)"
    using Cons.prems by (auto simp: lookup_put_write image_iff)
  then show ?case
    using Cons.IH[of "put_write version w m'"] Cons.prems account_put_write[of ops w m' m version]
    by simp
qed simp


section \<open>The state invariant\<close>

definition record_ok :: "'v raw_ops \<Rightarrow> 64 word \<Rightarrow> string \<Rightarrow> 'v kv_record \<Rightarrow> bool" where
  "record_ok ops ceil k r \<longleftrightarrow> documentKey k \<and> r_Version r \<noteq> 0 \<and> r_Version r \<le> ceil
     \<and> raw_len ops (r_Value r) \<le> maxValue \<and> raw_valid ops (r_Value r)"

definition state_ok :: "'v raw_ops \<Rightarrow> 'v cstate \<Rightarrow> bool" where
  "state_ok ops s \<longleftrightarrow>
     (\<forall>k r. fmlookup (s_records s) k = Some r \<longrightarrow> record_ok ops (s_versionCeiling s) k r)
     \<and> s_bytes s = records_size ops (s_records s) \<and> s_bytes s \<le> maxStateBytes
     \<and> int (fcard (fmdom (s_records s))) \<le> maxRecords
     \<and> (s_historyDigest s = [] \<or> hex_digest32 (s_historyDigest s))"

lemma newState_ok: "state_ok ops (newState cid)"
  by (simp add: state_ok_def newState_def records_size_def maxStateBytes_def maxRecords_def
      fcard.rep_eq)

text \<open>Success of \<open>Apply\<close>, unfolded once for all proofs below.\<close>

definition apply_result ::
  "'v raw_ops \<Rightarrow> ('c, 'v) wire \<Rightarrow> 'v cstate \<Rightarrow> 'c raft_log \<Rightarrow> 'v kv_transaction \<Rightarrow> 'v cstate \<Rightarrow> bool"
where
  "apply_result ops wr s l t s' \<longleftrightarrow>
     decode_tx wr (l_Data l) = Some t \<and> validateTransaction ops t = None
     \<and> (t_Revision t \<noteq> 0 \<longrightarrow> drop_bit 32 (t_Revision t) = l_Term l)
     \<and> (\<forall>c \<in> set (t_Checks t). version_of (s_records s) (c_Key c) = c_Version c)
     \<and> s_records s' = fold (put_write (log_version l t)) (t_Writes t) (s_records s)
     \<and> s_versionCeiling s' = max (log_version l t) (s_versionCeiling s)
     \<and> s_historyDigest s' = chain wr (s_historyDigest s) (l_Data l)
     \<and> s_index s' = l_Index l \<and> s_clusterID s' = s_clusterID s \<and> s_generation s' = s_generation s
     \<and> s_bytes s' = snd (fold (account ops (s_records s)) (t_Writes t)
              (int (fcard (fmdom (s_records s))), s_bytes s))
     \<and> fst (fold (account ops (s_records s)) (t_Writes t)
              (int (fcard (fmdom (s_records s))), s_bytes s)) \<le> maxRecords
     \<and> s_bytes s' \<le> maxStateBytes"

lemma Apply_None:
  assumes "Apply ops wr s l = (None, s')"
  obtains t where "apply_result ops wr s l t s'"
proof -
  from assms obtain t where t: "decode_tx wr (l_Data l) = Some t"
    and v: "validateTransaction ops t = None"
    and r: "\<not> (t_Revision t \<noteq> 0 \<and> (drop_bit 32 (t_Revision t) \<noteq> l_Term l
              \<or> (ucast (t_Revision t) :: 32 word) = 0))"
    and c: "\<not> list_ex (\<lambda>c. version_of (s_records s) (c_Key c) \<noteq> c_Version c) (t_Checks t)"
    by (auto simp: Apply_def Let_def split: if_splits option.splits)
  let ?a = "fold (account ops (s_records s)) (t_Writes t)
              (int (fcard (fmdom (s_records s))), s_bytes s)"
  obtain n z where a: "?a = (n, z)" by fastforce
  have "Apply ops wr s l =
     (if data_len wr (l_Data l) > maxCommand then (Some KvErrInvalid, s\<lparr>s_index := l_Index l\<rparr>)
      else if n > maxRecords \<or> z > maxStateBytes then (Some KvErrCapacity, s\<lparr>s_index := l_Index l\<rparr>)
      else (None, (fold (apply_write (log_version l t)) (t_Writes t)
             (s\<lparr>s_index := l_Index l,
                s_versionCeiling := max (log_version l t) (s_versionCeiling s),
                s_historyDigest := chain wr (s_historyDigest s) (l_Data l)\<rparr>))\<lparr>s_bytes := z\<rparr>))"
    unfolding Apply_def Let_def using t v r c a by auto
  with assms have s': "s' = (fold (apply_write (log_version l t)) (t_Writes t)
             (s\<lparr>s_index := l_Index l,
                s_versionCeiling := max (log_version l t) (s_versionCeiling s),
                s_historyDigest := chain wr (s_historyDigest s) (l_Data l)\<rparr>))\<lparr>s_bytes := z\<rparr>"
    and lim: "n \<le> maxRecords" "z \<le> maxStateBytes"
    by (auto split: if_splits)
  have "apply_result ops wr s l t s'"
    unfolding apply_result_def using t v r c a lim
    by (auto simp: s' list_ex_iff fold_apply_write_ceiling)
  then show ?thesis by (rule that)
qed

lemma Apply_error:
  assumes "Apply ops wr s l = (Some e, s')"
  shows "s' = s\<lparr>s_index := l_Index l\<rparr>" and "e \<in> {KvErrInvalid, KvErrConflict, KvErrCapacity}"
  using assms by (auto simp: Apply_def Let_def split: if_splits option.splits prod.splits)

lemma apply_result_lookup:
  assumes "apply_result ops wr s l t s'"
  shows "fmlookup (s_records s') k =
    (case find (\<lambda>w. w_Key w = k) (t_Writes t) of
       None \<Rightarrow> fmlookup (s_records s) k
     | Some w \<Rightarrow> written (log_version l t) w)"
proof -
  from assms have v: "validateTransaction ops t = None"
    and r: "s_records s' = fold (put_write (log_version l t)) (t_Writes t) (s_records s)"
    by (simp_all add: apply_result_def)
  note ok = validateTransaction_None[OF v]
  show ?thesis
  proof (cases "find (\<lambda>w. w_Key w = k) (t_Writes t)")
    case None
    then have "k \<notin> w_Key ` set (t_Writes t)" by (auto simp: find_None_iff)
    then show ?thesis using None r lookup_fold_put_write_other[OF ok(4)] by simp
  next
    case (Some w)
    then have "w \<in> set (t_Writes t)" "w_Key w = k" by (auto simp: find_Some_iff)
    then show ?thesis using Some r lookup_fold_put_write[OF ok(4) ok(1), of w] by auto
  qed
qed

lemma apply_result_state_ok:
  assumes "state_ok ops s" "apply_result ops wr s l t s'" "l_Index l \<noteq> 0"
    and hex: "hex_digest32 (chain wr (s_historyDigest s) (l_Data l))"
  shows "state_ok ops s'"
proof -
  from assms(2) have v: "validateTransaction ops t = None"
    and r: "s_records s' = fold (put_write (log_version l t)) (t_Writes t) (s_records s)"
    and c: "s_versionCeiling s' = max (log_version l t) (s_versionCeiling s)"
    and h: "s_historyDigest s' = chain wr (s_historyDigest s) (l_Data l)"
    by (simp_all add: apply_result_def)
  note ok = validateTransaction_None[OF v]
  have acc: "fold (account ops (s_records s)) (t_Writes t)
      (int (fcard (fmdom (s_records s))), s_bytes s) =
      (int (fcard (fmdom (s_records s'))), records_size ops (s_records s'))"
    using fold_account[OF ok(4) ok(1)] assms(1) r by (simp add: state_ok_def)
  have sz: "s_bytes s' = records_size ops (s_records s')" "s_bytes s' \<le> maxStateBytes"
    "int (fcard (fmdom (s_records s'))) \<le> maxRecords"
    using assms(2) unfolding apply_result_def acc by auto
  have "record_ok ops (s_versionCeiling s') k x" if x: "fmlookup (s_records s') k = Some x" for k x
  proof (cases "find (\<lambda>w. w_Key w = k) (t_Writes t)")
    case None
    then have "fmlookup (s_records s) k = Some x"
      using x apply_result_lookup[OF assms(2)] by simp
    then have "record_ok ops (s_versionCeiling s) k x" using assms(1) by (simp add: state_ok_def)
    then show ?thesis by (simp add: record_ok_def c max.coboundedI2)
  next
    case (Some w)
    then have w: "w \<in> set (t_Writes t)" "w_Key w = k" by (auto simp: find_Some_iff)
    have "written (log_version l t) w = Some x" using x apply_result_lookup[OF assms(2)] Some by simp
    then obtain y where y: "\<not> w_Delete w" "w_Value w = Some y"
      "x = \<lparr>r_Version = log_version l t, r_Value = y\<rparr>"
      by (auto simp: written_def split: if_splits)
    have "write_ok ops w" using ok(4) w by blast
    then have "raw_len ops y \<le> maxValue" "raw_valid ops y"
      using y by (auto simp: write_ok_def opt_len_def opt_valid_def)
    moreover have "documentKey k" using ok(2,3) w by fastforce
    moreover have "log_version l t \<noteq> 0" using assms(3) by (simp add: log_version_def)
    ultimately show ?thesis by (simp add: record_ok_def y(3) c)
  qed
  then show ?thesis using sz hex h by (simp add: state_ok_def)
qed

lemma Apply_state_ok:
  assumes "state_ok ops s" "Apply ops wr s l = (res, s')" "l_Index l \<noteq> 0"
    and hex: "\<And>h d. hex_digest32 (chain wr h d)"
  shows "state_ok ops s'"
proof (cases res)
  case None
  with assms(2) obtain t where "apply_result ops wr s l t s'" by (auto elim: Apply_None)
  then show ?thesis using apply_result_state_ok assms by blast
next
  case (Some e)
  then have "s' = s\<lparr>s_index := l_Index l\<rparr>" using Apply_error assms(2) by blast
  then show ?thesis using assms(1) by (simp add: state_ok_def)
qed


section \<open>Reads, snapshots and restoring\<close>

lemma lookup_copyRecords:
  "fmlookup (copyRecords m ks) k = (if k \<in> set ks then fmlookup m k else None)"
  by (induction ks) (auto split: option.splits)

lemma restore_size_ok:
  assumes "distinct ks" "set ks \<subseteq> fset (fmdom m)" "0 \<le> sz"
    and "\<forall>k r. fmlookup m k = Some r \<longrightarrow> record_ok ops (max (sn_Index sn) (sn_VersionCeiling sn)) k r"
    and "sz + (\<Sum>k \<in> set ks. entry_size ops k (the (fmlookup m k))) \<le> maxStateBytes"
  shows "restore_size ops sn m ks sz =
    Inr (sz + (\<Sum>k \<in> set ks. entry_size ops k (the (fmlookup m k))))"
  using assms
proof (induction ks arbitrary: sz)
  case (Cons k ks)
  from Cons.prems obtain r where r: "fmlookup m k = Some r" by (auto simp: fmlookup_dom_iff)
  let ?f = "\<lambda>k. entry_size ops k (the (fmlookup m k))"
  have nonneg: "0 \<le> entry_size ops k r" "0 \<le> sum ?f (set ks)"
    by (auto simp: entry_size_def intro: sum_nonneg)
  have tot: "sz + entry_size ops k r + sum ?f (set ks) \<le> maxStateBytes"
    using Cons.prems r by simp
  have ok: "record_ok ops (max (sn_Index sn) (sn_VersionCeiling sn)) k r"
    using Cons.prems(4) r by blast
  have "restore_size ops sn m (k # ks) sz = restore_size ops sn m ks (sz + entry_size ops k r)"
    using r ok tot nonneg by (auto simp: record_ok_def le_max_iff_disj dest: leD)
  also have "\<dots> = Inr (sz + entry_size ops k r + sum ?f (set ks))"
    using Cons.prems tot nonneg by (intro Cons.IH) auto
  finally show ?case using Cons.prems r by simp
qed simp

lemma restore_size_total:
  "restore_size ops sn m ks sz = Inr z \<Longrightarrow> distinct ks \<Longrightarrow>
     z = sz + (\<Sum>k \<in> set ks. old_size ops m k) \<and> (0 < length ks \<longrightarrow> sz \<le> maxStateBytes \<longrightarrow> z \<le> maxStateBytes)
     \<and> (\<forall>k \<in> set ks. \<forall>r. fmlookup m k = Some r \<longrightarrow>
          record_ok ops (max (sn_Index sn) (sn_VersionCeiling sn)) k r)"
proof (induction ks arbitrary: sz)
  case (Cons k ks)
  show ?case
  proof (cases "fmlookup m k")
    case None
    then show ?thesis using Cons by (cases ks) (auto simp: old_size_def)
  next
    case (Some r)
    with Cons.prems have g: "record_ok ops (max (sn_Index sn) (sn_VersionCeiling sn)) k r"
      "sz + entry_size ops k r \<le> maxStateBytes"
      "restore_size ops sn m ks (sz + entry_size ops k r) = Inr z"
      by (auto simp: record_ok_def le_max_iff_disj not_less split: if_splits)
    show ?thesis using Cons.IH[OF g(3)] Cons.prems(2) Some g
      by (cases ks) (auto simp: old_size_def)
  qed
qed simp

section \<open>Versions identify values\<close>

text \<open>
  A step of a replica: a log entry is applied. The consensus log hands out strictly increasing
  positions and the coordinator strictly increasing revisions, so an entry that succeeds carries a
  version above every version handed out before.
\<close>

inductive cluster_step ::
  "'v raw_ops \<Rightarrow> ('c, 'v) wire \<Rightarrow> 'v cstate \<Rightarrow> 'v cstate \<Rightarrow> bool" for ops wr where
  rejected: "Apply ops wr s l = (Some e, s') \<Longrightarrow> cluster_step ops wr s s'"
| committed: "apply_result ops wr s l t s' \<Longrightarrow> Apply ops wr s l = (None, s') \<Longrightarrow> l_Index l \<noteq> 0 \<Longrightarrow>
    s_versionCeiling s < log_version l t \<Longrightarrow> hex_digest32 (s_historyDigest s') \<Longrightarrow>
    cluster_step ops wr s s'"

definition evolves :: "'v raw_ops \<Rightarrow> ('c, 'v) wire \<Rightarrow> 'v cstate \<Rightarrow> 'v cstate \<Rightarrow> bool" where
  "evolves ops wr s s' \<longleftrightarrow> state_ok ops s \<and> (cluster_step ops wr)\<^sup>*\<^sup>* s s'"

lemma cluster_step_ok: "cluster_step ops wr s s' \<Longrightarrow> state_ok ops s \<Longrightarrow> state_ok ops s'"
proof (induction rule: cluster_step.induct)
  case (rejected s l e s')
  then have "s' = s\<lparr>s_index := l_Index l\<rparr>" using Apply_error by blast
  then show ?case using rejected.prems by (simp add: state_ok_def)
next
  case (committed s l t s')
  then show ?case using apply_result_state_ok[of ops s wr l t s'] by (simp add: apply_result_def)
qed

lemma cluster_steps_identity:
  assumes "(cluster_step ops wr)\<^sup>*\<^sup>* s s'" "state_ok ops s"
  shows "state_ok ops s' \<and> s_versionCeiling s \<le> s_versionCeiling s' \<and>
    (\<forall>k r. fmlookup (s_records s') k = Some r \<longrightarrow> r_Version r \<le> s_versionCeiling s \<longrightarrow>
       fmlookup (s_records s) k = Some r)"
  using assms
proof (induction rule: rtranclp_induct)
  case (step y z)
  then have y: "state_ok ops y" "s_versionCeiling s \<le> s_versionCeiling y"
    and idy: "\<forall>k r. fmlookup (s_records y) k = Some r \<longrightarrow> r_Version r \<le> s_versionCeiling s \<longrightarrow>
       fmlookup (s_records s) k = Some r" by blast+
  from step.hyps(2) show ?case
  proof cases
    case (rejected l e)
    then have "z = y\<lparr>s_index := l_Index l\<rparr>" using Apply_error by blast
    then show ?thesis using y idy by (simp add: state_ok_def)
  next
    case (committed l t)
    have "s_versionCeiling s \<le> s_versionCeiling z"
      using committed(1) y(2) by (simp add: apply_result_def max.coboundedI2)
    moreover have "fmlookup (s_records s) k = Some r"
      if r: "fmlookup (s_records z) k = Some r" and v: "r_Version r \<le> s_versionCeiling s" for k r
    proof -
      have "r_Version r \<noteq> log_version l t" using v committed(4) y(2) by auto
      then have "fmlookup (s_records y) k = Some r"
        using r apply_result_lookup[OF committed(1), of k]
        by (auto simp: written_def split: option.splits if_splits)
      then show ?thesis using idy v by blast
    qed
    ultimately show ?thesis using cluster_step_ok[OF step.hyps(2) y(1)] by blast
  qed
qed auto

lemma version_of_0: "state_ok ops s \<Longrightarrow> version_of (s_records s) k = 0 \<longleftrightarrow> fmlookup (s_records s) k = None"
  by (auto simp: version_of_def state_ok_def record_ok_def split: option.splits)

lemma evolves_identity:
  assumes "evolves ops wr s s'" "version_of (s_records s) k = version_of (s_records s') k"
  shows "fmlookup (s_records s) k = fmlookup (s_records s') k"
proof -
  from assms(1) have ok: "state_ok ops s" "state_ok ops s'"
    and id: "\<forall>k r. fmlookup (s_records s') k = Some r \<longrightarrow> r_Version r \<le> s_versionCeiling s \<longrightarrow>
       fmlookup (s_records s) k = Some r"
    using cluster_steps_identity[of ops wr s s'] by (auto simp: evolves_def)
  show ?thesis
  proof (cases "fmlookup (s_records s) k")
    case None
    then have "version_of (s_records s') k = 0" using assms(2) by (simp add: version_of_def)
    then show ?thesis using None version_of_0[OF ok(2)] by simp
  next
    case (Some r)
    then have r: "record_ok ops (s_versionCeiling s) k r" using ok(1) by (simp add: state_ok_def)
    then have "version_of (s_records s') k \<noteq> 0" using assms(2) Some by (simp add: version_of_def record_ok_def)
    then obtain r' where r': "fmlookup (s_records s') k = Some r'"
      using version_of_0[OF ok(2)] by fastforce
    then have "r_Version r' = r_Version r" using assms(2) Some by (simp add: version_of_def)
    then show ?thesis using id r' r by (auto simp: record_ok_def)
  qed
qed


section \<open>Properties\<close>

text \<open>A concrete instance for the witnesses: numbers as values, transactions as log data.\<close>

definition demo_ops :: "nat raw_ops" where
  "demo_ops = \<lparr>raw_len = (\<lambda>_. 10), raw_valid = (\<lambda>_. True)\<rparr>"

definition demo_wire :: "(nat kv_transaction, nat) wire" where
  "demo_wire = \<lparr>data_len = (\<lambda>_. 100), decode_tx = Some, chain = (\<lambda>_ _. replicate 64 (CHR ''0''))\<rparr>"

definition demo_tx :: "64 word \<Rightarrow> nat kv_transaction" where
  "demo_tx v = \<lparr>t_Schema = 1, t_Checks = [\<lparr>c_Key = ''slugs/a'', c_Version = v\<rparr>],
     t_Writes = [\<lparr>w_Key = ''slugs/a'', w_Value = Some 7, w_Delete = False\<rparr>],
     t_Durability = Replicated, t_Revision = 0\<rparr>"

definition demo_log :: "64 word \<Rightarrow> 64 word \<Rightarrow> nat kv_transaction raft_log" where
  "demo_log i v = \<lparr>l_Index = i, l_Term = 1, l_Data = demo_tx v\<rparr>"

definition demo_state :: "nat cstate" where
  "demo_state = snd (Apply demo_ops demo_wire (newState ''c'') (demo_log 5 0))"

lemma demo_chain_hex: "hex_digest32 (chain demo_wire h d)"
  by (simp add: demo_wire_def hex_digest32_def char_class_defs list_all_iff)

lemma demo_key: "documentKey ''slugs/a''"
  by (simp add: documentKey_def cut_def char_class_defs)

lemma demo_validate: "validateTransaction demo_ops (demo_tx v) = None"
  using demo_key by (simp add: validateTransaction_def demo_tx_def demo_ops_def Durability_Valid_def
      maxChanges_def maxValue_def opt_len_def opt_valid_def)

lemma demo_apply: "Apply demo_ops demo_wire (newState ''c'') (demo_log 5 0) = (None, demo_state)"
proof -
  have "fst (Apply demo_ops demo_wire (newState ''c'') (demo_log 5 0)) = None"
    using demo_validate[of 0] unfolding Apply_def Let_def demo_log_def
    by (simp add: demo_wire_def newState_def version_of_def demo_tx_def account_def maxCommand_def
        maxRecords_def maxStateBytes_def opt_len_def demo_ops_def fcard.rep_eq)
  then show ?thesis by (metis demo_state_def prod.collapse)
qed

lemma demo_state_records:
  "s_records demo_state = fmupd ''slugs/a'' \<lparr>r_Version = 5, r_Value = 7\<rparr> fmempty"
  using demo_apply by (elim Apply_None)
    (auto simp: apply_result_def demo_log_def demo_wire_def demo_tx_def put_write_def newState_def
      log_version_def)

lemma demo_state_ok: "state_ok demo_ops demo_state"
  using Apply_state_ok[OF newState_ok demo_apply _ demo_chain_hex] by (simp add: demo_log_def)

text \<open>
  C4. Every log entry keeps the replicated state well formed, whether it is accepted or rejected:
  each key matches the document pattern, every record has a nonzero version no larger than the
  ceiling and a valid bounded value, the byte counter is exactly the size of all records, and the
  record and byte capacities are respected. The only assumptions on the environment are that log
  positions start at 1 and that the SHA-256 chain is 64 hexadecimal digits.
\<close>

theorem Apply_preserves_state:
  assumes "state_ok ops s" "l_Index l \<noteq> 0" "\<And>h d. hex_digest32 (chain wr h d)"
  shows "state_ok ops (snd (Apply ops wr s l))"
  using Apply_state_ok[OF assms(1) _ assms(2,3)] by (metis prod.collapse)

theorem Apply_preserves_state_witness:
  "state_ok demo_ops (snd (Apply demo_ops demo_wire demo_state (demo_log 6 5)))"
  by (rule Apply_preserves_state[OF demo_state_ok _ demo_chain_hex]) (simp add: demo_log_def)

text \<open>
  C23. \<open>Apply\<close> is all or nothing. A rejected entry (invalid, conflicting or over capacity) changes
  nothing but the applied index. An accepted entry had every check match the current version of its
  key, and afterwards each written key holds exactly the written value under the entry's version
  (or nothing, for a deletion) while every other key is untouched.
\<close>

theorem Apply_atomic:
  "case Apply ops wr s l of
     (Some e, s') \<Rightarrow> s' = s\<lparr>s_index := l_Index l\<rparr> \<and> e \<in> {KvErrInvalid, KvErrConflict, KvErrCapacity}
   | (None, s') \<Rightarrow> (\<exists>t. decode_tx wr (l_Data l) = Some t \<and> validateTransaction ops t = None
       \<and> list_all (\<lambda>c. version_of (s_records s) (c_Key c) = c_Version c) (t_Checks t)
       \<and> fmlookup (s_records s') = (\<lambda>k. case find (\<lambda>w. w_Key w = k) (t_Writes t) of
            None \<Rightarrow> fmlookup (s_records s) k
          | Some w \<Rightarrow> written (log_version l t) w))"
proof (cases "Apply ops wr s l")
  case (Pair res s')
  show ?thesis
  proof (cases res)
    case None
    with Pair obtain t where t: "apply_result ops wr s l t s'" by (auto elim: Apply_None)
    then have "decode_tx wr (l_Data l) = Some t \<and> validateTransaction ops t = None
       \<and> list_all (\<lambda>c. version_of (s_records s) (c_Key c) = c_Version c) (t_Checks t)"
      by (auto simp: apply_result_def list_all_iff)
    then show ?thesis using Pair None apply_result_lookup[OF t] by auto
  next
    case (Some e)
    then show ?thesis using Pair Apply_error[of ops wr s l e s'] by simp
  qed
qed

text \<open>
  C25. Restoring a snapshot reproduces the state it was taken from: for any well-formed state, any
  replica of the same cluster that decodes the snapshot's bytes accepts them in whatever order the
  map is iterated, and ends in the same records, counters, ceiling and history digest, with its
  restore generation advanced.
\<close>

theorem Restore_Snapshot:
  assumes "state_ok ops s" "s_clusterID s0 = s_clusterID s" "s_generation s = s_generation s0 + 1"
    and "len data \<le> maxSnapshot" "decode data = Some (Snapshot s)"
    and "distinct (order (s_records s))" "set (order (s_records s)) = fset (fmdom (s_records s))"
  shows "Restore ops len decode order s0 data = (None, s)"
proof -
  have "restore_size ops (Snapshot s) (s_records s) (order (s_records s)) 0 =
      Inr (0 + (\<Sum>k \<in> set (order (s_records s)). entry_size ops k (the (fmlookup (s_records s) k))))"
  proof (rule restore_size_ok)
    show "\<forall>k r. fmlookup (s_records s) k = Some r \<longrightarrow>
        record_ok ops (max (sn_Index (Snapshot s)) (sn_VersionCeiling (Snapshot s))) k r"
      using assms(1) by (auto simp: state_ok_def record_ok_def Snapshot_def le_max_iff_disj)
  qed (use assms in \<open>auto simp: state_ok_def records_size_def\<close>)
  then have "restore_size ops (Snapshot s) (s_records s) (order (s_records s)) 0 = Inr (s_bytes s)"
    using assms by (simp add: state_ok_def records_size_def)
  then show ?thesis using assms
    by (auto simp: Restore_def Snapshot_def state_ok_def)
qed

theorem Restore_Snapshot_witness:
  "Restore demo_ops (\<lambda>_. 1000) Some (\<lambda>_. [''slugs/a'']) (newState ''c'')
     (Snapshot (demo_state\<lparr>s_generation := 1\<rparr>)) = (None, demo_state\<lparr>s_generation := 1\<rparr>)"
proof (rule Restore_Snapshot)
  show "state_ok demo_ops (demo_state\<lparr>s_generation := 1\<rparr>)"
    using demo_state_ok by (simp add: state_ok_def)
  show "s_clusterID (newState ''c'' :: nat cstate) = s_clusterID (demo_state\<lparr>s_generation := 1\<rparr>)"
    using demo_apply by (elim Apply_None) (simp add: apply_result_def)
qed (simp_all add: newState_def maxSnapshot_def demo_state_records)



end
