(* ===== verification/Metadata_Tx.thy ===== *)
theory Metadata_Tx
  imports Cluster_State
begin

text \<open>
  Optimistic transactions over the replicated records (\<open>internal/metadata/transaction.go\<close>) and the
  node operations they call (\<open>Read\<close>, \<open>Check\<close>, \<open>Commit\<close> of \<open>internal/cluster/node.go\<close>).

  A transaction body is a function of the transaction state that returns an error or a value with
  the new state (\<open>txm\<close>); the state survives an error, because callers inspect errors such as
  \<open>ErrNotFound\<close> and go on. The state holds what the Go struct \<open>Tx\<close> holds: the backend (its read and
  check functions at this attempt), the cached reads, the buffered writes, the durability and the
  flags. Gob and JSON encoding are a parameter (\<open>codec\<close>) with the laws of a faithful codec.
\<close>

named_theorems replay_intros \<open>how transaction bodies are built from replayable steps\<close>

named_theorems tx_elims \<open>what a successful step of a transaction body implies\<close>

section \<open>Encoding\<close>

record ('v, 'd) codec =
  cd_raw :: "'v raw_ops"
  marshal_envelope :: "'d \<Rightarrow> 'v option"
  unmarshal_envelope :: "'v \<Rightarrow> (int \<times> 'd option) option"

text \<open>
  \<open>marshal_envelope d\<close> is the JSON of an envelope of schema 1 around the gob bytes of \<open>d\<close> (\<open>None\<close>
  when gob cannot encode it); \<open>unmarshal_envelope\<close> is the JSON decoding followed by the gob decoding
  of the inner bytes.
\<close>

definition Encode :: "('v, 'd) codec \<Rightarrow> 'd \<Rightarrow> err + 'v" where
  "Encode cd d = (case marshal_envelope cd d of
     None \<Rightarrow> Inl ErrDecode
   | Some v \<Rightarrow> if raw_len (cd_raw cd) v > 65536 then Inl KvErrCapacity else Inr v)"

text \<open>\<open>into\<close> is the Go type decoded into: \<open>None\<close> where gob reports a type mismatch.\<close>

definition Decode :: "('v, 'd) codec \<Rightarrow> ('d \<Rightarrow> 'a option) \<Rightarrow> 'v \<Rightarrow> err + 'a" where
  "Decode cd into v =
     (if raw_len (cd_raw cd) v > 65536 then Inl KvErrInvalid
      else case unmarshal_envelope cd v of
        None \<Rightarrow> Inl KvErrInvalid
      | Some (schema, body) \<Rightarrow>
          if schema \<noteq> 1 then Inl KvErrInvalid
          else case Option.bind body into of None \<Rightarrow> Inl ErrDecode | Some x \<Rightarrow> Inr x)"

section \<open>Transactions\<close>

record 'v tx =
  tx_read :: "string list \<Rightarrow> err + 'v records"
  tx_check :: "kv_check list \<Rightarrow> err option"
  tx_reads :: "(string, 'v kv_record option) fmap"
  tx_writes :: "(string, 'v kv_write) fmap"
  tx_durability :: durability
  tx_snapshot :: bool
  tx_readOnly :: bool
  tx_dependencyError :: "err option"

type_synonym ('v, 'a) txm = "'v tx \<Rightarrow> (err + 'a) \<times> 'v tx"

text \<open>
  Sequencing: \<open>tx_bind\<close> is a call whose error is returned at once, \<open>tx_try\<close> a call whose error is
  looked at, \<open>tx_guard\<close> an early return, \<open>tx_missing\<close> the idiom that replaces a missing record by
  another error.
\<close>

definition tx_return :: "'a \<Rightarrow> ('v, 'a) txm" where
  "tx_return x = (\<lambda>t. (Inr x, t))"

definition tx_throw :: "err \<Rightarrow> ('v, 'a) txm" where
  "tx_throw e = (\<lambda>t. (Inl e, t))"

definition tx_bind :: "('v, 'a) txm \<Rightarrow> ('a \<Rightarrow> ('v, 'b) txm) \<Rightarrow> ('v, 'b) txm" where
  "tx_bind m f = (\<lambda>t. case m t of (Inl e, t') \<Rightarrow> (Inl e, t') | (Inr x, t') \<Rightarrow> f x t')"

definition tx_try :: "('v, 'a) txm \<Rightarrow> (err + 'a \<Rightarrow> ('v, 'b) txm) \<Rightarrow> ('v, 'b) txm" where
  "tx_try m f = (\<lambda>t. case m t of (r, t') \<Rightarrow> f r t')"

definition tx_guard :: "bool \<Rightarrow> err \<Rightarrow> ('v, unit) txm" where
  "tx_guard bad e = (if bad then tx_throw e else tx_return ())"

definition tx_missing :: "err \<Rightarrow> ('v, 'a) txm \<Rightarrow> ('v, 'a) txm" where
  "tx_missing e m = tx_try m (\<lambda>r. case r of
     Inl x \<Rightarrow> if x = MetadataErrNotFound then tx_throw e else tx_throw x
   | Inr v \<Rightarrow> tx_return v)"

text \<open>The zero value where the record is missing: \<open>None\<close>.\<close>

definition tx_optional :: "('v, 'a) txm \<Rightarrow> ('v, 'a option) txm" where
  "tx_optional m = tx_try m (\<lambda>r. case r of
     Inl x \<Rightarrow> if x = MetadataErrNotFound then tx_return None else tx_throw x
   | Inr v \<Rightarrow> tx_return (Some v))"

text \<open>A call whose value is not used.\<close>

definition tx_void :: "('v, 'a) txm \<Rightarrow> ('v, unit) txm" where
  "tx_void m = tx_bind m (\<lambda>_. tx_return ())"

fun tx_each :: "('a \<Rightarrow> ('v, unit) txm) \<Rightarrow> 'a list \<Rightarrow> ('v, unit) txm" where
  "tx_each f [] = tx_return ()"
| "tx_each f (x # xs) = tx_bind (f x) (\<lambda>_. tx_each f xs)"

definition rec_version :: "'v kv_record option \<Rightarrow> 64 word" where
  "rec_version r = (case r of None \<Rightarrow> 0 | Some x \<Rightarrow> r_Version x)"

definition RequireReplication :: "('v, unit) txm" where
  "RequireReplication = (\<lambda>t. (Inr (), t\<lparr>tx_durability := Replicated\<rparr>))"

definition tx_pending :: "'v tx \<Rightarrow> string list \<Rightarrow> string list" where
  "tx_pending t keys = fold (\<lambda>k acc.
     if fmlookup (tx_reads t) k = None \<and> k \<notin> set acc then acc @ [k] else acc) keys []"

definition Prefetch :: "string list \<Rightarrow> ('v, unit) txm" where
  "Prefetch keys = (\<lambda>t. let pending = tx_pending t keys in
     if fcard (fmdom (tx_reads t)) + length pending > 128 then (Inl KvErrCapacity, t)
     else if pending = [] then (Inr (), t)
     else case tx_read t pending of
       Inl e \<Rightarrow> (Inl e, t\<lparr>tx_dependencyError := Some e\<rparr>)
     | Inr values \<Rightarrow>
         (Inr (), t\<lparr>tx_reads := fold (\<lambda>k m. fmupd k (fmlookup values k) m) pending (tx_reads t)\<rparr>))"

definition tx_record :: "string \<Rightarrow> ('v, 'v kv_record option) txm" where
  "tx_record key = (\<lambda>t. case fmlookup (tx_reads t) key of
     Some r \<Rightarrow> (Inr r, t)
   | None \<Rightarrow>
       if fcard (fmdom (tx_reads t)) \<ge> 128 then (Inl KvErrCapacity, t)
       else case tx_read t [key] of
         Inl e \<Rightarrow> (Inl e, t\<lparr>tx_dependencyError := Some e\<rparr>)
       | Inr values \<Rightarrow>
           (Inr (fmlookup values key),
            t\<lparr>tx_reads := fmupd key (fmlookup values key) (tx_reads t)\<rparr>))"

text \<open>\<open>Get(key, into)\<close>; \<open>load\<close> is the decoding of the found bytes (\<open>Get(key, nil)\<close> only looks).\<close>

definition tx_lookup :: "('v option \<Rightarrow> err + 'a) \<Rightarrow> string \<Rightarrow> ('v, 'a) txm" where
  "tx_lookup load key = (\<lambda>t. case fmlookup (tx_writes t) key of
     Some w \<Rightarrow> if w_Delete w then (Inl MetadataErrNotFound, t) else (load (w_Value w), t)
   | None \<Rightarrow> tx_bind (tx_record key) (\<lambda>r.
       if rec_version r = 0 then tx_throw MetadataErrNotFound
       else (\<lambda>t. (load (map_option r_Value r), t))) t)"

definition Get :: "('v, 'd) codec \<Rightarrow> ('d \<Rightarrow> 'a option) \<Rightarrow> string \<Rightarrow> ('v, 'a) txm" where
  "Get cd into = tx_lookup (\<lambda>v. case v of None \<Rightarrow> Inl KvErrInvalid | Some x \<Rightarrow> Decode cd into x)"

definition Exists :: "string \<Rightarrow> ('v, unit) txm" where
  "Exists = tx_lookup (\<lambda>_. Inr ())"

text \<open>Only reviewed content collections may keep local durability.\<close>

definition content_collection :: "string \<Rightarrow> bool" where
  "content_collection c \<longleftrightarrow> c \<in> {''projects'', ''operations'', ''digests'', ''slugs'', ''quotas'',
     ''owner_projects''} \<or> has_prefix c ''versions_''"

definition classifyWrite :: "string \<Rightarrow> bool \<Rightarrow> ('v, unit) txm" where
  "classifyWrite key deleted = (let collection = collection_of key in
     if deleted \<and> collection \<noteq> ''digests'' then RequireReplication
     else if content_collection collection then tx_return () else RequireReplication)"

text \<open>The common end of \<open>Set\<close> and \<open>Delete\<close>: record the key's version, then buffer the write.\<close>

definition tx_put :: "string \<Rightarrow> err + 'v kv_write \<Rightarrow> ('v, unit) txm" where
  "tx_put key w = (\<lambda>t. case tx_record key t of
     (Inl e, t') \<Rightarrow> (Inl e, t')
   | (Inr _, t') \<Rightarrow> (case w of
       Inl e \<Rightarrow> (Inl e, t')
     | Inr x \<Rightarrow> (Inr (), t'\<lparr>tx_writes := fmupd key x (tx_writes t')\<rparr>)))"

definition value_write :: "string \<Rightarrow> 'v \<Rightarrow> 'v kv_write" where
  "value_write key v = \<lparr>w_Key = key, w_Value = Some v, w_Delete = False\<rparr>"

definition delete_write :: "string \<Rightarrow> 'v kv_write" where
  "delete_write key = \<lparr>w_Key = key, w_Value = None, w_Delete = True\<rparr>"

definition tx_writable :: "('v, unit) txm" where
  "tx_writable = (\<lambda>t. (if tx_snapshot t \<or> tx_readOnly t then Inl KvErrInvalid else Inr (), t))"

definition Set :: "('v, 'd) codec \<Rightarrow> string \<Rightarrow> 'd \<Rightarrow> ('v, unit) txm" where
  "Set cd key val =
     tx_bind tx_writable (\<lambda>_.
     tx_bind (classifyWrite key False) (\<lambda>_.
     tx_put key (case Encode cd val of Inl e \<Rightarrow> Inl e | Inr data \<Rightarrow> Inr (value_write key data))))"

definition Create :: "('v, 'd) codec \<Rightarrow> string \<Rightarrow> 'd \<Rightarrow> ('v, unit) txm" where
  "Create cd key val = tx_bind (tx_optional (Exists key)) (\<lambda>found. case found of
     Some _ \<Rightarrow> tx_throw KvErrConflict
   | None \<Rightarrow> Set cd key val)"

definition Delete :: "string \<Rightarrow> ('v, unit) txm" where
  "Delete key =
     tx_bind tx_writable (\<lambda>_.
     tx_bind (classifyWrite key True) (\<lambda>_.
     tx_put key (Inr (delete_write key))))"

definition read_checks :: "'v tx \<Rightarrow> kv_check list" where
  "read_checks t = map (\<lambda>k. \<lparr>c_Key = k, c_Version = rec_version (the (fmlookup (tx_reads t) k))\<rparr>)
     (sorted_list_of_set (fset (fmdom (tx_reads t))))"

definition ValidateReads :: "('v, unit) txm" where
  "ValidateReads = (\<lambda>t. (if read_checks t = [] then Inl KvErrInvalid
     else case tx_check t (read_checks t) of None \<Rightarrow> Inr () | Some e \<Rightarrow> Inl e, t))"

section \<open>Finishing a transaction\<close>

definition finish_command :: "'v tx \<Rightarrow> 'v kv_transaction" where
  "finish_command t = \<lparr>t_Schema = 1, t_Checks = read_checks t,
     t_Writes = List.map_filter (fmlookup (tx_writes t))
       (sorted_list_of_set (fset (fmdom (tx_reads t)))),
     t_Durability = (if tx_durability t = Local then Local else DurabilityUnset),
     t_Revision = 0\<rparr>"

datatype 'v final =
    FinalInvalid | FinalNothing | FinalCheck "kv_check list" | FinalCommit "'v kv_transaction"

definition finish :: "bool \<Rightarrow> 'v tx \<Rightarrow> 'v final" where
  "finish coherent t =
     (if tx_reads t = fmempty then FinalInvalid
      else let command = finish_command t in
        if t_Writes command = []
        then (if tx_snapshot t \<and> coherent then FinalNothing else FinalCheck (t_Checks command))
        else FinalCommit command)"

section \<open>Backends and the retry loop\<close>

text \<open>
  A backend over states \<open>'s\<close>. Other clients may commit between any two calls of a transaction, so an
  attempt has a schedule: the state each read, the optional mid-transaction check and the final
  call run against.
\<close>

record ('s, 'v) backend =
  be_read :: "'s \<Rightarrow> string list \<Rightarrow> err + 'v records"
  be_check :: "'s \<Rightarrow> kv_check list \<Rightarrow> err option"
  be_commit :: "'s \<Rightarrow> 'v kv_transaction \<Rightarrow> err option \<times> 's"
  be_coherent :: bool

record 's schedule =
  at_read :: "string list \<Rightarrow> 's"
  at_validate :: 's
  at_finish :: 's

definition begin_tx :: "('s, 'v) backend \<Rightarrow> 's schedule \<Rightarrow> durability \<Rightarrow> bool \<Rightarrow> 'v tx" where
  "begin_tx be sch dur snap = \<lparr>tx_read = (\<lambda>keys. be_read be (at_read sch keys) keys),
     tx_check = be_check be (at_validate sch), tx_reads = fmempty, tx_writes = fmempty,
     tx_durability = dur, tx_snapshot = snap, tx_readOnly = False, tx_dependencyError = None\<rparr>"

definition run_attempt ::
  "('s, 'v) backend \<Rightarrow> durability \<Rightarrow> bool \<Rightarrow> ('v, 'a) txm \<Rightarrow> 's schedule \<Rightarrow> (err + 'a) \<times> 's" where
  "run_attempt be dur snap fn sch = (case fn (begin_tx be sch dur snap) of
     (Inl e, t) \<Rightarrow> (Inl e, at_finish sch)
   | (Inr x, t) \<Rightarrow> (case finish (be_coherent be) t of
       FinalInvalid \<Rightarrow> (Inl KvErrInvalid, at_finish sch)
     | FinalNothing \<Rightarrow> (Inr x, at_finish sch)
     | FinalCheck cs \<Rightarrow> (case be_check be (at_finish sch) cs of
         None \<Rightarrow> (Inr x, at_finish sch) | Some e \<Rightarrow> (Inl e, at_finish sch))
     | FinalCommit c \<Rightarrow> (case be_commit be (at_finish sch) c of
         (None, s') \<Rightarrow> (Inr x, s') | (Some e, s') \<Rightarrow> (Inl e, s'))))"

text \<open>
  Eight attempts; only a known rejected compare-and-set is retried. \<open>fn\<close>, the schedule and the
  cancellation of the context during the pause may differ from attempt to attempt.
\<close>

fun run_from ::
  "('s, 'v) backend \<Rightarrow> durability \<Rightarrow> bool \<Rightarrow> (nat \<Rightarrow> ('v, 'a) txm) \<Rightarrow> (nat \<Rightarrow> 's schedule)
    \<Rightarrow> (nat \<Rightarrow> err option) \<Rightarrow> nat \<Rightarrow> nat \<Rightarrow> (err + 'a) \<times> 's \<Rightarrow> (err + 'a) \<times> 's" where
  "run_from be dur snap fn sch ctx attempt 0 prev = (Inl KvErrConflict, snd prev)"
| "run_from be dur snap fn sch ctx attempt (Suc n) prev =
     (let r = run_attempt be dur snap (fn attempt) (sch attempt) in
      if fst r \<noteq> Inl KvErrConflict then r
      else case ctx attempt of
        Some e \<Rightarrow> (Inl e, snd r)
      | None \<Rightarrow> run_from be dur snap fn sch ctx (Suc attempt) n r)"

definition run ::
  "('s, 'v) backend \<Rightarrow> durability \<Rightarrow> bool \<Rightarrow> (nat \<Rightarrow> ('v, 'a) txm) \<Rightarrow> (nat \<Rightarrow> 's schedule)
    \<Rightarrow> (nat \<Rightarrow> err option) \<Rightarrow> (err + 'a) \<times> 's" where
  "run be dur snap fn sch ctx =
     run_from be dur snap fn sch ctx 0 8 (Inl KvErrConflict, at_finish (sch 0))"

definition Run where "Run be = run be Replicated False"
definition RunContent where "RunContent be = run be Local False"
definition RunSnapshot where "RunSnapshot be = run be Replicated True"


section \<open>Steps of a transaction body\<close>

lemma tx_return_app [simp]: "tx_return x t = (Inr x, t)" by (simp add: tx_return_def)
lemma tx_throw_app [simp]: "tx_throw e t = (Inl e, t)" by (simp add: tx_throw_def)
lemma tx_guard_app [simp]: "tx_guard b e t = (if b then (Inl e, t) else (Inr (), t))"
  by (simp add: tx_guard_def)

lemma tx_bind_app [simp]:
  "tx_bind m f t = (case m t of (Inl e, t') \<Rightarrow> (Inl e, t') | (Inr x, t') \<Rightarrow> f x t')"
  by (simp add: tx_bind_def)

lemma tx_try_app [simp]: "tx_try m f t = (case m t of (r, t') \<Rightarrow> f r t')"
  by (simp add: tx_try_def)

lemma tx_bind_InrE [tx_elims]:
  assumes "tx_bind m f t = (Inr y, t')"
  obtains x u where "m t = (Inr x, u)" "f x u = (Inr y, t')"
  using assms by (auto split: prod.splits sum.splits)

lemma tx_guard_InrE [tx_elims]:
  assumes "tx_guard b e t = (Inr y, t')"
  obtains "\<not> b" "t' = t"
  using assms by (auto split: if_splits)

lemma tx_throw_InrE [tx_elims]: "tx_throw e t = (Inr y, t') \<Longrightarrow> P"
  by simp

lemma tx_return_InrE [tx_elims]:
  assumes "tx_return x t = (Inr y, t')"
  obtains "y = x" "t' = t"
  using assms by simp

lemma tx_missing_InrE [tx_elims]:
  assumes "tx_missing e m t = (Inr y, t')"
  obtains "m t = (Inr y, t')"
  using assms by (auto simp: tx_missing_def split: prod.splits sum.splits if_splits)

lemma tx_optional_InrE [tx_elims]:
  assumes "tx_optional m t = (Inr y, t')"
  obtains (missing) "y = None" "m t = (Inl MetadataErrNotFound, t')"
    | (found) x where "y = Some x" "m t = (Inr x, t')"
  using assms by (auto simp: tx_optional_def split: prod.splits sum.splits if_splits)

lemma tx_void_InrE [tx_elims]:
  assumes "tx_void m t = (Inr y, u)"
  obtains x where "m t = (Inr x, u)"
  using assms that unfolding tx_void_def by (elim tx_bind_InrE) simp

lemma tx_if_InrE:
  assumes "(if b then m else m') t = (Inr y, t')"
  obtains "b" "m t = (Inr y, t')" | "\<not> b" "m' t = (Inr y, t')"
  using assms by (auto split: if_splits)

section \<open>Bodies that only depend on what they read\<close>

text \<open>
  A frozen snapshot \<open>R\<close> as a backend, and what it means for a transaction to agree with it. \<open>sourced P\<close>
  says that everything the backend answers and everything already read satisfies \<open>snd P\<close>, in a
  transaction of mode \<open>fst P\<close> (snapshot or not).
\<close>

definition frozen :: "(string \<Rightarrow> 'v kv_record option) \<Rightarrow> string list \<Rightarrow> err + 'v records" where
  "frozen R keys = Inr (foldr (\<lambda>k m. case R k of None \<Rightarrow> fmdrop k m | Some r \<Rightarrow> fmupd k r m) keys fmempty)"

definition refreeze :: "(string \<Rightarrow> 'v kv_record option) \<Rightarrow> 'v tx \<Rightarrow> 'v tx" where
  "refreeze R t = t\<lparr>tx_read := frozen R, tx_check := (\<lambda>_. None)\<rparr>"

definition agrees :: "(string \<Rightarrow> 'v kv_record option) \<Rightarrow> 'v tx \<Rightarrow> bool" where
  "agrees R t \<longleftrightarrow> tx_dependencyError t = None \<and> (\<forall>k r. fmlookup (tx_reads t) k = Some r \<longrightarrow> r = R k)"

definition sourced :: "bool \<times> (string \<Rightarrow> 'v kv_record option \<Rightarrow> bool) \<Rightarrow> 'v tx \<Rightarrow> bool" where
  "sourced P t \<longleftrightarrow> tx_snapshot t = fst P \<and> (\<forall>keys. tx_read t keys \<noteq> Inl MetadataErrNotFound)
     \<and> (\<forall>keys m. tx_read t keys = Inr m \<longrightarrow> (\<forall>k \<in> set keys. snd P k (fmlookup m k)))
     \<and> (\<forall>k r. fmlookup (tx_reads t) k = Some r \<longrightarrow> snd P k r)"

text \<open>Every buffered write is stored under its key, carries a value unless it deletes, and its key
  was read (so that the commit checks its version).\<close>

definition writes_ok :: "'v tx \<Rightarrow> bool" where
  "writes_ok t \<longleftrightarrow> (\<forall>k w. fmlookup (tx_writes t) k = Some w \<longrightarrow>
     (w = delete_write k \<or> (\<exists>v. w = value_write k v)) \<and> fmlookup (tx_reads t) k \<noteq> None)"

text \<open>
  \<open>grows\<close>: reads are never forgotten or replaced, come from the backend, and a backend failure ends
  in an error other than a missing record. \<open>replays_all\<close>: run against a frozen snapshot that agrees
  with everything the body read, it behaves the same. \<open>advances\<close> and \<open>replays\<close> ask this of successful
  runs only, which is enough for bodies that consult the backend again just before they fail.
\<close>

definition grows :: "('v, 'a) txm \<Rightarrow> bool" where
  "grows m \<longleftrightarrow> (\<forall>t r u. m t = (r, u) \<longrightarrow>
     (\<forall>R. agrees R u \<longrightarrow> agrees R t)
     \<and> (\<forall>P. sourced P t \<longrightarrow> (isl r \<longrightarrow> r = Inl MetadataErrNotFound) \<longrightarrow>
          tx_dependencyError u = tx_dependencyError t)
     \<and> (\<forall>P. sourced P t \<longrightarrow> sourced P u)
     \<and> (writes_ok t \<longrightarrow> writes_ok u))"

definition replays_all :: "('v, 'a) txm \<Rightarrow> bool" where
  "replays_all m \<longleftrightarrow> grows m \<and>
     (\<forall>t R r u. m t = (r, u) \<longrightarrow> agrees R u \<longrightarrow> m (refreeze R t) = (r, refreeze R u))"

definition advances :: "('v, 'a) txm \<Rightarrow> bool" where
  "advances m \<longleftrightarrow> (\<forall>t x u. m t = (Inr x, u) \<longrightarrow>
     (\<forall>R. agrees R u \<longrightarrow> agrees R t)
     \<and> (\<forall>P. sourced P t \<longrightarrow> sourced P u \<and> tx_dependencyError u = tx_dependencyError t)
     \<and> (writes_ok t \<longrightarrow> writes_ok u))"

definition replays :: "('v, 'a) txm \<Rightarrow> bool" where
  "replays m \<longleftrightarrow> advances m \<and>
     (\<forall>t R x u. m t = (Inr x, u) \<longrightarrow> agrees R u \<longrightarrow> m (refreeze R t) = (Inr x, refreeze R u))"

lemma lookup_frozen: "\<exists>m. frozen R keys = Inr m \<and> (\<forall>k \<in> set keys. fmlookup m k = R k)"
  unfolding frozen_def by (induction keys) (auto split: option.splits)

lemma refreeze_simps [simp]:
  "tx_reads (refreeze R t) = tx_reads t" "tx_writes (refreeze R t) = tx_writes t"
  "tx_durability (refreeze R t) = tx_durability t" "tx_snapshot (refreeze R t) = tx_snapshot t"
  "tx_readOnly (refreeze R t) = tx_readOnly t" "tx_read (refreeze R t) = frozen R"
  "tx_dependencyError (refreeze R t) = tx_dependencyError t"
  by (simp_all add: refreeze_def)

lemma growsI:
  assumes "\<And>t R r u. m t = (r, u) \<Longrightarrow> agrees R u \<Longrightarrow> agrees R t"
    and "\<And>t P r u. m t = (r, u) \<Longrightarrow> sourced P t \<Longrightarrow> sourced P u"
    and "\<And>t P r u. m t = (r, u) \<Longrightarrow> sourced P t \<Longrightarrow> (isl r \<Longrightarrow> r = Inl MetadataErrNotFound) \<Longrightarrow>
      tx_dependencyError u = tx_dependencyError t"
    and "\<And>t r u. m t = (r, u) \<Longrightarrow> writes_ok t \<Longrightarrow> writes_ok u"
  shows "grows m"
  unfolding grows_def using assms by blast

lemma grows_agrees: "grows m \<Longrightarrow> m t = (r, u) \<Longrightarrow> agrees R u \<Longrightarrow> agrees R t"
  unfolding grows_def by blast

lemma grows_writes: "grows m \<Longrightarrow> m t = (r, u) \<Longrightarrow> writes_ok t \<Longrightarrow> writes_ok u"
  unfolding grows_def by blast

lemma grows_sourced: "grows m \<Longrightarrow> m t = (r, u) \<Longrightarrow> sourced P t \<Longrightarrow> sourced P u"
  unfolding grows_def by blast

lemma grows_honest:
  "grows m \<Longrightarrow> m t = (r, u) \<Longrightarrow> sourced P t \<Longrightarrow> (isl r \<Longrightarrow> r = Inl MetadataErrNotFound) \<Longrightarrow>
     tx_dependencyError u = tx_dependencyError t"
  unfolding grows_def by blast

lemma replays_allI:
  "grows m \<Longrightarrow> (\<And>t R r u. m t = (r, u) \<Longrightarrow> agrees R u \<Longrightarrow> m (refreeze R t) = (r, refreeze R u)) \<Longrightarrow>
     replays_all m"
  by (simp add: replays_all_def)

lemma grows_advances: "grows m \<Longrightarrow> advances m"
  unfolding grows_def advances_def by fastforce

lemma advancesD:
  assumes "advances m" "m t = (Inr x, u)"
  shows "agrees R u \<Longrightarrow> agrees R t" "sourced P t \<Longrightarrow> sourced P u"
    "sourced P t \<Longrightarrow> tx_dependencyError u = tx_dependencyError t" "writes_ok t \<Longrightarrow> writes_ok u"
  using assms unfolding advances_def by blast+

lemma replays_all_replays [replay_intros]: "replays_all m \<Longrightarrow> replays m"
  by (auto simp: replays_all_def replays_def intro: grows_advances)

lemma replays_allD: "replays_all m \<Longrightarrow> m t = (r, u) \<Longrightarrow> agrees R u \<Longrightarrow> m (refreeze R t) = (r, refreeze R u)"
  by (simp add: replays_all_def)

lemma replaysD: "replays m \<Longrightarrow> m t = (Inr x, u) \<Longrightarrow> agrees R u \<Longrightarrow> m (refreeze R t) = (Inr x, refreeze R u)"
  by (simp add: replays_def)

lemma replays_grows: "replays m \<Longrightarrow> advances m" "replays_all m' \<Longrightarrow> grows m'"
  by (simp_all add: replays_def replays_all_def)

text \<open>A state change that leaves the backend and the reads alone.\<close>

lemma replays_all_update:
  assumes "\<And>t. tx_reads (g t) = tx_reads t" "\<And>t. tx_dependencyError (g t) = tx_dependencyError t"
    and "\<And>t. tx_read (g t) = tx_read t" "\<And>t. tx_writes (g t) = tx_writes t"
    and "\<And>t. tx_snapshot (g t) = tx_snapshot t"
    and "\<And>R t. g (refreeze R t) = refreeze R (g t)" "\<And>R t. h (refreeze R t) = h t"
  shows "replays_all (\<lambda>t. (h t, g t))"
  unfolding replays_all_def
  by (auto intro!: growsI simp: assms agrees_def sourced_def writes_ok_def)

lemma replays_all_return [replay_intros]: "replays_all (tx_return x)"
  unfolding tx_return_def by (rule replays_all_update) simp_all

lemma replays_all_throw [replay_intros]: "replays_all (tx_throw e)"
  unfolding tx_throw_def by (rule replays_all_update) simp_all

lemma replays_all_guard [replay_intros]: "replays_all (tx_guard b e)"
  unfolding tx_guard_def by (simp add: replays_all_return replays_all_throw)

lemma replays_all_RequireReplication [replay_intros]: "replays_all RequireReplication"
  unfolding RequireReplication_def by (rule replays_all_update) (simp_all add: refreeze_def)

lemma replays_all_writable [replay_intros]: "replays_all tx_writable"
  unfolding tx_writable_def by (rule replays_all_update) simp_all

lemma replays_all_load [replay_intros]: "replays_all (\<lambda>t. (v, t))"
  by (rule replays_all_update) simp_all

lemma tx_bind_cases:
  assumes "tx_bind m f t = (r, u)"
  obtains (error) e where "m t = (Inl e, u)" "r = Inl e"
  | (ok) x v where "m t = (Inr x, v)" "f x v = (r, u)"
  using assms by (auto split: prod.splits sum.splits)

lemma grows_bind:
  assumes "grows m" "\<And>x. grows (f x)"
  shows "grows (tx_bind m f)"
proof (rule growsI)
  fix t R r u
  assume "tx_bind m f t = (r, u)" "agrees R u"
  then show "agrees R t"
    by (cases rule: tx_bind_cases) (blast dest: grows_agrees[OF assms(1)] grows_agrees[OF assms(2)])+
next
  fix t P r u
  assume "tx_bind m f t = (r, u)" "sourced P t"
  then show "sourced P u"
    by (cases rule: tx_bind_cases) (blast dest: grows_sourced[OF assms(1)] grows_sourced[OF assms(2)])+
next
  fix t P r u
  assume b: "tx_bind m f t = (r, u)" and s: "sourced P t"
    and r: "isl r \<Longrightarrow> r = Inl MetadataErrNotFound"
  from b show "tx_dependencyError u = tx_dependencyError t"
  proof (cases rule: tx_bind_cases)
    case (error e)
    then show ?thesis using r s grows_honest[OF assms(1) error(1)] by simp
  next
    case (ok x v)
    have "tx_dependencyError v = tx_dependencyError t"
      using grows_honest[OF assms(1) ok(1) s] by simp
    moreover have "tx_dependencyError u = tx_dependencyError v"
      using grows_honest[OF assms(2) ok(2) grows_sourced[OF assms(1) ok(1) s]] r by blast
    ultimately show ?thesis by simp
  qed
next
  fix t r u
  assume "tx_bind m f t = (r, u)" "writes_ok t"
  then show "writes_ok u"
    by (cases rule: tx_bind_cases) (blast dest: grows_writes[OF assms(1)] grows_writes[OF assms(2)])+
qed

lemma replays_all_bind [replay_intros]:
  assumes "replays_all m" "\<And>x. replays_all (f x)"
  shows "replays_all (tx_bind m f)"
proof -
  have g: "grows m" "\<And>x. grows (f x)" using assms by (simp_all add: replays_all_def)
  have "tx_bind m f (refreeze R t) = (r, refreeze R u)"
    if b: "tx_bind m f t = (r, u)" and a: "agrees R u" for R t r u
    using b
  proof (cases rule: tx_bind_cases)
    case (error e)
    then show ?thesis using replays_allD[OF assms(1) error(1) a] by simp
  next
    case (ok x v)
    then have "agrees R v" using a grows_agrees[OF g(2)] by blast
    then show ?thesis
      using replays_allD[OF assms(1) ok(1)] replays_allD[OF assms(2) ok(2) a] by simp
  qed
  then show ?thesis using grows_bind[OF g] by (simp add: replays_all_def del: tx_bind_app)
qed

lemma advances_bind:
  assumes "advances m" "\<And>x. advances (f x)"
  shows "advances (tx_bind m f)"
  unfolding advances_def
proof (intro allI impI)
  fix t y u
  assume "tx_bind m f t = (Inr y, u)"
  then obtain x v where x: "m t = (Inr x, v)" "f x v = (Inr y, u)" by (rule tx_bind_InrE)
  note a = advancesD[OF assms(1) x(1)] and b = advancesD[OF assms(2) x(2)]
  show "(\<forall>R. agrees R u \<longrightarrow> agrees R t)
     \<and> (\<forall>P. sourced P t \<longrightarrow> sourced P u \<and> tx_dependencyError u = tx_dependencyError t) \<and> (writes_ok t \<longrightarrow> writes_ok u)"
    using a b by metis
qed

lemma replays_bind [replay_intros]:
  assumes "replays m" "\<And>x. replays (f x)"
  shows "replays (tx_bind m f)"
proof -
  have g: "advances m" "\<And>x. advances (f x)" using assms by (simp_all add: replays_def)
  have "tx_bind m f (refreeze R t) = (Inr y, refreeze R u)"
    if b: "tx_bind m f t = (Inr y, u)" and a: "agrees R u" for R t y u
  proof -
    from b obtain x v where x: "m t = (Inr x, v)" "f x v = (Inr y, u)" by (rule tx_bind_InrE)
    then have "agrees R v" using a advancesD(1)[OF g(2)] by blast
    then show ?thesis using replaysD[OF assms(1) x(1)] replaysD[OF assms(2) x(2) a] by simp
  qed
  then show ?thesis using advances_bind[OF g] by (simp add: replays_def del: tx_bind_app)
qed

text \<open>An error handler that never succeeds is irrelevant to successful runs.\<close>

lemma replays_try [replay_intros]:
  assumes "replays m" "\<And>x. replays (f (Inr x))" "\<And>e t. isl (fst (f (Inl e) t))"
  shows "replays (tx_try m f)"
proof -
  have "tx_try m f t = (Inr y, u) \<longleftrightarrow> tx_bind m (\<lambda>x. f (Inr x)) t = (Inr y, u)" for t y u
  proof (cases "m t")
    case (Pair r v)
    show ?thesis
    proof (cases r)
      case (Inl e)
      then show ?thesis using assms(3)[of e v] Pair by (cases "f (Inl e) v") auto
    qed (simp add: Pair)
  qed
  moreover have "replays (tx_bind m (\<lambda>x. f (Inr x)))" by (intro replay_intros assms)
  ultimately show ?thesis unfolding replays_def advances_def by blast
qed

lemma tx_optional_cases:
  assumes "tx_optional m t = (r, u)"
  obtains (missing) "m t = (Inl MetadataErrNotFound, u)" "r = Inr None"
  | (error) e where "m t = (Inl e, u)" "e \<noteq> MetadataErrNotFound" "r = Inl e"
  | (ok) x where "m t = (Inr x, u)" "r = Inr (Some x)"
  using assms by (auto simp: tx_optional_def split: prod.splits sum.splits if_splits)

lemma replays_all_optional [replay_intros]:
  assumes "replays_all m"
  shows "replays_all (tx_optional m)"
proof -
  note g = replays_grows(2)[OF assms]
  have "grows (tx_optional m)"
  proof (rule growsI)
    fix t R r u assume "tx_optional m t = (r, u)" "agrees R u"
    then show "agrees R t" by (cases rule: tx_optional_cases) (blast dest: grows_agrees[OF g])+
  next
    fix t P r u assume "tx_optional m t = (r, u)" "sourced P t"
    then show "sourced P u" by (cases rule: tx_optional_cases) (blast dest: grows_sourced[OF g])+
  next
    fix t P r u assume o: "tx_optional m t = (r, u)" and s: "sourced P t"
      and r: "isl r \<Longrightarrow> r = Inl MetadataErrNotFound"
    from o show "tx_dependencyError u = tx_dependencyError t"
      by (cases rule: tx_optional_cases) (use r grows_honest[OF g _ s] in auto)
  next
    fix t r u assume "tx_optional m t = (r, u)" "writes_ok t"
    then show "writes_ok u" by (cases rule: tx_optional_cases) (blast dest: grows_writes[OF g])+
  qed
  moreover have "tx_optional m (refreeze R t) = (r, refreeze R u)"
    if "tx_optional m t = (r, u)" and a: "agrees R u" for t R r u
    using that(1) by (cases rule: tx_optional_cases)
      (use replays_allD[OF assms _ a] in \<open>auto simp: tx_optional_def\<close>)
  ultimately show ?thesis by (simp add: replays_all_def)
qed

lemma tx_missing_optional:
  "tx_missing e m = tx_bind (tx_optional m) (\<lambda>r. case r of None \<Rightarrow> tx_throw e | Some v \<Rightarrow> tx_return v)"
  by (auto simp: tx_missing_def tx_optional_def fun_eq_iff split: prod.splits sum.splits)

lemma replays_if [replay_intros]: "replays m \<Longrightarrow> replays m' \<Longrightarrow> replays (if b then m else m')"
  by simp

lemma replays_all_if [replay_intros]:
  "replays_all m \<Longrightarrow> replays_all m' \<Longrightarrow> replays_all (if b then m else m')"
  by simp

lemma replays_all_option [replay_intros]:
  "replays_all a \<Longrightarrow> (\<And>x. replays_all (f x)) \<Longrightarrow>
     replays_all (case v of None \<Rightarrow> a | Some x \<Rightarrow> f x)"
  by (cases v) simp_all

lemma replays_option [replay_intros]:
  "replays a \<Longrightarrow> (\<And>x. replays (f x)) \<Longrightarrow> replays (case v of None \<Rightarrow> a | Some x \<Rightarrow> f x)"
  by (cases v) simp_all

lemma replays_all_sum [replay_intros]:
  "(\<And>x. replays_all (f x)) \<Longrightarrow> (\<And>x. replays_all (g x)) \<Longrightarrow>
     replays_all (case v of Inl x \<Rightarrow> f x | Inr x \<Rightarrow> g x)"
  by (cases v) simp_all

lemma replays_sum [replay_intros]:
  "(\<And>x. replays (f x)) \<Longrightarrow> (\<And>x. replays (g x)) \<Longrightarrow>
     replays (case v of Inl x \<Rightarrow> f x | Inr x \<Rightarrow> g x)"
  by (cases v) simp_all

lemma replays_all_prod [replay_intros]:
  "(\<And>x y. replays_all (f x y)) \<Longrightarrow> replays_all (case v of (x, y) \<Rightarrow> f x y)"
  by (cases v) simp

lemma replays_prod [replay_intros]:
  "(\<And>x y. replays (f x y)) \<Longrightarrow> replays (case v of (x, y) \<Rightarrow> f x y)"
  by (cases v) simp

lemma replays_all_missing [replay_intros]: "replays_all m \<Longrightarrow> replays_all (tx_missing e m)"
  unfolding tx_missing_optional by (intro replay_intros)

lemma replays_all_each [replay_intros]:
  "(\<And>x. replays_all (f x)) \<Longrightarrow> replays_all (tx_each f xs)"
  by (induction xs) (simp_all add: replays_all_return replays_all_bind del: tx_bind_app)

lemma replays_all_classifyWrite [replay_intros]: "replays_all (classifyWrite key deleted)"
  unfolding classifyWrite_def Let_def by (intro replay_intros)

lemma tx_record_cases:
  assumes "tx_record key t = (r, u)"
  obtains (cached) x where "fmlookup (tx_reads t) key = Some x" "r = Inr x" "u = t"
  | (full) "fmlookup (tx_reads t) key = None" "fcard (fmdom (tx_reads t)) \<ge> 128"
      "r = Inl KvErrCapacity" "u = t"
  | (failed) e where "fmlookup (tx_reads t) key = None" "tx_read t [key] = Inl e" "r = Inl e"
      "u = t\<lparr>tx_dependencyError := Some e\<rparr>"
  | (fetched) m where "fmlookup (tx_reads t) key = None" "fcard (fmdom (tx_reads t)) < 128"
      "tx_read t [key] = Inr m" "r = Inr (fmlookup m key)"
      "u = t\<lparr>tx_reads := fmupd key (fmlookup m key) (tx_reads t)\<rparr>"
proof (cases "fmlookup (tx_reads t) key")
  case None
  show ?thesis
  proof (cases "fcard (fmdom (tx_reads t)) \<ge> 128")
    case True
    then show ?thesis using full None assms by (simp add: tx_record_def)
  next
    case False
    then show ?thesis using failed fetched None assms
      by (cases "tx_read t [key]") (simp_all add: tx_record_def)
  qed
qed (use cached assms in \<open>simp add: tx_record_def\<close>)

lemma grows_record: "grows (tx_record key)"
proof (rule growsI)
  fix t :: "'v tx" and R r u
  assume "tx_record key t = (r, u)" and a: "agrees R u"
  then show "agrees R t"
  proof (cases rule: tx_record_cases)
    case (fetched m)
    then show ?thesis using a by (auto simp: agrees_def) (metis option.distinct(1))
  qed (use a in \<open>simp_all add: agrees_def\<close>)
next
  fix t :: "'v tx" and P r u
  assume "tx_record key t = (r, u)" and s: "sourced P t"
  then show "sourced P u"
    by (cases rule: tx_record_cases) (use s in \<open>auto simp: sourced_def\<close>)
next
  fix t :: "'v tx" and P r u
  assume "tx_record key t = (r, u)" and "sourced P t" "isl r \<Longrightarrow> r = Inl MetadataErrNotFound"
  then show "tx_dependencyError u = tx_dependencyError t"
    by (cases rule: tx_record_cases) (auto simp: sourced_def)
next
  fix t :: "'v tx" and r u
  assume "tx_record key t = (r, u)" and w: "writes_ok t"
  then show "writes_ok u"
    by (cases rule: tx_record_cases) (use w in \<open>auto simp: writes_ok_def\<close>)
qed

lemma replays_all_record [replay_intros]: "replays_all (tx_record key)"
proof (rule replays_allI[OF grows_record])
  fix t R r u
  assume "tx_record key t = (r, u)" and a: "agrees R u"
  then show "tx_record key (refreeze R t) = (r, refreeze R u)"
  proof (cases rule: tx_record_cases)
    case (fetched m)
    then have "fmlookup m key = R key" using a by (simp add: agrees_def)
    moreover obtain m' where "frozen R [key] = Inr m'" "fmlookup m' key = R key"
      using lookup_frozen[of R "[key]"] by auto
    ultimately show ?thesis using fetched by (simp add: tx_record_def refreeze_def)
  qed (use a in \<open>simp_all add: tx_record_def agrees_def\<close>)
qed

lemma lookup_fold_fmupd:
  "fmlookup (fold (\<lambda>k m. fmupd k (f k) m) ks m) k = (if k \<in> set ks then Some (f k) else fmlookup m k)"
  by (induction ks arbitrary: m) auto

lemma fold_fmupd_cong:
  "(\<And>k. k \<in> set ks \<Longrightarrow> f k = g k) \<Longrightarrow>
     fold (\<lambda>k m. fmupd k (f k) m) ks m = fold (\<lambda>k m. fmupd k (g k) m) ks m"
  by (induction ks arbitrary: m) auto

lemma tx_pending_fresh: "k \<in> set (tx_pending t keys) \<Longrightarrow> fmlookup (tx_reads t) k = None"
proof -
  have "k \<in> set (fold (\<lambda>k acc. if fmlookup (tx_reads t) k = None \<and> k \<notin> set acc
      then acc @ [k] else acc) keys acc) \<Longrightarrow> k \<in> set acc \<or> fmlookup (tx_reads t) k = None" for acc
  proof (induction keys arbitrary: acc)
    case (Cons a keys)
    then show ?case using Cons.IH[of "acc @ [a]"] Cons.IH[of acc] by (auto split: if_splits)
  qed simp
  then show "k \<in> set (tx_pending t keys) \<Longrightarrow> fmlookup (tx_reads t) k = None"
    by (fastforce simp: tx_pending_def)
qed

lemma tx_pending_refreeze [simp]: "tx_pending (refreeze R t) keys = tx_pending t keys"
  by (simp add: tx_pending_def)

lemma Prefetch_cases:
  assumes "Prefetch keys t = (r, u)"
  obtains (full) "r = Inl KvErrCapacity" "u = t" "fcard (fmdom (tx_reads t)) + length (tx_pending t keys) > 128"
  | (none) "r = Inr ()" "u = t" "tx_pending t keys = []"
      "\<not> fcard (fmdom (tx_reads t)) + length (tx_pending t keys) > 128"
  | (failed) e where "tx_read t (tx_pending t keys) = Inl e" "r = Inl e"
      "u = t\<lparr>tx_dependencyError := Some e\<rparr>"
  | (fetched) m where "tx_read t (tx_pending t keys) = Inr m" "r = Inr ()" "tx_pending t keys \<noteq> []"
      "\<not> fcard (fmdom (tx_reads t)) + length (tx_pending t keys) > 128"
      "u = t\<lparr>tx_reads := fold (\<lambda>k x. fmupd k (fmlookup m k) x) (tx_pending t keys) (tx_reads t)\<rparr>"
proof -
  let ?p = "tx_pending t keys"
  consider "fcard (fmdom (tx_reads t)) + length ?p > 128"
    | "?p = []" "\<not> fcard (fmdom (tx_reads t)) + length ?p > 128"
    | "?p \<noteq> []" "\<not> fcard (fmdom (tx_reads t)) + length ?p > 128" by blast
  then show ?thesis
  proof cases
    case 3
    then show ?thesis using failed fetched assms
      by (cases "tx_read t ?p") (simp_all add: Prefetch_def Let_def)
  qed (use full none assms in \<open>simp_all add: Prefetch_def Let_def\<close>)
qed

lemma grows_Prefetch: "grows (Prefetch keys)"
proof (rule growsI)
  fix t :: "'v tx" and R r u
  assume "Prefetch keys t = (r, u)" and a: "agrees R u"
  then show "agrees R t"
  proof (cases rule: Prefetch_cases)
    case (fetched m)
    have "x = R k" if x: "fmlookup (tx_reads t) k = Some x" for k x
    proof -
      have "k \<notin> set (tx_pending t keys)" using x tx_pending_fresh by fastforce
      then show ?thesis using x a fetched by (simp add: agrees_def lookup_fold_fmupd)
    qed
    then show ?thesis using a fetched by (simp add: agrees_def)
  qed (use a in \<open>simp_all add: agrees_def\<close>)
next
  fix t :: "'v tx" and P r u
  assume "Prefetch keys t = (r, u)" and s: "sourced P t"
  then show "sourced P u"
    by (cases rule: Prefetch_cases) (use s in \<open>auto simp: sourced_def lookup_fold_fmupd split: if_splits\<close>)
next
  fix t :: "'v tx" and P r u
  assume "Prefetch keys t = (r, u)" and "sourced P t" "isl r \<Longrightarrow> r = Inl MetadataErrNotFound"
  then show "tx_dependencyError u = tx_dependencyError t"
    by (cases rule: Prefetch_cases) (auto simp: sourced_def)
next
  fix t :: "'v tx" and r u
  assume "Prefetch keys t = (r, u)" and w: "writes_ok t"
  then show "writes_ok u"
    by (cases rule: Prefetch_cases) (use w in \<open>auto simp: writes_ok_def lookup_fold_fmupd\<close>)
qed

lemma replays_all_Prefetch [replay_intros]: "replays_all (Prefetch keys)"
proof (rule replays_allI[OF grows_Prefetch])
  fix t R r u
  assume "Prefetch keys t = (r, u)" and a: "agrees R u"
  then show "Prefetch keys (refreeze R t) = (r, refreeze R u)"
  proof (cases rule: Prefetch_cases)
    case (fetched m)
    let ?p = "tx_pending t keys"
    obtain m' where m': "frozen R ?p = Inr m'" "\<forall>k \<in> set ?p. fmlookup m' k = R k"
      using lookup_frozen[of R ?p] by auto
    have "fmlookup m k = fmlookup m' k" if "k \<in> set ?p" for k
      using a that m'(2) fetched by (simp add: agrees_def lookup_fold_fmupd)
    then have "fold (\<lambda>k x. fmupd k (fmlookup m k) x) ?p (tx_reads t) =
        fold (\<lambda>k x. fmupd k (fmlookup m' k) x) ?p (tx_reads t)"
      by (rule fold_fmupd_cong)
    moreover have "refreeze R (t\<lparr>tx_reads := x\<rparr>) = (refreeze R t)\<lparr>tx_reads := x\<rparr>" for x
      by (simp add: refreeze_def)
    ultimately show ?thesis using fetched m' by (simp add: Prefetch_def Let_def)
  qed (use a in \<open>simp_all add: Prefetch_def Let_def agrees_def\<close>)
qed

lemma tx_lookup_cases:
  assumes "tx_lookup load key t = (r, u)"
  obtains (written) w where "fmlookup (tx_writes t) key = Some w" "u = t"
      "r = (if w_Delete w then Inl MetadataErrNotFound else load (w_Value w))"
  | (stored) "fmlookup (tx_writes t) key = None"
      "tx_bind (tx_record key) (\<lambda>r. if rec_version r = 0 then tx_throw MetadataErrNotFound
         else (\<lambda>t. (load (map_option r_Value r), t))) t = (r, u)"
  using assms by (auto simp: tx_lookup_def simp del: tx_bind_app split: option.splits if_splits)

lemma replays_all_lookup [replay_intros]: "replays_all (tx_lookup load key)"
proof -
  let ?m = "tx_bind (tx_record key) (\<lambda>r.
       if rec_version r = 0 then tx_throw MetadataErrNotFound
       else (\<lambda>t. (load (map_option r_Value r), t)))"
  have m: "replays_all ?m" by (intro replay_intros)
  note g = replays_grows(2)[OF m]
  have "grows (tx_lookup load key)"
  proof (rule growsI)
    fix t :: "'a tx" and R r u
    assume "tx_lookup load key t = (r, u)" "agrees R u"
    then show "agrees R t" by (cases rule: tx_lookup_cases) (blast dest: grows_agrees[OF g])+
  next
    fix t :: "'a tx" and P r u
    assume "tx_lookup load key t = (r, u)" "sourced P t"
    then show "sourced P u" by (cases rule: tx_lookup_cases) (blast dest: grows_sourced[OF g])+
  next
    fix t :: "'a tx" and P r u
    assume l: "tx_lookup load key t = (r, u)" and s: "sourced P t"
      and r: "isl r \<Longrightarrow> r = Inl MetadataErrNotFound"
    from l show "tx_dependencyError u = tx_dependencyError t"
      by (cases rule: tx_lookup_cases) (use r grows_honest[OF g _ s] in blast)+
  next
    fix t :: "'a tx" and r u
    assume "tx_lookup load key t = (r, u)" "writes_ok t"
    then show "writes_ok u" by (cases rule: tx_lookup_cases) (blast dest: grows_writes[OF g])+
  qed
  moreover have "tx_lookup load key (refreeze R t) = (r, refreeze R u)"
    if "tx_lookup load key t = (r, u)" and a: "agrees R u" for t :: "'a tx" and R r u
    using that(1)
  proof (cases rule: tx_lookup_cases)
    case (written w)
    then show ?thesis by (simp add: tx_lookup_def)
  next
    case stored
    then show ?thesis using replays_allD[OF m stored(2) a] by (simp add: tx_lookup_def del: tx_bind_app)
  qed
  ultimately show ?thesis by (simp add: replays_all_def)
qed

lemma replays_all_Get [replay_intros]: "replays_all (Get cd into key)"
  unfolding Get_def by (rule replays_all_lookup)

lemma replays_all_Exists [replay_intros]: "replays_all (Exists key)"
  unfolding Exists_def by (rule replays_all_lookup)

lemma tx_put_cases:
  assumes "tx_put key w t = (r, u)"
  obtains (error) e where "tx_record key t = (Inl e, u)" "r = Inl e"
  | (refused) x e where "tx_record key t = (Inr x, u)" "w = Inl e" "r = Inl e"
  | (stored) x v y where "tx_record key t = (Inr x, v)" "w = Inr y" "r = Inr ()"
      "u = v\<lparr>tx_writes := fmupd key y (tx_writes v)\<rparr>"
  using assms by (cases "tx_record key t"; cases "fst (tx_record key t)"; cases w)
    (auto simp: tx_put_def)

lemma tx_record_key: "tx_record key t = (Inr x, u) \<Longrightarrow> fmlookup (tx_reads u) key \<noteq> None"
  by (erule tx_record_cases) auto

lemma replays_all_put:
  assumes w: "\<And>x. w = Inr x \<Longrightarrow> x = delete_write key \<or> (\<exists>v. x = value_write key v)"
  shows "replays_all (tx_put key w)"
proof (rule replays_allI)
  show "grows (tx_put key w)"
  proof (rule growsI)
    fix t R r u assume "tx_put key w t = (r, u)" "agrees R u"
    then show "agrees R t"
      by (cases rule: tx_put_cases) (auto simp: agrees_def dest: grows_agrees[OF grows_record, of _ _ _ _ R])
  next
    fix t P r u assume "tx_put key w t = (r, u)" "sourced P t"
    then show "sourced P u"
      by (cases rule: tx_put_cases) (auto simp: sourced_def dest!: grows_sourced[OF grows_record, of _ _ _ _ P])
  next
    fix t P r u assume p: "tx_put key w t = (r, u)" and s: "sourced P t"
      and r: "isl r \<Longrightarrow> r = Inl MetadataErrNotFound"
    from p show "tx_dependencyError u = tx_dependencyError t"
    proof (cases rule: tx_put_cases)
      case (error e)
      then show ?thesis using r by (intro grows_honest[OF grows_record error(1) s]) simp
    next
      case (refused x e)
      then show ?thesis by (intro grows_honest[OF grows_record refused(1) s]) simp
    next
      case (stored x v y)
      have "tx_dependencyError v = tx_dependencyError t"
        by (rule grows_honest[OF grows_record stored(1) s]) simp
      then show ?thesis using stored by simp
    qed
  next
    fix t r u assume "tx_put key w t = (r, u)" and t: "writes_ok t"
    then show "writes_ok u"
    proof (cases rule: tx_put_cases)
      case (stored x v y)
      then show ?thesis using w[of y] tx_record_key[OF stored(1)] grows_writes[OF grows_record stored(1) t]
        by (auto simp: writes_ok_def)
    qed (use grows_writes[OF grows_record _ t] in blast)+
  qed
next
  fix t R r u
  assume "tx_put key w t = (r, u)" and a: "agrees R u"
  then show "tx_put key w (refreeze R t) = (r, refreeze R u)"
  proof (cases rule: tx_put_cases)
    case (stored x v y)
    then have "agrees R v" using a by (simp add: agrees_def)
    then show ?thesis using stored replays_allD[OF replays_all_record stored(1)]
      by (simp add: tx_put_def refreeze_def)
  next
    case (error e)
    then show ?thesis using replays_allD[OF replays_all_record error(1) a] by (simp add: tx_put_def)
  next
    case (refused x e)
    then show ?thesis using replays_allD[OF replays_all_record refused(1) a] by (simp add: tx_put_def)
  qed
qed

lemma replays_all_Set [replay_intros]: "replays_all (Set cd key v)"
  unfolding Set_def by (intro replay_intros replays_all_put) (auto split: sum.splits)

lemma replays_all_Create [replay_intros]: "replays_all (Create cd key v)"
  unfolding Create_def by (intro replay_intros)

lemma replays_all_Delete [replay_intros]: "replays_all (Delete key)"
  unfolding Delete_def by (intro replay_intros replays_all_put) simp

lemma grows_ValidateReads: "grows ValidateReads"
  by (rule growsI) (auto simp: ValidateReads_def split: if_splits)

lemma ValidateReads_throw: "isl (fst (tx_bind ValidateReads (\<lambda>_. tx_throw e) t))"
  by (auto simp: ValidateReads_def split: option.splits)

lemma replays_ValidateReads_throw [replay_intros]: "replays (tx_bind ValidateReads (\<lambda>_. tx_throw e))"
  unfolding replays_def advances_def by (auto split: prod.splits sum.splits)


section \<open>The documents a transaction sees\<close>

text \<open>
  \<open>stored r\<close> is the value a record holds for readers (a zero version means it does not exist),
  \<open>cur t\<close> the records as the transaction sees them, its own buffered writes included, and
  \<open>docs cd t\<close> the documents they decode to. \<open>good_env cd (tx_read t)\<close>: the codec is faithful and the backend
  answers a batch as it answers its keys one by one, as any fixed snapshot does, and does not report
  a failure as a missing record.
\<close>

definition stored :: "'v kv_record option \<Rightarrow> 'v option" where
  "stored r = (if rec_version r = 0 then None else map_option r_Value r)"

definition base :: "'v tx \<Rightarrow> string \<Rightarrow> 'v kv_record option" where
  "base t k = (case fmlookup (tx_reads t) k of
     Some r \<Rightarrow> r
   | None \<Rightarrow> (case tx_read t [k] of Inl e \<Rightarrow> None | Inr m \<Rightarrow> fmlookup m k))"

definition cur :: "'v tx \<Rightarrow> string \<Rightarrow> 'v option" where
  "cur t k = (case fmlookup (tx_writes t) k of
     Some w \<Rightarrow> if w_Delete w then None else w_Value w
   | None \<Rightarrow> stored (base t k))"

definition decode_doc :: "('v, 'd) codec \<Rightarrow> 'v \<Rightarrow> 'd option" where
  "decode_doc cd v = (case Decode cd Some v of Inl e \<Rightarrow> None | Inr d \<Rightarrow> Some d)"

definition view :: "('v, 'd) codec \<Rightarrow> (string \<Rightarrow> 'v option) \<Rightarrow> string \<Rightarrow> 'd option" where
  "view cd c k = Option.bind (c k) (decode_doc cd)"

abbreviation docs :: "('v, 'd) codec \<Rightarrow> 'v tx \<Rightarrow> string \<Rightarrow> 'd option" where
  "docs cd t \<equiv> view cd (cur t)"

definition faithful_codec :: "('v, 'd) codec \<Rightarrow> bool" where
  "faithful_codec cd \<longleftrightarrow> (\<forall>d v. marshal_envelope cd d = Some v \<longrightarrow>
     unmarshal_envelope cd v = Some (1, Some d) \<and> raw_valid (cd_raw cd) v)"

definition pointwise :: "(string list \<Rightarrow> err + 'v records) \<Rightarrow> bool" where
  "pointwise f \<longleftrightarrow> (\<forall>keys m. f keys = Inr m \<longrightarrow>
     (\<forall>k \<in> set keys. \<exists>m'. f [k] = Inr m' \<and> fmlookup m' k = fmlookup m k))"

definition honest_read :: "(string list \<Rightarrow> err + 'v records) \<Rightarrow> bool" where
  "honest_read f \<longleftrightarrow> (\<forall>keys. f keys \<noteq> Inl MetadataErrNotFound)"

definition good_env :: "('v, 'd) codec \<Rightarrow> (string list \<Rightarrow> err + 'v records) \<Rightarrow> bool" where
  "good_env cd f \<longleftrightarrow> faithful_codec cd \<and> pointwise f \<and> honest_read f"

lemma Encode_Inr:
  "Encode cd d = Inr v \<longleftrightarrow> marshal_envelope cd d = Some v \<and> raw_len (cd_raw cd) v \<le> 65536"
  by (auto simp: Encode_def split: option.splits)

lemma Decode_Encode:
  "faithful_codec cd \<Longrightarrow> Encode cd d = Inr v \<Longrightarrow>
     Decode cd into v = (case into d of None \<Rightarrow> Inl ErrDecode | Some x \<Rightarrow> Inr x)"
  by (auto simp: Encode_Inr Decode_def faithful_codec_def split: option.splits)

lemma Decode_Inr: "Decode cd into v = Inr x \<Longrightarrow> \<exists>d. decode_doc cd v = Some d \<and> into d = Some x"
  by (auto simp: Decode_def decode_doc_def bind_eq_Some_conv split: if_splits option.splits prod.splits)

lemma pointwise_frozen: "pointwise (frozen R)"
  unfolding pointwise_def
proof (intro allI impI ballI)
  fix keys m k assume "frozen R keys = Inr m" "k \<in> set keys"
  then show "\<exists>m'. frozen R [k] = Inr m' \<and> fmlookup m' k = fmlookup m k"
    using lookup_frozen[of R keys] lookup_frozen[of R "[k]"] by auto
qed

lemma cur_cong:
  assumes "\<And>k. base u k = base t k" "tx_writes u = tx_writes t"
  shows "cur u = cur t"
  using assms by (intro ext) (simp add: cur_def split: option.splits)

lemma cur_tx_record: "tx_record key t = (r, u) \<Longrightarrow> cur u = cur t"
  by (erule tx_record_cases) (auto intro!: cur_cong simp: base_def split: option.splits)

lemma env_tx_record:
  "tx_record key t = (r, u) \<Longrightarrow> tx_read u = tx_read t \<and> tx_writes u = tx_writes t
     \<and> tx_durability u = tx_durability t"
  by (erule tx_record_cases) auto

lemma tx_record_base: "tx_record key t = (Inr r, u) \<Longrightarrow> r = base t key"
  by (erule tx_record_cases) (auto simp: base_def)


definition frame :: "'v tx \<Rightarrow> 'v tx \<Rightarrow> bool" where
  "frame t u \<longleftrightarrow> cur u = cur t \<and> tx_read u = tx_read t"

lemma frame_tx_record: "tx_record key t = (r, u) \<Longrightarrow> frame t u"
  unfolding frame_def using cur_tx_record env_tx_record by blast

lemma frame_tx_lookup:
  assumes "tx_lookup load key t = (r, u)"
  shows "frame t u"
  using assms
proof (cases rule: tx_lookup_cases)
  case stored
  then obtain x where "tx_record key t = (x, u)"
    by (auto split: prod.splits sum.splits if_splits)
  then show ?thesis by (rule frame_tx_record)
qed (simp add: frame_def)

text \<open>A lookup fails with a missing record only where there is none, and loads the current value
  otherwise.\<close>

lemma tx_lookup_missing:
  assumes "tx_lookup load key t = (Inl MetadataErrNotFound, u)"
    and "\<And>v. load v \<noteq> Inl MetadataErrNotFound" "\<And>k. tx_read t [k] \<noteq> Inl MetadataErrNotFound"
  shows "cur t key = None"
  using assms(1)
proof (cases rule: tx_lookup_cases)
  case stored
  then consider "tx_record key t = (Inl MetadataErrNotFound, u)"
    | x where "tx_record key t = (Inr x, u)" "rec_version x = 0"
    using assms(2) by (auto split: prod.splits sum.splits if_splits)
  then show ?thesis
  proof cases
    case 1
    then show ?thesis using assms(3) by (auto elim: tx_record_cases)
  next
    case 2
    then show ?thesis using stored tx_record_base[OF 2(1)] by (simp add: cur_def stored_def)
  qed
qed (use assms(2) in \<open>auto simp: cur_def split: if_splits\<close>)

lemma tx_lookup_found:
  assumes "tx_lookup load key t = (Inr x, u)" "\<And>y. load None \<noteq> Inr y"
  shows "\<exists>v. cur t key = Some v \<and> load (Some v) = Inr x"
  using assms(1)
proof (cases rule: tx_lookup_cases)
  case (written w)
  then show ?thesis using assms(2)[of x]
    by (cases "w_Value w") (auto simp: cur_def dest: sym split: if_splits)
next
  case stored
  then obtain y v where y: "tx_record key t = (Inr y, v)" "rec_version y \<noteq> 0"
    "load (map_option r_Value y) = Inr x"
    by (auto split: prod.splits sum.splits if_splits)
  then have c: "cur t key = map_option r_Value y"
    using stored tx_record_base[OF y(1)] by (simp add: cur_def stored_def)
  show ?thesis using y c assms(2)[of x] by (cases "map_option r_Value y") auto
qed

lemma Get_InrE [tx_elims]:
  assumes "Get cd into key t = (Inr x, u)"
  obtains d where "docs cd t key = Some d" "into d = Some x" "cur u = cur t" "tx_read u = tx_read t"
proof -
  obtain v where "cur t key = Some v" "Decode cd into v = Inr x"
    using tx_lookup_found[OF assms[unfolded Get_def]] by auto
  then show ?thesis using that Decode_Inr frame_tx_lookup[OF assms[unfolded Get_def]]
    by (force simp: view_def frame_def)
qed

lemma Decode_found: "Decode cd into v \<noteq> Inl MetadataErrNotFound"
  by (auto simp: Decode_def split: option.splits prod.splits)

lemma Get_missingE [tx_elims]:
  assumes "Get cd into key t = (Inl MetadataErrNotFound, u)"
  obtains "good_env cd (tx_read t) \<Longrightarrow> docs cd t key = None" "cur u = cur t" "tx_read u = tx_read t"
proof -
  have "docs cd t key = None" if "good_env cd (tx_read t)"
    using tx_lookup_missing[OF assms[unfolded Get_def]] that Decode_found[of cd into]
    by (auto simp: view_def good_env_def honest_read_def split: option.splits)
  then show ?thesis using that frame_tx_lookup[OF assms[unfolded Get_def]] by (simp add: frame_def)
qed

lemma Exists_InrE [tx_elims]:
  assumes "Exists key t = (Inr x, u)"
  obtains "cur u = cur t" "tx_read u = tx_read t"
  using frame_tx_lookup[OF assms[unfolded Exists_def]] that by (simp add: frame_def)

lemma Exists_missingE [tx_elims]:
  assumes "Exists key t = (Inl MetadataErrNotFound, u)"
  obtains "honest_read (tx_read t) \<Longrightarrow> cur t key = None" "cur u = cur t" "tx_read u = tx_read t"
proof -
  have "cur t key = None" if "honest_read (tx_read t)"
    using tx_lookup_missing[OF assms[unfolded Exists_def]] that by (auto simp: honest_read_def)
  then show ?thesis using that frame_tx_lookup[OF assms[unfolded Exists_def]] by (simp add: frame_def)
qed

lemma good_env_honest: "good_env cd f \<Longrightarrow> honest_read f"
  by (simp add: good_env_def)

text \<open>A write changes the current value of its key only, and the document stored there is the one
  given.\<close>

lemma cur_fmupd:
  "cur (t\<lparr>tx_writes := fmupd key w (tx_writes t)\<rparr>) =
     (cur t)(key := if w_Delete w then None else w_Value w)"
  by (intro ext) (auto simp: cur_def base_def split: option.splits)

lemma cur_durability [simp]: "cur (t\<lparr>tx_durability := d\<rparr>) = cur t"
  by (intro cur_cong) (auto simp: base_def split: option.splits)

lemma tx_put_effect:
  assumes "tx_put key w t = (Inr x, u)"
  obtains y where "w = Inr y" "cur u = (cur t)(key := if w_Delete y then None else w_Value y)"
    "tx_read u = tx_read t"
  using assms
proof (cases rule: tx_put_cases)
  case (stored r v y)
  have "cur v = cur t" "tx_read v = tx_read t"
    using frame_tx_record[OF stored(1)] by (simp_all add: frame_def)
  then show ?thesis using that stored by (simp add: cur_fmupd)
qed simp_all

lemma classifyWrite_InrE [tx_elims]:
  assumes "classifyWrite key del t = (x, u)"
  obtains "cur u = cur t" "tx_read u = tx_read t"
  using assms that
  by (auto simp: classifyWrite_def RequireReplication_def Let_def split: if_splits)

lemma RequireReplication_InrE [tx_elims]:
  assumes "RequireReplication t = (x, u)"
  obtains "cur u = cur t" "tx_read u = tx_read t"
  using assms that by (auto simp: RequireReplication_def)

lemma tx_writable_InrE [tx_elims]:
  assumes "tx_writable t = (Inr x, u)"
  obtains "u = t"
  using assms that by (auto simp: tx_writable_def split: if_splits)

lemma view_upd [simp]: "view cd (c(k := v)) = (view cd c)(k := Option.bind v (decode_doc cd))"
  by (intro ext) (simp add: view_def)

lemma Set_effect:
  assumes "Set cd key d t = (Inr x, u)"
  shows "\<exists>v. Encode cd d = Inr v \<and> cur u = (cur t)(key := Some v) \<and> tx_read u = tx_read t"
  using assms unfolding Set_def
  by (elim tx_bind_InrE tx_writable_InrE classifyWrite_InrE tx_put_effect)
    (auto simp: value_write_def split: sum.splits)

lemma Set_InrE [tx_elims]:
  assumes "Set cd key d t = (Inr x, u)"
  obtains "good_env cd (tx_read t) \<Longrightarrow> docs cd u = (docs cd t)(key \<mapsto> d)" "tx_read u = tx_read t"
  using Set_effect[OF assms] that
  by (auto simp: view_upd decode_doc_def good_env_def Decode_Encode)

lemma Delete_InrE [tx_elims]:
  assumes "Delete key t = (Inr x, u)"
  obtains "cur u = (cur t)(key := None)" "tx_read u = tx_read t"
  using assms that unfolding Delete_def
  by (elim tx_bind_InrE tx_writable_InrE classifyWrite_InrE tx_put_effect)
    (auto simp: delete_write_def view_upd)

lemma Create_InrE [tx_elims]:
  assumes "Create cd key d t = (Inr x, u)"
  obtains "good_env cd (tx_read t) \<Longrightarrow> docs cd u = (docs cd t)(key \<mapsto> d)"
    "good_env cd (tx_read t) \<Longrightarrow> docs cd t key = None" "tx_read u = tx_read t"
proof -
  from assms obtain v where v: "Exists key t = (Inl MetadataErrNotFound, v)" "Set cd key d v = (Inr x, u)"
    unfolding Create_def by (elim tx_bind_InrE tx_optional_InrE) auto
  from v(2) show thesis
    by (rule Set_InrE) (use v(1) that in \<open>auto elim!: Exists_missingE dest: good_env_honest simp: view_def\<close>)
qed

lemma Prefetch_InrE [tx_elims]:
  assumes "Prefetch keys t = (Inr x, u)"
  obtains "good_env cd (tx_read t) \<Longrightarrow> cur u = cur t" "tx_read u = tx_read t"
  using assms
proof (cases rule: Prefetch_cases)
  case (fetched m)
  have "base u k = base t k" if "good_env cd (tx_read t)" for k
  proof (cases "k \<in> set (tx_pending t keys)")
    case True
    then obtain m' where "tx_read t [k] = Inr m'" "fmlookup m' k = fmlookup m k"
      using \<open>good_env cd (tx_read t)\<close> fetched(1) unfolding good_env_def pointwise_def by blast
    then show ?thesis using True fetched tx_pending_fresh[OF True]
      by (simp add: base_def lookup_fold_fmupd)
  qed (use fetched in \<open>auto simp: base_def lookup_fold_fmupd split: option.splits\<close>)
  then show ?thesis using that fetched cur_cong[of u t] by simp
qed (use that in auto)


section \<open>Serializability\<close>

text \<open>The transaction that starts on one fixed snapshot \<open>R\<close> of the records.\<close>

definition snapshot_tx :: "(string \<Rightarrow> 'v kv_record option) \<Rightarrow> durability \<Rightarrow> bool \<Rightarrow> 'v tx" where
  "snapshot_tx R dur snap = \<lparr>tx_read = frozen R, tx_check = (\<lambda>_. None), tx_reads = fmempty,
     tx_writes = fmempty, tx_durability = dur, tx_snapshot = snap, tx_readOnly = False,
     tx_dependencyError = None\<rparr>"

lemma refreeze_begin: "refreeze R (begin_tx be sch dur snap) = snapshot_tx R dur snap"
  by (simp add: refreeze_def begin_tx_def snapshot_tx_def)

lemma frozen_single: "\<exists>m. frozen R [k] = Inr m \<and> fmlookup m k = R k"
  using lookup_frozen[of R "[k]"] by simp

lemma cur_snapshot_tx: "cur (snapshot_tx R dur snap) = stored \<circ> R"
proof
  fix k
  show "cur (snapshot_tx R dur snap) k = (stored \<circ> R) k"
    using frozen_single[of R k] by (auto simp: cur_def base_def snapshot_tx_def)
qed

lemma good_env_frozen: "faithful_codec cd \<Longrightarrow> good_env cd (frozen R)"
  by (simp add: good_env_def pointwise_frozen honest_read_def frozen_def)

lemma cur_agrees:
  assumes "agrees R t"
  shows "cur (refreeze R t) k = (case fmlookup (tx_writes t) k of
    Some w \<Rightarrow> if w_Delete w then None else w_Value w | None \<Rightarrow> stored (R k))"
  using assms frozen_single[of R k]
  by (auto simp: cur_def base_def agrees_def split: option.splits)

lemma find_map_filter:
  assumes "\<And>k w. f k = Some w \<Longrightarrow> w_Key w = k"
  shows "find (\<lambda>w. w_Key w = k) (List.map_filter f ks) = (if k \<in> set ks then f k else None)"
  by (induction ks) (auto simp: List.map_filter_def dest: assms split: option.splits)

lemma finish_writes:
  assumes "writes_ok t"
  shows "find (\<lambda>w. w_Key w = k) (t_Writes (finish_command t)) = fmlookup (tx_writes t) k"
proof -
  have key: "w_Key w = j" if "fmlookup (tx_writes t) j = Some w" for j w
    using assms[unfolded writes_ok_def, rule_format, OF that]
    by (auto simp: delete_write_def value_write_def)
  have "k |\<in>| fmdom (tx_reads t)" if "fmlookup (tx_writes t) k = Some w" for w
    using assms that by (auto simp: writes_ok_def fmlookup_dom_iff)
  then show ?thesis
    unfolding finish_command_def using find_map_filter[of "fmlookup (tx_writes t)" k] key
    by (cases "fmlookup (tx_writes t) k") auto
qed

lemma finish_checks:
  "fmlookup (tx_reads t) k = Some r \<Longrightarrow>
     \<lparr>c_Key = k, c_Version = rec_version r\<rparr> \<in> set (t_Checks (finish_command t))"
  by (auto simp: finish_command_def read_checks_def image_iff fmlookup_dom_iff)

text \<open>
  A schedule is valid when every call reaches the backend in a working state and every read sees a
  state that later becomes the final one.
\<close>

definition valid_schedule :: "('s \<Rightarrow> 's \<Rightarrow> bool) \<Rightarrow> ('s \<Rightarrow> bool) \<Rightarrow> 's schedule \<Rightarrow> bool" where
  "valid_schedule later ok sch \<longleftrightarrow> ok (at_finish sch)
     \<and> (\<forall>keys. ok (at_read sch keys) \<and> later (at_read sch keys) (at_finish sch))"

text \<open>
  What the transaction runner relies on: reads and checks answer for the state they reach, a commit
  succeeds only where its checks hold and then has exactly its writes' effect, and a version
  identifies the record of a key between a state and the later ones.
\<close>

locale versioned_backend =
  fixes be :: "('s, 'v) backend"
    and lookup :: "'s \<Rightarrow> string \<Rightarrow> 'v kv_record option"
    and later :: "'s \<Rightarrow> 's \<Rightarrow> bool"
    and ok :: "'s \<Rightarrow> bool"
  assumes read_sound: "be_read be s keys = Inr m \<Longrightarrow> k \<in> set keys \<Longrightarrow> fmlookup m k = lookup s k"
    and read_honest: "ok s \<Longrightarrow> be_read be s keys \<noteq> Inl MetadataErrNotFound"
    and check_sound: "be_check be s cs = None \<Longrightarrow> c \<in> set cs \<Longrightarrow>
      rec_version (lookup s (c_Key c)) = c_Version c"
    and commit_checks: "be_commit be s t = (None, s') \<Longrightarrow> ok s \<Longrightarrow> c \<in> set (t_Checks t) \<Longrightarrow>
      rec_version (lookup s (c_Key c)) = c_Version c"
    and commit_effect: "be_commit be s t = (None, s') \<Longrightarrow> ok s \<Longrightarrow>
      stored (lookup s' k) = (case find (\<lambda>w. w_Key w = k) (t_Writes t) of
        None \<Rightarrow> stored (lookup s k)
      | Some w \<Rightarrow> if w_Delete w then None else w_Value w)"
    and version_identity: "later s s' \<Longrightarrow> rec_version (lookup s k) = rec_version (lookup s' k) \<Longrightarrow>
      lookup s k = lookup s' k"
begin

text \<open>A successful attempt ends in the checks holding at its final state.\<close>

lemma attempt_final:
  assumes "run_attempt be dur snap fn sch = (Inr x, s')"
    and "\<not> (tx_snapshot t \<and> be_coherent be)" "fn (begin_tx be sch dur snap) = (r, t)"
  obtains (checked) "r = Inr x" "t_Writes (finish_command t) = []" "s' = at_finish sch"
      "be_check be (at_finish sch) (t_Checks (finish_command t)) = None"
  | (committed) "r = Inr x" "be_commit be (at_finish sch) (finish_command t) = (None, s')"
proof -
  from assms(1,3) have r: "r = Inr x"
    by (auto simp: run_attempt_def split: sum.splits final.splits option.splits prod.splits)
  have "finish (be_coherent be) t \<noteq> FinalInvalid"
    using assms(1,3) r by (auto simp: run_attempt_def)
  then consider (check) "t_Writes (finish_command t) = []"
      "finish (be_coherent be) t = FinalCheck (t_Checks (finish_command t))"
    | (commit) "finish (be_coherent be) t = FinalCommit (finish_command t)"
    using assms(2) by (auto simp: finish_def Let_def split: if_splits)
  then show thesis
  proof cases
    case check
    then show thesis using checked assms(1,3) r
      by (simp add: run_attempt_def split: option.splits)
  next
    case commit
    then show thesis using committed assms(1,3) r
      by (auto simp: run_attempt_def split: option.splits prod.splits)
  qed
qed

lemma final_checks:
  assumes "run_attempt be dur snap fn sch = (Inr x, s')"
    and "\<not> (tx_snapshot t \<and> be_coherent be)" "fn (begin_tx be sch dur snap) = (r, t)"
    and "ok (at_finish sch)" "c \<in> set (t_Checks (finish_command t))"
  shows "rec_version (lookup (at_finish sch) (c_Key c)) = c_Version c"
  using assms(1-3)
  by (rule attempt_final) (use assms(4,5) check_sound commit_checks in \<open>blast+\<close>)

lemma final_effect:
  assumes "run_attempt be dur snap fn sch = (Inr x, s')"
    and "\<not> (tx_snapshot t \<and> be_coherent be)" "fn (begin_tx be sch dur snap) = (r, t)"
    and "ok (at_finish sch)" "writes_ok t"
  shows "stored (lookup s' k) = (case fmlookup (tx_writes t) k of
      None \<Rightarrow> stored (lookup (at_finish sch) k)
    | Some w \<Rightarrow> if w_Delete w then None else w_Value w)"
  using assms(1-3)
proof (rule attempt_final)
  assume e: "t_Writes (finish_command t) = []" and s: "s' = at_finish sch"
  have "fmlookup (tx_writes t) k = None" using finish_writes[OF assms(5), of k] e by simp
  then show ?thesis using s by simp
next
  assume "be_commit be (at_finish sch) (finish_command t) = (None, s')"
  from commit_effect[OF this assms(4), of k] show ?thesis
    by (simp add: finish_writes[OF assms(5)])
qed

text \<open>If everything the body read is unchanged at the final state, the body does there what it did.\<close>

lemma replayed:
  assumes t: "fn (begin_tx be sch dur snap) = (Inr x, t)" and fn: "replays fn" and sch: "valid_schedule later ok sch"
    and checks: "\<And>c. c \<in> set (t_Checks (finish_command t)) \<Longrightarrow> rec_version (lookup (at_finish sch) (c_Key c)) = c_Version c"
  shows "fn (snapshot_tx (lookup (at_finish sch)) dur snap) = (Inr x, refreeze (lookup (at_finish sch)) t)"
    "agrees (lookup (at_finish sch)) t"
proof -
  let ?R = "lookup (at_finish sch)" and ?P = "(snap, \<lambda>k r. \<exists>keys. r = lookup (at_read sch keys) k)"
  have past: "later (at_read sch keys) (at_finish sch)" and up: "ok (at_read sch keys)" for keys
    using sch by (simp_all add: valid_schedule_def)
  note g = advancesD[OF replays_grows(1)[OF fn] t]
  have s0: "sourced ?P (begin_tx be sch dur snap)"
    using read_sound read_honest[OF up] by (auto simp: sourced_def begin_tx_def)
  have "y = ?R k" if y: "fmlookup (tx_reads t) k = Some y" for k y
  proof -
    from g(2)[OF s0] y have "\<exists>keys. y = lookup (at_read sch keys) k" by (simp add: sourced_def)
    then obtain keys where keys: "y = lookup (at_read sch keys) k" by blast
    have "rec_version (?R k) = rec_version y" using checks[OF finish_checks[OF y]] by simp
    then show ?thesis using version_identity[OF past] keys by simp
  qed
  then show a: "agrees ?R t" using g(3)[OF s0] by (simp add: agrees_def begin_tx_def)
  show "fn (snapshot_tx ?R dur snap) = (Inr x, refreeze ?R t)"
    using replaysD[OF fn t a] by (simp add: refreeze_begin)
qed

lemma body_result:
  assumes "fn (begin_tx be sch dur snap) = (Inr x, t)" "replays fn" "valid_schedule later ok sch"
  shows "writes_ok t" "tx_snapshot t = snap"
proof -
  note g = advancesD[OF replays_grows(1)[OF assms(2)] assms(1)]
  have up: "ok (at_read sch keys)" for keys using assms(3) by (simp add: valid_schedule_def)
  have "sourced (snap, \<lambda>_ _. True) (begin_tx be sch dur snap)"
    using read_honest[OF up] by (auto simp: sourced_def begin_tx_def)
  from g(2)[OF this] show "tx_snapshot t = snap" by (simp add: sourced_def)
  show "writes_ok t" by (rule g(4)) (simp add: writes_ok_def begin_tx_def)
qed

lemma attempt_serializable:
  assumes run: "run_attempt be dur snap fn sch = (Inr x, s')"
    and mode: "\<not> (snap \<and> be_coherent be)" and fn: "replays fn"
    and sch: "valid_schedule later ok sch"
  shows "\<exists>t. fn (snapshot_tx (lookup (at_finish sch)) dur snap) = (Inr x, t)
    \<and> stored \<circ> lookup s' = cur t"
proof -
  let ?R = "lookup (at_finish sch)"
  obtain t where t: "fn (begin_tx be sch dur snap) = (Inr x, t)"
    using run by (auto simp: run_attempt_def split: sum.splits final.splits option.splits prod.splits)
  note b = body_result[OF t fn sch]
  have snap: "\<not> (tx_snapshot t \<and> be_coherent be)" using mode b(2) by simp
  have fin: "ok (at_finish sch)" using sch by (simp add: valid_schedule_def)
  note r = replayed[OF t fn sch final_checks[OF run snap t fin]]
  have "stored \<circ> lookup s' = cur (refreeze ?R t)"
    by (rule ext) (simp add: cur_agrees[OF r(2)] final_effect[OF run snap t fin b(1)] comp_def)
  then show ?thesis using r(1) by blast
qed

end

text \<open>A commit that reports an error was not applied at all, or was applied as a whole (the caller was
  cut off before the answer).\<close>

locale atomic_backend = versioned_backend +
  assumes commit_atomic: "be_commit be s t = (Some e, s') \<Longrightarrow> ok s \<Longrightarrow>
      (\<forall>k. lookup s' k = lookup s k)
    \<or> (\<forall>c \<in> set (t_Checks t). rec_version (lookup s (c_Key c)) = c_Version c)
      \<and> (\<forall>k. stored (lookup s' k) = (case find (\<lambda>w. w_Key w = k) (t_Writes t) of
           None \<Rightarrow> stored (lookup s k) | Some w \<Rightarrow> if w_Delete w then None else w_Value w))"
begin

lemma attempt_atomic:
  assumes run: "run_attempt be dur snap fn sch = (r, s')"
    and mode: "\<not> (snap \<and> be_coherent be)" and fn: "replays fn" and sch: "valid_schedule later ok sch"
  shows "stored \<circ> lookup s' = stored \<circ> lookup (at_finish sch)
    \<or> (\<exists>x t. fn (snapshot_tx (lookup (at_finish sch)) dur snap) = (Inr x, t) \<and> stored \<circ> lookup s' = cur t)"
proof (cases "isl r")
  case False
  then obtain x where "r = Inr x" by (cases r) auto
  then show ?thesis using attempt_serializable[OF run[unfolded \<open>r = Inr x\<close>] mode fn sch] by blast
next
  case True
  let ?R = "lookup (at_finish sch)"
  from True run consider "s' = at_finish sch"
    | x t e where "fn (begin_tx be sch dur snap) = (Inr x, t)" "be_commit be (at_finish sch) (finish_command t) = (Some e, s')"
    by (auto simp: run_attempt_def finish_def Let_def split: sum.splits if_splits option.splits prod.splits)
  then show ?thesis
  proof cases
    case 2
    have fin: "ok (at_finish sch)" using sch by (simp add: valid_schedule_def)
    from commit_atomic[OF 2(2) fin] show ?thesis
    proof
      assume e: "(\<forall>c \<in> set (t_Checks (finish_command t)). rec_version (?R (c_Key c)) = c_Version c)
        \<and> (\<forall>k. stored (lookup s' k) = (case find (\<lambda>w. w_Key w = k) (t_Writes (finish_command t)) of
           None \<Rightarrow> stored (?R k) | Some w \<Rightarrow> if w_Delete w then None else w_Value w))"
      then have p: "fn (snapshot_tx ?R dur snap) = (Inr x, refreeze ?R t)" "agrees ?R t"
        using replayed[OF 2(1) fn sch] by blast+
      have "stored \<circ> lookup s' = cur (refreeze ?R t)"
        using e by (intro ext) (simp add: cur_agrees[OF p(2)] finish_writes[OF body_result(1)[OF 2(1) fn sch]])
      then show ?thesis using p(1) by blast
    qed auto
  qed simp
qed

end

section \<open>The retry loop\<close>

lemma run_from_cases:
  assumes "run_from be dur snap fn sch ctx a n prev = r"
  shows "(\<exists>k. a \<le> k \<and> k < a + n \<and> r = run_attempt be dur snap (fn k) (sch k) \<and> fst r \<noteq> Inl KvErrConflict)
    \<or> (\<exists>k e. a \<le> k \<and> k < a + n \<and> ctx k = Some e \<and> fst r = Inl e)
    \<or> fst r = Inl KvErrConflict"
  using assms
proof (induction n arbitrary: a prev)
  case (Suc n)
  let ?r = "run_attempt be dur snap (fn a) (sch a)"
  show ?case
  proof (cases "fst ?r \<noteq> Inl KvErrConflict")
    case True
    then show ?thesis using Suc.prems by (auto simp: Let_def intro!: exI[of _ a])
  next
    case False
    show ?thesis
    proof (cases "ctx a")
      case None
      then have "run_from be dur snap fn sch ctx (Suc a) n ?r = r" using Suc.prems False by simp
      from Suc.IH[OF this] show ?thesis by (metis Suc_leD add_Suc_right add_Suc)
    next
      case (Some e)
      then have "fst r = Inl e" using Suc.prems False by auto
      then show ?thesis using Some by (intro disjI2 disjI1 exI[of _ a] exI[of _ e]) simp
    qed
  qed
qed auto

lemma run_success:
  assumes "run be dur snap fn sch ctx = (Inr x, s')"
  obtains k where "k < 8" "run_attempt be dur snap (fn k) (sch k) = (Inr x, s')"
  using run_from_cases[OF assms[unfolded run_def]] that by auto

lemma run_from_skip:
  assumes "\<And>k. k < n \<Longrightarrow> fst (run_attempt be dur snap (fn (a + k)) (sch (a + k))) = Inl KvErrConflict"
    and "\<And>k. k < n \<Longrightarrow> ctx (a + k) = None"
  shows "\<exists>prev'. run_from be dur snap fn sch ctx a (n + m) prev = run_from be dur snap fn sch ctx (a + n) m prev'"
  using assms
proof (induction n arbitrary: a prev)
  case (Suc n)
  have "run_from be dur snap fn sch ctx a (Suc n + m) prev =
      run_from be dur snap fn sch ctx (Suc a) (n + m) (run_attempt be dur snap (fn a) (sch a))"
    using Suc.prems(1)[of 0] Suc.prems(2)[of 0] by simp
  moreover have "\<exists>prev'. run_from be dur snap fn sch ctx (Suc a) (n + m)
      (run_attempt be dur snap (fn a) (sch a)) = run_from be dur snap fn sch ctx (Suc a + n) m prev'"
    using Suc.prems(1)[of "Suc k" for k] Suc.prems(2)[of "Suc k" for k] by (intro Suc.IH) auto
  ultimately show ?case by simp
qed auto

lemma run_from_attempt:
  "\<exists>k. k \<le> a + n \<and> snd (run_from be dur snap fn sch ctx a (Suc n) prev) = snd (run_attempt be dur snap (fn k) (sch k))"
proof (induction n arbitrary: a prev)
  case 0
  show ?case by (intro exI[of _ a]) (auto simp: Let_def split: option.splits)
next
  case (Suc n)
  let ?r = "run_attempt be dur snap (fn a) (sch a)"
  show ?case
  proof (cases "fst ?r = Inl KvErrConflict \<and> ctx a = None")
    case True
    then have "run_from be dur snap fn sch ctx a (Suc (Suc n)) prev = run_from be dur snap fn sch ctx (Suc a) (Suc n) ?r"
      by (simp del: run_from.simps add: run_from.simps(2)[of be dur snap fn sch ctx a "Suc n" prev])
    then show ?thesis using Suc.IH[of "Suc a" ?r] by (simp del: run_from.simps)
  next
    case False
    then have "snd (run_from be dur snap fn sch ctx a (Suc (Suc n)) prev) = snd ?r"
      unfolding run_from.simps(2)[of be dur snap fn sch ctx a "Suc n" prev] Let_def by (auto simp del: run_from.simps split: option.splits)
    then show ?thesis by (intro exI[of _ a]) simp
  qed
qed

text \<open>The state a transaction leaves behind is the one its last attempt left.\<close>

lemma run_last_attempt: "\<exists>k < 8. snd (run be dur snap fn sch ctx) = snd (run_attempt be dur snap (fn k) (sch k))"
  using run_from_attempt[of 0 7 be dur snap fn sch ctx "(Inl KvErrConflict, at_finish (sch 0))"]
  unfolding run_def by (auto simp del: run_from.simps simp add: eval_nat_numeral less_Suc_eq_le)

end
