(* ===== verification/Content.thy ===== *)
theory Content
  imports Prelude
begin

text \<open>
  Upload validation and staging (\<open>internal/content\<close>): the path policy (\<open>ValidatePath\<close>,
  \<open>validateFile\<close>), the checks of \<open>stageWithErrors\<close> that decide which uploads become a manifest,
  \<open>ParseManifest\<close>, and the storage \<open>Footprint\<close> of a manifest. Go's \<open>path\<close> package is modelled on
  slash-separated components. File contents are a parameter: a source gives its size and SHA-256, or
  an I/O error; the JSON encoding of a manifest is a parameter too (its length and its digest).

  Sizes are unbounded integers here: every sum is cut off at 200 MiB or bounded by 5000 files, far
  below the range of int64.
\<close>

section \<open>Go's path package\<close>

fun split_on :: "char \<Rightarrow> string \<Rightarrow> string list" where
  "split_on c [] = [[]]"
| "split_on c (x # xs) = (if x = c then [] # split_on c xs
     else case split_on c xs of [] \<Rightarrow> [[x]] | p # ps \<Rightarrow> (x # p) # ps)"

fun join_with :: "char \<Rightarrow> string list \<Rightarrow> string" where
  "join_with c [] = []"
| "join_with c [p] = p"
| "join_with c (p # q # ps) = p @ c # join_with c (q # ps)"

text \<open>One component of \<open>path.Clean\<close>; \<open>out\<close> is the reversed output.\<close>

definition clean_step :: "bool \<Rightarrow> string \<Rightarrow> string list \<Rightarrow> string list" where
  "clean_step rooted p out =
     (if p = [] \<or> p = ''.'' then out
      else if p = ''..'' then
        (case out of
           [] \<Rightarrow> if rooted then [] else [''..'']
         | q # qs \<Rightarrow> if q = ''..'' then ''..'' # out else qs)
      else p # out)"

definition path_Clean :: "string \<Rightarrow> string" where
  "path_Clean s = (if s = [] then ''.''
     else let rooted = hd s = CHR ''/'';
              body = join_with (CHR ''/'') (rev (fold (clean_step rooted) (split_on (CHR ''/'') s) []));
              result = (if rooted then CHR ''/'' # body else body)
          in if result = [] then ''.'' else result)"

definition after_last_slash :: "string \<Rightarrow> string" where
  "after_last_slash s = last (split_on (CHR ''/'') s)"

definition path_Dir :: "string \<Rightarrow> string" where
  "path_Dir s = path_Clean (take (length s - length (after_last_slash s)) s)"

definition path_Base :: "string \<Rightarrow> string" where
  "path_Base s = (if s = [] then ''.''
     else let t = rev (dropWhile (\<lambda>c. c = CHR ''/'') (rev s));
              b = after_last_slash t
          in if b = [] then ''/'' else b)"

definition path_Ext :: "string \<Rightarrow> string" where
  "path_Ext s = (let b = after_last_slash s; ps = split_on (CHR ''.'') b
     in if length ps = 1 then [] else CHR ''.'' # last ps)"

definition to_lower :: "string \<Rightarrow> string" where
  "to_lower = map (\<lambda>c. if is_upper c then char_of (of_char c + 32 :: nat) else c)"

definition to_upper :: "string \<Rightarrow> string" where
  "to_upper = map (\<lambda>c. if is_lower c then char_of (of_char c - 32 :: nat) else c)"

section \<open>The path policy\<close>

definition segmentPattern :: "string \<Rightarrow> bool" where
  "segmentPattern s \<longleftrightarrow> s \<noteq> [] \<and> (is_alnum (hd s) \<or> hd s = CHR ''_'')
     \<and> list_all (\<lambda>c. is_alnum c \<or> c \<in> set ''_. -'') (tl s)"

definition allowedExtensions :: "string list" where
  "allowedExtensions = [''.html'', ''.htm'', ''.css'', ''.js'', ''.mjs'', ''.json'', ''.webmanifest'',
     ''.txt'', ''.xml'', ''.svg'', ''.png'', ''.jpg'', ''.jpeg'', ''.gif'', ''.webp'', ''.avif'', ''.ico'',
     ''.woff'', ''.woff2'', ''.ttf'', ''.otf'', ''.mp3'', ''.mp4'', ''.ogg'', ''.webm'', ''.wav'', ''.pdf'',
     ''.wasm'']"

definition reserved_base :: "string \<Rightarrow> bool" where
  "reserved_base base \<longleftrightarrow> base \<in> {''CON'', ''PRN'', ''AUX'', ''NUL''}
     \<or> (length base = 4 \<and> (has_prefix base ''COM'' \<or> has_prefix base ''LPT'') \<and> is_digit (base ! 3))"

text \<open>The reason a component or a path is refused, \<open>None\<close> when it is accepted.\<close>

definition part_reason :: "string \<Rightarrow> string option" where
  "part_reason part =
     (if length part > 200 \<or> \<not> segmentPattern part \<or> last part \<in> set ''. ''
      then Some ''unsupported filename''
      else if reserved_base (to_upper (fst (cut (CHR ''.'') part)))
      then Some ''reserved filename'' else None)"

definition ValidatePath :: "string \<Rightarrow> string option" where
  "ValidatePath name =
     (if name = [] \<or> length name > 1024 \<or> list_ex (\<lambda>c. c \<in> set ''%:#?'' \<or> of_char c = (92 :: nat)
           \<or> of_char c = (0 :: nat)) name
         \<or> path_Clean name \<noteq> name \<or> has_prefix name ''/''
      then Some ''unsafe path''
      else let parts = split_on (CHR ''/'') name in
        if length parts > 20 then Some ''excessive path depth''
        else fold (\<lambda>part res. case res of Some e \<Rightarrow> Some e | None \<Rightarrow> part_reason part) parts None)"

definition forbidden_names :: "string list" where
  "forbidden_names = [''package.json'', ''package-lock.json'', ''composer.json'', ''credentials.json'',
     ''service-account.json'', ''firebase-adminsdk.json'', ''tsconfig.json'']"

definition validateFile :: "string \<Rightarrow> string option" where
  "validateFile name = (case ValidatePath name of
     Some e \<Rightarrow> Some e
   | None \<Rightarrow>
       (let base = to_lower (path_Base name); ext = to_lower (path_Ext name) in
        if ext \<notin> set allowedExtensions
        then (if ext = [] then Some ''unsupported file type (no extension)''
              else Some (''unsupported file type ('' @ ext @ '')''))
        else if base \<in> set forbidden_names then Some ''source or credential file''
        else None))"

section \<open>Manifests and staging\<close>

record limits =
  lm_UploadBytes :: int
  lm_ExpandedBytes :: int
  lm_Files :: int

definition DefaultLimits :: limits where
  "DefaultLimits = \<lparr>lm_UploadBytes = 52428800, lm_ExpandedBytes = 209715200, lm_Files = 5000\<rparr>"

definition Limits_Validate :: "limits \<Rightarrow> bool" where
  "Limits_Validate l \<longleftrightarrow> \<not> (lm_UploadBytes l \<le> 0 \<or> lm_ExpandedBytes l \<le> 0
     \<or> lm_UploadBytes l > 1099511627776 \<or> lm_ExpandedBytes l > 1099511627776
     \<or> lm_Files l \<le> 0 \<or> lm_Files l > 100000)"

record cfile =
  f_Path :: string
  f_Size :: int
  f_SHA256 :: string

record manifest =
  m_Schema :: int
  m_Files :: "cfile list"

type_synonym issues = "(string \<times> string) list"

datatype content_err =
    ContentErrInvalid | ContentErrLimit | ContentBadLimits | ContentFileErrors issues | ContentIO string

definition issues_add :: "string \<Rightarrow> string \<Rightarrow> issues \<Rightarrow> issues" where
  "issues_add name reason is =
     (if length is \<ge> 20 then is
      else if list_ex (\<lambda>i. fst i = name) is then is
      else is @ [(name, reason)])"

text \<open>
  An upload part: its name, whether it has a reader, and what reading it gives, the total size and
  SHA-256 of its bytes (the digest only matters when all of it is read).
\<close>

record source =
  src_Name :: string
  src_Open :: bool
  src_data :: "content_err + int \<times> string"

definition check_names :: "source list \<Rightarrow> issues \<Rightarrow> source list \<times> issues" where
  "check_names input is = fold (\<lambda>src (acc, is).
     case validateFile (src_Name src) of
       Some reason \<Rightarrow> (acc, issues_add (src_Name src) reason is)
     | None \<Rightarrow> if \<not> src_Open src then (acc, issues_add (src_Name src) ''missing file reader'' is)
               else (acc @ [src], is)) input ([], is)"

text \<open>A single common enclosing directory is stripped only if the root index is absent.\<close>

definition unwrap_sources :: "source list \<Rightarrow> source list" where
  "unwrap_sources sources =
     (if list_ex (\<lambda>s. src_Name s = ''index.html'') sources then sources
      else case cut (CHR ''/'') (src_Name (hd sources)) of (dir, _, ok) \<Rightarrow>
        if \<not> ok then sources
        else let prefix = dir @ ''/'' in
          if list_all (\<lambda>s. has_prefix (src_Name s) prefix) sources
          then map (\<lambda>s. s\<lparr>src_Name := trim_prefix (src_Name s) prefix\<rparr>) sources
          else sources)"

text \<open>\<open>part, path.Dir(part), ...\<close> up to \<open>"."\<close>; a path is shorter than its fuel.\<close>

fun path_chain :: "nat \<Rightarrow> string \<Rightarrow> string list" where
  "path_chain 0 part = []"
| "path_chain (Suc n) part = (if part = ''.'' then [] else part # path_chain n (path_Dir part))"

definition chain_of :: "string \<Rightarrow> string list" where
  "chain_of name = path_chain (Suc (length name)) name"

record fold_state =
  fs_seen :: "string list"
  fs_spellings :: "(string, string) fmap"
  fs_issues :: issues

definition note_spelling :: "string \<Rightarrow> string \<Rightarrow> fold_state \<Rightarrow> fold_state" where
  "note_spelling orig part st = (let folded = to_lower part;
       is = (case fmlookup (fs_spellings st) folded of
               None \<Rightarrow> fs_issues st
             | Some previous \<Rightarrow> if previous \<noteq> part then issues_add orig
                   (''inconsistent path casing (conflicts with '' @ previous @ '')'') (fs_issues st)
                 else fs_issues st)
     in st\<lparr>fs_issues := is, fs_spellings := fmupd folded part (fs_spellings st)\<rparr>)"

definition note_source :: "(string \<Rightarrow> string) \<Rightarrow> source \<Rightarrow> fold_state \<Rightarrow> fold_state" where
  "note_source orig src st = (let
       st1 = fold (note_spelling (orig (src_Name src))) (chain_of (src_Name src)) st;
       key = to_lower (src_Name src);
       is = (if key \<in> set (fs_seen st1)
             then issues_add (orig (src_Name src)) ''duplicate filename'' (fs_issues st1)
             else fs_issues st1)
     in st1\<lparr>fs_issues := is, fs_seen := key # fs_seen st1\<rparr>)"

definition note_ancestors :: "(string \<Rightarrow> string) \<Rightarrow> string list \<Rightarrow> source \<Rightarrow> issues \<Rightarrow> issues" where
  "note_ancestors orig seen src is = fold (\<lambda>ancestor is.
     if ancestor \<in> set seen then issues_add (orig (src_Name src))
         (''file/directory conflict (ancestor '' @ ancestor @ '' is a file)'') is
     else is) (chain_of (path_Dir (to_lower (src_Name src)))) is"

definition writeSource :: "source \<Rightarrow> int \<Rightarrow> content_err + cfile" where
  "writeSource src remaining = (case src_data src of
     Inl e \<Rightarrow> Inl e
   | Inr (sz, sha) \<Rightarrow>
       if sz > remaining then Inl ContentErrLimit
       else Inr \<lparr>f_Path = src_Name src, f_Size = sz, f_SHA256 = sha\<rparr>)"

fun write_sources :: "source list \<Rightarrow> int \<Rightarrow> int \<Rightarrow> cfile list \<Rightarrow> content_err + cfile list" where
  "write_sources [] byteLimit tot acc = Inr acc"
| "write_sources (src # rest) byteLimit tot acc =
     (case writeSource src (byteLimit - tot) of
        Inl e \<Rightarrow> Inl e
      | Inr f \<Rightarrow> write_sources rest byteLimit (tot + f_Size f) (acc @ [f]))"

text \<open>\<open>stageWithErrors\<close>, up to the files it creates on disk; \<open>sha\<close> is the digest of the encoded
  manifest.\<close>

definition original_name :: "source list \<Rightarrow> source list \<Rightarrow> string \<Rightarrow> string" where
  "original_name sources originals name = (case find (\<lambda>(s, o'). src_Name s = name)
       (rev (zip sources originals)) of Some (s, o') \<Rightarrow> src_Name o' | None \<Rightarrow> [])"

definition stageWithErrors ::
  "(manifest \<Rightarrow> string) \<Rightarrow> source list \<Rightarrow> bool \<Rightarrow> int \<Rightarrow> limits \<Rightarrow> issues
    \<Rightarrow> content_err + string \<times> manifest" where
  "stageWithErrors sha input unwrap byteLimit limits issues =
     (if \<not> Limits_Validate limits then Inl ContentBadLimits
      else if input = [] then
        (if issues \<noteq> [] then Inl (ContentFileErrors issues) else Inl ContentErrInvalid)
      else if int (length input) > lm_Files limits then Inl ContentErrLimit
      else let byteLimit = min byteLimit (lm_ExpandedBytes limits);
               (originals, is) = check_names input issues
        in if originals = [] then Inl (ContentFileErrors is)
           else let sources = (if unwrap then unwrap_sources originals else originals);
                    orig = original_name sources originals;
                    sorted = sort_key src_Name sources;
                    st = fold (note_source orig) sorted
                           \<lparr>fs_seen = [], fs_spellings = fmempty, fs_issues = is\<rparr>;
                    is = fold (note_ancestors orig (fs_seen st)) sorted (fs_issues st)
             in if is \<noteq> [] then Inl (ContentFileErrors is)
                else if \<not> list_ex (\<lambda>s. src_Name s = ''index.html'') sorted then Inl ContentErrInvalid
                else case write_sources sorted byteLimit 0 [] of
                  Inl e \<Rightarrow> Inl e
                | Inr files \<Rightarrow>
                    (let m = \<lparr>m_Schema = 1, m_Files = files\<rparr> in Inr (sha m, m)))"

definition versionDigestRE :: "string \<Rightarrow> bool" where
  "versionDigestRE s \<longleftrightarrow> length s = 64 \<and> list_all is_hex s"

fun parse_files :: "cfile list \<Rightarrow> int \<Rightarrow> string \<Rightarrow> content_err option" where
  "parse_files [] tot previous = None"
| "parse_files (f # fs) tot previous =
     (if validateFile (f_Path f) \<noteq> None \<or> f_Path f \<le> previous \<or> f_Size f < 0 \<or> f_Size f > 209715200
         \<or> \<not> versionDigestRE (f_SHA256 f)
      then Some ContentErrInvalid
      else if tot + f_Size f > 209715200 then Some ContentErrLimit
      else parse_files fs (tot + f_Size f) (f_Path f))"

text \<open>\<open>ParseManifest\<close>: \<open>len\<close> and \<open>decoded\<close> are the length and the JSON decoding of the bytes.\<close>

definition ParseManifest ::
  "(manifest \<Rightarrow> string) \<Rightarrow> nat \<Rightarrow> manifest option \<Rightarrow> string \<Rightarrow> content_err + manifest" where
  "ParseManifest sha len decoded digest =
     (if len > 8388608 \<or> \<not> versionDigestRE digest then Inl ContentErrInvalid
      else case decoded of
        None \<Rightarrow> Inl ContentErrInvalid
      | Some m \<Rightarrow>
          if sha m \<noteq> digest \<or> m_Schema m \<noteq> 1 \<or> m_Files m = [] \<or> length (m_Files m) > 5000
          then Inl ContentErrInvalid
          else case parse_files (m_Files m) 0 [] of
            Some e \<Rightarrow> Inl e
          | None \<Rightarrow> if list_ex (\<lambda>f. f_Path f = ''index.html'') (m_Files m) then Inr m
                    else Inl ContentErrInvalid)"

section \<open>Footprints\<close>

record footprint =
  fp_ContentBytes :: int
  fp_AllocatedBytes :: int
  fp_Inodes :: int

definition round_up :: "int \<Rightarrow> int \<Rightarrow> int" where
  "round_up block n = (n + block - 1) div block * block"

fun adjust :: "string \<Rightarrow> int \<Rightarrow> (string \<times> int) list \<Rightarrow> (string \<times> int) list" where
  "adjust k d [] = [(k, d)]"
| "adjust k d ((j, v) # rest) = (if j = k then (j, v + d) # rest else (j, v) # adjust k d rest)"

text \<open>The ancestors of a file below \<open>public\<close>, nearest first.\<close>

fun dir_chain :: "nat \<Rightarrow> string \<Rightarrow> string list" where
  "dir_chain 0 d = []"
| "dir_chain (Suc n) d = (if d = ''public'' then [] else d # dir_chain n (path_Dir d))"

definition add_entry :: "string \<Rightarrow> (string \<times> int) list \<Rightarrow> (string \<times> int) list" where
  "add_entry name dirs = fold (\<lambda>d. adjust d 0) (dir_chain (length name) (path_Dir name))
     (adjust (path_Dir name) (int (length (path_Base name)) + 32) dirs)"

fun footprint_files ::
  "int \<Rightarrow> cfile list \<Rightarrow> (string \<times> int) list \<Rightarrow> int \<Rightarrow> int
    \<Rightarrow> content_err + (string \<times> int) list \<times> int \<times> int" where
  "footprint_files block [] dirs content alloc = Inr (dirs, content, alloc)"
| "footprint_files block (f # fs) dirs content alloc =
     (if validateFile (f_Path f) \<noteq> None \<or> f_Size f < 0 \<or> f_Size f > 209715200 then Inl ContentErrInvalid
      else if content + f_Size f > 209715200 then Inl ContentErrLimit
      else footprint_files block fs (add_entry (''public/'' @ f_Path f) dirs) (content + f_Size f)
             (alloc + round_up block (f_Size f)))"

definition add_dir_entries :: "(string \<times> int) list \<Rightarrow> (string \<times> int) list" where
  "add_dir_entries dirs = fold (\<lambda>d. if d = [] \<or> d = ''public'' then id
     else adjust (path_Dir d) (int (length (path_Base d)) + 32)) (map fst dirs) dirs"

text \<open>\<open>json_len m\<close> is the length of the JSON encoding, \<open>None\<close> if encoding fails.\<close>

definition Footprint :: "(manifest \<Rightarrow> int option) \<Rightarrow> manifest \<Rightarrow> int \<Rightarrow> content_err + footprint" where
  "Footprint json_len m block =
     (if m_Schema m \<noteq> 1 \<or> block < 1 \<or> block > 1048576 \<or> m_Files m = [] \<or> length (m_Files m) > 5000
      then Inl ContentErrInvalid
      else case footprint_files block (m_Files m) [([], 64), (''public'', 0)] 0 0 of
        Inl e \<Rightarrow> Inl e
      | Inr (dirs, content, alloc) \<Rightarrow>
          (let dirs = add_dir_entries dirs;
               alloc = alloc + sum_list (map (\<lambda>(d, sz). round_up block (max 1 sz)) dirs)
           in case json_len m of
                None \<Rightarrow> Inl (ContentIO ''json'')
              | Some n \<Rightarrow> Inr \<lparr>fp_ContentBytes = content,
                  fp_AllocatedBytes = alloc + round_up block n + 4 * block,
                  fp_Inodes = int (length (m_Files m)) + int (length dirs) + 5\<rparr>))"

end
