(* ===== verification/Documents.thy ===== *)
theory Documents
  imports Metadata_Tx Content
begin

text \<open>
  The documents of the metadata store: the Go structs of \<open>internal/project\<close> and \<open>internal/session\<close>
  that are stored, one record each, and the sum \<open>doc\<close> of the types a collection can hold. A nil
  pointer is \<open>None\<close>, \<open>time.Time{}\<close> is 0, \<open>int64\<close> fields are integers (arithmetic on them is written
  with \<open>wrap64\<close> where the code does not bound it) and \<open>uint64\<close> fields non-negative ones.
\<close>

section \<open>Projects\<close>

record owner =
  o_Kind :: string
  o_ID :: string

record project =
  p_ID :: string
  p_StorageApp :: string
  p_StorageGeneration :: string
  p_Owner :: owner
  p_OwnerKey :: string
  p_Slug :: string
  p_InitialSlug :: string
  p_AliasCount :: int
  p_InitialSuffix :: string
  p_ActiveDigest :: string
  p_ActiveBytes :: int
  p_ChargedBytes :: int
  p_Revision :: int
  p_PolicyRevision :: int
  p_WatermarkDisabled :: bool
  p_Private :: bool
  p_PasswordDigest :: string
  p_PasswordRevision :: int
  p_Status :: string
  p_PendingOperation :: string
  p_CreatedAt :: time
  p_UpdatedAt :: time
  p_ExpiresAt :: "time option"

definition zero_owner :: owner where
  "zero_owner = \<lparr>o_Kind = [], o_ID = []\<rparr>"

definition zero_project :: project where
  "zero_project = \<lparr>p_ID = [], p_StorageApp = [], p_StorageGeneration = [], p_Owner = zero_owner,
     p_OwnerKey = [], p_Slug = [], p_InitialSlug = [], p_AliasCount = 0, p_InitialSuffix = [],
     p_ActiveDigest = [], p_ActiveBytes = 0, p_ChargedBytes = 0, p_Revision = 0,
     p_PolicyRevision = 0, p_WatermarkDisabled = False, p_Private = False, p_PasswordDigest = [],
     p_PasswordRevision = 0, p_Status = [], p_PendingOperation = [], p_CreatedAt = 0,
     p_UpdatedAt = 0, p_ExpiresAt = None\<rparr>"

record operation =
  op_PublishedAt :: time
  op_ID :: string
  op_Fingerprint :: string
  op_Owner :: owner
  op_ProjectID :: string
  op_Digest :: string
  op_Bytes :: int
  op_BaseRevision :: int
  op_New :: bool
  op_State :: string
  op_ExpiresAt :: time
  op_StorageGeneration :: string
  op_StorageVersionKey :: string

record digest_record =
  d_ProjectID :: string
  d_OperationID :: string

definition zero_digest :: digest_record where
  "zero_digest = \<lparr>d_ProjectID = [], d_OperationID = []\<rparr>"

record quota =
  q_Count :: int
  q_Schema :: int
  q_ChargedBytes :: int

record transfer_record =
  tr_ProjectID :: string
  tr_Owner :: owner
  tr_Digest :: string
  tr_ExpiresAt :: time

record grant =
  g_ProjectID :: string
  g_SessionDigest :: string
  g_PolicyRevision :: int
  g_ExpiresAt :: time

record unlock_budget =
  b_Count :: int
  b_ExpiresAt :: time

definition zero_budget :: unlock_budget where
  "zero_budget = \<lparr>b_Count = 0, b_ExpiresAt = 0\<rparr>"

section \<open>Storage\<close>

record storage_control =
  sc_Removed :: bool
  sc_Drain :: bool
  sc_ResumeBlockBytes :: int

record storage_allocation =
  a_Schema :: int
  a_AccountingBlockBytes :: int
  a_ContentBytes :: int
  a_LiveBytes :: int
  a_Versions :: int
  a_LegacyBytes :: int
  a_LegacyInodes :: int
  a_MigrationID :: string
  a_LiveEpoch :: int
  a_Control :: storage_control
  a_BlockBytes :: int
  a_LimitBytes :: int
  a_LimitInodes :: int
  a_Bytes :: int
  a_Inodes :: int

definition zero_allocation :: storage_allocation where
  "zero_allocation = \<lparr>a_Schema = 0, a_AccountingBlockBytes = 0, a_ContentBytes = 0, a_LiveBytes = 0,
     a_Versions = 0, a_LegacyBytes = 0, a_LegacyInodes = 0, a_MigrationID = [], a_LiveEpoch = 0,
     a_Control = \<lparr>sc_Removed = False, sc_Drain = False, sc_ResumeBlockBytes = 0\<rparr>, a_BlockBytes = 0,
     a_LimitBytes = 0, a_LimitInodes = 0, a_Bytes = 0, a_Inodes = 0\<rparr>"

record storage_version =
  v_ID :: string
  v_App :: string
  v_ProjectID :: string
  v_Digest :: string
  v_Generation :: string
  v_ContentBytes :: int
  v_Bytes :: int
  v_QuotaBytes :: int
  v_BlockBytes :: int
  v_Inodes :: int
  v_Unverified :: bool
  v_ProjectDeleted :: bool
  v_LegacyOperations :: int
  v_State :: string
  v_CreatedAt :: time
  v_RetiredAt :: time
  v_MembershipEpoch :: string
  v_Members :: "string list"
  v_Acknowledged :: "string list"
  v_RefundedAt :: time

text \<open>\<open>v_Acknowledged\<close> lists the members whose entry in the Go map is true (entries are only ever
  set to true); a nil map behaves as an empty one.\<close>

record storage_operation_charge =
  oc_VersionKey :: string
  oc_Generation :: string

section \<open>Sessions and agents\<close>

record session_record =
  s_AnonymousOwner :: string
  s_CSRF :: string
  s_UID :: string
  s_AuthTime :: time
  s_AuthUntil :: time
  s_CreatedAt :: time
  s_ExpiresAt :: time
  s_Revoked :: bool
  s_RotationWindow :: time
  s_RotationCount :: int

record session_bucket =
  sb_Window :: time
  sb_Count :: int

record agent_key =
  k_ID :: string
  k_UID :: string
  k_Label :: string
  k_CreatedAt :: time
  k_ExpiresAt :: time

record agent_upload_ticket =
  ut_UID :: string
  ut_Name :: string
  ut_ProjectID :: string
  ut_Lease :: string
  ut_LeaseUntil :: time
  ut_Revision :: int
  ut_Password :: string
  ut_ExpiresAt :: time
  ut_Result :: "project option"

record agent_client =
  ac_ID :: string
  ac_RedirectURIs :: "string list"
  ac_Name :: string
  ac_URI :: string
  ac_Logo :: string
  ac_AuthMethod :: string
  ac_ResponseTypes :: "string list"
  ac_GrantTypes :: "string list"
  ac_IssuedAt :: int
  ac_ExpiresAt :: time
  ac_Domain :: string

record agent_pending =
  ap_Client :: agent_client
  ap_RedirectURI :: string
  ap_Challenge :: string
  ap_State :: string
  ap_Resource :: string
  ap_Scopes :: "string list"
  ap_CookieHash :: string
  ap_CSRFHash :: string
  ap_ExpiresAt :: time
  ap_Used :: bool

record agent_grant =
  ag_ID :: string
  ag_UID :: string
  ag_Email :: string
  ag_Provider :: string
  ag_ClientID :: string
  ag_Name :: string
  ag_Domain :: string
  ag_Resource :: string
  ag_Scopes :: "string list"
  ag_CreatedAt :: time
  ag_LastUsedAt :: time
  ag_ExpiresAt :: time
  ag_IdleUntil :: time
  ag_FirebaseRefresh :: string
  ag_Revoked :: bool
  ag_Lease :: string
  ag_LeaseUntil :: time

record agent_credential =
  cr_Kind :: string
  cr_GrantID :: string
  cr_ClientID :: string
  cr_RedirectURI :: string
  cr_Challenge :: string
  cr_ExpiresAt :: time
  cr_RetainUntil :: time
  cr_Used :: bool

record agent_rate =
  ar_Count :: int
  ar_ExpiresAt :: time

section \<open>The sum of the stored types\<close>

text \<open>
  \<open>DText\<close> is a stored string (index entries), \<open>DTexts\<close> a stored list of strings or a struct around
  one (\<open>ownerIndex\<close>, \<open>agentKeyIndex\<close>), \<open>DFlag\<close> a stored bool or a struct around one, \<open>DTime\<close> a
  stored time.
\<close>

datatype doc =
    DProject project | DOperation operation | DSlug string | DDigest digest_record | DQuota quota
  | DTexts "string list" | DText string | DFlag bool | DTime time
  | DTransfer transfer_record | DGrant grant | DBudget unlock_budget
  | DAllocation storage_allocation | DVersion storage_version | DCharge storage_operation_charge
  | DSession session_record | DBucket session_bucket
  | DAgentKey agent_key | DTicket agent_upload_ticket | DAgentClient agent_client
  | DAgentPending agent_pending | DAgentGrant agent_grant | DAgentCredential agent_credential
  | DAgentRate agent_rate

definition asProject :: "doc \<Rightarrow> project option" where
  "asProject d = (case d of DProject x \<Rightarrow> Some x | _ \<Rightarrow> None)"
definition asOperation :: "doc \<Rightarrow> operation option" where
  "asOperation d = (case d of DOperation x \<Rightarrow> Some x | _ \<Rightarrow> None)"
definition asSlug :: "doc \<Rightarrow> string option" where
  "asSlug d = (case d of DSlug x \<Rightarrow> Some x | _ \<Rightarrow> None)"
definition asDigest :: "doc \<Rightarrow> digest_record option" where
  "asDigest d = (case d of DDigest x \<Rightarrow> Some x | _ \<Rightarrow> None)"
definition asQuota :: "doc \<Rightarrow> quota option" where
  "asQuota d = (case d of DQuota x \<Rightarrow> Some x | _ \<Rightarrow> None)"
definition asTexts :: "doc \<Rightarrow> string list option" where
  "asTexts d = (case d of DTexts x \<Rightarrow> Some x | _ \<Rightarrow> None)"
definition asText :: "doc \<Rightarrow> string option" where
  "asText d = (case d of DText x \<Rightarrow> Some x | _ \<Rightarrow> None)"
definition asFlag :: "doc \<Rightarrow> bool option" where
  "asFlag d = (case d of DFlag x \<Rightarrow> Some x | _ \<Rightarrow> None)"
definition asTransfer :: "doc \<Rightarrow> transfer_record option" where
  "asTransfer d = (case d of DTransfer x \<Rightarrow> Some x | _ \<Rightarrow> None)"
definition asGrant :: "doc \<Rightarrow> grant option" where
  "asGrant d = (case d of DGrant x \<Rightarrow> Some x | _ \<Rightarrow> None)"
definition asBudget :: "doc \<Rightarrow> unlock_budget option" where
  "asBudget d = (case d of DBudget x \<Rightarrow> Some x | _ \<Rightarrow> None)"
definition asAllocation :: "doc \<Rightarrow> storage_allocation option" where
  "asAllocation d = (case d of DAllocation x \<Rightarrow> Some x | _ \<Rightarrow> None)"
definition asVersion :: "doc \<Rightarrow> storage_version option" where
  "asVersion d = (case d of DVersion x \<Rightarrow> Some x | _ \<Rightarrow> None)"
definition asCharge :: "doc \<Rightarrow> storage_operation_charge option" where
  "asCharge d = (case d of DCharge x \<Rightarrow> Some x | _ \<Rightarrow> None)"
definition asSession :: "doc \<Rightarrow> session_record option" where
  "asSession d = (case d of DSession x \<Rightarrow> Some x | _ \<Rightarrow> None)"
definition asBucket :: "doc \<Rightarrow> session_bucket option" where
  "asBucket d = (case d of DBucket x \<Rightarrow> Some x | _ \<Rightarrow> None)"
definition asAgentKey :: "doc \<Rightarrow> agent_key option" where
  "asAgentKey d = (case d of DAgentKey x \<Rightarrow> Some x | _ \<Rightarrow> None)"
definition asTicket :: "doc \<Rightarrow> agent_upload_ticket option" where
  "asTicket d = (case d of DTicket x \<Rightarrow> Some x | _ \<Rightarrow> None)"
definition asAgentClient :: "doc \<Rightarrow> agent_client option" where
  "asAgentClient d = (case d of DAgentClient x \<Rightarrow> Some x | _ \<Rightarrow> None)"
definition asAgentPending :: "doc \<Rightarrow> agent_pending option" where
  "asAgentPending d = (case d of DAgentPending x \<Rightarrow> Some x | _ \<Rightarrow> None)"
definition asAgentGrant :: "doc \<Rightarrow> agent_grant option" where
  "asAgentGrant d = (case d of DAgentGrant x \<Rightarrow> Some x | _ \<Rightarrow> None)"
definition asAgentCredential :: "doc \<Rightarrow> agent_credential option" where
  "asAgentCredential d = (case d of DAgentCredential x \<Rightarrow> Some x | _ \<Rightarrow> None)"
definition asAgentRate :: "doc \<Rightarrow> agent_rate option" where
  "asAgentRate d = (case d of DAgentRate x \<Rightarrow> Some x | _ \<Rightarrow> None)"

lemmas as_defs = asProject_def asOperation_def asSlug_def asDigest_def asQuota_def asTexts_def
  asText_def asFlag_def asTransfer_def asGrant_def asBudget_def asAllocation_def asVersion_def
  asCharge_def asSession_def asBucket_def asAgentKey_def asTicket_def asAgentClient_def
  asAgentPending_def asAgentGrant_def asAgentCredential_def asAgentRate_def

lemma as_Some [simp]:
  "asProject d = Some p \<longleftrightarrow> d = DProject p" "asOperation d = Some o' \<longleftrightarrow> d = DOperation o'"
  "asSlug d = Some s \<longleftrightarrow> d = DSlug s" "asDigest d = Some dg \<longleftrightarrow> d = DDigest dg"
  "asQuota d = Some q \<longleftrightarrow> d = DQuota q" "asTexts d = Some ts \<longleftrightarrow> d = DTexts ts"
  "asText d = Some s \<longleftrightarrow> d = DText s" "asFlag d = Some b \<longleftrightarrow> d = DFlag b"
  "asTransfer d = Some tr \<longleftrightarrow> d = DTransfer tr" "asGrant d = Some g \<longleftrightarrow> d = DGrant g"
  "asBudget d = Some bu \<longleftrightarrow> d = DBudget bu" "asAllocation d = Some al \<longleftrightarrow> d = DAllocation al"
  "asVersion d = Some v \<longleftrightarrow> d = DVersion v" "asCharge d = Some c \<longleftrightarrow> d = DCharge c"
  "asSession d = Some se \<longleftrightarrow> d = DSession se" "asBucket d = Some sb \<longleftrightarrow> d = DBucket sb"
  "asAgentKey d = Some k \<longleftrightarrow> d = DAgentKey k" "asTicket d = Some t \<longleftrightarrow> d = DTicket t"
  "asAgentClient d = Some cl \<longleftrightarrow> d = DAgentClient cl" "asAgentPending d = Some pe \<longleftrightarrow> d = DAgentPending pe"
  "asAgentGrant d = Some ag \<longleftrightarrow> d = DAgentGrant ag"
  "asAgentCredential d = Some cr \<longleftrightarrow> d = DAgentCredential cr" "asAgentRate d = Some ar \<longleftrightarrow> d = DAgentRate ar"
  by (auto simp: as_defs split: doc.splits)

section \<open>Keys\<close>

text \<open>A document key is the collection, a slash and the identifier. Collections have no slash, so
  keys of different collections differ.\<close>

definition raftRef :: "string \<Rightarrow> string \<Rightarrow> string" where
  "raftRef collection i = collection @ ''/'' @ i"

definition plain :: "string \<Rightarrow> bool" where
  "plain c \<longleftrightarrow> CHR ''/'' \<notin> set c"

lemma raftRef_inject:
  assumes "plain c" "plain c'"
  shows "raftRef c i = raftRef c' j \<longleftrightarrow> c = c' \<and> i = j"
proof
  assume e: "raftRef c i = raftRef c' j"
  have "takeWhile (\<lambda>x. x \<noteq> CHR ''/'') (raftRef c i) = c" "takeWhile (\<lambda>x. x \<noteq> CHR ''/'') (raftRef c' j) = c'"
    using assms by (simp_all add: raftRef_def plain_def takeWhile_append2 takeWhile_append)
  then have "c = c'" using e by simp
  then show "c = c' \<and> i = j" using e by (simp add: raftRef_def)
qed simp

lemma raftRef_same [simp]: "raftRef c i = raftRef c j \<longleftrightarrow> i = j"
  by (simp add: raftRef_def)

lemma raftRef_other: "plain c \<Longrightarrow> plain c' \<Longrightarrow> c \<noteq> c' \<Longrightarrow> raftRef c i \<noteq> raftRef c' j"
  by (simp add: raftRef_inject)

lemma plain_names [simp]:
  "plain ''projects''" "plain ''operations''" "plain ''slugs''" "plain ''digests''" "plain ''quotas''"
  "plain ''owner_projects''" "plain ''sessions''" "plain ''session_budgets''" "plain ''grants''"
  "plain ''unlock_budgets''" "plain ''transfers''" "plain ''retirements''" "plain ''revision_removals''"
  "plain ''revision_catalog''" "plain ''storage_allocations''" "plain ''storage_versions''"
  "plain ''storage_operation_charges''" "plain ''agent_keys''" "plain ''account_agent_keys''"
  "plain ''agent_upload_tickets''" "plain ''agent_rate''" "plain ''agent_pending''"
  "plain ''agent_clients''" "plain ''agent_credentials''" "plain ''agent_grants''"
  "plain ''agent_grant_owners''"
  by (simp_all add: plain_def)

declare raftRef_other [key_simps]

section \<open>Running bodies on a given document store\<close>

text \<open>
  The identity codec, whose values are the documents themselves, and transactions on it: \<open>runs t D n\<close>
  says that \<open>t\<close> sees the documents \<open>D\<close>, can still write, and has read at most \<open>n\<close> keys. The rules
  below execute a body forward.
\<close>

definition doc_codec :: "(doc, doc) codec" where
  "doc_codec = \<lparr>cd_raw = \<lparr>raw_len = (\<lambda>_. 1), raw_valid = (\<lambda>_. True)\<rparr>, marshal_envelope = Some,
     unmarshal_envelope = (\<lambda>v. Some (1, Some v))\<rparr>"

definition record_of :: "(string \<Rightarrow> doc option) \<Rightarrow> string \<Rightarrow> doc kv_record option" where
  "record_of D k = map_option (\<lambda>d. \<lparr>r_Version = 1, r_Value = d\<rparr>) (D k)"

definition start_tx :: "(string \<Rightarrow> doc option) \<Rightarrow> doc tx" where
  "start_tx D = snapshot_tx (record_of D) Replicated False"

definition runs :: "doc tx \<Rightarrow> (string \<Rightarrow> doc option) \<Rightarrow> nat \<Rightarrow> bool" where
  "runs t D n \<longleftrightarrow> good_env doc_codec (tx_read t) \<and> (\<forall>keys. \<exists>m. tx_read t keys = Inr m)
     \<and> cur t = D \<and> \<not> tx_snapshot t \<and> \<not> tx_readOnly t \<and> fcard (fmdom (tx_reads t)) \<le> n
     \<and> writes_ok t"

lemma doc_codec_simps [simp]:
  "faithful_codec doc_codec" "decode_doc doc_codec = Some" "Encode doc_codec d = Inr d"
  "Decode doc_codec into d = (case into d of None \<Rightarrow> Inl ErrDecode | Some x \<Rightarrow> Inr x)"
  by (auto simp: faithful_codec_def decode_doc_def Encode_def Decode_def doc_codec_def fun_eq_iff
      split: option.splits)

lemma view_doc_codec [simp]: "view doc_codec c = c"
  by (rule ext) (simp add: view_def)

lemma stored_record_of: "stored \<circ> record_of D = D"
  by (rule ext) (auto simp: stored_def record_of_def rec_version_def split: option.splits)

lemma start_tx_runs: "runs (start_tx D) D 0"
proof -
  have "cur (start_tx D) = D" by (simp add: start_tx_def cur_snapshot_tx stored_record_of)
  then show ?thesis
    by (auto simp: runs_def start_tx_def snapshot_tx_def good_env_frozen frozen_def fcard.rep_eq writes_ok_def)
qed

lemma runs_docs: "runs t D n \<Longrightarrow> docs doc_codec t = D" "runs t D n \<Longrightarrow> good_env doc_codec (tx_read t)"
  by (simp_all add: runs_def)

lemma runs_weaken: "runs t D n \<Longrightarrow> n \<le> m \<Longrightarrow> runs t D m"
  by (simp add: runs_def)

lemma fcard_finsert_le: "fcard (finsert x S) \<le> Suc (fcard S)"
  by (simp add: fcard_finsert_if)

lemma runs_record:
  assumes "runs t D n" "n < 128"
  shows "\<exists>u. tx_record k t = (Inr (base t k), u) \<and> runs u D (Suc n) \<and> tx_writes u = tx_writes t"
proof -
  obtain r u where ru: "tx_record k t = (r, u)" by fastforce
  have w: "writes_ok u" using grows_writes[OF grows_record ru] assms by (simp add: runs_def)
  have "r = Inr (base t k) \<and> runs u D (Suc n)" using ru
  proof (cases rule: tx_record_cases)
    case (failed e)
    then show ?thesis using assms by (auto simp: runs_def) (metis sum.distinct(1))
  next
    case (fetched m)
    then show ?thesis using assms w fcard_finsert_le[of k "fmdom (tx_reads t)"] cur_tx_record[OF ru]
      by (auto simp: runs_def base_def)
  qed (use assms w in \<open>auto simp: runs_def base_def\<close>)
  then show ?thesis using ru env_tx_record[OF ru] by auto
qed

lemma runs_written:
  assumes "runs t D n" "fmlookup (tx_writes t) k = Some w"
  shows "(if w_Delete w then D k = None else D k = w_Value w \<and> w_Value w \<noteq> None)"
proof -
  have "w = delete_write k \<or> (\<exists>v. w = value_write k v)" using assms unfolding runs_def writes_ok_def by blast
  moreover have "D k = cur t k" using assms by (simp add: runs_def)
  ultimately show ?thesis using assms(2)
    by (auto simp: cur_def delete_write_def value_write_def)
qed

lemma runs_lookup:
  assumes "runs t D n" "n < 128"
  shows "\<exists>u. tx_lookup load k t = (case D k of None \<Rightarrow> Inl MetadataErrNotFound | Some d \<Rightarrow> load (Some d), u)
    \<and> runs u D (Suc n)"
proof (cases "fmlookup (tx_writes t) k")
  case None
  obtain u where u: "tx_record k t = (Inr (base t k), u)" "runs u D (Suc n)"
    using runs_record[OF assms] by blast
  have "stored (base t k) = D k" using None assms by (auto simp: runs_def cur_def)
  then show ?thesis using None u
    by (auto simp: tx_lookup_def stored_def rec_version_def split: if_splits option.splits)
next
  case (Some w)
  have "runs t D (Suc n)" using assms by (simp add: runs_def)
  then show ?thesis using Some runs_written[OF assms(1) Some]
    by (auto simp: tx_lookup_def split: if_splits option.splits)
qed

lemma runs_Get:
  assumes "runs t D n" "n < 128"
  shows "\<exists>u. Get doc_codec into k t = (case D k of None \<Rightarrow> Inl MetadataErrNotFound
      | Some d \<Rightarrow> (case into d of None \<Rightarrow> Inl ErrDecode | Some x \<Rightarrow> Inr x), u) \<and> runs u D (Suc n)"
  unfolding Get_def
  using runs_lookup[OF assms, of "case_option (Inl KvErrInvalid) (Decode doc_codec into)" k]
  by (simp cong: option.case_cong)

lemma runs_Exists:
  assumes "runs t D n" "n < 128"
  shows "\<exists>u. Exists k t = (if D k = None then Inl MetadataErrNotFound else Inr (), u) \<and> runs u D (Suc n)"
  unfolding Exists_def using runs_lookup[OF assms, of "\<lambda>_. Inr ()" k] by (auto split: option.splits)

lemma runs_durability: "runs t D n \<Longrightarrow> runs (t\<lparr>tx_durability := d\<rparr>) D n"
  by (simp add: runs_def writes_ok_def)

lemma runs_classify:
  assumes "runs t D n"
  shows "\<exists>u. classifyWrite k del t = (Inr (), u) \<and> runs u D n"
  using assms runs_durability[OF assms]
  by (auto simp: classifyWrite_def RequireReplication_def Let_def)

lemma runs_put:
  assumes "runs t D n" "n < 128" "w = delete_write k \<or> (\<exists>v. w = value_write k v)"
  shows "\<exists>u. tx_put k (Inr w) t = (Inr (), u)
    \<and> runs u (D(k := if w_Delete w then None else w_Value w)) (Suc n)"
proof -
  obtain u where u: "tx_record k t = (Inr (base t k), u)" "runs u D (Suc n)"
    using runs_record[OF assms(1,2)] by blast
  let ?u = "u\<lparr>tx_writes := fmupd k w (tx_writes u)\<rparr>"
  have p: "tx_put k (Inr w) t = (Inr (), ?u)" using u by (simp add: tx_put_def)
  have "writes_ok ?u"
    using u(2) tx_record_key[OF u(1)] assms(3) by (auto simp: runs_def writes_ok_def)
  then have "runs ?u (D(k := if w_Delete w then None else w_Value w)) (Suc n)"
    using u(2) by (simp add: runs_def cur_fmupd)
  then show ?thesis using p by blast
qed

lemma runs_Set:
  assumes "runs t D n" "n < 128"
  shows "\<exists>u. Set doc_codec k d t = (Inr (), u) \<and> runs u (D(k \<mapsto> d)) (Suc n)"
proof -
  obtain v where v: "classifyWrite k False t = (Inr (), v)" "runs v D n"
    using runs_classify[OF assms(1)] by blast
  have "tx_writable t = (Inr (), t)" using assms by (simp add: tx_writable_def runs_def)
  then show ?thesis using v runs_put[OF v(2) assms(2), of "value_write k d" k]
    by (auto simp: Set_def value_write_def)
qed

lemma runs_Delete:
  assumes "runs t D n" "n < 128"
  shows "\<exists>u. Delete k t = (Inr (), u) \<and> runs u (D(k := None)) (Suc n)"
proof -
  obtain v where v: "classifyWrite k True t = (Inr (), v)" "runs v D n"
    using runs_classify[OF assms(1)] by blast
  have "tx_writable t = (Inr (), t)" using assms by (simp add: tx_writable_def runs_def)
  then show ?thesis using v runs_put[OF v(2) assms(2), of "delete_write k" k]
    by (auto simp: Delete_def delete_write_def)
qed

text \<open>\<open>execs m D n r D' n'\<close>: on documents \<open>D\<close> the body \<open>m\<close> gives \<open>r\<close> and leaves \<open>D'\<close>.\<close>

definition execs ::
  "(doc, 'a) txm \<Rightarrow> (string \<Rightarrow> doc option) \<Rightarrow> nat \<Rightarrow> err + 'a \<Rightarrow> (string \<Rightarrow> doc option) \<Rightarrow> nat \<Rightarrow> bool" where
  "execs m D n r D' n' \<longleftrightarrow> (\<forall>t. runs t D n \<longrightarrow> (\<exists>u. m t = (r, u) \<and> runs u D' n'))"

lemma execs_start:
  assumes "execs m D 0 (Inr x) D' n"
  shows "\<exists>u. m (start_tx D) = (Inr x, u) \<and> docs doc_codec u = D'"
  using assms start_tx_runs[of D] runs_docs(1) unfolding execs_def by blast

lemma execs_return: "execs (tx_return x) D n (Inr x) D n"
  and execs_throw: "execs (tx_throw e) D n (Inl e) D n"
  and execs_guard: "\<not> b \<Longrightarrow> execs (tx_guard b e) D n (Inr ()) D n"
  and execs_guard_error: "b \<Longrightarrow> execs (tx_guard b e) D n (Inl e) D n"
  by (simp_all add: execs_def)

lemma execs_bind:
  "execs m D n (Inr x) D1 n1 \<Longrightarrow> execs (f x) D1 n1 r D2 n2 \<Longrightarrow> execs (tx_bind m f) D n r D2 n2"
  unfolding execs_def by (simp del: split_paired_Ex) (metis (mono_tags, lifting) case_prod_conv sum.case(2))

lemma execs_bind_error: "execs m D n (Inl e) D1 n1 \<Longrightarrow> execs (tx_bind m f) D n (Inl e) D1 n1"
  unfolding execs_def by (simp del: split_paired_Ex) (metis (mono_tags, lifting) case_prod_conv sum.case(1))

lemma execs_missing: "execs m D n (Inr x) D' n' \<Longrightarrow> execs (tx_missing e m) D n (Inr x) D' n'"
  unfolding execs_def tx_missing_def by fastforce

lemma execs_missing_error:
  "execs m D n (Inl MetadataErrNotFound) D' n' \<Longrightarrow> execs (tx_missing e m) D n (Inl e) D' n'"
  unfolding execs_def tx_missing_def by fastforce

lemma execs_optional: "execs m D n (Inr x) D' n' \<Longrightarrow> execs (tx_optional m) D n (Inr (Some x)) D' n'"
  unfolding execs_def tx_optional_def by fastforce

lemma execs_optional_missing:
  "execs m D n (Inl MetadataErrNotFound) D' n' \<Longrightarrow> execs (tx_optional m) D n (Inr None) D' n'"
  unfolding execs_def tx_optional_def by fastforce

lemma execs_Get:
  "D k = Some d \<Longrightarrow> into d = Some x \<Longrightarrow> n < 128 \<Longrightarrow> execs (Get doc_codec into k) D n (Inr x) D (Suc n)"
  unfolding execs_def using runs_Get[of _ D n into k] by simp

lemma execs_Get_missing:
  "D k = None \<Longrightarrow> n < 128 \<Longrightarrow> execs (Get doc_codec into k) D n (Inl MetadataErrNotFound) D (Suc n)"
  unfolding execs_def using runs_Get[of _ D n into k] by simp

lemma execs_Exists: "D k \<noteq> None \<Longrightarrow> n < 128 \<Longrightarrow> execs (Exists k) D n (Inr ()) D (Suc n)"
  and execs_Exists_missing:
    "D k = None \<Longrightarrow> n < 128 \<Longrightarrow> execs (Exists k) D n (Inl MetadataErrNotFound) D (Suc n)"
  unfolding execs_def using runs_Exists[of _ D n k] by auto

lemma execs_Set: "n < 128 \<Longrightarrow> execs (Set doc_codec k d) D n (Inr ()) (D(k \<mapsto> d)) (Suc n)"
  unfolding execs_def using runs_Set by blast

lemma execs_Delete: "n < 128 \<Longrightarrow> execs (Delete k) D n (Inr ()) (D(k := None)) (Suc n)"
  unfolding execs_def using runs_Delete by blast

lemma execs_Create:
  assumes "D k = None" "Suc n < 128"
  shows "execs (Create doc_codec k d) D n (Inr ()) (D(k \<mapsto> d)) (Suc (Suc n))"
proof -
  have "execs (tx_optional (Exists k)) D n (Inr None) D (Suc n)"
    using assms by (intro execs_optional_missing execs_Exists_missing) auto
  then show ?thesis unfolding Create_def
    by (rule execs_bind) (use assms in \<open>auto intro: execs_Set\<close>)
qed

lemma execs_RequireReplication: "execs RequireReplication D n (Inr ()) D n"
  unfolding execs_def RequireReplication_def using runs_durability by blast

lemma execs_if: "b \<Longrightarrow> execs m D n r D' n' \<Longrightarrow> execs (if b then m else m') D n r D' n'"
  and execs_if_not: "\<not> b \<Longrightarrow> execs m' D n r D' n' \<Longrightarrow> execs (if b then m else m') D n r D' n'"
  by simp_all

lemmas execs_rules = execs_return execs_throw execs_guard execs_missing execs_Get execs_Set
  execs_Delete execs_Create execs_RequireReplication

end
