(* ===== verification/Session.thy ===== *)
theory Session
  imports Documents
begin

text \<open>
  Browser sessions: the service of \<open>internal/session/session.go\<close> and its replicated store
  \<open>internal/session/raft.go\<close>.

  The store operations are transaction bodies; a check the Go code makes before it starts the
  transaction is the first step of the body, where it reads nothing and fails with the same error.
  The service functions are pure functions of what they call: the store, the identity verifier, the
  random source and the clock, one instant per call.
\<close>

section \<open>Records and tokens\<close>

definition AnonymousLifetime :: int where "AnonymousLifetime = 365 * day"
definition AccountLifetime :: int where "AccountLifetime = 12 * hour"

definition Active :: "session_record \<Rightarrow> time \<Rightarrow> bool" where
  "Active r now \<longleftrightarrow> \<not> s_Revoked r \<and> now < s_ExpiresAt r \<and> s_AnonymousOwner r \<noteq> [] \<and> s_CSRF r \<noteq> []"

definition zero_session :: session_record where
  "zero_session = \<lparr>s_AnonymousOwner = [], s_CSRF = [], s_UID = [], s_AuthTime = 0, s_AuthUntil = 0,
     s_CreatedAt = 0, s_ExpiresAt = 0, s_Revoked = False, s_RotationWindow = 0, s_RotationCount = 0\<rparr>"

text \<open>
  The canonical unpadded URL-safe base64 encodings of 32 bytes: 43 characters whose last one carries
  four bits, so its lowest two are zero.
\<close>

definition base64url_value :: "char \<Rightarrow> nat option" where
  "base64url_value c =
     (if is_upper c then Some (of_char c - 65)
      else if is_lower c then Some (of_char c - 97 + 26)
      else if is_digit c then Some (of_char c - 48 + 52)
      else if c = CHR ''-'' then Some 62
      else if c = CHR ''_'' then Some 63 else None)"

definition base64url32 :: "string \<Rightarrow> bool" where
  "base64url32 s \<longleftrightarrow> length s = 43 \<and> list_all (\<lambda>c. base64url_value c \<noteq> None) s
     \<and> the (base64url_value (last s)) mod 4 = 0"

definition Digest :: "(string \<Rightarrow> string) \<Rightarrow> string \<Rightarrow> err + string" where
  "Digest sha token = (if base64url32 token then Inr (sha token) else Inl ErrUnauthorized)"

definition sessionKey :: "string \<Rightarrow> bool" where
  "sessionKey s \<longleftrightarrow> length s = 64 \<and> list_all is_hex s"

section \<open>The replicated store\<close>

definition RaftStore_Get :: "('v, doc) codec \<Rightarrow> string \<Rightarrow> ('v, session_record) txm" where
  "RaftStore_Get cd digest =
     tx_bind (tx_guard (\<not> sessionKey digest) ErrUnauthorized) (\<lambda>_.
     tx_missing ErrUnauthorized (Get cd asSession (raftRef ''sessions'' digest)))"

definition RaftStore_Create ::
  "('v, doc) codec \<Rightarrow> int \<Rightarrow> string \<Rightarrow> session_record \<Rightarrow> time \<Rightarrow> ('v, unit) txm" where
  "RaftStore_Create cd creationsPerMinute digest rcd now =
     tx_bind (tx_guard (\<not> sessionKey digest \<or> \<not> Active rcd now
         \<or> creationsPerMinute < 1 \<or> creationsPerMinute > 10000) KvErrInvalid) (\<lambda>_.
     tx_bind (tx_optional (Get cd asBucket (raftRef ''session_budgets'' ''global''))) (\<lambda>found.
     let bucket = (case found of None \<Rightarrow> \<lparr>sb_Window = 0, sb_Count = 0\<rparr> | Some b \<Rightarrow> b);
         window = Truncate now minute;
         bucket = (if window > sb_Window bucket then \<lparr>sb_Window = window, sb_Count = 0\<rparr> else bucket)
     in tx_bind (tx_guard (sb_Count bucket \<ge> creationsPerMinute) ErrRateLimited) (\<lambda>_.
        tx_bind (Set cd (raftRef ''session_budgets'' ''global'')
            (DBucket (bucket\<lparr>sb_Count := inc64 (sb_Count bucket)\<rparr>))) (\<lambda>_.
        Create cd (raftRef ''sessions'' digest) (DSession rcd)))))"

definition rotated :: "session_record \<Rightarrow> session_record \<Rightarrow> time \<Rightarrow> session_record" where
  "rotated old rcd now =
     (let next = rcd\<lparr>s_RotationWindow := Truncate now minute, s_RotationCount := 1\<rparr> in
      if \<not> s_RotationWindow next > s_RotationWindow old
      then next\<lparr>s_RotationWindow := s_RotationWindow old,
                s_RotationCount := wrap64 (s_RotationCount next + s_RotationCount old)\<rparr>
      else next)"

definition RaftStore_Rotate ::
  "('v, doc) codec \<Rightarrow> string \<Rightarrow> string \<Rightarrow> string \<Rightarrow> session_record \<Rightarrow> time \<Rightarrow> ('v, unit) txm" where
  "RaftStore_Rotate cd oldDigest newDigest expectedCSRF rcd now =
     tx_bind (tx_guard (\<not> sessionKey oldDigest \<or> \<not> sessionKey newDigest \<or> oldDigest = newDigest
         \<or> \<not> Active rcd now) ErrUnauthorized) (\<lambda>_.
     tx_bind (tx_missing ErrUnauthorized (Get cd asSession (raftRef ''sessions'' oldDigest))) (\<lambda>old.
     tx_bind (tx_guard (\<not> Active old now \<or> s_CSRF old \<noteq> expectedCSRF) ErrUnauthorized) (\<lambda>_.
     let next = rotated old rcd now in
     tx_bind (tx_guard (s_RotationCount next > 20) ErrRateLimited) (\<lambda>_.
     tx_bind (Create cd (raftRef ''sessions'' newDigest) (DSession next)) (\<lambda>_.
     Set cd (raftRef ''sessions'' oldDigest) (DSession (old\<lparr>s_Revoked := True\<rparr>)))))))"

section \<open>The service\<close>

record identity =
  i_UID :: string
  i_IssuedAt :: time
  i_AuthTime :: time
  i_ExpiresAt :: time

record session_view =
  sv_Record :: session_record
  sv_Authenticated :: bool

text \<open>What a service call relies on: the clock, the store's operations, the verifier, SHA-256 and
  three fresh random strings (or the failure of the random source).\<close>

record session_env =
  se_now :: time
  se_get :: "string \<Rightarrow> err + session_record"
  se_create :: "string \<Rightarrow> session_record \<Rightarrow> time \<Rightarrow> err option"
  se_rotate :: "string \<Rightarrow> string \<Rightarrow> string \<Rightarrow> session_record \<Rightarrow> time \<Rightarrow> err option"
  se_verifyGoogle :: "string \<Rightarrow> err + identity"
  se_checkAccount :: "identity \<Rightarrow> err option"
  se_sha :: "string \<Rightarrow> string"
  se_random :: "err + string \<times> string \<times> string"

definition fresh :: "session_env \<Rightarrow> time \<Rightarrow> err + string \<times> session_record" where
  "fresh env now = (case se_random env of
     Inl e \<Rightarrow> Inl e
   | Inr (token, owner, csrf) \<Rightarrow>
       Inr (token, zero_session\<lparr>s_AnonymousOwner := owner, s_CSRF := csrf, s_CreatedAt := now,
         s_ExpiresAt := now + AnonymousLifetime\<rparr>))"

definition digest_or_empty :: "session_env \<Rightarrow> string \<Rightarrow> string" where
  "digest_or_empty env token = (case Digest (se_sha env) token of Inl e \<Rightarrow> [] | Inr d \<Rightarrow> d)"

definition Service_Create :: "session_env \<Rightarrow> err + string \<times> session_view" where
  "Service_Create env = (let now = se_now env in
     case fresh env now of
       Inl e \<Rightarrow> Inl e
     | Inr (token, rcd) \<Rightarrow>
         (case se_create env (digest_or_empty env token) rcd now of
            Some e \<Rightarrow> Inl e
          | None \<Rightarrow> Inr (token, \<lparr>sv_Record = rcd, sv_Authenticated = False\<rparr>)))"

definition load :: "session_env \<Rightarrow> string \<Rightarrow> err + session_record" where
  "load env token = (case Digest (se_sha env) token of
     Inl e \<Rightarrow> Inl e
   | Inr digest \<Rightarrow> (case se_get env digest of
       Inl e \<Rightarrow> Inl e
     | Inr r \<Rightarrow> if \<not> Active r (se_now env) then Inl ErrUnauthorized else Inr r))"

text \<open>The common end of \<open>Read\<close> and \<open>ReadForServing\<close>.\<close>

definition view_of :: "session_env \<Rightarrow> session_record \<Rightarrow> err + session_view" where
  "view_of env r =
     (if s_UID r \<noteq> [] \<and> se_now env < s_AuthUntil r then
        (case se_checkAccount env \<lparr>i_UID = s_UID r, i_IssuedAt = 0, i_AuthTime = s_AuthTime r,
             i_ExpiresAt = s_AuthUntil r\<rparr> of
           Some e \<Rightarrow> Inl e
         | None \<Rightarrow> Inr \<lparr>sv_Record = r, sv_Authenticated = True\<rparr>)
      else Inr \<lparr>sv_Record = r, sv_Authenticated = False\<rparr>)"

definition Service_Read :: "session_env \<Rightarrow> string \<Rightarrow> err + session_view" where
  "Service_Read env token = (case load env token of Inl e \<Rightarrow> Inl e | Inr r \<Rightarrow> view_of env r)"

definition CheckCSRF :: "session_record \<Rightarrow> string \<Rightarrow> err option" where
  "CheckCSRF rcd token = (if token = [] \<or> s_CSRF rcd \<noteq> token then Some ErrCSRF else None)"

definition login_refused :: "session_record \<Rightarrow> identity \<Rightarrow> time \<Rightarrow> err option" where
  "login_refused old i now =
     (if i_UID i = [] \<or> IsZero (i_AuthTime i) \<or> i_AuthTime i > now + minute then Some ErrUnauthorized
      else if \<not> IsZero (i_ExpiresAt i) \<and> \<not> now < i_ExpiresAt i then Some ErrUnauthorized
      else if s_UID old \<noteq> [] \<and> s_UID old \<noteq> i_UID i then Some ErrAccountSwitch
      else if s_UID old = [] then
        (if now - i_AuthTime i > 5 * minute then Some ErrUnauthorized else None)
      else if IsZero (i_IssuedAt i) \<or> i_IssuedAt i > now + minute \<or> now - i_IssuedAt i > 5 * minute
        then Some ErrUnauthorized else None)"

definition Login :: "session_env \<Rightarrow> string \<Rightarrow> string \<Rightarrow> string \<Rightarrow> err + string \<times> session_view" where
  "Login env token csrf idToken = (case load env token of
     Inl e \<Rightarrow> Inl e
   | Inr old \<Rightarrow> (case CheckCSRF old csrf of
       Some e \<Rightarrow> Inl e
     | None \<Rightarrow> (case se_verifyGoogle env idToken of
         Inl e \<Rightarrow> Inl e
       | Inr i \<Rightarrow> (let now = se_now env in
           case login_refused old i now of
             Some e \<Rightarrow> Inl e
           | None \<Rightarrow> (case se_checkAccount env i of
               Some e \<Rightarrow> Inl e
             | None \<Rightarrow> (case fresh env now of
                 Inl e \<Rightarrow> Inl e
               | Inr (newToken, next0) \<Rightarrow>
                   (let until = now + AccountLifetime;
                        until = (if \<not> IsZero (i_ExpiresAt i) \<and> i_ExpiresAt i < until
                                 then i_ExpiresAt i else until);
                        next = next0\<lparr>s_AnonymousOwner := s_AnonymousOwner old, s_UID := i_UID i,
                          s_AuthTime := i_AuthTime i, s_AuthUntil := until\<rparr>
                    in case se_rotate env (digest_or_empty env token) (digest_or_empty env newToken)
                           (s_CSRF old) next now of
                         Some e \<Rightarrow> Inl e
                       | None \<Rightarrow> Inr (newToken, \<lparr>sv_Record = next, sv_Authenticated = True\<rparr>))))))))"

definition Logout :: "session_env \<Rightarrow> string \<Rightarrow> string \<Rightarrow> err + string \<times> session_view" where
  "Logout env token csrf = (case load env token of
     Inl e \<Rightarrow> Inl e
   | Inr old \<Rightarrow> (case CheckCSRF old csrf of
       Some e \<Rightarrow> Inl e
     | None \<Rightarrow> (let now = se_now env in
         case fresh env now of
           Inl e \<Rightarrow> Inl e
         | Inr (newToken, next) \<Rightarrow>
             (case se_rotate env (digest_or_empty env token) (digest_or_empty env newToken)
                  (s_CSRF old) next now of
                Some e \<Rightarrow> Inl e
              | None \<Rightarrow> Inr (newToken, \<lparr>sv_Record = next, sv_Authenticated = False\<rparr>)))))"

definition ReadForServing :: "session_env \<Rightarrow> string \<Rightarrow> err + session_view" where
  "ReadForServing env token = (case Digest (se_sha env) token of
     Inl e \<Rightarrow> Inl e
   | Inr digest \<Rightarrow> (case se_get env digest of
       Inl e \<Rightarrow> Inl e
     | Inr r \<Rightarrow> if \<not> Active r (se_now env) then Inl ErrUnauthorized else view_of env r))"

section \<open>What the store operations do\<close>

lemma RaftStore_Rotate_InrE:
  assumes "RaftStore_Rotate cd od nd csrf rcd now t = (Inr x, u)" "good_env cd (tx_read t)"
  obtains old where "docs cd t (raftRef ''sessions'' od) = Some (DSession old)"
    "docs cd t (raftRef ''sessions'' nd) = None" "od \<noteq> nd" "Active old now" "s_CSRF old = csrf"
    "Active rcd now" "s_RotationCount (rotated old rcd now) \<le> 20"
    "docs cd u = (docs cd t)(raftRef ''sessions'' nd \<mapsto> DSession (rotated old rcd now),
       raftRef ''sessions'' od \<mapsto> DSession (old\<lparr>s_Revoked := True\<rparr>))"
  using assms unfolding RaftStore_Rotate_def Let_def
  by (elim tx_elims) (auto intro: that)

lemma RaftStore_Create_InrE:
  assumes "RaftStore_Create cd lim digest rcd now t = (Inr x, u)" "good_env cd (tx_read t)"
  obtains b b' where
    "b = (case docs cd t (raftRef ''session_budgets'' ''global'') of
            Some (DBucket b) \<Rightarrow> b | _ \<Rightarrow> \<lparr>sb_Window = 0, sb_Count = 0\<rparr>)"
    "b' = (if Truncate now minute > sb_Window b then \<lparr>sb_Window = Truncate now minute, sb_Count = 0\<rparr> else b)"
    "sb_Count b' < lim" "1 \<le> lim" "lim \<le> 10000" "Active rcd now"
    "docs cd t (raftRef ''sessions'' digest) = None"
    "docs cd u = (docs cd t)(raftRef ''session_budgets'' ''global'' \<mapsto>
         DBucket (b'\<lparr>sb_Count := inc64 (sb_Count b')\<rparr>),
       raftRef ''sessions'' digest \<mapsto> DSession rcd)"
  using assms unfolding RaftStore_Create_def Let_def
  by (elim tx_elims) (auto intro!: that simp: key_simps)

lemma replays_RaftStore [replay_intros]:
  "replays_all (RaftStore_Get cd d)" "replays_all (RaftStore_Create cd lim d r now)"
  "replays_all (RaftStore_Rotate cd od nd csrf r now)"
  unfolding RaftStore_Get_def RaftStore_Create_def RaftStore_Rotate_def Let_def
  by (intro replay_intros)+

text \<open>
  A run of the store in which \<open>n\<close> sessions are created at clock readings of the minute \<open>w\<close>, with any
  other changes to other documents in between.
\<close>

abbreviation session_budget :: string where
  "session_budget \<equiv> raftRef ''session_budgets'' ''global''"

definition bucket_nonneg :: "(string \<Rightarrow> doc option) \<Rightarrow> bool" where
  "bucket_nonneg D \<longleftrightarrow> (\<forall>b. D session_budget = Some (DBucket b) \<longrightarrow> 0 \<le> sb_Count b)"

inductive creation_run ::
  "('v, doc) codec \<Rightarrow> int \<Rightarrow> time \<Rightarrow> nat \<Rightarrow> (string \<Rightarrow> doc option) \<Rightarrow> bool" for cd lim w where
  start: "bucket_nonneg D \<Longrightarrow> creation_run cd lim w 0 D"
| create: "creation_run cd lim w n (docs cd t) \<Longrightarrow> good_env cd (tx_read t) \<Longrightarrow> Truncate now minute = w \<Longrightarrow>
    RaftStore_Create cd lim digest rcd now t = (Inr (), u) \<Longrightarrow> creation_run cd lim w (Suc n) (docs cd u)"
| other: "creation_run cd lim w n D \<Longrightarrow> D' session_budget = D session_budget \<Longrightarrow> creation_run cd lim w n D'"

lemma creation_run_bucket:
  assumes "creation_run cd lim w n D"
  shows "bucket_nonneg D \<and> (n = 0 \<or> (\<exists>b. D session_budget = Some (DBucket b)
    \<and> w \<le> sb_Window b \<and> int n \<le> sb_Count b \<and> sb_Count b \<le> lim))"
  using assms
proof induction
  case (create n t now digest rcd u)
  obtain b b' where b: "b = (case docs cd t session_budget of
            Some (DBucket b) \<Rightarrow> b | _ \<Rightarrow> \<lparr>sb_Window = 0, sb_Count = 0\<rparr>)"
    and b': "b' = (if Truncate now minute > sb_Window b
        then \<lparr>sb_Window = Truncate now minute, sb_Count = 0\<rparr> else b)"
    and lim: "sb_Count b' < lim" "lim \<le> 10000"
    and u: "docs cd u session_budget = Some (DBucket (b'\<lparr>sb_Count := inc64 (sb_Count b')\<rparr>))"
    using create.hyps(2,4) by (elim RaftStore_Create_InrE) (auto simp: key_simps)
  have "0 \<le> sb_Count b" using create.IH b by (auto simp: bucket_nonneg_def split: option.splits doc.splits)
  then have nn: "0 \<le> sb_Count b'" using b' by auto
  then have inc: "inc64 (sb_Count b') = sb_Count b' + 1"
    using lim by (intro inc64_id) (auto simp: max_int64_def)
  have "w \<le> sb_Window b' \<and> int n \<le> sb_Count b'"
    using create.IH create.hyps(3) b b' nn by (cases "n = 0") auto
  then show ?case using u inc lim nn by (auto simp: bucket_nonneg_def)
qed (auto simp: bucket_nonneg_def)

section \<open>Properties\<close>

text \<open>
  The global creation budget holds: in any one minute at most \<open>CreationsPerMinute\<close> sessions are
  created, whatever other transactions run in between and even if the stored bucket is from the
  future because a clock stepped back.
\<close>

theorem session_creation_budget:
  assumes "creation_run cd lim w n D" "0 \<le> lim"
  shows "int n \<le> lim"
  using creation_run_bucket[OF assms(1)] assms(2) by auto

text \<open>
  Rotation hands a session over exactly once: when it succeeds, the old session was active with
  the expected CSRF token and is now revoked, so that it is not active at any time, the new digest
  was unused and now holds an active session, and no other document changed. A chain of rotations
  in one minute is cut after twenty.
\<close>

theorem RaftStore_Rotate_hands_over:
  assumes "RaftStore_Rotate cd od nd csrf rcd now t = (Inr x, u)" "good_env cd (tx_read t)"
  shows "\<exists>old next. docs cd t (raftRef ''sessions'' od) = Some (DSession old)
    \<and> Active old now \<and> s_CSRF old = csrf \<and> docs cd t (raftRef ''sessions'' nd) = None
    \<and> docs cd u = (docs cd t)(raftRef ''sessions'' nd \<mapsto> DSession next,
        raftRef ''sessions'' od \<mapsto> DSession (old\<lparr>s_Revoked := True\<rparr>))
    \<and> od \<noteq> nd \<and> Active next now \<and> \<not> Active (old\<lparr>s_Revoked := True\<rparr>) later
    \<and> s_RotationCount next \<le> 20
    \<and> (s_RotationWindow old < Truncate now minute \<or> s_RotationCount next = wrap64 (s_RotationCount old + 1))"
  using assms
proof (rule RaftStore_Rotate_InrE)
  fix old
  assume *: "docs cd t (raftRef ''sessions'' od) = Some (DSession old)"
    "docs cd t (raftRef ''sessions'' nd) = None" "od \<noteq> nd" "Active old now" "s_CSRF old = csrf"
    "Active rcd now" "s_RotationCount (rotated old rcd now) \<le> 20"
    "docs cd u = (docs cd t)(raftRef ''sessions'' nd \<mapsto> DSession (rotated old rcd now),
       raftRef ''sessions'' od \<mapsto> DSession (old\<lparr>s_Revoked := True\<rparr>))"
  have "Active (rotated old rcd now) now" using *(6) by (simp add: rotated_def Active_def Let_def)
  moreover have "s_RotationWindow old < Truncate now minute \<or>
      s_RotationCount (rotated old rcd now) = wrap64 (s_RotationCount old + 1)"
    by (auto simp: rotated_def Let_def add.commute)
  ultimately show ?thesis using * by (intro exI[of _ old] exI[of _ "rotated old rcd now"])
      (simp add: Active_def)
qed

text \<open>
  Signing in keeps the browser's anonymous owner and never crosses accounts: a successful login
  started from an active session with the right CSRF token, ends in the verified account, which is
  the session's own account if it had one, and authenticates for at most twelve hours and never
  beyond the verified token's expiry. Signing out leaves neither the account nor the old owner.
\<close>

theorem Login_Logout_identity:
  "(case Login env token csrf idToken of Inl e \<Rightarrow> True | Inr (tk, v) \<Rightarrow>
     (\<exists>old i. load env token = Inr old \<and> Active old (se_now env) \<and> s_CSRF old = csrf
       \<and> se_verifyGoogle env idToken = Inr i \<and> s_UID (sv_Record v) = i_UID i \<and> i_UID i \<noteq> []
       \<and> (s_UID old = [] \<or> s_UID old = i_UID i)
       \<and> s_AnonymousOwner (sv_Record v) = s_AnonymousOwner old
       \<and> s_AuthUntil (sv_Record v) \<le> se_now env + AccountLifetime
       \<and> (IsZero (i_ExpiresAt i) \<or> s_AuthUntil (sv_Record v) \<le> i_ExpiresAt i)))
   \<and> (case Logout env token csrf of Inl e \<Rightarrow> True | Inr (tk, v) \<Rightarrow>
     s_UID (sv_Record v) = [] \<and> \<not> sv_Authenticated v
     \<and> (\<exists>csrf'. se_random env = Inr (tk, s_AnonymousOwner (sv_Record v), csrf')))"
proof -
  have active: "Active old (se_now env)" if "load env token = Inr old" for old
    using that by (auto simp: load_def split: sum.splits if_splits)
  have 1: "case Login env token csrf idToken of Inl e \<Rightarrow> True | Inr (tk, v) \<Rightarrow>
     (\<exists>old i. load env token = Inr old \<and> Active old (se_now env) \<and> s_CSRF old = csrf
       \<and> se_verifyGoogle env idToken = Inr i \<and> s_UID (sv_Record v) = i_UID i \<and> i_UID i \<noteq> []
       \<and> (s_UID old = [] \<or> s_UID old = i_UID i)
       \<and> s_AnonymousOwner (sv_Record v) = s_AnonymousOwner old
       \<and> s_AuthUntil (sv_Record v) \<le> se_now env + AccountLifetime
       \<and> (IsZero (i_ExpiresAt i) \<or> s_AuthUntil (sv_Record v) \<le> i_ExpiresAt i))"
    using active by (auto simp: Login_def login_refused_def CheckCSRF_def Let_def
        split: sum.splits option.splits if_splits prod.splits)
  have 2: "case Logout env token csrf of Inl e \<Rightarrow> True | Inr (tk, v) \<Rightarrow>
     s_UID (sv_Record v) = [] \<and> \<not> sv_Authenticated v
     \<and> (\<exists>csrf'. se_random env = Inr (tk, s_AnonymousOwner (sv_Record v), csrf'))"
    by (auto simp: Logout_def fresh_def zero_session_def Let_def
        split: sum.splits option.splits if_splits prod.splits)
  show ?thesis using 1 2 by blast
qed

section \<open>Witnesses\<close>

definition demo_session :: session_record where
  "demo_session = zero_session\<lparr>s_AnonymousOwner := ''owner'', s_CSRF := ''csrf'',
     s_ExpiresAt := 100 * minute\<rparr>"

definition demo_sid :: "char \<Rightarrow> string" where
  "demo_sid c = replicate 64 c"

lemma demo_sid_key [simp]: "sessionKey (demo_sid (CHR ''a''))" "sessionKey (demo_sid (CHR ''b''))"
  "demo_sid (CHR ''a'') \<noteq> demo_sid (CHR ''b'')" "demo_sid (CHR ''b'') \<noteq> demo_sid (CHR ''a'')"
  by (simp_all add: sessionKey_def demo_sid_def list_all_iff char_class_defs)

lemma demo_session_active [simp]: "Active demo_session (5 * minute)"
  by (simp add: Active_def demo_session_def zero_session_def duration_defs)

lemma demo_time [simp]: "Truncate (5 * minute) minute = 5 * minute" "0 < minute"
  by (simp_all add: Truncate_def duration_defs)

lemma demo_create: "\<exists>u. RaftStore_Create doc_codec 2 (demo_sid (CHR ''a'')) demo_session (5 * minute)
    (start_tx (\<lambda>_. None)) = (Inr (), u)"
proof -
  have "execs (RaftStore_Create doc_codec 2 (demo_sid (CHR ''a'')) demo_session (5 * minute))
    (\<lambda>_. None) 0 (Inr ())
    ((\<lambda>_. None)(session_budget \<mapsto> DBucket \<lparr>sb_Window = 5 * minute, sb_Count = inc64 0\<rparr>,
       raftRef ''sessions'' (demo_sid (CHR ''a'')) \<mapsto> DSession demo_session)) (Suc (Suc (Suc (Suc 0))))"
    unfolding RaftStore_Create_def Let_def
    by (rule execs_bind[OF execs_guard] execs_bind[OF execs_optional_missing[OF execs_Get_missing]]
        execs_bind[OF execs_Set] | simp add: execs_Create key_simps)+
  from execs_start[OF this] show ?thesis by blast
qed

theorem session_creation_budget_witness: "\<exists>D. creation_run doc_codec 2 (5 * minute) 1 D \<and> int 1 \<le> 2"
proof -
  obtain u where u: "RaftStore_Create doc_codec 2 (demo_sid (CHR ''a'')) demo_session (5 * minute)
    (start_tx (\<lambda>_. None)) = (Inr (), u)" using demo_create by blast
  have "creation_run doc_codec 2 (5 * minute) 0 (docs doc_codec (start_tx (\<lambda>_. None)))"
    using runs_docs(1)[OF start_tx_runs] by (intro creation_run.start) (simp add: bucket_nonneg_def)
  then have "creation_run doc_codec 2 (5 * minute) (Suc 0) (docs doc_codec u)"
    by (rule creation_run.create[OF _ runs_docs(2)[OF start_tx_runs] _ u]) simp
  then show ?thesis using session_creation_budget[of doc_codec 2 "5 * minute" 1] by auto
qed

lemma demo_rotated: "s_RotationCount (rotated demo_session demo_session (5 * minute)) = 1"
  "s_CSRF demo_session = ''csrf''"
  by (simp_all add: rotated_def demo_session_def zero_session_def)

theorem RaftStore_Rotate_hands_over_witness:
  "\<exists>old next D. docs doc_codec (start_tx [raftRef ''sessions'' (demo_sid (CHR ''a'')) \<mapsto> DSession demo_session])
      (raftRef ''sessions'' (demo_sid (CHR ''a''))) = Some (DSession old)
    \<and> D (raftRef ''sessions'' (demo_sid (CHR ''b''))) = Some (DSession next)
    \<and> Active next (5 * minute) \<and> D (raftRef ''sessions'' (demo_sid (CHR ''a''))) = Some (DSession (old\<lparr>s_Revoked := True\<rparr>))"
proof -
  let ?D = "[raftRef ''sessions'' (demo_sid (CHR ''a'')) \<mapsto> DSession demo_session]"
  let ?n = "rotated demo_session demo_session (5 * minute)"
  have "execs (RaftStore_Rotate doc_codec (demo_sid (CHR ''a'')) (demo_sid (CHR ''b'')) ''csrf'' demo_session (5 * minute))
    ?D 0 (Inr ()) (?D(raftRef ''sessions'' (demo_sid (CHR ''b'')) \<mapsto> DSession ?n,
       raftRef ''sessions'' (demo_sid (CHR ''a'')) \<mapsto> DSession (demo_session\<lparr>s_Revoked := True\<rparr>))) (Suc (Suc (Suc (Suc 0))))"
    unfolding RaftStore_Rotate_def Let_def
    by (rule execs_bind[OF execs_guard] execs_bind[OF execs_missing[OF execs_Get]]
        execs_bind[OF execs_Create] execs_Set | simp add: demo_rotated)+
  from execs_start[OF this] obtain u where
    "RaftStore_Rotate doc_codec (demo_sid (CHR ''a'')) (demo_sid (CHR ''b'')) ''csrf'' demo_session
       (5 * minute) (start_tx ?D) = (Inr (), u)" by blast
  from RaftStore_Rotate_hands_over[OF this runs_docs(2)[OF start_tx_runs]]
  obtain old nx where *: "docs doc_codec (start_tx ?D) (raftRef ''sessions'' (demo_sid (CHR ''a''))) = Some (DSession old)"
    "Active nx (5 * minute)" "docs doc_codec u = (docs doc_codec (start_tx ?D))
       (raftRef ''sessions'' (demo_sid (CHR ''b'')) \<mapsto> DSession nx,
        raftRef ''sessions'' (demo_sid (CHR ''a'')) \<mapsto> DSession (old\<lparr>s_Revoked := True\<rparr>))" by blast
  then show ?thesis
    by (intro exI[of _ old] exI[of _ nx] exI[of _ "docs doc_codec u"]) simp
qed

end
