(* ===== verification/Project_Store.thy ===== *)
theory Project_Store
  imports Session
begin

text \<open>
  What the project repository's transactions share (\<open>repository.go\<close>, \<open>raft.go\<close>, \<open>slugs.go\<close>,
  \<open>slug_owner.go\<close>, \<open>byte_quota.go\<close>, \<open>storage.go\<close>, \<open>storage_accounting.go\<close> of \<open>internal/project\<close>):
  actors and owners, reservations, hashing, the typed \<open>Set\<close> that keeps the owner index and the
  storage queues in the same transaction as a project, slug choice, quotas, authorization, and the
  allocation of retained storage.

  \<open>cfg\<close> is the repository's configuration at one transaction attempt: its clock (one instant per
  attempt), limits, storage offers, and SHA-256 (of JSON values and of bytes) as parameters.
\<close>

section \<open>Configuration, actors and reservations\<close>

record storage_offer =
  of_App :: string
  of_LimitBytes :: int
  of_AvailableBytes :: int
  of_BlockBytes :: int
  of_LimitInodes :: int
  of_AvailableInodes :: int
  of_TracksInodes :: bool
  of_Generations :: bool

text \<open>The JSON values that are hashed: lists of strings, a string, and the public fields of a
  reservation (key, project, name, digest, bytes, expected revision).\<close>

datatype hashable =
    HStrings "string list"
  | HString string
  | HReservation string string string string int int

record cfg =
  cf_clock :: time
  cf_hash :: "hashable \<Rightarrow> string"
  cf_sha :: "string \<Rightarrow> string"
  cf_json_len :: "manifest \<Rightarrow> int option"
  cf_StorageOffers :: "storage_offer list option"
  cf_AnonymousLimit :: int
  cf_AccountLimit :: int
  cf_AnonymousByteLimit :: int
  cf_AccountByteLimit :: int

record actor =
  u_SessionDigest :: string
  u_AnonymousID :: string
  u_UID :: string
  u_AgentKeyDigest :: string
  u_UploadTicketDigest :: string
  u_firebaseBearerUntil :: time

record reservation =
  rs_Key :: string
  rs_ProjectID :: string
  rs_Name :: string
  rs_Digest :: string
  rs_Bytes :: int
  rs_ExpectedRevision :: int
  rs_Files :: int
  rs_StorageManifest :: "manifest option"
  rs_StorageOperationID :: string

definition anonymousProjectLifetime :: int where
  "anonymousProjectLifetime = 7 * 24 * hour"

definition repo_now :: "cfg \<Rightarrow> time" where
  "repo_now cf = Truncate (cf_clock cf) 1000"

record agent_identity =
  ai_UID :: string
  ai_Provider :: string
  ai_ExpiresAt :: time

definition zero_actor :: actor where
  "zero_actor = \<lparr>u_SessionDigest = [], u_AnonymousID = [], u_UID = [], u_AgentKeyDigest = [],
     u_UploadTicketDigest = [], u_firebaseBearerUntil = 0\<rparr>"

definition ActorFromFirebase :: "agent_identity \<Rightarrow> err + actor" where
  "ActorFromFirebase i =
     (if ai_UID i = [] \<or> IsZero (ai_ExpiresAt i) then Inl ErrUnauthorized
      else if ai_Provider i \<noteq> ''google.com'' then Inl ErrForbidden
      else Inr (zero_actor\<lparr>u_UID := ai_UID i, u_firebaseBearerUntil := ai_ExpiresAt i\<rparr>))"

definition authorizeFirebaseBearer :: "actor \<Rightarrow> time \<Rightarrow> err option" where
  "authorizeFirebaseBearer a now =
     (if u_UID a = [] \<or> \<not> now < u_firebaseBearerUntil a \<or> u_SessionDigest a \<noteq> [] \<or> u_AnonymousID a \<noteq> []
         \<or> u_AgentKeyDigest a \<noteq> [] \<or> u_UploadTicketDigest a \<noteq> []
      then Some ErrUnauthorized else None)"

definition ActorFrom :: "cfg \<Rightarrow> string \<Rightarrow> session_view \<Rightarrow> err + actor" where
  "ActorFrom cf token vw = (case Digest (cf_sha cf) token of
     Inl e \<Rightarrow> Inl e
   | Inr digest \<Rightarrow> Inr (zero_actor\<lparr>u_SessionDigest := digest,
       u_AnonymousID := s_AnonymousOwner (sv_Record vw),
       u_UID := (if sv_Authenticated vw then s_UID (sv_Record vw) else [])\<rparr>))"

definition Owner :: "actor \<Rightarrow> owner" where
  "Owner a = (if u_UID a \<noteq> [] then \<lparr>o_Kind = ''firebase'', o_ID = u_UID a\<rparr>
     else \<lparr>o_Kind = ''anonymous'', o_ID = u_AnonymousID a\<rparr>)"

definition Owns :: "actor \<Rightarrow> owner \<Rightarrow> bool" where
  "Owns a o' \<longleftrightarrow> o_ID o' \<noteq> [] \<and> ((o_Kind o' = ''anonymous'' \<and> o_ID o' = u_AnonymousID a)
     \<or> (o_Kind o' = ''firebase'' \<and> u_UID a \<noteq> [] \<and> o_ID o' = u_UID a))"

definition Live :: "project \<Rightarrow> time \<Rightarrow> bool" where
  "Live p now \<longleftrightarrow> p_Status p = ''active'' \<and> (case p_ExpiresAt p of None \<Rightarrow> True | Some e \<Rightarrow> now < e)"

text \<open>\<open>p.ExpiresAt != nil && !now.Before(*p.ExpiresAt)\<close>\<close>

definition expired :: "project \<Rightarrow> time \<Rightarrow> bool" where
  "expired p now \<longleftrightarrow> (case p_ExpiresAt p of None \<Rightarrow> False | Some e \<Rightarrow> \<not> now < e)"

definition digestRE :: "string \<Rightarrow> bool" where
  "digestRE s \<longleftrightarrow> length s = 64 \<and> list_all is_hex s"

definition idRE :: "string \<Rightarrow> bool" where
  "idRE s \<longleftrightarrow> length s = 32 \<and> list_all is_hex s"

definition label_re :: "nat \<Rightarrow> string \<Rightarrow> bool" where
  "label_re n s \<longleftrightarrow> s \<noteq> [] \<and> length s \<le> n \<and> is_lower_alnum (hd s) \<and> is_lower_alnum (last s)
     \<and> list_all (\<lambda>c. is_lower_alnum c \<or> c = CHR ''-'') s"

definition nameRE :: "string \<Rightarrow> bool" where "nameRE s \<longleftrightarrow> label_re 48 s"
definition slugRE :: "string \<Rightarrow> bool" where "slugRE s \<longleftrightarrow> label_re 113 s"

definition keyRE :: "string \<Rightarrow> bool" where
  "keyRE s \<longleftrightarrow> 8 \<le> length s \<and> length s \<le> 128
     \<and> list_all (\<lambda>c. is_alnum c \<or> c = CHR ''_'' \<or> c = CHR ''-'') s"

definition ownerKey :: "cfg \<Rightarrow> owner \<Rightarrow> string" where
  "ownerKey cf o' = cf_hash cf (HStrings [o_Kind o', o_ID o'])"

definition operationID :: "cfg \<Rightarrow> actor \<Rightarrow> string \<Rightarrow> string" where
  "operationID cf a key = cf_hash cf (HStrings [o_Kind (Owner a), o_ID (Owner a), key])"

definition reservation_hash :: "cfg \<Rightarrow> reservation \<Rightarrow> string" where
  "reservation_hash cf r = cf_hash cf (HReservation (rs_Key r) (rs_ProjectID r) (rs_Name r)
     (rs_Digest r) (rs_Bytes r) (rs_ExpectedRevision r))"

definition validateReservation :: "reservation \<Rightarrow> err option" where
  "validateReservation r =
     (if \<not> keyRE (rs_Key r) \<or> \<not> digestRE (rs_Digest r) \<or> rs_Bytes r < 0 \<or> rs_Bytes r > 209715200
      then Some ErrInvalid
      else if rs_ProjectID r = [] then
        (if rs_ExpectedRevision r \<noteq> 0 \<or> (rs_Name r \<noteq> [] \<and> \<not> nameRE (rs_Name r))
         then Some ErrInvalid else None)
      else if \<not> idRE (rs_ProjectID r) \<or> rs_ExpectedRevision r < 1 \<or> rs_Name r \<noteq> []
        then Some ErrInvalid else None)"

definition ValidateInput :: "string \<Rightarrow> string \<Rightarrow> string \<Rightarrow> int \<Rightarrow> err option" where
  "ValidateInput key i name revision = validateReservation \<lparr>rs_Key = key, rs_ProjectID = i,
     rs_Name = name, rs_Digest = replicate 64 (CHR ''0''), rs_Bytes = 0,
     rs_ExpectedRevision = revision, rs_Files = 0, rs_StorageManifest = None,
     rs_StorageOperationID = []\<rparr>"

section \<open>Quotas\<close>

definition versionCharge :: "int \<Rightarrow> int" where
  "versionCharge bytes = (if bytes < 1048576 then 1048576 else bytes)"

definition limit :: "cfg \<Rightarrow> owner \<Rightarrow> int" where
  "limit cf o' = (if o_Kind o' = ''anonymous''
     then (if cf_AnonymousLimit cf > 0 then cf_AnonymousLimit cf else 10)
     else if cf_AccountLimit cf > 0 then cf_AccountLimit cf else 100)"

definition byteLimit :: "cfg \<Rightarrow> owner \<Rightarrow> int" where
  "byteLimit cf o' = (if o_Kind o' = ''anonymous''
     then (if cf_AnonymousByteLimit cf > 0 then cf_AnonymousByteLimit cf else 1073741824)
     else if cf_AccountByteLimit cf > 0 then cf_AccountByteLimit cf else 10737418240)"

definition fitsBytes :: "int \<Rightarrow> int \<Rightarrow> int \<Rightarrow> bool" where
  "fitsBytes current extra lim \<longleftrightarrow> current \<ge> 0 \<and> extra > 0 \<and> current \<le> lim \<and> extra \<le> lim - current"

text \<open>\<open>readQuota\<close>: a missing record is returned as an empty quota together with the not-found error,
  which callers either tolerate (\<open>tx_optional\<close>) or return.\<close>

definition readQuota :: "cfg \<Rightarrow> ('v, doc) codec \<Rightarrow> owner \<Rightarrow> ('v, quota) txm" where
  "readQuota cf cd o' =
     tx_bind (Get cd asQuota (raftRef ''quotas'' (ownerKey cf o'))) (\<lambda>q.
     tx_bind (tx_guard (q_Schema q \<noteq> 1 \<or> q_Count q < 0 \<or> q_ChargedBytes q < 0) ErrConflict) (\<lambda>_.
     tx_return q))"

definition empty_quota :: quota where
  "empty_quota = \<lparr>q_Count = 0, q_Schema = 1, q_ChargedBytes = 0\<rparr>"

definition quota_or_empty :: "quota option \<Rightarrow> quota" where
  "quota_or_empty q = (case q of None \<Rightarrow> empty_quota | Some x \<Rightarrow> x)"

section \<open>Slugs\<close>

definition slugOwner :: "('v, doc) codec \<Rightarrow> string \<Rightarrow> ('v, string) txm" where
  "slugOwner cd slug =
     tx_bind (tx_optional (Get cd asSlug (raftRef ''slugs'' slug))) (\<lambda>r. case r of
       None \<Rightarrow> tx_return []
     | Some pid \<Rightarrow>
         tx_bind (Get cd asProject (raftRef ''projects'' pid)) (\<lambda>p.
         tx_return (if p_Status p = ''deleted'' then [] else pid)))"

definition reserved_slugs :: "string list" where
  "reserved_slugs = [''api'', ''admin'', ''agents'', ''agent'', ''oauth'', ''unlock'', ''healthz'', ''readyz'']"

fun choose_from ::
  "('v, doc) codec \<Rightarrow> string \<Rightarrow> string \<Rightarrow> string \<Rightarrow> nat list \<Rightarrow> ('v, string \<times> string) txm" where
  "choose_from cd name seed i [] = tx_throw ErrConflict"
| "choose_from cd name seed i (len # rest) =
     (if len \<noteq> 0 \<and> length seed < len then choose_from cd name seed i rest
      else let suffix = take len seed; slug = (if len = 0 then name else name @ ''-'' @ suffix) in
        if \<not> slugRE slug then tx_throw ErrInvalid
        else if slug \<in> set reserved_slugs then choose_from cd name seed i rest
        else tx_bind (slugOwner cd slug) (\<lambda>owner.
          if owner = [] \<or> owner = i then tx_return (slug, suffix)
          else choose_from cd name seed i rest))"

definition chooseSlug ::
  "('v, doc) codec \<Rightarrow> string \<Rightarrow> string \<Rightarrow> string \<Rightarrow> ('v, string \<times> string) txm" where
  "chooseSlug cd name seed i = choose_from cd name seed i [0, 6, 10, 16, 32, 64]"

section \<open>Authorization\<close>

definition authorize :: "cfg \<Rightarrow> ('v, doc) codec \<Rightarrow> actor \<Rightarrow> ('v, unit) txm" where
  "authorize cf cd a =
     (if u_AgentKeyDigest a \<noteq> [] \<or> u_UploadTicketDigest a \<noteq> [] then tx_throw ErrUnauthorized
      else if \<not> IsZero (u_firebaseBearerUntil a) then
        (case authorizeFirebaseBearer a (repo_now cf) of Some e \<Rightarrow> tx_throw e | None \<Rightarrow> tx_return ())
      else if \<not> digestRE (u_SessionDigest a) \<or> u_AnonymousID a = [] then tx_throw ErrUnauthorized
      else
        tx_bind (tx_missing ErrUnauthorized (Get cd asSession (raftRef ''sessions'' (u_SessionDigest a)))) (\<lambda>r.
        tx_bind (tx_guard (\<not> Active r (repo_now cf) \<or> s_AnonymousOwner r \<noteq> u_AnonymousID a)
          ErrUnauthorized) (\<lambda>_.
        tx_guard (u_UID a \<noteq> [] \<and> (u_UID a \<noteq> s_UID r \<or> \<not> repo_now cf < s_AuthUntil r))
          ErrUnauthorized)))"

definition authorizeUploadTicket :: "cfg \<Rightarrow> ('v, doc) codec \<Rightarrow> actor \<Rightarrow> ('v, unit) txm" where
  "authorizeUploadTicket cf cd a =
     tx_bind (tx_guard (\<not> digestRE (u_UploadTicketDigest a) \<or> u_UID a = [] \<or> u_SessionDigest a \<noteq> []
         \<or> u_AnonymousID a \<noteq> [] \<or> u_AgentKeyDigest a \<noteq> [] \<or> \<not> IsZero (u_firebaseBearerUntil a))
       ErrUnauthorized) (\<lambda>_.
     tx_bind (tx_missing ErrUnauthorized
       (Get cd asTicket (raftRef ''agent_upload_tickets'' (u_UploadTicketDigest a)))) (\<lambda>ticket.
     tx_guard (ut_UID ticket \<noteq> u_UID a \<or> ut_Result ticket \<noteq> None
         \<or> \<not> repo_now cf < ut_ExpiresAt ticket) ErrUnauthorized))"

definition authorizePublish :: "cfg \<Rightarrow> ('v, doc) codec \<Rightarrow> actor \<Rightarrow> ('v, unit) txm" where
  "authorizePublish cf cd a =
     (if \<not> IsZero (u_firebaseBearerUntil a) then authorize cf cd a
      else if u_UploadTicketDigest a \<noteq> [] then authorizeUploadTicket cf cd a
      else if u_AgentKeyDigest a = [] then authorize cf cd a
      else
        tx_bind (tx_guard (\<not> digestRE (u_AgentKeyDigest a) \<or> u_UID a = [] \<or> u_AnonymousID a \<noteq> []
            \<or> u_SessionDigest a \<noteq> []) ErrUnauthorized) (\<lambda>_.
        tx_bind (tx_missing ErrUnauthorized
          (Get cd asAgentKey (raftRef ''agent_keys'' (u_AgentKeyDigest a)))) (\<lambda>key.
        tx_guard (k_UID key \<noteq> u_UID a \<or> \<not> repo_now cf < k_ExpiresAt key) ErrUnauthorized)))"

section \<open>Version identities\<close>

definition StorageVersionID :: "cfg \<Rightarrow> string \<Rightarrow> string \<Rightarrow> string \<Rightarrow> string" where
  "StorageVersionID cf projectID digest generation = cf_hash cf (HStrings [projectID, digest, generation])"

text \<open>\<open>StorageReclamationPrefix(app) + id\<close> and \<open>revisionIndexPrefix(project) + id\<close> as keys.\<close>

definition gc_key :: "cfg \<Rightarrow> string \<Rightarrow> string \<Rightarrow> string" where
  "gc_key cf app i = raftRef (''storage_gc_'' @ take 32 (cf_hash cf (HString app))) i"

definition revision_key :: "string \<Rightarrow> string \<Rightarrow> string" where
  "revision_key pid i = raftRef (''versions_'' @ pid) i"

definition retirementID :: "cfg \<Rightarrow> string \<Rightarrow> string \<Rightarrow> string" where
  "retirementID cf projectID digest = cf_hash cf (HStrings [projectID, digest])"

definition revisionIdentity :: "cfg \<Rightarrow> operation \<Rightarrow> string" where
  "revisionIdentity cf op = StorageVersionID cf (op_ProjectID op) (op_Digest op) (op_StorageGeneration op)"

definition checkNotRetired :: "cfg \<Rightarrow> string \<Rightarrow> string \<Rightarrow> ('v, unit) txm" where
  "checkNotRetired cf projectID digest =
     tx_bind (tx_optional (Exists (raftRef ''retirements'' (retirementID cf projectID digest)))) (\<lambda>r.
     tx_guard (r \<noteq> None) ErrConflict)"

definition activateStorage :: "('v, doc) codec \<Rightarrow> project \<Rightarrow> operation \<Rightarrow> ('v, unit) txm" where
  "activateStorage cd p op =
     (if op_StorageVersionKey op = [] then tx_return ()
      else tx_bind (Get cd asVersion (raftRef ''storage_versions'' (op_StorageVersionKey op))) (\<lambda>v.
        tx_guard (v_ID v \<noteq> op_StorageVersionKey op \<or> v_App v \<noteq> p_StorageApp p \<or> v_ProjectID v \<noteq> p_ID p
            \<or> v_Digest v \<noteq> op_Digest op \<or> v_Generation v \<noteq> op_StorageGeneration op
            \<or> v_State v \<noteq> ''retained'') ErrConflict))"

definition checkStorageOperation ::
  "cfg \<Rightarrow> ('v, doc) codec \<Rightarrow> project \<Rightarrow> operation \<Rightarrow> ('v, unit) txm" where
  "checkStorageOperation cf cd p op =
     tx_bind (tx_optional (Exists (raftRef ''revision_removals'' (revisionIdentity cf op)))) (\<lambda>removed.
     tx_bind (tx_guard (removed \<noteq> None) ErrConflict) (\<lambda>_.
     tx_bind (if op_StorageGeneration op = [] then checkNotRetired cf (p_ID p) (op_Digest op)
              else tx_guard (op_StorageGeneration op \<noteq> op_ID op \<or> op_StorageVersionKey op = []) ErrConflict) (\<lambda>_.
     activateStorage cd p op)))"

section \<open>Writing projects\<close>

definition contentOnlyProjectChange :: "project \<Rightarrow> project \<Rightarrow> bool" where
  "contentOnlyProjectChange old next =
     (if p_Status old = ''deleted'' \<or> p_Status next = ''deleted'' then False
      else let allowed = old\<lparr>p_ActiveDigest := p_ActiveDigest next, p_ActiveBytes := p_ActiveBytes next,
             p_ChargedBytes := p_ChargedBytes next, p_Revision := p_Revision next,
             p_PendingOperation := p_PendingOperation next, p_UpdatedAt := p_UpdatedAt next\<rparr>;
           allowed = (if p_Status old = ''reserved'' \<and> p_Status next = ''active'' then
               (let al = allowed\<lparr>p_Status := p_Status next, p_CreatedAt := p_CreatedAt next\<rparr> in
                if p_ExpiresAt old \<noteq> None \<and> p_ExpiresAt next \<noteq> None
                then al\<lparr>p_ExpiresAt := p_ExpiresAt next\<rparr> else al)
             else allowed)
         in allowed = next)"

definition creation_only :: "project \<Rightarrow> bool" where
  "creation_only next \<longleftrightarrow> p_Status next = ''reserved'' \<and> \<not> p_Private next \<and> p_PasswordDigest next = []
     \<and> p_PasswordRevision next = 0 \<and> p_PolicyRevision next = 1"

definition ContentOnlyChange :: "project option \<Rightarrow> project \<Rightarrow> bool" where
  "ContentOnlyChange old next = (case old of
     None \<Rightarrow> creation_only next
   | Some o' \<Rightarrow> contentOnlyProjectChange o' next)"

definition updateIndex :: "cfg \<Rightarrow> ('v, doc) codec \<Rightarrow> owner \<Rightarrow> string \<Rightarrow> bool \<Rightarrow> ('v, unit) txm" where
  "updateIndex cf cd o' i add = (let key = raftRef ''owner_projects'' (ownerKey cf o') in
     tx_bind (tx_optional (Get cd asTexts key)) (\<lambda>found.
     let ids = (case found of None \<Rightarrow> [] | Some xs \<Rightarrow> xs); pos = SearchStrings ids i in
     if add \<and> (pos = length ids \<or> ids ! pos \<noteq> i) then
       tx_bind (tx_guard (length ids \<ge> 1000) ErrQuota) (\<lambda>_.
       Set cd key (DTexts (sort (ids @ [i]))))
     else if \<not> add \<and> pos < length ids \<and> ids ! pos = i then
       Set cd key (DTexts (take pos ids @ drop (Suc pos) ids))
     else Set cd key (DTexts ids)))"

definition measuredStorageFence :: int where "measuredStorageFence = -2"

definition storageLive :: "project \<Rightarrow> int" where
  "storageLive p = (if p_Status p = ''active'' then p_ActiveBytes p else 0)"

definition updateStorageQueue :: "cfg \<Rightarrow> ('v, doc) codec \<Rightarrow> project \<Rightarrow> project \<Rightarrow> ('v, unit) txm" where
  "updateStorageQueue cf cd old next =
     (if p_StorageApp next = [] \<or> (p_Status old = p_Status next \<and> p_ActiveDigest old = p_ActiveDigest next
           \<and> p_StorageGeneration old = p_StorageGeneration next
           \<and> p_PendingOperation old = p_PendingOperation next)
      then tx_return ()
      else
        tx_bind
          (if p_ActiveDigest old \<noteq> [] \<and> (p_Status next = ''deleted'' \<or> p_ActiveDigest old \<noteq> p_ActiveDigest next
               \<or> p_StorageGeneration old \<noteq> p_StorageGeneration next)
           then let i = StorageVersionID cf (p_ID old) (p_ActiveDigest old) (p_StorageGeneration old) in
             tx_bind (tx_optional (Get cd asVersion (raftRef ''storage_versions'' i))) (\<lambda>found. case found of
               None \<Rightarrow> tx_return ()
             | Some v \<Rightarrow>
                 if v_App v \<noteq> p_StorageApp next \<or> v_ProjectID v \<noteq> p_ID next then tx_throw ErrStorage
                 else if v_State v \<noteq> ''reclaimed'' then Set cd (gc_key cf (p_StorageApp next) i) (DText i)
                 else tx_return ())
           else tx_return ()) (\<lambda>_.
        if p_Status next = ''active'' \<and> p_PendingOperation next = [] \<and> p_ActiveDigest next \<noteq> []
        then Delete (gc_key cf (p_StorageApp next)
               (StorageVersionID cf (p_ID next) (p_ActiveDigest next) (p_StorageGeneration next)))
        else tx_return ()))"

definition updateStorageLive :: "cfg \<Rightarrow> ('v, doc) codec \<Rightarrow> project \<Rightarrow> project \<Rightarrow> ('v, unit) txm" where
  "updateStorageLive cf cd old next =
     tx_bind (updateStorageQueue cf cd old next) (\<lambda>_.
     if p_StorageApp next = [] \<or> storageLive old = storageLive next then tx_return ()
     else let key = raftRef ''storage_allocations'' (p_StorageApp next) in
       tx_bind (Get cd asAllocation key) (\<lambda>a.
       if a_Schema a = 1 \<and> a_BlockBytes a = measuredStorageFence then
         Set cd key (DAllocation (a\<lparr>a_LiveEpoch := inc64 (a_LiveEpoch a)\<rparr>))
       else if a_Schema a \<noteq> 2 then tx_return ()
       else let v = wrap64 (a_LiveBytes a + storageLive next - storageLive old) in
         tx_bind (tx_guard (v < 0 \<or> v > a_ContentBytes a) ErrStorage) (\<lambda>_.
         Set cd key (DAllocation (a\<lparr>a_LiveBytes := v, a_LiveEpoch := inc64 (a_LiveEpoch a)\<rparr>)))))"

text \<open>The part of \<open>raftTx.Set\<close> for projects, before the record itself is written.\<close>

definition set_project :: "cfg \<Rightarrow> ('v, doc) codec \<Rightarrow> project \<Rightarrow> ('v, unit) txm" where
  "set_project cf cd p =
     tx_bind (tx_optional (Get cd asProject (raftRef ''projects'' (p_ID p)))) (\<lambda>found.
     let old = (case found of None \<Rightarrow> zero_project | Some x \<Rightarrow> x) in
     tx_bind (if found \<noteq> None \<and> \<not> contentOnlyProjectChange old p then RequireReplication
              else tx_return ()) (\<lambda>_.
     tx_bind (if found = None \<and> \<not> creation_only p then RequireReplication else tx_return ()) (\<lambda>_.
     tx_bind (if found \<noteq> None \<and> p_Status old \<noteq> ''deleted'' \<and> (p_Owner old \<noteq> p_Owner p \<or> p_Status p = ''deleted'')
              then updateIndex cf cd (p_Owner old) (p_ID p) False else tx_return ()) (\<lambda>_.
     tx_bind (if p_Status p \<noteq> ''deleted'' \<and> (found = None \<or> p_Owner old \<noteq> p_Owner p \<or> p_Status old = ''deleted'')
              then updateIndex cf cd (p_Owner p) (p_ID p) True else tx_return ()) (\<lambda>_.
     updateStorageLive cf cd old p)))))"

definition raftTx_Set :: "cfg \<Rightarrow> ('v, doc) codec \<Rightarrow> string \<Rightarrow> doc \<Rightarrow> ('v, unit) txm" where
  "raftTx_Set cf cd key val =
     tx_bind (if has_prefix key ''operations/'' then
         (case asOperation val of
            Some op \<Rightarrow> if op_State op = ''complete''
              then Set cd (revision_key (op_ProjectID op) (op_ID op)) (DText (op_ID op))
              else tx_return ()
          | None \<Rightarrow> tx_return ())
       else tx_return ()) (\<lambda>_.
     tx_bind (if has_prefix key ''projects/'' then
         (case asProject val of
            None \<Rightarrow> tx_throw ErrInvalid
          | Some p \<Rightarrow> if key \<noteq> raftRef ''projects'' (p_ID p) then tx_throw ErrInvalid
                      else set_project cf cd p)
       else tx_return ()) (\<lambda>_.
     Set cd key val))"

definition raftTx_Create :: "cfg \<Rightarrow> ('v, doc) codec \<Rightarrow> string \<Rightarrow> doc \<Rightarrow> ('v, unit) txm" where
  "raftTx_Create cf cd key val =
     tx_bind (tx_optional (Exists key)) (\<lambda>found. case found of
       Some _ \<Rightarrow> tx_throw ErrConflict
     | None \<Rightarrow> raftTx_Set cf cd key val)"


section \<open>Which collections a step changes\<close>

definition within :: "string set \<Rightarrow> (string \<Rightarrow> 'a option) \<Rightarrow> (string \<Rightarrow> 'a option) \<Rightarrow> bool" where
  "within S D D' \<longleftrightarrow> (\<forall>k. collection_of k \<notin> S \<longrightarrow> D' k = D k)"

definition index_collections :: "string set" where
  "index_collections = {''owner_projects'', ''storage_allocations''} \<union> {c. has_prefix c ''storage_gc_''}"

lemma collection_raftRef [simp]: "plain c \<Longrightarrow> collection_of (raftRef c i) = c"
  by (simp add: raftRef_def plain_def)

lemma withinD: "within S D D' \<Longrightarrow> plain c \<Longrightarrow> c \<notin> S \<Longrightarrow> D' (raftRef c i) = D (raftRef c i)"
  by (simp add: within_def)

lemma within_refl [simp]: "within S D D"
  by (simp add: within_def)

lemma within_trans: "within S D D1 \<Longrightarrow> within S D1 D2 \<Longrightarrow> within S D D2"
  by (simp add: within_def)

lemma within_upd: "collection_of k \<in> S \<Longrightarrow> within S D D1 \<Longrightarrow> within S D (D1(k := x))"
  by (auto simp: within_def)

lemma within_mono: "within S D D' \<Longrightarrow> S \<subseteq> S' \<Longrightarrow> within S' D D'"
  by (auto simp: within_def)

lemma has_prefix_takeWhile:
  assumes "\<forall>c \<in> set p. P c" "has_prefix s p"
  shows "has_prefix (takeWhile P s) p"
proof -
  obtain r where r: "s = p @ r" using has_prefixE[OF assms(2)] by blast
  then have "takeWhile P s = p @ takeWhile P r" using assms(1) by simp
  then show ?thesis by simp
qed

lemma gc_collection: "collection_of (gc_key cf app i) \<in> index_collections"
proof -
  have "has_prefix (takeWhile (\<lambda>x. x \<noteq> CHR ''/'') (gc_key cf app i)) ''storage_gc_''"
    by (rule has_prefix_takeWhile) (simp_all add: gc_key_def raftRef_def has_prefix_def)
  moreover have "collection_of (gc_key cf app i) = takeWhile (\<lambda>x. x \<noteq> CHR ''/'') (gc_key cf app i)"
    by (rule collection_takeWhile)
  ultimately show ?thesis by (simp add: index_collections_def)
qed

lemma not_index_collections [simp]:
  "''projects'' \<notin> index_collections" "''operations'' \<notin> index_collections" "''slugs'' \<notin> index_collections"
  "''digests'' \<notin> index_collections" "''quotas'' \<notin> index_collections" "''sessions'' \<notin> index_collections"
  "''session_budgets'' \<notin> index_collections" "''grants'' \<notin> index_collections"
  "''unlock_budgets'' \<notin> index_collections" "''transfers'' \<notin> index_collections"
  "''retirements'' \<notin> index_collections" "''revision_removals'' \<notin> index_collections"
  "''storage_versions'' \<notin> index_collections" "''storage_operation_charges'' \<notin> index_collections"
  "''agent_keys'' \<notin> index_collections" "''account_agent_keys'' \<notin> index_collections"
  "''agent_upload_tickets'' \<notin> index_collections"
  "''owner_projects'' \<in> index_collections" "''storage_allocations'' \<in> index_collections"
  by (simp_all add: index_collections_def has_prefix_def)

section \<open>Effects of the shared steps\<close>

lemma tx_bind_return [simp]: "tx_bind (tx_return x) f = f x"
  by (rule ext) simp

lemma tx_bind_throw [simp]: "tx_bind (tx_throw e) f = tx_throw e"
  by (rule ext) simp

lemma has_prefix_raftRef:
  assumes "plain c" "plain c'"
  shows "has_prefix (raftRef c i) (c' @ ''/'') \<longleftrightarrow> c = c'"
proof
  assume "has_prefix (raftRef c i) (c' @ ''/'')"
  then obtain r where "raftRef c i = raftRef c' r"
    using has_prefixE by (fastforce simp: raftRef_def)
  then show "c = c'" using raftRef_inject[OF assms] by blast
qed (simp add: raftRef_def has_prefix_def)

lemma prefix_tests [simp]:
  "plain c \<Longrightarrow> has_prefix (raftRef c i) ''operations/'' \<longleftrightarrow> c = ''operations''"
  "plain c \<Longrightarrow> has_prefix (raftRef c i) ''projects/'' \<longleftrightarrow> c = ''projects''"
  using has_prefix_raftRef[of c "''operations''" i] has_prefix_raftRef[of c "''projects''" i]
  by (simp_all add: plain_def)

lemma raftTx_Set_other:
  "plain c \<Longrightarrow> c \<noteq> ''operations'' \<Longrightarrow> c \<noteq> ''projects'' \<Longrightarrow>
     raftTx_Set cf cd (raftRef c i) d = Set cd (raftRef c i) d"
  by (simp add: raftTx_Set_def)

lemma raftTx_Set_operation:
  "raftTx_Set cf cd (raftRef ''operations'' i) (DOperation op) =
     (if op_State op = ''complete''
      then tx_bind (Set cd (revision_key (op_ProjectID op) (op_ID op)) (DText (op_ID op)))
             (\<lambda>_. Set cd (raftRef ''operations'' i) (DOperation op))
      else Set cd (raftRef ''operations'' i) (DOperation op))"
  by (simp add: raftTx_Set_def as_defs)

lemma raftTx_Set_project:
  "raftTx_Set cf cd (raftRef ''projects'' i) (DProject p) =
     (if p_ID p = i then tx_bind (set_project cf cd p) (\<lambda>_. Set cd (raftRef ''projects'' i) (DProject p))
      else tx_throw ErrInvalid)"
  by (auto simp: raftTx_Set_def as_defs)

lemma raftTx_Create_InrE:
  assumes "raftTx_Create cf cd key d t = (Inr x, u)"
  obtains v where "good_env cd (tx_read t) \<Longrightarrow> docs cd t key = None" "cur v = cur t" "tx_read v = tx_read t"
    "raftTx_Set cf cd key d v = (Inr x, u)"
proof -
  from assms obtain v where v: "Exists key t = (Inl MetadataErrNotFound, v)" "raftTx_Set cf cd key d v = (Inr x, u)"
    unfolding raftTx_Create_def by (elim tx_bind_InrE tx_optional_InrE) auto
  from v(1) have e: "honest_read (tx_read t) \<Longrightarrow> cur t key = None" "cur v = cur t" "tx_read v = tx_read t"
    by (auto elim: Exists_missingE)
  have "docs cd t key = None" if "good_env cd (tx_read t)"
    using e(1)[OF good_env_honest[OF that]] by (simp add: view_def)
  then show thesis using that e(2,3) v(2) by blast
qed

lemma raftTx_Create_other_InrE:
  assumes "raftTx_Create cf cd (raftRef c i) d t = (Inr x, u)" "plain c" "c \<noteq> ''operations''" "c \<noteq> ''projects''"
  obtains "good_env cd (tx_read t) \<Longrightarrow> docs cd t (raftRef c i) = None"
    "good_env cd (tx_read t) \<Longrightarrow> docs cd u = (docs cd t)(raftRef c i \<mapsto> d)" "tx_read u = tx_read t"
  using assms(1)
proof (rule raftTx_Create_InrE)
  fix v
  assume v: "good_env cd (tx_read t) \<Longrightarrow> docs cd t (raftRef c i) = None" "cur v = cur t" "tx_read v = tx_read t"
    "raftTx_Set cf cd (raftRef c i) d v = (Inr x, u)"
  from v(4)[unfolded raftTx_Set_other[OF assms(2-4)]] show thesis
    by (rule Set_InrE) (use v that in auto)
qed

lemma replays_store [replay_intros]:
  "replays_all (readQuota cf cd o')" "replays_all (slugOwner cd slug)"
  "replays_all (authorize cf cd a)" "replays_all (authorizeUploadTicket cf cd a)"
  "replays_all (checkNotRetired cf pid dg)"
  "replays_all (activateStorage cd p op)" "replays_all (updateIndex cf cd o' i add)"
  "replays_all (updateStorageQueue cf cd old p)"
  unfolding readQuota_def slugOwner_def authorize_def authorizeUploadTicket_def
    checkNotRetired_def activateStorage_def updateIndex_def updateStorageQueue_def Let_def
  by (intro replay_intros)+

lemma replays_store2 [replay_intros]:
  "replays_all (authorizePublish cf cd a)" "replays_all (checkStorageOperation cf cd p op)"
  "replays_all (updateStorageLive cf cd old p)"
  unfolding authorizePublish_def checkStorageOperation_def updateStorageLive_def Let_def
  by (intro replay_intros)+

lemma replays_set_project [replay_intros]: "replays_all (set_project cf cd p)"
  unfolding set_project_def Let_def by (intro replay_intros)

lemma replays_raftTx_Set [replay_intros]: "replays_all (raftTx_Set cf cd k d)"
  unfolding raftTx_Set_def by (intro replay_intros)

lemma replays_raftTx_Create [replay_intros]: "replays_all (raftTx_Create cf cd k d)"
  unfolding raftTx_Create_def by (intro replay_intros)

lemma replays_choose_from: "replays_all (choose_from cd name seed i ls)"
proof (induction ls)
  case (Cons l ls)
  then show ?case unfolding choose_from.simps Let_def by (intro replay_intros) auto
qed (unfold choose_from.simps, intro replay_intros)

lemma replays_chooseSlug [replay_intros]: "replays_all (chooseSlug cd name seed i)"
  unfolding chooseSlug_def by (rule replays_choose_from)


subsection \<open>Reading steps leave the documents alone\<close>

lemma readQuota_InrE [tx_elims]:
  assumes "readQuota cf cd o' t = (Inr q, u)"
  obtains "docs cd t (raftRef ''quotas'' (ownerKey cf o')) = Some (DQuota q)" "q_Schema q = 1"
    "0 \<le> q_Count q" "0 \<le> q_ChargedBytes q" "cur u = cur t" "tx_read u = tx_read t"
  using assms unfolding readQuota_def by (elim tx_elims) (auto intro: that)

lemma readQuota_missingE [tx_elims]:
  assumes "readQuota cf cd o' t = (Inl MetadataErrNotFound, u)"
  obtains "good_env cd (tx_read t) \<Longrightarrow> docs cd t (raftRef ''quotas'' (ownerKey cf o')) = None"
    "cur u = cur t" "tx_read u = tx_read t"
proof -
  from assms have "Get cd asQuota (raftRef ''quotas'' (ownerKey cf o')) t = (Inl MetadataErrNotFound, u)"
    by (auto simp: readQuota_def split: prod.splits sum.splits if_splits)
  then show ?thesis by (rule Get_missingE) (use that in auto)
qed

lemma authorize_InrE [tx_elims]:
  assumes "authorize cf cd a t = (Inr x, u)"
  obtains "cur u = cur t" "tx_read u = tx_read t"
  using assms that unfolding authorize_def
  by (auto simp del: tx_bind_app split: if_splits option.splits elim!: tx_elims)

lemma authorizeUploadTicket_InrE [tx_elims]:
  assumes "authorizeUploadTicket cf cd a t = (Inr x, u)"
  obtains "cur u = cur t" "tx_read u = tx_read t"
  using assms that unfolding authorizeUploadTicket_def by (elim tx_elims) auto

lemma authorizePublish_InrE [tx_elims]:
  assumes "authorizePublish cf cd a t = (Inr x, u)"
  obtains "cur u = cur t" "tx_read u = tx_read t"
  using assms that unfolding authorizePublish_def
  by (auto simp del: tx_bind_app split: if_splits option.splits elim!: tx_elims)

lemma checkNotRetired_InrE [tx_elims]:
  assumes "checkNotRetired cf pid dg t = (Inr x, u)"
  obtains "honest_read (tx_read t) \<Longrightarrow> cur t (raftRef ''retirements'' (retirementID cf pid dg)) = None"
    "cur u = cur t" "tx_read u = tx_read t"
  using assms that unfolding checkNotRetired_def by (elim tx_elims) auto

lemma activateStorage_InrE [tx_elims]:
  assumes "activateStorage cd p op t = (Inr x, u)"
  obtains "op_StorageVersionKey op \<noteq> [] \<Longrightarrow> \<exists>v. docs cd t (raftRef ''storage_versions'' (op_StorageVersionKey op)) = Some (DVersion v)
      \<and> v_ID v = op_StorageVersionKey op \<and> v_App v = p_StorageApp p \<and> v_ProjectID v = p_ID p
      \<and> v_Digest v = op_Digest op \<and> v_Generation v = op_StorageGeneration op \<and> v_State v = ''retained''"
    "cur u = cur t" "tx_read u = tx_read t"
  using assms that unfolding activateStorage_def
  by (auto simp del: tx_bind_app split: if_splits elim!: tx_elims)

lemma checkStorageOperation_InrE [tx_elims]:
  assumes "checkStorageOperation cf cd p op t = (Inr x, u)"
  obtains "op_StorageVersionKey op \<noteq> [] \<Longrightarrow> \<exists>v. docs cd t (raftRef ''storage_versions'' (op_StorageVersionKey op)) = Some (DVersion v)
      \<and> v_ID v = op_StorageVersionKey op \<and> v_App v = p_StorageApp p \<and> v_ProjectID v = p_ID p
      \<and> v_Digest v = op_Digest op \<and> v_Generation v = op_StorageGeneration op \<and> v_State v = ''retained''"
    "honest_read (tx_read t) \<Longrightarrow> cur t (raftRef ''revision_removals'' (revisionIdentity cf op)) = None"
    "cur u = cur t" "tx_read u = tx_read t"
proof -
  from assms obtain t1 t2 where
    1: "tx_optional (Exists (raftRef ''revision_removals'' (revisionIdentity cf op))) t = (Inr None, t1)"
    and 2: "(if op_StorageGeneration op = [] then checkNotRetired cf (p_ID p) (op_Digest op)
              else tx_guard (op_StorageGeneration op \<noteq> op_ID op \<or> op_StorageVersionKey op = []) ErrConflict) t1 = (Inr (), t2)"
    and 3: "activateStorage cd p op t2 = (Inr x, u)"
    unfolding checkStorageOperation_def by (elim tx_bind_InrE tx_guard_InrE) fastforce
  have c1: "cur t1 = cur t" "tx_read t1 = tx_read t"
    "honest_read (tx_read t) \<Longrightarrow> cur t (raftRef ''revision_removals'' (revisionIdentity cf op)) = None"
    using 1 by (auto elim!: tx_elims)
  have c2: "cur t2 = cur t1" "tx_read t2 = tx_read t1"
    using 2 by (auto split: if_splits elim!: tx_elims)
  show thesis using 3 by (rule activateStorage_InrE) (use that c1 c2 in auto)
qed

lemma slugOwner_InrE [tx_elims]:
  assumes "slugOwner cd slug t = (Inr x, u)"
  obtains "good_env cd (tx_read t) \<Longrightarrow> docs cd t (raftRef ''slugs'' slug) = None" "x = []"
      "cur u = cur t" "tx_read u = tx_read t"
  | pid p where "docs cd t (raftRef ''slugs'' slug) = Some (DSlug pid)"
      "docs cd t (raftRef ''projects'' pid) = Some (DProject p)"
      "x = (if p_Status p = ''deleted'' then [] else pid)" "cur u = cur t" "tx_read u = tx_read t"
  using assms that unfolding slugOwner_def
  by (auto simp del: tx_bind_app split: option.splits elim!: tx_elims)

text \<open>A slug is free for a project when no live project but itself holds it.\<close>

definition slug_free :: "(string \<Rightarrow> doc option) \<Rightarrow> string \<Rightarrow> string \<Rightarrow> bool" where
  "slug_free D i slug \<longleftrightarrow> (\<forall>pid. D (raftRef ''slugs'' slug) = Some (DSlug pid) \<longrightarrow>
     (\<exists>p. D (raftRef ''projects'' pid) = Some (DProject p) \<and> (p_Status p = ''deleted'' \<or> pid = i \<or> pid = [])))"

lemma choose_from_InrE:
  assumes "choose_from cd name seed i ls t = (Inr (slug, suffix), u)"
  shows "cur u = cur t \<and> tx_read u = tx_read t \<and> slugRE slug \<and> slug \<notin> set reserved_slugs
    \<and> (good_env cd (tx_read t) \<longrightarrow> slug_free (docs cd t) i slug)"
  using assms
proof (induction ls arbitrary: t)
  case (Cons l ls)
  define sl where "sl = (if l = 0 then name else name @ ''-'' @ take l seed)"
  consider "choose_from cd name seed i ls t = (Inr (slug, suffix), u)"
    | owner v where "slugRE sl" "sl \<notin> set reserved_slugs" "slugOwner cd sl t = (Inr owner, v)"
      "(if owner = [] \<or> owner = i then tx_return (sl, take l seed) else choose_from cd name seed i ls) v
        = (Inr (slug, suffix), u)"
  proof -
    note c = Cons.prems[unfolded choose_from.simps Let_def, folded sl_def]
    show ?thesis
    proof (cases "l \<noteq> 0 \<and> length seed < l \<or> sl \<in> set reserved_slugs \<and> slugRE sl")
      case True
      then show ?thesis using c that(1) by (auto split: if_splits)
    next
      case False
      then have "slugRE sl \<and> tx_bind (slugOwner cd sl) (\<lambda>owner.
          if owner = [] \<or> owner = i then tx_return (sl, take l seed)
          else choose_from cd name seed i ls) t = (Inr (slug, suffix), u)"
        using c by (auto simp del: tx_bind_app split: if_splits)
      then show ?thesis using that(2) False by (blast elim: tx_bind_InrE)
    qed
  qed
  then show ?case
  proof cases
    case 1
    then show ?thesis by (rule Cons.IH)
  next
    case 2
    have env: "cur v = cur t" "tx_read v = tx_read t" using 2(3) by (auto elim: slugOwner_InrE)
    show ?thesis
    proof (cases "owner = [] \<or> owner = i")
      case True
      then have "slug = sl" "u = v" using 2(4) by auto
      moreover have "good_env cd (tx_read t) \<longrightarrow> slug_free (docs cd t) i sl"
        using 2(3) True by (elim slugOwner_InrE) (auto simp: slug_free_def split: if_splits)
      ultimately show ?thesis using 2 env by simp
    next
      case False
      then show ?thesis using 2(4) Cons.IH[of v] env by simp
    qed
  qed
qed simp

lemma chooseSlug_InrE [tx_elims]:
  assumes "chooseSlug cd name seed i t = (Inr r, u)"
  obtains slug suffix where "r = (slug, suffix)" "slugRE slug" "slug \<notin> set reserved_slugs"
    "good_env cd (tx_read t) \<Longrightarrow> slug_free (docs cd t) i slug" "cur u = cur t" "tx_read u = tx_read t"
  using choose_from_InrE[of cd name seed i _ t "fst r" "snd r" u] assms that
  by (cases r) (auto simp: chooseSlug_def simp del: choose_from.simps)


subsection \<open>The owner index\<close>

definition index_at :: "(string \<Rightarrow> doc option) \<Rightarrow> string \<Rightarrow> string list" where
  "index_at D h = (case D (raftRef ''owner_projects'' h) of Some (DTexts xs) \<Rightarrow> xs | _ \<Rightarrow> [])"

definition index_update :: "string list \<Rightarrow> string \<Rightarrow> bool \<Rightarrow> string list" where
  "index_update ids i add = (let pos = SearchStrings ids i in
     if add \<and> (pos = length ids \<or> ids ! pos \<noteq> i) then sort (ids @ [i])
     else if \<not> add \<and> pos < length ids \<and> ids ! pos = i then take pos ids @ drop (Suc pos) ids
     else ids)"

lemma index_update_sorted:
  assumes "sorted xs" "distinct xs"
  shows "sorted (index_update xs i add) \<and> distinct (index_update xs i add)
    \<and> set (index_update xs i add) = (if add then insert i (set xs) else set xs - {i})"
proof -
  let ?p = "SearchStrings xs i"
  have found: "?p < length xs \<and> xs ! ?p = i \<longleftrightarrow> i \<in> set xs" by (rule SearchStrings_found[OF assms(1)])
  have le: "?p \<le> length xs" by (simp add: SearchStrings_sorted[OF assms(1)] length_takeWhile_le)
  consider (new) "add" "i \<notin> set xs" | (gone) "\<not> add" "i \<in> set xs" | (same) "add = (i \<in> set xs)" by blast
  then show ?thesis
  proof cases
    case new
    then have "index_update xs i add = sort (xs @ [i])"
      using found le by (auto simp: index_update_def Let_def)
    then show ?thesis using new assms by simp
  next
    case gone
    then have u: "index_update xs i add = take ?p xs @ drop (Suc ?p) xs" and p: "?p < length xs" "xs ! ?p = i"
      using found by (auto simp: index_update_def Let_def)
    have "xs = take ?p xs @ xs ! ?p # drop (Suc ?p) xs" using p(1) by (rule id_take_nth_drop)
    then have "sorted (take ?p xs @ xs ! ?p # drop (Suc ?p) xs)" "distinct (take ?p xs @ xs ! ?p # drop (Suc ?p) xs)"
      using assms by metis+
    then have "sorted (take ?p xs @ drop (Suc ?p) xs)" "distinct (take ?p xs @ drop (Suc ?p) xs)"
      by (auto simp: sorted_append)
    then show ?thesis using u gone set_remove_nth[OF assms(2) p(1)] p(2) by simp
  next
    case same
    then have "index_update xs i add = xs" using found le by (auto simp: index_update_def Let_def)
    then show ?thesis using assms same by auto
  qed
qed

lemma updateIndex_InrE [tx_elims]:
  assumes "updateIndex cf cd o' i add t = (Inr x, u)"
  obtains "good_env cd (tx_read t) \<Longrightarrow> docs cd u = (docs cd t)(raftRef ''owner_projects'' (ownerKey cf o') \<mapsto>
      DTexts (index_update (index_at (docs cd t) (ownerKey cf o')) i add))" "tx_read u = tx_read t"
proof -
  let ?key = "raftRef ''owner_projects'' (ownerKey cf o')"
  from assms obtain found v where f: "tx_optional (Get cd asTexts ?key) t = (Inr found, v)"
    and r: "(let ids = (case found of None \<Rightarrow> [] | Some xs \<Rightarrow> xs); pos = SearchStrings ids i in
     if add \<and> (pos = length ids \<or> ids ! pos \<noteq> i) then
       tx_bind (tx_guard (length ids \<ge> 1000) ErrQuota) (\<lambda>_.
       Set cd ?key (DTexts (sort (ids @ [i]))))
     else if \<not> add \<and> pos < length ids \<and> ids ! pos = i then
       Set cd ?key (DTexts (take pos ids @ drop (Suc pos) ids))
     else Set cd ?key (DTexts ids)) v = (Inr x, u)"
    unfolding updateIndex_def Let_def by (blast elim: tx_bind_InrE)
  have v: "cur v = cur t" "tx_read v = tx_read t"
    and ids: "good_env cd (tx_read t) \<Longrightarrow> (case found of None \<Rightarrow> [] | Some xs \<Rightarrow> xs) = index_at (docs cd t) (ownerKey cf o')"
    using f by (auto simp: index_at_def elim!: tx_optional_InrE Get_InrE Get_missingE)
  from r have "Set cd ?key (DTexts (index_update (case found of None \<Rightarrow> [] | Some xs \<Rightarrow> xs) i add)) v = (Inr x, u)"
    by (auto simp: index_update_def Let_def simp del: tx_bind_app split: if_splits elim!: tx_bind_InrE tx_guard_InrE)
  then show thesis
    by (rule Set_InrE) (use that v ids in auto)
qed

subsection \<open>Storage bookkeeping of a project write\<close>

definition storage_collections :: "string set" where
  "storage_collections = {''storage_allocations''} \<union> {c. has_prefix c ''storage_gc_''}"

lemma gc_storage: "collection_of (gc_key cf app i) \<in> storage_collections"
  using gc_collection[of cf app i]
  by (auto simp: index_collections_def storage_collections_def collection_takeWhile gc_key_def raftRef_def)

lemma within_upd_iff [simp]: "collection_of k \<in> S \<Longrightarrow> within S D (D1(k := x)) = within S D D1"
  by (auto simp: within_def)

lemma allocation_storage [simp]: "''storage_allocations'' \<in> storage_collections"
  by (simp add: storage_collections_def)

declare gc_storage [simp]

lemma updateStorageQueue_effect:
  assumes "updateStorageQueue cf cd old p t = (Inr x, u)"
  shows "(good_env cd (tx_read t) \<longrightarrow> within storage_collections (docs cd t) (docs cd u)) \<and> tx_read u = tx_read t"
proof (cases "p_StorageApp p = [] \<or> (p_Status old = p_Status p \<and> p_ActiveDigest old = p_ActiveDigest p
           \<and> p_StorageGeneration old = p_StorageGeneration p \<and> p_PendingOperation old = p_PendingOperation p)")
  case True
  then show ?thesis using assms by (simp add: updateStorageQueue_def)
next
  case False
  let ?i = "StorageVersionID cf (p_ID old) (p_ActiveDigest old) (p_StorageGeneration old)"
  from assms False obtain v where
    1: "(if p_ActiveDigest old \<noteq> [] \<and> (p_Status p = ''deleted'' \<or> p_ActiveDigest old \<noteq> p_ActiveDigest p
               \<or> p_StorageGeneration old \<noteq> p_StorageGeneration p)
           then tx_bind (tx_optional (Get cd asVersion (raftRef ''storage_versions'' ?i))) (\<lambda>found. case found of
               None \<Rightarrow> tx_return ()
             | Some v \<Rightarrow>
                 if v_App v \<noteq> p_StorageApp p \<or> v_ProjectID v \<noteq> p_ID p then tx_throw ErrStorage
                 else if v_State v \<noteq> ''reclaimed'' then Set cd (gc_key cf (p_StorageApp p) ?i) (DText ?i)
                 else tx_return ())
           else tx_return ()) t = (Inr (), v)"
    and 2: "(if p_Status p = ''active'' \<and> p_PendingOperation p = [] \<and> p_ActiveDigest p \<noteq> []
        then Delete (gc_key cf (p_StorageApp p)
               (StorageVersionID cf (p_ID p) (p_ActiveDigest p) (p_StorageGeneration p)))
        else tx_return ()) v = (Inr x, u)"
    unfolding updateStorageQueue_def Let_def by (auto simp del: tx_bind_app elim!: tx_bind_InrE)
  have v: "(good_env cd (tx_read t) \<longrightarrow> within storage_collections (docs cd t) (docs cd v)) \<and> tx_read v = tx_read t"
    using 1 by (simp only: split: if_splits) (elim tx_elims; auto split: option.splits if_splits elim!: tx_elims)+
  show ?thesis using 2 v by (auto split: if_splits elim!: Delete_InrE)
qed

lemma updateStorageLive_effect:
  assumes "updateStorageLive cf cd old p t = (Inr x, u)"
  shows "(good_env cd (tx_read t) \<longrightarrow> within storage_collections (docs cd t) (docs cd u)) \<and> tx_read u = tx_read t"
proof -
  let ?key = "raftRef ''storage_allocations'' (p_StorageApp p)"
  from assms obtain v where v: "updateStorageQueue cf cd old p t = (Inr (), v)"
    and r: "(if p_StorageApp p = [] \<or> storageLive old = storageLive p then tx_return ()
     else tx_bind (Get cd asAllocation ?key) (\<lambda>a.
       if a_Schema a = 1 \<and> a_BlockBytes a = measuredStorageFence then
         Set cd ?key (DAllocation (a\<lparr>a_LiveEpoch := inc64 (a_LiveEpoch a)\<rparr>))
       else if a_Schema a \<noteq> 2 then tx_return ()
       else tx_bind (tx_guard (wrap64 (a_LiveBytes a + storageLive p - storageLive old) < 0
              \<or> wrap64 (a_LiveBytes a + storageLive p - storageLive old) > a_ContentBytes a) ErrStorage) (\<lambda>_.
         Set cd ?key (DAllocation (a\<lparr>a_LiveBytes := wrap64 (a_LiveBytes a + storageLive p - storageLive old),
           a_LiveEpoch := inc64 (a_LiveEpoch a)\<rparr>))))) v = (Inr x, u)"
    unfolding updateStorageLive_def Let_def by (auto simp del: tx_bind_app elim!: tx_bind_InrE)
  note e = updateStorageQueue_effect[OF v]
  show ?thesis using r e
    by (simp only: split: if_splits)
      (elim tx_elims; auto simp del: tx_bind_app split: if_splits elim!: tx_elims)+
qed

lemma storage_index: "storage_collections \<subseteq> index_collections"
  by (auto simp: storage_collections_def index_collections_def)

subsection \<open>The effect of writing a project\<close>

definition proj :: "(string \<Rightarrow> doc option) \<Rightarrow> string \<Rightarrow> project option" where
  "proj D i = (case D (raftRef ''projects'' i) of Some (DProject p) \<Rightarrow> Some p | _ \<Rightarrow> None)"

definition live_owner :: "cfg \<Rightarrow> project option \<Rightarrow> string option" where
  "live_owner cf p = (case p of None \<Rightarrow> None
     | Some x \<Rightarrow> if p_Status x = ''deleted'' then None else Some (ownerKey cf (p_Owner x)))"

text \<open>
  The index of an owner key lists exactly its projects that are not deleted, sorted; \<open>index_rel\<close>
  says so of a given assignment of owner keys to projects.
\<close>

definition index_rel :: "(string \<Rightarrow> string option) \<Rightarrow> (string \<Rightarrow> doc option) \<Rightarrow> bool" where
  "index_rel L D \<longleftrightarrow> (\<forall>h. sorted (index_at D h) \<and> distinct (index_at D h)
     \<and> set (index_at D h) = {i. L i = Some h})"

definition index_ok :: "cfg \<Rightarrow> (string \<Rightarrow> doc option) \<Rightarrow> bool" where
  "index_ok cf D \<longleftrightarrow> index_rel (\<lambda>i. live_owner cf (proj D i)) D"

lemma index_at_upd:
  "index_at (D(raftRef ''owner_projects'' h \<mapsto> DTexts xs)) = (index_at D)(h := xs)"
  by (rule ext) (simp add: index_at_def)

lemma index_rel_upd:
  assumes "index_rel L D" "add \<Longrightarrow> L i = None \<or> L i = Some h"
  shows "index_rel (if add then L(i \<mapsto> h) else if L i = Some h then L(i := None) else L)
    (D(raftRef ''owner_projects'' h \<mapsto> DTexts (index_update (index_at D h) i add)))"
  using assms index_update_sorted[of "index_at D h" i add]
  by (auto simp: index_rel_def index_at_upd)

lemma index_rel_cong:
  assumes "\<And>h. D' (raftRef ''owner_projects'' h) = D (raftRef ''owner_projects'' h)"
  shows "index_rel L D' = index_rel L D"
  using assms by (simp add: index_rel_def index_at_def)

lemma storage_not_owner: "within storage_collections D D' \<Longrightarrow>
    D' (raftRef ''owner_projects'' h) = D (raftRef ''owner_projects'' h)"
  by (erule withinD) (simp_all add: storage_collections_def has_prefix_def)

lemma updateIndex_within:
  assumes "updateIndex cf cd o' i add t = (Inr x, u)" "good_env cd (tx_read t)"
  shows "within index_collections (docs cd t) (docs cd u) \<and> tx_read u = tx_read t"
  using assms by (auto elim!: updateIndex_InrE)

lemma updateIndex_rel:
  assumes "updateIndex cf cd o' i add t = (Inr x, u)" "good_env cd (tx_read t)"
    and "index_rel L (docs cd t)" "add \<Longrightarrow> L i = None \<or> L i = Some (ownerKey cf o')"
  shows "index_rel (if add then L(i \<mapsto> ownerKey cf o')
    else if L i = Some (ownerKey cf o') then L(i := None) else L) (docs cd u)"
  using assms(1)
proof (rule updateIndex_InrE)
  assume "good_env cd (tx_read t) \<Longrightarrow> docs cd u = (docs cd t)(raftRef ''owner_projects'' (ownerKey cf o') \<mapsto>
      DTexts (index_update (index_at (docs cd t) (ownerKey cf o')) i add))"
  then show ?thesis using index_rel_upd[OF assms(3,4)] assms(2) by simp
qed

lemma set_project_cases:
  assumes "set_project cf cd p t = (Inr x, u)" "good_env cd (tx_read t)"
  obtains found t1 t2 t3 where "found = proj (docs cd t) (p_ID p)"
    "cur t1 = cur t" "tx_read t1 = tx_read t"
    "(if found \<noteq> None \<and> p_Status (the found) \<noteq> ''deleted''
        \<and> (p_Owner (the found) \<noteq> p_Owner p \<or> p_Status p = ''deleted'')
      then updateIndex cf cd (p_Owner (the found)) (p_ID p) False else tx_return ()) t1 = (Inr (), t2)"
    "(if p_Status p \<noteq> ''deleted'' \<and> (found = None \<or> p_Owner (the found) \<noteq> p_Owner p
        \<or> p_Status (the found) = ''deleted'')
      then updateIndex cf cd (p_Owner p) (p_ID p) True else tx_return ()) t2 = (Inr (), t3)"
    "updateStorageLive cf cd (case found of None \<Rightarrow> zero_project | Some y \<Rightarrow> y) p t3 = (Inr x, u)"
proof -
  from assms(1) obtain found v1 v2 v3 v4 v5 where
    f: "tx_optional (Get cd asProject (raftRef ''projects'' (p_ID p))) t = (Inr found, v1)"
    and a: "(if found \<noteq> None \<and> \<not> contentOnlyProjectChange (case found of None \<Rightarrow> zero_project | Some y \<Rightarrow> y) p
        then RequireReplication else tx_return ()) v1 = (Inr (), v2)"
    and b: "(if found = None \<and> \<not> creation_only p then RequireReplication else tx_return ()) v2 = (Inr (), v3)"
    and c: "(if found \<noteq> None \<and> p_Status (case found of None \<Rightarrow> zero_project | Some y \<Rightarrow> y) \<noteq> ''deleted''
        \<and> (p_Owner (case found of None \<Rightarrow> zero_project | Some y \<Rightarrow> y) \<noteq> p_Owner p \<or> p_Status p = ''deleted'')
      then updateIndex cf cd (p_Owner (case found of None \<Rightarrow> zero_project | Some y \<Rightarrow> y)) (p_ID p) False
      else tx_return ()) v3 = (Inr (), v4)"
    and d: "(if p_Status p \<noteq> ''deleted'' \<and> (found = None \<or> p_Owner (case found of None \<Rightarrow> zero_project | Some y \<Rightarrow> y) \<noteq> p_Owner p
        \<or> p_Status (case found of None \<Rightarrow> zero_project | Some y \<Rightarrow> y) = ''deleted'')
      then updateIndex cf cd (p_Owner p) (p_ID p) True else tx_return ()) v4 = (Inr (), v5)"
    and e: "updateStorageLive cf cd (case found of None \<Rightarrow> zero_project | Some y \<Rightarrow> y) p v5 = (Inr x, u)"
    unfolding set_project_def Let_def by (elim tx_bind_InrE) (fastforce simp del: tx_bind_app)
  have v1: "found = proj (docs cd t) (p_ID p) \<and> cur v1 = cur t \<and> tx_read v1 = tx_read t"
    using f assms(2) by (auto simp: proj_def elim!: tx_optional_InrE Get_InrE Get_missingE)
  have v3: "cur v3 = cur v1 \<and> tx_read v3 = tx_read v1"
    using a b by (auto split: if_splits elim!: RequireReplication_InrE)
  show thesis
  proof (rule that[of found v3 v4 v5])
    show "(if found \<noteq> None \<and> p_Status (the found) \<noteq> ''deleted''
        \<and> (p_Owner (the found) \<noteq> p_Owner p \<or> p_Status p = ''deleted'')
      then updateIndex cf cd (p_Owner (the found)) (p_ID p) False else tx_return ()) v3 = (Inr (), v4)"
      using c by (cases found) auto
    show "(if p_Status p \<noteq> ''deleted'' \<and> (found = None \<or> p_Owner (the found) \<noteq> p_Owner p
        \<or> p_Status (the found) = ''deleted'')
      then updateIndex cf cd (p_Owner p) (p_ID p) True else tx_return ()) v4 = (Inr (), v5)"
      using d by (cases found) auto
  qed (use v1 v3 e in auto)
qed

lemma set_project_within:
  assumes "set_project cf cd p t = (Inr x, u)" "good_env cd (tx_read t)"
  shows "within index_collections (docs cd t) (docs cd u) \<and> tx_read u = tx_read t"
  using assms
proof (rule set_project_cases)
  fix found t1 t2 t3
  assume 1: "cur t1 = cur t" "tx_read t1 = tx_read t"
    and 2: "(if found \<noteq> None \<and> p_Status (the found) \<noteq> ''deleted''
        \<and> (p_Owner (the found) \<noteq> p_Owner p \<or> p_Status p = ''deleted'')
      then updateIndex cf cd (p_Owner (the found)) (p_ID p) False else tx_return ()) t1 = (Inr (), t2)"
    and 3: "(if p_Status p \<noteq> ''deleted'' \<and> (found = None \<or> p_Owner (the found) \<noteq> p_Owner p
        \<or> p_Status (the found) = ''deleted'')
      then updateIndex cf cd (p_Owner p) (p_ID p) True else tx_return ()) t2 = (Inr (), t3)"
    and 4: "updateStorageLive cf cd (case found of None \<Rightarrow> zero_project | Some y \<Rightarrow> y) p t3 = (Inr x, u)"
  have g1: "good_env cd (tx_read t1)" using 1 assms(2) by simp
  have e2: "within index_collections (docs cd t1) (docs cd t2) \<and> tx_read t2 = tx_read t1"
    using 2 updateIndex_within[OF _ g1] by (auto split: if_splits)
  then have g2: "good_env cd (tx_read t2)" using g1 by simp
  have e3: "within index_collections (docs cd t2) (docs cd t3) \<and> tx_read t3 = tx_read t2"
    using 3 updateIndex_within[OF _ g2] by (auto split: if_splits)
  then have e4: "within index_collections (docs cd t3) (docs cd u) \<and> tx_read u = tx_read t3"
    using updateStorageLive_effect[OF 4] g2 within_mono[OF _ storage_index] by auto
  show ?thesis using 1 e2 e3 e4 by (metis within_trans)
qed

lemma set_project_index:
  assumes "set_project cf cd p t = (Inr x, u)" "good_env cd (tx_read t)" "index_ok cf (docs cd t)"
  shows "index_rel ((\<lambda>i. live_owner cf (proj (docs cd t) i))(p_ID p := live_owner cf (Some p))) (docs cd u)"
  using assms(1,2)
proof (rule set_project_cases)
  fix found t1 t2 t3
  let ?i = "p_ID p" and ?L = "\<lambda>i. live_owner cf (proj (docs cd t) i)"
  assume found: "found = proj (docs cd t) ?i" and 1: "cur t1 = cur t" "tx_read t1 = tx_read t"
    and 2: "(if found \<noteq> None \<and> p_Status (the found) \<noteq> ''deleted''
        \<and> (p_Owner (the found) \<noteq> p_Owner p \<or> p_Status p = ''deleted'')
      then updateIndex cf cd (p_Owner (the found)) ?i False else tx_return ()) t1 = (Inr (), t2)"
    and 3: "(if p_Status p \<noteq> ''deleted'' \<and> (found = None \<or> p_Owner (the found) \<noteq> p_Owner p
        \<or> p_Status (the found) = ''deleted'')
      then updateIndex cf cd (p_Owner p) ?i True else tx_return ()) t2 = (Inr (), t3)"
    and 4: "updateStorageLive cf cd (case found of None \<Rightarrow> zero_project | Some y \<Rightarrow> y) p t3 = (Inr x, u)"
  let ?gone = "found \<noteq> None \<and> p_Status (the found) \<noteq> ''deleted'' \<and> (p_Owner (the found) \<noteq> p_Owner p \<or> p_Status p = ''deleted'')"
  let ?new = "p_Status p \<noteq> ''deleted'' \<and> (found = None \<or> p_Owner (the found) \<noteq> p_Owner p \<or> p_Status (the found) = ''deleted'')"
  let ?L1 = "if ?gone then ?L(?i := None) else ?L"
  have g1: "good_env cd (tx_read t1)" and r1: "index_rel ?L (docs cd t1)"
    using 1 assms(2,3) by (simp_all add: index_ok_def)
  have Li: "?L ?i = Some (ownerKey cf (p_Owner (the found)))" if ?gone
    using that found by (auto simp: live_owner_def)
  have g2: "good_env cd (tx_read t2)"
    using 2 updateIndex_within[OF _ g1] g1 by (auto split: if_splits)
  have r2: "index_rel ?L1 (docs cd t2)"
  proof (cases ?gone)
    case True
    then have "updateIndex cf cd (p_Owner (the found)) ?i False t1 = (Inr (), t2)" using 2 by simp
    from updateIndex_rel[OF this g1 r1] show ?thesis using Li True by simp
  next
    case False
    then have "t2 = t1" using 2 by (auto split: if_splits)
    then show ?thesis using r1 False by (simp only: if_False)
  qed
  have L1i: "?L1 ?i = None \<or> ?L1 ?i = Some (ownerKey cf (p_Owner p))"
    using found by (auto simp: live_owner_def split: option.splits if_splits)
  have g3: "good_env cd (tx_read t3)"
    using 3 updateIndex_within[OF _ g2] g2 by (auto split: if_splits)
  have r3: "index_rel (if ?new then ?L1(?i \<mapsto> ownerKey cf (p_Owner p)) else ?L1) (docs cd t3)"
  proof (cases ?new)
    case True
    then have "updateIndex cf cd (p_Owner p) ?i True t2 = (Inr (), t3)" using 3 by simp
    from updateIndex_rel[OF this g2 r2] L1i show ?thesis using True by (simp only: if_True simp_thms)
  next
    case False
    then have "t3 = t2" using 3 by (auto split: if_splits)
    then show ?thesis using r2 False by (simp only: if_False)
  qed
  have "(if ?new then ?L1(?i \<mapsto> ownerKey cf (p_Owner p)) else ?L1) = ?L(?i := live_owner cf (Some p))"
    using found by (auto simp: live_owner_def fun_eq_iff split: option.splits if_splits)
  then have "index_rel (?L(?i := live_owner cf (Some p))) (docs cd t3)" using r3 by simp
  moreover have "within storage_collections (docs cd t3) (docs cd u)"
    using updateStorageLive_effect[OF 4] g3 by simp
  ultimately show ?thesis using index_rel_cong[of "docs cd u" "docs cd t3"] storage_not_owner by blast
qed

text \<open>
  What a successful project write amounts to: the record is stored under its own identifier, the
  only other changes are in the owner index and the storage bookkeeping, and the index stays exact.
\<close>

lemma proj_upd [simp]: "proj (D(raftRef ''projects'' i \<mapsto> DProject p)) = (proj D)(i \<mapsto> p)"
  by (rule ext) (simp add: proj_def)

lemma proj_cong: "(\<And>i. D' (raftRef ''projects'' i) = D (raftRef ''projects'' i)) \<Longrightarrow> proj D' = proj D"
  by (rule ext) (simp add: proj_def)

lemma proj_within: "within S D D' \<Longrightarrow> ''projects'' \<notin> S \<Longrightarrow> proj D' = proj D"
  by (rule proj_cong) (rule withinD, simp_all)

lemma project_write_InrE:
  assumes "raftTx_Set cf cd (raftRef ''projects'' i) (DProject p) t = (Inr x, u)" "good_env cd (tx_read t)"
  obtains D1 where "p_ID p = i" "within index_collections (docs cd t) D1"
    "docs cd u = D1(raftRef ''projects'' i \<mapsto> DProject p)" "tx_read u = tx_read t"
    "index_ok cf (docs cd t) \<Longrightarrow> index_ok cf (docs cd u)"
proof -
  from assms(1) obtain v where v: "set_project cf cd p t = (Inr (), v)" and i: "p_ID p = i"
    and w: "Set cd (raftRef ''projects'' i) (DProject p) v = (Inr x, u)"
    by (auto simp: raftTx_Set_project simp del: tx_bind_app split: if_splits elim!: tx_bind_InrE)
  note e = set_project_within[OF v assms(2)]
  have g: "good_env cd (tx_read v)" using e assms(2) by simp
  from w have u: "docs cd u = (docs cd v)(raftRef ''projects'' i \<mapsto> DProject p)" "tx_read u = tx_read t"
    using g e by (auto elim!: Set_InrE)
  have "index_ok cf (docs cd u)" if ok: "index_ok cf (docs cd t)"
  proof -
    have "proj (docs cd u) = (proj (docs cd t))(i \<mapsto> p)"
      using e proj_within[of index_collections "docs cd t" "docs cd v"] by (simp add: u(1))
    then have "(\<lambda>j. live_owner cf (proj (docs cd u) j)) =
        (\<lambda>j. live_owner cf (proj (docs cd t) j))(p_ID p := live_owner cf (Some p))"
      using i by (auto simp: fun_eq_iff)
    moreover have "index_rel L (docs cd u) = index_rel L (docs cd v)" for L
      by (rule index_rel_cong) (simp add: u(1) key_simps)
    ultimately show ?thesis using set_project_index[OF v assms(2) ok] by (simp add: index_ok_def)
  qed
  then show thesis using that i e u by blast
qed

end
