(* ===== verification/Storage.thy ===== *)
theory Storage
  imports Project_Store
begin

text \<open>
  Retained storage (\<open>storage.go\<close>, \<open>storage_accounting.go\<close>, \<open>storage_reclamation.go\<close> of
  \<open>internal/project\<close>): charging a storage app for a reservation, by estimate or by measured
  footprint, fencing a physical version for removal, and refunding it once every replication member
  has acknowledged the removal. The loops over storage offers are recursions over the list.
\<close>

section \<open>Allocation by estimate\<close>

definition max_offer_block :: int where "max_offer_block = 1048576"

text \<open>The new block size and byte count when a larger filesystem block is offered; \<open>None\<close> is the
  code's \<open>continue\<close>.\<close>

definition grow_blocks :: "storage_allocation \<Rightarrow> int \<Rightarrow> storage_allocation option" where
  "grow_blocks al block =
     (if a_BlockBytes al > 0 \<and> block > a_BlockBytes al then
        (let delta = block - a_BlockBytes al in
         if a_Inodes al > max_int64 div delta then None
         else let extra = a_Inodes al * delta in
           if a_Bytes al < 0 \<or> extra > max_int64 - a_Bytes al then None
           else Some (al\<lparr>a_Bytes := a_Bytes al + extra, a_BlockBytes := block\<rparr>))
      else Some (al\<lparr>a_BlockBytes := block\<rparr>))"

definition min_limit :: "int \<Rightarrow> int \<Rightarrow> int" where
  "min_limit recorded offered = (if recorded > 0 \<and> recorded < offered then recorded else offered)"

fun allocate_offers ::
  "('v, doc) codec \<Rightarrow> project \<Rightarrow> reservation \<Rightarrow> storage_offer list \<Rightarrow> ('v, project) txm" where
  "allocate_offers cd p r [] = tx_throw ErrStorage"
| "allocate_offers cd p r (offer # rest) =
     (if p_StorageApp p \<noteq> [] \<and> of_App offer \<noteq> p_StorageApp p then allocate_offers cd p r rest
      else if of_BlockBytes offer < 1 \<or> of_BlockBytes offer > max_offer_block \<or> of_LimitBytes offer \<le> 0
              \<or> rs_Files r < 1 \<or> rs_Files r > 5000 then allocate_offers cd p r rest
      else let inodes = rs_Files r * 21 + 64; key = raftRef ''storage_allocations'' (of_App offer) in
        tx_bind (tx_optional (Get cd asAllocation key)) (\<lambda>found.
        let al = (case found of None \<Rightarrow> zero_allocation | Some x \<Rightarrow> x) in
        if sc_Removed (a_Control al) \<or> sc_Drain (a_Control al) then allocate_offers cd p r rest
        else if a_BlockBytes al < 0 \<or> a_BlockBytes al > max_offer_block then tx_throw ErrStorage
        else let block = (if a_BlockBytes al > of_BlockBytes offer then a_BlockBytes al else of_BlockBytes offer)
          in case grow_blocks al block of
            None \<Rightarrow> allocate_offers cd p r rest
          | Some al \<Rightarrow>
              (let charge = rs_Bytes r + inodes * block + 8388608;
                   limitBytes = min_limit (a_LimitBytes al) (of_LimitBytes offer);
                   limitInodes = min_limit (a_LimitInodes al) (of_LimitInodes offer) in
               if charge \<le> 0 \<or> of_AvailableBytes offer < charge * 2
                  \<or> (of_TracksInodes offer \<and> of_AvailableInodes offer < inodes * 2)
               then allocate_offers cd p r rest
               else if a_Bytes al < 0 \<or> a_Bytes al > limitBytes \<or> charge > limitBytes - a_Bytes al
                  \<or> a_Inodes al > max_uint64 - inodes
               then allocate_offers cd p r rest
               else if of_TracksInodes offer \<and> (a_Inodes al > limitInodes \<or> inodes > limitInodes - a_Inodes al)
               then allocate_offers cd p r rest
               else tx_bind (Set cd key (DAllocation (al\<lparr>a_LimitBytes := limitBytes,
                        a_LimitInodes := limitInodes, a_Bytes := a_Bytes al + charge,
                        a_Inodes := a_Inodes al + inodes\<rparr>))) (\<lambda>_.
                    tx_return (p\<lparr>p_StorageApp := of_App offer\<rparr>)))))"

section \<open>Allocation by measured footprint\<close>

text \<open>Moving the accounting to a larger block size; an error is the code's \<open>ErrStorage\<close>.\<close>

definition rebase_blocks :: "storage_allocation \<Rightarrow> int \<Rightarrow> err + storage_allocation" where
  "rebase_blocks al block =
     (if block > a_AccountingBlockBytes al then
        (if block mod a_AccountingBlockBytes al \<noteq> 0 then Inl ErrStorage
         else let delta = block - a_AccountingBlockBytes al in
           if a_Inodes al > max_int64 div delta \<or> a_Bytes al < 0
              \<or> a_Inodes al * delta > max_int64 - a_Bytes al \<or> a_LegacyInodes al > a_Inodes al
           then Inl ErrStorage
           else Inr (al\<lparr>a_Bytes := a_Bytes al + a_Inodes al * delta,
             a_LegacyBytes := wrap64 (a_LegacyBytes al + a_LegacyInodes al * delta),
             a_AccountingBlockBytes := block\<rparr>))
      else Inr al)"

definition start_measured :: "storage_allocation \<Rightarrow> int \<Rightarrow> storage_allocation" where
  "start_measured al block =
     (if a_Schema al = 0 \<and> a_Bytes al = 0 \<and> a_Inodes al = 0
      then al\<lparr>a_Schema := 2, a_BlockBytes := measuredStorageFence, a_AccountingBlockBytes := block\<rparr>
      else al)"

definition new_version ::
  "cfg \<Rightarrow> string \<Rightarrow> storage_offer \<Rightarrow> project \<Rightarrow> reservation \<Rightarrow> string \<Rightarrow> storage_allocation \<Rightarrow> footprint
    \<Rightarrow> storage_version" where
  "new_version cf i offer p r generation al usage = \<lparr>v_ID = i, v_App = of_App offer, v_ProjectID = p_ID p,
     v_Digest = rs_Digest r, v_Generation = generation, v_ContentBytes = rs_Bytes r,
     v_Bytes = fp_AllocatedBytes usage, v_QuotaBytes = 0, v_BlockBytes = a_AccountingBlockBytes al,
     v_Inodes = fp_Inodes usage, v_Unverified = False, v_ProjectDeleted = False,
     v_LegacyOperations = 0, v_State = ''retained'', v_CreatedAt = repo_now cf, v_RetiredAt = 0,
     v_MembershipEpoch = [], v_Members = [], v_Acknowledged = [], v_RefundedAt = 0\<rparr>"

definition add_version :: "storage_allocation \<Rightarrow> storage_version \<Rightarrow> storage_allocation" where
  "add_version al v = al\<lparr>a_Bytes := wrap64 (a_Bytes al + v_Bytes v),
     a_Inodes := wrap_uint64 (a_Inodes al + v_Inodes v),
     a_ContentBytes := wrap64 (a_ContentBytes al + v_ContentBytes v), a_Versions := inc64 (a_Versions al)\<rparr>"

text \<open>The writes at the end of a successful measured allocation.\<close>

definition commit_measured ::
  "cfg \<Rightarrow> ('v, doc) codec \<Rightarrow> project \<Rightarrow> reservation \<Rightarrow> string \<Rightarrow> string \<Rightarrow> string \<Rightarrow> storage_version
    \<Rightarrow> storage_allocation \<Rightarrow> ('v, project) txm" where
  "commit_measured cf cd p r app generation i v al =
     tx_bind (Set cd (raftRef ''storage_versions'' i)
       (DVersion (v\<lparr>v_QuotaBytes := wrap64 (v_QuotaBytes v + versionCharge (rs_Bytes r))\<rparr>))) (\<lambda>_.
     tx_bind (Set cd (gc_key cf app i) (DText i)) (\<lambda>_.
     tx_bind (Set cd (raftRef ''storage_operation_charges'' (rs_StorageOperationID r))
       (DCharge \<lparr>oc_VersionKey = i, oc_Generation = generation\<rparr>)) (\<lambda>_.
     tx_bind (Set cd (raftRef ''storage_allocations'' app) (DAllocation al)) (\<lambda>_.
     tx_return (p\<lparr>p_StorageApp := app\<rparr>)))))"

fun measured_offers ::
  "cfg \<Rightarrow> ('v, doc) codec \<Rightarrow> manifest \<Rightarrow> project \<Rightarrow> reservation \<Rightarrow> storage_offer list \<Rightarrow> ('v, project) txm" where
  "measured_offers cf cd m p r [] = tx_throw ErrStorage"
| "measured_offers cf cd m p r (offer # rest) =
     (if (p_StorageApp p \<noteq> [] \<and> p_StorageApp p \<noteq> of_App offer) \<or> of_BlockBytes offer < 1
         \<or> of_BlockBytes offer > max_offer_block \<or> of_LimitBytes offer \<le> 0
      then measured_offers cf cd m p r rest
      else
        tx_bind (tx_optional (Get cd asAllocation (raftRef ''storage_allocations'' (of_App offer)))) (\<lambda>found.
        let al = (case found of None \<Rightarrow> zero_allocation | Some x \<Rightarrow> x) in
        if sc_Drain (a_Control al) \<or> sc_Removed (a_Control al) then measured_offers cf cd m p r rest
        else let al = start_measured al (of_BlockBytes offer) in
        if a_Schema al \<noteq> 2 \<or> a_BlockBytes al \<noteq> measuredStorageFence \<or> a_AccountingBlockBytes al < 1
           \<or> a_AccountingBlockBytes al > max_offer_block
        then measured_offers cf cd m p r rest
        else case rebase_blocks al (of_BlockBytes offer) of
          Inl e \<Rightarrow> tx_throw e
        | Inr al \<Rightarrow>
        (case Footprint (cf_json_len cf) m (a_AccountingBlockBytes al) of
          Inl e \<Rightarrow> tx_throw ErrInvalid
        | Inr usage \<Rightarrow>
          if fp_ContentBytes usage \<noteq> rs_Bytes r \<or> int (length (m_Files m)) \<noteq> rs_Files r
          then tx_throw ErrInvalid
          else let generation = (if of_Generations offer then rs_StorageOperationID r else []);
                   i = StorageVersionID cf (p_ID p) (rs_Digest r) generation;
                   limitBytes = min_limit (a_LimitBytes al) (of_LimitBytes offer);
                   limitInodes = min_limit (a_LimitInodes al) (of_LimitInodes offer)
            in tx_bind (tx_optional (Get cd asVersion (raftRef ''storage_versions'' i))) (\<lambda>stored.
            case stored of
              Some v \<Rightarrow>
                if v_ID v \<noteq> i \<or> v_App v \<noteq> of_App offer \<or> v_ProjectID v \<noteq> p_ID p \<or> v_Digest v \<noteq> rs_Digest r
                   \<or> v_Generation v \<noteq> generation \<or> v_ContentBytes v \<noteq> rs_Bytes r \<or> v_State v \<noteq> ''retained''
                then tx_throw ErrConflict
                else commit_measured cf cd p r (of_App offer) generation i v
                       (al\<lparr>a_LimitBytes := limitBytes, a_LimitInodes := limitInodes\<rparr>)
            | None \<Rightarrow>
                if fp_AllocatedBytes usage \<le> 0 \<or> a_Bytes al < 0 \<or> a_Bytes al > limitBytes
                   \<or> fp_AllocatedBytes usage > limitBytes - a_Bytes al
                   \<or> of_AvailableBytes offer < fp_AllocatedBytes usage * 2
                then measured_offers cf cd m p r rest
                else if of_TracksInodes offer \<and> (a_Inodes al > limitInodes
                   \<or> fp_Inodes usage > limitInodes - a_Inodes al \<or> of_AvailableInodes offer < fp_Inodes usage * 2)
                then measured_offers cf cd m p r rest
                else let v = new_version cf i offer p r generation al usage in
                  commit_measured cf cd p r (of_App offer) generation i v
                    ((add_version al v)\<lparr>a_LimitBytes := limitBytes, a_LimitInodes := limitInodes\<rparr>)))))"

definition allocateMeasuredStorage ::
  "cfg \<Rightarrow> ('v, doc) codec \<Rightarrow> manifest \<Rightarrow> project \<Rightarrow> reservation \<Rightarrow> storage_offer list \<Rightarrow> ('v, project) txm" where
  "allocateMeasuredStorage cf cd m p r offers =
     tx_bind (tx_guard (\<not> digestRE (rs_StorageOperationID r)) ErrInvalid) (\<lambda>_.
     measured_offers cf cd m p r offers)"

definition allocateStorage ::
  "cfg \<Rightarrow> ('v, doc) codec \<Rightarrow> project \<Rightarrow> reservation \<Rightarrow> ('v, project) txm" where
  "allocateStorage cf cd p r = (case cf_StorageOffers cf of
     None \<Rightarrow> tx_return p
   | Some offers \<Rightarrow> (case rs_StorageManifest r of
       Some m \<Rightarrow> allocateMeasuredStorage cf cd m p r offers
     | None \<Rightarrow> allocate_offers cd p r offers))"

section \<open>Reclamation\<close>

fun members_ok :: "string list \<Rightarrow> bool" where
  "members_ok [] = True"
| "members_ok [m] = (m \<noteq> [] \<and> length m \<le> 128)"
| "members_ok (m # n # ms) = (m \<noteq> [] \<and> length m \<le> 128 \<and> m \<noteq> n \<and> members_ok (n # ms))"

definition version_sane :: "storage_version \<Rightarrow> storage_allocation \<Rightarrow> bool" where
  "version_sane v al \<longleftrightarrow> a_Schema al = 2 \<and> a_BlockBytes al = measuredStorageFence \<and> 1 \<le> v_BlockBytes v
     \<and> v_BlockBytes v \<le> a_AccountingBlockBytes al \<and> 0 < v_Bytes v \<and> v_Bytes v \<le> 1099511627776
     \<and> v_Inodes v \<le> 1048576 \<and> 0 \<le> v_ContentBytes v \<and> v_ContentBytes v \<le> 209715200
     \<and> 0 < v_QuotaBytes v"

text \<open>\<open>if err := tx.tx.ValidateReads(); err != nil { return err }; return ErrStorage\<close>\<close>

definition validated_throw :: "bool \<Rightarrow> err \<Rightarrow> ('v, unit) txm" where
  "validated_throw bad e = (if bad then tx_bind ValidateReads (\<lambda>_. tx_throw e) else tx_return ())"

definition serves_version :: "project \<Rightarrow> storage_version \<Rightarrow> bool" where
  "serves_version p v \<longleftrightarrow> p_Status p = ''active'' \<and> p_ActiveDigest p = v_Digest v
     \<and> p_StorageGeneration p = v_Generation v"

text \<open>Successful publications of a project that is not deleted are retired only after the owner
  removed them; failed generation uploads only after a durable abort.\<close>

definition retirable :: "('v, doc) codec \<Rightarrow> project \<Rightarrow> storage_version \<Rightarrow> ('v, unit) txm" where
  "retirable cd p v =
     (if p_Status p \<noteq> ''deleted'' \<and> v_State v = ''retained'' then
        tx_bind (tx_optional (Exists (raftRef ''revision_removals'' (v_ID v)))) (\<lambda>removal.
        if removal = None then
          tx_bind (tx_guard (v_Generation v = []) ErrConflict) (\<lambda>_.
          tx_bind (Get cd asOperation (raftRef ''operations'' (v_Generation v))) (\<lambda>op.
          tx_guard (op_ProjectID op \<noteq> p_ID p \<or> op_StorageVersionKey op \<noteq> v_ID v \<or> op_State op \<noteq> ''aborted'')
            ErrConflict))
        else tx_return ())
      else tx_return ())"

definition RetireStorageVersion ::
  "cfg \<Rightarrow> ('v, doc) codec \<Rightarrow> string \<Rightarrow> string \<Rightarrow> string list \<Rightarrow> ('v, storage_version) txm" where
  "RetireStorageVersion cf cd i epoch members0 =
     tx_bind (tx_guard (\<not> digestRE i \<or> \<not> digestRE epoch \<or> length members0 < 1 \<or> length members0 > 64
         \<or> \<not> members_ok (sort members0)) ErrInvalid) (\<lambda>_.
     let members = sort members0 in
     tx_bind (Get cd asVersion (raftRef ''storage_versions'' i)) (\<lambda>v.
     tx_bind (tx_guard (v_ID v \<noteq> i \<or> v_ID v \<noteq> StorageVersionID cf (v_ProjectID v) (v_Digest v) (v_Generation v)
         \<or> v_Unverified v) ErrStorage) (\<lambda>_.
     if v_State v = ''reclaimed'' then
       tx_bind (tx_guard (v_MembershipEpoch v \<noteq> epoch \<or> v_Members v \<noteq> members) ErrConflict) (\<lambda>_. tx_return v)
     else
       tx_bind (Get cd asProject (raftRef ''projects'' (v_ProjectID v))) (\<lambda>p.
       tx_bind (tx_guard (p_StorageApp p \<noteq> v_App v \<or> (p_Status p \<noteq> ''deleted'' \<and> p_Status p \<noteq> ''active'')
           \<or> p_PendingOperation p \<noteq> [] \<or> serves_version p v) ErrConflict) (\<lambda>_.
       tx_bind (tx_guard (p_Status p \<noteq> ''deleted'' \<and> expired p (repo_now cf)) ErrConflict) (\<lambda>_.
       tx_bind (retirable cd p v) (\<lambda>_.
       tx_bind (tx_guard (v_State v \<noteq> ''retained'' \<and> v_State v \<noteq> ''retiring'') ErrConflict) (\<lambda>_.
       tx_bind (Get cd asAllocation (raftRef ''storage_allocations'' (v_App v))) (\<lambda>al.
       tx_bind (readQuota cf cd (p_Owner p)) (\<lambda>q.
       tx_bind (validated_throw (\<not> idRE (v_ProjectID v) \<or> \<not> digestRE (v_Digest v)
           \<or> (v_Generation v \<noteq> [] \<and> \<not> digestRE (v_Generation v)) \<or> \<not> version_sane v al
           \<or> p_ChargedBytes p < v_QuotaBytes v \<or> q_ChargedBytes q < p_ChargedBytes p) ErrStorage) (\<lambda>_.
       let v1 = (if v_State v = ''retained'' then v\<lparr>v_State := ''retiring'', v_RetiredAt := repo_now cf\<rparr> else v);
           v2 = v1\<lparr>v_ProjectDeleted := p_Status p = ''deleted''\<rparr> in
       tx_bind (tx_guard (v_MembershipEpoch v2 \<noteq> [] \<and> (v_MembershipEpoch v2 \<noteq> epoch \<or> v_Members v2 \<noteq> members))
           ErrConflict) (\<lambda>_.
       let v3 = (if v_MembershipEpoch v2 = []
             then v2\<lparr>v_MembershipEpoch := epoch, v_Members := members, v_Acknowledged := []\<rparr> else v2) in
       tx_bind (if v_Generation v3 = []
           then Set cd (raftRef ''retirements'' (retirementID cf (v_ProjectID v3) (v_Digest v3))) (DText (v_ID v3))
           else tx_return ()) (\<lambda>_.
       tx_bind (Set cd (raftRef ''storage_versions'' i) (DVersion v3)) (\<lambda>_.
       tx_return v3))))))))))))))"

definition refund_of :: "storage_version \<Rightarrow> storage_allocation \<Rightarrow> int" where
  "refund_of v al = v_Bytes v + v_Inodes v * (a_AccountingBlockBytes al - v_BlockBytes v)"

definition remove_version :: "storage_allocation \<Rightarrow> storage_version \<Rightarrow> storage_allocation" where
  "remove_version al v = al\<lparr>a_Bytes := a_Bytes al - refund_of v al, a_Inodes := a_Inodes al - v_Inodes v,
     a_ContentBytes := a_ContentBytes al - v_ContentBytes v, a_Versions := a_Versions al - 1\<rparr>"

text \<open>Lines 145 to 195: every member has acknowledged.\<close>

definition finish_reclamation ::
  "cfg \<Rightarrow> ('v, doc) codec \<Rightarrow> string \<Rightarrow> storage_version \<Rightarrow> ('v, unit) txm" where
  "finish_reclamation cf cd i v =
     tx_bind (Get cd asProject (raftRef ''projects'' (v_ProjectID v))) (\<lambda>p.
     tx_bind (tx_guard (p_StorageApp p \<noteq> v_App v \<or> (v_ProjectDeleted v \<and> p_Status p \<noteq> ''deleted'')
         \<or> serves_version p v) ErrConflict) (\<lambda>_.
     tx_bind (Get cd asAllocation (raftRef ''storage_allocations'' (v_App v))) (\<lambda>al.
     tx_bind (tx_guard (\<not> version_sane v al \<or> a_AccountingBlockBytes al > max_offer_block) ErrStorage) (\<lambda>_.
     tx_bind (readQuota cf cd (p_Owner p)) (\<lambda>q.
     tx_bind (validated_throw (refund_of v al \<le> 0 \<or> a_Bytes al < refund_of v al \<or> a_Inodes al < v_Inodes v
         \<or> a_ContentBytes al < v_ContentBytes v \<or> a_Versions al < 1
         \<or> p_ChargedBytes p < v_QuotaBytes v \<or> q_ChargedBytes q < v_QuotaBytes v) ErrStorage) (\<lambda>_.
     let al1 = remove_version al v in
     tx_bind (validated_throw (a_LiveBytes al1 > a_ContentBytes al1) ErrStorage) (\<lambda>_.
     tx_bind (Set cd (raftRef ''storage_allocations'' (v_App v)) (DAllocation al1)) (\<lambda>_.
     tx_bind (Set cd (raftRef ''quotas'' (ownerKey cf (p_Owner p)))
         (DQuota (q\<lparr>q_ChargedBytes := q_ChargedBytes q - v_QuotaBytes v\<rparr>))) (\<lambda>_.
     tx_bind (raftTx_Set cf cd (raftRef ''projects'' (p_ID p))
         (DProject (p\<lparr>p_ChargedBytes := p_ChargedBytes p - v_QuotaBytes v\<rparr>))) (\<lambda>_.
     tx_bind (Delete (gc_key cf (v_App v) (v_ID v))) (\<lambda>_.
     Set cd (raftRef ''storage_versions'' i)
       (DVersion (v\<lparr>v_State := ''reclaimed'', v_RefundedAt := repo_now cf\<rparr>)))))))))))))"

definition AcknowledgeStorageReclamation ::
  "cfg \<Rightarrow> ('v, doc) codec \<Rightarrow> string \<Rightarrow> string \<Rightarrow> string \<Rightarrow> ('v, unit) txm" where
  "AcknowledgeStorageReclamation cf cd i epoch member =
     tx_bind (tx_guard (\<not> digestRE i \<or> \<not> digestRE epoch) ErrInvalid) (\<lambda>_.
     tx_bind (Get cd asVersion (raftRef ''storage_versions'' i)) (\<lambda>v.
     if v_State v = ''reclaimed'' then
       tx_guard (v_MembershipEpoch v \<noteq> epoch \<or> member \<notin> set (v_Members v)) ErrConflict
     else
       tx_bind (tx_guard (v_State v \<noteq> ''retiring'' \<or> v_MembershipEpoch v \<noteq> epoch \<or> member \<notin> set (v_Members v))
         ErrConflict) (\<lambda>_.
       let v1 = v\<lparr>v_Acknowledged := List.insert member (v_Acknowledged v)\<rparr> in
       if \<not> set (v_Members v1) \<subseteq> set (v_Acknowledged v1)
       then Set cd (raftRef ''storage_versions'' i) (DVersion v1)
       else finish_reclamation cf cd i v1)))"

section \<open>Effects\<close>

definition alloc_collections :: "string set" where
  "alloc_collections = {''storage_allocations'', ''storage_versions'', ''storage_operation_charges''}
     \<union> {c. has_prefix c ''storage_gc_''}"

lemma gc_alloc [simp]: "collection_of (gc_key cf app i) \<in> alloc_collections"
  using gc_storage[of cf app i] by (auto simp: alloc_collections_def storage_collections_def)

lemma alloc_names [simp]:
  "''storage_allocations'' \<in> alloc_collections" "''storage_versions'' \<in> alloc_collections"
  "''storage_operation_charges'' \<in> alloc_collections" "''projects'' \<notin> alloc_collections"
  "''operations'' \<notin> alloc_collections" "''slugs'' \<notin> alloc_collections" "''digests'' \<notin> alloc_collections"
  "''quotas'' \<notin> alloc_collections" "''owner_projects'' \<notin> alloc_collections"
  "''sessions'' \<notin> alloc_collections" "''transfers'' \<notin> alloc_collections" "''grants'' \<notin> alloc_collections"
  by (simp_all add: alloc_collections_def has_prefix_def)

definition allocating :: "('v, doc) codec \<Rightarrow> project \<Rightarrow> ('v, project) txm \<Rightarrow> bool" where
  "allocating cd p m \<longleftrightarrow> (\<forall>t p' u. m t = (Inr p', u) \<longrightarrow> (\<exists>app. p' = p\<lparr>p_StorageApp := app\<rparr>)
     \<and> tx_read u = tx_read t
     \<and> (good_env cd (tx_read t) \<longrightarrow> within alloc_collections (docs cd t) (docs cd u)))"

lemma replays_commit_measured [replay_intros]:
  "replays_all (commit_measured cf cd p r app generation i v al)"
  unfolding commit_measured_def by (intro replay_intros)

named_theorems allocating_intros

lemma allocating_throw [allocating_intros]: "allocating cd p (tx_throw e)"
  by (simp add: allocating_def)

lemma allocating_if [allocating_intros]:
  "(b \<Longrightarrow> allocating cd p m) \<Longrightarrow> (\<not> b \<Longrightarrow> allocating cd p n) \<Longrightarrow> allocating cd p (if b then m else n)"
  by simp

lemma allocating_sum [allocating_intros]:
  "(\<And>e. allocating cd p (m e)) \<Longrightarrow> (\<And>y. allocating cd p (n y)) \<Longrightarrow>
     allocating cd p (case s of Inl e \<Rightarrow> m e | Inr y \<Rightarrow> n y)"
  by (cases s) simp_all

lemma allocating_option [allocating_intros]:
  "allocating cd p m \<Longrightarrow> (\<And>y. allocating cd p (n y)) \<Longrightarrow>
     allocating cd p (case s of None \<Rightarrow> m | Some y \<Rightarrow> n y)"
  by (cases s) simp_all

lemma allocating_optional [allocating_intros]:
  assumes "\<And>x. allocating cd p (g x)"
  shows "allocating cd p (tx_bind (tx_optional (Get cd f k)) g)"
  unfolding allocating_def
proof (intro allI impI)
  fix t p' u
  assume "tx_bind (tx_optional (Get cd f k)) g t = (Inr p', u)"
  then obtain x v where v: "tx_optional (Get cd f k) t = (Inr x, v)" and g: "g x v = (Inr p', u)"
    by (rule tx_bind_InrE)
  from v have "cur v = cur t \<and> tx_read v = tx_read t" by (auto elim!: tx_elims)
  then show "(\<exists>app. p' = p\<lparr>p_StorageApp := app\<rparr>) \<and> tx_read u = tx_read t
     \<and> (good_env cd (tx_read t) \<longrightarrow> within alloc_collections (docs cd t) (docs cd u))"
    using assms[of x] g unfolding allocating_def by metis
qed

lemma allocating_commit [allocating_intros]:
  "allocating cd p (commit_measured cf cd p r app generation i v al)"
  unfolding commit_measured_def allocating_def
  by (intro allI impI, elim tx_elims) (auto simp: within_upd)

lemma allocating_set [allocating_intros]:
  "allocating cd p (tx_bind (Set cd (raftRef ''storage_allocations'' app) d)
     (\<lambda>_. tx_return (p\<lparr>p_StorageApp := app\<rparr>)))"
  unfolding allocating_def by (intro allI impI, elim tx_elims) (auto simp: within_upd)

lemma allocating_offers [allocating_intros]: "allocating cd p (allocate_offers cd p r offers)"
proof (induction offers)
  case (Cons offer rest)
  then show ?case unfolding allocate_offers.simps Let_def by (intro allocating_intros)
qed (simp add: allocating_def)

lemma allocating_measured [allocating_intros]: "allocating cd p (measured_offers cf cd m p r offers)"
proof (induction offers)
  case (Cons offer rest)
  then show ?case unfolding measured_offers.simps Let_def by (intro allocating_intros)
qed (simp add: allocating_def)

lemma replays_allocate_offers [replay_intros]: "replays_all (allocate_offers cd p r offers)"
proof (induction offers)
  case (Cons offer rest)
  then show ?case unfolding allocate_offers.simps Let_def by (intro replay_intros)
qed (unfold allocate_offers.simps, intro replay_intros)

lemma replays_measured_offers [replay_intros]: "replays_all (measured_offers cf cd m p r offers)"
proof (induction offers)
  case (Cons offer rest)
  then show ?case unfolding measured_offers.simps Let_def by (intro replay_intros)
qed (unfold measured_offers.simps, intro replay_intros)

lemma replays_allocateStorage [replay_intros]: "replays_all (allocateStorage cf cd p r)"
  unfolding allocateStorage_def allocateMeasuredStorage_def by (intro replay_intros)

lemma allocateStorage_InrE [tx_elims]:
  assumes "allocateStorage cf cd p r t = (Inr p', u)"
  obtains app where "p' = p\<lparr>p_StorageApp := app\<rparr>" "tx_read u = tx_read t"
    "good_env cd (tx_read t) \<Longrightarrow> within alloc_collections (docs cd t) (docs cd u)"
proof -
  consider "u = t" "p' = p"
    | offers where "allocate_offers cd p r offers t = (Inr p', u)"
    | m offers where "measured_offers cf cd m p r offers t = (Inr p', u)"
    using assms unfolding allocateStorage_def allocateMeasuredStorage_def
    by (auto simp del: tx_bind_app split: option.splits elim!: tx_bind_InrE tx_guard_InrE)
  then show ?thesis
  proof cases
    case 1
    then show ?thesis using that[of "p_StorageApp p"] by simp
  next
    case 2
    then show ?thesis using allocating_offers[of cd p r offers] that unfolding allocating_def by blast
  next
    case 3
    then show ?thesis using allocating_measured[of cd p cf m r offers] that unfolding allocating_def by blast
  qed
qed

end
