(* ===== verification/Project_Publish.thy ===== *)
theory Project_Publish
  imports Storage
begin

text \<open>
  The publication protocol (\<open>raft_rules.go\<close>): \<open>Reserve\<close> claims a slug, quota and storage and opens a
  pending operation, \<open>activate\<close> makes its content the project's active version, \<open>abort\<close> gives the
  reservation up. Each handler is the transaction body, with the checks the code makes before it
  opens the transaction as its first step.
\<close>

section \<open>Reserve\<close>

type_synonym prepared = "project \<times> operation"

definition tx_refuse :: "err option \<Rightarrow> ('v, unit) txm" where
  "tx_refuse e = (case e of None \<Rightarrow> tx_return () | Some x \<Rightarrow> tx_throw x)"

definition adjectives :: "string list" where
  "adjectives = [''quiet'', ''bright'', ''gentle'', ''bold'']"

definition nouns :: "string list" where
  "nouns = [''pine'', ''river'', ''cloud'', ''meadow'']"

definition default_name :: "string \<Rightarrow> string" where
  "default_name opID = adjectives ! (of_char (opID ! 0) mod 4) @ ''-'' @ nouns ! (of_char (opID ! 1) mod 4)
     @ ''-'' @ take 4 (drop 2 opID)"

definition ticket_allows :: "('v, doc) codec \<Rightarrow> actor \<Rightarrow> reservation \<Rightarrow> ('v, unit) txm" where
  "ticket_allows cd a r =
     (if u_UploadTicketDigest a \<noteq> [] then
        tx_bind (Get cd asTicket (raftRef ''agent_upload_tickets'' (u_UploadTicketDigest a))) (\<lambda>ticket.
        tx_guard (ut_ProjectID ticket \<noteq> rs_ProjectID r \<or> ut_Name ticket \<noteq> rs_Name r
            \<or> ut_Revision ticket \<noteq> rs_ExpectedRevision r \<or> rs_Key r \<noteq> u_UploadTicketDigest a) ErrForbidden)
      else tx_return ())"

text \<open>A repeated request finds its operation and returns it.\<close>

definition resume ::
  "cfg \<Rightarrow> ('v, doc) codec \<Rightarrow> actor \<Rightarrow> reservation \<Rightarrow> operation \<Rightarrow> ('v, prepared) txm" where
  "resume cf cd a r op =
     tx_bind (tx_guard (op_Fingerprint op \<noteq> reservation_hash cf r \<or> op_Owner op \<noteq> Owner a
         \<or> op_State op = ''aborted'') ErrConflict) (\<lambda>_.
     tx_bind (Get cd asProject (raftRef ''projects'' (op_ProjectID op))) (\<lambda>p.
     tx_bind (tx_guard (\<not> Owns a (p_Owner p) \<or> p_Status p = ''deleted'' \<or> expired p (repo_now cf))
         ErrNotFound) (\<lambda>_.
     tx_bind (tx_guard (op_State op \<noteq> ''complete'' \<and> \<not> repo_now cf < op_ExpiresAt op) ErrConflict) (\<lambda>_.
     tx_bind (checkStorageOperation cf cd p op) (\<lambda>_.
     tx_return (p, op))))))"

definition fresh_project :: "cfg \<Rightarrow> actor \<Rightarrow> string \<Rightarrow> project" where
  "fresh_project cf a opID = zero_project\<lparr>p_ID := take 32 opID, p_Owner := Owner a,
     p_OwnerKey := ownerKey cf (Owner a), p_CreatedAt := repo_now cf, p_PolicyRevision := 1,
     p_Status := ''reserved'',
     p_ExpiresAt := (if o_Kind (Owner a) = ''anonymous''
       then Some (repo_now cf + anonymousProjectLifetime) else None)\<rparr>"

definition new_project ::
  "cfg \<Rightarrow> ('v, doc) codec \<Rightarrow> actor \<Rightarrow> reservation \<Rightarrow> string \<Rightarrow> ('v, project) txm" where
  "new_project cf cd a r opID =
     (let name = (if rs_Name r = [] then default_name opID else rs_Name r); p = fresh_project cf a opID in
      tx_bind (tx_optional (Exists (raftRef ''projects'' (p_ID p)))) (\<lambda>found.
      tx_bind (tx_guard (found \<noteq> None) ErrConflict) (\<lambda>_.
      tx_bind (chooseSlug cd name (rs_Digest r) (p_ID p)) (\<lambda>(slug, suffix).
      tx_return (p\<lparr>p_Slug := slug, p_InitialSuffix := suffix\<rparr>)))))"

definition existing_project ::
  "cfg \<Rightarrow> ('v, doc) codec \<Rightarrow> actor \<Rightarrow> reservation \<Rightarrow> ('v, project) txm" where
  "existing_project cf cd a r =
     tx_bind (tx_missing ErrNotFound (Get cd asProject (raftRef ''projects'' (rs_ProjectID r)))) (\<lambda>p.
     tx_bind (tx_guard (\<not> Owns a (p_Owner p) \<or> \<not> Live p (repo_now cf)) ErrNotFound) (\<lambda>_.
     tx_bind (tx_guard (p_Revision p \<noteq> rs_ExpectedRevision r \<or> p_PendingOperation p \<noteq> []) ErrConflict) (\<lambda>_.
     tx_return p)))"

text \<open>The digest index refuses content that another live project serves or is publishing.\<close>

definition check_duplicate ::
  "cfg \<Rightarrow> ('v, doc) codec \<Rightarrow> actor \<Rightarrow> project \<Rightarrow> string \<Rightarrow> ('v, unit) txm" where
  "check_duplicate cf cd a p digest =
     tx_bind (tx_optional (Get cd asDigest (raftRef ''digests'' digest))) (\<lambda>found. case found of
       None \<Rightarrow> tx_return ()
     | Some idx \<Rightarrow>
         if d_ProjectID idx \<noteq> p_ID p then
           tx_bind (tx_optional (Get cd asProject (raftRef ''projects'' (d_ProjectID idx)))) (\<lambda>res. case res of
             None \<Rightarrow> tx_return ()
           | Some other \<Rightarrow>
               tx_bind (if Live other (repo_now cf) \<and> p_ActiveDigest other = digest
                 then tx_throw (if \<not> p_Private other \<or> Owns a (p_Owner other)
                                then Duplicate (p_Slug other) else ErrConflict)
                 else tx_return ()) (\<lambda>_.
               tx_guard (p_Status other \<noteq> ''deleted'' \<and> p_PendingOperation other = d_OperationID idx
                   \<and> \<not> expired other (repo_now cf)) ErrConflict))
         else tx_return ())"

definition new_operation ::
  "cfg \<Rightarrow> actor \<Rightarrow> reservation \<Rightarrow> string \<Rightarrow> project \<Rightarrow> bool \<Rightarrow> operation" where
  "new_operation cf a r opID p isNew = \<lparr>op_PublishedAt = 0, op_ID = opID,
     op_Fingerprint = reservation_hash cf r, op_Owner = Owner a, op_ProjectID = p_ID p,
     op_Digest = rs_Digest r, op_Bytes = rs_Bytes r, op_BaseRevision = p_Revision p, op_New = isNew,
     op_State = ''pending'', op_ExpiresAt = repo_now cf + 15 * minute, op_StorageGeneration = [],
     op_StorageVersionKey = []\<rparr>"

definition operation_storage ::
  "cfg \<Rightarrow> ('v, doc) codec \<Rightarrow> reservation \<Rightarrow> operation \<Rightarrow> ('v, operation) txm" where
  "operation_storage cf cd r op =
     (if cf_StorageOffers cf \<noteq> None \<and> rs_StorageManifest r \<noteq> None then
        tx_bind (Get cd asCharge (raftRef ''storage_operation_charges'' (op_ID op))) (\<lambda>c.
        tx_return (op\<lparr>op_StorageGeneration := oc_Generation c, op_StorageVersionKey := oc_VersionKey c\<rparr>))
      else tx_return op)"

text \<open>Lines 229 to 249: the writes of an accepted reservation. The quota sums stay below the byte
  limit, which is an int64, by the preceding \<open>fitsBytes\<close>.\<close>

definition reserve_writes ::
  "cfg \<Rightarrow> ('v, doc) codec \<Rightarrow> bool \<Rightarrow> project \<Rightarrow> quota \<Rightarrow> operation \<Rightarrow> ('v, prepared) txm" where
  "reserve_writes cf cd isNew p q op =
     (let p = p\<lparr>p_PendingOperation := op_ID op\<rparr> in
      tx_bind (if isNew then raftTx_Set cf cd (raftRef ''slugs'' (p_Slug p)) (DSlug (p_ID p)) else tx_return ()) (\<lambda>_.
      tx_bind (raftTx_Set cf cd (raftRef ''quotas'' (ownerKey cf (p_Owner p)))
        (DQuota (if isNew then q\<lparr>q_Count := q_Count q + 1\<rparr> else q))) (\<lambda>_.
      tx_bind (raftTx_Set cf cd (raftRef ''projects'' (p_ID p)) (DProject p)) (\<lambda>_.
      tx_bind (raftTx_Create cf cd (raftRef ''operations'' (op_ID op)) (DOperation op)) (\<lambda>_.
      tx_bind (raftTx_Set cf cd (raftRef ''digests'' (op_Digest op))
        (DDigest \<lparr>d_ProjectID = p_ID p, d_OperationID = op_ID op\<rparr>)) (\<lambda>_.
      tx_return (p, op)))))))"

definition open_reservation ::
  "cfg \<Rightarrow> ('v, doc) codec \<Rightarrow> actor \<Rightarrow> reservation \<Rightarrow> string \<Rightarrow> ('v, prepared) txm" where
  "open_reservation cf cd a r opID =
     (let isNew = (rs_ProjectID r = []) in
      tx_bind (if isNew then new_project cf cd a r opID else existing_project cf cd a r) (\<lambda>p.
      tx_bind (if cf_StorageOffers cf = None \<or> rs_StorageManifest r = None
               then checkNotRetired cf (p_ID p) (rs_Digest r) else tx_return ()) (\<lambda>_.
      tx_bind (check_duplicate cf cd a p (rs_Digest r)) (\<lambda>_.
      tx_bind (tx_optional (readQuota cf cd (p_Owner p))) (\<lambda>found.
      let q = quota_or_empty found; charge = versionCharge (rs_Bytes r) in
      tx_bind (tx_guard (isNew \<and> q_Count q \<ge> limit cf (p_Owner p)) ErrQuota) (\<lambda>_.
      tx_bind (tx_guard (\<not> isNew \<and> (p_ChargedBytes p \<le> 0 \<or> p_ChargedBytes p > q_ChargedBytes q)) ErrConflict) (\<lambda>_.
      tx_bind (tx_guard (\<not> fitsBytes (q_ChargedBytes q) charge (byteLimit cf (p_Owner p))) ErrQuota) (\<lambda>_.
      tx_bind (allocateStorage cf cd p r) (\<lambda>p.
      let q = q\<lparr>q_ChargedBytes := q_ChargedBytes q + charge\<rparr>;
          p = p\<lparr>p_ChargedBytes := p_ChargedBytes p + charge\<rparr> in
      tx_bind (operation_storage cf cd r (new_operation cf a r opID p isNew)) (\<lambda>op.
      tx_bind (checkStorageOperation cf cd p op) (\<lambda>_.
      reserve_writes cf cd isNew p q op)))))))))))"

definition Reserve :: "cfg \<Rightarrow> ('v, doc) codec \<Rightarrow> actor \<Rightarrow> reservation \<Rightarrow> ('v, prepared) txm" where
  "Reserve cf cd a r0 =
     tx_bind (tx_refuse (validateReservation r0)) (\<lambda>_.
     tx_bind (tx_guard (u_AgentKeyDigest a \<noteq> [] \<and> rs_ProjectID r0 \<noteq> []) ErrForbidden) (\<lambda>_.
     let opID = operationID cf a (rs_Key r0); r = r0\<lparr>rs_StorageOperationID := opID\<rparr> in
     tx_bind (authorizePublish cf cd a) (\<lambda>_.
     tx_bind (ticket_allows cd a r) (\<lambda>_.
     tx_bind (tx_optional (Get cd asOperation (raftRef ''operations'' opID))) (\<lambda>found.
     case found of
       Some op \<Rightarrow> resume cf cd a r op
     | None \<Rightarrow> open_reservation cf cd a r opID)))))"

section \<open>Activate\<close>

text \<open>Lines 311 to 329: the operation still holds its digest; the digest of the version that stops
  being active is released.\<close>

definition move_digest :: "('v, doc) codec \<Rightarrow> project \<Rightarrow> operation \<Rightarrow> ('v, unit) txm" where
  "move_digest cd p op =
     tx_bind (Get cd asDigest (raftRef ''digests'' (op_Digest op))) (\<lambda>idx.
     tx_bind (tx_guard (d_ProjectID idx \<noteq> p_ID p \<or> d_OperationID idx \<noteq> op_ID op) ErrConflict) (\<lambda>_.
     tx_bind (if p_ActiveDigest p \<noteq> [] \<and> p_ActiveDigest p \<noteq> op_Digest op
              then tx_optional (Get cd asDigest (raftRef ''digests'' (p_ActiveDigest p)))
              else tx_return None) (\<lambda>found.
     let old = (case found of None \<Rightarrow> zero_digest | Some d \<Rightarrow> d) in
     if d_ProjectID old = p_ID p then Delete (raftRef ''digests'' (p_ActiveDigest p)) else tx_return ())))"

definition activated :: "cfg \<Rightarrow> project \<Rightarrow> operation \<Rightarrow> string \<Rightarrow> int \<Rightarrow> project" where
  "activated cf p op passwordDigest passwordRevision =
     (let p1 = p\<lparr>p_ActiveDigest := op_Digest op, p_ActiveBytes := op_Bytes op, p_Status := ''active'',
            p_PendingOperation := [], p_StorageGeneration := op_StorageGeneration op\<rparr>;
          p2 = (if passwordDigest \<noteq> [] then p1\<lparr>p_Private := True, p_PasswordDigest := passwordDigest,
            p_PasswordRevision := passwordRevision, p_PolicyRevision := inc64 (p_PolicyRevision p1)\<rparr> else p1);
          p3 = (if op_New op then
            (let n = p2\<lparr>p_CreatedAt := repo_now cf\<rparr> in
             if o_Kind (p_Owner n) = ''anonymous''
             then n\<lparr>p_ExpiresAt := Some (p_CreatedAt n + anonymousProjectLifetime)\<rparr> else n) else p2)
      in p3\<lparr>p_Revision := inc64 (p_Revision p3), p_UpdatedAt := repo_now cf\<rparr>)"

definition finish_ticket :: "cfg \<Rightarrow> ('v, doc) codec \<Rightarrow> actor \<Rightarrow> project \<Rightarrow> ('v, unit) txm" where
  "finish_ticket cf cd a p =
     (if u_UploadTicketDigest a \<noteq> [] then
        tx_bind (Get cd asTicket (raftRef ''agent_upload_tickets'' (u_UploadTicketDigest a))) (\<lambda>ticket.
        raftTx_Set cf cd (raftRef ''agent_upload_tickets'' (u_UploadTicketDigest a))
          (DTicket (ticket\<lparr>ut_Result := Some p, ut_Password := [], ut_Lease := [], ut_LeaseUntil := 0\<rparr>)))
      else tx_return ())"

definition activate ::
  "cfg \<Rightarrow> ('v, doc) codec \<Rightarrow> actor \<Rightarrow> string \<Rightarrow> string \<Rightarrow> int \<Rightarrow> ('v, project) txm" where
  "activate cf cd a opID passwordDigest passwordRevision =
     tx_bind (tx_guard (\<not> digestRE opID) ErrInvalid) (\<lambda>_.
     tx_bind (authorizePublish cf cd a) (\<lambda>_.
     tx_bind (tx_missing ErrNotFound (Get cd asOperation (raftRef ''operations'' opID))) (\<lambda>op.
     tx_bind (tx_guard (op_Owner op \<noteq> Owner a) ErrNotFound) (\<lambda>_.
     tx_bind (Get cd asProject (raftRef ''projects'' (op_ProjectID op))) (\<lambda>p.
     tx_bind (tx_guard (\<not> Owns a (p_Owner p) \<or> p_Status p = ''deleted'' \<or> expired p (repo_now cf))
         ErrNotFound) (\<lambda>_.
     tx_bind (checkStorageOperation cf cd p op) (\<lambda>_.
     if op_State op = ''complete'' then
       tx_bind (tx_guard (passwordDigest \<noteq> [] \<and> \<not> p_Private p) ErrConflict) (\<lambda>_. tx_return p)
     else
       tx_bind (tx_guard (op_State op \<noteq> ''pending'' \<or> \<not> repo_now cf < op_ExpiresAt op
           \<or> p_PendingOperation p \<noteq> op_ID op \<or> p_Revision p \<noteq> op_BaseRevision op) ErrConflict) (\<lambda>_.
       tx_bind (tx_guard (passwordDigest \<noteq> [] \<and> (\<not> op_New op \<or> p_PolicyRevision p = max_int64
           \<or> passwordRevision \<noteq> p_PolicyRevision p + 1)) ErrConflict) (\<lambda>_.
       tx_bind (move_digest cd p op) (\<lambda>_.
       let p' = activated cf p op passwordDigest passwordRevision;
           op' = op\<lparr>op_State := ''complete'', op_PublishedAt := repo_now cf\<rparr> in
       tx_bind (finish_ticket cf cd a p') (\<lambda>_.
       tx_bind (raftTx_Set cf cd (raftRef ''operations'' opID) (DOperation op')) (\<lambda>_.
       tx_bind (raftTx_Set cf cd (raftRef ''digests'' (op_Digest op))
         (DDigest \<lparr>d_ProjectID = p_ID p, d_OperationID = []\<rparr>)) (\<lambda>_.
       tx_bind (raftTx_Set cf cd (raftRef ''projects'' (p_ID p)) (DProject p')) (\<lambda>_.
       tx_return p'))))))))))))))"

definition Activate :: "cfg \<Rightarrow> ('v, doc) codec \<Rightarrow> actor \<Rightarrow> string \<Rightarrow> ('v, project) txm" where
  "Activate cf cd a opID = activate cf cd a opID [] 0"

definition ActivatePrivate ::
  "cfg \<Rightarrow> ('v, doc) codec \<Rightarrow> actor \<Rightarrow> string \<Rightarrow> string \<Rightarrow> int \<Rightarrow> ('v, project) txm" where
  "ActivatePrivate cf cd a opID digest passwordRevision =
     tx_bind (tx_guard (\<not> digestRE digest \<or> passwordRevision < 2) ErrInvalid) (\<lambda>_.
     activate cf cd a opID digest passwordRevision)"

section \<open>Abort\<close>

text \<open>\<open>abort\<close> with an actor is the owner's abort; without one (\<open>None\<close>) and \<open>expiredOnly\<close> it is the
  cleanup of an operation that timed out.\<close>

definition release_digest :: "cfg \<Rightarrow> ('v, doc) codec \<Rightarrow> project \<Rightarrow> operation \<Rightarrow> digest_record \<Rightarrow> ('v, unit) txm" where
  "release_digest cf cd p op idx =
     (if d_ProjectID idx = p_ID p \<and> d_OperationID idx = op_ID op then
        (if p_ActiveDigest p = op_Digest op
         then raftTx_Set cf cd (raftRef ''digests'' (op_Digest op)) (DDigest \<lparr>d_ProjectID = p_ID p, d_OperationID = []\<rparr>)
         else Delete (raftRef ''digests'' (op_Digest op)))
      else tx_return ())"

definition abort :: "cfg \<Rightarrow> ('v, doc) codec \<Rightarrow> actor option \<Rightarrow> string \<Rightarrow> bool \<Rightarrow> ('v, unit) txm" where
  "abort cf cd a opID expiredOnly =
     tx_bind (tx_guard (\<not> digestRE opID) ErrInvalid) (\<lambda>_.
     tx_bind (if expiredOnly then tx_return () else
       (case a of None \<Rightarrow> tx_throw ErrForbidden | Some u \<Rightarrow> authorizePublish cf cd u)) (\<lambda>_.
     tx_bind (tx_missing ErrNotFound (Get cd asOperation (raftRef ''operations'' opID))) (\<lambda>op.
     tx_bind (tx_guard (\<not> expiredOnly \<and> op_Owner op \<noteq> Owner (the a)) ErrNotFound) (\<lambda>_.
     if op_State op \<noteq> ''pending'' then tx_return ()
     else if expiredOnly \<and> repo_now cf < op_ExpiresAt op then tx_return ()
     else
       tx_bind (Get cd asProject (raftRef ''projects'' (op_ProjectID op))) (\<lambda>p.
       tx_bind (tx_guard ((\<not> expiredOnly \<and> \<not> Owns (the a) (p_Owner p)) \<or> p_PendingOperation p \<noteq> op_ID op)
         ErrConflict) (\<lambda>_.
       tx_bind (tx_optional (Get cd asDigest (raftRef ''digests'' (op_Digest op)))) (\<lambda>idx.
       tx_bind (readQuota cf cd (p_Owner p)) (\<lambda>q.
       tx_bind (release_digest cf cd p op (case idx of None \<Rightarrow> zero_digest | Some d \<Rightarrow> d)) (\<lambda>_.
       let p' = p\<lparr>p_PendingOperation := []\<rparr>; op' = op\<lparr>op_State := ''aborted''\<rparr> in
       tx_bind (if op_New op then
           tx_bind (tx_guard (q_Count q \<le> 0) ErrConflict) (\<lambda>_.
           tx_bind (raftTx_Set cf cd (raftRef ''quotas'' (ownerKey cf (p_Owner p)))
             (DQuota (q\<lparr>q_Count := q_Count q - 1\<rparr>))) (\<lambda>_.
           tx_bind (Delete (raftRef ''slugs'' (p_Slug p))) (\<lambda>_.
           tx_return (p'\<lparr>p_Status := ''deleted''\<rparr>))))
         else tx_return p') (\<lambda>p''.
       tx_bind (raftTx_Set cf cd (raftRef ''projects'' (p_ID p'')) (DProject p'')) (\<lambda>_.
       raftTx_Set cf cd (raftRef ''operations'' opID) (DOperation op'))))))))))))"

definition Abort :: "cfg \<Rightarrow> ('v, doc) codec \<Rightarrow> actor \<Rightarrow> string \<Rightarrow> ('v, unit) txm" where
  "Abort cf cd a opID = abort cf cd (Some a) opID False"

end
