(* ===== verification/Project_Manage.thy ===== *)
theory Project_Manage
  imports Project_Publish
begin

text \<open>
  The owner's operations on existing projects (\<open>raft_rules.go\<close>, \<open>raft.go\<close>, \<open>transfer.go\<close>,
  \<open>watermark.go\<close>, \<open>revisions.go\<close>): lookup, listing, claiming and transferring to an account,
  deletion, renaming, privacy, watermark and revision history; and the expiry of anonymous projects
  (\<open>raft_maintenance.go\<close>).
\<close>

section \<open>Lookup\<close>

definition Resolve :: "cfg \<Rightarrow> ('v, doc) codec \<Rightarrow> string \<Rightarrow> ('v, project) txm" where
  "Resolve cf cd slug =
     tx_bind (tx_guard (\<not> slugRE slug) ErrNotFound) (\<lambda>_.
     tx_bind (tx_missing ErrNotFound (Get cd asSlug (raftRef ''slugs'' slug))) (\<lambda>pid.
     tx_bind (tx_missing ErrNotFound (Get cd asProject (raftRef ''projects'' pid))) (\<lambda>p.
     tx_bind (tx_guard (\<not> Live p (repo_now cf)) ErrNotFound) (\<lambda>_.
     tx_return p))))"

text \<open>The opening of every owner operation: the actor is authorized, and the project exists, is the
  actor's and is live.\<close>

definition revisionProject :: "cfg \<Rightarrow> ('v, doc) codec \<Rightarrow> actor \<Rightarrow> string \<Rightarrow> ('v, project) txm" where
  "revisionProject cf cd a i =
     tx_bind (authorize cf cd a) (\<lambda>_.
     tx_bind (tx_missing ErrNotFound (Get cd asProject (raftRef ''projects'' i))) (\<lambda>p.
     tx_bind (tx_guard (\<not> Owns a (p_Owner p) \<or> \<not> Live p (repo_now cf)) ErrNotFound) (\<lambda>_.
     tx_return p)))"

definition GetOwned :: "cfg \<Rightarrow> ('v, doc) codec \<Rightarrow> actor \<Rightarrow> string \<Rightarrow> ('v, project) txm" where
  "GetOwned cf cd a i = tx_bind (tx_guard (\<not> idRE i) ErrNotFound) (\<lambda>_. revisionProject cf cd a i)"

fun owned_ids :: "cfg \<Rightarrow> ('v, doc) codec \<Rightarrow> string \<Rightarrow> owner list \<Rightarrow> ('v, string list) txm" where
  "owned_ids cf cd cursor [] = tx_return []"
| "owned_ids cf cd cursor (o' # os) =
     tx_bind (tx_optional (Get cd asTexts (raftRef ''owner_projects'' (ownerKey cf o')))) (\<lambda>found.
     tx_bind (owned_ids cf cd cursor os) (\<lambda>rest.
     tx_return (filter (\<lambda>i. cursor < i) (case found of None \<Rightarrow> [] | Some ids \<Rightarrow> ids) @ rest)))"

fun owned_projects :: "cfg \<Rightarrow> ('v, doc) codec \<Rightarrow> actor \<Rightarrow> string list \<Rightarrow> ('v, project list) txm" where
  "owned_projects cf cd a [] = tx_return []"
| "owned_projects cf cd a (i # is) =
     tx_bind (Get cd asProject (raftRef ''projects'' i)) (\<lambda>p.
     tx_bind (owned_projects cf cd a is) (\<lambda>rest.
     tx_return (if Live p (repo_now cf) \<and> Owns a (p_Owner p) then p # rest else rest)))"

definition actor_owners :: "actor \<Rightarrow> owner list" where
  "actor_owners a = (if u_AnonymousID a \<noteq> [] then [\<lparr>o_Kind = ''anonymous'', o_ID = u_AnonymousID a\<rparr>] else [])
     @ (if u_UID a \<noteq> [] then [\<lparr>o_Kind = ''firebase'', o_ID = u_UID a\<rparr>] else [])"

definition ListOwned ::
  "cfg \<Rightarrow> ('v, doc) codec \<Rightarrow> actor \<Rightarrow> string \<Rightarrow> nat \<Rightarrow> ('v, project list \<times> string) txm" where
  "ListOwned cf cd a cursor lim =
     tx_bind (tx_guard (lim < 1 \<or> lim > 100 \<or> (cursor \<noteq> [] \<and> \<not> idRE cursor)) ErrInvalid) (\<lambda>_.
     tx_bind (authorize cf cd a) (\<lambda>_.
     tx_bind (owned_ids cf cd cursor (actor_owners a)) (\<lambda>ids.
     let ordered = sort (remdups ids); page = take lim ordered in
     tx_bind (owned_projects cf cd a page) (\<lambda>result.
     tx_return (result, if length ordered > lim then last page else [])))))"

section \<open>Ownership\<close>

definition clearTransfer :: "string \<Rightarrow> ('v, unit) txm" where
  "clearTransfer i = (let key = raftRef ''transfers'' i in
     tx_bind (tx_optional (Exists key)) (\<lambda>found. if found = None then tx_return () else Delete key))"

definition moveToAccount :: "cfg \<Rightarrow> ('v, doc) codec \<Rightarrow> project \<Rightarrow> string \<Rightarrow> ('v, project) txm" where
  "moveToAccount cf cd p uid =
     (let newOwner = \<lparr>o_Kind = ''firebase'', o_ID = uid\<rparr> in
      tx_bind (readQuota cf cd (p_Owner p)) (\<lambda>oldQuota.
      tx_bind (tx_optional (readQuota cf cd newOwner)) (\<lambda>found.
      let newQuota = quota_or_empty found in
      tx_bind (tx_guard (q_Count newQuota \<ge> limit cf newOwner) ErrQuota) (\<lambda>_.
      tx_bind (tx_guard (q_Count oldQuota < 1 \<or> p_ChargedBytes p \<le> 0
          \<or> p_ChargedBytes p > q_ChargedBytes oldQuota) ErrConflict) (\<lambda>_.
      tx_bind (tx_guard (\<not> fitsBytes (q_ChargedBytes newQuota) (p_ChargedBytes p) (byteLimit cf newOwner))
        ErrQuota) (\<lambda>_.
      tx_bind (raftTx_Set cf cd (raftRef ''quotas'' (ownerKey cf (p_Owner p)))
        (DQuota (oldQuota\<lparr>q_Count := q_Count oldQuota - 1,
           q_ChargedBytes := q_ChargedBytes oldQuota - p_ChargedBytes p\<rparr>))) (\<lambda>_.
      tx_bind (raftTx_Set cf cd (raftRef ''quotas'' (ownerKey cf newOwner))
        (DQuota (newQuota\<lparr>q_Count := q_Count newQuota + 1,
           q_ChargedBytes := q_ChargedBytes newQuota + p_ChargedBytes p\<rparr>))) (\<lambda>_.
      let p' = p\<lparr>p_Owner := newOwner, p_ExpiresAt := None, p_OwnerKey := ownerKey cf newOwner,
                 p_Revision := inc64 (p_Revision p)\<rparr> in
      tx_bind (raftTx_Set cf cd (raftRef ''projects'' (p_ID p')) (DProject p')) (\<lambda>_.
      tx_return p')))))))))"

definition Claim :: "cfg \<Rightarrow> ('v, doc) codec \<Rightarrow> actor \<Rightarrow> string \<Rightarrow> int \<Rightarrow> ('v, project) txm" where
  "Claim cf cd a i revision =
     tx_bind (tx_guard (\<not> idRE i \<or> revision < 1) ErrInvalid) (\<lambda>_.
     tx_bind (tx_guard (u_UID a = []) ErrForbidden) (\<lambda>_.
     tx_bind (revisionProject cf cd a i) (\<lambda>p.
     tx_bind (tx_guard (p_Revision p \<noteq> revision \<or> p_PendingOperation p \<noteq> []) ErrConflict) (\<lambda>_.
     if o_Kind (p_Owner p) = ''firebase'' then tx_return p
     else
       tx_bind (moveToAccount cf cd p (u_UID a)) (\<lambda>p'.
       tx_bind (clearTransfer i) (\<lambda>_.
       tx_return p'))))))"

definition transferLifetime :: int where "transferLifetime = 24 * hour"

definition transferParts :: "cfg \<Rightarrow> string \<Rightarrow> (string \<times> string) option" where
  "transferParts cf token = (case cut (CHR ''.'') token of (i, secret, ok) \<Rightarrow>
     if \<not> ok \<or> \<not> idRE i \<or> \<not> base64url32 secret then None else Some (i, cf_sha cf token))"

text \<open>\<open>CreateTransfer\<close> with the token's random part as an argument.\<close>

definition CreateTransfer ::
  "cfg \<Rightarrow> ('v, doc) codec \<Rightarrow> actor \<Rightarrow> string \<Rightarrow> int \<Rightarrow> string \<Rightarrow> ('v, string \<times> time) txm" where
  "CreateTransfer cf cd a i revision secret =
     tx_bind (tx_guard (\<not> idRE i \<or> revision < 1) ErrInvalid) (\<lambda>_.
     let token = i @ ''.'' @ secret;
         digest = (case transferParts cf token of None \<Rightarrow> [] | Some (_, d) \<Rightarrow> d);
         expires = repo_now cf + transferLifetime in
     tx_bind (revisionProject cf cd a i) (\<lambda>p.
     tx_bind (tx_guard (o_Kind (p_Owner p) \<noteq> ''anonymous'') ErrNotFound) (\<lambda>_.
     tx_bind (tx_guard (p_Revision p \<noteq> revision \<or> p_PendingOperation p \<noteq> []) ErrConflict) (\<lambda>_.
     tx_bind (raftTx_Set cf cd (raftRef ''transfers'' i) (DTransfer \<lparr>tr_ProjectID = i,
         tr_Owner = p_Owner p, tr_Digest = digest, tr_ExpiresAt = expires\<rparr>)) (\<lambda>_.
     tx_return (token, expires))))))"

definition RevokeTransfer :: "cfg \<Rightarrow> ('v, doc) codec \<Rightarrow> actor \<Rightarrow> string \<Rightarrow> int \<Rightarrow> ('v, unit) txm" where
  "RevokeTransfer cf cd a i revision =
     tx_bind (tx_guard (\<not> idRE i \<or> revision < 1) ErrInvalid) (\<lambda>_.
     tx_bind (revisionProject cf cd a i) (\<lambda>p.
     tx_bind (tx_guard (o_Kind (p_Owner p) \<noteq> ''anonymous'') ErrNotFound) (\<lambda>_.
     tx_bind (tx_guard (p_Revision p \<noteq> revision) ErrConflict) (\<lambda>_.
     clearTransfer i))))"

definition RedeemTransfer :: "cfg \<Rightarrow> ('v, doc) codec \<Rightarrow> actor \<Rightarrow> string \<Rightarrow> ('v, project) txm" where
  "RedeemTransfer cf cd a token = (case transferParts cf token of
     None \<Rightarrow> tx_throw ErrNotFound
   | Some (i, digest) \<Rightarrow>
       tx_bind (tx_guard (u_UID a = []) ErrForbidden) (\<lambda>_.
       tx_bind (authorize cf cd a) (\<lambda>_.
       tx_bind (tx_missing ErrNotFound (Get cd asTransfer (raftRef ''transfers'' i))) (\<lambda>r.
       tx_bind (tx_guard (tr_ProjectID r \<noteq> i \<or> tr_Digest r \<noteq> digest \<or> \<not> repo_now cf < tr_ExpiresAt r)
         ErrNotFound) (\<lambda>_.
       tx_bind (tx_missing ErrNotFound (Get cd asProject (raftRef ''projects'' i))) (\<lambda>p.
       tx_bind (tx_guard (\<not> Live p (repo_now cf) \<or> p_Owner p \<noteq> tr_Owner r
           \<or> o_Kind (p_Owner p) \<noteq> ''anonymous'' \<or> p_PendingOperation p \<noteq> []) ErrNotFound) (\<lambda>_.
       tx_bind (moveToAccount cf cd p (u_UID a)) (\<lambda>p'.
       tx_bind (Delete (raftRef ''transfers'' i)) (\<lambda>_.
       tx_return p')))))))))"

section \<open>Deletion\<close>

text \<open>Deleted projects keep their charged bytes until reclamation; the slug record stays as a
  tombstone that \<open>slugOwner\<close> ignores.\<close>

definition tombstoned :: "project \<Rightarrow> project" where
  "tombstoned p = p\<lparr>p_Status := ''deleted'', p_Revision := inc64 (p_Revision p),
     p_PolicyRevision := inc64 (p_PolicyRevision p)\<rparr>"

definition drop_digest :: "project \<Rightarrow> digest_record option \<Rightarrow> ('v, unit) txm" where
  "drop_digest p found =
     (let idx = (case found of None \<Rightarrow> zero_digest | Some d \<Rightarrow> d) in
      if d_ProjectID idx = p_ID p then Delete (raftRef ''digests'' (p_ActiveDigest p)) else tx_return ())"

definition Tombstone :: "cfg \<Rightarrow> ('v, doc) codec \<Rightarrow> actor \<Rightarrow> string \<Rightarrow> int \<Rightarrow> ('v, unit) txm" where
  "Tombstone cf cd a i revision =
     tx_bind (tx_guard (\<not> idRE i \<or> revision < 1) ErrInvalid) (\<lambda>_.
     tx_bind (authorize cf cd a) (\<lambda>_.
     tx_bind (tx_missing ErrNotFound (Get cd asProject (raftRef ''projects'' i))) (\<lambda>p.
     tx_bind (tx_guard (\<not> Owns a (p_Owner p)) ErrNotFound) (\<lambda>_.
     if p_Status p = ''deleted'' then tx_return ()
     else
       tx_bind (tx_guard (p_Revision p \<noteq> revision \<or> p_PendingOperation p \<noteq> []) ErrConflict) (\<lambda>_.
       tx_bind (readQuota cf cd (p_Owner p)) (\<lambda>q.
       tx_bind (tx_optional (Get cd asDigest (raftRef ''digests'' (p_ActiveDigest p)))) (\<lambda>found.
       tx_bind (drop_digest p found) (\<lambda>_.
       tx_bind (tx_guard (q_Count q \<le> 0) ErrConflict) (\<lambda>_.
       tx_bind (raftTx_Set cf cd (raftRef ''quotas'' (ownerKey cf (p_Owner p)))
         (DQuota (q\<lparr>q_Count := q_Count q - 1\<rparr>))) (\<lambda>_.
       tx_bind (clearTransfer i) (\<lambda>_.
       raftTx_Set cf cd (raftRef ''projects'' i) (DProject (tombstoned p)))))))))))))"

definition expireProject :: "cfg \<Rightarrow> ('v, doc) codec \<Rightarrow> string \<Rightarrow> ('v, unit) txm" where
  "expireProject cf cd i =
     tx_bind (tx_guard (\<not> idRE i) ErrInvalid) (\<lambda>_.
     tx_bind (tx_optional (Get cd asProject (raftRef ''projects'' i))) (\<lambda>res. case res of
       None \<Rightarrow> tx_return ()
     | Some p \<Rightarrow>
         if p_Status p \<noteq> ''active'' \<or> o_Kind (p_Owner p) \<noteq> ''anonymous'' \<or> \<not> expired p (repo_now cf)
            \<or> p_PendingOperation p \<noteq> [] then tx_return ()
         else
           tx_bind (readQuota cf cd (p_Owner p)) (\<lambda>q.
           tx_bind (tx_optional (Get cd asDigest (raftRef ''digests'' (p_ActiveDigest p)))) (\<lambda>found.
           tx_bind (tx_guard (q_Count q \<le> 0) ErrConflict) (\<lambda>_.
           tx_bind (drop_digest p found) (\<lambda>_.
           tx_bind (raftTx_Set cf cd (raftRef ''quotas'' (ownerKey cf (p_Owner p)))
             (DQuota (q\<lparr>q_Count := q_Count q - 1\<rparr>))) (\<lambda>_.
           raftTx_Set cf cd (raftRef ''projects'' i) (DProject (tombstoned p)))))))))"

section \<open>Names and policy\<close>

definition rename_seed :: "cfg \<Rightarrow> project \<Rightarrow> string" where
  "rename_seed cf p = (if p_InitialSuffix p \<noteq> [] then p_InitialSuffix p @ cf_hash cf (HString (p_ID p))
     else p_ActiveDigest p)"

definition renamed :: "project \<Rightarrow> string \<Rightarrow> string \<Rightarrow> bool \<Rightarrow> project" where
  "renamed p slug suffix newAlias =
     p\<lparr>p_InitialSlug := (if p_InitialSlug p = [] then p_Slug p else p_InitialSlug p), p_Slug := slug,
       p_InitialSuffix := suffix, p_Revision := inc64 (p_Revision p),
       p_PolicyRevision := inc64 (p_PolicyRevision p),
       p_AliasCount := (if newAlias then inc64 (p_AliasCount p) else p_AliasCount p)\<rparr>"

text \<open>Whether the chosen slug is new for the project: no record, or one that belongs to a deleted
  project.\<close>

definition alias_is_new :: "('v, doc) codec \<Rightarrow> string \<Rightarrow> string \<Rightarrow> ('v, bool) txm" where
  "alias_is_new cd i slug =
     tx_bind (tx_optional (Get cd asSlug (raftRef ''slugs'' slug))) (\<lambda>alias. case alias of
       None \<Rightarrow> tx_return True
     | Some pid \<Rightarrow>
         if pid \<noteq> i then
           tx_bind (slugOwner cd slug) (\<lambda>owner.
           tx_bind (tx_guard (owner \<noteq> []) ErrConflict) (\<lambda>_. tx_return True))
         else tx_return False)"

definition Rename :: "cfg \<Rightarrow> ('v, doc) codec \<Rightarrow> actor \<Rightarrow> string \<Rightarrow> string \<Rightarrow> int \<Rightarrow> ('v, project) txm" where
  "Rename cf cd a i name revision =
     tx_bind (tx_guard (\<not> idRE i \<or> \<not> nameRE name \<or> revision < 1) ErrInvalid) (\<lambda>_.
     tx_bind (revisionProject cf cd a i) (\<lambda>p.
     tx_bind (tx_guard (p_Revision p \<noteq> revision \<or> p_PendingOperation p \<noteq> []) ErrConflict) (\<lambda>_.
     tx_bind (chooseSlug cd name (rename_seed cf p) i) (\<lambda>(slug, suffix).
     if slug = p_Slug p then tx_return p
     else
       tx_bind (alias_is_new cd i slug) (\<lambda>newAlias.
       tx_bind (tx_guard (newAlias \<and> p_AliasCount p \<ge> 100) ErrQuota) (\<lambda>_.
       let p' = renamed p slug suffix newAlias in
       tx_bind (if newAlias then raftTx_Set cf cd (raftRef ''slugs'' slug) (DSlug i) else tx_return ()) (\<lambda>_.
       tx_bind (raftTx_Set cf cd (raftRef ''projects'' i) (DProject p')) (\<lambda>_.
       tx_return p'))))))))"

definition SetPrivacy ::
  "cfg \<Rightarrow> ('v, doc) codec \<Rightarrow> actor \<Rightarrow> string \<Rightarrow> int \<Rightarrow> string \<Rightarrow> int \<Rightarrow> ('v, project) txm" where
  "SetPrivacy cf cd a i revision digest passwordRevision =
     tx_bind (tx_guard (\<not> idRE i \<or> revision < 1 \<or> (digest \<noteq> [] \<and> (\<not> digestRE digest \<or> passwordRevision < 1))
         \<or> (digest = [] \<and> passwordRevision \<noteq> 0)) ErrInvalid) (\<lambda>_.
     tx_bind (revisionProject cf cd a i) (\<lambda>p.
     tx_bind (tx_guard (p_Revision p \<noteq> revision \<or> p_PendingOperation p \<noteq> [] \<or> p_PolicyRevision p = max_int64)
       ErrConflict) (\<lambda>_.
     tx_bind (tx_guard (digest \<noteq> [] \<and> passwordRevision \<noteq> p_PolicyRevision p + 1) ErrConflict) (\<lambda>_.
     let p' = p\<lparr>p_Private := digest \<noteq> [], p_PasswordDigest := digest, p_PasswordRevision := passwordRevision,
                p_Revision := inc64 (p_Revision p), p_PolicyRevision := inc64 (p_PolicyRevision p)\<rparr> in
     tx_bind (raftTx_Set cf cd (raftRef ''projects'' i) (DProject p')) (\<lambda>_.
     tx_return p')))))"

definition SetWatermark ::
  "cfg \<Rightarrow> ('v, doc) codec \<Rightarrow> actor \<Rightarrow> string \<Rightarrow> int \<Rightarrow> bool \<Rightarrow> ('v, project) txm" where
  "SetWatermark cf cd a i revision enabled =
     tx_bind (tx_guard (\<not> idRE i \<or> revision < 1) ErrInvalid) (\<lambda>_.
     tx_bind (revisionProject cf cd a i) (\<lambda>p.
     tx_bind (tx_guard (p_Revision p \<noteq> revision \<or> p_PendingOperation p \<noteq> [] \<or> p_Revision p = max_int64)
       ErrConflict) (\<lambda>_.
     if p_WatermarkDisabled p = (\<not> enabled) then tx_return p
     else let p' = p\<lparr>p_WatermarkDisabled := \<not> enabled, p_Revision := inc64 (p_Revision p),
                     p_UpdatedAt := repo_now cf\<rparr> in
       tx_bind (raftTx_Set cf cd (raftRef ''projects'' i) (DProject p')) (\<lambda>_.
       tx_return p'))))"

section \<open>Revisions\<close>

record revision =
  rv_ID :: string
  rv_Digest :: string
  rv_Bytes :: int
  rv_CreatedAt :: time
  rv_Active :: bool

definition availableRevision ::
  "cfg \<Rightarrow> ('v, doc) codec \<Rightarrow> project \<Rightarrow> string \<Rightarrow> ('v, operation) txm" where
  "availableRevision cf cd p i =
     tx_bind (tx_missing ErrNotFound (Get cd asOperation (raftRef ''operations'' i))) (\<lambda>op.
     tx_bind (tx_guard (op_ID op \<noteq> i \<or> op_ProjectID op \<noteq> p_ID p \<or> op_State op \<noteq> ''complete'') ErrNotFound) (\<lambda>_.
     tx_bind (tx_optional (Exists (raftRef ''revision_removals'' (revisionIdentity cf op)))) (\<lambda>removed.
     tx_bind (tx_guard (removed \<noteq> None) ErrNotFound) (\<lambda>_.
     tx_bind (if p_StorageApp p \<noteq> [] \<and> op_StorageVersionKey op \<noteq> [] then
         tx_bind (Get cd asVersion (raftRef ''storage_versions'' (op_StorageVersionKey op))) (\<lambda>v.
         tx_guard (v_ID v \<noteq> revisionIdentity cf op \<or> op_StorageVersionKey op \<noteq> v_ID v \<or> v_ProjectID v \<noteq> p_ID p
           \<or> v_Digest v \<noteq> op_Digest op \<or> v_Generation v \<noteq> op_StorageGeneration op \<or> v_App v \<noteq> p_StorageApp p
           \<or> v_State v \<noteq> ''retained'' \<or> v_Unverified v) ErrNotFound)
       else
         tx_try (checkNotRetired cf (p_ID p) (op_Digest op)) (\<lambda>r. case r of
           Inr _ \<Rightarrow> tx_return ()
         | Inl e \<Rightarrow> tx_throw (if e = ErrConflict then ErrNotFound else e))) (\<lambda>_.
     tx_return op)))))"

definition is_active :: "project \<Rightarrow> operation \<Rightarrow> bool" where
  "is_active p op \<longleftrightarrow> p_ActiveDigest p = op_Digest op \<and> p_StorageGeneration p = op_StorageGeneration op"

text \<open>Any error of \<open>availableRevision\<close> is returned only once the reads are validated.\<close>

definition validated :: "('v, 'a) txm \<Rightarrow> ('v, 'a) txm" where
  "validated m = tx_try m (\<lambda>r. case r of
     Inr x \<Rightarrow> tx_return x
   | Inl e \<Rightarrow> tx_bind ValidateReads (\<lambda>_. tx_throw e))"

definition remove_revision :: "cfg \<Rightarrow> ('v, doc) codec \<Rightarrow> project \<Rightarrow> operation \<Rightarrow> ('v, unit) txm" where
  "remove_revision cf cd p op =
     tx_bind (raftTx_Set cf cd (raftRef ''revision_removals'' (revisionIdentity cf op)) (DTime (repo_now cf))) (\<lambda>_.
     if p_StorageApp p = []
     then raftTx_Set cf cd (raftRef ''retirements'' (retirementID cf (p_ID p) (op_Digest op))) (DFlag True)
     else raftTx_Set cf cd (gc_key cf (p_StorageApp p) (revisionIdentity cf op)) (DText (revisionIdentity cf op)))"

definition select_revision :: "cfg \<Rightarrow> ('v, doc) codec \<Rightarrow> project \<Rightarrow> operation \<Rightarrow> ('v, unit) txm" where
  "select_revision cf cd p op =
     tx_bind (tx_optional (Get cd asDigest (raftRef ''digests'' (op_Digest op)))) (\<lambda>found.
     let idx = (case found of None \<Rightarrow> zero_digest | Some d \<Rightarrow> d) in
     tx_bind (tx_guard (d_ProjectID idx \<noteq> [] \<and> d_ProjectID idx \<noteq> p_ID p) ErrConflict) (\<lambda>_.
     tx_bind (tx_optional (Get cd asDigest (raftRef ''digests'' (p_ActiveDigest p)))) (\<lambda>res.
     let old = (case res of None \<Rightarrow> zero_digest | Some d \<Rightarrow> d) in
     tx_bind (if d_ProjectID old = p_ID p \<and> p_ActiveDigest p \<noteq> op_Digest op
              then Delete (raftRef ''digests'' (p_ActiveDigest p)) else tx_return ()) (\<lambda>_.
     raftTx_Set cf cd (raftRef ''digests'' (op_Digest op)) (DDigest \<lparr>d_ProjectID = p_ID p, d_OperationID = []\<rparr>)))))"

definition revised :: "cfg \<Rightarrow> project \<Rightarrow> operation \<Rightarrow> bool \<Rightarrow> project" where
  "revised cf p op remove =
     (let p1 = (if remove then p else p\<lparr>p_ActiveDigest := op_Digest op, p_ActiveBytes := op_Bytes op,
            p_StorageGeneration := op_StorageGeneration op, p_PolicyRevision := inc64 (p_PolicyRevision p)\<rparr>)
      in p1\<lparr>p_Revision := inc64 (p_Revision p1), p_UpdatedAt := repo_now cf\<rparr>)"

definition changeRevision ::
  "cfg \<Rightarrow> ('v, doc) codec \<Rightarrow> actor \<Rightarrow> string \<Rightarrow> string \<Rightarrow> int \<Rightarrow> bool \<Rightarrow> ('v, project) txm" where
  "changeRevision cf cd a i revisionID revision remove =
     tx_bind (tx_guard (\<not> idRE i \<or> \<not> digestRE revisionID \<or> revision < 1) ErrInvalid) (\<lambda>_.
     tx_bind (revisionProject cf cd a i) (\<lambda>p.
     tx_bind (tx_guard (p_Revision p \<noteq> revision \<or> p_PendingOperation p \<noteq> []) ErrConflict) (\<lambda>_.
     tx_bind (validated (availableRevision cf cd p revisionID)) (\<lambda>op.
     if is_active p op then tx_bind (tx_guard remove ErrConflict) (\<lambda>_. tx_return p)
     else
       tx_bind (if remove then remove_revision cf cd p op else select_revision cf cd p op) (\<lambda>_.
       let p' = revised cf p op remove in
       tx_bind (raftTx_Set cf cd (raftRef ''projects'' (p_ID p)) (DProject p')) (\<lambda>_.
       tx_return p'))))))"

definition SelectRevision ::
  "cfg \<Rightarrow> ('v, doc) codec \<Rightarrow> actor \<Rightarrow> string \<Rightarrow> string \<Rightarrow> int \<Rightarrow> ('v, project) txm" where
  "SelectRevision cf cd a i revisionID revision = changeRevision cf cd a i revisionID revision False"

definition RemoveRevision ::
  "cfg \<Rightarrow> ('v, doc) codec \<Rightarrow> actor \<Rightarrow> string \<Rightarrow> string \<Rightarrow> int \<Rightarrow> ('v, project) txm" where
  "RemoveRevision cf cd a i revisionID revision = changeRevision cf cd a i revisionID revision True"

text \<open>The transaction of \<open>ListRevisions\<close> over the identifiers of one index page.\<close>

fun list_revisions :: "cfg \<Rightarrow> ('v, doc) codec \<Rightarrow> project \<Rightarrow> string list \<Rightarrow> ('v, revision list) txm" where
  "list_revisions cf cd p [] = tx_return []"
| "list_revisions cf cd p (i # is) =
     tx_try (availableRevision cf cd p i) (\<lambda>r. case r of
       Inl e \<Rightarrow> if e = ErrNotFound then list_revisions cf cd p is else tx_throw e
     | Inr op \<Rightarrow>
         tx_bind (list_revisions cf cd p is) (\<lambda>rest.
         tx_return (\<lparr>rv_ID = op_ID op, rv_Digest = op_Digest op, rv_Bytes = op_Bytes op,
           rv_CreatedAt = (if IsZero (op_PublishedAt op) then op_ExpiresAt op - 15 * minute else op_PublishedAt op),
           rv_Active = is_active p op\<rparr> # rest)))"

definition ListRevisions_page ::
  "cfg \<Rightarrow> ('v, doc) codec \<Rightarrow> actor \<Rightarrow> string \<Rightarrow> string list \<Rightarrow> ('v, revision list) txm" where
  "ListRevisions_page cf cd a i ids =
     tx_bind (revisionProject cf cd a i) (\<lambda>p. list_revisions cf cd p ids)"

fun index_revisions :: "cfg \<Rightarrow> ('v, doc) codec \<Rightarrow> string list \<Rightarrow> ('v, unit) txm" where
  "index_revisions cf cd [] = tx_return ()"
| "index_revisions cf cd (i # is) =
     tx_bind (Get cd asOperation (raftRef ''operations'' i)) (\<lambda>op.
     tx_bind (if op_State op \<noteq> ''complete'' then tx_return ()
       else if op_ID op \<noteq> i \<or> \<not> idRE (op_ProjectID op) then tx_throw ErrStorage
       else let key = revision_key (op_ProjectID op) i in
         tx_bind (tx_optional (Get cd asText key)) (\<lambda>existing.
         if existing = Some i then tx_return () else raftTx_Set cf cd key (DText i))) (\<lambda>_.
     index_revisions cf cd is))"

text \<open>One chunk of at most twenty operations in \<open>indexRevisions\<close>.\<close>

definition indexRevisions_chunk :: "cfg \<Rightarrow> ('v, doc) codec \<Rightarrow> string list \<Rightarrow> ('v, unit) txm" where
  "indexRevisions_chunk cf cd ids =
     tx_bind (Prefetch (map (raftRef ''operations'') ids)) (\<lambda>_. index_revisions cf cd ids)"

end
