(* ===== verification/Project_Core.thy ===== *)
theory Project_Core
  imports Project_Manage
begin

text \<open>
  The abstract specification of the project repository: four maps (projects, quotas, slugs,
  operations) and the transitions a client can see, each with the condition under which it may
  happen and its exact effect. The invariant of the repository is proved here, once, over these
  transitions; \<open>Project_Refine\<close> shows that every handler of the code is one of them.
\<close>

record core =
  c_projects :: "string \<Rightarrow> project option"
  c_quotas :: "string \<Rightarrow> quota"
  c_slugs :: "string \<Rightarrow> string option"
  c_ops :: "string \<Rightarrow> operation option"

section \<open>Transitions\<close>

text \<open>Anonymous projects, and only they, have an expiry.\<close>

definition owner_expiry :: "project \<Rightarrow> bool" where
  "owner_expiry p \<longleftrightarrow> (if o_Kind (p_Owner p) = ''anonymous'' then p_ExpiresAt p \<noteq> None
     else o_Kind (p_Owner p) = ''firebase'' \<and> p_ExpiresAt p = None)"

definition slug_available :: "core \<Rightarrow> string \<Rightarrow> string \<Rightarrow> bool" where
  "slug_available c i slug \<longleftrightarrow> (\<forall>pid. c_slugs c slug = Some pid \<longrightarrow>
     (\<exists>p. c_projects c pid = Some p \<and> (p_Status p = ''deleted'' \<or> pid = i \<or> pid = [])))"

definition set_quota :: "string \<Rightarrow> quota \<Rightarrow> core \<Rightarrow> core" where
  "set_quota h q c = c\<lparr>c_quotas := (c_quotas c)(h := q)\<rparr>"

definition set_proj :: "string \<Rightarrow> project \<Rightarrow> core \<Rightarrow> core" where
  "set_proj i p c = c\<lparr>c_projects := (c_projects c)(i \<mapsto> p)\<rparr>"

definition set_slug :: "string \<Rightarrow> string option \<Rightarrow> core \<Rightarrow> core" where
  "set_slug s v c = c\<lparr>c_slugs := (c_slugs c)(s := v)\<rparr>"

definition set_op :: "string \<Rightarrow> operation \<Rightarrow> core \<Rightarrow> core" where
  "set_op k op c = c\<lparr>c_ops := (c_ops c)(k \<mapsto> op)\<rparr>"

definition quota_add :: "quota \<Rightarrow> int \<Rightarrow> int \<Rightarrow> quota" where
  "quota_add q n b = q\<lparr>q_Count := q_Count q + n, q_ChargedBytes := q_ChargedBytes q + b\<rparr>"

lemma core_simps [simp]:
  "c_projects (set_quota h q c) = c_projects c" "c_quotas (set_quota h q c) = (c_quotas c)(h := q)"
  "c_slugs (set_quota h q c) = c_slugs c" "c_ops (set_quota h q c) = c_ops c"
  "c_projects (set_proj i p c) = (c_projects c)(i \<mapsto> p)" "c_quotas (set_proj i p c) = c_quotas c"
  "c_slugs (set_proj i p c) = c_slugs c" "c_ops (set_proj i p c) = c_ops c"
  "c_projects (set_slug s v c) = c_projects c" "c_quotas (set_slug s v c) = c_quotas c"
  "c_slugs (set_slug s v c) = (c_slugs c)(s := v)" "c_ops (set_slug s v c) = c_ops c"
  "c_projects (set_op k op c) = c_projects c" "c_quotas (set_op k op c) = c_quotas c"
  "c_slugs (set_op k op c) = c_slugs c" "c_ops (set_op k op c) = (c_ops c)(k \<mapsto> op)"
  "q_Count (quota_add q n b) = q_Count q + n" "q_ChargedBytes (quota_add q n b) = q_ChargedBytes q + b"
  by (simp_all add: set_quota_def set_proj_def set_slug_def set_op_def quota_add_def)

abbreviation key_of :: "cfg \<Rightarrow> project \<Rightarrow> string" where
  "key_of cf p \<equiv> ownerKey cf (p_Owner p)"

definition pending_op :: "operation \<Rightarrow> string \<Rightarrow> string \<Rightarrow> bool \<Rightarrow> bool" where
  "pending_op op k i new \<longleftrightarrow> op_ID op = k \<and> op_ProjectID op = i \<and> op_State op = ''pending'' \<and> op_New op = new"

text \<open>An edit of an existing project leaves identity, ownership, slug, status, charge, pending operation
  and expiry alone, raises the revision, and raises the policy revision whenever it changes who may
  see what: privacy, password or the active version.\<close>

definition edit_of :: "project \<Rightarrow> project \<Rightarrow> bool" where
  "edit_of p p' \<longleftrightarrow> p_ID p' = p_ID p \<and> p_Owner p' = p_Owner p \<and> p_Slug p' = p_Slug p \<and> p_Status p' = p_Status p
     \<and> p_ChargedBytes p' = p_ChargedBytes p \<and> p_PendingOperation p' = p_PendingOperation p
     \<and> p_ExpiresAt p' = p_ExpiresAt p \<and> p_Revision p' = inc64 (p_Revision p)
     \<and> (p_PolicyRevision p' = inc64 (p_PolicyRevision p)
        \<or> (p_PolicyRevision p' = p_PolicyRevision p \<and> p_Private p' = p_Private p
           \<and> p_PasswordDigest p' = p_PasswordDigest p \<and> p_ActiveDigest p' = p_ActiveDigest p))"

inductive core_step :: "cfg \<Rightarrow> core \<Rightarrow> core \<Rightarrow> bool" for cf where
  stutter: "core_step cf c c"
| reserve_new: "c_projects c i = None \<Longrightarrow> i \<noteq> [] \<Longrightarrow> p_ID p = i \<Longrightarrow> p_Status p = ''reserved'' \<Longrightarrow>
    p_PendingOperation p = k \<Longrightarrow> k \<noteq> [] \<Longrightarrow> \<not> p_Private p \<Longrightarrow> owner_expiry p \<Longrightarrow>
    slug_available c i (p_Slug p) \<Longrightarrow> slugRE (p_Slug p) \<Longrightarrow> p_Slug p \<notin> set reserved_slugs \<Longrightarrow>
    c_ops c k = None \<Longrightarrow> pending_op op k i True \<Longrightarrow> op_Owner op = p_Owner p \<Longrightarrow>
    q = c_quotas c (key_of cf p) \<Longrightarrow> q_Count q < limit cf (p_Owner p) \<Longrightarrow>
    fitsBytes (q_ChargedBytes q) (p_ChargedBytes p) (byteLimit cf (p_Owner p)) \<Longrightarrow>
    core_step cf c (set_op k op (set_proj i p (set_quota (key_of cf p) (quota_add q 1 (p_ChargedBytes p))
      (set_slug (p_Slug p) (Some i) c))))"
| reserve_update: "c_projects c i = Some p \<Longrightarrow> Live p (repo_now cf) \<Longrightarrow> p_PendingOperation p = [] \<Longrightarrow>
    k \<noteq> [] \<Longrightarrow> c_ops c k = None \<Longrightarrow> pending_op op k i False \<Longrightarrow> op_BaseRevision op = p_Revision p \<Longrightarrow>
    q = c_quotas c (key_of cf p) \<Longrightarrow> fitsBytes (q_ChargedBytes q) b (byteLimit cf (p_Owner p)) \<Longrightarrow>
    p' = p\<lparr>p_StorageApp := app, p_ChargedBytes := p_ChargedBytes p + b, p_PendingOperation := k\<rparr> \<Longrightarrow>
    core_step cf c (set_op k op (set_proj i p' (set_quota (key_of cf p) (quota_add q 0 b) c)))"
| activate: "c_ops c k = Some op \<Longrightarrow> op_State op = ''pending'' \<Longrightarrow> i = op_ProjectID op \<Longrightarrow>
    c_projects c i = Some p \<Longrightarrow> p_Status p \<noteq> ''deleted'' \<Longrightarrow> p_PendingOperation p = op_ID op \<Longrightarrow>
    p_Revision p = op_BaseRevision op \<Longrightarrow> repo_now cf < op_ExpiresAt op \<Longrightarrow>
    (pd \<noteq> [] \<Longrightarrow> op_New op \<and> pr = p_PolicyRevision p + 1 \<and> p_PolicyRevision p \<noteq> max_int64) \<Longrightarrow>
    core_step cf c (set_proj i (activated cf p op pd pr)
      (set_op k (op\<lparr>op_State := ''complete'', op_PublishedAt := repo_now cf\<rparr>) c))"
| abort_new: "c_ops c k = Some op \<Longrightarrow> op_State op = ''pending'' \<Longrightarrow> op_New op \<Longrightarrow> i = op_ProjectID op \<Longrightarrow>
    c_projects c i = Some p \<Longrightarrow> p_PendingOperation p = op_ID op \<Longrightarrow> q = c_quotas c (key_of cf p) \<Longrightarrow> 0 < q_Count q \<Longrightarrow>
    core_step cf c (set_op k (op\<lparr>op_State := ''aborted''\<rparr>)
      (set_proj i (p\<lparr>p_PendingOperation := [], p_Status := ''deleted''\<rparr>)
        (set_slug (p_Slug p) None (set_quota (key_of cf p) (quota_add q (-1) 0) c))))"
| abort_update: "c_ops c k = Some op \<Longrightarrow> op_State op = ''pending'' \<Longrightarrow> \<not> op_New op \<Longrightarrow> i = op_ProjectID op \<Longrightarrow>
    c_projects c i = Some p \<Longrightarrow> p_PendingOperation p = op_ID op \<Longrightarrow>
    core_step cf c (set_op k (op\<lparr>op_State := ''aborted''\<rparr>) (set_proj i (p\<lparr>p_PendingOperation := []\<rparr>) c))"
| move: "c_projects c i = Some p \<Longrightarrow> Live p (repo_now cf) \<Longrightarrow> p_PendingOperation p = [] \<Longrightarrow>
    o_Kind (p_Owner p) = ''anonymous'' \<Longrightarrow> no = \<lparr>o_Kind = ''firebase'', o_ID = uid\<rparr> \<Longrightarrow> uid \<noteq> [] \<Longrightarrow>
    q = c_quotas c (key_of cf p) \<Longrightarrow> 1 \<le> q_Count q \<Longrightarrow> p_ChargedBytes p \<le> q_ChargedBytes q \<Longrightarrow>
    nq = c_quotas c (ownerKey cf no) \<Longrightarrow> q_Count nq < limit cf no \<Longrightarrow>
    fitsBytes (q_ChargedBytes nq) (p_ChargedBytes p) (byteLimit cf no) \<Longrightarrow>
    p' = p\<lparr>p_Owner := no, p_ExpiresAt := None, p_OwnerKey := ownerKey cf no, p_Revision := inc64 (p_Revision p)\<rparr> \<Longrightarrow>
    core_step cf c (set_proj i p' (set_quota (ownerKey cf no) (quota_add nq 1 (p_ChargedBytes p))
      (set_quota (key_of cf p) (quota_add q (-1) (- p_ChargedBytes p)) c)))"
| delete: "c_projects c i = Some p \<Longrightarrow> p_Status p \<noteq> ''deleted'' \<Longrightarrow> p_PendingOperation p = [] \<Longrightarrow>
    q = c_quotas c (key_of cf p) \<Longrightarrow> 0 < q_Count q \<Longrightarrow>
    core_step cf c (set_proj i (tombstoned p) (set_quota (key_of cf p) (quota_add q (-1) 0) c))"
| rename: "c_projects c i = Some p \<Longrightarrow> Live p (repo_now cf) \<Longrightarrow> p_PendingOperation p = [] \<Longrightarrow>
    slug_available c i slug \<Longrightarrow> slugRE slug \<Longrightarrow> slug \<notin> set reserved_slugs \<Longrightarrow>
    (\<not> fresh_alias \<Longrightarrow> c_slugs c slug = Some i) \<Longrightarrow> (fresh_alias \<Longrightarrow> p_AliasCount p < 100) \<Longrightarrow>
    core_step cf c (set_proj i (renamed p slug suffix fresh_alias) (set_slug slug (Some i) c))"
| edit: "c_projects c i = Some p \<Longrightarrow> Live p (repo_now cf) \<Longrightarrow> p_PendingOperation p = [] \<Longrightarrow> edit_of p p' \<Longrightarrow>
    core_step cf c (set_proj i p' c)"
| refund: "c_projects c i = Some p \<Longrightarrow> 0 < b \<Longrightarrow> b \<le> p_ChargedBytes p \<Longrightarrow>
    q = c_quotas c (key_of cf p) \<Longrightarrow> b \<le> q_ChargedBytes q \<Longrightarrow>
    core_step cf c (set_proj i (p\<lparr>p_ChargedBytes := p_ChargedBytes p - b\<rparr>)
      (set_quota (key_of cf p) (quota_add q 0 (- b)) c))"

section \<open>The invariant\<close>

text \<open>What one project contributes to the quota of an owner key.\<close>

definition count_of :: "cfg \<Rightarrow> string \<Rightarrow> project option \<Rightarrow> int" where
  "count_of cf h p = (case p of None \<Rightarrow> 0
     | Some x \<Rightarrow> if p_Status x \<noteq> ''deleted'' \<and> key_of cf x = h then 1 else 0)"

definition charge_of :: "cfg \<Rightarrow> string \<Rightarrow> project option \<Rightarrow> int" where
  "charge_of cf h p = (case p of None \<Rightarrow> 0 | Some x \<Rightarrow> if key_of cf x = h then p_ChargedBytes x else 0)"

definition accounted :: "cfg \<Rightarrow> core \<Rightarrow> bool" where
  "accounted cf c \<longleftrightarrow> finite (dom (c_projects c)) \<and> (\<forall>h.
     q_Count (c_quotas c h) = (\<Sum>i \<in> dom (c_projects c). count_of cf h (c_projects c i))
   \<and> q_ChargedBytes (c_quotas c h) = (\<Sum>i \<in> dom (c_projects c). charge_of cf h (c_projects c i)))"

definition project_ok :: "string \<Rightarrow> project \<Rightarrow> bool" where
  "project_ok i p \<longleftrightarrow> p_ID p = i \<and> i \<noteq> [] \<and> p_Status p \<in> {''reserved'', ''active'', ''deleted''}
     \<and> (p_Status p = ''reserved'' \<longrightarrow> p_PendingOperation p \<noteq> []) \<and> (p_Status p = ''deleted'' \<longrightarrow> p_PendingOperation p = [])
     \<and> owner_expiry p \<and> 0 \<le> p_ChargedBytes p"

definition slugs_ok :: "core \<Rightarrow> bool" where
  "slugs_ok c \<longleftrightarrow> (\<forall>i p. c_projects c i = Some p \<and> p_Status p \<noteq> ''deleted'' \<longrightarrow> c_slugs c (p_Slug p) = Some i)"

definition ops_ok :: "core \<Rightarrow> bool" where
  "ops_ok c \<longleftrightarrow> (\<forall>k op. c_ops c k = Some op \<longrightarrow> op_ID op = k \<and> k \<noteq> [] \<and> (op_State op = ''pending'' \<longrightarrow>
       (\<exists>p. c_projects c (op_ProjectID op) = Some p \<and> p_PendingOperation p = k
          \<and> (op_New op \<longleftrightarrow> p_Status p = ''reserved''))))
     \<and> (\<forall>i p. c_projects c i = Some p \<and> p_PendingOperation p \<noteq> [] \<longrightarrow>
       (\<exists>op. c_ops c (p_PendingOperation p) = Some op \<and> op_State op = ''pending'' \<and> op_ProjectID op = i))"

definition core_ok :: "cfg \<Rightarrow> core \<Rightarrow> bool" where
  "core_ok cf c \<longleftrightarrow> accounted cf c \<and> (\<forall>i p. c_projects c i = Some p \<longrightarrow> project_ok i p) \<and> slugs_ok c \<and> ops_ok c"

text \<open>No anonymous owner's key is an account's key: what the code relies on SHA-256 for.\<close>

definition kinds_apart :: "cfg \<Rightarrow> bool" where
  "kinds_apart cf \<longleftrightarrow> (\<forall>x y. ownerKey cf \<lparr>o_Kind = ''anonymous'', o_ID = x\<rparr> \<noteq> ownerKey cf \<lparr>o_Kind = ''firebase'', o_ID = y\<rparr>)"

section \<open>Preservation\<close>

lemma sum_update:
  fixes f :: "project option \<Rightarrow> int"
  assumes "finite (dom m)" "f None = 0"
  shows "(\<Sum>j \<in> dom (m(i \<mapsto> p)). f ((m(i \<mapsto> p)) j)) = (\<Sum>j \<in> dom m. f (m j)) + f (Some p) - f (m i)"
proof -
  have s: "(\<Sum>j \<in> dom (m(i \<mapsto> p)). f ((m(i \<mapsto> p)) j)) = f (Some p) + (\<Sum>j \<in> dom m - {i}. f (m j))"
    using assms(1) by (simp add: sum.insert_remove)
  show ?thesis
  proof (cases "i \<in> dom m")
    case True
    then show ?thesis using s sum.remove[OF assms(1) True, of "\<lambda>j. f (m j)"] by simp
  next
    case False
    then show ?thesis using s assms(2) by (auto simp: domIff)
  qed
qed

lemma accounted_update:
  assumes "accounted cf c" "c_projects c' = (c_projects c)(i \<mapsto> p)"
    and "\<And>h. q_Count (c_quotas c' h) = q_Count (c_quotas c h) + count_of cf h (Some p) - count_of cf h (c_projects c i)"
    and "\<And>h. q_ChargedBytes (c_quotas c' h) =
      q_ChargedBytes (c_quotas c h) + charge_of cf h (Some p) - charge_of cf h (c_projects c i)"
  shows "accounted cf c'"
proof -
  have fin: "finite (dom (c_projects c))" using assms(1) by (simp add: accounted_def)
  have z: "count_of cf h None = 0" "charge_of cf h None = 0" for h
    by (simp_all add: count_of_def charge_of_def)
  note s = sum_update[OF fin, of "count_of cf h" for h, OF z(1)] sum_update[OF fin, of "charge_of cf h" for h, OF z(2)]
  show ?thesis unfolding accounted_def assms(2) s
    using assms(1,3,4) fin by (simp add: accounted_def)
qed

lemma activated_simps [simp]:
  "p_ChargedBytes (activated cf p op pd pr) = p_ChargedBytes p" "p_Owner (activated cf p op pd pr) = p_Owner p"
  "p_Status (activated cf p op pd pr) = ''active''" "p_ID (activated cf p op pd pr) = p_ID p"
  "p_Slug (activated cf p op pd pr) = p_Slug p" "p_PendingOperation (activated cf p op pd pr) = []"
  "p_Revision (activated cf p op pd pr) = inc64 (p_Revision p)"
  by (simp_all add: activated_def Let_def)

lemma tombstoned_simps [simp]:
  "p_ChargedBytes (tombstoned p) = p_ChargedBytes p" "p_Owner (tombstoned p) = p_Owner p"
  "p_Status (tombstoned p) = ''deleted''" "p_ID (tombstoned p) = p_ID p" "p_Slug (tombstoned p) = p_Slug p"
  "p_PendingOperation (tombstoned p) = p_PendingOperation p" "p_ExpiresAt (tombstoned p) = p_ExpiresAt p"
  "p_Revision (tombstoned p) = inc64 (p_Revision p)"
  by (simp_all add: tombstoned_def)

lemma renamed_simps [simp]:
  "p_ChargedBytes (renamed p s x n) = p_ChargedBytes p" "p_Owner (renamed p s x n) = p_Owner p"
  "p_Status (renamed p s x n) = p_Status p" "p_ID (renamed p s x n) = p_ID p" "p_Slug (renamed p s x n) = s"
  "p_PendingOperation (renamed p s x n) = p_PendingOperation p" "p_ExpiresAt (renamed p s x n) = p_ExpiresAt p"
  "p_Revision (renamed p s x n) = inc64 (p_Revision p)"
  by (simp_all add: renamed_def)

text \<open>Under the invariant, the project of a pending operation is not deleted.\<close>

lemma pending_project:
  assumes "core_ok cf c" "c_ops c k = Some op" "op_State op = ''pending''" "c_projects c (op_ProjectID op) = Some p"
    "p_PendingOperation p = op_ID op"
  shows "op_ID op = k" "k \<noteq> []" "p_PendingOperation p = k" "p_Status p \<noteq> ''deleted''"
    "op_New op \<longleftrightarrow> p_Status p = ''reserved''" "p_Status p = ''reserved'' \<or> p_Status p = ''active''"
proof -
  have "op_ID op = k \<and> k \<noteq> [] \<and> (\<exists>x. c_projects c (op_ProjectID op) = Some x \<and> p_PendingOperation x = k
      \<and> (op_New op \<longleftrightarrow> p_Status x = ''reserved''))"
    using assms(1-3) unfolding core_ok_def ops_ok_def by blast
  then show k: "op_ID op = k" "k \<noteq> []" "op_New op \<longleftrightarrow> p_Status p = ''reserved''"
    using assms(4) by auto
  show "p_PendingOperation p = k" using k assms(5) by simp
  then show "p_Status p \<noteq> ''deleted''" "p_Status p = ''reserved'' \<or> p_Status p = ''active''"
    using k assms(1,4) unfolding core_ok_def project_ok_def by auto
qed

lemma step_accounted:
  assumes "core_step cf c c'" "core_ok cf c" "kinds_apart cf"
  shows "accounted cf c'"
proof -
  have acc: "accounted cf c" using assms(2) by (simp add: core_ok_def)
  note upd = accounted_update[where c' = c', OF acc]
  note count = count_of_def charge_of_def
  from assms(1) show ?thesis
  proof cases
    case stutter
    then show ?thesis using acc by simp
  next
    case (reserve_new i p k op q)
    show ?thesis by (rule upd[where i = i and p = p]) (use reserve_new(1,2,5,16) in \<open>auto simp: count\<close>)
  next
    case (reserve_update i p k op q b p' app)
    show ?thesis
      by (rule upd[where i = i and p = p']) (use reserve_update(1,2,9,11) in \<open>auto simp: count\<close>)
  next
    case (activate k op i p pd pr)
    show ?thesis by (rule upd[where i = i and p = "activated cf p op pd pr"])
        (use activate(1,5,6) in \<open>auto simp: count\<close>)
  next
    case (abort_new k op i p q)
    have "p_Status p \<noteq> ''deleted''" using pending_project[OF assms(2) abort_new(2,3)] abort_new(5-7) by simp
    then show ?thesis by (intro upd[where i = i and p = "p\<lparr>p_PendingOperation := [], p_Status := ''deleted''\<rparr>"])
        (use abort_new(1,6,8) in \<open>auto simp: count\<close>)
  next
    case (abort_update k op i p)
    show ?thesis by (rule upd[where i = i and p = "p\<lparr>p_PendingOperation := []\<rparr>"])
        (use abort_update(1,6) in \<open>auto simp: count\<close>)
  next
    case (move i p no uid q nq p')
    have "p_Owner p = \<lparr>o_Kind = ''anonymous'', o_ID = o_ID (p_Owner p)\<rparr>" using move(5) by (cases "p_Owner p") simp
    then have "key_of cf p \<noteq> ownerKey cf no" using assms(3) move(6) unfolding kinds_apart_def by metis
    then show ?thesis
      by (intro upd[where i = i and p = p']) (use move(1,2,3,8,11,14) in \<open>auto simp: count Live_def\<close>)
  next
    case (delete i p q)
    show ?thesis by (rule upd[where i = i and p = "tombstoned p"])
        (use delete(1,2,3,5) in \<open>auto simp: count\<close>)
  next
    case (rename i p slug fresh_alias suffix)
    show ?thesis by (rule upd[where i = i and p = "renamed p slug suffix fresh_alias"])
        (use rename(1,2) in \<open>auto simp: count\<close>)
  next
    case (edit i p p')
    show ?thesis by (rule upd[where i = i and p = "p'"])
        (use edit(1,2,5) in \<open>auto simp: count edit_of_def\<close>)
  next
    case (refund i p b q)
    show ?thesis by (rule upd[where i = i and p = "p\<lparr>p_ChargedBytes := p_ChargedBytes p - b\<rparr>"])
        (use refund(1,2,5) in \<open>auto simp: count\<close>)
  qed
qed

lemma step_projects:
  assumes "core_step cf c c'" "core_ok cf c" "c_projects c' j = Some x"
  shows "project_ok j x"
proof -
  have ok: "\<And>i p. c_projects c i = Some p \<Longrightarrow> project_ok i p" using assms(2) by (simp add: core_ok_def)
  from assms(1) show ?thesis
  proof cases
    case stutter
    then show ?thesis using ok assms(3) by simp
  next
    case (reserve_new i p k op q)
    then show ?thesis using ok assms(3) by (auto simp: project_ok_def fitsBytes_def split: if_splits)
  next
    case (reserve_update i p k op q b p' app)
    have "project_ok i p'"
      using ok[OF reserve_update(2)] reserve_update(3,5,10,11)
      by (auto simp: project_ok_def owner_expiry_def fitsBytes_def Live_def)
    then show ?thesis using ok assms(3) reserve_update(1) by (auto split: if_splits)
  next
    case (activate k op i p pd pr)
    have "project_ok i (activated cf p op pd pr)"
      using ok[OF activate(5)] by (auto simp: project_ok_def owner_expiry_def activated_def Let_def)
    then show ?thesis using ok assms(3) activate(1) by (auto split: if_splits)
  next
    case (abort_new k op i p q)
    have "project_ok i (p\<lparr>p_PendingOperation := [], p_Status := ''deleted''\<rparr>)"
      using ok[OF abort_new(6)] by (auto simp: project_ok_def owner_expiry_def)
    then show ?thesis using ok assms(3) abort_new(1) by (auto split: if_splits)
  next
    case (abort_update k op i p)
    have "p_Status p \<noteq> ''reserved''"
      using pending_project[OF assms(2) abort_update(2,3)] abort_update(4-7) by simp
    then have "project_ok i (p\<lparr>p_PendingOperation := []\<rparr>)"
      using ok[OF abort_update(6)] by (auto simp: project_ok_def owner_expiry_def)
    then show ?thesis using ok assms(3) abort_update(1) by (auto split: if_splits)
  next
    case (move i p no uid q nq p')
    have "project_ok i p'" using ok[OF move(2)] move(3,6,14) by (auto simp: project_ok_def owner_expiry_def Live_def)
    then show ?thesis using ok assms(3) move(1) by (auto split: if_splits)
  next
    case (delete i p q)
    have "project_ok i (tombstoned p)"
      using ok[OF delete(2)] delete(4) by (auto simp: project_ok_def owner_expiry_def)
    then show ?thesis using ok assms(3) delete(1) by (auto split: if_splits)
  next
    case (rename i p slug fresh_alias suffix)
    have "project_ok i (renamed p slug suffix fresh_alias)"
      using ok[OF rename(2)] by (auto simp: project_ok_def owner_expiry_def)
    then show ?thesis using ok assms(3) rename(1) by (auto split: if_splits)
  next
    case (edit i p p')
    have "project_ok i p'" using ok[OF edit(2)] edit(5) by (auto simp: project_ok_def owner_expiry_def edit_of_def)
    then show ?thesis using ok assms(3) edit(1) by (auto split: if_splits)
  next
    case (refund i p b q)
    have "project_ok i (p\<lparr>p_ChargedBytes := p_ChargedBytes p - b\<rparr>)"
      using ok[OF refund(2)] refund(4) by (auto simp: project_ok_def owner_expiry_def)
    then show ?thesis using ok assms(3) refund(1) by (auto split: if_splits)
  qed
qed

text \<open>Slugs and operations each follow from how the step changes one project's slug, status or pending
  operation.\<close>

lemma slugs_keep:
  assumes "slugs_ok c" "c_projects c' = (c_projects c)(i \<mapsto> p')" "c_projects c i = Some p" "c_slugs c' = c_slugs c"
    "p_Slug p' = p_Slug p" "p_Status p = ''deleted'' \<Longrightarrow> p_Status p' = ''deleted''"
  shows "slugs_ok c'"
  using assms unfolding slugs_ok_def by auto

lemma slugs_take:
  assumes "core_ok cf c" "c_projects c' = (c_projects c)(i \<mapsto> p')" "slug_available c i (p_Slug p')"
    "c_slugs c' = (c_slugs c)(p_Slug p' \<mapsto> i)"
  shows "slugs_ok c'"
  unfolding slugs_ok_def
proof (intro allI impI, elim conjE)
  fix j x
  assume x: "c_projects c' j = Some x" "p_Status x \<noteq> ''deleted''"
  show "c_slugs c' (p_Slug x) = Some j"
  proof (cases "j = i")
    case False
    then have cj: "c_projects c j = Some x" "c_slugs c (p_Slug x) = Some j"
      using x assms(1,2) unfolding core_ok_def slugs_ok_def by auto
    moreover have "j \<noteq> []" using cj(1) assms(1) by (auto simp: core_ok_def project_ok_def)
    ultimately have "p_Slug x \<noteq> p_Slug p'" using False x(2) assms(3) by (fastforce simp: slug_available_def)
    then show ?thesis using cj assms(4) by simp
  qed (use x assms(2,4) in auto)
qed

lemma step_slugs:
  assumes "core_step cf c c'" "core_ok cf c"
  shows "slugs_ok c'"
proof -
  have ok: "slugs_ok c" using assms(2) by (simp add: core_ok_def)
  from assms(1) show ?thesis
  proof cases
    case stutter
    then show ?thesis using ok by simp
  next
    case (reserve_new i p k op q)
    show ?thesis by (rule slugs_take[OF assms(2)]) (use reserve_new(1,10) in simp_all)
  next
    case (reserve_update i p k op q b p' app)
    show ?thesis by (rule slugs_keep[where p' = p', OF ok _ reserve_update(2)]) (use reserve_update(1,11) in simp_all)
  next
    case (activate k op i p pd pr)
    show ?thesis by (rule slugs_keep[where p' = "activated cf p op pd pr", OF ok _ activate(5)]) (use activate(1,6) in simp_all)
  next
    case (abort_new k op i p q)
    have live: "p_Status p \<noteq> ''deleted''" using pending_project[OF assms(2) abort_new(2,3)] abort_new(5-7) by simp
    then have own: "c_slugs c (p_Slug p) = Some i" using ok abort_new(6) by (simp add: slugs_ok_def)
    show ?thesis using ok own abort_new(1) unfolding slugs_ok_def
      by (fastforce split: if_splits)
  next
    case (abort_update k op i p)
    show ?thesis by (rule slugs_keep[where p' = "p\<lparr>p_PendingOperation := []\<rparr>", OF ok _ abort_update(6)]) (use abort_update(1) in simp_all)
  next
    case (move i p no uid q nq p')
    show ?thesis by (rule slugs_keep[where p' = p', OF ok _ move(2)]) (use move(1,14) in simp_all)
  next
    case (delete i p q)
    show ?thesis by (rule slugs_keep[where p' = "tombstoned p", OF ok _ delete(2)]) (use delete(1) in simp_all)
  next
    case (rename i p slug fresh_alias suffix)
    show ?thesis by (rule slugs_take[where i = i and p' = "renamed p slug suffix fresh_alias", OF assms(2)])
        (use rename(1,5) in simp_all)
  next
    case (edit i p p')
    show ?thesis by (rule slugs_keep[where p' = "p'", OF ok _ edit(2)]) (use edit(1,5) in \<open>simp_all add: edit_of_def\<close>)
  next
    case (refund i p b q)
    show ?thesis by (rule slugs_keep[where p' = "p\<lparr>p_ChargedBytes := p_ChargedBytes p - b\<rparr>", OF ok _ refund(2)]) (use refund(1) in simp_all)
  qed
qed

lemma ops_keep:
  assumes "ops_ok c" "c_projects c' = (c_projects c)(i \<mapsto> p')" "c_projects c i = Some p" "c_ops c' = c_ops c"
    "p_PendingOperation p' = p_PendingOperation p"
    "p_PendingOperation p = [] \<or> (p_Status p' = ''reserved'' \<longleftrightarrow> p_Status p = ''reserved'')"
  shows "ops_ok c'"
  using assms unfolding ops_ok_def by (auto split: if_splits) (metis option.inject)+

lemma pending_opE:
  assumes "ops_ok c" "c_projects c i = Some p" "p_PendingOperation p \<noteq> []"
  obtains op where "c_ops c (p_PendingOperation p) = Some op" "op_State op = ''pending''" "op_ProjectID op = i"
  using assms unfolding ops_ok_def by blast

lemma ops_open:
  assumes "ops_ok c" "c_projects c' = (c_projects c)(i \<mapsto> p')" "c_ops c' = (c_ops c)(k \<mapsto> op)"
    "\<And>p. c_projects c i = Some p \<Longrightarrow> p_PendingOperation p = []" "c_ops c k = None" "k \<noteq> []"
    "pending_op op k i new" "p_PendingOperation p' = k" "new \<longleftrightarrow> p_Status p' = ''reserved''"
  shows "ops_ok c'"
  unfolding ops_ok_def
proof (intro conjI allI impI)
  fix j x
  assume j: "c_ops c' j = Some x"
  have "j = k \<or> c_ops c j = Some x" using j assms(3) by (auto split: if_splits)
  then show "op_ID x = j" "j \<noteq> []" using j assms by (auto simp: ops_ok_def pending_op_def split: if_splits)
  assume pend: "op_State x = ''pending''"
  show "\<exists>p. c_projects c' (op_ProjectID x) = Some p \<and> p_PendingOperation p = j \<and> op_New x = (p_Status p = ''reserved'')"
  proof (cases "j = k")
    case False
    then obtain p where p: "c_projects c (op_ProjectID x) = Some p" "p_PendingOperation p = j"
      "op_New x = (p_Status p = ''reserved'')" "j \<noteq> []"
      using j pend assms(1,3) unfolding ops_ok_def by (auto split: if_splits)
    then have "op_ProjectID x \<noteq> i" using assms(4) by auto
    then show ?thesis using p assms(2) by auto
  qed (use j assms in \<open>auto simp: pending_op_def\<close>)
next
  fix j x
  assume j: "c_projects c' j = Some x \<and> p_PendingOperation x \<noteq> []"
  show "\<exists>op. c_ops c' (p_PendingOperation x) = Some op \<and> op_State op = ''pending'' \<and> op_ProjectID op = j"
  proof (cases "j = i")
    case False
    then obtain y where "c_ops c (p_PendingOperation x) = Some y" "op_State y = ''pending''" "op_ProjectID y = j"
      using pending_opE[OF assms(1), of j x] j assms(2) by auto
    then show ?thesis using assms(3,5) by auto
  qed (use j assms in \<open>auto simp: pending_op_def\<close>)
qed

lemma ops_close:
  assumes "ops_ok c" "c_projects c' = (c_projects c)(i \<mapsto> p')" "c_ops c' = (c_ops c)(k \<mapsto> op')"
    "c_projects c i = Some p" "p_PendingOperation p = k" "k \<noteq> []" "p_PendingOperation p' = []"
    "c_ops c k = Some op" "op_ProjectID op = i" "op_ID op' = k" "op_State op' \<noteq> ''pending''"
  shows "ops_ok c'"
  unfolding ops_ok_def
proof (intro conjI allI impI)
  fix j x
  assume j: "c_ops c' j = Some x"
  then show "op_ID x = j" "j \<noteq> []" using assms by (auto simp: ops_ok_def split: if_splits)
  assume pend: "op_State x = ''pending''"
  then have "j \<noteq> k" using j assms(3,11) by auto
  then obtain q where q: "c_projects c (op_ProjectID x) = Some q" "p_PendingOperation q = j"
    "op_New x = (p_Status q = ''reserved'')"
    using j pend assms(1,3) unfolding ops_ok_def by (auto split: if_splits)
  then have "op_ProjectID x \<noteq> i" using assms(4,5) \<open>j \<noteq> k\<close> by auto
  then show "\<exists>p. c_projects c' (op_ProjectID x) = Some p \<and> p_PendingOperation p = j \<and> op_New x = (p_Status p = ''reserved'')"
    using q assms(2) by auto
next
  fix j x
  assume j: "c_projects c' j = Some x \<and> p_PendingOperation x \<noteq> []"
  then have "j \<noteq> i" "c_projects c j = Some x" using assms(2,7) by (auto split: if_splits)
  then obtain y where y: "c_ops c (p_PendingOperation x) = Some y" "op_State y = ''pending''" "op_ProjectID y = j"
    using pending_opE[OF assms(1), of j x] j by auto
  then have "p_PendingOperation x \<noteq> k" using assms(8,9) \<open>j \<noteq> i\<close> by auto
  then show "\<exists>op. c_ops c' (p_PendingOperation x) = Some op \<and> op_State op = ''pending'' \<and> op_ProjectID op = j"
    using y assms(3) by auto
qed

lemma step_ops:
  assumes "core_step cf c c'" "core_ok cf c"
  shows "ops_ok c'"
proof -
  have ok: "ops_ok c" using assms(2) by (simp add: core_ok_def)
  have pok: "\<And>i p. c_projects c i = Some p \<Longrightarrow> project_ok i p" using assms(2) by (simp add: core_ok_def)
  from assms(1) show ?thesis
  proof cases
    case stutter
    then show ?thesis using ok by simp
  next
    case (reserve_new i p k op q)
    show ?thesis
      by (rule ops_open[where p' = p and i = i and k = k and op = op, OF ok]) (use reserve_new(1,2,5,6,7,13,14) in simp_all)
  next
    case (reserve_update i p k op q b p' app)
    show ?thesis
      by (rule ops_open[where p' = p' and i = i and k = k and op = op, OF ok])
        (use reserve_update(1-8,11) in \<open>auto simp: Live_def\<close>)
  next
    case (activate k op i p pd pr)
    note pp = pending_project[OF assms(2) activate(2,3)]
    show ?thesis
      by (rule ops_close[where p' = "activated cf p op pd pr" and i = i and k = k and op = op
          and op' = "op\<lparr>op_State := ''complete'', op_PublishedAt := repo_now cf\<rparr>", OF ok])
        (use activate(1-5,7) pp in simp_all)
  next
    case (abort_new k op i p q)
    note pp = pending_project[OF assms(2) abort_new(2,3)]
    show ?thesis
      by (rule ops_close[where p' = "p\<lparr>p_PendingOperation := [], p_Status := ''deleted''\<rparr>" and i = i and k = k and op = op
          and op' = "op\<lparr>op_State := ''aborted''\<rparr>", OF ok])
        (use abort_new(1,2,3,5-7) pp in simp_all)
  next
    case (abort_update k op i p)
    note pp = pending_project[OF assms(2) abort_update(2,3)]
    show ?thesis
      by (rule ops_close[where p' = "p\<lparr>p_PendingOperation := []\<rparr>" and i = i and k = k and op = op
          and op' = "op\<lparr>op_State := ''aborted''\<rparr>", OF ok])
        (use abort_update(1,2,3,5-7) pp in simp_all)
  next
    case (move i p no uid q nq p')
    show ?thesis by (rule ops_keep[where p' = p', OF ok _ move(2)]) (use move(1,4,14) in simp_all)
  next
    case (delete i p q)
    show ?thesis by (rule ops_keep[where p' = "tombstoned p", OF ok _ delete(2)]) (use delete(1,4) in simp_all)
  next
    case (rename i p slug fresh_alias suffix)
    show ?thesis by (rule ops_keep[where p' = "renamed p slug suffix fresh_alias", OF ok _ rename(2)]) (use rename(1) in simp_all)
  next
    case (edit i p p')
    show ?thesis by (rule ops_keep[where p' = "p'", OF ok _ edit(2)]) (use edit(1,5) in \<open>simp_all add: edit_of_def\<close>)
  next
    case (refund i p b q)
    show ?thesis by (rule ops_keep[where p' = "p\<lparr>p_ChargedBytes := p_ChargedBytes p - b\<rparr>", OF ok _ refund(2)]) (use refund(1) in simp_all)
  qed
qed

theorem core_step_ok:
  assumes "core_step cf c c'" "core_ok cf c" "kinds_apart cf"
  shows "core_ok cf c'"
  using step_accounted[OF assms] step_projects[OF assms(1,2)] step_slugs[OF assms(1,2)] step_ops[OF assms(1,2)]
  by (simp add: core_ok_def)

end
