(* ===== verification/Project_Unlock.thy ===== *)
theory Project_Unlock
  imports Project_Manage
begin

text \<open>
  Password-protected projects (\<open>raft_rules.go\<close>, \<open>grants.go\<close>, \<open>privacy.go\<close>): the unlock budgets, the
  grant issued after a password was verified, its validation on every request, and the services that
  put password hashing between two transactions. The password package (hashing and its files) and
  the random token are arguments.
\<close>

section \<open>Budgets\<close>

text \<open>The budget keys of one attempt with their limits; the project's own budget only counts
  attempts on an eligible project.\<close>

definition unlock_keys :: "cfg \<Rightarrow> actor \<Rightarrow> project option \<Rightarrow> (string \<times> int) list" where
  "unlock_keys cf a target =
     [(cf_hash cf (HStrings [''global'']), 60), (cf_hash cf (HStrings [''session'', u_SessionDigest a]), 10)]
     @ (case target of None \<Rightarrow> [] | Some p \<Rightarrow> [(cf_hash cf (HStrings [''project'', p_ID p]), 10)])"

definition charge_budget :: "time \<Rightarrow> unlock_budget \<Rightarrow> unlock_budget" where
  "charge_budget now b =
     (let count = (if \<not> now < b_ExpiresAt b then 0 else b_Count b); expires = Truncate now minute + minute in
      \<lparr>b_Count = count + 1, b_ExpiresAt = (if b_ExpiresAt b > expires then b_ExpiresAt b else expires)\<rparr>)"

fun read_budgets ::
  "('v, doc) codec \<Rightarrow> time \<Rightarrow> (string \<times> int) list \<Rightarrow> ('v, unlock_budget list) txm" where
  "read_budgets cd now [] = tx_return []"
| "read_budgets cd now ((key, lim) # rest) =
     tx_bind (tx_optional (Get cd asBudget (raftRef ''unlock_budgets'' key))) (\<lambda>found.
     let b = (case found of None \<Rightarrow> zero_budget | Some x \<Rightarrow> x) in
     tx_bind (tx_guard ((if \<not> now < b_ExpiresAt b then 0 else b_Count b) \<ge> lim) ErrUnlockLimited) (\<lambda>_.
     tx_bind (read_budgets cd now rest) (\<lambda>bs.
     tx_return (charge_budget now b # bs))))"

fun write_budgets :: "cfg \<Rightarrow> ('v, doc) codec \<Rightarrow> (string \<times> int) list \<Rightarrow> unlock_budget list \<Rightarrow> ('v, unit) txm" where
  "write_budgets cf cd ((key, lim) # keys) (b # bs) =
     tx_bind (raftTx_Set cf cd (raftRef ''unlock_budgets'' key) (DBudget b)) (\<lambda>_. write_budgets cf cd keys bs)"
| "write_budgets cf cd _ _ = tx_return ()"

section \<open>Unlocking\<close>

definition eligible :: "cfg \<Rightarrow> project \<Rightarrow> bool" where
  "eligible cf p \<longleftrightarrow> Live p (repo_now cf) \<and> p_Private p \<and> digestRE (p_PasswordDigest p) \<and> p_PasswordRevision p > 0"

definition unlock_target :: "cfg \<Rightarrow> ('v, doc) codec \<Rightarrow> string \<Rightarrow> ('v, project option) txm" where
  "unlock_target cf cd slug =
     tx_bind (tx_optional (Get cd asSlug (raftRef ''slugs'' slug))) (\<lambda>idx. case idx of
       None \<Rightarrow> tx_return None
     | Some pid \<Rightarrow>
         tx_bind (tx_optional (Get cd asProject (raftRef ''projects'' pid))) (\<lambda>found.
         tx_return (case found of None \<Rightarrow> None | Some p \<Rightarrow> if eligible cf p then Some p else None)))"

text \<open>The transaction commits the charged budgets whether or not the project is eligible; the refusal
  of an ineligible project comes after it (\<open>BeginUnlock_result\<close>).\<close>

definition BeginUnlock :: "cfg \<Rightarrow> ('v, doc) codec \<Rightarrow> actor \<Rightarrow> string \<Rightarrow> ('v, project option) txm" where
  "BeginUnlock cf cd a slug =
     tx_bind (tx_guard (\<not> slugRE slug) ErrUnlockDenied) (\<lambda>_.
     tx_bind (authorize cf cd a) (\<lambda>_.
     tx_bind (unlock_target cf cd slug) (\<lambda>target.
     tx_bind (read_budgets cd (repo_now cf) (unlock_keys cf a target)) (\<lambda>bs.
     tx_bind (write_budgets cf cd (unlock_keys cf a target) bs) (\<lambda>_.
     tx_return target)))))"

definition BeginUnlock_result :: "err + project option \<Rightarrow> err + project" where
  "BeginUnlock_result r = (case r of
     Inl e \<Rightarrow> Inl e | Inr None \<Rightarrow> Inl ErrUnlockDenied | Inr (Some p) \<Rightarrow> Inr p)"

definition unlock_grant :: "cfg \<Rightarrow> actor \<Rightarrow> project \<Rightarrow> grant" where
  "unlock_grant cf a p = \<lparr>g_ProjectID = p_ID p, g_SessionDigest = u_SessionDigest a,
     g_PolicyRevision = p_PolicyRevision p,
     g_ExpiresAt = (case p_ExpiresAt p of
        Some e \<Rightarrow> if e < repo_now cf + hour then e else repo_now cf + hour
      | None \<Rightarrow> repo_now cf + hour)\<rparr>"

definition CompleteUnlock ::
  "cfg \<Rightarrow> ('v, doc) codec \<Rightarrow> actor \<Rightarrow> project \<Rightarrow> string \<Rightarrow> ('v, grant) txm" where
  "CompleteUnlock cf cd a verified digest =
     tx_bind (tx_guard (\<not> idRE (p_ID verified) \<or> \<not> digestRE digest) ErrInvalid) (\<lambda>_.
     tx_bind (authorize cf cd a) (\<lambda>_.
     tx_bind (tx_missing ErrUnlockDenied (Get cd asProject (raftRef ''projects'' (p_ID verified)))) (\<lambda>p.
     tx_bind (tx_guard (\<not> Live p (repo_now cf) \<or> \<not> p_Private p \<or> p_PolicyRevision p \<noteq> p_PolicyRevision verified
         \<or> p_PasswordDigest p \<noteq> p_PasswordDigest verified
         \<or> p_PasswordRevision p \<noteq> p_PasswordRevision verified) ErrUnlockDenied) (\<lambda>_.
     let result = unlock_grant cf a p in
     tx_bind (raftTx_Create cf cd (raftRef ''grants'' digest) (DGrant result)) (\<lambda>_.
     tx_return result)))))"

section \<open>Validating a grant\<close>

text \<open>The three validations differ in what the project must still agree with.\<close>

definition check_grant ::
  "cfg \<Rightarrow> ('v, doc) codec \<Rightarrow> actor \<Rightarrow> string \<Rightarrow> string \<Rightarrow> (project \<Rightarrow> bool) \<Rightarrow> ('v, unit) txm" where
  "check_grant cf cd a i token same = (case Digest (cf_sha cf) token of
     Inl e \<Rightarrow> tx_throw ErrUnlockDenied
   | Inr digest \<Rightarrow>
       tx_bind (tx_guard (\<not> idRE i) ErrUnlockDenied) (\<lambda>_.
       tx_bind (authorize cf cd a) (\<lambda>_.
       tx_bind (tx_missing ErrUnlockDenied (Get cd asGrant (raftRef ''grants'' digest))) (\<lambda>g.
       tx_bind (tx_guard (g_ProjectID g \<noteq> i \<or> g_SessionDigest g \<noteq> u_SessionDigest a
           \<or> \<not> repo_now cf < g_ExpiresAt g) ErrUnlockDenied) (\<lambda>_.
       tx_bind (tx_missing ErrUnlockDenied (Get cd asProject (raftRef ''projects'' i))) (\<lambda>p.
       tx_guard (\<not> Live p (repo_now cf) \<or> \<not> p_Private p \<or> p_PolicyRevision p \<noteq> g_PolicyRevision g
           \<or> \<not> same p) ErrUnlockDenied))))))"

definition ValidateGrant :: "cfg \<Rightarrow> ('v, doc) codec \<Rightarrow> actor \<Rightarrow> string \<Rightarrow> string \<Rightarrow> ('v, unit) txm" where
  "ValidateGrant cf cd a i token = check_grant cf cd a i token (\<lambda>_. True)"

text \<open>\<open>runServing\<close> makes the body read-only and maps a missing record to the project's not-found.\<close>

definition runServing :: "('v, 'a) txm \<Rightarrow> ('v, 'a) txm" where
  "runServing body = tx_missing ErrNotFound (\<lambda>t. body (t\<lparr>tx_readOnly := True\<rparr>))"

definition ValidateGrantForServing :: "cfg \<Rightarrow> ('v, doc) codec \<Rightarrow> actor \<Rightarrow> string \<Rightarrow> string \<Rightarrow> ('v, unit) txm" where
  "ValidateGrantForServing cf cd a i token = runServing (check_grant cf cd a i token (\<lambda>_. True))"

definition ValidateSelectedGrantForServing ::
  "cfg \<Rightarrow> ('v, doc) codec \<Rightarrow> actor \<Rightarrow> project \<Rightarrow> string \<Rightarrow> ('v, unit) txm" where
  "ValidateSelectedGrantForServing cf cd a selected token =
     runServing (check_grant cf cd a (p_ID selected) token
       (\<lambda>p. p_PolicyRevision p = p_PolicyRevision selected \<and> p_ActiveDigest p = p_ActiveDigest selected
          \<and> p_Slug p = p_Slug selected))"

definition ResolveForServing :: "cfg \<Rightarrow> ('v, doc) codec \<Rightarrow> string \<Rightarrow> ('v, project) txm" where
  "ResolveForServing cf cd slug = runServing (Resolve cf cd slug)"

definition GetOwnedForServing :: "cfg \<Rightarrow> ('v, doc) codec \<Rightarrow> actor \<Rightarrow> string \<Rightarrow> ('v, project) txm" where
  "GetOwnedForServing cf cd a i = runServing (GetOwned cf cd a i)"

section \<open>Effects\<close>

lemma replays_tx_refuse [replay_intros]: "replays_all (tx_refuse e)"
  unfolding tx_refuse_def by (intro replay_intros)

lemma write_budgets_InrE:
  assumes "write_budgets cf cd keys bs t = (Inr x, u)" "good_env cd (tx_read t)" "length bs = length keys"
  shows "tx_read u = tx_read t \<and> within {''unlock_budgets''} (docs cd t) (docs cd u)
    \<and> (\<forall>k. docs cd u (raftRef ''unlock_budgets'' k) =
        (case map_of (rev (zip (map fst keys) bs)) k of None \<Rightarrow> docs cd t (raftRef ''unlock_budgets'' k)
         | Some b \<Rightarrow> Some (DBudget b)))"
  using assms
proof (induction keys bs arbitrary: t rule: list_induct2')
  case (4 k ks b bs)
  obtain key lim where k: "k = (key, lim)" by fastforce
  obtain v where v: "Set cd (raftRef ''unlock_budgets'' key) (DBudget b) t = (Inr (), v)"
    "write_budgets cf cd ks bs v = (Inr x, u)"
    using "4.prems"(1) k by (auto simp: raftTx_Set_other simp del: tx_bind_app elim!: tx_bind_InrE)
  have dv: "docs cd v = (docs cd t)(raftRef ''unlock_budgets'' key \<mapsto> DBudget b)" "tx_read v = tx_read t"
    using v(1) "4.prems"(2) by (auto elim!: Set_InrE)
  have g: "good_env cd (tx_read v)" "length bs = length ks" using "4.prems" dv by auto
  note IH = "4.IH"[OF v(2) g]
  have "within {''unlock_budgets''} (docs cd t) (docs cd u)"
  proof (rule within_trans)
    show "within {''unlock_budgets''} (docs cd t) (docs cd v)" by (simp add: dv(1) within_upd)
    show "within {''unlock_budgets''} (docs cd v) (docs cd u)" using IH by blast
  qed
  moreover have "docs cd u (raftRef ''unlock_budgets'' j) =
      (case map_of (rev (zip (map fst (k # ks)) (b # bs))) j of
         None \<Rightarrow> docs cd t (raftRef ''unlock_budgets'' j) | Some b \<Rightarrow> Some (DBudget b))" for j
    using IH k dv(1) by (auto simp: map_add_def split: option.splits)
  ultimately show ?case using IH dv(2) by simp
qed simp_all

definition budget_at :: "(string \<Rightarrow> doc option) \<Rightarrow> string \<Rightarrow> unlock_budget" where
  "budget_at D k = (case D (raftRef ''unlock_budgets'' k) of Some (DBudget b) \<Rightarrow> b | _ \<Rightarrow> zero_budget)"

lemma read_budgets_InrE:
  assumes "read_budgets cd now keys t = (Inr bs, u)" "good_env cd (tx_read t)"
  shows "cur u = cur t \<and> tx_read u = tx_read t \<and> bs = map (\<lambda>k. charge_budget now (budget_at (docs cd t) (fst k))) keys
    \<and> (\<forall>(k, lim) \<in> set keys. b_Count (charge_budget now (budget_at (docs cd t) k)) \<le> lim)"
  using assms
proof (induction keys arbitrary: t bs)
  case (Cons k ks)
  obtain key lim where k: "k = (key, lim)" by fastforce
  let ?f = "\<lambda>found. case found of None \<Rightarrow> zero_budget | Some x \<Rightarrow> x"
  obtain found v bs' where v: "tx_optional (Get cd asBudget (raftRef ''unlock_budgets'' key)) t = (Inr found, v)"
    and g: "(if \<not> now < b_ExpiresAt (?f found) then 0 else b_Count (?f found)) < lim"
    and r: "read_budgets cd now ks v = (Inr bs', u)" and bs: "bs = charge_budget now (?f found) # bs'"
    using Cons.prems(1) k
    by (auto simp: Let_def not_le simp del: tx_bind_app elim!: tx_bind_InrE tx_guard_InrE tx_return_InrE)
  have f: "?f found = budget_at (docs cd t) key" "cur v = cur t" "tx_read v = tx_read t"
    using v Cons.prems(2) by (auto simp: budget_at_def elim!: tx_elims)
  have "b_Count (charge_budget now (budget_at (docs cd t) key)) \<le> lim"
    using g unfolding f(1) by (auto simp: charge_budget_def Let_def)
  then show ?case using Cons.IH[OF r] Cons.prems(2) f bs k by auto
qed auto

lemma map_of_same: "map_of (rev (zip ks (map f ks))) k = (if k \<in> set ks then Some (f k) else None)"
  by (induction ks) (auto simp: map_add_def split: option.splits)

lemma unlock_target_InrE [tx_elims]:
  assumes "unlock_target cf cd slug t = (Inr target, u)"
  obtains "cur u = cur t" "tx_read u = tx_read t"
    "\<And>p. target = Some p \<Longrightarrow> eligible cf p \<and> (\<exists>pid. docs cd t (raftRef ''slugs'' slug) = Some (DSlug pid)
       \<and> docs cd t (raftRef ''projects'' pid) = Some (DProject p))"
  using assms that unfolding unlock_target_def
  by (auto simp del: tx_bind_app split: option.splits if_splits elim!: tx_elims)

lemma BeginUnlock_effect:
  assumes "BeginUnlock cf cd a slug t = (Inr target, u)" "good_env cd (tx_read t)"
  shows "(\<forall>k lim. (k, lim) \<in> set (unlock_keys cf a target) \<longrightarrow>
        docs cd u (raftRef ''unlock_budgets'' k) = Some (DBudget (charge_budget (repo_now cf) (budget_at (docs cd t) k)))
        \<and> b_Count (charge_budget (repo_now cf) (budget_at (docs cd t) k)) \<le> lim)
    \<and> within {''unlock_budgets''} (docs cd t) (docs cd u)
    \<and> (\<forall>p. target = Some p \<longrightarrow> eligible cf p \<and> (\<exists>pid. docs cd t (raftRef ''slugs'' slug) = Some (DSlug pid)
       \<and> docs cd t (raftRef ''projects'' pid) = Some (DProject p)))
    \<and> (\<forall>k. k \<notin> fst ` set (unlock_keys cf a target) \<longrightarrow>
        docs cd u (raftRef ''unlock_budgets'' k) = docs cd t (raftRef ''unlock_budgets'' k))"
proof -
  let ?keys = "unlock_keys cf a target" and ?now = "repo_now cf"
  let ?charge = "\<lambda>k. charge_budget ?now (budget_at (docs cd t) k)"
  obtain v bs w where v: "cur v = cur t" "tx_read v = tx_read t"
    "\<And>p. target = Some p \<Longrightarrow> eligible cf p \<and> (\<exists>pid. docs cd t (raftRef ''slugs'' slug) = Some (DSlug pid)
       \<and> docs cd t (raftRef ''projects'' pid) = Some (DProject p))"
    and r: "read_budgets cd ?now ?keys v = (Inr bs, w)" and wr: "write_budgets cf cd ?keys bs w = (Inr (), u)"
    using assms(1) unfolding BeginUnlock_def
    by (auto simp del: tx_bind_app elim!: tx_bind_InrE tx_guard_InrE tx_return_InrE authorize_InrE unlock_target_InrE)
  have b: "cur w = cur t" "tx_read w = tx_read t" "bs = map (\<lambda>k. ?charge (fst k)) ?keys"
    "(k, lim) \<in> set ?keys \<Longrightarrow> b_Count (?charge k) \<le> lim" for k lim
    using read_budgets_InrE[OF r] assms(2) v by auto
  have z: "zip (map fst ?keys) bs = zip (map fst ?keys) (map ?charge (map fst ?keys))"
    using b(3) by (simp add: comp_def)
  have "within {''unlock_budgets''} (docs cd t) (docs cd u)
    \<and> (\<forall>k. docs cd u (raftRef ''unlock_budgets'' k) = (if k \<in> fst ` set ?keys then Some (DBudget (?charge k))
         else docs cd t (raftRef ''unlock_budgets'' k)))"
    using write_budgets_InrE[OF wr] assms(2) b(1,2,3) unfolding z map_of_same by auto
  then show ?thesis using b(4) v(3) by force
qed

lemma check_grant_InrE:
  assumes "check_grant cf cd a i token same t = (Inr x, u)"
  obtains digest g p where "Digest (cf_sha cf) token = Inr digest"
    "docs cd t (raftRef ''grants'' digest) = Some (DGrant g)"
    "docs cd t (raftRef ''projects'' i) = Some (DProject p)" "g_ProjectID g = i"
    "g_SessionDigest g = u_SessionDigest a" "repo_now cf < g_ExpiresAt g" "Live p (repo_now cf)"
    "p_Private p" "p_PolicyRevision p = g_PolicyRevision g" "same p" "cur u = cur t"
proof (cases "Digest (cf_sha cf) token")
  case (Inr digest)
  then show ?thesis using assms that unfolding check_grant_def
    by (simp del: tx_bind_app) (elim tx_elims, auto)
qed (use assms in \<open>simp add: check_grant_def\<close>)

lemma CompleteUnlock_InrE:
  assumes "CompleteUnlock cf cd a verified digest t = (Inr g, u)" "good_env cd (tx_read t)"
  obtains p where "docs cd t (raftRef ''projects'' (p_ID verified)) = Some (DProject p)"
    "Live p (repo_now cf)" "p_Private p" "p_PolicyRevision p = p_PolicyRevision verified"
    "p_PasswordDigest p = p_PasswordDigest verified" "p_PasswordRevision p = p_PasswordRevision verified"
    "g = unlock_grant cf a p" "docs cd t (raftRef ''grants'' digest) = None"
    "docs cd u = (docs cd t)(raftRef ''grants'' digest \<mapsto> DGrant g)"
  using assms that unfolding CompleteUnlock_def Let_def
  by (elim tx_elims raftTx_Create_other_InrE) simp_all

section \<open>Properties\<close>

text \<open>
  A run in which \<open>n\<close> unlock attempts that count against the budget \<open>k\<close> succeed at clock readings of the
  minute \<open>w\<close>. In between, other transactions may change any other document, and maintenance may
  delete the budget once it expired by a clock that has not passed the minute.
\<close>

inductive unlock_run ::
  "('v, doc) codec \<Rightarrow> string \<Rightarrow> int \<Rightarrow> time \<Rightarrow> nat \<Rightarrow> (string \<Rightarrow> doc option) \<Rightarrow> bool" for cd k lim w where
  start: "0 \<le> b_Count (budget_at D k) \<Longrightarrow> unlock_run cd k lim w 0 D"
| attempt: "unlock_run cd k lim w n (docs cd t) \<Longrightarrow> good_env cd (tx_read t) \<Longrightarrow>
    Truncate (repo_now cf) minute = w \<Longrightarrow> BeginUnlock cf cd a slug t = (Inr target, u) \<Longrightarrow>
    (k, lim) \<in> set (unlock_keys cf a target) \<Longrightarrow> unlock_run cd k lim w (Suc n) (docs cd u)"
| cleanup: "unlock_run cd k lim w n D \<Longrightarrow> b_ExpiresAt (budget_at D k) \<le> now \<Longrightarrow> now < w + minute \<Longrightarrow>
    unlock_run cd k lim w n (D(raftRef ''unlock_budgets'' k := None))"
| other: "unlock_run cd k lim w n D \<Longrightarrow> D' (raftRef ''unlock_budgets'' k) = D (raftRef ''unlock_budgets'' k) \<Longrightarrow>
    unlock_run cd k lim w n D'"

lemma unlock_run_budget:
  assumes "unlock_run cd k lim w n D"
  shows "0 \<le> b_Count (budget_at D k) \<and> (n = 0 \<or> (int n \<le> b_Count (budget_at D k)
    \<and> b_Count (budget_at D k) \<le> lim \<and> w + minute \<le> b_ExpiresAt (budget_at D k)))"
  using assms
proof induction
  case (attempt n t cf a slug target u)
  let ?b = "budget_at (docs cd t) k" and ?now = "repo_now cf"
  let ?c = "charge_budget ?now ?b"
  have "docs cd u (raftRef ''unlock_budgets'' k) = Some (DBudget ?c)" and lim: "b_Count ?c \<le> lim"
    using BeginUnlock_effect[OF attempt.hyps(4,2)] attempt.hyps(5) by auto
  then have u: "budget_at (docs cd u) k = ?c" by (simp add: budget_at_def)
  have e: "w + minute \<le> b_ExpiresAt ?c"
    using attempt.hyps(3) by (auto simp: charge_budget_def Let_def)
  have "?now < w + minute" using attempt.hyps(3) Truncate_add_gt[of minute ?now] by (simp add: duration_defs)
  then have "n \<noteq> 0 \<Longrightarrow> b_Count ?c = b_Count ?b + 1" using attempt.IH by (auto simp: charge_budget_def Let_def)
  moreover have "1 \<le> b_Count ?c" using attempt.IH by (auto simp: charge_budget_def Let_def)
  ultimately show ?case using attempt.IH u lim e by (cases "n = 0") auto
next
  case (cleanup n D now)
  then show ?case by (auto simp: budget_at_def zero_budget_def)
qed (auto simp: budget_at_def)

text \<open>
  C32. Unlocking is rate limited: in any one minute at most sixty attempts pass in total, ten from one
  session and ten on one project (the budgets of \<open>unlock_keys\<close>), whether or not the slug names a
  protected project, across clock steps and maintenance.
\<close>

theorem unlock_rate_limit:
  assumes "unlock_run cd k lim w n D" "0 \<le> lim"
  shows "int n \<le> lim"
  using unlock_run_budget[OF assms(1)] assms(2) by auto

text \<open>
  A grant opens a project only in the browser session and under the exact access policy it was
  issued for: it is issued for a live private project whose policy and password are the verified
  ones, lasts at most an hour and not beyond the project, and as long as the grant record stands, a
  validation succeeds only for the same session and project, before its expiry, while the project is
  live, private and its policy revision unchanged.
\<close>

theorem grant_scope:
  assumes issued: "CompleteUnlock cf cd a verified digest t = (Inr g, u)" "good_env cd (tx_read t)"
    and kept: "docs cd t' (raftRef ''grants'' digest) = docs cd u (raftRef ''grants'' digest)"
    and used: "Digest (cf_sha cf') token = Inr digest" "ValidateGrant cf' cd a' i token t' = (Inr (), u')"
  shows "u_SessionDigest a' = u_SessionDigest a \<and> repo_now cf' < repo_now cf + hour
    \<and> (\<exists>p0 p. docs cd t (raftRef ''projects'' (p_ID verified)) = Some (DProject p0) \<and> i = p_ID p0
      \<and> Live p0 (repo_now cf) \<and> p_Private p0 \<and> p_PasswordDigest p0 = p_PasswordDigest verified
      \<and> (\<forall>e. p_ExpiresAt p0 = Some e \<longrightarrow> repo_now cf' < e)
      \<and> docs cd t' (raftRef ''projects'' i) = Some (DProject p) \<and> Live p (repo_now cf') \<and> p_Private p
      \<and> p_PolicyRevision p = p_PolicyRevision verified)"
proof -
  obtain p0 where p0: "docs cd t (raftRef ''projects'' (p_ID verified)) = Some (DProject p0)"
    "Live p0 (repo_now cf)" "p_Private p0" "p_PolicyRevision p0 = p_PolicyRevision verified"
    "p_PasswordDigest p0 = p_PasswordDigest verified" "g = unlock_grant cf a p0"
    "docs cd u (raftRef ''grants'' digest) = Some (DGrant g)"
    using issued by (elim CompleteUnlock_InrE) auto
  obtain g' p where g': "docs cd t' (raftRef ''grants'' digest) = Some (DGrant g')"
    "docs cd t' (raftRef ''projects'' i) = Some (DProject p)" "g_ProjectID g' = i"
    "g_SessionDigest g' = u_SessionDigest a'" "repo_now cf' < g_ExpiresAt g'" "Live p (repo_now cf')"
    "p_Private p" "p_PolicyRevision p = g_PolicyRevision g'"
    using used unfolding ValidateGrant_def by (elim check_grant_InrE) auto
  have "g' = g" using kept p0(7) g'(1) by simp
  then show ?thesis using p0 g' by (auto simp: unlock_grant_def split: option.splits if_splits)
qed

section \<open>Witnesses\<close>

definition demo_hash :: "hashable \<Rightarrow> string" where
  "demo_hash h = replicate 63 (CHR ''0'') @ (case h of
       HStrings (x # xs) \<Rightarrow> if x = ''anonymous'' then ''1'' else if x = ''global'' then ''2'' else ''3''
     | _ \<Rightarrow> ''0'')"

definition demo_time :: time where "demo_time = 5 * minute"

definition demo_cfg :: cfg where
  "demo_cfg = \<lparr>cf_clock = demo_time, cf_hash = demo_hash, cf_sha = (\<lambda>_. replicate 64 (CHR ''1'')),
     cf_json_len = (\<lambda>_. None), cf_StorageOffers = None, cf_AnonymousLimit = 0, cf_AccountLimit = 0,
     cf_AnonymousByteLimit = 0, cf_AccountByteLimit = 0\<rparr>"

definition demo_bearer :: actor where
  "demo_bearer = zero_actor\<lparr>u_UID := ''alice'', u_firebaseBearerUntil := 1000 * hour\<rparr>"

lemma demo_cfg_facts [simp]: "cf_hash demo_cfg = demo_hash" "repo_now demo_cfg = demo_time"
  "cf_sha demo_cfg s = replicate 64 (CHR ''1'')" "cf_StorageOffers demo_cfg = None"
  "0 \<le> demo_time" "demo_time < 1000 * hour" "Truncate demo_time minute = demo_time"
  by (simp_all add: demo_cfg_def demo_time_def repo_now_def Truncate_def duration_defs)

lemma demo_bearer_facts [simp]: "u_UID demo_bearer = ''alice''" "u_SessionDigest demo_bearer = []"
  "u_AnonymousID demo_bearer = []" "u_AgentKeyDigest demo_bearer = []" "u_UploadTicketDigest demo_bearer = []"
  "u_firebaseBearerUntil demo_bearer = 1000 * hour" "Owner demo_bearer = \<lparr>o_Kind = ''firebase'', o_ID = ''alice''\<rparr>"
  by (simp_all add: demo_bearer_def zero_actor_def Owner_def)

lemma execs_demo_authorize: "execs (authorize demo_cfg cd demo_bearer) D k (Inr ()) D k"
  by (simp add: authorize_def authorizeFirebaseBearer_def IsZero_def execs_return hour_def second_def
      demo_time_def minute_def)

lemma execs_read_budgets:
  assumes "\<forall>x \<in> set keys. D (raftRef ''unlock_budgets'' (fst x)) = None \<and> 0 < snd x" "n + length keys \<le> 128"
    "0 \<le> now"
  shows "execs (read_budgets doc_codec now keys) D n (Inr (map (\<lambda>_. charge_budget now zero_budget) keys)) D (n + length keys)"
  using assms(1,2)
proof (induction keys arbitrary: n)
  case (Cons k ks)
  obtain key lim where k: "k = (key, lim)" by fastforce
  have d: "D (raftRef ''unlock_budgets'' key) = None" "0 < lim" using Cons.prems(1) k by auto
  have IH: "execs (read_budgets doc_codec now ks) D (Suc n)
      (Inr (map (\<lambda>_. charge_budget now zero_budget) ks)) D (Suc n + length ks)"
    using Cons.prems by (intro Cons.IH) auto
  have "execs (read_budgets doc_codec now (k # ks)) D n
      (Inr (charge_budget now zero_budget # map (\<lambda>_. charge_budget now zero_budget) ks)) D (Suc n + length ks)"
    unfolding k read_budgets.simps Let_def
    by (rule execs_bind[OF execs_optional_missing[OF execs_Get_missing]] execs_bind[OF execs_guard]
        execs_bind[OF IH] execs_return | use d Cons.prems(2) assms(3) in \<open>simp add: zero_budget_def\<close>)+
  then show ?case by simp
qed (simp add: execs_return)

definition demo_id :: string where "demo_id = replicate 32 (CHR ''a'')"

definition demo_project :: project where
  "demo_project = zero_project\<lparr>p_ID := demo_id, p_Owner := Owner demo_bearer, p_Slug := ''site'',
     p_Status := ''active'', p_Private := True, p_PasswordDigest := replicate 64 (CHR ''b''),
     p_PasswordRevision := 2, p_PolicyRevision := 2, p_Revision := 1, p_ChargedBytes := 1048576\<rparr>"

lemma demo_project_facts [simp]:
  "Live demo_project now" "p_Private demo_project" "p_PolicyRevision demo_project = 2"
  "p_ID demo_project = demo_id" "idRE demo_id" "p_ExpiresAt demo_project = None"
  "p_PasswordDigest demo_project = replicate 64 (CHR ''b'')" "p_PasswordRevision demo_project = 2"
  "p_Owner demo_project = Owner demo_bearer" "p_Slug demo_project = ''site''"
  "p_Status demo_project = ''active''" "p_PendingOperation demo_project = []" "p_Revision demo_project = 1"
  "p_ChargedBytes demo_project = 1048576" "p_StorageApp demo_project = []"
  by (simp_all add: demo_project_def zero_project_def Live_def demo_id_def idRE_def is_hex_def
      char_between_def is_digit_def list_all_iff)

theorem unlock_rate_limit_witness:
  "\<exists>D. unlock_run doc_codec (demo_hash (HStrings [''global''])) 60 (demo_time) 1 D \<and> int 1 \<le> 60"
proof -
  let ?cf = "demo_cfg" and ?k = "demo_hash (HStrings [''global''])"
  let ?j = "demo_hash (HStrings [''session'', u_SessionDigest demo_bearer])" and ?E = "\<lambda>_. None"
  let ?b = "charge_budget demo_time zero_budget"
  let ?D = "?E(raftRef ''unlock_budgets'' ?k \<mapsto> DBudget ?b, raftRef ''unlock_budgets'' ?j \<mapsto> DBudget ?b)"
  have keys: "unlock_keys ?cf demo_bearer None = [(?k, 60), (?j, 10)]" by (simp add: unlock_keys_def)
  have T: "execs (unlock_target ?cf doc_codec ''site'') ?E 0 (Inr None) ?E (Suc 0)"
    unfolding unlock_target_def
    by (rule execs_bind[OF execs_optional_missing[OF execs_Get_missing]]) (simp_all add: execs_return)
  have R: "execs (read_budgets doc_codec (repo_now ?cf) (unlock_keys ?cf demo_bearer None)) ?E (Suc 0)
      (Inr [?b, ?b]) ?E (Suc 0 + 2)"
    using execs_read_budgets[of "[(?k, 60), (?j, 10)]" ?E "Suc 0" demo_time]
    unfolding keys by (simp del: read_budgets.simps)
  have W: "execs (write_budgets ?cf doc_codec (unlock_keys ?cf demo_bearer None) [?b, ?b]) ?E (Suc 0 + 2)
      (Inr ()) ?D (Suc (Suc (Suc 0 + 2)))"
    unfolding keys write_budgets.simps
    by (rule execs_bind[OF execs_Set] execs_return | simp add: raftTx_Set_other del: tx_bind_app)+
  have S: "slugRE ''site''"
    by (simp add: slugRE_def label_re_def is_lower_alnum_def is_lower_def is_digit_def char_between_def)
  have "execs (BeginUnlock ?cf doc_codec demo_bearer ''site'') ?E 0 (Inr None) ?D (Suc (Suc (Suc 0 + 2)))"
    unfolding BeginUnlock_def
    by (intro execs_bind[OF execs_guard] execs_bind[OF execs_demo_authorize] execs_bind[OF T]
        execs_bind[OF R] execs_bind[OF W] execs_return) (simp add: S)
  from execs_start[OF this] obtain u where
    u: "BeginUnlock ?cf doc_codec demo_bearer ''site'' (start_tx ?E) = (Inr None, u)" by blast
  have "unlock_run doc_codec ?k 60 (demo_time) 0 (docs doc_codec (start_tx ?E))"
    using runs_docs(1)[OF start_tx_runs] by (intro unlock_run.start) (simp add: budget_at_def zero_budget_def)
  then have "unlock_run doc_codec ?k 60 (demo_time) (Suc 0) (docs doc_codec u)"
    by (rule unlock_run.attempt[OF _ runs_docs(2)[OF start_tx_runs] _ u])
      (simp_all add: keys)
  then show ?thesis using unlock_rate_limit[of doc_codec ?k 60 "demo_time" 1] by auto
qed

definition demo_token :: string where "demo_token = replicate 43 (CHR ''A'')"

lemma demo_token_digest [simp]: "Digest (cf_sha demo_cfg) demo_token = Inr (replicate 64 (CHR ''1''))"
  by (simp add: Digest_def base64url32_def base64url_value_def demo_token_def list_all_iff is_upper_def char_between_def)

lemma digestRE_ones [simp]: "digestRE (replicate 64 (CHR ''1''))"
  by (simp add: digestRE_def list_all_iff is_hex_def is_digit_def char_between_def)

theorem grant_scope_witness:
  "\<exists>D. D (raftRef ''projects'' demo_id) = Some (DProject demo_project) \<and> demo_time < demo_time + hour
    \<and> p_PolicyRevision demo_project = 2"
proof -
  let ?d = "replicate 64 (CHR ''1'')" and ?g = "unlock_grant demo_cfg demo_bearer demo_project"
  let ?D = "[raftRef ''projects'' demo_id \<mapsto> DProject demo_project]"
  let ?D' = "?D(raftRef ''grants'' ?d \<mapsto> DGrant ?g)"
  have "execs (CompleteUnlock demo_cfg doc_codec demo_bearer demo_project ?d) ?D 0 (Inr ?g) ?D' (Suc (Suc (Suc 0)))"
    unfolding CompleteUnlock_def Let_def raftTx_Create_def
    by (rule execs_bind[OF execs_guard] execs_bind[OF execs_demo_authorize] execs_bind[OF execs_missing[OF execs_Get]]
        execs_bind[OF execs_optional_missing[OF execs_Exists_missing]] execs_bind execs_return execs_Set
      | simp add: raftTx_Set_other key_simps del: tx_bind_app)+
  from execs_start[OF this] obtain u where u:
    "CompleteUnlock demo_cfg doc_codec demo_bearer demo_project ?d (start_tx ?D) = (Inr ?g, u)"
    "docs doc_codec u = ?D'" by blast
  have "execs (ValidateGrant demo_cfg doc_codec demo_bearer demo_id demo_token) ?D' 0 (Inr ()) ?D' (Suc (Suc 0))"
    unfolding ValidateGrant_def check_grant_def
    by (simp del: tx_bind_app) ((rule execs_bind[OF execs_guard] execs_bind[OF execs_demo_authorize]
        execs_bind[OF execs_missing[OF execs_Get]] execs_guard
      | simp add: key_simps unlock_grant_def duration_defs del: tx_bind_app)+)
  from execs_start[OF this] obtain u' where u':
    "ValidateGrant demo_cfg doc_codec demo_bearer demo_id demo_token (start_tx ?D') = (Inr (), u')" by blast
  show ?thesis
    using grant_scope[OF u(1) runs_docs(2)[OF start_tx_runs] _ demo_token_digest u'] u(2)
      runs_docs(1)[OF start_tx_runs] by (intro exI[of _ ?D']) (auto simp: key_simps)
qed

end
