(* ===== verification/Project_Refine.thy ===== *)
theory Project_Refine
  imports Project_Core Project_Unlock
begin

text \<open>
  The refinement: \<open>core_of\<close> reads the four abstract maps out of the stored documents, and every
  handler, run to success on any documents that satisfy the invariant, is a transition of the
  abstract specification and keeps the owner index exact. \<open>repo_step\<close> collects the handlers, and the
  invariants and safety properties of the repository follow for every reachable store.
\<close>

section \<open>Abstraction\<close>

definition slug_at :: "(string \<Rightarrow> doc option) \<Rightarrow> string \<Rightarrow> string option" where
  "slug_at D s = (case D (raftRef ''slugs'' s) of Some (DSlug i) \<Rightarrow> Some i | _ \<Rightarrow> None)"

definition op_at :: "(string \<Rightarrow> doc option) \<Rightarrow> string \<Rightarrow> operation option" where
  "op_at D k = (case D (raftRef ''operations'' k) of Some (DOperation op) \<Rightarrow> Some op | _ \<Rightarrow> None)"

definition quota_at :: "(string \<Rightarrow> doc option) \<Rightarrow> string \<Rightarrow> quota" where
  "quota_at D h = (case D (raftRef ''quotas'' h) of Some (DQuota q) \<Rightarrow> q | _ \<Rightarrow> empty_quota)"

definition core_of :: "(string \<Rightarrow> doc option) \<Rightarrow> core" where
  "core_of D = \<lparr>c_projects = proj D, c_quotas = quota_at D, c_slugs = slug_at D, c_ops = op_at D\<rparr>"

definition core_collections :: "string set" where
  "core_collections = {''projects'', ''quotas'', ''slugs'', ''operations''}"

lemma core_of_sel [simp]:
  "c_projects (core_of D) = proj D" "c_quotas (core_of D) = quota_at D" "c_slugs (core_of D) = slug_at D"
  "c_ops (core_of D) = op_at D"
  by (simp_all add: core_of_def)

lemma core_eqI: "c_projects c = c_projects c' \<Longrightarrow> c_quotas c = c_quotas c' \<Longrightarrow> c_slugs c = c_slugs c' \<Longrightarrow>
    c_ops c = c_ops c' \<Longrightarrow> c = (c' :: core)"
  by simp

lemma proj_other: "plain c \<Longrightarrow> c \<noteq> ''projects'' \<Longrightarrow> proj (D(raftRef c i := x)) = proj D"
  and slug_at_other: "plain c \<Longrightarrow> c \<noteq> ''slugs'' \<Longrightarrow> slug_at (D(raftRef c i := x)) = slug_at D"
  and op_at_other: "plain c \<Longrightarrow> c \<noteq> ''operations'' \<Longrightarrow> op_at (D(raftRef c i := x)) = op_at D"
  and quota_at_other: "plain c \<Longrightarrow> c \<noteq> ''quotas'' \<Longrightarrow> quota_at (D(raftRef c i := x)) = quota_at D"
  by (rule ext, simp add: proj_def slug_at_def op_at_def quota_at_def key_simps)+

lemma core_of_upd [simp]:
  "core_of (D(raftRef ''projects'' i \<mapsto> DProject p)) = set_proj i p (core_of D)"
  "core_of (D(raftRef ''quotas'' h \<mapsto> DQuota q)) = set_quota h q (core_of D)"
  "core_of (D(raftRef ''slugs'' s \<mapsto> DSlug i)) = set_slug s (Some i) (core_of D)"
  "core_of (D(raftRef ''slugs'' s := None)) = set_slug s None (core_of D)"
  "core_of (D(raftRef ''operations'' k \<mapsto> DOperation op)) = set_op k op (core_of D)"
  by (rule core_eqI; simp add: proj_other slug_at_other op_at_other quota_at_other;
      auto simp: fun_eq_iff slug_at_def op_at_def quota_at_def)+

lemma core_within:
  assumes "within S D D'" "S \<inter> core_collections = {}"
  shows "core_of D' = core_of D"
proof -
  have "D' (raftRef c i) = D (raftRef c i)" if "c \<in> core_collections" "plain c" for c i
    using assms that by (auto intro!: withinD)
  then show ?thesis
    by (intro core_eqI) (auto simp: fun_eq_iff proj_def slug_at_def op_at_def quota_at_def core_collections_def)
qed

lemma core_index [simp]: "index_collections \<inter> core_collections = {}"
  by (auto simp: core_collections_def)

lemma core_alloc [simp]: "alloc_collections \<inter> core_collections = {}"
  by (auto simp: core_collections_def)

lemma core_of_other [simp]: "plain c \<Longrightarrow> c \<notin> core_collections \<Longrightarrow> core_of (D(raftRef c i := x)) = core_of D"
  by (rule core_within[of "{c}"]) (auto intro: within_upd)

lemma not_core [simp]: "''digests'' \<notin> core_collections" "''transfers'' \<notin> core_collections"
  "''agent_upload_tickets'' \<notin> core_collections" "''revision_removals'' \<notin> core_collections"
  "''retirements'' \<notin> core_collections" "''storage_versions'' \<notin> core_collections"
  "''storage_allocations'' \<notin> core_collections" "''grants'' \<notin> core_collections"
  "''unlock_budgets'' \<notin> core_collections"
  by (simp_all add: core_collections_def)

lemma index_within:
  assumes "within S D D'" "''projects'' \<notin> S" "''owner_projects'' \<notin> S"
  shows "index_ok cf D' = index_ok cf D"
proof -
  have "proj D' = proj D" using proj_within[OF assms(1,2)] .
  moreover have "D' (raftRef ''owner_projects'' h) = D (raftRef ''owner_projects'' h)" for h
    using assms by (intro withinD) simp_all
  ultimately show ?thesis by (simp add: index_ok_def index_rel_def index_at_def)
qed

lemma index_upd [simp]:
  "plain c \<Longrightarrow> c \<noteq> ''projects'' \<Longrightarrow> c \<noteq> ''owner_projects'' \<Longrightarrow> index_ok cf (D(raftRef c i := x)) = index_ok cf D"
  by (rule index_within[of "{c}"]) (auto intro: within_upd)

section \<open>Refinement\<close>

definition refines :: "cfg \<Rightarrow> (string \<Rightarrow> doc option) \<Rightarrow> (string \<Rightarrow> doc option) \<Rightarrow> bool" where
  "refines cf D D' \<longleftrightarrow> core_step cf (core_of D) (core_of D') \<and> (index_ok cf D \<longrightarrow> index_ok cf D')"

lemma refines_same: "D' = D \<Longrightarrow> refines cf D D'"
  by (simp add: refines_def core_step.stutter)

lemma refines_within:
  assumes "within S D D'" "S \<inter> core_collections = {}" "''owner_projects'' \<notin> S"
  shows "refines cf D D'"
proof -
  have "''projects'' \<notin> S" using assms(2) by (auto simp: core_collections_def)
  then show ?thesis
    using core_within[OF assms(1,2)] index_within[OF assms(1) _ assms(3)] core_step.stutter by (simp add: refines_def)
qed

text \<open>A project write, seen through \<open>core_of\<close>.\<close>

lemma project_write_core:
  assumes "raftTx_Set cf cd (raftRef ''projects'' i) (DProject p) t = (Inr x, u)" "good_env cd (tx_read t)"
  shows "p_ID p = i \<and> core_of (docs cd u) = set_proj i p (core_of (docs cd t)) \<and> tx_read u = tx_read t
    \<and> (index_ok cf (docs cd t) \<longrightarrow> index_ok cf (docs cd u))
    \<and> within (insert ''projects'' index_collections) (docs cd t) (docs cd u)"
  using assms
proof (rule project_write_InrE)
  fix D1
  assume *: "p_ID p = i" "within index_collections (docs cd t) D1"
    "docs cd u = D1(raftRef ''projects'' i \<mapsto> DProject p)" "tx_read u = tx_read t"
    "index_ok cf (docs cd t) \<Longrightarrow> index_ok cf (docs cd u)"
  have "core_of D1 = core_of (docs cd t)" using core_within[OF *(2)] by simp
  moreover have "within (insert ''projects'' index_collections) (docs cd t) (docs cd u)"
    unfolding *(3) by (intro within_upd within_mono[OF *(2)]) auto
  ultimately show ?thesis using * by simp
qed

lemma proj_get: "docs cd t (raftRef ''projects'' i) = Some (DProject p) \<Longrightarrow> proj (docs cd t) i = Some p"
  by (simp add: proj_def)

lemma ids_ok: "core_ok cf (core_of D) \<Longrightarrow> proj D i = Some p \<Longrightarrow> p_ID p = i"
  by (simp add: core_ok_def project_ok_def)

lemma readQuota_at:
  assumes "readQuota cf cd o' t = (Inr q, u)"
  shows "q = quota_at (docs cd t) (ownerKey cf o') \<and> cur u = cur t \<and> tx_read u = tx_read t"
  using assms by (auto simp: quota_at_def elim!: readQuota_InrE)

lemma optional_quota_at:
  assumes "tx_optional (readQuota cf cd o') t = (Inr r, u)" "good_env cd (tx_read t)"
  shows "quota_or_empty r = quota_at (docs cd t) (ownerKey cf o') \<and> cur u = cur t \<and> tx_read u = tx_read t"
  using assms by (auto simp: quota_at_def quota_or_empty_def elim!: tx_optional_InrE readQuota_InrE readQuota_missingE)

lemma revisionProject_InrE [tx_elims]:
  assumes "revisionProject cf cd a i t = (Inr p, u)"
  obtains "proj (docs cd t) i = Some p" "Owns a (p_Owner p)" "Live p (repo_now cf)" "cur u = cur t"
    "tx_read u = tx_read t"
  using assms that unfolding revisionProject_def by (elim tx_elims) (auto dest: proj_get)

lemma clearTransfer_InrE [tx_elims]:
  assumes "clearTransfer i t = (Inr x, u)"
  obtains "within {''transfers''} (docs cd t) (docs cd u)" "tx_read u = tx_read t"
  using assms that unfolding clearTransfer_def Let_def
  by (auto simp del: tx_bind_app split: if_splits elim!: tx_elims intro: within_upd)

lemma clearTransfer_within:
  "clearTransfer i t = (Inr x, u) \<Longrightarrow> within {''transfers''} (docs cd t) (docs cd u) \<and> tx_read u = tx_read t"
  by (erule clearTransfer_InrE[where cd = cd]) simp

lemma moveToAccount_core:
  assumes "moveToAccount cf cd p uid t = (Inr p', u)" "good_env cd (tx_read t)"
  defines "no \<equiv> \<lparr>o_Kind = ''firebase'', o_ID = uid\<rparr>"
  defines "q \<equiv> quota_at (docs cd t) (key_of cf p)" and "nq \<equiv> quota_at (docs cd t) (ownerKey cf no)"
  shows "p' = p\<lparr>p_Owner := no, p_ExpiresAt := None, p_OwnerKey := ownerKey cf no, p_Revision := inc64 (p_Revision p)\<rparr>
    \<and> 1 \<le> q_Count q \<and> p_ChargedBytes p \<le> q_ChargedBytes q \<and> q_Count nq < limit cf no
    \<and> fitsBytes (q_ChargedBytes nq) (p_ChargedBytes p) (byteLimit cf no)
    \<and> core_of (docs cd u) = set_proj (p_ID p) p' (set_quota (ownerKey cf no) (quota_add nq 1 (p_ChargedBytes p))
        (set_quota (key_of cf p) (quota_add q (-1) (- p_ChargedBytes p)) (core_of (docs cd t))))
    \<and> tx_read u = tx_read t \<and> (index_ok cf (docs cd t) \<longrightarrow> index_ok cf (docs cd u))"
proof -
  let ?p = "p\<lparr>p_Owner := no, p_ExpiresAt := None, p_OwnerKey := ownerKey cf no, p_Revision := inc64 (p_Revision p)\<rparr>"
  from assms(1) obtain oq r t1 t2 t3 t4 where
    1: "readQuota cf cd (p_Owner p) t = (Inr oq, t1)" and 2: "tx_optional (readQuota cf cd no) t1 = (Inr r, t2)"
    and g: "q_Count (quota_or_empty r) < limit cf no" "\<not> (q_Count oq < 1 \<or> p_ChargedBytes p \<le> 0 \<or> p_ChargedBytes p > q_ChargedBytes oq)"
      "fitsBytes (q_ChargedBytes (quota_or_empty r)) (p_ChargedBytes p) (byteLimit cf no)"
    and 3: "Set cd (raftRef ''quotas'' (key_of cf p)) (DQuota (oq\<lparr>q_Count := q_Count oq - 1,
         q_ChargedBytes := q_ChargedBytes oq - p_ChargedBytes p\<rparr>)) t2 = (Inr (), t3)"
    and 4: "Set cd (raftRef ''quotas'' (ownerKey cf no)) (DQuota ((quota_or_empty r)\<lparr>q_Count := q_Count (quota_or_empty r) + 1,
         q_ChargedBytes := q_ChargedBytes (quota_or_empty r) + p_ChargedBytes p\<rparr>)) t3 = (Inr (), t4)"
    and 5: "raftTx_Set cf cd (raftRef ''projects'' (p_ID p)) (DProject ?p) t4 = (Inr (), u)" and p': "p' = ?p"
    unfolding moveToAccount_def Let_def no_def[symmetric]
    by (elim tx_bind_InrE tx_guard_InrE tx_return_InrE) (auto simp: raftTx_Set_other)
  have e1: "oq = q" "cur t1 = cur t" "tx_read t1 = tx_read t" using readQuota_at[OF 1] by (auto simp: q_def)
  have e2: "quota_or_empty r = nq" "cur t2 = cur t" "tx_read t2 = tx_read t"
    using optional_quota_at[OF 2] assms(2) e1 by (auto simp: nq_def)
  have e4: "docs cd t4 = (docs cd t)(raftRef ''quotas'' (key_of cf p) \<mapsto> DQuota (quota_add q (-1) (- p_ChargedBytes p)),
      raftRef ''quotas'' (ownerKey cf no) \<mapsto> DQuota (quota_add nq 1 (p_ChargedBytes p)))" "tx_read t4 = tx_read t"
    using 3 4 assms(2) e1 e2 by (auto simp: quota_add_def elim!: Set_InrE)
  have g4: "good_env cd (tx_read t4)" using e4 assms(2) by simp
  show ?thesis using project_write_core[OF 5 g4] g e1 e2 e4 p' by simp
qed

lemma Claim_refines:
  assumes "Claim cf cd a i revision t = (Inr x, u)" "good_env cd (tx_read t)" "core_ok cf (core_of (docs cd t))"
  shows "refines cf (docs cd t) (docs cd u)"
proof -
  from assms(1) obtain p v where uid: "u_UID a \<noteq> []" and v: "revisionProject cf cd a i t = (Inr p, v)"
    and pend: "p_PendingOperation p = []"
    and r: "(if o_Kind (p_Owner p) = ''firebase'' then tx_return p
       else tx_bind (moveToAccount cf cd p (u_UID a)) (\<lambda>p'. tx_bind (clearTransfer i) (\<lambda>_. tx_return p'))) v = (Inr x, u)"
    unfolding Claim_def by (elim tx_bind_InrE tx_guard_InrE) auto
  have e: "proj (docs cd t) i = Some p" "Owns a (p_Owner p)" "Live p (repo_now cf)" "cur v = cur t" "tx_read v = tx_read t"
    using v by (auto elim!: revisionProject_InrE)
  show ?thesis
  proof (cases "o_Kind (p_Owner p) = ''firebase''")
    case True
    then show ?thesis using r e by (auto intro: refines_same)
  next
    case False
    then have anon: "o_Kind (p_Owner p) = ''anonymous''" using e(2) by (auto simp: Owns_def)
    from r False obtain p' w where m: "moveToAccount cf cd p (u_UID a) v = (Inr p', w)"
      and c: "clearTransfer i w = (Inr (), u)"
      by (auto simp del: tx_bind_app elim!: tx_bind_InrE tx_return_InrE)
    have gv: "good_env cd (tx_read v)" using e assms(2) by simp
    note mc = moveToAccount_core[OF m gv, unfolded e]
    have wt: "within {''transfers''} (docs cd w) (docs cd u)" using clearTransfer_within[OF c] by blast
    have "core_of (docs cd u) = core_of (docs cd w)" "index_ok cf (docs cd u) = index_ok cf (docs cd w)"
      using core_within[OF wt] index_within[OF wt] by auto
    moreover have "p_ID p = i" using ids_ok[OF assms(3) e(1)] .
    ultimately show ?thesis unfolding refines_def
      using mc core_step.move[where c = "core_of (docs cd t)" and i = i and p = p and uid = "u_UID a", OF _ e(3) pend anon refl uid] e(1)
      by simp
  qed
qed

lemma RedeemTransfer_refines:
  assumes "RedeemTransfer cf cd a token t = (Inr x, u)" "good_env cd (tx_read t)" "core_ok cf (core_of (docs cd t))"
  shows "refines cf (docs cd t) (docs cd u)"
proof -
  obtain i digest where tp: "transferParts cf token = Some (i, digest)"
    using assms(1) by (auto simp: RedeemTransfer_def split: option.splits)
  from assms(1) obtain p v w where uid: "u_UID a \<noteq> []"
    and e: "proj (docs cd t) i = Some p" "Live p (repo_now cf)" "o_Kind (p_Owner p) = ''anonymous''"
      "p_PendingOperation p = []" "cur v = cur t" "tx_read v = tx_read t"
    and m: "moveToAccount cf cd p (u_UID a) v = (Inr x, w)" and c: "Delete (raftRef ''transfers'' i) w = (Inr (), u)"
    unfolding RedeemTransfer_def tp option.case prod.case
    by (elim tx_bind_InrE tx_guard_InrE tx_return_InrE tx_missing_InrE Get_InrE authorize_InrE)
      (auto dest: proj_get)
  have gv: "good_env cd (tx_read v)" using e assms(2) by simp
  note mc = moveToAccount_core[OF m gv, unfolded e]
  have du: "docs cd u = (docs cd w)(raftRef ''transfers'' i := None)" using c by (auto elim!: Delete_InrE)
  have "p_ID p = i" using ids_ok[OF assms(3) e(1)] .
  then show ?thesis unfolding refines_def
    using mc du core_step.move[where c = "core_of (docs cd t)" and i = i and p = p and uid = "u_UID a",
        OF _ e(2) e(4) e(3) refl uid] e(1)
    by simp
qed

lemma drop_digest_InrE [tx_elims]:
  assumes "drop_digest p found t = (Inr x, u)"
  obtains "within {''digests''} (docs cd t) (docs cd u)" "tx_read u = tx_read t"
  using assms that unfolding drop_digest_def Let_def
  by (auto split: if_splits elim!: Delete_InrE intro: within_upd)

lemma drop_digest_within:
  "drop_digest p found t = (Inr x, u) \<Longrightarrow> within {''digests''} (docs cd t) (docs cd u) \<and> tx_read u = tx_read t"
  by (erule drop_digest_InrE[where cd = cd]) simp

text \<open>The common end of \<open>Tombstone\<close> and \<open>expireProject\<close>.\<close>

lemma delete_core:
  assumes "proj (docs cd t) i = Some p" "p_Status p \<noteq> ''deleted''" "p_PendingOperation p = []"
    "q = quota_at (docs cd t) (key_of cf p)" "0 < q_Count q" "core_ok cf (core_of (docs cd t))"
    and w: "within {''digests'', ''transfers''} ((docs cd t)(raftRef ''quotas'' (key_of cf p) \<mapsto> DQuota (q\<lparr>q_Count := q_Count q - 1\<rparr>))) (docs cd v)"
    and "tx_read v = tx_read t" "good_env cd (tx_read t)"
    and set: "raftTx_Set cf cd (raftRef ''projects'' i) (DProject (tombstoned p)) v = (Inr x, u)"
  shows "core_of (docs cd u) = set_proj i (tombstoned p) (set_quota (key_of cf p) (quota_add q (-1) 0) (core_of (docs cd t)))
    \<and> refines cf (docs cd t) (docs cd u)"
proof -
  have "good_env cd (tx_read v)" using assms by simp
  note pw = project_write_core[OF set this]
  have "core_of (docs cd v) = set_quota (key_of cf p) (quota_add q (-1) 0) (core_of (docs cd t))"
    using core_within[OF w] by (simp add: core_collections_def quota_add_def)
  moreover have "index_ok cf (docs cd v) = index_ok cf (docs cd t)" using index_within[OF w] by simp
  ultimately show ?thesis unfolding refines_def
    using pw core_step.delete[where c = "core_of (docs cd t)" and i = i and p = p and q = q] assms(1-5) by simp
qed

lemma within_swap: "within S D E \<Longrightarrow> collection_of k \<notin> S \<Longrightarrow> within S (D(k := x)) (E(k := x))"
  by (auto simp: within_def)

lemma Tombstone_refines:
  assumes "Tombstone cf cd a i revision t = (Inr x, u)" "good_env cd (tx_read t)" "core_ok cf (core_of (docs cd t))"
  shows "refines cf (docs cd t) (docs cd u)"
proof -
  from assms(1) obtain p t1 where e: "proj (docs cd t) i = Some p" "cur t1 = cur t" "tx_read t1 = tx_read t"
    and r: "(if p_Status p = ''deleted'' then tx_return () else
       tx_bind (tx_guard (p_Revision p \<noteq> revision \<or> p_PendingOperation p \<noteq> []) ErrConflict) (\<lambda>_.
       tx_bind (readQuota cf cd (p_Owner p)) (\<lambda>q.
       tx_bind (tx_optional (Get cd asDigest (raftRef ''digests'' (p_ActiveDigest p)))) (\<lambda>found.
       tx_bind (drop_digest p found) (\<lambda>_.
       tx_bind (tx_guard (q_Count q \<le> 0) ErrConflict) (\<lambda>_.
       tx_bind (raftTx_Set cf cd (raftRef ''quotas'' (ownerKey cf (p_Owner p)))
         (DQuota (q\<lparr>q_Count := q_Count q - 1\<rparr>))) (\<lambda>_.
       tx_bind (clearTransfer i) (\<lambda>_.
       raftTx_Set cf cd (raftRef ''projects'' i) (DProject (tombstoned p)))))))))) t1 = (Inr x, u)"
    unfolding Tombstone_def
    by (elim tx_bind_InrE tx_guard_InrE tx_missing_InrE Get_InrE authorize_InrE) (auto dest: proj_get)
  show ?thesis
  proof (cases "p_Status p = ''deleted''")
    case True
    then show ?thesis using r e by (auto intro: refines_same)
  next
    case False
    from r[unfolded if_not_P[OF False]] obtain q found t2 t3 t4 t5 t6 where pend: "p_PendingOperation p = []" and pos: "0 < q_Count q"
      and 2: "readQuota cf cd (p_Owner p) t1 = (Inr q, t2)"
      and 3: "tx_optional (Get cd asDigest (raftRef ''digests'' (p_ActiveDigest p))) t2 = (Inr found, t3)"
      and 4: "drop_digest p found t3 = (Inr (), t4)"
      and 5: "Set cd (raftRef ''quotas'' (key_of cf p)) (DQuota (q\<lparr>q_Count := q_Count q - 1\<rparr>)) t4 = (Inr (), t5)"
      and 6: "clearTransfer i t5 = (Inr (), t6)"
      and 7: "raftTx_Set cf cd (raftRef ''projects'' i) (DProject (tombstoned p)) t6 = (Inr x, u)"
      by (elim tx_bind_InrE tx_guard_InrE) (auto simp: raftTx_Set_other not_le)
    have e2: "q = quota_at (docs cd t) (key_of cf p)" "cur t2 = cur t" "tx_read t2 = tx_read t"
      using readQuota_at[OF 2] e by auto
    have e3: "cur t3 = cur t" "tx_read t3 = tx_read t" using 3 e2 by (auto elim!: tx_elims)
    have e4: "within {''digests''} (docs cd t) (docs cd t4)" "tx_read t4 = tx_read t"
      using drop_digest_within[OF 4, of cd] e3 by simp_all
    have e5: "docs cd t5 = (docs cd t4)(raftRef ''quotas'' (key_of cf p) \<mapsto> DQuota (q\<lparr>q_Count := q_Count q - 1\<rparr>))"
      "tx_read t5 = tx_read t" using 5 e4 assms(2) by (auto elim!: Set_InrE)
    have e6: "within {''transfers''} (docs cd t5) (docs cd t6)" "tx_read t6 = tx_read t"
      using clearTransfer_within[OF 6, of cd] e5(2) by simp_all
    have "within {''digests'', ''transfers''} ((docs cd t)(raftRef ''quotas'' (key_of cf p) \<mapsto> DQuota (q\<lparr>q_Count := q_Count q - 1\<rparr>))) (docs cd t6)"
      using within_trans[OF within_mono[OF within_swap[OF e4(1)]] within_mono[OF e6(1)[unfolded e5]]] by auto
    then show ?thesis using delete_core[OF e(1) False pend e2(1) pos assms(3) _ e6(2) assms(2) 7] by blast
  qed
qed

lemma expireProject_core:
  assumes "expireProject cf cd i t = (Inr x, u)" "good_env cd (tx_read t)" "core_ok cf (core_of (docs cd t))"
  shows "refines cf (docs cd t) (docs cd u) \<and> (docs cd u = docs cd t \<or> (\<exists>p. proj (docs cd t) i = Some p \<and> p_Status p = ''active''
      \<and> o_Kind (p_Owner p) = ''anonymous'' \<and> expired p (repo_now cf) \<and> p_PendingOperation p = []
      \<and> core_of (docs cd u) = set_proj i (tombstoned p)
          (set_quota (key_of cf p) (quota_add (quota_at (docs cd t) (key_of cf p)) (-1) 0) (core_of (docs cd t)))))"
proof -
  from assms(1) obtain res t1 where o: "tx_optional (Get cd asProject (raftRef ''projects'' i)) t = (Inr res, t1)"
    and r: "(case res of None \<Rightarrow> tx_return () | Some p \<Rightarrow>
         if p_Status p \<noteq> ''active'' \<or> o_Kind (p_Owner p) \<noteq> ''anonymous'' \<or> \<not> expired p (repo_now cf)
            \<or> p_PendingOperation p \<noteq> [] then tx_return ()
         else
           tx_bind (readQuota cf cd (p_Owner p)) (\<lambda>q.
           tx_bind (tx_optional (Get cd asDigest (raftRef ''digests'' (p_ActiveDigest p)))) (\<lambda>found.
           tx_bind (tx_guard (q_Count q \<le> 0) ErrConflict) (\<lambda>_.
           tx_bind (drop_digest p found) (\<lambda>_.
           tx_bind (raftTx_Set cf cd (raftRef ''quotas'' (ownerKey cf (p_Owner p)))
             (DQuota (q\<lparr>q_Count := q_Count q - 1\<rparr>))) (\<lambda>_.
           raftTx_Set cf cd (raftRef ''projects'' i) (DProject (tombstoned p)))))))) t1 = (Inr x, u)"
    unfolding expireProject_def by (elim tx_bind_InrE tx_guard_InrE) auto
  have e: "cur t1 = cur t" "tx_read t1 = tx_read t" "\<And>p. res = Some p \<Longrightarrow> proj (docs cd t) i = Some p"
    using o by (auto dest: proj_get elim!: tx_elims)
  show ?thesis
  proof (cases "\<exists>p. res = Some p \<and> \<not> (p_Status p \<noteq> ''active'' \<or> o_Kind (p_Owner p) \<noteq> ''anonymous''
      \<or> \<not> expired p (repo_now cf) \<or> p_PendingOperation p \<noteq> [])")
    case False
    then have "u = t1" using r by (auto split: option.splits if_splits)
    then show ?thesis using e by (simp add: refines_same)
  next
    case True
    then obtain p where p: "res = Some p" "p_Status p = ''active''" "p_PendingOperation p = []"
      "\<not> (p_Status p \<noteq> ''active'' \<or> o_Kind (p_Owner p) \<noteq> ''anonymous''
      \<or> \<not> expired p (repo_now cf) \<or> p_PendingOperation p \<noteq> [])" by auto
    from r p(1,4) obtain q found t2 t3 t4 t5 where pos: "0 < q_Count q"
      and 2: "readQuota cf cd (p_Owner p) t1 = (Inr q, t2)"
      and 3: "tx_optional (Get cd asDigest (raftRef ''digests'' (p_ActiveDigest p))) t2 = (Inr found, t3)"
      and 4: "drop_digest p found t3 = (Inr (), t4)"
      and 5: "Set cd (raftRef ''quotas'' (key_of cf p)) (DQuota (q\<lparr>q_Count := q_Count q - 1\<rparr>)) t4 = (Inr (), t5)"
      and 7: "raftTx_Set cf cd (raftRef ''projects'' i) (DProject (tombstoned p)) t5 = (Inr x, u)"
      by (auto simp: raftTx_Set_other not_le simp del: tx_bind_app elim!: tx_bind_InrE tx_guard_InrE)
    have e2: "q = quota_at (docs cd t) (key_of cf p)" "cur t2 = cur t" "tx_read t2 = tx_read t"
      using readQuota_at[OF 2] e by auto
    have e3: "cur t3 = cur t" "tx_read t3 = tx_read t" using 3 e2 by (auto elim!: tx_elims)
    have e4: "within {''digests''} (docs cd t) (docs cd t4)" "tx_read t4 = tx_read t"
      using drop_digest_within[OF 4, of cd] e3 by simp_all
    have e5: "docs cd t5 = (docs cd t4)(raftRef ''quotas'' (key_of cf p) \<mapsto> DQuota (q\<lparr>q_Count := q_Count q - 1\<rparr>))"
      "tx_read t5 = tx_read t" using 5 e4 assms(2) by (auto elim!: Set_InrE)
    have "within {''digests'', ''transfers''} ((docs cd t)(raftRef ''quotas'' (key_of cf p) \<mapsto> DQuota (q\<lparr>q_Count := q_Count q - 1\<rparr>))) (docs cd t5)"
      unfolding e5 by (rule within_mono[OF within_swap[OF e4(1)]]) auto
    then show ?thesis
      using delete_core[OF e(3)[OF p(1)] _ p(3) e2(1) pos assms(3) _ e5(2) assms(2) 7] p e(3)[OF p(1)] e2(1) by auto
  qed
qed

lemma edit_refines:
  assumes "proj (docs cd t) i = Some p" "Live p (repo_now cf)" "p_PendingOperation p = []" "edit_of p p'"
    "core_of (docs cd v) = core_of (docs cd t)" "index_ok cf (docs cd t) \<longrightarrow> index_ok cf (docs cd v)"
    "tx_read v = tx_read t" "good_env cd (tx_read t)"
    and set: "raftTx_Set cf cd (raftRef ''projects'' i) (DProject p') v = (Inr x, u)"
  shows "refines cf (docs cd t) (docs cd u)"
proof -
  have "good_env cd (tx_read v)" using assms by simp
  note pw = project_write_core[OF set this]
  then show ?thesis unfolding refines_def
    using core_step.edit[where c = "core_of (docs cd t)" and i = i and p = p and p' = p'] assms by simp
qed

lemma SetPrivacy_refines:
  assumes "SetPrivacy cf cd a i revision digest pr t = (Inr x, u)" "good_env cd (tx_read t)"
  shows "refines cf (docs cd t) (docs cd u)"
proof -
  from assms(1) obtain p v where v: "revisionProject cf cd a i t = (Inr p, v)" and pend: "p_PendingOperation p = []"
    and set: "raftTx_Set cf cd (raftRef ''projects'' i) (DProject (p\<lparr>p_Private := digest \<noteq> [], p_PasswordDigest := digest,
       p_PasswordRevision := pr, p_Revision := inc64 (p_Revision p), p_PolicyRevision := inc64 (p_PolicyRevision p)\<rparr>)) v = (Inr (), u)"
    unfolding SetPrivacy_def Let_def by (elim tx_bind_InrE tx_guard_InrE tx_return_InrE) auto
  have e: "proj (docs cd t) i = Some p" "Live p (repo_now cf)" "cur v = cur t" "tx_read v = tx_read t"
    using v by (auto elim!: revisionProject_InrE)
  show ?thesis by (rule edit_refines[OF e(1,2) pend _ _ _ e(4) assms(2) set]) (simp_all add: edit_of_def e)
qed

lemma SetWatermark_refines:
  assumes "SetWatermark cf cd a i revision enabled t = (Inr x, u)" "good_env cd (tx_read t)"
  shows "refines cf (docs cd t) (docs cd u)"
proof -
  let ?new = "\<lambda>p. p\<lparr>p_WatermarkDisabled := \<not> enabled, p_Revision := inc64 (p_Revision p), p_UpdatedAt := repo_now cf\<rparr>"
  from assms(1) obtain p v where v: "revisionProject cf cd a i t = (Inr p, v)" and pend: "p_PendingOperation p = []"
    and r: "(if p_WatermarkDisabled p = (\<not> enabled) then tx_return p
       else tx_bind (raftTx_Set cf cd (raftRef ''projects'' i) (DProject (?new p))) (\<lambda>_. tx_return (?new p))) v = (Inr x, u)"
    unfolding SetWatermark_def Let_def by (elim tx_bind_InrE tx_guard_InrE) auto
  have e: "proj (docs cd t) i = Some p" "Live p (repo_now cf)" "cur v = cur t" "tx_read v = tx_read t"
    using v by (auto elim!: revisionProject_InrE)
  show ?thesis
  proof (cases "p_WatermarkDisabled p = (\<not> enabled)")
    case True
    then show ?thesis using r e by (auto intro: refines_same)
  next
    case False
    from r[unfolded if_not_P[OF False]]
    have set: "raftTx_Set cf cd (raftRef ''projects'' i) (DProject (?new p)) v = (Inr (), u)"
      by (elim tx_bind_InrE tx_return_InrE) simp
    show ?thesis by (rule edit_refines[OF e(1,2) pend _ _ _ e(4) assms(2) set]) (simp_all add: edit_of_def e)
  qed
qed

lemma slug_free_available:
  assumes "slug_free (docs cd t) i slug"
  shows "slug_available (core_of (docs cd t)) i slug"
  using assms unfolding slug_free_def slug_available_def
  by (auto simp: slug_at_def proj_def split: option.splits doc.splits)

lemma alias_is_new_InrE [tx_elims]:
  assumes "alias_is_new cd i slug t = (Inr n, u)" "good_env cd (tx_read t)"
  obtains "\<not> n \<Longrightarrow> slug_at (docs cd t) slug = Some i" "cur u = cur t" "tx_read u = tx_read t"
  using assms that unfolding alias_is_new_def
  by (auto simp: slug_at_def simp del: tx_bind_app split: option.splits if_splits elim!: tx_elims)

lemma Rename_refines:
  assumes "Rename cf cd a i name revision t = (Inr x, u)" "good_env cd (tx_read t)"
  shows "refines cf (docs cd t) (docs cd u)"
proof -
  from assms(1) obtain p v slug suffix w where v: "revisionProject cf cd a i t = (Inr p, v)"
    and pend: "p_PendingOperation p = []" and w: "chooseSlug cd name (rename_seed cf p) i v = (Inr (slug, suffix), w)"
    and r: "(if slug = p_Slug p then tx_return p
     else
       tx_bind (alias_is_new cd i slug) (\<lambda>newAlias.
       tx_bind (tx_guard (newAlias \<and> p_AliasCount p \<ge> 100) ErrQuota) (\<lambda>_.
       tx_bind (if newAlias then raftTx_Set cf cd (raftRef ''slugs'' slug) (DSlug i) else tx_return ()) (\<lambda>_.
       tx_bind (raftTx_Set cf cd (raftRef ''projects'' i) (DProject (renamed p slug suffix newAlias))) (\<lambda>_.
       tx_return (renamed p slug suffix newAlias)))))) w = (Inr x, u)"
    unfolding Rename_def Let_def by (elim tx_bind_InrE tx_guard_InrE) (auto split: prod.splits)
  have e: "proj (docs cd t) i = Some p" "Live p (repo_now cf)" "cur v = cur t" "tx_read v = tx_read t"
    using v by (auto elim!: revisionProject_InrE)
  have s: "slugRE slug" "slug \<notin> set reserved_slugs" "slug_free (docs cd t) i slug" "cur w = cur t" "tx_read w = tx_read t"
    using w e assms(2) by (auto elim!: chooseSlug_InrE)
  show ?thesis
  proof (cases "slug = p_Slug p")
    case True
    then show ?thesis using r s by (auto intro: refines_same)
  next
    case False
    from r[unfolded if_not_P[OF False]] obtain n t1 t2 y z where 1: "alias_is_new cd i slug w = (Inr n, t1)"
      and g: "\<not> (n \<and> p_AliasCount p \<ge> 100)"
      and 2: "(if n then raftTx_Set cf cd (raftRef ''slugs'' slug) (DSlug i) else tx_return ()) t1 = (Inr y, t2)"
      and 3: "raftTx_Set cf cd (raftRef ''projects'' i) (DProject (renamed p slug suffix n)) t2 = (Inr z, u)"
      by (elim tx_bind_InrE tx_guard_InrE tx_return_InrE) blast
    have gw: "good_env cd (tx_read w)" using s assms(2) by simp
    have e1: "\<not> n \<Longrightarrow> slug_at (docs cd t) slug = Some i" "cur t1 = cur t" "tx_read t1 = tx_read t"
      by (rule alias_is_new_InrE[OF 1 gw], simp add: s)+
    have e2: "core_of (docs cd t2) = set_slug slug (Some i) (core_of (docs cd t)) \<and> tx_read t2 = tx_read t
      \<and> index_ok cf (docs cd t2) = index_ok cf (docs cd t)"
    proof (cases n)
      case True
      then have "docs cd t2 = (docs cd t)(raftRef ''slugs'' slug \<mapsto> DSlug i) \<and> tx_read t2 = tx_read t"
        using 2 e1(2,3) assms(2) by (auto simp: raftTx_Set_other elim!: Set_InrE)
      then show ?thesis by simp
    next
      case False
      have "t2 = t1" using 2 False by simp
      moreover have "set_slug slug (Some i) (core_of (docs cd t)) = core_of (docs cd t)"
        by (rule core_eqI) (simp_all add: e1(1)[OF False] fun_upd_idem)
      ultimately show ?thesis using e1(2,3) by simp
    qed
    have "good_env cd (tx_read t2)" using e2 assms(2) by simp
    note pw = project_write_core[OF 3 this]
    have "core_step cf (core_of (docs cd t)) (set_proj i (renamed p slug suffix n) (set_slug slug (Some i) (core_of (docs cd t))))"
      by (rule core_step.rename[OF _ e(2) pend slug_free_available[OF s(3)] s(1,2)]) (use e(1) e1(1) g in auto)
    then show ?thesis unfolding refines_def using pw e2 by simp
  qed
qed

lemma availableRevision_InrE [tx_elims]:
  assumes "availableRevision cf cd p i t = (Inr op, u)"
  obtains "op_at (docs cd t) i = Some op" "op_ID op = i" "op_ProjectID op = p_ID p" "op_State op = ''complete''"
    "cur u = cur t" "tx_read u = tx_read t"
    "honest_read (tx_read t) \<Longrightarrow> cur t (raftRef ''revision_removals'' (revisionIdentity cf op)) = None"
proof -
  from assms obtain t1 t2 y z where 1: "docs cd t (raftRef ''operations'' i) = Some (DOperation op)"
      "cur t1 = cur t" "tx_read t1 = tx_read t" "op_ID op = i" "op_ProjectID op = p_ID p" "op_State op = ''complete''"
      "tx_optional (Exists (raftRef ''revision_removals'' (revisionIdentity cf op))) t1 = (Inr None, t2)"
    and 2: "(if p_StorageApp p \<noteq> [] \<and> op_StorageVersionKey op \<noteq> [] then
         tx_bind (Get cd asVersion (raftRef ''storage_versions'' (op_StorageVersionKey op))) (\<lambda>v.
         tx_guard (v_ID v \<noteq> revisionIdentity cf op \<or> op_StorageVersionKey op \<noteq> v_ID v \<or> v_ProjectID v \<noteq> p_ID p
           \<or> v_Digest v \<noteq> op_Digest op \<or> v_Generation v \<noteq> op_StorageGeneration op \<or> v_App v \<noteq> p_StorageApp p
           \<or> v_State v \<noteq> ''retained'' \<or> v_Unverified v) ErrNotFound)
       else
         tx_try (checkNotRetired cf (p_ID p) (op_Digest op)) (\<lambda>r. case r of
           Inr _ \<Rightarrow> tx_return ()
         | Inl e \<Rightarrow> tx_throw (if e = ErrConflict then ErrNotFound else e))) t2 = (Inr z, u)"
    unfolding availableRevision_def
    by (elim tx_bind_InrE tx_guard_InrE tx_missing_InrE Get_InrE tx_return_InrE) force
  have e2: "cur t2 = cur t" "tx_read t2 = tx_read t"
    "honest_read (tx_read t) \<Longrightarrow> cur t (raftRef ''revision_removals'' (revisionIdentity cf op)) = None"
    using 1(2,3,7) by (auto elim!: tx_elims)
  have "cur u = cur t2 \<and> tx_read u = tx_read t2"
  proof (cases "p_StorageApp p \<noteq> [] \<and> op_StorageVersionKey op \<noteq> []")
    case True
    from 2[unfolded if_P[OF True]] show ?thesis by (elim tx_elims) auto
  next
    case False
    from 2[unfolded if_not_P[OF False]] have "\<exists>y. checkNotRetired cf (p_ID p) (op_Digest op) t2 = (Inr y, u)"
      by (auto split: prod.splits sum.splits if_splits)
    then show ?thesis by (auto elim!: checkNotRetired_InrE)
  qed
  then show thesis using that 1 e2 by (auto simp: op_at_def)
qed

lemma validated_InrE [tx_elims]:
  assumes "validated m t = (Inr x, u)"
  obtains "m t = (Inr x, u)"
  using assms that unfolding validated_def by (auto split: prod.splits sum.splits)

lemma gc_write_core:
  assumes "docs cd v = (docs cd t)(gc_key cf app i \<mapsto> d)"
  shows "within alloc_collections (docs cd t) (docs cd v)"
  unfolding assms by (rule within_upd) simp_all

lemma gc_prefix: "\<not> has_prefix (gc_key cf app i) ''operations/''" "\<not> has_prefix (gc_key cf app i) ''projects/''"
  by (simp_all add: gc_key_def raftRef_def has_prefix_def)

lemma raftTx_Set_gc: "raftTx_Set cf cd (gc_key cf' app i) d = Set cd (gc_key cf' app i) d"
  by (simp add: raftTx_Set_def gc_prefix)

lemma remove_revision_effect:
  assumes "remove_revision cf cd p op t = (Inr x, u)" "good_env cd (tx_read t)"
  shows "within (alloc_collections \<union> {''revision_removals'', ''retirements''}) (docs cd t) (docs cd u) \<and> tx_read u = tx_read t"
  using assms unfolding remove_revision_def
  by (auto simp: raftTx_Set_gc raftTx_Set_other simp del: tx_bind_app split: if_splits
      elim!: tx_bind_InrE Set_InrE intro!: within_upd)

lemma select_revision_effect:
  assumes "select_revision cf cd p op t = (Inr x, u)" "good_env cd (tx_read t)"
  shows "within {''digests''} (docs cd t) (docs cd u) \<and> tx_read u = tx_read t"
  using assms unfolding select_revision_def Let_def raftTx_Set_other[OF plain_names(4)]
  by (auto simp: raftTx_Set_other simp del: tx_bind_app split: if_splits elim!: tx_elims intro!: within_upd)

lemma revised_edit: "edit_of p (revised cf p op remove)"
  by (simp add: edit_of_def revised_def Let_def)

lemma changeRevision_refines:
  assumes "changeRevision cf cd a i rid revision remove t = (Inr x, u)" "good_env cd (tx_read t)"
    "core_ok cf (core_of (docs cd t))"
  shows "refines cf (docs cd t) (docs cd u)"
proof -
  from assms(1) obtain p v op w where v: "revisionProject cf cd a i t = (Inr p, v)" and pend: "p_PendingOperation p = []"
    and w: "availableRevision cf cd p rid v = (Inr op, w)"
    and r: "(if is_active p op then tx_bind (tx_guard remove ErrConflict) (\<lambda>_. tx_return p)
     else
       tx_bind (if remove then remove_revision cf cd p op else select_revision cf cd p op) (\<lambda>_.
       tx_bind (raftTx_Set cf cd (raftRef ''projects'' (p_ID p)) (DProject (revised cf p op remove))) (\<lambda>_.
       tx_return (revised cf p op remove)))) w = (Inr x, u)"
    unfolding changeRevision_def Let_def by (elim tx_bind_InrE tx_guard_InrE validated_InrE) auto
  have e: "proj (docs cd t) i = Some p" "Live p (repo_now cf)" "cur v = cur t" "tx_read v = tx_read t"
    using v by (auto elim!: revisionProject_InrE)
  have ew: "cur w = cur t" "tx_read w = tx_read t" using w e by (auto elim!: availableRevision_InrE)
  have gw: "good_env cd (tx_read w)" using ew assms(2) by simp
  have id: "p_ID p = i" using ids_ok[OF assms(3) e(1)] .
  show ?thesis
  proof (cases "is_active p op")
    case True
    then show ?thesis using r ew by (auto split: if_splits intro: refines_same)
  next
    case False
    from r[unfolded if_not_P[OF False]] obtain t1 y z where
      1: "(if remove then remove_revision cf cd p op else select_revision cf cd p op) w = (Inr y, t1)"
      and 2: "raftTx_Set cf cd (raftRef ''projects'' (p_ID p)) (DProject (revised cf p op remove)) t1 = (Inr z, u)"
      by (elim tx_bind_InrE tx_return_InrE) blast
    have "within (alloc_collections \<union> {''revision_removals'', ''retirements'', ''digests''}) (docs cd w) (docs cd t1)
      \<and> tx_read t1 = tx_read w"
    proof (cases remove)
      case True
      then have "remove_revision cf cd p op w = (Inr y, t1)" using 1 by simp
      from remove_revision_effect[OF this gw] show ?thesis by (auto elim!: within_mono)
    next
      case False
      then have "select_revision cf cd p op w = (Inr y, t1)" using 1 by simp
      from select_revision_effect[OF this gw] show ?thesis by (auto elim!: within_mono)
    qed
    then have wi: "within (alloc_collections \<union> {''revision_removals'', ''retirements'', ''digests''}) (docs cd t) (docs cd t1)"
      "tx_read t1 = tx_read t" using ew by auto
    show ?thesis
    proof (rule edit_refines[OF e(1,2) pend revised_edit _ _ wi(2) assms(2) 2[unfolded id]])
      show "core_of (docs cd t1) = core_of (docs cd t)"
        by (rule core_within[OF wi(1)]) (simp add: Int_Un_distrib2)
      show "index_ok cf (docs cd t) \<longrightarrow> index_ok cf (docs cd t1)"
        using index_within[OF wi(1)] by simp
    qed
  qed
qed

lemma validated_throw_InrE [tx_elims]:
  assumes "validated_throw b e t = (Inr x, u)"
  obtains "\<not> b" "u = t"
  using assms that by (auto simp: validated_throw_def split: if_splits prod.splits sum.splits)

lemma finish_reclamation_core:
  assumes "finish_reclamation cf cd i v t = (Inr x, u)" "good_env cd (tx_read t)"
    "core_ok cf (core_of (docs cd t))"
  shows "\<exists>p al. proj (docs cd t) (v_ProjectID v) = Some p \<and> p_StorageApp p = v_App v \<and> \<not> serves_version p v
    \<and> (v_ProjectDeleted v \<longrightarrow> p_Status p = ''deleted'')
    \<and> docs cd t (raftRef ''storage_allocations'' (v_App v)) = Some (DAllocation al) \<and> version_sane v al
    \<and> 0 < refund_of v al \<and> refund_of v al \<le> a_Bytes al \<and> v_QuotaBytes v \<le> p_ChargedBytes p
    \<and> docs cd u (raftRef ''storage_versions'' i) = Some (DVersion (v\<lparr>v_State := ''reclaimed'', v_RefundedAt := repo_now cf\<rparr>))
    \<and> core_of (docs cd u) = set_proj (v_ProjectID v) (p\<lparr>p_ChargedBytes := p_ChargedBytes p - v_QuotaBytes v\<rparr>)
        (set_quota (key_of cf p) (quota_add (quota_at (docs cd t) (key_of cf p)) 0 (- v_QuotaBytes v)) (core_of (docs cd t)))
    \<and> refines cf (docs cd t) (docs cd u)"
proof -
  from assms(1) obtain p t1 al t2 q t3 t4 t5 t6 t7 y where
    1: "Get cd asProject (raftRef ''projects'' (v_ProjectID v)) t = (Inr p, t1)"
    and g1: "\<not> (p_StorageApp p \<noteq> v_App v \<or> (v_ProjectDeleted v \<and> p_Status p \<noteq> ''deleted'') \<or> serves_version p v)"
    and 2: "Get cd asAllocation (raftRef ''storage_allocations'' (v_App v)) t1 = (Inr al, t2)"
    and g2: "version_sane v al" and 3: "readQuota cf cd (p_Owner p) t2 = (Inr q, t3)"
    and g3: "\<not> (refund_of v al \<le> 0 \<or> a_Bytes al < refund_of v al \<or> a_Inodes al < v_Inodes v
         \<or> a_ContentBytes al < v_ContentBytes v \<or> a_Versions al < 1
         \<or> p_ChargedBytes p < v_QuotaBytes v \<or> q_ChargedBytes q < v_QuotaBytes v)"
    and 4: "Set cd (raftRef ''storage_allocations'' (v_App v)) (DAllocation (remove_version al v)) t3 = (Inr (), t4)"
    and 5: "Set cd (raftRef ''quotas'' (key_of cf p)) (DQuota (q\<lparr>q_ChargedBytes := q_ChargedBytes q - v_QuotaBytes v\<rparr>)) t4 = (Inr (), t5)"
    and 6: "raftTx_Set cf cd (raftRef ''projects'' (p_ID p)) (DProject (p\<lparr>p_ChargedBytes := p_ChargedBytes p - v_QuotaBytes v\<rparr>)) t5 = (Inr y, t6)"
    and 7: "Delete (gc_key cf (v_App v) (v_ID v)) t6 = (Inr (), t7)"
    and 8: "Set cd (raftRef ''storage_versions'' i) (DVersion (v\<lparr>v_State := ''reclaimed'', v_RefundedAt := repo_now cf\<rparr>)) t7 = (Inr x, u)"
    unfolding finish_reclamation_def Let_def
    by (elim tx_bind_InrE tx_guard_InrE validated_throw_InrE) (auto simp del: tx_bind_app)
  have e1: "proj (docs cd t) (v_ProjectID v) = Some p" "cur t1 = cur t" "tx_read t1 = tx_read t"
    using 1 by (auto dest: proj_get elim!: Get_InrE)
  have e2: "docs cd t (raftRef ''storage_allocations'' (v_App v)) = Some (DAllocation al)" "cur t2 = cur t" "tx_read t2 = tx_read t"
    using 2 e1 by (auto elim!: Get_InrE)
  have e3: "q = quota_at (docs cd t) (key_of cf p)" "cur t3 = cur t" "tx_read t3 = tx_read t"
    using readQuota_at[OF 3] e2 by auto
  have id: "p_ID p = v_ProjectID v" using ids_ok[OF assms(3) e1(1)] .
  have "docs cd t5 = (docs cd t)(raftRef ''storage_allocations'' (v_App v) \<mapsto> DAllocation (remove_version al v),
      raftRef ''quotas'' (key_of cf p) \<mapsto> DQuota (quota_add q 0 (- v_QuotaBytes v)))" "tx_read t5 = tx_read t"
    using 4 5 e3 assms(2) by (auto simp: quota_add_def elim!: Set_InrE)
  then have e5: "core_of (docs cd t5) = set_quota (key_of cf p) (quota_add q 0 (- v_QuotaBytes v)) (core_of (docs cd t))"
    "index_ok cf (docs cd t5) = index_ok cf (docs cd t)" "tx_read t5 = tx_read t" by simp_all
  have g5: "good_env cd (tx_read t5)" using e5 assms(2) by simp
  note e6 = project_write_core[OF 6 g5]
  have e7: "docs cd u = (docs cd t6)(gc_key cf (v_App v) (v_ID v) := None,
      raftRef ''storage_versions'' i \<mapsto> DVersion (v\<lparr>v_State := ''reclaimed'', v_RefundedAt := repo_now cf\<rparr>))"
    using 7 8 e6 e5 assms(2) by (auto elim!: Delete_InrE Set_InrE)
  then have "within alloc_collections (docs cd t6) (docs cd u)" by (simp add: within_upd)
  then have e8: "core_of (docs cd u) = core_of (docs cd t6)" "index_ok cf (docs cd u) = index_ok cf (docs cd t6)"
    using core_within[of alloc_collections] index_within[of alloc_collections] by auto
  have pos: "0 < v_QuotaBytes v" using g2 by (simp add: version_sane_def)
  have "core_step cf (core_of (docs cd t)) (set_proj (v_ProjectID v) (p\<lparr>p_ChargedBytes := p_ChargedBytes p - v_QuotaBytes v\<rparr>)
      (set_quota (key_of cf p) (quota_add q 0 (- v_QuotaBytes v)) (core_of (docs cd t))))"
    by (rule core_step.refund[OF _ pos]) (use e1(1) e3(1) g3 in auto)
  then have "refines cf (docs cd t) (docs cd u)" unfolding refines_def using e5 e6 e8 id by simp
  moreover have "core_of (docs cd u) = set_proj (v_ProjectID v) (p\<lparr>p_ChargedBytes := p_ChargedBytes p - v_QuotaBytes v\<rparr>)
        (set_quota (key_of cf p) (quota_add (quota_at (docs cd t) (key_of cf p)) 0 (- v_QuotaBytes v)) (core_of (docs cd t)))"
    using e5 e6 e8 id e3(1) by simp
  ultimately show ?thesis using e1(1) e2(1) g1 g2 g3 e7 by (intro exI[of _ p] exI[of _ al]) auto
qed

lemma AcknowledgeStorageReclamation_InrE:
  assumes "AcknowledgeStorageReclamation cf cd i epoch member t = (Inr x, u)" "good_env cd (tx_read t)"
  obtains v where "docs cd t (raftRef ''storage_versions'' i) = Some (DVersion v)" "v_State v = ''reclaimed''" "docs cd u = docs cd t"
  | v where "docs cd t (raftRef ''storage_versions'' i) = Some (DVersion v)" "v_State v = ''retiring''"
      "v_MembershipEpoch v = epoch" "member \<in> set (v_Members v)"
      "\<not> set (v_Members v) \<subseteq> insert member (set (v_Acknowledged v))"
      "docs cd u = (docs cd t)(raftRef ''storage_versions'' i \<mapsto> DVersion (v\<lparr>v_Acknowledged := List.insert member (v_Acknowledged v)\<rparr>))"
  | v t1 where "docs cd t (raftRef ''storage_versions'' i) = Some (DVersion v)" "v_State v = ''retiring''"
      "v_MembershipEpoch v = epoch" "member \<in> set (v_Members v)"
      "set (v_Members v) \<subseteq> insert member (set (v_Acknowledged v))" "cur t1 = cur t" "tx_read t1 = tx_read t"
      "finish_reclamation cf cd i (v\<lparr>v_Acknowledged := List.insert member (v_Acknowledged v)\<rparr>) t1 = (Inr x, u)"
  using assms that unfolding AcknowledgeStorageReclamation_def Let_def
  by (elim tx_bind_InrE tx_guard_InrE Get_InrE)
    (auto simp del: tx_bind_app split: if_splits elim!: tx_bind_InrE tx_guard_InrE Set_InrE)

lemma Acknowledge_refines:
  assumes "AcknowledgeStorageReclamation cf cd i epoch member t = (Inr x, u)" "good_env cd (tx_read t)"
    "core_ok cf (core_of (docs cd t))"
  shows "refines cf (docs cd t) (docs cd u)"
  using assms(1,2)
proof (cases rule: AcknowledgeStorageReclamation_InrE)
  case (1 v)
  then show ?thesis by (simp add: refines_same)
next
  case (2 v)
  show ?thesis unfolding 2(6)
    by (rule refines_within[of "{''storage_versions''}"]) (simp_all add: within_upd)
next
  case (3 v t1)
  have "good_env cd (tx_read t1)" "core_ok cf (core_of (docs cd t1))" using 3 assms by simp_all
  from finish_reclamation_core[OF 3(8) this] show ?thesis using 3(6) by auto
qed

end
