(* ===== verification/Publish_Refine.thy ===== *)
theory Publish_Refine
  imports Project_Refine
begin

text \<open>
  The publication protocol refines the abstract specification: a new reservation is \<open>reserve_new\<close> or
  \<open>reserve_update\<close>, activation is \<open>activate\<close>, giving up is \<open>abort_new\<close> or \<open>abort_update\<close>; a repeated
  request changes nothing.
\<close>

section \<open>Publication\<close>

text \<open>What the code relies on SHA-256 for here: its output is 64 hexadecimal digits.\<close>

definition hex_hash :: "cfg \<Rightarrow> bool" where
  "hex_hash cf \<longleftrightarrow> (\<forall>v. digestRE (cf_hash cf v))"

lemma new_project_InrE:
  assumes "new_project cf cd a r opID t = (Inr p, u)" "good_env cd (tx_read t)"
  obtains slug suffix where "p = (fresh_project cf a opID)\<lparr>p_Slug := slug, p_InitialSuffix := suffix\<rparr>"
    "proj (docs cd t) (take 32 opID) = None" "slugRE slug" "slug \<notin> set reserved_slugs"
    "slug_available (core_of (docs cd t)) (take 32 opID) slug" "cur u = cur t" "tx_read u = tx_read t"
proof -
  let ?name = "if rs_Name r = [] then default_name opID else rs_Name r"
  have id: "p_ID (fresh_project cf a opID) = take 32 opID" by (simp add: fresh_project_def)
  from assms(1) obtain found t1 slug suffix where
    1: "tx_optional (Exists (raftRef ''projects'' (take 32 opID))) t = (Inr found, t1)" and n: "found \<noteq> Some ()"
    and 2: "chooseSlug cd ?name (rs_Digest r) (take 32 opID) t1 = (Inr (slug, suffix), u)"
    and p: "p = (fresh_project cf a opID)\<lparr>p_Slug := slug, p_InitialSuffix := suffix\<rparr>"
    unfolding new_project_def Let_def id
    by (elim tx_bind_InrE tx_guard_InrE) (auto simp del: tx_bind_app split: prod.splits elim!: tx_return_InrE)
  have e1: "cur t1 = cur t" "tx_read t1 = tx_read t" "cur t (raftRef ''projects'' (take 32 opID)) = None"
    using 1 n assms(2) by (cases found; auto elim!: tx_elims dest: good_env_honest)+
  have "proj (docs cd t) (take 32 opID) = None" using e1(3) by (simp add: proj_def view_def)
  moreover have "slugRE slug" "slug \<notin> set reserved_slugs" "slug_free (docs cd t) (take 32 opID) slug"
    "cur u = cur t" "tx_read u = tx_read t"
    using 2 e1 assms(2) by (auto elim!: chooseSlug_InrE)
  ultimately show thesis using that p slug_free_available by blast
qed

lemma existing_project_InrE:
  assumes "existing_project cf cd a r t = (Inr p, u)"
  obtains "proj (docs cd t) (rs_ProjectID r) = Some p" "Live p (repo_now cf)" "p_PendingOperation p = []"
    "Owns a (p_Owner p)" "p_Revision p = rs_ExpectedRevision r" "cur u = cur t" "tx_read u = tx_read t"
  using assms that unfolding existing_project_def by (elim tx_elims) (auto dest: proj_get)

lemma check_duplicate_InrE [tx_elims]:
  assumes "check_duplicate cf cd a p digest t = (Inr x, u)"
  obtains "cur u = cur t" "tx_read u = tx_read t"
  using assms that unfolding check_duplicate_def
  by (auto simp del: tx_bind_app split: option.splits if_splits elim!: tx_elims)

lemma operation_storage_InrE [tx_elims]:
  assumes "operation_storage cf cd r op t = (Inr op', u)"
  obtains gen key where "op' = op\<lparr>op_StorageGeneration := gen, op_StorageVersionKey := key\<rparr>" "cur u = cur t"
    "tx_read u = tx_read t"
proof (cases "cf_StorageOffers cf \<noteq> None \<and> rs_StorageManifest r \<noteq> None")
  case True
  then show thesis using assms that unfolding operation_storage_def
    by (auto simp del: tx_bind_app elim!: tx_elims)
next
  case False
  then have "op' = op" "u = t" using assms unfolding operation_storage_def by auto
  then show thesis by (intro that[of "op_StorageVersionKey op" "op_StorageGeneration op"]) simp_all
qed

lemma op_at_none: "docs cd t (raftRef ''operations'' k) = None \<Longrightarrow> op_at (docs cd t) k = None"
  by (simp add: op_at_def)

lemma pending_write:
  assumes "raftTx_Create cf cd (raftRef ''operations'' k) (DOperation op) t = (Inr x, u)" "good_env cd (tx_read t)"
    "op_State op = ''pending''"
  shows "op_at (docs cd t) k = None \<and> docs cd u = (docs cd t)(raftRef ''operations'' k \<mapsto> DOperation op) \<and> tx_read u = tx_read t"
  using assms(1)
proof (rule raftTx_Create_InrE)
  fix v
  assume v: "good_env cd (tx_read t) \<Longrightarrow> docs cd t (raftRef ''operations'' k) = None" "cur v = cur t" "tx_read v = tx_read t"
    "raftTx_Set cf cd (raftRef ''operations'' k) (DOperation op) v = (Inr x, u)"
  have "Set cd (raftRef ''operations'' k) (DOperation op) v = (Inr x, u)"
    using v(4) assms(3) by (simp add: raftTx_Set_operation)
  then show ?thesis using v assms(2) op_at_none by (auto elim!: Set_InrE)
qed

lemma reserve_writes_core:
  assumes "reserve_writes cf cd isNew p q op t = (Inr x, u)" "good_env cd (tx_read t)" "op_State op = ''pending''"
  defines "p' \<equiv> p\<lparr>p_PendingOperation := op_ID op\<rparr>"
  shows "core_of (docs cd u) = set_op (op_ID op) op (set_proj (p_ID p) p' (set_quota (key_of cf p)
      (if isNew then q\<lparr>q_Count := q_Count q + 1\<rparr> else q)
      (if isNew then set_slug (p_Slug p) (Some (p_ID p)) (core_of (docs cd t)) else core_of (docs cd t))))
    \<and> op_at (docs cd t) (op_ID op) = None \<and> (index_ok cf (docs cd t) \<longrightarrow> index_ok cf (docs cd u)) \<and> x = (p', op)"
proof -
  have sel: "p_ID p' = p_ID p" "p_Slug p' = p_Slug p" "p_Owner p' = p_Owner p" by (simp_all add: p'_def)
  from assms(1) obtain t1 t2 t3 t4 y1 y2 y3 y4 y5 where
    1: "(if isNew then raftTx_Set cf cd (raftRef ''slugs'' (p_Slug p)) (DSlug (p_ID p)) else tx_return ()) t = (Inr y1, t1)"
    and 2: "raftTx_Set cf cd (raftRef ''quotas'' (key_of cf p)) (DQuota (if isNew then q\<lparr>q_Count := q_Count q + 1\<rparr> else q)) t1 = (Inr y2, t2)"
    and 3: "raftTx_Set cf cd (raftRef ''projects'' (p_ID p)) (DProject p') t2 = (Inr y3, t3)"
    and 4: "raftTx_Create cf cd (raftRef ''operations'' (op_ID op)) (DOperation op) t3 = (Inr y4, t4)"
    and 5: "raftTx_Set cf cd (raftRef ''digests'' (op_Digest op)) (DDigest \<lparr>d_ProjectID = p_ID p, d_OperationID = op_ID op\<rparr>) t4 = (Inr y5, u)"
    and x: "x = (p', op)"
    unfolding reserve_writes_def Let_def p'_def[symmetric] sel
    by (elim tx_bind_InrE tx_return_InrE) blast
  have e1: "core_of (docs cd t1) = (if isNew then set_slug (p_Slug p) (Some (p_ID p)) (core_of (docs cd t)) else core_of (docs cd t))"
    "index_ok cf (docs cd t1) = index_ok cf (docs cd t)" "tx_read t1 = tx_read t"
    using 1 assms(2) by (auto simp: raftTx_Set_other split: if_splits elim!: Set_InrE)
  have e2: "core_of (docs cd t2) = set_quota (key_of cf p) (if isNew then q\<lparr>q_Count := q_Count q + 1\<rparr> else q) (core_of (docs cd t1))"
    "index_ok cf (docs cd t2) = index_ok cf (docs cd t)" "tx_read t2 = tx_read t"
    using 2 e1 assms(2) by (auto simp: raftTx_Set_other elim!: Set_InrE)
  have g2: "good_env cd (tx_read t2)" using e2 assms(2) by simp
  note e3 = project_write_core[OF 3 g2]
  have g3: "good_env cd (tx_read t3)" using e3 g2 by simp
  note e4 = pending_write[OF 4 g3 assms(3)]
  have g4: "good_env cd (tx_read t4)" using e4 g3 by simp
  have e5: "docs cd u = (docs cd t4)(raftRef ''digests'' (op_Digest op) \<mapsto> DDigest \<lparr>d_ProjectID = p_ID p, d_OperationID = op_ID op\<rparr>)"
    using 5 g4 by (auto simp: raftTx_Set_other elim!: Set_InrE)
  have "op_at (docs cd t3) = op_at (docs cd t)"
    using arg_cong[OF conjunct1[OF conjunct2[OF e3]], of c_ops] arg_cong[OF e2(1), of c_ops] arg_cong[OF e1(1), of c_ops]
    by (simp split: if_splits)
  then show ?thesis using e1 e2 e3 e4 e5 x by simp
qed


text \<open>The checks, the allocation and the new operation of a reservation, up to its writes.\<close>

lemma open_reservation_InrE:
  assumes "open_reservation cf cd a r opID t = (Inr x, u)" "good_env cd (tx_read t)"
  obtains p t1 t7 app gen key where
    "(if rs_ProjectID r = [] then new_project cf cd a r opID else existing_project cf cd a r) t = (Inr p, t1)"
    "rs_ProjectID r = [] \<Longrightarrow> q_Count (quota_at (docs cd t) (key_of cf p)) < limit cf (p_Owner p)"
    "fitsBytes (q_ChargedBytes (quota_at (docs cd t) (key_of cf p))) (versionCharge (rs_Bytes r)) (byteLimit cf (p_Owner p))"
    "core_of (docs cd t7) = core_of (docs cd t)" "index_ok cf (docs cd t7) = index_ok cf (docs cd t)" "tx_read t7 = tx_read t"
    "reserve_writes cf cd (rs_ProjectID r = []) (p\<lparr>p_StorageApp := app, p_ChargedBytes := p_ChargedBytes p + versionCharge (rs_Bytes r)\<rparr>)
       (quota_add (quota_at (docs cd t) (key_of cf p)) 0 (versionCharge (rs_Bytes r)))
       ((new_operation cf a r opID p (rs_ProjectID r = []))\<lparr>op_StorageGeneration := gen, op_StorageVersionKey := key\<rparr>) t7 = (Inr x, u)"
proof -
  let ?new = "rs_ProjectID r = []" and ?ch = "versionCharge (rs_Bytes r)"
  from assms(1) obtain p t1 y1 t2 y2 t3 found t4 p1 t5 op t6 y3 t7 where
    1: "(if ?new then new_project cf cd a r opID else existing_project cf cd a r) t = (Inr p, t1)"
    and 2: "(if cf_StorageOffers cf = None \<or> rs_StorageManifest r = None
               then checkNotRetired cf (p_ID p) (rs_Digest r) else tx_return ()) t1 = (Inr y1, t2)"
    and 3: "check_duplicate cf cd a p (rs_Digest r) t2 = (Inr y2, t3)"
    and 4: "tx_optional (readQuota cf cd (p_Owner p)) t3 = (Inr found, t4)"
    and g: "\<not> (?new \<and> q_Count (quota_or_empty found) \<ge> limit cf (p_Owner p))"
      "\<not> \<not> fitsBytes (q_ChargedBytes (quota_or_empty found)) ?ch (byteLimit cf (p_Owner p))"
    and 5: "allocateStorage cf cd p r t4 = (Inr p1, t5)"
    and 6: "operation_storage cf cd r (new_operation cf a r opID (p1\<lparr>p_ChargedBytes := p_ChargedBytes p1 + ?ch\<rparr>) ?new) t5 = (Inr op, t6)"
    and 7: "checkStorageOperation cf cd (p1\<lparr>p_ChargedBytes := p_ChargedBytes p1 + ?ch\<rparr>) op t6 = (Inr y3, t7)"
    and 8: "reserve_writes cf cd ?new (p1\<lparr>p_ChargedBytes := p_ChargedBytes p1 + ?ch\<rparr>)
       ((quota_or_empty found)\<lparr>q_ChargedBytes := q_ChargedBytes (quota_or_empty found) + ?ch\<rparr>) op t7 = (Inr x, u)"
    unfolding open_reservation_def Let_def by (elim tx_bind_InrE tx_guard_InrE) blast
  have e1: "cur t1 = cur t" "tx_read t1 = tx_read t"
    using 1 assms(2) by (auto split: if_splits elim!: new_project_InrE existing_project_InrE)
  have e3: "cur t3 = cur t" "tx_read t3 = tx_read t" using 2 3 e1 by (auto split: if_splits elim!: tx_elims)
  have g3: "good_env cd (tx_read t3)" using e3 assms(2) by simp
  have e4: "quota_or_empty found = quota_at (docs cd t) (key_of cf p)" "cur t4 = cur t" "tx_read t4 = tx_read t"
    using optional_quota_at[OF 4 g3] e3 by auto
  obtain app where e5: "p1 = p\<lparr>p_StorageApp := app\<rparr>" "tx_read t5 = tx_read t" "within alloc_collections (docs cd t) (docs cd t5)"
    using 5 e4 assms(2) by (auto elim!: allocateStorage_InrE)
  have c5: "core_of (docs cd t5) = core_of (docs cd t)" "index_ok cf (docs cd t5) = index_ok cf (docs cd t)"
    using core_within[OF e5(3)] index_within[OF e5(3)] by auto
  obtain gen key where e6: "op = (new_operation cf a r opID p ?new)\<lparr>op_StorageGeneration := gen, op_StorageVersionKey := key\<rparr>"
    "cur t6 = cur t5" "tx_read t6 = tx_read t"
    using 6 e5 by (auto simp: new_operation_def elim!: operation_storage_InrE)
  have e7: "cur t7 = cur t5" "tx_read t7 = tx_read t" using 7 e6 by (auto elim!: checkStorageOperation_InrE)
  show thesis
    by (rule that[where p = p and ?t1.0 = t1 and ?t7.0 = t7 and app = app and gen = gen and key = key]) (use 1 g 8 e4 e5 e6 e7 c5 in \<open>auto simp: quota_add_def\<close>)
qed

lemma quota_add_count [simp]: "(quota_add q 0 b)\<lparr>q_Count := q_Count q + 1\<rparr> = quota_add q 1 b"
  by (cases q) (simp add: quota_add_def)

lemma open_reservation_refines:
  assumes "open_reservation cf cd a r opID t = (Inr x, u)" "good_env cd (tx_read t)" "core_ok cf (core_of (docs cd t))" "opID \<noteq> []"
  shows "refines cf (docs cd t) (docs cd u)"
  using assms(1,2)
proof (rule open_reservation_InrE)
  fix p t1 t7 app gen key
  let ?ch = "versionCharge (rs_Bytes r)" and ?new = "rs_ProjectID r = []"
  let ?op = "(new_operation cf a r opID p ?new)\<lparr>op_StorageGeneration := gen, op_StorageVersionKey := key\<rparr>"
  let ?q = "quota_at (docs cd t) (key_of cf p)" and ?c = "core_of (docs cd t)"
  let ?p = "p\<lparr>p_StorageApp := app, p_ChargedBytes := p_ChargedBytes p + ?ch\<rparr>"
  assume 1: "(if ?new then new_project cf cd a r opID else existing_project cf cd a r) t = (Inr p, t1)"
    and g: "?new \<Longrightarrow> q_Count ?q < limit cf (p_Owner p)" "fitsBytes (q_ChargedBytes ?q) ?ch (byteLimit cf (p_Owner p))"
    and c7: "core_of (docs cd t7) = ?c" "index_ok cf (docs cd t7) = index_ok cf (docs cd t)" and r7: "tx_read t7 = tx_read t"
    and 8: "reserve_writes cf cd ?new ?p (quota_add ?q 0 ?ch) ?op t7 = (Inr x, u)"
  have g7: "good_env cd (tx_read t7)" using r7 assms(2) by simp
  have op: "op_State ?op = ''pending''" "op_ID ?op = opID" "pending_op ?op opID (p_ID p) ?new" "op_BaseRevision ?op = p_Revision p"
    "op_Owner ?op = Owner a" by (simp_all add: new_operation_def pending_op_def)
  note w = reserve_writes_core[OF 8 g7 op(1), unfolded op(2) c7]
  have free: "op_at (docs cd t) opID = None" using w c7(1) by (metis core_of_sel(4))
  show ?thesis
  proof (cases ?new)
    case True
    then have "new_project cf cd a r opID t = (Inr p, t1)" using 1 by simp
    then show ?thesis using assms(2)
    proof (rule new_project_InrE)
      fix slug suffix
      assume p: "p = (fresh_project cf a opID)\<lparr>p_Slug := slug, p_InitialSuffix := suffix\<rparr>"
        and n: "proj (docs cd t) (take 32 opID) = None" "slugRE slug" "slug \<notin> set reserved_slugs" "slug_available ?c (take 32 opID) slug"
      let ?p2 = "?p\<lparr>p_PendingOperation := opID\<rparr>"
      have sel: "p_ID p = take 32 opID" "p_Owner p = Owner a" "p_ChargedBytes p = 0" "p_Slug p = slug" "p_Status p = ''reserved''"
        "\<not> p_Private p" "owner_expiry ?p2" "take 32 opID \<noteq> []"
        using assms(4) by (auto simp: p fresh_project_def zero_project_def owner_expiry_def Owner_def)
      have "core_step cf ?c (set_op opID ?op (set_proj (take 32 opID) ?p2 (set_quota (key_of cf ?p2)
          (quota_add ?q 1 (p_ChargedBytes ?p2)) (set_slug (p_Slug ?p2) (Some (take 32 opID)) ?c))))"
        by (rule core_step.reserve_new) (use sel n g True op free assms(4) in auto)
      then show ?thesis unfolding refines_def using w True sel c7 by simp
    qed
  next
    case False
    then have "existing_project cf cd a r t = (Inr p, t1)" using 1 by simp
    then show ?thesis
    proof (rule existing_project_InrE)
      assume e: "proj (docs cd t) (rs_ProjectID r) = Some p" "Live p (repo_now cf)" "p_PendingOperation p = []"
      have id: "p_ID p = rs_ProjectID r" using ids_ok[OF assms(3) e(1)] .
      have "core_step cf ?c (set_op opID ?op (set_proj (rs_ProjectID r) (?p\<lparr>p_PendingOperation := opID\<rparr>)
          (set_quota (key_of cf p) (quota_add ?q 0 ?ch) ?c)))"
        by (rule core_step.reserve_update[OF _ e(2,3) assms(4)]) (use e op id g free False in auto)
      then show ?thesis unfolding refines_def using w False id c7 by simp
    qed
  qed
qed


lemma resume_InrE:
  assumes "resume cf cd a r op t = (Inr x, u)"
  obtains p where "x = (p, op)" "proj (docs cd t) (op_ProjectID op) = Some p" "op_State op \<noteq> ''aborted''"
    "op_Fingerprint op = reservation_hash cf r" "op_Owner op = Owner a" "cur u = cur t"
  using assms that unfolding resume_def by (elim tx_elims) (auto dest: proj_get)

text \<open>A reservation resumes the operation its key names, or opens it.\<close>

lemma Reserve_InrE:
  assumes "Reserve cf cd a r t = (Inr x, u)" "good_env cd (tx_read t)"
  defines "k \<equiv> operationID cf a (rs_Key r)"
  obtains op p where "op_at (docs cd t) k = Some op" "proj (docs cd t) (op_ProjectID op) = Some p" "x = (p, op)"
      "op_State op \<noteq> ''aborted''" "op_Fingerprint op = reservation_hash cf r" "op_Owner op = Owner a" "docs cd u = docs cd t"
  | v where "op_at (docs cd t) k = None" "cur v = cur t" "tx_read v = tx_read t"
      "open_reservation cf cd a (r\<lparr>rs_StorageOperationID := k\<rparr>) k v = (Inr x, u)"
proof -
  let ?r = "r\<lparr>rs_StorageOperationID := k\<rparr>"
  from assms(1) obtain y1 t1 y2 t2 y3 t3 found t4 where
    1: "tx_refuse (validateReservation r) t = (Inr y1, t1)" and 2: "authorizePublish cf cd a t1 = (Inr y2, t2)"
    and 3: "ticket_allows cd a ?r t2 = (Inr y3, t3)"
    and 4: "tx_optional (Get cd asOperation (raftRef ''operations'' k)) t3 = (Inr found, t4)"
    and 5: "(case found of Some op \<Rightarrow> resume cf cd a ?r op | None \<Rightarrow> open_reservation cf cd a ?r k) t4 = (Inr x, u)"
    unfolding Reserve_def Let_def k_def by (elim tx_bind_InrE tx_guard_InrE) blast
  have e3: "cur t3 = cur t" "tx_read t3 = tx_read t"
    using 1 2 3 unfolding tx_refuse_def ticket_allows_def
    by (auto simp del: tx_bind_app split: option.splits if_splits elim!: tx_elims)
  have e4: "cur t4 = cur t" "tx_read t4 = tx_read t" "found = op_at (docs cd t) k"
    using 4 e3 assms(2) by (auto simp: op_at_def elim!: tx_elims)
  have rh: "reservation_hash cf ?r = reservation_hash cf r" by (simp add: reservation_hash_def)
  show thesis
  proof (cases found)
    case None
    then show thesis using that(2)[of t4] 5 e4 by simp
  next
    case (Some op)
    then have "resume cf cd a ?r op t4 = (Inr x, u)" using 5 by simp
    then show thesis by (rule resume_InrE) (use that(1)[of op] Some e4 rh in simp)
  qed
qed

lemma Reserve_refines:
  assumes "Reserve cf cd a r t = (Inr x, u)" "good_env cd (tx_read t)" "core_ok cf (core_of (docs cd t))" "hex_hash cf"
  shows "refines cf (docs cd t) (docs cd u)"
  using assms(1,2)
proof (cases rule: Reserve_InrE)
  case (1 op p)
  then show ?thesis by (simp add: refines_same)
next
  case (2 v)
  have "operationID cf a (rs_Key r) \<noteq> []"
    using assms(4) unfolding hex_hash_def operationID_def digestRE_def by (metis list.size(3) zero_neq_numeral)
  then show ?thesis using open_reservation_refines[OF 2(4)] 2 assms(2,3) by simp
qed

lemma open_reservation_result:
  assumes "open_reservation cf cd a r k t = (Inr x, u)" "good_env cd (tx_read t)"
  obtains p op where "x = (p, op)" "op_at (docs cd u) k = Some op" "proj (docs cd u) (op_ProjectID op) = Some p"
  using assms
proof (rule open_reservation_InrE)
  fix p t1 t7 app gen key
  let ?op = "(new_operation cf a r k p (rs_ProjectID r = []))\<lparr>op_StorageGeneration := gen, op_StorageVersionKey := key\<rparr>"
  assume t7: "tx_read t7 = tx_read t" and w: "reserve_writes cf cd (rs_ProjectID r = [])
       (p\<lparr>p_StorageApp := app, p_ChargedBytes := p_ChargedBytes p + versionCharge (rs_Bytes r)\<rparr>)
       (quota_add (quota_at (docs cd t) (key_of cf p)) 0 (versionCharge (rs_Bytes r))) ?op t7 = (Inr x, u)"
  have g: "good_env cd (tx_read t7)" "op_State ?op = ''pending''" "op_ID ?op = k" "op_ProjectID ?op = p_ID p"
    using t7 assms(2) by (simp_all add: new_operation_def)
  note c = reserve_writes_core[OF w g(1,2)]
  have x: "x = (fst x, ?op)" using c by simp
  have "c_ops (core_of (docs cd u)) k = Some ?op" unfolding conjunct1[OF c] using g by simp
  moreover have "c_projects (core_of (docs cd u)) (op_ProjectID ?op) = Some (fst x)"
    unfolding conjunct1[OF c] using c g by simp
  ultimately have "op_at (docs cd u) k = Some ?op" "proj (docs cd u) (op_ProjectID ?op) = Some (fst x)" by simp_all
  with x show thesis using that by blast
qed

lemma revision_collection: "has_prefix (collection_of (revision_key pid i)) ''versions_''"
  unfolding collection_takeWhile
  by (rule has_prefix_takeWhile) (simp_all add: revision_key_def raftRef_def has_prefix_def)

lemma core_of_revision [simp]: "core_of (D(revision_key pid i := x)) = core_of D"
  by (rule core_within[where S = "{c. has_prefix c ''versions_''}"])
    (auto intro!: within_upd simp: revision_collection core_collections_def, simp_all add: has_prefix_def)

lemma index_ok_revision [simp]: "index_ok cf (D(revision_key pid i := x)) = index_ok cf D"
  by (rule index_within[where S = "{c. has_prefix c ''versions_''}"])
    (auto intro!: within_upd simp: revision_collection, simp_all add: has_prefix_def)

lemma operation_write_core:
  assumes "raftTx_Set cf cd (raftRef ''operations'' k) (DOperation op) t = (Inr x, u)" "good_env cd (tx_read t)"
  shows "core_of (docs cd u) = set_op k op (core_of (docs cd t)) \<and> index_ok cf' (docs cd u) = index_ok cf' (docs cd t)
    \<and> tx_read u = tx_read t"
  using assms
  by (auto simp: raftTx_Set_operation simp del: tx_bind_app split: if_splits elim!: tx_bind_InrE Set_InrE)

lemma move_digest_within:
  assumes "move_digest cd p op t = (Inr x, u)"
  shows "within {''digests''} (docs cd t) (docs cd u) \<and> tx_read u = tx_read t"
proof -
  from assms obtain idx t1 found t2 where 1: "Get cd asDigest (raftRef ''digests'' (op_Digest op)) t = (Inr idx, t1)"
    and 2: "(if p_ActiveDigest p \<noteq> [] \<and> p_ActiveDigest p \<noteq> op_Digest op
              then tx_optional (Get cd asDigest (raftRef ''digests'' (p_ActiveDigest p))) else tx_return None) t1 = (Inr found, t2)"
    and 3: "(if d_ProjectID (case found of None \<Rightarrow> zero_digest | Some d \<Rightarrow> d) = p_ID p
       then Delete (raftRef ''digests'' (p_ActiveDigest p)) else tx_return ()) t2 = (Inr x, u)"
    unfolding move_digest_def Let_def by (elim tx_bind_InrE tx_guard_InrE) blast
  have "cur t2 = cur t" "tx_read t2 = tx_read t" using 1 2 by (auto split: if_splits elim!: tx_elims)
  then show ?thesis using 3 by (auto split: if_splits elim!: Delete_InrE intro: within_upd)
qed

lemma finish_ticket_within:
  assumes "finish_ticket cf cd a p t = (Inr x, u)" "good_env cd (tx_read t)"
  shows "within {''agent_upload_tickets''} (docs cd t) (docs cd u) \<and> tx_read u = tx_read t"
  using assms unfolding finish_ticket_def raftTx_Set_other[OF plain_names(20), simplified]
  by (auto simp del: tx_bind_app split: if_splits elim!: tx_bind_InrE Get_InrE Set_InrE intro: within_upd)

text \<open>Activation either finds the operation complete and changes nothing, or makes its content active.\<close>

lemma activate_InrE:
  assumes "activate cf cd a opID pd pr t = (Inr x, u)" "good_env cd (tx_read t)"
  obtains op where "op_at (docs cd t) opID = Some op" "proj (docs cd t) (op_ProjectID op) = Some x" "op_State op = ''complete''"
      "pd \<noteq> [] \<longrightarrow> p_Private x" "docs cd u = docs cd t"
  | op p where "op_at (docs cd t) opID = Some op" "proj (docs cd t) (op_ProjectID op) = Some p" "p_Status p \<noteq> ''deleted''"
      "op_State op = ''pending''" "repo_now cf < op_ExpiresAt op" "p_PendingOperation p = op_ID op" "p_Revision p = op_BaseRevision op"
      "pd \<noteq> [] \<longrightarrow> op_New op \<and> pr = p_PolicyRevision p + 1 \<and> p_PolicyRevision p \<noteq> max_int64" "x = activated cf p op pd pr"
      "core_of (docs cd u) = set_proj (p_ID p) x
         (set_op opID (op\<lparr>op_State := ''complete'', op_PublishedAt := repo_now cf\<rparr>) (core_of (docs cd t)))"
      "index_ok cf (docs cd t) \<longrightarrow> index_ok cf (docs cd u)"
proof -
  from assms(1) obtain op p t1 where
    e: "op_at (docs cd t) opID = Some op" "proj (docs cd t) (op_ProjectID op) = Some p" "p_Status p \<noteq> ''deleted''"
      "cur t1 = cur t" "tx_read t1 = tx_read t"
    and r: "(if op_State op = ''complete'' then
       tx_bind (tx_guard (pd \<noteq> [] \<and> \<not> p_Private p) ErrConflict) (\<lambda>_. tx_return p)
     else
       tx_bind (tx_guard (op_State op \<noteq> ''pending'' \<or> \<not> repo_now cf < op_ExpiresAt op
           \<or> p_PendingOperation p \<noteq> op_ID op \<or> p_Revision p \<noteq> op_BaseRevision op) ErrConflict) (\<lambda>_.
       tx_bind (tx_guard (pd \<noteq> [] \<and> (\<not> op_New op \<or> p_PolicyRevision p = max_int64
           \<or> pr \<noteq> p_PolicyRevision p + 1)) ErrConflict) (\<lambda>_.
       tx_bind (move_digest cd p op) (\<lambda>_.
       tx_bind (finish_ticket cf cd a (activated cf p op pd pr)) (\<lambda>_.
       tx_bind (raftTx_Set cf cd (raftRef ''operations'' opID) (DOperation (op\<lparr>op_State := ''complete'', op_PublishedAt := repo_now cf\<rparr>))) (\<lambda>_.
       tx_bind (raftTx_Set cf cd (raftRef ''digests'' (op_Digest op))
         (DDigest \<lparr>d_ProjectID = p_ID p, d_OperationID = []\<rparr>)) (\<lambda>_.
       tx_bind (raftTx_Set cf cd (raftRef ''projects'' (p_ID p)) (DProject (activated cf p op pd pr))) (\<lambda>_.
       tx_return (activated cf p op pd pr))))))))) t1 = (Inr x, u)"
    unfolding activate_def Let_def
    by (elim tx_bind_InrE tx_guard_InrE tx_missing_InrE Get_InrE authorizePublish_InrE checkStorageOperation_InrE)
      (auto simp: op_at_def dest: proj_get simp del: tx_bind_app)
  let ?p = "activated cf p op pd pr" and ?op = "op\<lparr>op_State := ''complete'', op_PublishedAt := repo_now cf\<rparr>"
  show thesis
  proof (cases "op_State op = ''complete''")
    case True
    from r[unfolded if_P[OF True]] have "pd \<noteq> [] \<longrightarrow> p_Private p" "x = p" "docs cd u = docs cd t"
      using e(4) by (auto simp del: tx_bind_app elim!: tx_bind_InrE tx_guard_InrE tx_return_InrE)
    then show thesis using that(1)[OF e(1)] e(2) True by blast
  next
    case False
    from r[unfolded if_not_P[OF False]] obtain y2 t2 y3 t3 y4 t4 y5 t5 y6 where
      g: "\<not> (op_State op \<noteq> ''pending'' \<or> \<not> repo_now cf < op_ExpiresAt op
           \<or> p_PendingOperation p \<noteq> op_ID op \<or> p_Revision p \<noteq> op_BaseRevision op)"
        "\<not> (pd \<noteq> [] \<and> (\<not> op_New op \<or> p_PolicyRevision p = max_int64 \<or> pr \<noteq> p_PolicyRevision p + 1))"
      and 2: "move_digest cd p op t1 = (Inr y2, t2)" and 3: "finish_ticket cf cd a ?p t2 = (Inr y3, t3)"
      and 4: "raftTx_Set cf cd (raftRef ''operations'' opID) (DOperation ?op) t3 = (Inr y4, t4)"
      and 5: "raftTx_Set cf cd (raftRef ''digests'' (op_Digest op)) (DDigest \<lparr>d_ProjectID = p_ID p, d_OperationID = []\<rparr>) t4 = (Inr y5, t5)"
      and 6: "raftTx_Set cf cd (raftRef ''projects'' (p_ID p)) (DProject ?p) t5 = (Inr y6, u)"
      and x: "x = ?p"
      by (elim tx_bind_InrE tx_guard_InrE tx_return_InrE) blast
    have e2: "within {''digests''} (docs cd t) (docs cd t2)" "tx_read t2 = tx_read t"
      using move_digest_within[OF 2] e by auto
    have g2: "good_env cd (tx_read t2)" using e2 assms(2) by simp
    have e3: "within {''agent_upload_tickets''} (docs cd t2) (docs cd t3)" "tx_read t3 = tx_read t"
      using finish_ticket_within[OF 3 g2] e2 by auto
    have c3: "core_of (docs cd t3) = core_of (docs cd t)" "index_ok cf (docs cd t3) = index_ok cf (docs cd t)"
      using core_within[OF e2(1)] core_within[OF e3(1)] index_within[OF e2(1)] index_within[OF e3(1)] by auto
    have g3: "good_env cd (tx_read t3)" using e3 assms(2) by simp
    note e4 = operation_write_core[OF 4 g3, where cf' = cf]
    have g4: "good_env cd (tx_read t4)" using e4 g3 by simp
    have e5: "docs cd t5 = (docs cd t4)(raftRef ''digests'' (op_Digest op) \<mapsto> DDigest \<lparr>d_ProjectID = p_ID p, d_OperationID = []\<rparr>)"
      "tx_read t5 = tx_read t4" using 5 g4 by (auto simp: raftTx_Set_other elim!: Set_InrE)
    have g5: "good_env cd (tx_read t5)" using e5 g4 by simp
    show thesis
      by (rule that(2)[OF e(1,2,3)]) (use g x project_write_core[OF 6 g5] e4 e5 c3 in auto)
  qed
qed

lemma activate_refines:
  assumes "activate cf cd a opID pd pr t = (Inr x, u)" "good_env cd (tx_read t)" "core_ok cf (core_of (docs cd t))"
  shows "refines cf (docs cd t) (docs cd u)"
  using assms(1,2)
proof (cases rule: activate_InrE)
  case (1 op)
  then show ?thesis by (simp add: refines_same)
next
  case (2 op p)
  have id: "p_ID p = op_ProjectID op" using ids_ok[OF assms(3) 2(2)] .
  have "core_step cf (core_of (docs cd t)) (set_proj (op_ProjectID op) (activated cf p op pd pr)
      (set_op opID (op\<lparr>op_State := ''complete'', op_PublishedAt := repo_now cf\<rparr>) (core_of (docs cd t))))"
    by (rule core_step.activate[where i = "op_ProjectID op"]) (use 2 in auto)
  then show ?thesis unfolding refines_def using 2 id by simp
qed

lemma release_digest_within:
  assumes "release_digest cf cd p op idx t = (Inr x, u)" "good_env cd (tx_read t)"
  shows "within {''digests''} (docs cd t) (docs cd u) \<and> tx_read u = tx_read t"
  using assms unfolding release_digest_def
  by (auto simp: raftTx_Set_other split: if_splits elim!: Set_InrE Delete_InrE intro: within_upd)

lemma quota_add_minus: "q\<lparr>q_Count := q_Count q - 1\<rparr> = quota_add q (-1) 0"
  by (simp add: quota_add_def)

lemma abort_refines:
  assumes "abort cf cd a opID expiredOnly t = (Inr x, u)" "good_env cd (tx_read t)" "core_ok cf (core_of (docs cd t))"
  shows "refines cf (docs cd t) (docs cd u)"
proof -
  from assms(1) obtain op t1 where e: "op_at (docs cd t) opID = Some op" "cur t1 = cur t" "tx_read t1 = tx_read t"
    and r: "(if op_State op \<noteq> ''pending'' then tx_return ()
     else if expiredOnly \<and> repo_now cf < op_ExpiresAt op then tx_return ()
     else
       tx_bind (Get cd asProject (raftRef ''projects'' (op_ProjectID op))) (\<lambda>p.
       tx_bind (tx_guard ((\<not> expiredOnly \<and> \<not> Owns (the a) (p_Owner p)) \<or> p_PendingOperation p \<noteq> op_ID op)
         ErrConflict) (\<lambda>_.
       tx_bind (tx_optional (Get cd asDigest (raftRef ''digests'' (op_Digest op)))) (\<lambda>idx.
       tx_bind (readQuota cf cd (p_Owner p)) (\<lambda>q.
       tx_bind (release_digest cf cd p op (case idx of None \<Rightarrow> zero_digest | Some d \<Rightarrow> d)) (\<lambda>_.
       tx_bind (if op_New op then
           tx_bind (tx_guard (q_Count q \<le> 0) ErrConflict) (\<lambda>_.
           tx_bind (raftTx_Set cf cd (raftRef ''quotas'' (ownerKey cf (p_Owner p)))
             (DQuota (q\<lparr>q_Count := q_Count q - 1\<rparr>))) (\<lambda>_.
           tx_bind (Delete (raftRef ''slugs'' (p_Slug p))) (\<lambda>_.
           tx_return (p\<lparr>p_PendingOperation := [], p_Status := ''deleted''\<rparr>))))
         else tx_return (p\<lparr>p_PendingOperation := []\<rparr>)) (\<lambda>p''.
       tx_bind (raftTx_Set cf cd (raftRef ''projects'' (p_ID p'')) (DProject p'')) (\<lambda>_.
       raftTx_Set cf cd (raftRef ''operations'' opID) (DOperation (op\<lparr>op_State := ''aborted''\<rparr>))))))))))
         t1 = (Inr x, u)"
    unfolding abort_def Let_def
    by (elim tx_bind_InrE tx_guard_InrE tx_missing_InrE Get_InrE)
      (auto simp: op_at_def simp del: tx_bind_app split: if_splits option.splits elim!: authorizePublish_InrE)
  show ?thesis
  proof (cases "op_State op \<noteq> ''pending'' \<or> (expiredOnly \<and> repo_now cf < op_ExpiresAt op)")
    case True
    then have "docs cd u = docs cd t" using r e by (auto simp del: tx_bind_app split: if_splits)
    then show ?thesis by (rule refines_same)
  next
    case False
    then have nf: "\<not> op_State op \<noteq> ''pending''" "\<not> (expiredOnly \<and> repo_now cf < op_ExpiresAt op)" by blast+
    from r[unfolded if_not_P[OF nf(1)] if_not_P[OF nf(2)]] obtain p t2 idx t3 q t4 y5 t5 p' t6 y7 t7 where
      2: "Get cd asProject (raftRef ''projects'' (op_ProjectID op)) t1 = (Inr p, t2)"
      and g: "\<not> ((\<not> expiredOnly \<and> \<not> Owns (the a) (p_Owner p)) \<or> p_PendingOperation p \<noteq> op_ID op)"
      and 3: "tx_optional (Get cd asDigest (raftRef ''digests'' (op_Digest op))) t2 = (Inr idx, t3)"
      and 4: "readQuota cf cd (p_Owner p) t3 = (Inr q, t4)"
      and 5: "release_digest cf cd p op (case idx of None \<Rightarrow> zero_digest | Some d \<Rightarrow> d) t4 = (Inr y5, t5)"
      and 6: "(if op_New op then
           tx_bind (tx_guard (q_Count q \<le> 0) ErrConflict) (\<lambda>_.
           tx_bind (raftTx_Set cf cd (raftRef ''quotas'' (ownerKey cf (p_Owner p)))
             (DQuota (q\<lparr>q_Count := q_Count q - 1\<rparr>))) (\<lambda>_.
           tx_bind (Delete (raftRef ''slugs'' (p_Slug p))) (\<lambda>_.
           tx_return (p\<lparr>p_PendingOperation := [], p_Status := ''deleted''\<rparr>))))
         else tx_return (p\<lparr>p_PendingOperation := []\<rparr>)) t5 = (Inr p', t6)"
      and 7: "raftTx_Set cf cd (raftRef ''projects'' (p_ID p')) (DProject p') t6 = (Inr y7, t7)"
      and 8: "raftTx_Set cf cd (raftRef ''operations'' opID) (DOperation (op\<lparr>op_State := ''aborted''\<rparr>)) t7 = (Inr x, u)"
      by (elim tx_bind_InrE tx_guard_InrE) blast
    have e2: "proj (docs cd t) (op_ProjectID op) = Some p" "cur t2 = cur t" "tx_read t2 = tx_read t"
      using 2 e by (auto dest: proj_get elim!: Get_InrE)
    have e3: "cur t3 = cur t" "tx_read t3 = tx_read t" using 3 e2 by (auto elim!: tx_elims)
    have e4: "q = quota_at (docs cd t) (key_of cf p)" "cur t4 = cur t" "tx_read t4 = tx_read t"
      using readQuota_at[OF 4] e3 by auto
    have g4: "good_env cd (tx_read t4)" using e4 assms(2) by simp
    have e5: "within {''digests''} (docs cd t) (docs cd t5)" "tx_read t5 = tx_read t"
      using release_digest_within[OF 5 g4] e4 by auto
    have c5: "core_of (docs cd t5) = core_of (docs cd t)" "index_ok cf (docs cd t5) = index_ok cf (docs cd t)"
      using core_within[OF e5(1)] index_within[OF e5(1)] by auto
    have g5: "good_env cd (tx_read t5)" using e5 assms(2) by simp
    have id: "p_ID p = op_ProjectID op" using ids_ok[OF assms(3) e2(1)] .
    let ?c = "core_of (docs cd t)" and ?op = "op\<lparr>op_State := ''aborted''\<rparr>"
    have "p_ID p' = op_ProjectID op \<and> tx_read t6 = tx_read t \<and> index_ok cf (docs cd t6) = index_ok cf (docs cd t)
      \<and> core_step cf ?c (set_op opID ?op (set_proj (op_ProjectID op) p' (core_of (docs cd t6))))"
    proof (cases "op_New op")
      case True
      from 6[unfolded if_P[OF True]] have s: "0 < q_Count q" "p' = p\<lparr>p_PendingOperation := [], p_Status := ''deleted''\<rparr>"
        "tx_read t6 = tx_read t5" "docs cd t6 = (docs cd t5)(raftRef ''quotas'' (key_of cf p) \<mapsto> DQuota (quota_add q (-1) 0), raftRef ''slugs'' (p_Slug p) := None)"
        using g5 by (auto simp: raftTx_Set_other quota_add_minus[symmetric] simp del: tx_bind_app elim!: tx_bind_InrE tx_guard_InrE Set_InrE Delete_InrE tx_return_InrE)
      have "core_step cf ?c (set_op opID ?op (set_proj (op_ProjectID op) (p\<lparr>p_PendingOperation := [], p_Status := ''deleted''\<rparr>)
          (set_slug (p_Slug p) None (set_quota (key_of cf p) (quota_add q (-1) 0) ?c))))"
        by (rule core_step.abort_new[where i = "op_ProjectID op"]) (use e e2 g False True e4 s in auto)
      then show ?thesis using s id e5 c5 by simp
    next
      case F: False
      have s: "p' = p\<lparr>p_PendingOperation := []\<rparr>" "t6 = t5" using 6[unfolded if_not_P[OF F]] by auto
      have "core_step cf ?c (set_op opID ?op (set_proj (op_ProjectID op) (p\<lparr>p_PendingOperation := []\<rparr>) ?c))"
        by (rule core_step.abort_update[where i = "op_ProjectID op"]) (use e e2 g False F in auto)
      then show ?thesis using s id e5 c5 by simp
    qed
    then have s: "p_ID p' = op_ProjectID op" "tx_read t6 = tx_read t" "index_ok cf (docs cd t6) = index_ok cf (docs cd t)"
      "core_step cf ?c (set_op opID ?op (set_proj (op_ProjectID op) p' (core_of (docs cd t6))))" by blast+
    have g6: "good_env cd (tx_read t6)" using s assms(2) by simp
    note e7 = project_write_core[OF 7 g6]
    have g7: "good_env cd (tx_read t7)" using e7 g6 by simp
    show ?thesis unfolding refines_def using operation_write_core[OF 8 g7, where cf' = cf] e7 s by simp
  qed
qed

end
