(* ===== verification/Node.thy ===== *)
theory Node
  imports Metadata_Tx
begin

text \<open>
  The operations of a cluster node that clients call (\<open>internal/cluster/node.go\<close>): \<open>Read\<close>,
  \<open>Check\<close>, \<open>Commit\<close>, \<open>commitRaft\<close> and \<open>Scan\<close>, for a node without the asynchronous writer. The Raft
  library is a parameter: \<open>raft_env\<close> holds its answers during one call. With what Raft documents
  (an applied entry has a nonzero index, a future without error was applied) the node is a
  \<open>versioned_backend\<close>, which gives serializability of the transactions run against it.
\<close>

section \<open>Operations\<close>

record raft_env =
  re_fence :: "err option"
  re_selfFenced :: bool
  re_selfFencedAfter :: bool
  re_leader :: bool
  re_wait :: "err option"
  re_entry :: "(64 word \<times> 64 word) option"

text \<open>
  \<open>re_fence\<close> is the result of the leadership fence, \<open>re_wait\<close> that of waiting for the apply future,
  and \<open>re_entry\<close> the index and term under which this node applied the entry by then, if it did.
\<close>

definition Node_Read :: "raft_env \<Rightarrow> 'v cstate \<Rightarrow> string list \<Rightarrow> err + 'v records" where
  "Node_Read env s keys =
     (if length keys = 0 \<or> length keys > maxChanges then Inl KvErrInvalid
      else if list_ex (\<lambda>k. \<not> documentKey k) keys then Inl KvErrInvalid
      else case re_fence env of Some e \<Rightarrow> Inl e | None \<Rightarrow> Inr (read_state s keys))"

definition Node_Check :: "raft_env \<Rightarrow> 'v cstate \<Rightarrow> kv_check list \<Rightarrow> err option" where
  "Node_Check env s cs = (case Node_Read env s (map c_Key cs) of
     Inl e \<Rightarrow> Some e
   | Inr m \<Rightarrow> if list_ex (\<lambda>c. version_of m (c_Key c) \<noteq> c_Version c) cs then Some KvErrConflict
             else None)"

definition commitRaft ::
  "'v raw_ops \<Rightarrow> ('c, 'v) wire \<Rightarrow> ('v kv_transaction \<Rightarrow> 'c option) \<Rightarrow> raft_env \<Rightarrow> 'v cstate
    \<Rightarrow> 'v kv_transaction \<Rightarrow> err option \<times> 'v cstate" where
  "commitRaft ops wr marshal env s t =
     (if re_selfFenced env then (Some KvErrNotLeader, s)
      else case validateTransaction ops t of
        Some e \<Rightarrow> (Some e, s)
      | None \<Rightarrow> (case marshal t of
          None \<Rightarrow> (Some KvErrInvalid, s)
        | Some data \<Rightarrow>
            if data_len wr data > maxCommand then (Some KvErrInvalid, s)
            else if \<not> re_leader env then (Some KvErrNotLeader, s)
            else (let (response, s') = (case re_entry env of
                      None \<Rightarrow> (None, s)
                    | Some (index, term) \<Rightarrow>
                        Apply ops wr s \<lparr>l_Index = index, l_Term = term, l_Data = data\<rparr>)
                  in case re_wait env of
                      Some e \<Rightarrow> (Some e, s')
                    | None \<Rightarrow> if re_selfFencedAfter env then (Some KvErrNotLeader, s')
                              else (response, s'))))"

definition Commit ::
  "'v raw_ops \<Rightarrow> ('c, 'v) wire \<Rightarrow> ('v kv_transaction \<Rightarrow> 'c option) \<Rightarrow> raft_env \<Rightarrow> 'v cstate
    \<Rightarrow> 'v kv_transaction \<Rightarrow> err option \<times> 'v cstate" where
  "Commit ops wr marshal env s t =
     (if re_selfFenced env then (Some KvErrNotLeader, s)
      else if t_Revision t \<noteq> 0 then (Some KvErrInvalid, s)
      else commitRaft ops wr marshal env s t)"

record 'v page =
  pg_Records :: "'v records"
  pg_Next :: string

definition scanPrefix :: "string \<Rightarrow> bool" where
  "scanPrefix p \<longleftrightarrow> p \<noteq> [] \<and> last p = CHR ''/'' \<and> butlast p \<noteq> [] \<and> is_lower (hd p)
     \<and> length p \<le> 49 \<and> list_all (\<lambda>c. is_lower_alnum c \<or> c = CHR ''_'') (butlast p)"

definition Scan ::
  "raft_env \<Rightarrow> 'v cstate \<Rightarrow> string \<Rightarrow> string \<Rightarrow> int \<Rightarrow> err + 'v page" where
  "Scan env s prefix cursor limit =
     (if \<not> scanPrefix prefix \<or> limit < 1 \<or> limit > 100
         \<or> (cursor \<noteq> [] \<and> (\<not> documentKey cursor \<or> \<not> has_prefix cursor prefix))
      then Inl KvErrInvalid
      else case re_fence env of
        Some e \<Rightarrow> Inl e
      | None \<Rightarrow>
          (let keys = filter (\<lambda>k. has_prefix k prefix \<and> k > cursor)
                 (sorted_list_of_set (fset (fmdom (s_records s))));
               shown = (if int (length keys) > limit then take (nat limit) keys else keys)
           in Inr \<lparr>pg_Records = copyRecords (s_records s) shown,
                   pg_Next = (if int (length keys) > limit then last shown else [])\<rparr>))"

section \<open>A node is a versioned backend\<close>

definition node_backend ::
  "'v raw_ops \<Rightarrow> ('c, 'v) wire \<Rightarrow> ('v kv_transaction \<Rightarrow> 'c option)
    \<Rightarrow> (raft_env \<times> 'v cstate, 'v) backend" where
  "node_backend ops wr marshal = \<lparr>
     be_read = (\<lambda>(env, s). Node_Read env s),
     be_check = (\<lambda>(env, s). Node_Check env s),
     be_commit = (\<lambda>(env, s) t. let (r, s') = Commit ops wr marshal env s t in (r, (env, s'))),
     be_coherent = False\<rparr>"

definition node_lookup :: "raft_env \<times> 'v cstate \<Rightarrow> string \<Rightarrow> 'v kv_record option" where
  "node_lookup = (\<lambda>(env, s) k. fmlookup (s_records s) k)"

text \<open>What Raft documents, of the answers during one call.\<close>

definition raft_ok :: "raft_env \<Rightarrow> bool" where
  "raft_ok env \<longleftrightarrow> re_fence env \<noteq> Some MetadataErrNotFound
     \<and> (re_wait env = None \<longrightarrow> re_entry env \<noteq> None)
     \<and> (\<forall>i tm. re_entry env = Some (i, tm) \<longrightarrow> i \<noteq> 0)"

lemma Commit_None:
  assumes "Commit ops wr marshal env s t = (None, s')" "raft_ok env"
  obtains l where "Apply ops wr s l = (None, s')" "marshal t = Some (l_Data l)" "l_Index l \<noteq> 0"
    "validateTransaction ops t = None" "t_Revision t = 0"
  using assms by (auto simp: Commit_def commitRaft_def raft_ok_def
      split: if_splits option.splits prod.splits)


text \<open>JSON: what \<open>json.Marshal\<close> writes, the strict decoder of \<open>Apply\<close> reads back.\<close>

definition faithful_wire :: "('c, 'v) wire \<Rightarrow> ('v kv_transaction \<Rightarrow> 'c option) \<Rightarrow> bool" where
  "faithful_wire wr marshal \<longleftrightarrow> (\<forall>t data. marshal t = Some data \<longrightarrow> decode_tx wr data = Some t)"

definition node_ok ::
  "('c, 'v) wire \<Rightarrow> ('v kv_transaction \<Rightarrow> 'c option) \<Rightarrow> raft_env \<times> 'v cstate \<Rightarrow> bool" where
  "node_ok wr marshal = (\<lambda>(env, s). raft_ok env \<and> faithful_wire wr marshal)"

definition node_later ::
  "'v raw_ops \<Rightarrow> ('c, 'v) wire \<Rightarrow> raft_env \<times> 'v cstate \<Rightarrow> raft_env \<times> 'v cstate \<Rightarrow> bool" where
  "node_later ops wr = (\<lambda>(env, s) (env', s'). evolves ops wr s s')"

lemma Commit_result:
  assumes "Commit ops wr marshal env s t = (None, s')" "raft_ok env" "faithful_wire wr marshal"
  obtains l where "apply_result ops wr s l t s'" "log_version l t \<noteq> 0"
proof -
  from assms(1,2) obtain l where l: "Apply ops wr s l = (None, s')" "marshal t = Some (l_Data l)"
    "l_Index l \<noteq> 0" "t_Revision t = 0" by (rule Commit_None)
  obtain t' where t': "apply_result ops wr s l t' s'" using l(1) by (rule Apply_None)
  have "decode_tx wr (l_Data l) = Some t" using l(2) assms(3) by (simp add: faithful_wire_def)
  then have "t' = t" using t' by (simp add: apply_result_def)
  then show ?thesis using that[of l] t' l by (simp add: log_version_def)
qed

lemma rec_version_lookup: "rec_version (fmlookup m k) = version_of m k"
  by (simp add: rec_version_def version_of_def)

lemma applied_effect:
  assumes "apply_result ops wr s l t s'" "log_version l t \<noteq> 0"
  shows "stored (fmlookup (s_records s') k) = (case find (\<lambda>w. w_Key w = k) (t_Writes t) of
        None \<Rightarrow> stored (fmlookup (s_records s) k)
      | Some w \<Rightarrow> if w_Delete w then None else w_Value w)"
  using apply_result_lookup[OF assms(1), of k] assms(2)
  by (auto simp: stored_def written_def rec_version_def split: option.splits)

lemma Commit_effect:
  assumes "Commit ops wr marshal env s t = (None, s')" "raft_ok env" "faithful_wire wr marshal"
  shows "stored (fmlookup (s_records s') k) = (case find (\<lambda>w. w_Key w = k) (t_Writes t) of
        None \<Rightarrow> stored (fmlookup (s_records s) k)
      | Some w \<Rightarrow> if w_Delete w then None else w_Value w)"
  using assms by (rule Commit_result) (rule applied_effect)

text \<open>Whatever a commit answers, its entry was rejected or not applied, or was applied as a whole.\<close>

lemma Commit_outcome:
  assumes "Commit ops wr marshal env s t = (r, s')" "raft_ok env" "faithful_wire wr marshal"
  shows "s_records s' = s_records s \<or> (\<exists>l. apply_result ops wr s l t s' \<and> log_version l t \<noteq> 0)"
proof -
  from assms(1) consider "s' = s" | data i tm res where "marshal t = Some data" "re_entry env = Some (i, tm)"
      "Apply ops wr s \<lparr>l_Index = i, l_Term = tm, l_Data = data\<rparr> = (res, s')" "t_Revision t = 0"
    by (auto simp: Commit_def commitRaft_def split: if_splits option.splits prod.splits)
  then show ?thesis
  proof cases
    case 2
    let ?l = "\<lparr>l_Index = i, l_Term = tm, l_Data = data\<rparr>"
    show ?thesis
    proof (cases res)
      case None
      then obtain t' where t': "apply_result ops wr s ?l t' s'" using 2(3) by (auto elim: Apply_None)
      then have "t' = t" using 2(1) assms(3) by (simp add: apply_result_def faithful_wire_def)
      moreover have "log_version ?l t \<noteq> 0" using 2 assms(2) by (simp add: log_version_def raft_ok_def)
      ultimately show ?thesis using t' by blast
    qed (use 2(3) Apply_error(1) in fastforce)
  qed simp
qed

interpretation node: versioned_backend
  "node_backend ops wr marshal" node_lookup "node_later ops wr" "node_ok wr marshal"
  for ops :: "'v raw_ops" and wr :: "('c, 'v) wire" and marshal
proof (unfold_locales, goal_cases)
  case (1 s keys m k)
  then show ?case
    by (auto simp: node_backend_def node_lookup_def Node_Read_def read_state_def lookup_copyRecords
        split: prod.splits if_splits option.splits)
next
  case (2 s keys)
  then show ?case
    by (auto simp: node_backend_def Node_Read_def node_ok_def raft_ok_def split: prod.splits option.splits)
next
  case (3 s cs c)
  then show ?case
    by (auto simp: node_backend_def node_lookup_def Node_Check_def Node_Read_def list_ex_iff
        read_state_def lookup_copyRecords version_of_def rec_version_def
        split: prod.splits if_splits option.splits sum.splits)
next
  case (4 s t s' c)
  then show ?case
    by (auto simp: node_backend_def node_lookup_def node_ok_def rec_version_lookup apply_result_def
        split: prod.splits elim!: Commit_result)
next
  case (5 s t s' k)
  then show ?case
    by (auto simp: node_backend_def node_lookup_def node_ok_def split: prod.splits
        cong: option.case_cong dest!: Commit_effect[of _ _ _ _ _ _ _ k])
next
  case (6 s s' k)
  then show ?case
    by (auto simp: node_later_def node_lookup_def rec_version_lookup split: prod.splits
        dest: evolves_identity)
qed

interpretation node: atomic_backend
  "node_backend ops wr marshal" node_lookup "node_later ops wr" "node_ok wr marshal"
  for ops :: "'v raw_ops" and wr :: "('c, 'v) wire" and marshal
proof
  fix s s' t e
  assume c: "be_commit (node_backend ops wr marshal) s t = (Some e, s')" and ok: "node_ok wr marshal s"
  obtain env m where s: "s = (env, m)" by (cases s)
  from c obtain m' where c: "Commit ops wr marshal env m t = (Some e, m')" and s': "s' = (env, m')"
    by (auto simp: node_backend_def s split: prod.splits)
  from Commit_outcome[OF c] ok
  consider "s_records m' = s_records m" | l where "apply_result ops wr m l t m'" "log_version l t \<noteq> 0"
    by (auto simp: node_ok_def s)
  then show "(\<forall>k. node_lookup s' k = node_lookup s k)
    \<or> (\<forall>c \<in> set (t_Checks t). rec_version (node_lookup s (c_Key c)) = c_Version c)
      \<and> (\<forall>k. stored (node_lookup s' k) = (case find (\<lambda>w. w_Key w = k) (t_Writes t) of
           None \<Rightarrow> stored (node_lookup s k) | Some w \<Rightarrow> if w_Delete w then None else w_Value w))"
  proof cases
    case 2
    have "\<forall>c \<in> set (t_Checks t). rec_version (node_lookup s (c_Key c)) = c_Version c"
      using 2(1) by (simp add: node_lookup_def s rec_version_lookup apply_result_def)
    moreover have "\<forall>k. stored (node_lookup s' k) = (case find (\<lambda>w. w_Key w = k) (t_Writes t) of
           None \<Rightarrow> stored (node_lookup s k) | Some w \<Rightarrow> if w_Delete w then None else w_Value w)"
      using applied_effect[OF 2] by (simp add: node_lookup_def s s' cong: option.case_cong)
    ultimately show ?thesis by blast
  qed (simp add: node_lookup_def s s')
qed


section \<open>Pages\<close>

lemma sorted_take_iff:
  assumes "sorted ks" "distinct ks" "0 < n" "n \<le> length ks"
  shows "k \<in> set (take n ks) \<longleftrightarrow> k \<in> set ks \<and> (k :: 'a :: linorder) \<le> last (take n ks)"
proof -
  have ne: "take n ks \<noteq> []" using assms by auto
  have s: "sorted (take n ks @ drop n ks)" "distinct (take n ks @ drop n ks)" using assms by simp_all
  have "k \<le> last (take n ks)" if "k \<in> set (take n ks)"
  proof -
    have "sorted (butlast (take n ks) @ [last (take n ks)])" using s(1) ne by (simp add: sorted_append)
    moreover have "k \<in> set (butlast (take n ks) @ [last (take n ks)])" using that ne by simp
    ultimately show ?thesis by (auto simp: sorted_append)
  qed
  moreover have "\<not> k \<le> last (take n ks)" if "k \<in> set (drop n ks)"
  proof
    assume "k \<le> last (take n ks)"
    moreover have l: "last (take n ks) \<in> set (take n ks)" using ne by (rule last_in_set)
    moreover have "last (take n ks) \<le> k" using s(1)[unfolded sorted_append] that l by blast
    ultimately have "k \<in> set (take n ks)" by (metis antisym)
    then show False using s(2)[unfolded distinct_append] that by blast
  qed
  moreover have "set ks = set (take n ks) \<union> set (drop n ks)" by (metis append_take_drop_id set_append)
  ultimately show ?thesis by blast
qed

lemma set_scan_keys:
  "k \<in> set (filter (\<lambda>k. has_prefix k prefix \<and> k > cursor)
       (sorted_list_of_set (fset (fmdom m)))) \<longleftrightarrow>
     fmlookup m k \<noteq> None \<and> has_prefix k prefix \<and> cursor < k"
  by (auto simp: fmlookup_dom_iff)

section \<open>Transactions on a node\<close>

lemma run_outcome:
  assumes "\<And>k. replays (fn k)"
    and "\<And>k. valid_schedule (node_later ops wr) (node_ok wr marshal) (sch k)"
  shows "\<exists>k < 8. stored \<circ> node_lookup (snd (run (node_backend ops wr marshal) dur snap fn sch ctx)) = stored \<circ> node_lookup (at_finish (sch k))
    \<or> (\<exists>x t. fn k (snapshot_tx (node_lookup (at_finish (sch k))) dur snap) = (Inr x, t)
         \<and> stored \<circ> node_lookup (snd (run (node_backend ops wr marshal) dur snap fn sch ctx)) = cur t)"
proof -
  let ?be = "node_backend ops wr marshal"
  obtain k where k: "k < 8" "snd (run ?be dur snap fn sch ctx) = snd (run_attempt ?be dur snap (fn k) (sch k))"
    using run_last_attempt by blast
  obtain r s' where s': "run_attempt ?be dur snap (fn k) (sch k) = (r, s')"
    by (cases "run_attempt ?be dur snap (fn k) (sch k)")
  show ?thesis using node.attempt_atomic[OF s' _ assms(1,2)] k s'
    by (auto simp: node_backend_def)
qed

section \<open>Properties\<close>


text \<open>
  C26. Errors are all or nothing. However a transaction ends, with a result, an error of its body, a
  lost compare-and-set, an error of the cluster or an answer that never came, the node is left with
  the documents it had when the last attempt finished, or with exactly those that executing the body
  atomically on that state gives: no part of a transaction is ever applied alone.
\<close>

theorem run_all_or_nothing:
  assumes "\<And>k. replays (fn k)"
    and "\<And>k. valid_schedule (node_later ops wr) (node_ok wr marshal) (sch k)"
  shows "\<exists>k < 8. let s = node_lookup (at_finish (sch k));
       s' = node_lookup (snd (run (node_backend ops wr marshal) dur snap fn sch ctx)) in
     stored \<circ> s' = stored \<circ> s \<or> (\<exists>x t. fn k (snapshot_tx s dur snap) = (Inr x, t) \<and> stored \<circ> s' = cur t)"
  using run_outcome[OF assms] by (auto simp: Let_def)

text \<open>
  C27. Retrying is bounded and only answers a lost compare-and-set: the result is that of the first
  attempt that does not conflict, even if it is another error (so an indeterminate failure is never
  replayed), and after eight conflicts the conflict is reported.
\<close>

theorem run_retries:
  assumes "\<And>k. k < n \<Longrightarrow> fst (run_attempt be dur snap (fn k) (sch k)) = Inl KvErrConflict \<and> ctx k = None"
  shows "(n < 8 \<and> fst (run_attempt be dur snap (fn n) (sch n)) \<noteq> Inl KvErrConflict \<longrightarrow>
      run be dur snap fn sch ctx = run_attempt be dur snap (fn n) (sch n))
    \<and> (n = 8 \<longrightarrow> fst (run be dur snap fn sch ctx) = Inl KvErrConflict)"
proof (intro conjI impI; (elim conjE)?)
  have skip: "\<exists>prev'. run be dur snap fn sch ctx = run_from be dur snap fn sch ctx n (8 - n) prev'"
    if "n \<le> 8"
    using run_from_skip[of n be dur snap fn 0 sch ctx "8 - n"] assms that by (simp add: run_def)
  show "run be dur snap fn sch ctx = run_attempt be dur snap (fn n) (sch n)"
    if "n < 8" "fst (run_attempt be dur snap (fn n) (sch n)) \<noteq> Inl KvErrConflict"
  proof -
    from that(1) obtain m where "8 - n = Suc m" by (metis Suc_diff_Suc)
    then show ?thesis using skip that by (auto simp: Let_def)
  qed
  show "fst (run be dur snap fn sch ctx) = Inl KvErrConflict" if "n = 8"
    using skip that by auto
qed

text \<open>
  A scan page is exact: it holds the records with the given prefix after the cursor, up to the
  returned continuation key, all of them when there is none, and never more than the limit.
\<close>

theorem Scan_page:
  assumes "Scan env s prefix cursor limit = Inr pg"
  shows "fmlookup (pg_Records pg) k =
      (if has_prefix k prefix \<and> cursor < k \<and> (pg_Next pg = [] \<or> k \<le> pg_Next pg)
       then fmlookup (s_records s) k else None)
    \<and> int (fcard (fmdom (pg_Records pg))) \<le> limit"
proof -
  define ks where "ks = filter (\<lambda>k. has_prefix k prefix \<and> k > cursor)
       (sorted_list_of_set (fset (fmdom (s_records s))))"
  have ks: "sorted ks" "distinct ks" by (simp_all add: ks_def sorted_wrt_filter)
  have mem: "j \<in> set ks \<longleftrightarrow> fmlookup (s_records s) j \<noteq> None \<and> has_prefix j prefix \<and> cursor < j" for j
    unfolding ks_def by (rule set_scan_keys)
  have lim: "0 < limit" using assms by (auto simp: Scan_def Let_def split: if_splits option.splits)
  have dom: "fset (fmdom (copyRecords m js)) \<subseteq> set js" for m :: "'a records" and js
    by (auto simp: fmlookup_dom_iff lookup_copyRecords split: if_splits)
  have size: "fcard (fmdom (copyRecords m js)) \<le> length js" for m :: "'a records" and js
    using card_mono[OF _ dom[of m js]] card_length[of js] by (simp add: fcard.rep_eq)
  show ?thesis
  proof (cases "int (length ks) > limit")
    case True
    define n where "n = nat limit"
    have n: "0 < n" "n \<le> length ks" "int n = limit" using True lim by (auto simp: n_def)
    have "last (take n ks) \<in> set ks" using n by (metis in_set_takeD last_in_set length_greater_0_conv
          length_take list.size(3) min.absorb2 not_less0)
    then have ne: "last (take n ks) \<noteq> []" using mem by auto
    have pg: "pg = \<lparr>pg_Records = copyRecords (s_records s) (take n ks), pg_Next = last (take n ks)\<rparr>"
      using assms True by (auto simp: Scan_def Let_def ks_def n_def split: if_splits option.splits)
    show ?thesis using sorted_take_iff[OF ks n(1,2), of k] mem[of k] ne size[of "s_records s" "take n ks"] n
      by (auto simp: pg lookup_copyRecords)
  next
    case False
    have pg: "pg = \<lparr>pg_Records = copyRecords (s_records s) ks, pg_Next = []\<rparr>"
      using assms False by (auto simp: Scan_def Let_def ks_def split: if_splits option.splits)
    show ?thesis using mem[of k] False size[of "s_records s" ks]
      by (auto simp: pg lookup_copyRecords)
  qed
qed


section \<open>Witnesses\<close>

text \<open>A node with one record (\<open>slugs/a\<close> holding 7), a transaction that increments it, and the next
  log position.\<close>

definition demo_codec :: "(nat, nat) codec" where
  "demo_codec = \<lparr>cd_raw = demo_ops, marshal_envelope = Some, unmarshal_envelope = (\<lambda>v. Some (1, Some v))\<rparr>"

definition demo_env :: raft_env where
  "demo_env = \<lparr>re_fence = None, re_selfFenced = False, re_selfFencedAfter = False, re_leader = True,
     re_wait = None, re_entry = Some (6, 1)\<rparr>"

definition demo_body :: "(nat, nat) txm" where
  "demo_body = tx_bind (Get demo_codec Some ''slugs/a'') (\<lambda>d.
     tx_bind (Set demo_codec ''slugs/a'' (d + 1)) (\<lambda>_. tx_return d))"

definition demo_sched :: "(raft_env \<times> nat cstate) schedule" where
  "demo_sched = \<lparr>at_read = (\<lambda>_. (demo_env, demo_state)), at_validate = (demo_env, demo_state),
     at_finish = (demo_env, demo_state)\<rparr>"

definition demo_be :: "(raft_env \<times> nat cstate, nat) backend" where
  "demo_be = node_backend demo_ops demo_wire Some"

lemma demo_replays: "replays demo_body"
  unfolding demo_body_def by (intro replay_intros)

lemma demo_valid: "valid_schedule (node_later demo_ops demo_wire) (node_ok demo_wire Some) demo_sched"
  using demo_state_ok by (simp add: valid_schedule_def demo_sched_def node_later_def node_ok_def
      demo_env_def raft_ok_def faithful_wire_def demo_wire_def evolves_def)

definition demo_final :: "nat tx" where
  "demo_final = (begin_tx demo_be demo_sched Replicated False)
     \<lparr>tx_reads := fmupd ''slugs/a'' (Some \<lparr>r_Version = 5, r_Value = 7\<rparr>) fmempty,
      tx_writes := fmupd ''slugs/a'' (value_write ''slugs/a'' 8) fmempty\<rparr>"

lemma demo_run: "demo_body (begin_tx demo_be demo_sched Replicated False) = (Inr 7, demo_final)"
  using demo_key unfolding demo_body_def demo_final_def begin_tx_def
  by (simp add: Get_def Set_def tx_lookup_def tx_record_def tx_put_def demo_sched_def demo_be_def
      node_backend_def Node_Read_def demo_env_def maxChanges_def read_state_def demo_state_records
      rec_version_def Decode_def Encode_def demo_codec_def demo_ops_def tx_writable_def
      classifyWrite_def content_collection_def collection_of_def cut_def fcard.rep_eq
      RequireReplication_def has_prefix_def)

lemma demo_command: "finish_command demo_final =
    \<lparr>t_Schema = 1, t_Checks = [\<lparr>c_Key = ''slugs/a'', c_Version = 5\<rparr>],
     t_Writes = [value_write ''slugs/a'' 8], t_Durability = DurabilityUnset, t_Revision = 0\<rparr>"
  by (simp add: finish_command_def demo_final_def read_checks_def rec_version_def
      List.map_filter_def begin_tx_def)

lemma demo_validate_final: "validateTransaction demo_ops (finish_command demo_final) = None"
  using demo_key by (simp add: demo_command validateTransaction_def value_write_def demo_ops_def
      Durability_Valid_def maxChanges_def maxValue_def opt_len_def opt_valid_def)

lemma demo_commit: "fst (be_commit demo_be (demo_env, demo_state) (finish_command demo_final)) = None"
proof -
  have b: "s_bytes demo_state = 17"
    using demo_state_ok by (simp add: state_ok_def records_size_def demo_state_records entry_size_def
        demo_ops_def)
  have "fst (Apply demo_ops demo_wire demo_state
      \<lparr>l_Index = 6, l_Term = 1, l_Data = finish_command demo_final\<rparr>) = None"
    using demo_validate_final unfolding Apply_def Let_def
    by (simp add: demo_wire_def maxCommand_def demo_command version_of_def demo_state_records
        account_def value_write_def opt_len_def demo_ops_def b entry_size_def maxRecords_def
        maxStateBytes_def fcard.rep_eq)
  then show ?thesis using demo_validate_final
    by (auto simp: demo_be_def node_backend_def Commit_def commitRaft_def demo_env_def Let_def
        demo_wire_def maxCommand_def demo_command split: prod.splits)
qed

lemma demo_attempt: "\<exists>s'. run_attempt demo_be Replicated False demo_body demo_sched = (Inr 7, s')"
proof -
  have "fmlookup (tx_reads demo_final) ''slugs/a'' \<noteq> None" by (simp add: demo_final_def)
  then have "tx_reads demo_final \<noteq> fmempty" by auto
  then have "finish (be_coherent demo_be) demo_final = FinalCommit (finish_command demo_final)"
    by (simp add: finish_def demo_command)
  then show ?thesis using demo_run demo_commit
    by (auto simp: run_attempt_def demo_sched_def split: prod.splits)
qed

lemma demo_run_once:
  "run demo_be Replicated False (\<lambda>_. demo_body) (\<lambda>_. demo_sched) (\<lambda>_. None) =
     run_attempt demo_be Replicated False demo_body demo_sched"
  using demo_attempt by (auto simp: run_def numeral_eq_Suc Let_def)


text \<open>The entry is applied, but the caller gives up waiting for the answer.\<close>

definition lost_sched :: "(raft_env \<times> nat cstate) schedule" where
  "lost_sched = demo_sched\<lparr>at_finish := (demo_env\<lparr>re_wait := Some (ErrOther ''context deadline exceeded'')\<rparr>, demo_state)\<rparr>"

lemma lost_valid: "valid_schedule (node_later demo_ops demo_wire) (node_ok demo_wire Some) lost_sched"
  using demo_valid by (simp add: valid_schedule_def lost_sched_def demo_sched_def node_later_def node_ok_def raft_ok_def)

theorem run_all_or_nothing_witness:
  "\<exists>k < (8::nat). let s = node_lookup (at_finish lost_sched);
       s' = node_lookup (snd (run demo_be Replicated False (\<lambda>_. demo_body) (\<lambda>_. lost_sched) (\<lambda>_. None))) in
     stored \<circ> s' = stored \<circ> s \<or> (\<exists>x t. demo_body (snapshot_tx s Replicated False) = (Inr x, t) \<and> stored \<circ> s' = cur t)"
  unfolding demo_be_def by (rule run_all_or_nothing[OF demo_replays lost_valid])

theorem run_retries_witness:
  "run demo_be Replicated False (\<lambda>_. demo_body) (\<lambda>_. demo_sched) (\<lambda>_. None) =
     run_attempt demo_be Replicated False demo_body demo_sched"
  using run_retries[of 0 demo_be Replicated False "\<lambda>_. demo_body" "\<lambda>_. demo_sched" "\<lambda>_. None"] demo_attempt
  by auto

theorem Scan_page_witness:
  "\<exists>pg. Scan demo_env demo_state ''slugs/'' [] 10 = Inr pg
    \<and> fmlookup (pg_Records pg) ''slugs/a'' = Some \<lparr>r_Version = 5, r_Value = 7\<rparr>"
proof -
  have "\<exists>pg. Scan demo_env demo_state ''slugs/'' [] 10 = Inr pg \<and> pg_Next pg = []"
    by (simp add: Scan_def scanPrefix_def char_class_defs demo_env_def demo_state_records Let_def
        list_all_iff)
  then obtain pg where pg: "Scan demo_env demo_state ''slugs/'' [] 10 = Inr pg" "pg_Next pg = []"
    by blast
  show ?thesis using Scan_page[OF pg(1), of "''slugs/a''"] pg
    by (auto simp: demo_state_records has_prefix_def)
qed

end
