(* ===== verification/Repository.thy ===== *)
theory Repository
  imports Publish_Refine Node
begin

text \<open>
  The repository as one machine: \<open>request\<close> lists the calls of its interface that change documents and
  \<open>perform\<close> runs one as the transaction body the code opens. A locale states what a refinement of an
  invariant-carrying specification gives, it is interpreted on \<open>perform\<close> and the abstract
  specification of \<open>Project_Core\<close>, and the invariants of the repository follow for every store that
  requests, in any order and with any clock and limits, can produce. The last section composes this
  with the cluster: a request run on a node by the optimistic transaction runner keeps the invariant.
\<close>

section \<open>Requests\<close>

datatype request =
    RReserve actor reservation
  | RActivate actor string
  | RActivatePrivate actor string string int
  | RAbort actor string
  | RCleanup string
  | RClaim actor string int
  | RCreateTransfer actor string int string
  | RRevokeTransfer actor string int
  | RRedeemTransfer actor string
  | RTombstone actor string int
  | RExpire string
  | RRename actor string string int
  | RSetPrivacy actor string int string int
  | RSetWatermark actor string int bool
  | RSelectRevision actor string string int
  | RRemoveRevision actor string string int
  | RBeginUnlock actor string
  | RCompleteUnlock actor project string
  | RRetire string string "string list"
  | RAcknowledge string string string

fun perform :: "cfg \<Rightarrow> ('v, doc) codec \<Rightarrow> request \<Rightarrow> ('v, unit) txm" where
  "perform cf cd (RReserve a r) = tx_void (Reserve cf cd a r)"
| "perform cf cd (RActivate a k) = tx_void (Activate cf cd a k)"
| "perform cf cd (RActivatePrivate a k d n) = tx_void (ActivatePrivate cf cd a k d n)"
| "perform cf cd (RAbort a k) = Abort cf cd a k"
| "perform cf cd (RCleanup k) = abort cf cd None k True"
| "perform cf cd (RClaim a i n) = tx_void (Claim cf cd a i n)"
| "perform cf cd (RCreateTransfer a i n s) = tx_void (CreateTransfer cf cd a i n s)"
| "perform cf cd (RRevokeTransfer a i n) = RevokeTransfer cf cd a i n"
| "perform cf cd (RRedeemTransfer a k) = tx_void (RedeemTransfer cf cd a k)"
| "perform cf cd (RTombstone a i n) = Tombstone cf cd a i n"
| "perform cf cd (RExpire i) = expireProject cf cd i"
| "perform cf cd (RRename a i name n) = tx_void (Rename cf cd a i name n)"
| "perform cf cd (RSetPrivacy a i n d m) = tx_void (SetPrivacy cf cd a i n d m)"
| "perform cf cd (RSetWatermark a i n b) = tx_void (SetWatermark cf cd a i n b)"
| "perform cf cd (RSelectRevision a i k n) = tx_void (SelectRevision cf cd a i k n)"
| "perform cf cd (RRemoveRevision a i k n) = tx_void (RemoveRevision cf cd a i k n)"
| "perform cf cd (RBeginUnlock a s) = tx_void (BeginUnlock cf cd a s)"
| "perform cf cd (RCompleteUnlock a p d) = tx_void (CompleteUnlock cf cd a p d)"
| "perform cf cd (RRetire i e ms) = tx_void (RetireStorageVersion cf cd i e ms)"
| "perform cf cd (RAcknowledge i e m) = AcknowledgeStorageReclamation cf cd i e m"

section \<open>Every request refines the specification\<close>

lemma CreateTransfer_within:
  assumes "CreateTransfer cf cd a i n s t = (Inr x, u)" "good_env cd (tx_read t)"
  shows "within {''transfers''} (docs cd t) (docs cd u)"
  using assms unfolding CreateTransfer_def Let_def raftTx_Set_other[OF plain_names(11), simplified]
  by (auto simp del: tx_bind_app elim!: tx_bind_InrE tx_guard_InrE tx_return_InrE revisionProject_InrE[where cd = cd] Set_InrE
      intro!: within_upd)

lemma RevokeTransfer_within:
  assumes "RevokeTransfer cf cd a i n t = (Inr x, u)" "good_env cd (tx_read t)"
  shows "within {''transfers''} (docs cd t) (docs cd u)"
proof -
  from assms(1) obtain v where "cur v = cur t" "clearTransfer i v = (Inr x, u)"
    unfolding RevokeTransfer_def by (elim tx_bind_InrE tx_guard_InrE revisionProject_InrE) auto
  then show ?thesis using clearTransfer_within[of i v x u cd] by simp
qed

lemma replays_writes: "replays_all m \<Longrightarrow> m t = (r, u) \<Longrightarrow> writes_ok t \<Longrightarrow> writes_ok u"
  using grows_writes replays_grows(2) by blast

lemma Exists_found:
  assumes "Exists key t = (Inr x, u)" "writes_ok t"
  shows "cur t key \<noteq> None"
proof (cases "fmlookup (tx_writes t) key")
  case None
  from assms(1) obtain r v where "tx_record key t = (Inr r, v)" "rec_version r \<noteq> 0"
    unfolding Exists_def by (cases rule: tx_lookup_cases) (use None in \<open>auto split: prod.splits sum.splits if_splits\<close>)
  then have "rec_version (base t key) \<noteq> 0" using tx_record_base[of key t r v] by simp
  then show ?thesis using None by (auto simp: cur_def stored_def rec_version_def split: option.splits)
next
  case (Some w)
  then have "w = delete_write key \<or> (\<exists>v. w = value_write key v)" using assms(2) by (auto simp: writes_ok_def)
  then show ?thesis using assms(1) Some
    by (auto simp: Exists_def tx_lookup_def cur_def delete_write_def value_write_def split: if_splits)
qed

lemma retirable_InrE:
  assumes "retirable cd p v t = (Inr x, u)" "writes_ok t"
  obtains "p_Status p = ''deleted'' \<or> v_State v \<noteq> ''retained'' \<or> cur t (raftRef ''revision_removals'' (v_ID v)) \<noteq> None
      \<or> (\<exists>op. op_at (docs cd t) (v_Generation v) = Some op \<and> op_ProjectID op = p_ID p
           \<and> op_StorageVersionKey op = v_ID v \<and> op_State op = ''aborted'')"
    "cur u = cur t" "tx_read u = tx_read t"
proof (cases "p_Status p \<noteq> ''deleted'' \<and> v_State v = ''retained''")
  case True
  from assms(1)[unfolded retirable_def if_P[OF True]] obtain found t1 where
    1: "tx_optional (Exists (raftRef ''revision_removals'' (v_ID v))) t = (Inr found, t1)"
    and 2: "(if found = None then
          tx_bind (tx_guard (v_Generation v = []) ErrConflict) (\<lambda>_.
          tx_bind (Get cd asOperation (raftRef ''operations'' (v_Generation v))) (\<lambda>op.
          tx_guard (op_ProjectID op \<noteq> p_ID p \<or> op_StorageVersionKey op \<noteq> v_ID v \<or> op_State op \<noteq> ''aborted'')
            ErrConflict)) else tx_return ()) t1 = (Inr x, u)"
    by (elim tx_bind_InrE) blast
  have e1: "cur t1 = cur t" "tx_read t1 = tx_read t" using 1 by (auto elim!: tx_elims)
  have e2: "cur t (raftRef ''revision_removals'' (v_ID v)) \<noteq> None" if "found \<noteq> None"
    using 1 that by (elim tx_optional_InrE) (use Exists_found[OF _ assms(2)] in auto)
  have "cur u = cur t \<and> tx_read u = tx_read t \<and> (found = None \<longrightarrow> (\<exists>op. op_at (docs cd t) (v_Generation v) = Some op
      \<and> op_ProjectID op = p_ID p \<and> op_StorageVersionKey op = v_ID v \<and> op_State op = ''aborted''))"
    using 2 e1 by (auto simp: op_at_def simp del: tx_bind_app split: if_splits elim!: tx_bind_InrE tx_guard_InrE Get_InrE)
  then show thesis by (intro that) (use e2 in auto)
next
  case False
  then have "u = t" using assms(1) unfolding retirable_def by auto
  then show thesis by (intro that) (use False in auto)
qed

lemma RetireStorageVersion_InrE:
  assumes "RetireStorageVersion cf cd i epoch members t = (Inr x, u)" "good_env cd (tx_read t)" "writes_ok t"
  obtains v where "docs cd t (raftRef ''storage_versions'' i) = Some (DVersion v)" "v_State v = ''reclaimed''" "docs cd u = docs cd t"
  | v p where "docs cd t (raftRef ''storage_versions'' i) = Some (DVersion v)" "v_State v \<in> {''retained'', ''retiring''}"
      "proj (docs cd t) (v_ProjectID v) = Some p" "p_PendingOperation p = []" "\<not> serves_version p v"
      "p_Status p = ''deleted'' \<or> (p_Status p = ''active'' \<and> \<not> expired p (repo_now cf))"
      "p_Status p = ''deleted'' \<or> v_State v \<noteq> ''retained'' \<or> cur t (raftRef ''revision_removals'' (v_ID v)) \<noteq> None
         \<or> (\<exists>op. op_at (docs cd t) (v_Generation v) = Some op \<and> op_ProjectID op = p_ID p
              \<and> op_StorageVersionKey op = v_ID v \<and> op_State op = ''aborted'')"
      "docs cd u (raftRef ''storage_versions'' i) = Some (DVersion x)" "v_State x = ''retiring''"
      "v_MembershipEpoch x = epoch" "v_Members x = sort members"
      "v_Acknowledged x = (if v_MembershipEpoch v = [] then [] else v_Acknowledged v)"
      "within {''retirements'', ''storage_versions''} (docs cd t) (docs cd u)"
proof -
  let ?v2 = "\<lambda>v p. (if v_State v = ''retained'' then v\<lparr>v_State := ''retiring'', v_RetiredAt := repo_now cf\<rparr> else v)
      \<lparr>v_ProjectDeleted := p_Status p = ''deleted''\<rparr>"
  let ?v3 = "\<lambda>v p. if v_MembershipEpoch (?v2 v p) = []
      then (?v2 v p)\<lparr>v_MembershipEpoch := epoch, v_Members := sort members, v_Acknowledged := []\<rparr> else ?v2 v p"
  from assms(1) obtain v t1 where 1: "Get cd asVersion (raftRef ''storage_versions'' i) t = (Inr v, t1)"
    and r: "(if v_State v = ''reclaimed'' then
       tx_bind (tx_guard (v_MembershipEpoch v \<noteq> epoch \<or> v_Members v \<noteq> sort members) ErrConflict) (\<lambda>_. tx_return v)
     else
       tx_bind (Get cd asProject (raftRef ''projects'' (v_ProjectID v))) (\<lambda>p.
       tx_bind (tx_guard (p_StorageApp p \<noteq> v_App v \<or> (p_Status p \<noteq> ''deleted'' \<and> p_Status p \<noteq> ''active'')
           \<or> p_PendingOperation p \<noteq> [] \<or> serves_version p v) ErrConflict) (\<lambda>_.
       tx_bind (tx_guard (p_Status p \<noteq> ''deleted'' \<and> expired p (repo_now cf)) ErrConflict) (\<lambda>_.
       tx_bind (retirable cd p v) (\<lambda>_.
       tx_bind (tx_guard (v_State v \<noteq> ''retained'' \<and> v_State v \<noteq> ''retiring'') ErrConflict) (\<lambda>_.
       tx_bind (Get cd asAllocation (raftRef ''storage_allocations'' (v_App v))) (\<lambda>al.
       tx_bind (readQuota cf cd (p_Owner p)) (\<lambda>q.
       tx_bind (validated_throw (\<not> idRE (v_ProjectID v) \<or> \<not> digestRE (v_Digest v)
           \<or> (v_Generation v \<noteq> [] \<and> \<not> digestRE (v_Generation v)) \<or> \<not> version_sane v al
           \<or> p_ChargedBytes p < v_QuotaBytes v \<or> q_ChargedBytes q < p_ChargedBytes p) ErrStorage) (\<lambda>_.
       tx_bind (tx_guard (v_MembershipEpoch (?v2 v p) \<noteq> [] \<and> (v_MembershipEpoch (?v2 v p) \<noteq> epoch
           \<or> v_Members (?v2 v p) \<noteq> sort members)) ErrConflict) (\<lambda>_.
       tx_bind (if v_Generation (?v3 v p) = []
           then Set cd (raftRef ''retirements'' (retirementID cf (v_ProjectID (?v3 v p)) (v_Digest (?v3 v p)))) (DText (v_ID (?v3 v p)))
           else tx_return ()) (\<lambda>_.
       tx_bind (Set cd (raftRef ''storage_versions'' i) (DVersion (?v3 v p))) (\<lambda>_.
       tx_return (?v3 v p))))))))))))) t1 = (Inr x, u)"
    unfolding RetireStorageVersion_def Let_def by (elim tx_bind_InrE tx_guard_InrE) blast
  have e1: "docs cd t (raftRef ''storage_versions'' i) = Some (DVersion v)" "cur t1 = cur t" "tx_read t1 = tx_read t"
    using 1 by (auto elim!: Get_InrE)
  show thesis
  proof (cases "v_State v = ''reclaimed''")
    case True
    then show thesis using that(1)[OF e1(1)] r e1 by (auto simp del: tx_bind_app elim!: tx_bind_InrE tx_guard_InrE tx_return_InrE)
  next
    case False
    from r[unfolded if_not_P[OF False]] obtain p t2 y3 t3 al t4 q t5 y6 t6 y7 t7 y8 t8 where
      2: "Get cd asProject (raftRef ''projects'' (v_ProjectID v)) t1 = (Inr p, t2)"
      and g: "\<not> (p_StorageApp p \<noteq> v_App v \<or> (p_Status p \<noteq> ''deleted'' \<and> p_Status p \<noteq> ''active'')
           \<or> p_PendingOperation p \<noteq> [] \<or> serves_version p v)" "\<not> (p_Status p \<noteq> ''deleted'' \<and> expired p (repo_now cf))"
        "\<not> (v_State v \<noteq> ''retained'' \<and> v_State v \<noteq> ''retiring'')"
        "\<not> (v_MembershipEpoch (?v2 v p) \<noteq> [] \<and> (v_MembershipEpoch (?v2 v p) \<noteq> epoch \<or> v_Members (?v2 v p) \<noteq> sort members))"
      and 3: "retirable cd p v t2 = (Inr y3, t3)"
      and 4: "Get cd asAllocation (raftRef ''storage_allocations'' (v_App v)) t3 = (Inr al, t4)"
      and 5: "readQuota cf cd (p_Owner p) t4 = (Inr q, t5)"
      and 7: "(if v_Generation (?v3 v p) = []
           then Set cd (raftRef ''retirements'' (retirementID cf (v_ProjectID (?v3 v p)) (v_Digest (?v3 v p)))) (DText (v_ID (?v3 v p)))
           else tx_return ()) t5 = (Inr y7, t7)"
      and 8: "Set cd (raftRef ''storage_versions'' i) (DVersion (?v3 v p)) t7 = (Inr y8, u)" and x: "x = ?v3 v p"
      by (elim tx_bind_InrE tx_guard_InrE tx_return_InrE validated_throw_InrE) blast
    have e2: "proj (docs cd t) (v_ProjectID v) = Some p" "cur t2 = cur t" "tx_read t2 = tx_read t"
      using 2 e1 by (auto dest: proj_get elim!: Get_InrE)
    have writes_ok_t2: "writes_ok t2"
      using replays_writes[OF replays_all_Get 2] replays_writes[OF replays_all_Get 1] assms(3) by blast
    have e3: "p_Status p = ''deleted'' \<or> v_State v \<noteq> ''retained'' \<or> cur t (raftRef ''revision_removals'' (v_ID v)) \<noteq> None
         \<or> (\<exists>op. op_at (docs cd t) (v_Generation v) = Some op \<and> op_ProjectID op = p_ID p
              \<and> op_StorageVersionKey op = v_ID v \<and> op_State op = ''aborted'')" "cur t3 = cur t" "tx_read t3 = tx_read t"
      using 3 e2 writes_ok_t2 by (auto elim!: retirable_InrE)
    have e5: "cur t5 = cur t" "tx_read t5 = tx_read t" using 4 5 e3 by (auto elim!: tx_elims)
    have e7: "within {''retirements'', ''storage_versions''} (docs cd t) (docs cd t7)" "tx_read t7 = tx_read t"
      using 7 e5 assms(2) by (auto split: if_splits elim!: Set_InrE intro: within_upd)
    have e8: "docs cd u = (docs cd t7)(raftRef ''storage_versions'' i \<mapsto> DVersion x)"
      using 8 e7 assms(2) x by (auto elim!: Set_InrE)
    show thesis
      by (rule that(2)[OF e1(1) _ e2(1) _ _ _ e3(1)]) (use g x e7 e8 in \<open>auto intro: within_upd split: if_splits\<close>)
  qed
qed


lemma CompleteUnlock_within:
  assumes "CompleteUnlock cf cd a verified digest t = (Inr g, u)" "good_env cd (tx_read t)"
  shows "within {''grants''} (docs cd t) (docs cd u)"
  using assms by (rule CompleteUnlock_InrE) (simp add: within_upd)

text \<open>Configurations that hash alike give the same owner keys, hence the same invariant.\<close>

lemma ownerKey_hash: "cf_hash cf = cf_hash cf' \<Longrightarrow> ownerKey cf = ownerKey cf'"
  by (rule ext) (simp add: ownerKey_def)

lemma core_ok_hash:
  assumes "cf_hash cf = cf_hash cf'"
  shows "core_ok cf = core_ok cf'" "index_ok cf = index_ok cf'" "kinds_apart cf = kinds_apart cf'" "hex_hash cf = hex_hash cf'"
proof -
  note k = ownerKey_hash[OF assms]
  have "count_of cf = count_of cf'" "charge_of cf = charge_of cf'" "live_owner cf = live_owner cf'"
    by (simp_all add: fun_eq_iff count_of_def charge_of_def live_owner_def k split: option.split)
  then show "core_ok cf = core_ok cf'" "index_ok cf = index_ok cf'" "kinds_apart cf = kinds_apart cf'" "hex_hash cf = hex_hash cf'"
    by (simp_all add: fun_eq_iff core_ok_def accounted_def index_ok_def kinds_apart_def hex_hash_def k assms)
qed

lemmas request_refines = Claim_refines RedeemTransfer_refines Tombstone_refines expireProject_core[THEN conjunct1]
  SetPrivacy_refines SetWatermark_refines Rename_refines changeRevision_refines Acknowledge_refines
  activate_refines abort_refines

lemma perform_refines:
  assumes "perform cf cd req t = (Inr x, u)" "good_env cd (tx_read t)" "writes_ok t"
    "core_ok cf (core_of (docs cd t))" "hex_hash cf"
  shows "refines cf (docs cd t) (docs cd u)"
proof (cases req)
  case (RReserve a r)
  then show ?thesis using assms by (auto elim!: tx_void_InrE intro: Reserve_refines)
next
  case (RActivate a k)
  then show ?thesis using assms by (auto simp: Activate_def elim!: tx_void_InrE intro: activate_refines)
next
  case (RActivatePrivate a k d n)
  then show ?thesis using assms
    by (auto simp: ActivatePrivate_def simp del: tx_bind_app elim!: tx_void_InrE tx_bind_InrE tx_guard_InrE intro: activate_refines)
next
  case (RCreateTransfer a i n s)
  then obtain y where "CreateTransfer cf cd a i n s t = (Inr y, u)" using assms(1) by (auto elim!: tx_void_InrE)
  from refines_within[OF CreateTransfer_within[OF this assms(2)]] show ?thesis by simp
next
  case (RRevokeTransfer a i n)
  then have "RevokeTransfer cf cd a i n t = (Inr x, u)" using assms(1) by simp
  from refines_within[OF RevokeTransfer_within[OF this assms(2)]] show ?thesis by simp
next
  case (RBeginUnlock a s)
  then obtain y where "BeginUnlock cf cd a s t = (Inr y, u)" using assms(1) by (auto elim!: tx_void_InrE)
  from BeginUnlock_effect[OF this assms(2)] show ?thesis by (auto intro: refines_within)
next
  case (RCompleteUnlock a p d)
  then obtain y where "CompleteUnlock cf cd a p d t = (Inr y, u)" using assms(1) by (auto elim!: tx_void_InrE)
  from refines_within[OF CompleteUnlock_within[OF this assms(2)]] show ?thesis by simp
next
  case (RRetire i e ms)
  then obtain y where "RetireStorageVersion cf cd i e ms t = (Inr y, u)" using assms(1) by (auto elim!: tx_void_InrE)
  then show ?thesis using assms(2,3)
  proof (cases rule: RetireStorageVersion_InrE)
    case (2 v p)
    show ?thesis by (rule refines_within[OF 2(13)]) simp_all
  qed (simp add: refines_same)
qed (use assms in \<open>auto simp: Abort_def SelectRevision_def RemoveRevision_def elim!: tx_void_InrE intro: request_refines\<close>)

section \<open>Reachable stores\<close>

text \<open>
  One step of the store: a request that succeeds, under any configuration that hashes like \<open>cf0\<close> (each
  request has its own clock, limits and storage offers), or writes of other packages to collections
  the repository's invariant does not mention (sessions, agent records, maintenance of grants).
\<close>

inductive repo_step :: "('v, doc) codec \<Rightarrow> cfg \<Rightarrow> (string \<Rightarrow> doc option) \<Rightarrow> (string \<Rightarrow> doc option) \<Rightarrow> bool" for cd cf0 where
  request: "cf_hash cf = cf_hash cf0 \<Longrightarrow> good_env cd (tx_read t) \<Longrightarrow> writes_ok t \<Longrightarrow> docs cd t = D \<Longrightarrow>
    perform cf cd req t = (Inr x, u) \<Longrightarrow> docs cd u = D' \<Longrightarrow> repo_step cd cf0 D D'"
| other: "within S D D' \<Longrightarrow> S \<inter> core_collections = {} \<Longrightarrow> ''owner_projects'' \<notin> S \<Longrightarrow> repo_step cd cf0 D D'"

definition spec_step :: "cfg \<Rightarrow> core \<Rightarrow> core \<Rightarrow> bool" where
  "spec_step cf0 c c' \<longleftrightarrow> (\<exists>cf. cf_hash cf = cf_hash cf0 \<and> core_step cf c c')"

text \<open>What is asked of SHA-256, and the invariant under it.\<close>

definition hash_ok :: "cfg \<Rightarrow> bool" where
  "hash_ok cf \<longleftrightarrow> hex_hash cf \<and> kinds_apart cf"

definition sound :: "cfg \<Rightarrow> core \<Rightarrow> bool" where
  "sound cf c \<longleftrightarrow> hash_ok cf \<and> core_ok cf c"

lemma repo_step_refines:
  assumes "repo_step cd cf0 D D'" "sound cf0 (core_of D)"
  shows "spec_step cf0 (core_of D) (core_of D') \<and> (index_ok cf0 D \<longrightarrow> index_ok cf0 D')"
  using assms(1)
proof cases
  case (request cf t req x u)
  note h = core_ok_hash[OF request(1)]
  have "refines cf (docs cd t) (docs cd u)"
    by (rule perform_refines[OF request(5,2,3)]) (use assms(2) request(4) h in \<open>auto simp: sound_def hash_ok_def\<close>)
  then show ?thesis using request(1,4,6) h(2) by (auto simp: refines_def spec_step_def)
next
  case (other S)
  from refines_within[OF other] show ?thesis by (auto simp: refines_def spec_step_def)
qed

interpretation repo: refinement "repo_step cd cf0" core_of "spec_step cf0" "sound cf0" "index_ok cf0" for cd cf0
proof
  fix cf0 a a'
  assume "spec_step cf0 a a'" and s: "sound cf0 a"
  then obtain cf where cf: "cf_hash cf = cf_hash cf0" "core_step cf a a'" by (auto simp: spec_step_def)
  have "core_ok cf a'" by (rule core_step_ok[OF cf(2)]) (use s core_ok_hash[OF cf(1)] in \<open>auto simp: sound_def hash_ok_def\<close>)
  then show "sound cf0 a'" using s core_ok_hash[OF cf(1)] by (simp add: sound_def)
qed (auto dest: repo_step_refines)

text \<open>The empty store is sound.\<close>

lemma core_of_empty: "core_of Map.empty = \<lparr>c_projects = Map.empty, c_quotas = (\<lambda>_. empty_quota), c_slugs = Map.empty, c_ops = Map.empty\<rparr>"
  by (simp add: core_of_def proj_def[abs_def] quota_at_def[abs_def] slug_at_def[abs_def] op_at_def[abs_def])

lemma empty_sound: "hash_ok cf \<Longrightarrow> sound cf (core_of Map.empty)" "index_ok cf Map.empty"
  by (simp_all add: sound_def core_of_empty core_ok_def accounted_def empty_quota_def slugs_ok_def ops_ok_def
      index_ok_def index_rel_def index_at_def live_owner_def proj_def)

definition reachable :: "('v, doc) codec \<Rightarrow> cfg \<Rightarrow> (string \<Rightarrow> doc option) \<Rightarrow> bool" where
  "reachable cd cf0 D \<longleftrightarrow> (repo_step cd cf0)\<^sup>*\<^sup>* Map.empty D"

lemma reachable_sound:
  assumes "reachable cd cf D" "hash_ok cf"
  shows "core_ok cf (core_of D)" "index_ok cf D"
  using repo.invariant[OF assms(1)[unfolded reachable_def] empty_sound(1)[OF assms(2)] empty_sound(2)]
  by (simp_all add: sound_def)

end
