(* ===== verification/Scenario.thy ===== *)
theory Scenario
  imports Repository
begin

text \<open>
  A concrete publication on the empty store, run through the model's own definitions: an account
  reserves a new project and activates it. The witnesses of the repository's properties use it.
\<close>

section \<open>Running project writes\<close>

text \<open>\<open>steps m D r D' k\<close>: on documents \<open>D\<close> the body \<open>m\<close> gives \<open>r\<close>, leaves \<open>D'\<close> and reads at most \<open>k\<close> more keys.\<close>

definition steps :: "(doc, 'a) txm \<Rightarrow> (string \<Rightarrow> doc option) \<Rightarrow> err + 'a \<Rightarrow> (string \<Rightarrow> doc option) \<Rightarrow> nat \<Rightarrow> bool" where
  "steps m D r D' k \<longleftrightarrow> (\<forall>n. n + k \<le> 128 \<longrightarrow> execs m D n r D' (n + k))"

lemma stepsD: "steps m D r D' k \<Longrightarrow> n + k \<le> 128 \<Longrightarrow> execs m D n r D' (n + k)"
  by (simp add: steps_def)

lemma execs_weaken: "execs m D n r D' k \<Longrightarrow> k \<le> l \<Longrightarrow> execs m D n r D' l"
  unfolding execs_def using runs_weaken by blast

lemma steps_start: "steps m D (Inr x) D' k \<Longrightarrow> k \<le> 128 \<Longrightarrow> \<exists>u. m (start_tx D) = (Inr x, u) \<and> docs doc_codec u = D'"
  using execs_start[of m D x D' k] stepsD[of m D "Inr x" D' k 0] by simp

lemma steps_le:
  assumes "steps m D r D' k" "k \<le> l"
  shows "steps m D r D' l"
  unfolding steps_def
proof (intro allI impI)
  fix n assume "n + l \<le> 128"
  then show "execs m D n r D' (n + l)"
    using assms(2) by (intro execs_weaken[OF stepsD[OF assms(1), of n]]) simp_all
qed

lemma steps_done: "D = D' \<Longrightarrow> x = y \<Longrightarrow> steps (tx_return x) D (Inr y) D' 0"
  by (simp add: steps_def execs_return)

lemma steps_call:
  assumes "steps m D (Inr x) D1 a" "steps (f x) D1 r D2 b"
  shows "steps (tx_bind m f) D r D2 (a + b)"
  unfolding steps_def
proof (intro allI impI)
  fix n assume n: "n + (a + b) \<le> 128"
  have "execs (f x) D1 (n + a) r D2 (n + a + b)" using n by (intro stepsD[OF assms(2)]) simp
  then show "execs (tx_bind m f) D n r D2 (n + (a + b))"
    using execs_bind[OF stepsD[OF assms(1), of n]] n by (simp add: add.assoc)
qed

lemma steps_prim:
  "D k = Some d \<Longrightarrow> into d = Some x \<Longrightarrow> steps (Get doc_codec into k) D (Inr x) D (Suc 0)"
  "D k = None \<Longrightarrow> steps (tx_optional (Get doc_codec into k)) D (Inr None) D (Suc 0)"
  "D k = None \<Longrightarrow> steps (tx_optional (Exists k)) D (Inr None) D (Suc 0)"
  "steps (Set doc_codec k d) D (Inr ()) (D(k \<mapsto> d)) (Suc 0)" "steps (Delete k) D (Inr ()) (D(k := None)) (Suc 0)"
  "steps RequireReplication D (Inr ()) D 0"
  by (auto simp: steps_def intro!: execs_Get execs_Set execs_Delete execs_optional_missing execs_Get_missing
      execs_Exists_missing execs_RequireReplication)

lemma steps_optional: "steps m D (Inr x) D' k \<Longrightarrow> steps (tx_optional m) D (Inr (Some x)) D' k"
  and steps_missing: "steps m D (Inr x) D' k \<Longrightarrow> steps (tx_missing e m) D (Inr x) D' k"
  by (auto simp: steps_def intro: execs_optional execs_missing)

text \<open>One rule per form of statement; \<open>steps_rules\<close> runs a body statement by statement.\<close>

lemma steps_pass: "\<not> b \<Longrightarrow> steps (f ()) D r D' k \<Longrightarrow> steps (tx_bind (tx_guard b e) f) D r D' k"
  using steps_call[of "tx_return ()" D "()" D 0] steps_done[of D D "()" "()"]
  by (simp add: steps_def execs_def)

lemma steps_return: "steps (f x) D r D' k \<Longrightarrow> steps (tx_bind (tx_return x) f) D r D' k"
  by (simp add: steps_def execs_def)

lemma steps_found:
  "D k = Some d \<Longrightarrow> into d = Some x \<Longrightarrow> steps (f x) D r D' n \<Longrightarrow> steps (tx_bind (Get doc_codec into k) f) D r D' (Suc 0 + n)"
  "D k = Some d \<Longrightarrow> into d = Some x \<Longrightarrow> steps (f x) D r D' n \<Longrightarrow>
     steps (tx_bind (tx_missing e (Get doc_codec into k)) f) D r D' (Suc 0 + n)"
  "D k = Some d \<Longrightarrow> into d = Some x \<Longrightarrow> steps (g (Some x)) D r D' n \<Longrightarrow>
     steps (tx_bind (tx_optional (Get doc_codec into k)) g) D r D' (Suc 0 + n)"
  by (erule (1) steps_call[OF steps_prim(1)] steps_call[OF steps_missing[OF steps_prim(1)]]
      steps_call[OF steps_optional[OF steps_prim(1)]], assumption)+

lemma steps_absent:
  "D k = None \<Longrightarrow> steps (g None) D r D' n \<Longrightarrow> steps (tx_bind (tx_optional (Get doc_codec into k)) g) D r D' (Suc 0 + n)"
  "D k = None \<Longrightarrow> steps (h None) D r D' n \<Longrightarrow> steps (tx_bind (tx_optional (Exists k)) h) D r D' (Suc 0 + n)"
  by (erule steps_call[OF steps_prim(2)] steps_call[OF steps_prim(3)], assumption)+

lemma steps_write:
  "steps (f ()) (D(k \<mapsto> d)) r D' n \<Longrightarrow> steps (tx_bind (Set doc_codec k d) f) D r D' (Suc 0 + n)"
  "steps (f ()) (D(k := None)) r D' n \<Longrightarrow> steps (tx_bind (Delete k) f) D r D' (Suc 0 + n)"
  by (erule steps_call[OF steps_prim(4)] steps_call[OF steps_prim(5)])+

lemma steps_when:
  "\<not> b \<Longrightarrow> steps m' D r D' k \<Longrightarrow> steps (if b then m else m') D r D' k"
  "b \<Longrightarrow> steps m D r D' k \<Longrightarrow> steps (if b then m else m') D r D' k"
  "\<not> b \<Longrightarrow> steps (tx_bind n' f) D r D' k \<Longrightarrow> steps (tx_bind (if b then n else n') f) D r D' k"
  "b \<Longrightarrow> steps (tx_bind n f) D r D' k \<Longrightarrow> steps (tx_bind (if b then n else n') f) D r D' k"
  by simp_all

lemma steps_replicate: "steps (f ()) D r D' k \<Longrightarrow> steps (tx_bind (if b then RequireReplication else tx_return ()) f) D r D' (0 + k)"
  by (rule steps_call[where x = "()" and ?D1.0 = D]) (auto intro: steps_prim(6) steps_done)

lemma SearchStrings_Nil [simp]: "SearchStrings [] k = 0"
  unfolding SearchStrings_def by (subst search_loop.simps) simp

lemma steps_no_storage:
  "p_StorageApp p = [] \<Longrightarrow> steps (updateStorageLive cf doc_codec old p) D (Inr ()) D 0"
  unfolding updateStorageLive_def updateStorageQueue_def
  by (rule steps_when(4), simp, rule steps_return, rule steps_when(2), simp, rule steps_done) simp_all

lemma steps_index_new:
  assumes "D (raftRef ''owner_projects'' (ownerKey cf o')) = None"
  shows "steps (updateIndex cf doc_codec o' i True) D (Inr ()) (D(raftRef ''owner_projects'' (ownerKey cf o') \<mapsto> DTexts [i])) (Suc 0 + Suc 0)"
  unfolding updateIndex_def Let_def
  by (rule steps_absent(1), rule assms, rule steps_when(2), simp, rule steps_pass, simp,
      simp only: option.case append_Nil sort_key_simps insort_key.simps, rule steps_prim(4))

lemma steps_project_new:
  assumes "D (raftRef ''projects'' (p_ID p)) = None" "D (raftRef ''owner_projects'' (ownerKey cf (p_Owner p))) = None"
    "p_Status p \<noteq> ''deleted''" "p_StorageApp p = []" "i = p_ID p"
  shows "steps (raftTx_Set cf doc_codec (raftRef ''projects'' i) (DProject p)) D (Inr ())
    (D(raftRef ''owner_projects'' (ownerKey cf (p_Owner p)) \<mapsto> DTexts [p_ID p], raftRef ''projects'' i \<mapsto> DProject p)) 4"
  unfolding raftTx_Set_project set_project_def Let_def
  apply (rule steps_le)
   apply (rule steps_when(2), simp add: assms)
   apply (rule steps_call)
    apply (rule steps_absent(1), rule assms(1), simp only: option.case)
    apply (rule steps_replicate, rule steps_replicate)
    apply (rule steps_when(3), simp, rule steps_return)
    apply (rule steps_when(4), simp add: assms(3))
    apply (rule steps_call, rule steps_index_new, rule assms(2))
    apply (rule steps_no_storage, rule assms(4))
   apply (rule steps_prim(4))
  apply simp
  done

lemma steps_project_same:
  assumes "D (raftRef ''projects'' (p_ID p)) = Some (DProject old)" "p_Owner old = p_Owner p"
    "p_Status old \<noteq> ''deleted''" "p_Status p \<noteq> ''deleted''" "p_StorageApp p = []" "i = p_ID p"
  shows "steps (raftTx_Set cf doc_codec (raftRef ''projects'' i) (DProject p)) D (Inr ())
    (D(raftRef ''projects'' i \<mapsto> DProject p)) 2"
  unfolding raftTx_Set_project set_project_def Let_def
  apply (rule steps_le)
   apply (rule steps_when(2), simp add: assms)
   apply (rule steps_call)
    apply (rule steps_found(3), rule assms(1), simp, simp only: option.case)
    apply (rule steps_replicate, rule steps_replicate)
    apply (rule steps_when(3), simp add: assms, rule steps_return)
    apply (rule steps_when(3), simp add: assms, rule steps_return)
    apply (rule steps_no_storage, rule assms(5))
   apply (rule steps_prim(4))
  apply simp
  done

lemma steps_plain_write:
  "plain c \<Longrightarrow> c \<noteq> ''operations'' \<Longrightarrow> c \<noteq> ''projects'' \<Longrightarrow> steps (f ()) (D(raftRef c i \<mapsto> d)) r D' n \<Longrightarrow>
     steps (tx_bind (raftTx_Set cf doc_codec (raftRef c i) d) f) D r D' (Suc 0 + n)"
  by (simp only: raftTx_Set_other not_False_eq_True steps_write)

lemma steps_checkNotRetired:
  "D (raftRef ''retirements'' (retirementID cf pid dg)) = None \<Longrightarrow> steps (checkNotRetired cf pid dg) D (Inr ()) D (Suc 0)"
  unfolding checkNotRetired_def
  by (rule steps_le, rule steps_call[OF steps_prim(3)], assumption) (simp_all add: steps_def execs_guard)

lemma steps_checkStorageOperation:
  assumes "D (raftRef ''retirements'' (retirementID cf (p_ID p) (op_Digest op))) = None"
    "D (raftRef ''revision_removals'' (revisionIdentity cf op)) = None" "op_StorageGeneration op = []"
    "op_StorageVersionKey op = []"
  shows "steps (checkStorageOperation cf doc_codec p op) D (Inr ()) D 2"
  unfolding checkStorageOperation_def activateStorage_def
  apply (rule steps_le)
   apply (rule steps_absent(2), rule assms(2), rule steps_pass, simp)
   apply (rule steps_when(4), rule assms(3), rule steps_call, rule steps_checkNotRetired, rule assms(1))
   apply (rule steps_when(2), rule assms(4), rule steps_done)
    apply simp_all
  done

section \<open>A publication\<close>

definition demo_op :: string where
  "demo_op = replicate 63 (CHR ''0'') @ ''3''"

definition demo_digest :: string where
  "demo_digest = replicate 64 (CHR ''b'')"

definition demo_reservation :: reservation where
  "demo_reservation = \<lparr>rs_Key = ''deploy-1'', rs_ProjectID = [], rs_Name = ''site'', rs_Digest = demo_digest,
     rs_Bytes = 10, rs_ExpectedRevision = 0, rs_Files = 1, rs_StorageManifest = None, rs_StorageOperationID = []\<rparr>"

definition demo_pid :: string where
  "demo_pid = replicate 32 (CHR ''0'')"

definition demo_reserved :: project where
  "demo_reserved = (fresh_project demo_cfg demo_bearer demo_op)\<lparr>p_Slug := ''site'', p_InitialSuffix := [],
     p_ChargedBytes := 1048576, p_PendingOperation := demo_op\<rparr>"

definition demo_operation :: operation where
  "demo_operation = new_operation demo_cfg demo_bearer (demo_reservation\<lparr>rs_StorageOperationID := demo_op\<rparr>) demo_op demo_reserved True"

text \<open>The owner key of the account \<open>alice\<close> and the operation identifier coincide under \<open>demo_hash\<close>.\<close>

definition demo_store :: "string \<Rightarrow> doc option" where
  "demo_store = [raftRef ''slugs'' ''site'' \<mapsto> DSlug demo_pid,
     raftRef ''quotas'' demo_op \<mapsto> DQuota \<lparr>q_Count = 1, q_Schema = 1, q_ChargedBytes = 1048576\<rparr>,
     raftRef ''owner_projects'' demo_op \<mapsto> DTexts [demo_pid],
     raftRef ''projects'' demo_pid \<mapsto> DProject demo_reserved,
     raftRef ''operations'' demo_op \<mapsto> DOperation demo_operation,
     raftRef ''digests'' demo_digest \<mapsto> DDigest \<lparr>d_ProjectID = demo_pid, d_OperationID = demo_op\<rparr>]"

lemma demo_keys [simp]:
  "ownerKey demo_cfg \<lparr>o_Kind = ''firebase'', o_ID = x\<rparr> = demo_op" "operationID demo_cfg demo_bearer k = demo_op"
  "take 32 demo_op = demo_pid"
  by (simp_all add: ownerKey_def operationID_def demo_hash_def demo_op_def demo_pid_def)

lemma demo_reserved_sel [simp]:
  "p_ID demo_reserved = demo_pid" "p_Owner demo_reserved = \<lparr>o_Kind = ''firebase'', o_ID = ''alice''\<rparr>"
  "p_Status demo_reserved = ''reserved''" "p_StorageApp demo_reserved = []" "creation_only demo_reserved"
  "p_Slug demo_reserved = ''site''" "p_PendingOperation demo_reserved = demo_op" "p_ExpiresAt demo_reserved = None"
  "p_Revision demo_reserved = 0" "p_ActiveDigest demo_reserved = []" "p_ChargedBytes demo_reserved = 1048576"
  "p_PolicyRevision demo_reserved = 1" "p_Private demo_reserved = False" "p_PasswordDigest demo_reserved = []"
  by (simp_all add: demo_reserved_def fresh_project_def zero_project_def creation_only_def)

lemma hash_ok_demo: "hash_ok demo_cfg"
  by (auto simp: hash_ok_def hex_hash_def kinds_apart_def ownerKey_def demo_hash_def digestRE_def list_all_iff is_hex_def
      is_digit_def char_between_def split: hashable.splits list.splits)

lemma execs_demo_publish: "execs (authorizePublish demo_cfg cd demo_bearer) D k (Inr ()) D k"
  using execs_demo_authorize[of cd D k] by (simp add: authorizePublish_def IsZero_def duration_defs)

lemma demo_valid_reservation: "validateReservation demo_reservation = None"
  by (simp add: validateReservation_def demo_reservation_def demo_digest_def keyRE_def digestRE_def nameRE_def label_re_def
      list_all_iff is_alnum_def is_lower_alnum_def is_lower_def is_upper_def is_digit_def is_hex_def char_between_def)

lemma demo_slug: "slugRE ''site''" "''site'' \<notin> set reserved_slugs"
  by (simp_all add: slugRE_def label_re_def is_lower_alnum_def is_lower_def is_digit_def char_between_def reserved_slugs_def)

lemma demo_new_project:
  "steps (new_project demo_cfg doc_codec demo_bearer (demo_reservation\<lparr>rs_StorageOperationID := demo_op\<rparr>) demo_op) Map.empty
     (Inr ((fresh_project demo_cfg demo_bearer demo_op)\<lparr>p_Slug := ''site'', p_InitialSuffix := []\<rparr>)) Map.empty 2"
proof -
  have r: "rs_Name (demo_reservation\<lparr>rs_StorageOperationID := demo_op\<rparr>) = ''site''" by (simp add: demo_reservation_def)
  show ?thesis
    unfolding new_project_def Let_def chooseSlug_def slugOwner_def choose_from.simps(2)[of doc_codec _ _ _ 0] r
    apply (rule steps_le)
     apply (rule steps_absent(2), simp, rule steps_pass, simp)
     apply (rule steps_call)
      apply (rule steps_when(1), simp, rule steps_when(1), simp add: demo_slug, rule steps_when(1), simp add: demo_slug)
      apply (rule steps_call)
       apply (rule steps_absent(1), simp, simp only: option.case, rule steps_done, rule refl, rule refl)
      apply (rule steps_when(2), simp, rule steps_done, rule refl, rule refl)
     apply (simp only: prod.case, rule steps_done)
      apply simp_all
    done
qed

lemma demo_operation_sel [simp]:
  "op_ID demo_operation = demo_op" "op_Digest demo_operation = demo_digest" "op_State demo_operation = ''pending''"
  "op_StorageGeneration demo_operation = []" "op_StorageVersionKey demo_operation = []" "op_New demo_operation"
  "op_ProjectID demo_operation = demo_pid" "op_BaseRevision demo_operation = 0" "op_Owner demo_operation = Owner demo_bearer"
  "demo_time < op_ExpiresAt demo_operation" "op_Bytes demo_operation = 10"
  by (simp_all add: demo_operation_def new_operation_def demo_reservation_def duration_defs)

lemma demo_reserve_writes:
  "steps (reserve_writes demo_cfg doc_codec True (demo_reserved\<lparr>p_PendingOperation := []\<rparr>)
    \<lparr>q_Count = 0, q_Schema = 1, q_ChargedBytes = 1048576\<rparr> demo_operation) Map.empty (Inr (demo_reserved, demo_operation)) demo_store 9"
proof -
  have p: "demo_reserved\<lparr>p_PendingOperation := [], p_PendingOperation := demo_op\<rparr> = demo_reserved" by (simp add: demo_reserved_def)
  show ?thesis
    unfolding reserve_writes_def Let_def demo_operation_sel p raftTx_Create_def
    apply (simp only: demo_reserved_sel demo_keys if_True quota.simps)
    apply (rule steps_le)
     apply (rule steps_plain_write, simp, simp, simp)
     apply (rule steps_plain_write, simp, simp, simp)
     apply (rule steps_call, rule steps_project_new; simp add: key_simps)
     apply (rule steps_call, rule steps_absent(2), simp add: key_simps)
      apply (simp only: option.case raftTx_Set_operation demo_operation_sel, rule steps_when(1), simp, rule steps_prim(4))
     apply (rule steps_plain_write, simp, simp, simp)
     apply (rule steps_done)
      apply (simp_all add: demo_store_def)
    done
qed

lemma steps_demo_authorize: "steps (authorizePublish demo_cfg cd demo_bearer) D (Inr ()) D 0"
  using execs_demo_publish[of cd D] by (simp add: steps_def)

lemma demo_open_reservation:
  "steps (open_reservation demo_cfg doc_codec demo_bearer (demo_reservation\<lparr>rs_StorageOperationID := demo_op\<rparr>) demo_op) Map.empty
    (Inr (demo_reserved, demo_operation)) demo_store 20"
proof -
  let ?r = "demo_reservation\<lparr>rs_StorageOperationID := demo_op\<rparr>"
  let ?p = "(fresh_project demo_cfg demo_bearer demo_op)\<lparr>p_Slug := ''site'', p_InitialSuffix := []\<rparr>"
  let ?p1 = "demo_reserved\<lparr>p_PendingOperation := []\<rparr>" and ?q = "\<lparr>q_Count = 0, q_Schema = 1, q_ChargedBytes = 1048576\<rparr>"
  have r: "(rs_ProjectID ?r = []) = True" "rs_Digest ?r = demo_digest" "versionCharge (rs_Bytes ?r) = 1048576"
    by (simp_all add: demo_reservation_def versionCharge_def)
  have p: "?p\<lparr>p_ChargedBytes := 1048576\<rparr> = ?p1" "p_Owner ?p = Owner demo_bearer" "p_ChargedBytes ?p + 1048576 = 1048576"
    by (simp_all add: demo_reserved_def fresh_project_def zero_project_def)
  have op: "new_operation demo_cfg demo_bearer ?r demo_op ?p1 True = demo_operation"
    by (simp add: demo_operation_def new_operation_def)
  have q: "quota_or_empty None = \<lparr>q_Count = 0, q_Schema = 1, q_ChargedBytes = 0\<rparr>"
    by (simp add: quota_or_empty_def empty_quota_def)
  have A: "steps (allocateStorage demo_cfg doc_codec ?p ?r) D (Inr ?p) D 0" for D
    by (simp add: allocateStorage_def steps_def execs_return)
  have O: "steps (operation_storage demo_cfg doc_codec ?r demo_operation) D (Inr demo_operation) D 0" for D
    by (simp add: operation_storage_def steps_def execs_return)
  show ?thesis
    unfolding open_reservation_def Let_def r check_duplicate_def readQuota_def
    apply (rule steps_le)
     apply (rule steps_when(4), simp)
     apply (rule steps_call, rule demo_new_project)
     apply (rule steps_when(4), simp, rule steps_call, rule steps_checkNotRetired, simp)
     apply (rule steps_call, rule steps_absent(1), simp, simp only: option.case, rule steps_done, rule refl, rule refl)
     apply (rule steps_call[where x = None and ?D1.0 = Map.empty and a = 1])
      apply (auto simp: steps_def intro!: execs_optional_missing execs_bind_error execs_Get_missing)[1]
     apply (unfold p q)
     apply (rule steps_pass, simp add: limit_def demo_cfg_def)
     apply (rule steps_pass, simp)
     apply (rule steps_pass, simp add: fitsBytes_def byteLimit_def demo_cfg_def)
     apply (rule steps_call[OF A], unfold p quota.simps add_0 op)
     apply (rule steps_call[OF O])
     apply (rule steps_call, rule steps_checkStorageOperation, simp, simp, simp, simp)
     apply (rule demo_reserve_writes)
    apply simp
    done
qed

lemma demo_Reserve: "steps (Reserve demo_cfg doc_codec demo_bearer demo_reservation) Map.empty (Inr (demo_reserved, demo_operation)) demo_store 21"
  unfolding Reserve_def Let_def demo_valid_reservation tx_refuse_def option.case demo_keys ticket_allows_def
  apply (rule steps_le)
   apply (rule steps_return, rule steps_pass, simp)
   apply (rule steps_call, rule steps_demo_authorize)
   apply (rule steps_when(3), simp)
   apply (rule steps_return)
   apply (rule steps_absent(1), simp, simp only: option.case, rule demo_open_reservation)
  apply simp
  done

definition demo_active :: project where
  "demo_active = activated demo_cfg demo_reserved demo_operation [] 0"

definition demo_complete :: operation where
  "demo_complete = demo_operation\<lparr>op_State := ''complete'', op_PublishedAt := demo_time\<rparr>"

definition demo_published :: "string \<Rightarrow> doc option" where
  "demo_published = demo_store(revision_key demo_pid demo_op \<mapsto> DText demo_op,
     raftRef ''operations'' demo_op \<mapsto> DOperation demo_complete,
     raftRef ''digests'' demo_digest \<mapsto> DDigest \<lparr>d_ProjectID = demo_pid, d_OperationID = []\<rparr>,
     raftRef ''projects'' demo_pid \<mapsto> DProject demo_active)"

lemma demo_active_sel [simp]:
  "p_ID demo_active = demo_pid" "p_Owner demo_active = \<lparr>o_Kind = ''firebase'', o_ID = ''alice''\<rparr>"
  "p_Status demo_active = ''active''" "p_StorageApp demo_active = []" "p_PendingOperation demo_active = []"
  "p_ActiveDigest demo_active = demo_digest" "p_Revision demo_active = 1" "p_Slug demo_active = ''site''"
  "p_ExpiresAt demo_active = None" "p_Private demo_active = False" "p_PolicyRevision demo_active = 1"
  "p_ChargedBytes demo_active = 1048576"
  by (simp_all add: demo_active_def activated_def inc64_def wrap64_def)

lemma demo_store_sel [simp]:
  "demo_store (raftRef ''operations'' demo_op) = Some (DOperation demo_operation)"
  "demo_store (raftRef ''projects'' demo_pid) = Some (DProject demo_reserved)"
  "demo_store (raftRef ''digests'' demo_digest) = Some (DDigest \<lparr>d_ProjectID = demo_pid, d_OperationID = demo_op\<rparr>)"
  "demo_store (raftRef ''retirements'' x) = None" "demo_store (raftRef ''revision_removals'' x) = None"
  by (simp_all add: demo_store_def key_simps)

lemma digestRE_demo: "digestRE demo_op" "digestRE demo_digest" "idRE demo_pid" "demo_pid \<noteq> []"
  by (simp_all add: digestRE_def idRE_def demo_op_def demo_digest_def demo_pid_def list_all_iff is_hex_def is_digit_def char_between_def)

lemma steps_operation_complete:
  "op_State op = ''complete'' \<Longrightarrow> steps (raftTx_Set cf doc_codec (raftRef ''operations'' k) (DOperation op)) D (Inr ())
     (D(revision_key (op_ProjectID op) (op_ID op) \<mapsto> DText (op_ID op), raftRef ''operations'' k \<mapsto> DOperation op)) 2"
  unfolding raftTx_Set_operation
  by (rule steps_le, rule steps_when(2), simp, rule steps_write(1), rule steps_prim(4)) simp

lemma revision_key_other: "plain c \<Longrightarrow> \<not> has_prefix c ''versions_'' \<Longrightarrow> revision_key p i \<noteq> raftRef c j"
  "plain c \<Longrightarrow> \<not> has_prefix c ''versions_'' \<Longrightarrow> raftRef c j \<noteq> revision_key p i"
  using revision_collection[of p i] collection_raftRef[of c j] by metis+

lemma demo_activate:
  assumes "pd \<noteq> [] \<longrightarrow> pr = 2"
  defines "q \<equiv> activated demo_cfg demo_reserved demo_operation pd pr"
  shows "steps (activate demo_cfg doc_codec demo_bearer demo_op pd pr) demo_store (Inr q)
    (demo_published(raftRef ''projects'' demo_pid \<mapsto> DProject q)) 11"
proof -
  have q: "p_ID q = demo_pid" "p_Owner q = \<lparr>o_Kind = ''firebase'', o_ID = ''alice''\<rparr>" "p_Status q = ''active''" "p_StorageApp q = []"
    by (simp_all add: q_def) (simp add: activated_def Let_def)
  have pw: "\<not> (pd \<noteq> [] \<and> (\<not> op_New demo_operation \<or> p_PolicyRevision demo_reserved = max_int64 \<or> pr \<noteq> p_PolicyRevision demo_reserved + 1))"
    using assms(1) by (auto simp: max_int64_def)
  have own: "Owns demo_bearer (p_Owner demo_reserved)" by (simp add: Owns_def)
  have c: "op_State demo_complete = ''complete''" "op_ProjectID demo_complete = demo_pid" "op_ID demo_complete = demo_op"
    by (simp_all add: demo_complete_def)
  show ?thesis
    unfolding activate_def Let_def demo_cfg_facts q_def[symmetric] demo_complete_def[symmetric] move_digest_def finish_ticket_def
    apply (rule steps_le)
     apply (rule steps_pass, simp add: digestRE_demo, rule steps_call, rule steps_demo_authorize)
     apply (rule steps_found(2), rule demo_store_sel, simp, rule steps_pass, simp)
     apply (rule steps_found(1), simp only: demo_operation_sel demo_store_sel, simp, rule steps_pass, use own in \<open>simp add: expired_def\<close>)
     apply (rule steps_call, rule steps_checkStorageOperation, simp, simp, simp, simp)
     apply (rule steps_when(1), simp, rule steps_pass, simp, rule steps_pass, rule pw)
     apply (rule steps_call)
      apply (rule steps_found(1), simp only: demo_operation_sel demo_store_sel, simp, rule steps_pass, simp)
      apply (rule steps_when(3), simp, rule steps_return, rule steps_when(1), simp add: zero_digest_def digestRE_demo digestRE_demo(4)[symmetric], rule steps_done, rule refl, rule refl)
     apply (rule steps_when(3), simp, rule steps_return)
     apply (unfold q_def[symmetric] demo_complete_def[symmetric])
     apply (rule steps_call, rule steps_operation_complete, rule c, unfold demo_operation_sel c)
     apply (rule steps_plain_write, simp, simp, simp)
     apply (rule steps_call, rule steps_project_same[where old = demo_reserved]; simp add: q key_simps revision_key_other has_prefix_def)
     apply (rule steps_done)
      apply (simp_all add: demo_published_def)
    done
qed

lemma demo_Activate: "steps (Activate demo_cfg doc_codec demo_bearer demo_op) demo_store (Inr demo_active) demo_published 11"
proof -
  have "demo_published(raftRef ''projects'' demo_pid \<mapsto> DProject demo_active) = demo_published" by (simp add: demo_published_def)
  then show ?thesis using demo_activate[of "[]" 0] by (simp add: Activate_def demo_active_def)
qed

lemma steps_request:
  assumes "steps (perform demo_cfg doc_codec req) D (Inr ()) D' k" "k \<le> 128"
  shows "repo_step doc_codec demo_cfg D D'"
proof -
  from steps_start[OF assms] obtain u where u: "perform demo_cfg doc_codec req (start_tx D) = (Inr (), u)" "docs doc_codec u = D'"
    by auto
  show ?thesis
    by (rule repo_step.request[OF refl runs_docs(2)[OF start_tx_runs] _ runs_docs(1)[OF start_tx_runs] u])
      (simp add: start_tx_def snapshot_tx_def writes_ok_def)
qed

lemma steps_void: "steps m D (Inr x) D' k \<Longrightarrow> steps (tx_void m) D (Inr ()) D' (k + 0)"
  unfolding tx_void_def by (rule steps_call) (auto intro: steps_done)

lemma demo_activate_step: "repo_step doc_codec demo_cfg demo_store demo_published"
  by (rule steps_request[where req = "RActivate demo_bearer demo_op" and k = 11]) (use steps_void[OF demo_Activate] in simp_all)

lemma demo_store_reached: "reachable doc_codec demo_cfg demo_store"
  using steps_request[where req = "RReserve demo_bearer demo_reservation" and k = 21] steps_void[OF demo_Reserve]
  unfolding reachable_def by (intro r_into_rtranclp) simp

lemma demo_published_reached: "reachable doc_codec demo_cfg demo_published"
  using demo_store_reached demo_activate_step unfolding reachable_def by simp

end
