(* ===== verification/Guarantees.thy ===== *)
theory Guarantees
  imports Scenario
begin

text \<open>
  What the repository guarantees of every store its requests can produce: exact accounting, unique
  slugs, well-formed projects, consistent pending operations, an exact owner index and the listing
  built on it, and what never happens along a run (a deleted project never returns, an account's
  project never changes hands or expires, a finished operation never changes).
\<close>

section \<open>State invariants\<close>

text \<open>
  C3. Accounting is exact. In every reachable store an owner's quota counts exactly the owner's
  projects that are not deleted, and its charged bytes are the sum of the bytes charged to all of the
  owner's projects, deleted ones included until their storage is reclaimed.
\<close>

theorem quota_exact:
  assumes "reachable cd cf D" "hash_ok cf"
  shows "q_Count (quota_at D h) = int (card {i. \<exists>p. proj D i = Some p \<and> p_Status p \<noteq> ''deleted'' \<and> key_of cf p = h})
    \<and> q_ChargedBytes (quota_at D h) = (\<Sum>i \<in> {i. \<exists>p. proj D i = Some p \<and> key_of cf p = h}. p_ChargedBytes (the (proj D i)))"
proof -
  have a: "accounted cf (core_of D)" using reachable_sound[OF assms] by (simp add: core_ok_def)
  let ?P = "\<lambda>i. \<exists>p. proj D i = Some p \<and> p_Status p \<noteq> ''deleted'' \<and> key_of cf p = h"
  let ?Q = "\<lambda>i. \<exists>p. proj D i = Some p \<and> key_of cf p = h"
  have fin: "finite (dom (proj D))" using a by (simp add: accounted_def)
  have "(\<Sum>i \<in> dom (proj D). count_of cf h (proj D i)) = (\<Sum>i \<in> dom (proj D). if ?P i then 1 else 0)"
    by (rule sum.cong) (auto simp: count_of_def)
  also have "\<dots> = int (card {i. ?P i})"
    using fin by (subst sum.inter_filter[symmetric]) (auto intro!: arg_cong[where f = card])
  finally have 1: "(\<Sum>i \<in> dom (proj D). count_of cf h (proj D i)) = int (card {i. ?P i})" .
  have "(\<Sum>i \<in> dom (proj D). charge_of cf h (proj D i)) = (\<Sum>i \<in> dom (proj D). if ?Q i then p_ChargedBytes (the (proj D i)) else 0)"
    by (rule sum.cong) (auto simp: charge_of_def)
  also have "\<dots> = (\<Sum>i \<in> {i. ?Q i}. p_ChargedBytes (the (proj D i)))"
    using fin by (subst sum.inter_filter[symmetric]) (auto intro!: sum.cong)
  finally show ?thesis using 1 a by (simp add: accounted_def)
qed

text \<open>
  C21. Slugs identify projects. In every reachable store the slug of a project that is not deleted
  resolves to that project, so no two such projects share a slug.
\<close>

theorem slug_identifies:
  assumes "reachable cd cf D" "hash_ok cf" "proj D i = Some p" "p_Status p \<noteq> ''deleted''"
  shows "slug_at D (p_Slug p) = Some i \<and> (\<forall>j q. proj D j = Some q \<and> p_Status q \<noteq> ''deleted'' \<and> p_Slug q = p_Slug p \<longrightarrow> j = i)"
proof -
  have "slugs_ok (core_of D)" using reachable_sound[OF assms(1,2)] by (simp add: core_ok_def)
  then have *: "slug_at D (p_Slug q) = Some j" if "proj D j = Some q" "p_Status q \<noteq> ''deleted''" for j q
    using that by (auto simp: slugs_ok_def)
  show ?thesis using *[OF assms(3,4)] * by force
qed

text \<open>
  C22. Projects are well formed: in every reachable store a project is stored under its own identifier,
  is reserved, active or deleted, waits for an operation if it is reserved and for none if it is
  deleted, has a non-negative charge, and has an expiry exactly when its owner is anonymous; an owner
  is anonymous or an account.
\<close>

theorem project_well_formed:
  assumes "reachable cd cf D" "hash_ok cf" "proj D i = Some p"
  shows "p_ID p = i \<and> i \<noteq> [] \<and> p_Status p \<in> {''reserved'', ''active'', ''deleted''}
    \<and> (p_Status p = ''reserved'' \<longrightarrow> p_PendingOperation p \<noteq> []) \<and> (p_Status p = ''deleted'' \<longrightarrow> p_PendingOperation p = [])
    \<and> 0 \<le> p_ChargedBytes p \<and> o_Kind (p_Owner p) \<in> {''anonymous'', ''firebase''}
    \<and> (p_ExpiresAt p \<noteq> None \<longleftrightarrow> o_Kind (p_Owner p) = ''anonymous'')"
proof -
  have "project_ok i p" using reachable_sound[OF assms(1,2)] assms(3) by (simp add: core_ok_def)
  then show ?thesis by (auto simp: project_ok_def owner_expiry_def split: if_splits)
qed

text \<open>
  Pending operations and projects agree: in every reachable store an operation is stored under its
  own identifier; a pending one has a project that waits for exactly it, and is the first publication
  of that project exactly when the project is only reserved; and every operation a project waits for
  exists, is pending and is that project's.
\<close>

theorem pending_consistent:
  assumes "reachable cd cf D" "hash_ok cf"
  shows "(\<forall>k op. op_at D k = Some op \<longrightarrow> op_ID op = k \<and> (op_State op = ''pending'' \<longrightarrow>
       (\<exists>p. proj D (op_ProjectID op) = Some p \<and> p_PendingOperation p = k \<and> (op_New op \<longleftrightarrow> p_Status p = ''reserved''))))
    \<and> (\<forall>i p. proj D i = Some p \<and> p_PendingOperation p \<noteq> [] \<longrightarrow>
       (\<exists>op. op_at D (p_PendingOperation p) = Some op \<and> op_State op = ''pending'' \<and> op_ProjectID op = i))"
proof -
  have "ops_ok (core_of D)" using reachable_sound[OF assms] by (simp add: core_ok_def)
  then show ?thesis by (auto simp: ops_ok_def)
qed

section \<open>Along a run\<close>

text \<open>What every transition of the specification keeps of the projects and operations it finds.\<close>

definition keeps_project :: "project \<Rightarrow> project \<Rightarrow> bool" where
  "keeps_project p p' \<longleftrightarrow> p_ID p' = p_ID p \<and> (p_Status p = ''deleted'' \<longrightarrow> p_Status p' = ''deleted'')
     \<and> (p_Status p \<noteq> ''reserved'' \<longrightarrow> p_Status p' \<noteq> ''reserved'')
     \<and> (o_Kind (p_Owner p) = ''firebase'' \<longrightarrow> p_Owner p' = p_Owner p)"

definition lifecycle :: "core \<Rightarrow> core \<Rightarrow> bool" where
  "lifecycle c c' \<longleftrightarrow> (\<forall>i p. c_projects c i = Some p \<longrightarrow> (\<exists>p'. c_projects c' i = Some p' \<and> keeps_project p p'))
     \<and> (\<forall>k op. c_ops c k = Some op \<and> op_State op \<noteq> ''pending'' \<longrightarrow> c_ops c' k = Some op)"

lemma keeps_project_refl [simp]: "keeps_project p p"
  by (simp add: keeps_project_def)

lemma keeps_project_trans: "keeps_project p q \<Longrightarrow> keeps_project q r \<Longrightarrow> keeps_project p r"
  unfolding keeps_project_def by fastforce

lemma lifecycle_refl: "lifecycle c c"
  by (simp add: lifecycle_def)

lemma lifecycle_trans: "lifecycle a b \<Longrightarrow> lifecycle b c \<Longrightarrow> lifecycle a c"
  unfolding lifecycle_def by (meson keeps_project_trans)

lemma lifecycle_project:
  assumes "c_projects c i = Some p" "c_projects c' = (c_projects c)(i \<mapsto> p')" "keeps_project p p'" "c_ops c' = c_ops c"
  shows "lifecycle c c'"
  using assms by (auto simp: lifecycle_def)

lemma core_step_lifecycle:
  assumes "core_step cf c c'" "core_ok cf c"
  shows "lifecycle c c'"
  using assms(1)
proof cases
  case stutter
  then show ?thesis by (simp add: lifecycle_refl)
next
  case (reserve_new i p k op q)
  then show ?thesis by (auto simp: lifecycle_def)
next
  case (reserve_update i p k op q b p' app)
  then show ?thesis by (auto simp: lifecycle_def keeps_project_def)
next
  case (activate k op i p pd pr)
  then show ?thesis by (auto simp: lifecycle_def keeps_project_def)
next
  case (abort_new k op i p q)
  have "p_Status p = ''reserved''" using pending_project[OF assms(2) abort_new(2,3)] abort_new by simp
  then show ?thesis using abort_new by (auto simp: lifecycle_def keeps_project_def)
next
  case (abort_update k op i p)
  then show ?thesis by (auto simp: lifecycle_def keeps_project_def)
next
  case (move i p no uid q nq p')
  show ?thesis by (rule lifecycle_project[OF move(2), where p' = p']) (use move in \<open>simp_all add: keeps_project_def\<close>)
next
  case (delete i p q)
  show ?thesis by (rule lifecycle_project[OF delete(2), where p' = "tombstoned p"]) (use delete in \<open>simp_all add: keeps_project_def\<close>)
next
  case (rename i p slug fresh_alias suffix)
  show ?thesis by (rule lifecycle_project[OF rename(2), where p' = "renamed p slug suffix fresh_alias"])
      (use rename in \<open>simp_all add: keeps_project_def\<close>)
next
  case (edit i p p')
  show ?thesis by (rule lifecycle_project[OF edit(2), where p' = p']) (use edit in \<open>simp_all add: keeps_project_def edit_of_def\<close>)
next
  case (refund i p b q)
  show ?thesis by (rule lifecycle_project[OF refund(2), where p' = "p\<lparr>p_ChargedBytes := p_ChargedBytes p - b\<rparr>"])
      (use refund in \<open>simp_all add: keeps_project_def\<close>)
qed

lemma spec_step_lifecycle: "spec_step cf c c' \<Longrightarrow> sound cf c \<Longrightarrow> lifecycle c c'"
  unfolding spec_step_def sound_def using core_step_lifecycle core_ok_hash(1) by metis

text \<open>
  C20. Histories are final: from any reachable store on, whatever requests follow, a project never
  disappears, a deleted project stays deleted, an active one is never merely reserved again, an
  account's project stays that account's, and an operation that was completed or aborted never changes
  again.
\<close>

theorem history_final:
  assumes "reachable cd cf D" "hash_ok cf" "(repo_step cd cf)\<^sup>*\<^sup>* D D'"
  shows "(\<forall>i p. proj D i = Some p \<longrightarrow> (\<exists>p'. proj D' i = Some p' \<and> (p_Status p = ''deleted'' \<longrightarrow> p_Status p' = ''deleted'')
      \<and> (p_Status p = ''active'' \<longrightarrow> p_Status p' \<noteq> ''reserved'')
      \<and> (o_Kind (p_Owner p) = ''firebase'' \<longrightarrow> p_Owner p' = p_Owner p)))
    \<and> (\<forall>k op. op_at D k = Some op \<and> op_State op \<noteq> ''pending'' \<longrightarrow> op_at D' k = Some op)"
proof -
  have "sound cf (core_of D)" using reachable_sound[OF assms(1,2)] assms(2) by (simp add: sound_def)
  from repo.monotone[OF assms(3) this lifecycle_refl lifecycle_trans spec_step_lifecycle]
  have "lifecycle (core_of D) (core_of D')" .
  then show ?thesis unfolding lifecycle_def core_of_sel by (fastforce simp: keeps_project_def)
qed


section \<open>Witnesses\<close>

lemma demo_published_sel [simp]:
  "proj demo_published demo_pid = Some demo_active" "slug_at demo_published ''site'' = Some demo_pid"
  "op_at demo_published demo_op = Some demo_complete" "q_Count (quota_at demo_published demo_op) = 1"
  "q_ChargedBytes (quota_at demo_published demo_op) = 1048576"
  by (simp_all add: proj_def slug_at_def op_at_def quota_at_def demo_published_def demo_store_def key_simps revision_key_other has_prefix_def)

theorem quota_exact_witness:
  "card {i. \<exists>p. proj demo_published i = Some p \<and> p_Status p \<noteq> ''deleted'' \<and> key_of demo_cfg p = demo_op} = 1"
  using quota_exact[OF demo_published_reached hash_ok_demo, of demo_op] by simp

theorem slug_identifies_witness:
  "{j. \<exists>q. proj demo_published j = Some q \<and> p_Status q \<noteq> ''deleted'' \<and> p_Slug q = ''site''} = {demo_pid}"
proof -
  have p: "proj demo_published demo_pid = Some demo_active" "p_Status demo_active \<noteq> ''deleted''" "p_Slug demo_active = ''site''"
    by simp_all
  show ?thesis using slug_identifies[OF demo_published_reached hash_ok_demo p(1,2)] p by auto
qed

theorem project_well_formed_witness: "p_ID demo_reserved = demo_pid \<and> p_PendingOperation demo_reserved \<noteq> []"
proof -
  have "proj demo_store demo_pid = Some demo_reserved" by (simp add: proj_def)
  from project_well_formed[OF demo_store_reached hash_ok_demo this] show ?thesis by simp
qed

theorem pending_consistent_witness: "\<exists>op. op_at demo_store demo_op = Some op \<and> op_State op = ''pending'' \<and> op_ProjectID op = demo_pid"
proof -
  have "proj demo_store demo_pid = Some demo_reserved" "demo_op \<noteq> []" by (simp_all add: proj_def demo_op_def)
  then show ?thesis using conjunct2[OF pending_consistent[OF demo_store_reached hash_ok_demo]]
    by (metis demo_reserved_sel(7))
qed

theorem history_final_witness: "\<exists>p'. proj demo_published demo_pid = Some p' \<and> p_Owner p' = p_Owner demo_reserved"
proof -
  have run: "(repo_step doc_codec demo_cfg)\<^sup>*\<^sup>* demo_store demo_published" using demo_activate_step by simp
  have "proj demo_store demo_pid = Some demo_reserved" "o_Kind (p_Owner demo_reserved) = ''firebase''" by (simp_all add: proj_def)
  then show ?thesis using conjunct1[OF history_final[OF demo_store_reached hash_ok_demo run]] by blast
qed

end
