(* ===== verification/Safety.thy ===== *)
theory Safety
  imports Scenario
begin

text \<open>
  Properties of single requests on stores that satisfy the invariant: the owner's listing is complete
  and exact, a change of who may see a project invalidates the grants given before, a protected first
  publication is never public, repeating a reservation changes nothing, only expired anonymous
  projects are expired, and storage is reclaimed once, only after every member gave it up and never
  while it is served.
\<close>

section \<open>Listing\<close>

lemma owned_ids_InrE:
  assumes "owned_ids cf cd cursor os t = (Inr ids, u)" "good_env cd (tx_read t)"
  shows "ids = concat (map (\<lambda>o'. filter (\<lambda>i. cursor < i) (index_at (docs cd t) (ownerKey cf o'))) os)
    \<and> cur u = cur t \<and> tx_read u = tx_read t"
  using assms
proof (induction os arbitrary: t ids)
  case (Cons o' os)
  let ?f = "\<lambda>found. case found of None \<Rightarrow> [] | Some ids \<Rightarrow> ids"
  obtain found v rest where v: "tx_optional (Get cd asTexts (raftRef ''owner_projects'' (ownerKey cf o'))) t = (Inr found, v)"
    and r: "owned_ids cf cd cursor os v = (Inr rest, u)" and ids: "ids = filter (\<lambda>i. cursor < i) (?f found) @ rest"
    using Cons.prems(1) by (auto simp del: tx_bind_app elim!: tx_bind_InrE tx_return_InrE)
  have f: "?f found = index_at (docs cd t) (ownerKey cf o')" "cur v = cur t" "tx_read v = tx_read t"
    using v Cons.prems(2) by (auto simp: index_at_def elim!: tx_elims)
  show ?case using Cons.IH[OF r] Cons.prems(2) f ids by simp
qed simp

lemma owned_projects_InrE:
  assumes "owned_projects cf cd a ids t = (Inr ps, u)"
  shows "ps = filter (\<lambda>p. Live p (repo_now cf) \<and> Owns a (p_Owner p)) (map (\<lambda>i. the (proj (docs cd t) i)) ids)
    \<and> (\<forall>i \<in> set ids. proj (docs cd t) i \<noteq> None)"
  using assms
proof (induction ids arbitrary: t ps)
  case (Cons i ids)
  obtain p v rest where v: "Get cd asProject (raftRef ''projects'' i) t = (Inr p, v)"
    and r: "owned_projects cf cd a ids v = (Inr rest, u)"
    and ps: "ps = (if Live p (repo_now cf) \<and> Owns a (p_Owner p) then p # rest else rest)"
    using Cons.prems(1) by (auto simp del: tx_bind_app elim!: tx_bind_InrE tx_return_InrE)
  have "proj (docs cd t) i = Some p" "cur v = cur t" using v by (auto dest: proj_get elim!: Get_InrE)
  then show ?case using Cons.IH[OF r] ps by simp
qed simp

lemma owned_key: "Owns a o' \<Longrightarrow> o' \<in> set (actor_owners a)"
  by (cases o') (auto simp: Owns_def actor_owners_def)

text \<open>
  C28. Listing is exact: a page of an actor's projects holds exactly the actor's live projects whose
  identifiers lie after the cursor and, when the page is not the last, up to the returned cursor; it
  never holds more than the limit.
\<close>

theorem ListOwned_exact:
  assumes "ListOwned cf cd a cursor lim t = (Inr (result, next_cursor), u)" "good_env cd (tx_read t)" "index_ok cf (docs cd t)"
  shows "(p \<in> set result \<longleftrightarrow> (\<exists>i. proj (docs cd t) i = Some p \<and> Live p (repo_now cf) \<and> Owns a (p_Owner p)
      \<and> cursor < i \<and> (next_cursor = [] \<or> i \<le> next_cursor))) \<and> length result \<le> lim"
proof -
  let ?D = "docs cd t"
  from assms(1) obtain x v ids w r where g: "\<not> (lim < 1 \<or> lim > 100 \<or> (cursor \<noteq> [] \<and> \<not> idRE cursor))"
    and au: "authorize cf cd a t = (Inr x, v)" and i: "owned_ids cf cd cursor (actor_owners a) v = (Inr ids, w)"
    and p: "owned_projects cf cd a (take lim (sort (remdups ids))) w = (Inr r, u)"
    and eq: "(result, next_cursor) = (r, if length (sort (remdups ids)) > lim then last (take lim (sort (remdups ids))) else [])"
    unfolding ListOwned_def Let_def by (elim tx_bind_InrE tx_guard_InrE tx_return_InrE) blast
  have lim: "1 \<le> lim" and v: "cur v = cur t" "tx_read v = tx_read t" using g au by (auto elim!: authorize_InrE)
  have nc: "next_cursor = (if length (sort (remdups ids)) > lim then last (take lim (sort (remdups ids))) else [])" and "r = result"
    using eq by simp_all
  note p = p[unfolded this(2)]
  let ?ids = "sort (remdups ids)"
  have ids: "ids = concat (map (\<lambda>o'. filter (\<lambda>i. cursor < i) (index_at ?D (ownerKey cf o'))) (actor_owners a))" "cur w = cur t"
    using owned_ids_InrE[OF i] assms(2) v by auto
  have mem: "j \<in> set ?ids \<longleftrightarrow> cursor < j \<and> (\<exists>o' \<in> set (actor_owners a). live_owner cf (proj ?D j) = Some (ownerKey cf o'))" for j
    using assms(3) by (auto simp: ids index_ok_def index_rel_def)
  have ne: "[] \<notin> set ?ids" using mem by auto
  have page: "j \<in> set (take lim ?ids) \<longleftrightarrow> j \<in> set ?ids \<and> (next_cursor = [] \<or> j \<le> next_cursor)" for j
  proof (cases "length ?ids > lim")
    case True
    then have "?ids \<noteq> []" by (metis list.size(3) not_less0)
    then have "last (take lim ?ids) \<in> set ?ids" using lim by (intro in_set_takeD[OF last_in_set]) simp
    then have "next_cursor \<noteq> []" using True nc ne by auto
    then show ?thesis using sorted_take_iff[of ?ids lim j] True lim nc by simp
  qed (use nc in simp)
  have r: "result = filter (\<lambda>p. Live p (repo_now cf) \<and> Owns a (p_Owner p)) (map (\<lambda>i. the (proj ?D i)) (take lim ?ids))"
    "\<forall>i \<in> set (take lim ?ids). proj ?D i \<noteq> None"
    using owned_projects_InrE[OF p] ids(2) by auto
  have mine: "j \<in> set ?ids \<longleftrightarrow> cursor < j" if "proj ?D j = Some q" "Live q (repo_now cf)" "Owns a (p_Owner q)" for j q
    using that mem owned_key[OF that(3)] by (auto simp: live_owner_def Live_def)
  have "p \<in> set result \<longleftrightarrow> (\<exists>i \<in> set (take lim ?ids). proj ?D i = Some p) \<and> Live p (repo_now cf) \<and> Owns a (p_Owner p)"
    using r by force
  also have "\<dots> \<longleftrightarrow> (\<exists>i. proj ?D i = Some p \<and> Live p (repo_now cf) \<and> Owns a (p_Owner p)
      \<and> cursor < i \<and> (next_cursor = [] \<or> i \<le> next_cursor))"
    using page mine by blast
  moreover have "length result \<le> lim" unfolding r(1) by (rule le_trans[OF length_filter_le]) simp
  ultimately show ?thesis by blast
qed


section \<open>Visibility\<close>

lemma succ_mod_neq: "1 < m \<Longrightarrow> (y + 1) mod m \<noteq> (y :: int)"
proof
  assume m: "1 < m" and eq: "(y + 1) mod m = y"
  then have "0 \<le> y" "y < m" using pos_mod_bound[of m "y + 1"] pos_mod_sign[of m "y + 1"] by auto
  then show False using m eq by (cases "y + 1 = m") (auto simp: mod_pos_pos_trivial)
qed

lemma inc64_neq [simp]: "inc64 x \<noteq> x" "x \<noteq> inc64 x"
  using succ_mod_neq[of 18446744073709551616 "x + 9223372036854775808"]
  by (auto simp: inc64_def wrap64_def algebra_simps)

definition same_view :: "project \<Rightarrow> project \<Rightarrow> bool" where
  "same_view p p' \<longleftrightarrow> p_Private p' = p_Private p \<and> p_PasswordDigest p' = p_PasswordDigest p \<and> p_Slug p' = p_Slug p
     \<and> p_Status p' = p_Status p"

lemma activated_open: "p_Private (activated cf p op [] pr) = p_Private p" "p_PasswordDigest (activated cf p op [] pr) = p_PasswordDigest p"
  and activated_private: "d \<noteq> [] \<Longrightarrow> p_Private (activated cf p op d n)" "d \<noteq> [] \<Longrightarrow> p_PasswordDigest (activated cf p op d n) = d"
    "d \<noteq> [] \<Longrightarrow> p_PasswordRevision (activated cf p op d n) = n"
  by (simp_all add: activated_def Let_def)

lemma core_step_view:
  assumes "core_step cf c c'" "core_ok cf c" "c_projects c i = Some p" "p_Status p = ''active''" "c_projects c' i = Some p'"
    "p_PolicyRevision p' = p_PolicyRevision p"
  shows "same_view p p'"
  using assms(1)
proof cases
  case (activate k op j q pd pr)
  show ?thesis
  proof (cases "i = j")
    case True
    have "op_New op = (p_Status q = ''reserved'')" using pending_project[OF assms(2) activate(2,3)] activate by simp
    then have "pd = []" using activate True assms(3,4) by auto
    then show ?thesis using activate(1,5) True assms(3-5) by (auto simp: same_view_def activated_open)
  qed (use activate assms in \<open>auto simp: same_view_def\<close>)
next
  case (abort_new k op j q z)
  have "p_Status q = ''reserved''" using pending_project[OF assms(2) abort_new(2,3)] abort_new by simp
  then show ?thesis using abort_new assms by (auto simp: same_view_def split: if_splits)
qed (use assms in \<open>auto simp: same_view_def edit_of_def tombstoned_def renamed_def split: if_splits\<close>)


text \<open>
  A protected first publication is never public: a successful \<open>ActivatePrivate\<close> returns a private
  project, and when it completes a pending operation that operation is the project's first
  publication and the project carries exactly the given password, under the next policy revision.
\<close>

theorem private_from_the_start:
  assumes "ActivatePrivate cf cd a k d n t = (Inr p, u)" "good_env cd (tx_read t)"
  shows "p_Private p \<and> (\<forall>op q. op_at (docs cd t) k = Some op \<and> op_State op = ''pending'' \<and> proj (docs cd t) (op_ProjectID op) = Some q
      \<longrightarrow> op_New op \<and> p_PasswordDigest p = d \<and> p_PasswordRevision p = n \<and> n = p_PolicyRevision q + 1)"
proof -
  from assms(1) have d: "d \<noteq> []" and ac: "activate cf cd a k d n t = (Inr p, u)"
    unfolding ActivatePrivate_def by (auto simp: digestRE_def simp del: tx_bind_app elim!: tx_bind_InrE tx_guard_InrE)
  from ac d assms(2) show ?thesis
    by (auto simp: activated_private elim!: activate_InrE)
qed


section \<open>Repeating a request\<close>

text \<open>
  C29. A reservation can be repeated: after a reservation succeeded, the same actor's same request,
  made again at any later time and under any limits while nothing else changed, either fails or returns
  the same project and operation, and changes no document.
\<close>

theorem Reserve_idempotent:
  assumes "Reserve cf cd a r t = (Inr x, u)" "good_env cd (tx_read t)"
    and "Reserve cf' cd a r t' = (Inr y, u')" "good_env cd (tx_read t')" "docs cd t' = docs cd u" "cf_hash cf' = cf_hash cf"
  shows "y = x \<and> docs cd u' = docs cd u"
proof -
  let ?k = "operationID cf a (rs_Key r)"
  have k: "operationID cf' a (rs_Key r) = ?k" using assms(6) by (simp add: operationID_def)
  obtain p op where x: "x = (p, op)" "op_at (docs cd u) ?k = Some op" "proj (docs cd u) (op_ProjectID op) = Some p"
    using assms(1,2)
  proof (cases rule: Reserve_InrE)
    case (2 v)
    then show thesis using open_reservation_result[OF 2(4)] assms(2) that by auto
  qed (use that in auto)
  show ?thesis using assms(3,4)
  proof (cases rule: Reserve_InrE)
    case (1 op' p')
    then show ?thesis using x assms(5) k by auto
  next
    case (2 v)
    then show ?thesis using x assms(5) k by simp
  qed
qed

section \<open>Expiry\<close>

text \<open>
  Only expired anonymous projects are expired: the maintenance step on a project either changes no
  document, or the project was an active anonymous one past its expiry with no publication under way,
  and it becomes deleted, giving back its place in the owner's quota and keeping its charged bytes.
\<close>

theorem expire_only_expired:
  assumes "expireProject cf cd i t = (Inr x, u)" "good_env cd (tx_read t)" "core_ok cf (core_of (docs cd t))"
  shows "docs cd u = docs cd t \<or> (\<exists>p. proj (docs cd t) i = Some p \<and> p_Status p = ''active''
      \<and> o_Kind (p_Owner p) = ''anonymous'' \<and> (\<exists>e. p_ExpiresAt p = Some e \<and> e \<le> repo_now cf) \<and> p_PendingOperation p = []
      \<and> proj (docs cd u) i = Some (tombstoned p)
      \<and> quota_at (docs cd u) (key_of cf p) = quota_add (quota_at (docs cd t) (key_of cf p)) (-1) 0)"
  using expireProject_core[OF assms]
proof (elim conjE disjE)
  assume "\<exists>p. proj (docs cd t) i = Some p \<and> p_Status p = ''active'' \<and> o_Kind (p_Owner p) = ''anonymous''
      \<and> expired p (repo_now cf) \<and> p_PendingOperation p = [] \<and> core_of (docs cd u) = set_proj i (tombstoned p)
        (set_quota (key_of cf p) (quota_add (quota_at (docs cd t) (key_of cf p)) (-1) 0) (core_of (docs cd t)))"
  then obtain p where p: "proj (docs cd t) i = Some p" "p_Status p = ''active''" "o_Kind (p_Owner p) = ''anonymous''"
    "expired p (repo_now cf)" "p_PendingOperation p = []"
    and c: "core_of (docs cd u) = set_proj i (tombstoned p)
        (set_quota (key_of cf p) (quota_add (quota_at (docs cd t) (key_of cf p)) (-1) 0) (core_of (docs cd t)))" by blast
  have "proj (docs cd u) i = Some (tombstoned p)"
    "quota_at (docs cd u) (key_of cf p) = quota_add (quota_at (docs cd t) (key_of cf p)) (-1) 0"
    using arg_cong[OF c, of "\<lambda>z. c_projects z i"] arg_cong[OF c, of "\<lambda>z. c_quotas z (key_of cf p)"] by simp_all
  then show ?thesis using p by (auto simp: expired_def not_less split: option.splits)
qed blast


section \<open>Storage reclamation\<close>

text \<open>
  C30. Storage is given back once, and only when nobody holds or serves it. An acknowledgement of a
  reclamation either finds the version already reclaimed and changes nothing, or comes from a member
  of the membership the retirement recorded; as long as another member has not acknowledged, no quota
  and no project changes; the last acknowledgement refunds exactly the version's charge to the project
  and to its owner's quota, only while the project does not serve that version, and marks the version
  reclaimed, so that the first case applies from then on.
\<close>

theorem reclaim_once:
  assumes "AcknowledgeStorageReclamation cf cd i epoch member t = (Inr x, u)" "good_env cd (tx_read t)" "core_ok cf (core_of (docs cd t))"
  shows "\<exists>v. docs cd t (raftRef ''storage_versions'' i) = Some (DVersion v) \<and>
     ((v_State v = ''reclaimed'' \<and> docs cd u = docs cd t)
    \<or> (v_State v = ''retiring'' \<and> v_MembershipEpoch v = epoch \<and> member \<in> set (v_Members v)
        \<and> \<not> set (v_Members v) \<subseteq> insert member (set (v_Acknowledged v)) \<and> core_of (docs cd u) = core_of (docs cd t))
    \<or> (v_State v = ''retiring'' \<and> v_MembershipEpoch v = epoch \<and> set (v_Members v) \<subseteq> insert member (set (v_Acknowledged v))
        \<and> (\<exists>p w. proj (docs cd t) (v_ProjectID v) = Some p \<and> \<not> serves_version p v \<and> 0 < v_QuotaBytes v
             \<and> docs cd u (raftRef ''storage_versions'' i) = Some (DVersion w) \<and> v_State w = ''reclaimed''
             \<and> core_of (docs cd u) = set_proj (v_ProjectID v) (p\<lparr>p_ChargedBytes := p_ChargedBytes p - v_QuotaBytes v\<rparr>)
                 (set_quota (key_of cf p) (quota_add (quota_at (docs cd t) (key_of cf p)) 0 (- v_QuotaBytes v)) (core_of (docs cd t))))))"
  using assms(1,2)
proof (cases rule: AcknowledgeStorageReclamation_InrE)
  case (1 v)
  then show ?thesis by blast
next
  case (2 v)
  have "core_of (docs cd u) = core_of (docs cd t)" unfolding 2(6) by simp
  then show ?thesis using 2 by blast
next
  case (3 v t1)
  let ?v = "v\<lparr>v_Acknowledged := List.insert member (v_Acknowledged v)\<rparr>"
  have "good_env cd (tx_read t1)" "core_ok cf (core_of (docs cd t1))" using 3 assms by simp_all
  from finish_reclamation_core[OF 3(8) this] obtain p al where
    f: "proj (docs cd t) (v_ProjectID v) = Some p" "\<not> serves_version p ?v" "version_sane ?v al"
      "docs cd u (raftRef ''storage_versions'' i) = Some (DVersion (?v\<lparr>v_State := ''reclaimed'', v_RefundedAt := repo_now cf\<rparr>))"
      "core_of (docs cd u) = set_proj (v_ProjectID v) (p\<lparr>p_ChargedBytes := p_ChargedBytes p - v_QuotaBytes v\<rparr>)
         (set_quota (key_of cf p) (quota_add (quota_at (docs cd t) (key_of cf p)) 0 (- v_QuotaBytes v)) (core_of (docs cd t)))"
    using 3(6) by auto
  have "\<not> serves_version p v" "0 < v_QuotaBytes v" using f(2,3) by (auto simp: serves_version_def version_sane_def)
  then show ?thesis using 3 f(1,4,5) by (intro exI[of _ v]) auto
qed

text \<open>
  Only unused versions are retired: a version starts to retire only while its project does not
  serve it, publishes nothing and is deleted or active and unexpired; in an unexpired active project
  only after its owner removed it or after its upload was aborted. No quota and no project changes,
  and acknowledgements are collected for exactly the given members.
\<close>

theorem retire_only_unused:
  assumes "RetireStorageVersion cf cd i epoch members t = (Inr x, u)" "good_env cd (tx_read t)" "writes_ok t"
  shows "core_of (docs cd u) = core_of (docs cd t) \<and> (docs cd u = docs cd t \<or>
    (\<exists>v p. docs cd t (raftRef ''storage_versions'' i) = Some (DVersion v) \<and> proj (docs cd t) (v_ProjectID v) = Some p
       \<and> \<not> serves_version p v \<and> p_PendingOperation p = []
       \<and> (p_Status p = ''deleted'' \<or> v_State v = ''retiring'' \<or> cur t (raftRef ''revision_removals'' (v_ID v)) \<noteq> None
          \<or> (\<exists>op. op_at (docs cd t) (v_Generation v) = Some op \<and> op_StorageVersionKey op = v_ID v \<and> op_State op = ''aborted''))
       \<and> docs cd u (raftRef ''storage_versions'' i) = Some (DVersion x) \<and> v_State x = ''retiring''
       \<and> v_MembershipEpoch x = epoch \<and> v_Members x = sort members))"
  using assms
proof (cases rule: RetireStorageVersion_InrE)
  case (1 v)
  then show ?thesis by simp
next
  case (2 v p)
  have "core_of (docs cd u) = core_of (docs cd t)" by (rule core_within[OF 2(13)]) simp
  moreover have "p_Status p = ''deleted'' \<or> v_State v = ''retiring'' \<or> cur t (raftRef ''revision_removals'' (v_ID v)) \<noteq> None
      \<or> (\<exists>op. op_at (docs cd t) (v_Generation v) = Some op \<and> op_StorageVersionKey op = v_ID v \<and> op_State op = ''aborted'')"
    using 2(2,7) by auto
  ultimately show ?thesis using 2 by blast
qed


section \<open>Witnesses\<close>

lemma demo_docs [simp]:
  "demo_published (raftRef ''projects'' demo_pid) = Some (DProject demo_active)"
  "demo_published (raftRef ''owner_projects'' demo_op) = Some (DTexts [demo_pid])"
  by (simp_all add: demo_published_def demo_store_def key_simps revision_key_other has_prefix_def)

lemma demo_pid_after: "[] < demo_pid" "demo_digest \<noteq> []"
  by (simp_all add: demo_pid_def demo_digest_def numeral_eq_Suc)

lemma demo_sound: "sound demo_cfg (core_of demo_published)" "index_ok demo_cfg demo_published"
  using reachable_sound[OF demo_published_reached hash_ok_demo] hash_ok_demo by (simp_all add: sound_def)

lemma steps_authorize: "steps (authorize demo_cfg cd demo_bearer) D (Inr ()) D 0"
  using execs_demo_authorize[of cd D] by (simp add: steps_def)

lemma demo_owns: "Owns demo_bearer (p_Owner demo_active)" "Live demo_active now"
  by (simp_all add: Owns_def Live_def)

lemma demo_ListOwned: "steps (ListOwned demo_cfg doc_codec demo_bearer [] 10) demo_published (Inr ([demo_active], [])) demo_published 2"
proof -
  have o: "actor_owners demo_bearer = [\<lparr>o_Kind = ''firebase'', o_ID = ''alice''\<rparr>]" by (simp add: actor_owners_def)
  have l: "take 10 (sort (remdups [demo_pid])) = [demo_pid]" by simp
  have P: "steps (owned_projects demo_cfg doc_codec demo_bearer [demo_pid]) demo_published (Inr [demo_active]) demo_published (Suc 0)"
    unfolding owned_projects.simps
    by (rule steps_le, rule steps_found(1), rule demo_docs, simp, rule steps_return, rule steps_done) (simp_all add: demo_owns[simplified])
  have I: "steps (owned_ids demo_cfg doc_codec [] (actor_owners demo_bearer)) demo_published (Inr [demo_pid]) demo_published (Suc 0)"
    unfolding owned_ids.simps o demo_keys
    by (rule steps_le, rule steps_found(3), rule demo_docs, simp, rule steps_return, rule steps_done) (simp_all add: demo_pid_after)
  show ?thesis unfolding ListOwned_def Let_def
    by (rule steps_le, rule steps_pass, simp, rule steps_call, rule steps_authorize, rule steps_call, rule I, unfold l,
        rule steps_call, rule P, rule steps_done, simp_all)
qed

theorem ListOwned_exact_witness:
  "\<exists>result. demo_active \<in> set result \<and> length result \<le> 10
    \<and> fst (ListOwned demo_cfg doc_codec demo_bearer [] 10 (start_tx demo_published)) = Inr (result, [])"
proof -
  from steps_start[OF demo_ListOwned] obtain u where
    u: "ListOwned demo_cfg doc_codec demo_bearer [] 10 (start_tx demo_published) = (Inr ([demo_active], []), u)" by auto
  have d: "docs doc_codec (start_tx demo_published) = demo_published" by (rule runs_docs(1)[OF start_tx_runs])
  have "proj demo_published demo_pid = Some demo_active" "[] < demo_pid" by (simp_all add: proj_def demo_pid_after)
  then show ?thesis
    using ListOwned_exact[OF u runs_docs(2)[OF start_tx_runs], of demo_active] demo_sound(2) demo_owns u unfolding d by auto
qed

text \<open>The published project is made private; a grant from before does not open it.\<close>

definition demo_grant :: grant where
  "demo_grant = \<lparr>g_ProjectID = demo_pid, g_SessionDigest = [], g_PolicyRevision = 1, g_ExpiresAt = demo_time + hour\<rparr>"

definition demo_protected :: project where
  "demo_protected = demo_active\<lparr>p_Private := True, p_PasswordDigest := demo_digest, p_PasswordRevision := 2,
     p_Revision := 2, p_PolicyRevision := 2\<rparr>"


theorem private_from_the_start_witness:
  "\<exists>p u. ActivatePrivate demo_cfg doc_codec demo_bearer demo_op demo_digest 2 (start_tx demo_store) = (Inr p, u) \<and> p_Private p"
proof -
  have "steps (ActivatePrivate demo_cfg doc_codec demo_bearer demo_op demo_digest 2) demo_store
      (Inr (activated demo_cfg demo_reserved demo_operation demo_digest 2))
      (demo_published(raftRef ''projects'' demo_pid \<mapsto> DProject (activated demo_cfg demo_reserved demo_operation demo_digest 2))) 11"
    unfolding ActivatePrivate_def by (rule steps_pass) (use demo_activate[of demo_digest 2] in \<open>simp_all add: digestRE_demo\<close>)
  from steps_start[OF this] obtain u where u: "ActivatePrivate demo_cfg doc_codec demo_bearer demo_op demo_digest 2 (start_tx demo_store)
      = (Inr (activated demo_cfg demo_reserved demo_operation demo_digest 2), u)" by auto
  then show ?thesis using private_from_the_start[OF u runs_docs(2)[OF start_tx_runs]] by blast
qed


lemma demo_resume: "steps (Reserve demo_cfg doc_codec demo_bearer demo_reservation) demo_store (Inr (demo_reserved, demo_operation)) demo_store 4"
proof -
  have own: "Owns demo_bearer (p_Owner demo_reserved)" by (simp add: Owns_def)
  have fp: "op_Fingerprint demo_operation = reservation_hash demo_cfg (demo_reservation\<lparr>rs_StorageOperationID := demo_op\<rparr>)"
    by (simp add: demo_operation_def new_operation_def)
  show ?thesis
    unfolding Reserve_def Let_def demo_valid_reservation tx_refuse_def option.case demo_keys ticket_allows_def resume_def
    apply (rule steps_le)
     apply (rule steps_return, rule steps_pass, simp)
     apply (rule steps_call, rule steps_demo_authorize, rule steps_when(3), simp, rule steps_return)
     apply (rule steps_found(3), rule demo_store_sel, simp, simp only: option.case)
     apply (rule steps_pass, simp add: fp)
     apply (rule steps_found(1)[where x = demo_reserved], simp only: demo_operation_sel demo_store_sel, simp)
     apply (rule steps_pass, use own in \<open>simp add: expired_def\<close>, rule steps_pass, simp)
     apply (rule steps_call, rule steps_checkStorageOperation, simp, simp, simp, simp)
     apply (rule steps_done, rule refl, rule refl)
    apply simp
    done
qed

theorem Reserve_idempotent_witness:
  "\<exists>u u'. Reserve demo_cfg doc_codec demo_bearer demo_reservation (start_tx Map.empty) = (Inr (demo_reserved, demo_operation), u)
    \<and> Reserve demo_cfg doc_codec demo_bearer demo_reservation (start_tx demo_store) = (Inr (demo_reserved, demo_operation), u')
    \<and> docs doc_codec u' = docs doc_codec u"
proof -
  from steps_start[OF demo_Reserve] obtain u where
    u: "Reserve demo_cfg doc_codec demo_bearer demo_reservation (start_tx Map.empty) = (Inr (demo_reserved, demo_operation), u)"
      "docs doc_codec u = demo_store" by auto
  from steps_start[OF demo_resume] obtain u' where
    u': "Reserve demo_cfg doc_codec demo_bearer demo_reservation (start_tx demo_store) = (Inr (demo_reserved, demo_operation), u')" by auto
  have "docs doc_codec (start_tx demo_store) = docs doc_codec u" unfolding u(2) by (rule runs_docs(1)[OF start_tx_runs])
  from Reserve_idempotent[OF u(1) runs_docs(2)[OF start_tx_runs] u' runs_docs(2)[OF start_tx_runs] this refl]
  show ?thesis using u(1) u' by blast
qed

theorem expire_only_expired_witness:
  "\<exists>u. expireProject demo_cfg doc_codec demo_pid (start_tx demo_published) = (Inr (), u) \<and> docs doc_codec u = demo_published"
proof -
  have "steps (expireProject demo_cfg doc_codec demo_pid) demo_published (Inr ()) demo_published 1"
    unfolding expireProject_def
    by (rule steps_le, rule steps_pass, simp add: digestRE_demo, rule steps_found(3), rule demo_docs, simp,
        simp only: option.case, rule steps_when(2), simp, rule steps_done) simp_all
  from steps_start[OF this] obtain u where
    u: "expireProject demo_cfg doc_codec demo_pid (start_tx demo_published) = (Inr (), u)" by auto
  have d: "docs doc_codec (start_tx demo_published) = demo_published" by (rule runs_docs(1)[OF start_tx_runs])
  have p: "proj demo_published demo_pid = Some demo_active" by (simp add: proj_def)
  have "core_ok demo_cfg (core_of demo_published)" using demo_sound(1) by (simp add: sound_def)
  then show ?thesis using expire_only_expired[OF u runs_docs(2)[OF start_tx_runs]] u p unfolding d by auto
qed

text \<open>A version retired for two members; the first acknowledgement refunds nothing.\<close>

definition demo_version :: storage_version where
  "demo_version = \<lparr>v_ID = demo_op, v_App = ''app'', v_ProjectID = demo_pid, v_Digest = demo_digest, v_Generation = [],
     v_ContentBytes = 10, v_Bytes = 4096, v_QuotaBytes = 1048576, v_BlockBytes = 4096, v_Inodes = 1, v_Unverified = False,
     v_ProjectDeleted = False, v_LegacyOperations = 0, v_State = ''retiring'', v_CreatedAt = 0, v_RetiredAt = 0,
     v_MembershipEpoch = demo_op, v_Members = [''a'', ''b''], v_Acknowledged = [], v_RefundedAt = 0\<rparr>"

theorem reclaim_once_witness:
  "\<exists>u. AcknowledgeStorageReclamation demo_cfg doc_codec demo_op demo_op ''a''
       (start_tx (demo_published(raftRef ''storage_versions'' demo_op \<mapsto> DVersion demo_version))) = (Inr (), u)
     \<and> core_of (docs doc_codec u) = core_of demo_published"
proof -
  let ?D = "demo_published(raftRef ''storage_versions'' demo_op \<mapsto> DVersion demo_version)"
  let ?D' = "?D(raftRef ''storage_versions'' demo_op \<mapsto> DVersion (demo_version\<lparr>v_Acknowledged := [''a'']\<rparr>))"
  have v: "v_State demo_version = ''retiring''" "v_MembershipEpoch demo_version = demo_op" "v_Members demo_version = [''a'', ''b'']"
    "v_Acknowledged demo_version = []" by (simp_all add: demo_version_def)
  have l: "List.insert ''a'' [] = [''a'']" by simp
  have "steps (AcknowledgeStorageReclamation demo_cfg doc_codec demo_op demo_op ''a'') ?D (Inr ()) ?D' 2"
    unfolding AcknowledgeStorageReclamation_def Let_def
    apply (rule steps_le)
     apply (rule steps_pass, simp add: digestRE_demo)
     apply (rule steps_found(1)[where d = "DVersion demo_version" and x = demo_version], simp, simp)
     apply (rule steps_when(1), simp add: v, rule steps_pass, simp add: v, rule steps_when(2), simp add: v)
     apply (unfold v l)
     apply (rule steps_prim(4))
    apply simp
    done
  from steps_start[OF this] obtain u where
    u: "AcknowledgeStorageReclamation demo_cfg doc_codec demo_op demo_op ''a'' (start_tx ?D) = (Inr (), u)" by auto
  have d: "docs doc_codec (start_tx ?D) = ?D" by (rule runs_docs(1)[OF start_tx_runs])
  have "core_ok demo_cfg (core_of ?D)" using demo_sound(1) by (simp add: sound_def)
  then show ?thesis using reclaim_once[OF u runs_docs(2)[OF start_tx_runs]] u v unfolding d by auto
qed

theorem retire_only_unused_witness:
  "\<exists>u. RetireStorageVersion demo_cfg doc_codec demo_op demo_op [''b'', ''a'']
       (start_tx (demo_published(raftRef ''storage_versions'' demo_op \<mapsto> DVersion (demo_version\<lparr>v_State := ''reclaimed''\<rparr>))))
         = (Inr (demo_version\<lparr>v_State := ''reclaimed''\<rparr>), u) \<and> core_of (docs doc_codec u) = core_of demo_published"
proof -
  let ?v = "demo_version\<lparr>v_State := ''reclaimed''\<rparr>"
  let ?D = "demo_published(raftRef ''storage_versions'' demo_op \<mapsto> DVersion ?v)"
  have v: "v_ID ?v = demo_op" "StorageVersionID demo_cfg (v_ProjectID ?v) (v_Digest ?v) (v_Generation ?v) = demo_op"
    "\<not> v_Unverified ?v" "v_MembershipEpoch ?v = demo_op" "v_Members ?v = [''a'', ''b'']"
    by (simp_all add: demo_version_def StorageVersionID_def demo_hash_def demo_op_def demo_pid_def numeral_eq_Suc)
  have l: "sort [''b'', ''a''] = [''a'', ''b'']" by simp
  have "steps (RetireStorageVersion demo_cfg doc_codec demo_op demo_op [''b'', ''a'']) ?D (Inr ?v) ?D 1"
    unfolding RetireStorageVersion_def Let_def l
    apply (rule steps_le)
     apply (rule steps_pass, simp add: digestRE_demo)
     apply (rule steps_found(1)[where d = "DVersion ?v" and x = ?v], simp, simp)
     apply (rule steps_pass, simp add: v[simplified], rule steps_when(2), simp, rule steps_pass, simp add: v[simplified])
     apply (rule steps_done, rule refl, rule refl)
    apply simp
    done
  from steps_start[OF this] obtain u where
    u: "RetireStorageVersion demo_cfg doc_codec demo_op demo_op [''b'', ''a''] (start_tx ?D) = (Inr ?v, u)" by auto
  have d: "docs doc_codec (start_tx ?D) = ?D" by (rule runs_docs(1)[OF start_tx_runs])
  have "writes_ok (start_tx ?D)" by (simp add: start_tx_def snapshot_tx_def writes_ok_def)
  from retire_only_unused[OF u runs_docs(2)[OF start_tx_runs] this] show ?thesis using u unfolding d by simp
qed

end
