(* ===== verification/Composition.thy ===== *)
theory Composition
  imports Scenario
begin

text \<open>
  The repository on a cluster node. Every request of the repository is a body the optimistic runner
  may repeat, so a request that succeeds on a node takes one step of the repository machine on the
  documents of the state its commit was applied to, and by the refinement one step of the abstract
  specification.
\<close>

section \<open>Requests are replayable\<close>

text \<open>The steps of successful bodies, without the shortcut through \<open>replays_all\<close>.\<close>

lemmas replay_steps = replays_bind replays_if replays_option replays_sum replays_prod replays_ValidateReads_throw

lemma replays_publish_parts [replay_intros]:
  "replays_all (ticket_allows cd a r)" "replays_all (resume cf cd a r op)" "replays_all (new_project cf cd a r opID)"
  "replays_all (existing_project cf cd a r)" "replays_all (operation_storage cf cd r op)"
  "replays_all (check_duplicate cf cd a p dg)" "replays_all (reserve_writes cf cd isNew p q op)"
  "replays_all (move_digest cd p op)" "replays_all (finish_ticket cf cd a p)" "replays_all (release_digest cf cd p op idx)"
  unfolding ticket_allows_def resume_def new_project_def existing_project_def operation_storage_def
    check_duplicate_def reserve_writes_def move_digest_def finish_ticket_def release_digest_def Let_def
  by (intro replay_intros)+

lemma replays_open_reservation [replay_intros]: "replays_all (open_reservation cf cd a r opID)"
  unfolding open_reservation_def Let_def by (intro replay_intros)

lemma replays_activate [replay_intros]: "replays_all (activate cf cd a opID d n)"
  unfolding activate_def Let_def by (intro replay_intros)

lemma replays_publish [replay_intros]:
  "replays_all (Reserve cf cd a r)" "replays_all (Activate cf cd a opID)" "replays_all (ActivatePrivate cf cd a opID d n)"
  "replays_all (abort cf cd ao opID eo)" "replays_all (Abort cf cd a opID)"
  unfolding Reserve_def Activate_def ActivatePrivate_def abort_def Abort_def Let_def
  by (intro replay_intros)+

lemma replays_manage_parts [replay_intros]:
  "replays_all (revisionProject cf cd a i)" "replays_all (clearTransfer i)" "replays_all (moveToAccount cf cd p uid)"
  "replays_all (drop_digest p idx)" "replays_all (alias_is_new cd i slug)" "replays_all (remove_revision cf cd p op)"
  "replays_all (select_revision cf cd p op)"
  unfolding revisionProject_def clearTransfer_def moveToAccount_def drop_digest_def alias_is_new_def remove_revision_def
    select_revision_def Let_def
  by (intro replay_intros)+

lemma replays_manage [replay_intros]:
  "replays_all (Claim cf cd a i n)" "replays_all (CreateTransfer cf cd a i n s)" "replays_all (RevokeTransfer cf cd a i n)"
  "replays_all (RedeemTransfer cf cd a k)" "replays_all (Tombstone cf cd a i n)" "replays_all (expireProject cf cd i)"
  "replays_all (Rename cf cd a i name n)" "replays_all (SetPrivacy cf cd a i n d m)" "replays_all (SetWatermark cf cd a i n b)"
  unfolding Claim_def CreateTransfer_def RevokeTransfer_def RedeemTransfer_def Tombstone_def expireProject_def Rename_def
    SetPrivacy_def SetWatermark_def Let_def
  by (intro replay_intros)+

lemma replays_availableRevision: "replays (availableRevision cf cd p i)"
  unfolding availableRevision_def
  by (intro replay_steps replays_try replay_intros) (simp_all add: tx_throw_def replays_all_return replays_all_replays)

lemma replays_validated: "replays m \<Longrightarrow> replays (validated m)"
  unfolding validated_def
  by (rule replays_try) (simp_all add: ValidateReads_throw replays_all_return replays_all_replays del: tx_bind_app)

lemma replays_changeRevision: "replays (changeRevision cf cd a i k n remove)"
  unfolding changeRevision_def Let_def
  by (intro replay_steps replays_validated replays_availableRevision replay_intros)

lemma replays_read_budgets: "replays_all (read_budgets cd now keys)"
proof (induction keys)
  case (Cons k keys)
  then show ?case by (cases k) (simp only: read_budgets.simps Let_def, intro replay_intros)
qed (simp only: read_budgets.simps, intro replay_intros)

lemma replays_write_budgets: "replays_all (write_budgets cf cd keys bs)"
  by (induction cf cd keys bs rule: write_budgets.induct)
    (simp_all only: write_budgets.simps replays_all_bind replays_raftTx_Set replays_all_return)

lemma replays_unlock [replay_intros]:
  "replays_all (BeginUnlock cf cd a slug)" "replays_all (CompleteUnlock cf cd a p d)" "replays_all (check_grant cf cd a i k same)"
  unfolding BeginUnlock_def CompleteUnlock_def check_grant_def unlock_target_def Let_def
  by (intro replay_intros replays_read_budgets replays_write_budgets)+

lemma replays_validated_throw: "replays (validated_throw bad e)"
  unfolding validated_throw_def by (intro replay_steps replay_intros)

lemma replays_reclamation:
  "replays_all (retirable cd p v)" "replays (RetireStorageVersion cf cd i e ms)" "replays (AcknowledgeStorageReclamation cf cd i e m)"
  unfolding retirable_def RetireStorageVersion_def AcknowledgeStorageReclamation_def finish_reclamation_def Let_def
  by (intro replay_intros) (intro replay_steps replays_validated_throw replay_intros; simp)+

lemma replays_tx_void [replay_intros]: "replays_all m \<Longrightarrow> replays_all (tx_void m)"
  unfolding tx_void_def by (intro replay_intros)

lemma perform_replays: "replays (perform cf cd req)"
  by (cases req) (simp_all only: perform.simps SelectRevision_def RemoveRevision_def tx_void_def,
    (intro replay_steps replays_changeRevision replays_reclamation replay_intros)+)

section \<open>A request on a node is a step of the repository\<close>

text \<open>The documents a node's records hold.\<close>

definition node_docs :: "('v, doc) codec \<Rightarrow> raft_env \<times> 'v cstate \<Rightarrow> string \<Rightarrow> doc option" where
  "node_docs cd s = view cd (stored \<circ> node_lookup s)"

lemma request_step:
  assumes "perform cf cd req (snapshot_tx R dur snap) = (Inr x, t)" "faithful_codec cd" "cf_hash cf = cf_hash cf0"
    and "D = view cd (stored \<circ> R)" "D' = docs cd t"
  shows "repo_step cd cf0 D D'"
proof (rule repo_step.request[OF assms(3) _ _ _ assms(1)])
  show "good_env cd (tx_read (snapshot_tx R dur snap))" "writes_ok (snapshot_tx R dur snap)"
    using good_env_frozen[OF assms(2)] by (simp_all add: snapshot_tx_def writes_ok_def)
qed (simp_all add: assms(4,5) cur_snapshot_tx)

text \<open>
  The states a node can be in: it starts without documents; clients run requests, each with its own
  clock and limits and its own schedule of reads, and each attempt finishes in one of these states,
  whether it then succeeds or fails; and other packages write documents of their own collections.
\<close>

inductive serving :: "'v raw_ops \<Rightarrow> ('c, 'v) wire \<Rightarrow> ('v kv_transaction \<Rightarrow> 'c option) \<Rightarrow> ('v, doc) codec \<Rightarrow> cfg
    \<Rightarrow> raft_env \<times> 'v cstate \<Rightarrow> bool" for ops wr marshal cd cf0 where
  empty: "node_docs cd s = Map.empty \<Longrightarrow> serving ops wr marshal cd cf0 s"
| request: "(\<And>k. serving ops wr marshal cd cf0 (at_finish (sch k))) \<Longrightarrow>
    (\<And>k. valid_schedule (node_later ops wr) (node_ok wr marshal) (sch k)) \<Longrightarrow>
    (\<And>k. cf_hash (cf k) = cf_hash cf0) \<Longrightarrow>
    serving ops wr marshal cd cf0 (snd (run (node_backend ops wr marshal) dur snap (\<lambda>k. perform (cf k) cd req) sch ctx))"
| other: "serving ops wr marshal cd cf0 s \<Longrightarrow> within S (node_docs cd s) (node_docs cd s') \<Longrightarrow>
    S \<inter> core_collections = {} \<Longrightarrow> ''owner_projects'' \<notin> S \<Longrightarrow> serving ops wr marshal cd cf0 s'"

lemma run_step:
  assumes "\<And>k. valid_schedule (node_later ops wr) (node_ok wr marshal) (sch k)" "\<And>k. cf_hash (cf k) = cf_hash cf0"
    and cd: "faithful_codec cd"
    and s': "s' = snd (run (node_backend ops wr marshal) dur snap (\<lambda>k. perform (cf k) cd req) sch ctx)"
  shows "\<exists>k < 8. node_docs cd s' = node_docs cd (at_finish (sch k))
    \<or> repo_step cd cf0 (node_docs cd (at_finish (sch k))) (node_docs cd s')"
proof -
  obtain k where k: "k < 8" "stored \<circ> node_lookup s' = stored \<circ> node_lookup (at_finish (sch k))
    \<or> (\<exists>x t. perform (cf k) cd req (snapshot_tx (node_lookup (at_finish (sch k))) dur snap) = (Inr x, t)
         \<and> stored \<circ> node_lookup s' = cur t)"
    unfolding s' using run_outcome[where fn = "\<lambda>k. perform (cf k) cd req" and sch = sch, OF perform_replays assms(1)] by blast
  then show ?thesis using request_step[OF _ cd assms(2) refl refl] by (auto simp: node_docs_def intro!: exI[of _ k])
qed

text \<open>Whatever a node serves is a store the repository machine can reach.\<close>

lemma serving_reachable:
  assumes "serving ops wr marshal cd cf0 s" "faithful_codec cd"
  shows "reachable cd cf0 (node_docs cd s)"
  using assms(1)
proof induction
  case (empty s)
  then show ?case by (simp add: reachable_def)
next
  case (request sch cf dur snap req ctx)
  from run_step[where sch = sch and cf = cf, OF request.hyps(2,3) assms(2) refl] obtain k where
    k: "k < 8" "node_docs cd (snd (run (node_backend ops wr marshal) dur snap (\<lambda>k. perform (cf k) cd req) sch ctx)) = node_docs cd (at_finish (sch k))
      \<or> repo_step cd cf0 (node_docs cd (at_finish (sch k))) (node_docs cd (snd (run (node_backend ops wr marshal) dur snap (\<lambda>k. perform (cf k) cd req) sch ctx)))"
    by blast
  then show ?case using request.IH[of k] unfolding reachable_def by (auto intro: rtranclp.rtrancl_into_rtrancl)
next
  case (other s S s')
  then show ?case unfolding reachable_def by (blast intro: rtranclp.rtrancl_into_rtrancl repo_step.other)
qed

end
