(* ===== verification/Content_Paths.thy ===== *)
theory Content_Paths
  imports Content
begin

text \<open>
  Slash-separated paths whose components are plain, as the path policy leaves them: splitting and
  joining are inverse, \<open>path.Clean\<close> leaves them alone, \<open>path.Dir\<close> drops the last component, and the
  loops over the ancestors of a path visit exactly its proper prefixes.
\<close>

section \<open>Splitting and joining\<close>

abbreviation slash :: char where "slash \<equiv> CHR ''/''"

lemma split_on_not_Nil [simp]: "split_on c s \<noteq> []"
  by (induction s) (auto split: list.splits)

lemma join_with_Cons: "ps \<noteq> [] \<Longrightarrow> join_with c (p # ps) = p @ c # join_with c ps"
  by (cases ps) simp_all

lemma join_split [simp]: "join_with c (split_on c s) = s"
proof (induction s)
  case (Cons x s)
  show ?case
  proof (cases "x = c")
    case True
    then show ?thesis using Cons by (simp add: join_with_Cons)
  next
    case False
    obtain p ps where "split_on c s = p # ps" by (cases "split_on c s") auto
    then show ?thesis using Cons False by (cases ps) auto
  qed
qed simp

lemma split_on_parts: "p \<in> set (split_on c s) \<Longrightarrow> c \<notin> set p"
  by (induction s arbitrary: p) (auto split: list.splits if_splits)

lemma split_on_plain: "c \<notin> set p \<Longrightarrow> split_on c p = [p]"
  by (induction p) auto

lemma split_on_append: "c \<notin> set p \<Longrightarrow> split_on c (p @ c # s) = p # split_on c s"
  by (induction p) auto

lemma split_join:
  assumes "ps \<noteq> []" "\<forall>p \<in> set ps. c \<notin> set p"
  shows "split_on c (join_with c ps) = ps"
  using assms
proof (induction ps)
  case (Cons p ps)
  then show ?case by (cases "ps = []") (simp_all add: split_on_plain join_with_Cons split_on_append)
qed simp

lemma split_on_snoc: "split_on c (s @ [c]) = split_on c s @ [[]]"
proof (induction s)
  case (Cons x s)
  then show ?case by (cases "split_on c s") (auto split: list.splits)
qed simp

lemma join_with_snoc: "ps \<noteq> [] \<Longrightarrow> join_with c (ps @ [p]) = join_with c ps @ c # p"
proof (induction ps)
  case (Cons q ps)
  then show ?case by (cases "ps = []") (simp_all add: join_with_Cons)
qed simp

lemma join_inject: "ps \<noteq> [] \<Longrightarrow> qs \<noteq> [] \<Longrightarrow> \<forall>p \<in> set ps \<union> set qs. c \<notin> set p \<Longrightarrow>
    join_with c ps = join_with c qs \<longleftrightarrow> ps = qs"
  by (metis UnCI split_join)

section \<open>Plain paths\<close>

definition plain :: "string \<Rightarrow> bool" where
  "plain p \<longleftrightarrow> p \<noteq> [] \<and> p \<noteq> ''.'' \<and> p \<noteq> ''..'' \<and> slash \<notin> set p"

definition plain_path :: "string list \<Rightarrow> bool" where
  "plain_path ps \<longleftrightarrow> ps \<noteq> [] \<and> (\<forall>p \<in> set ps. plain p)"

lemma plain_pathD: "plain_path ps \<Longrightarrow> ps \<noteq> []" "plain_path ps \<Longrightarrow> \<forall>p \<in> set ps. slash \<notin> set p"
  by (simp_all add: plain_path_def plain_def)

lemma split_plain [simp]: "plain_path ps \<Longrightarrow> split_on slash (join_with slash ps) = ps"
  by (simp add: split_join plain_pathD)

lemma join_plain_hd: "plain_path ps \<Longrightarrow> join_with slash ps \<noteq> [] \<and> hd (join_with slash ps) \<noteq> slash"
proof (cases ps)
  case (Cons p qs)
  assume "plain_path ps"
  then have "plain p" using Cons by (simp add: plain_path_def)
  then show ?thesis using Cons by (cases "qs = []"; cases p) (auto simp: plain_def join_with_Cons)
qed (simp add: plain_path_def)

lemma clean_plain: "\<forall>p \<in> set ps. plain p \<Longrightarrow> fold (clean_step rooted) ps out = rev ps @ out"
  by (induction ps arbitrary: out) (auto simp: clean_step_def plain_def)

lemma Clean_plain: "plain_path ps \<Longrightarrow> path_Clean (join_with slash ps) = join_with slash ps"
  using join_plain_hd[of ps] by (simp add: path_Clean_def Let_def clean_plain plain_path_def)

lemma Clean_plain_slash:
  assumes "plain_path ps"
  shows "path_Clean (join_with slash ps @ [slash]) = join_with slash ps"
proof -
  have "fold (clean_step False) (ps @ [[]]) [] = rev ps"
    using assms by (simp add: clean_plain plain_path_def) (simp add: clean_step_def)
  then show ?thesis using join_plain_hd[OF assms] assms
    by (simp add: path_Clean_def Let_def split_on_snoc)
qed

lemma Dir_plain:
  assumes "plain_path (ps @ [p])"
  shows "path_Dir (join_with slash (ps @ [p])) = (if ps = [] then ''.'' else join_with slash ps)"
proof -
  have l: "after_last_slash (join_with slash (ps @ [p])) = p"
    unfolding after_last_slash_def split_plain[OF assms] by simp
  show ?thesis
  proof (cases "ps = []")
    case True
    then show ?thesis using l by (simp add: path_Dir_def path_Clean_def)
  next
    case False
    then have "plain_path ps" using assms by (simp add: plain_path_def)
    then show ?thesis using False l Clean_plain_slash
      by (simp add: path_Dir_def join_with_snoc)
  qed
qed

lemma Base_plain:
  assumes "plain_path (ps @ [p])"
  shows "path_Base (join_with slash (ps @ [p])) = p"
proof -
  let ?s = "join_with slash (ps @ [p])"
  have p: "plain p" using assms by (simp add: plain_path_def)
  obtain q where q: "?s = q @ p" by (cases "ps = []") (auto simp: join_with_snoc)
  have "last ?s \<noteq> slash" "?s \<noteq> []" using p q by (auto simp: plain_def last_append dest: last_in_set)
  then have "rev (dropWhile (\<lambda>c. c = slash) (rev ?s)) = ?s"
    by (cases ?s rule: rev_cases) auto
  then show ?thesis using p \<open>?s \<noteq> []\<close> by (simp add: path_Base_def after_last_slash_def assms plain_def)
qed

text \<open>The chain of a plain path: its nonempty prefixes, longest first.\<close>

lemma dot_not_join: "plain_path ps \<Longrightarrow> join_with slash ps \<noteq> ''.''"
  using split_plain[of ps] by (force simp: plain_path_def plain_def)

lemma path_chain_plain:
  assumes "plain_path ps" "length ps < n"
  shows "path_chain n (join_with slash ps) = map (\<lambda>k. join_with slash (take k ps)) (rev [1..<Suc (length ps)])"
  using assms
proof (induction ps arbitrary: n rule: rev_induct)
  case (snoc p ps)
  obtain m where n: "n = Suc m" "length ps < m" using snoc.prems(2) by (cases n) auto
  have "path_chain n (join_with slash (ps @ [p])) = join_with slash (ps @ [p]) # path_chain m (if ps = [] then ''.'' else join_with slash ps)"
    using dot_not_join[OF snoc.prems(1)] Dir_plain[OF snoc.prems(1)] by (simp add: n)
  also have "path_chain m (if ps = [] then ''.'' else join_with slash ps) = map (\<lambda>k. join_with slash (take k ps)) (rev [1..<Suc (length ps)])"
  proof (cases "ps = []")
    case True
    then show ?thesis by (cases m) simp_all
  next
    case False
    then show ?thesis using snoc.IH[OF _ n(2)] snoc.prems(1) by (simp add: plain_path_def)
  qed
  finally show ?case by auto
qed (simp add: plain_path_def)

lemma length_join: "plain_path ps \<Longrightarrow> length ps \<le> length (join_with slash ps)"
proof (induction ps)
  case (Cons p ps)
  then show ?case by (cases "ps = []") (auto simp: join_with_Cons plain_path_def plain_def Suc_le_eq)
qed (simp add: plain_path_def)

lemma chain_of_plain:
  "plain_path ps \<Longrightarrow> chain_of (join_with slash ps) = map (\<lambda>k. join_with slash (take k ps)) (rev [1..<Suc (length ps)])"
  unfolding chain_of_def by (rule path_chain_plain) (auto dest: length_join)

end
