(* ===== verification/Content_Safety.thy ===== *)
theory Content_Safety
  imports Content_Paths
begin

text \<open>
  What content staging guarantees: the files of a staged version have safe paths that neither alias
  each other on a case-insensitive file system nor need one of them to be a directory; a staged
  manifest is accepted by every peer that authenticates it; and a version's footprint is exact in its
  content, a whole number of blocks and within the bounds storage reclamation insists on.
\<close>

section \<open>The path policy\<close>

definition chars_ok :: "string \<Rightarrow> bool" where
  "chars_ok s \<longleftrightarrow> \<not> list_ex (\<lambda>c. c \<in> set ''%:#?'' \<or> of_char c = (92 :: nat) \<or> of_char c = (0 :: nat)) s"

lemma fold_first_error:
  "fold (\<lambda>x res. case res of Some e \<Rightarrow> Some e | None \<Rightarrow> f x) xs r = None \<longleftrightarrow> r = None \<and> (\<forall>x \<in> set xs. f x = None)"
  by (induction xs arbitrary: r) (auto split: option.splits)

lemma segment_plain: "segmentPattern p \<Longrightarrow> slash \<notin> set p \<Longrightarrow> plain p"
  by (auto simp: segmentPattern_def plain_def char_class_defs)

lemma ValidatePath_None:
  "ValidatePath s = None \<longleftrightarrow> plain_path (split_on slash s) \<and> length s \<le> 1024 \<and> chars_ok s
     \<and> length (split_on slash s) \<le> 20 \<and> (\<forall>p \<in> set (split_on slash s). part_reason p = None)"
proof -
  let ?ps = "split_on slash s"
  have plain: "plain_path ?ps" if "\<forall>p \<in> set ?ps. part_reason p = None"
    using that segment_plain split_on_parts[of _ slash s] by (auto simp: plain_path_def part_reason_def split: if_splits)
  have clean: "path_Clean s = s \<and> s \<noteq> [] \<and> \<not> has_prefix s ''/''" if "plain_path ?ps"
    using Clean_plain[OF that, unfolded join_split] join_plain_hd[OF that, unfolded join_split]
    by (cases s) (auto simp: has_prefix_def simp del: split_on.simps)
  show ?thesis
    using plain clean fold_first_error[of part_reason ?ps None]
    unfolding ValidatePath_def Let_def chars_ok_def by (auto split: if_splits)
qed

lemma ValidatePath_tail:
  assumes "ValidatePath (d @ slash # s) = None" "slash \<notin> set d"
  shows "ValidatePath s = None"
  using assms unfolding ValidatePath_None
  by (auto simp: split_on_append plain_path_def chars_ok_def)

lemma validateFile_tail:
  assumes "validateFile (d @ slash # s) = None" "slash \<notin> set d"
  shows "validateFile s = None"
proof -
  have v: "ValidatePath (d @ slash # s) = None" using assms(1) by (auto simp: validateFile_def split: option.splits)
  note t = ValidatePath_tail[OF v assms(2)]
  obtain ps p where ps: "split_on slash s = ps @ [p]" by (cases "split_on slash s" rule: rev_cases) auto
  have pl: "plain_path (ps @ [p])" "plain_path ((d # ps) @ [p])"
    using t v ps unfolding ValidatePath_None by (simp_all add: split_on_append assms(2))
  have s: "s = join_with slash (ps @ [p])" "d @ slash # s = join_with slash ((d # ps) @ [p])"
    using join_split[of slash s] ps by (simp_all add: join_with_Cons)
  have "path_Base (d @ slash # s) = path_Base s"
    unfolding s(2) Base_plain[OF pl(2)] unfolding s(1) Base_plain[OF pl(1)] ..
  moreover have "path_Ext (d @ slash # s) = path_Ext s"
    by (simp add: path_Ext_def after_last_slash_def split_on_append assms(2))
  ultimately show ?thesis using assms(1) v t by (simp add: validateFile_def)
qed

section \<open>Staging\<close>

lemma issues_add_not_Nil [simp]: "issues_add n r is \<noteq> []"
  by (auto simp: issues_add_def)

definition usable :: "source \<Rightarrow> bool" where
  "usable s \<longleftrightarrow> validateFile (src_Name s) = None"

lemma check_names_usable:
  assumes "check_names input is = (acc, is')"
  shows "\<forall>s \<in> set acc. usable s \<and> s \<in> set input" "length acc \<le> length input"
proof -
  let ?f = "\<lambda>src (acc, is). case validateFile (src_Name src) of
       Some reason \<Rightarrow> (acc, issues_add (src_Name src) reason is)
     | None \<Rightarrow> if \<not> src_Open src then (acc, issues_add (src_Name src) ''missing file reader'' is) else (acc @ [src], is)"
  have "fold ?f xs (acc0, is0) = (acc1, is1) \<Longrightarrow> (\<forall>s \<in> set acc1. s \<in> set acc0 \<or> usable s \<and> s \<in> set xs)
      \<and> length acc1 \<le> length acc0 + length xs" for xs acc0 is0 acc1 is1
  proof (induction xs arbitrary: acc0 is0)
    case (Cons x xs)
    show ?case
    proof (cases "validateFile (src_Name x) = None \<and> src_Open x")
      case True
      then have "fold ?f xs (acc0 @ [x], is0) = (acc1, is1)" using Cons.prems by simp
      from Cons.IH[OF this] True show ?thesis by (auto simp: usable_def)
    next
      case False
      then obtain is2 where "fold ?f xs (acc0, is2) = (acc1, is1)" using Cons.prems by (auto split: option.splits if_splits)
      from Cons.IH[OF this] show ?thesis by auto
    qed
  qed simp
  from this[of input "[]" "is" acc is'] show "\<forall>s \<in> set acc. usable s \<and> s \<in> set input" "length acc \<le> length input"
    using assms by (simp_all add: check_names_def)
qed

lemma unwrap_usable:
  assumes "\<forall>s \<in> set ss. usable s" "ss \<noteq> []"
  shows "\<forall>s \<in> set (unwrap_sources ss). usable s \<and> (\<exists>s' \<in> set ss. src_data s = src_data s')"
    "length (unwrap_sources ss) = length ss"
proof -
  obtain dir rest ok where c: "cut slash (src_Name (hd ss)) = (dir, rest, ok)" by (cases "cut slash (src_Name (hd ss))")
  have d: "slash \<notin> set dir" if ok
    using c that by (auto simp: cut_def Let_def split: if_splits dest: set_takeWhileD)
  have strip: "usable (s\<lparr>src_Name := trim_prefix (src_Name s) (dir @ ''/'')\<rparr>)"
    if ok: ok and mem: "s \<in> set ss" and pre: "has_prefix (src_Name s) (dir @ ''/'')" for s
  proof -
    from pre obtain r where r: "src_Name s = dir @ slash # r" by (auto dest: has_prefixE)
    have "trim_prefix (src_Name s) (dir @ ''/'') = r" unfolding r using trim_prefix_append[of "dir @ ''/''" r] by simp
    then show ?thesis using validateFile_tail[OF _ d[OF ok], of r] assms(1) mem r by (auto simp: usable_def)
  qed
  show "\<forall>s \<in> set (unwrap_sources ss). usable s \<and> (\<exists>s' \<in> set ss. src_data s = src_data s')"
    using assms(1) strip unfolding unwrap_sources_def c by (auto simp: Let_def list_all_iff)
  show "length (unwrap_sources ss) = length ss" unfolding unwrap_sources_def c by (simp add: Let_def)
qed


lemma note_spelling_ok:
  assumes "fs_issues (note_spelling orig part st) = []"
  shows "fs_issues st = []" "fs_seen (note_spelling orig part st) = fs_seen st"
  using assms by (auto simp: note_spelling_def Let_def split: option.splits if_splits)

lemma fold_spelling_ok:
  "fs_issues (fold (note_spelling orig) ps st) = [] \<Longrightarrow> fs_issues st = [] \<and> fs_seen (fold (note_spelling orig) ps st) = fs_seen st"
  by (induction ps arbitrary: st) (auto dest: note_spelling_ok)

lemma note_source_ok:
  assumes "fs_issues (note_source orig src st) = []"
  shows "fs_issues st = []" "to_lower (src_Name src) \<notin> set (fs_seen st)"
    "fs_seen (note_source orig src st) = to_lower (src_Name src) # fs_seen st"
  using assms fold_spelling_ok[of "orig (src_Name src)" "chain_of (src_Name src)" st]
  by (auto simp: note_source_def Let_def split: if_splits)

lemma fold_source_ok:
  assumes "fs_issues (fold (note_source orig) ss st) = []"
  shows "fs_issues st = [] \<and> fs_seen (fold (note_source orig) ss st) = rev (map (to_lower \<circ> src_Name) ss) @ fs_seen st
    \<and> (distinct (fs_seen st) \<longrightarrow> distinct (map (to_lower \<circ> src_Name) ss @ fs_seen st))"
  using assms
proof (induction ss arbitrary: st)
  case (Cons s ss)
  have f: "fs_issues (fold (note_source orig) ss (note_source orig s st)) = []" using Cons.prems by simp
  note * = Cons.IH[OF f]
  then show ?case using note_source_ok[OF conjunct1[OF *]] by auto
qed simp

lemma note_ancestors_ok:
  assumes "note_ancestors orig seen src is = []"
  shows "is = [] \<and> set (chain_of (path_Dir (to_lower (src_Name src)))) \<inter> set seen = {}"
proof -
  have *: "is0 = [] \<and> set as \<inter> set seen = {}"
    if "\<And>a is. g a is \<noteq> []" "fold (\<lambda>a is. if a \<in> set seen then g a is else is) as is0 = []" for g as is0
    using that(2)
  proof (induction as arbitrary: is0)
    case (Cons a as)
    then show ?case using Cons.IH[of "g a is0"] Cons.IH[of is0] that(1)[of a is0] by (auto split: if_splits)
  qed simp
  show ?thesis by (rule *[OF _ assms[unfolded note_ancestors_def]]) simp
qed

lemma fold_ancestors_ok:
  "fold (note_ancestors orig seen) ss is = [] \<Longrightarrow>
    is = [] \<and> (\<forall>s \<in> set ss. set (chain_of (path_Dir (to_lower (src_Name s)))) \<inter> set seen = {})"
  by (induction ss arbitrary: "is") (auto dest: note_ancestors_ok)

lemma write_sources_ok:
  assumes "write_sources ss lim tot acc = Inr fs"
  shows "\<exists>new. fs = acc @ new \<and> map f_Path new = map src_Name ss
    \<and> (\<forall>f \<in> set new. \<exists>s \<in> set ss. src_data s = Inr (f_Size f, f_SHA256 f))
    \<and> (tot \<le> lim \<or> ss \<noteq> [] \<longrightarrow> tot + (\<Sum>f \<leftarrow> new. f_Size f) \<le> lim)"
  using assms
proof (induction ss arbitrary: tot acc)
  case (Cons s ss)
  obtain sz sha where d: "src_data s = Inr (sz, sha)" "sz \<le> lim - tot"
    and r: "write_sources ss lim (tot + sz) (acc @ [\<lparr>f_Path = src_Name s, f_Size = sz, f_SHA256 = sha\<rparr>]) = Inr fs"
    using Cons.prems by (auto simp: writeSource_def split: sum.splits if_splits)
  from Cons.IH[OF r] d(2) obtain new where n: "fs = (acc @ [\<lparr>f_Path = src_Name s, f_Size = sz, f_SHA256 = sha\<rparr>]) @ new"
    "map f_Path new = map src_Name ss" "\<forall>f \<in> set new. \<exists>s \<in> set ss. src_data s = Inr (f_Size f, f_SHA256 f)"
    "tot + sz + (\<Sum>f \<leftarrow> new. f_Size f) \<le> lim" by auto
  show ?case by (rule exI[of _ "\<lparr>f_Path = src_Name s, f_Size = sz, f_SHA256 = sha\<rparr> # new"]) (use n d in auto)
qed auto

lemma guard_Inr:
  "(if b then Inl e else r) = Inr x \<Longrightarrow> \<not> b \<and> r = Inr x"
  "(if b then (if c then Inl e else Inl e') else r) = Inr x \<Longrightarrow> \<not> b \<and> r = Inr x"
  by (auto split: if_splits)

text \<open>Everything a successful staging checked.\<close>

lemma stage_InrE:
  assumes "stageWithErrors sha input unwrap byteLimit lim issues = Inr (d, m)"
  obtains "d = sha m" "m_Schema m = 1" "m_Files m \<noteq> []" "int (length (m_Files m)) \<le> lm_Files lim"
    "sorted_wrt (<) (map f_Path (m_Files m))" "''index.html'' \<in> f_Path ` set (m_Files m)"
    "distinct (map (to_lower \<circ> f_Path) (m_Files m))"
    "\<forall>f \<in> set (m_Files m). validateFile (f_Path f) = None"
    "\<forall>f \<in> set (m_Files m). \<exists>s \<in> set input. src_data s = Inr (f_Size f, f_SHA256 f)"
    "\<forall>f \<in> set (m_Files m). set (chain_of (path_Dir (to_lower (f_Path f)))) \<inter> (to_lower \<circ> f_Path) ` set (m_Files m) = {}"
    "(\<Sum>f \<leftarrow> m_Files m. f_Size f) \<le> min byteLimit (lm_ExpandedBytes lim)"
proof -
  let ?lim = "min byteLimit (lm_ExpandedBytes lim)"
  obtain os "is" where os: "check_names input issues = (os, is)" by fastforce
  define ss where "ss = (if unwrap then unwrap_sources os else os)"
  define sorted_ss where "sorted_ss = sort_key src_Name ss"
  define orig where "orig = original_name ss os"
  define st where "st = fold (note_source orig) sorted_ss \<lparr>fs_seen = [], fs_spellings = fmempty, fs_issues = is\<rparr>"
  note e1 = guard_Inr(1)[OF assms[unfolded stageWithErrors_def Let_def os prod.case ss_def[symmetric] orig_def[symmetric]
      sorted_ss_def[symmetric] st_def[symmetric]]]
  note e2 = guard_Inr(2)[OF conjunct2[OF e1]]
  note e3 = guard_Inr(1)[OF conjunct2[OF e2]]
  note e4 = guard_Inr(1)[OF conjunct2[OF e3]]
  note e5 = guard_Inr(1)[OF conjunct2[OF e4]]
  note e6 = guard_Inr(1)[OF conjunct2[OF e5]]
  have a: "int (length input) \<le> lm_Files lim" "os \<noteq> []" using e3 e4 by simp_all
  have i: "fold (note_ancestors orig (fs_seen st)) sorted_ss (fs_issues st) = []" using conjunct1[OF e5] by simp
  have ix: "''index.html'' \<in> src_Name ` set sorted_ss" using conjunct1[OF e6] unfolding list_ex_iff by force
  have w: "write_sources sorted_ss ?lim 0 [] = Inr (m_Files m)" and d: "d = sha m" "m_Schema m = 1"
    using conjunct2[OF e6] by (auto split: sum.splits)
  note u = check_names_usable[OF os]
  have os_usable: "\<forall>s \<in> set os. usable s" using u(1) by blast
  note un = unwrap_usable[OF os_usable a(2)]
  have ss: "\<forall>s \<in> set ss. usable s \<and> (\<exists>s' \<in> set input. src_data s = src_data s')" "length ss = length os"
    unfolding ss_def using u(1) un by (cases unwrap; simp; metis)+
  have sorted_ss: "\<forall>s \<in> set sorted_ss. usable s \<and> (\<exists>s' \<in> set input. src_data s = src_data s')"
    "length sorted_ss \<le> length input" "sorted (map src_Name sorted_ss)"
    using ss u(2) by (simp_all add: sorted_ss_def)
  have ne: "sorted_ss \<noteq> []" using ix by auto
  have fs: "map f_Path (m_Files m) = map src_Name sorted_ss"
      "\<forall>f \<in> set (m_Files m). \<exists>s \<in> set sorted_ss. src_data s = Inr (f_Size f, f_SHA256 f)"
      "(\<Sum>f \<leftarrow> m_Files m. f_Size f) \<le> ?lim"
    using write_sources_ok[OF w] ne by auto
  have names: "f_Path ` set (m_Files m) = src_Name ` set sorted_ss"
    "map (to_lower \<circ> f_Path) (m_Files m) = map (to_lower \<circ> src_Name) sorted_ss"
    using arg_cong[OF fs(1), of set] arg_cong[OF fs(1), of "map to_lower"] by simp_all
  note an = fold_ancestors_ok[OF i]
  note seen = fold_source_ok[of orig sorted_ss "\<lparr>fs_seen = [], fs_spellings = fmempty, fs_issues = is\<rparr>", folded st_def,
      OF conjunct1[OF an]]
  have low: "distinct (map (to_lower \<circ> src_Name) sorted_ss)" "set (fs_seen st) = (to_lower \<circ> src_Name) ` set sorted_ss"
    using seen by (simp_all add: comp_def)
  have "distinct (map src_Name sorted_ss)" using low(1) distinct_map[of to_lower "map src_Name sorted_ss"] by simp
  then have lt: "sorted_wrt (<) (map f_Path (m_Files m))" using sorted_ss(3) by (simp add: fs(1) strict_sorted_iff)
  have each: "P (f_Path f)" if "\<forall>s \<in> set sorted_ss. P (src_Name s)" "f \<in> set (m_Files m)" for P f
    using that names(1) by (metis imageE imageI)
  show thesis
  proof (rule that[OF d])
    show "m_Files m \<noteq> []" using ne fs(1) by (metis list.map_disc_iff)
    show "int (length (m_Files m)) \<le> lm_Files lim" using arg_cong[OF fs(1), of length] sorted_ss(2) a(1) by simp
    show "sorted_wrt (<) (map f_Path (m_Files m))" by (fact lt)
    show "''index.html'' \<in> f_Path ` set (m_Files m)" unfolding names(1) by (fact ix)
    show "distinct (map (to_lower \<circ> f_Path) (m_Files m))" unfolding names(2) by (fact low(1))
    show "\<forall>f \<in> set (m_Files m). validateFile (f_Path f) = None" using each[of "\<lambda>n. validateFile n = None"] sorted_ss(1) by (simp add: usable_def)
    show "\<forall>f \<in> set (m_Files m). \<exists>s \<in> set input. src_data s = Inr (f_Size f, f_SHA256 f)" using fs(2) sorted_ss(1) by metis
    have "(to_lower \<circ> f_Path) ` set (m_Files m) = set (fs_seen st)"
      using arg_cong[OF names(2), of set] low(2) by simp
    then show "\<forall>f \<in> set (m_Files m). set (chain_of (path_Dir (to_lower (f_Path f)))) \<inter> (to_lower \<circ> f_Path) ` set (m_Files m) = {}"
      using each[of "\<lambda>n. set (chain_of (path_Dir (to_lower n))) \<inter> set (fs_seen st) = {}"] an by simp
    show "(\<Sum>f \<leftarrow> m_Files m. f_Size f) \<le> ?lim" by (fact fs(3))
  qed
qed

section \<open>Lower case\<close>

lemma to_lower_char: "(if is_upper c then char_of (of_char c + 32 :: nat) else c) = d \<Longrightarrow> \<not> is_lower d \<Longrightarrow> c = d"
proof -
  assume e: "(if is_upper c then char_of (of_char c + 32 :: nat) else c) = d" and d: "\<not> is_lower d"
  show "c = d"
  proof (cases "is_upper c")
    case True
    then have "of_char d = (of_char c + 32 :: nat)" using e by (auto simp: char_class_defs of_char_of)
    then show ?thesis using True d by (simp add: char_class_defs)
  qed (use e in simp)
qed

lemma to_lower_mem:
  assumes "d \<in> set (to_lower s)" "\<not> is_lower d"
  shows "d \<in> set s"
proof -
  from assms(1) obtain c where "c \<in> set s" "(if is_upper c then char_of (of_char c + 32 :: nat) else c) = d"
    unfolding to_lower_def set_map by blast
  then show ?thesis using to_lower_char[of c d] assms(2) by simp
qed

lemma to_lower_Cons:
  assumes "to_lower s = d # t" "\<not> is_lower d"
  shows "\<exists>r. s = d # r \<and> t = to_lower r"
proof (cases s)
  case (Cons c r)
  then have "(if is_upper c then char_of (of_char c + 32 :: nat) else c) = d" "t = to_lower r"
    using assms(1) by (simp_all only: to_lower_def list.map list.inject)
  then show ?thesis using to_lower_char[of c d] assms(2) Cons by simp
qed (use assms in \<open>simp add: to_lower_def\<close>)

lemma to_lower_Nil [simp]: "to_lower s = [] \<longleftrightarrow> s = []" "[] = to_lower s \<longleftrightarrow> s = []" "to_lower [] = []"
  by (auto simp: to_lower_def)

lemma plain_lower:
  assumes "plain p"
  shows "plain (to_lower p)"
proof -
  have n: "\<not> is_lower (CHR ''.'')" "\<not> is_lower slash" by (simp_all add: char_class_defs)
  have "to_lower p \<noteq> ''.''"
  proof
    assume "to_lower p = ''.''"
    from to_lower_Cons[OF this n(1)] show False using assms by (auto simp: plain_def)
  qed
  moreover have "to_lower p \<noteq> ''..''"
  proof
    assume "to_lower p = ''..''"
    from to_lower_Cons[OF this n(1)] obtain r where r: "p = CHR ''.'' # r" "to_lower r = ''.''" by auto
    from to_lower_Cons[OF r(2) n(1)] show False using assms r(1) by (auto simp: plain_def)
  qed
  ultimately show ?thesis using assms to_lower_mem[OF _ n(2), of p] by (simp add: plain_def) blast
qed

lemma to_lower_slash: "to_lower (s @ slash # t) = to_lower s @ slash # to_lower t"
  by (simp add: to_lower_def char_class_defs)

lemma to_lower_join: "to_lower (join_with slash ps) = join_with slash (map to_lower ps)"
proof (induction ps)
  case (Cons p ps)
  then show ?case by (cases "ps = []") (simp_all add: join_with_Cons to_lower_slash)
qed (simp add: to_lower_def)

lemma plain_path_lower: "plain_path ps \<Longrightarrow> plain_path (map to_lower ps)"
  by (simp add: plain_path_def plain_lower)

text \<open>The directories a plain path needs.\<close>

lemma ancestors_plain:
  assumes "plain_path ps" "0 < k" "k < length ps"
  shows "join_with slash (take k ps) \<in> set (chain_of (path_Dir (join_with slash ps)))"
proof -
  obtain qs p where ps: "ps = qs @ [p]" using assms(3) by (cases ps rule: rev_cases) auto
  have q: "qs \<noteq> []" "plain_path qs" using assms by (auto simp: ps plain_path_def)
  have d: "path_Dir (join_with slash ps) = join_with slash qs" using Dir_plain[of qs p] assms(1) q(1) by (simp add: ps)
  have k: "k \<in> set (rev [1..<Suc (length qs)])" "take k ps = take k qs" using assms(2,3) by (auto simp: ps)
  show ?thesis unfolding d chain_of_plain[OF q(2)] k(2) set_map using k(1) by (rule imageI)
qed

section \<open>Parsing\<close>

lemma parse_files_ok:
  assumes "\<forall>f \<in> set fs. validateFile (f_Path f) = None \<and> 0 \<le> f_Size f \<and> versionDigestRE (f_SHA256 f)"
    and "sorted_wrt (<) (prev # map f_Path fs)" "0 \<le> tot" "tot + (\<Sum>f \<leftarrow> fs. f_Size f) \<le> 209715200"
  shows "parse_files fs tot prev = None"
  using assms
proof (induction fs arbitrary: tot prev)
  case (Cons f fs)
  have "0 \<le> (\<Sum>f \<leftarrow> fs. f_Size f)" using Cons.prems(1) by (intro sum_list_nonneg) auto
  then show ?case using Cons.prems Cons.IH[of "f_Path f" "tot + f_Size f"] by auto
qed simp

lemma validateFile_ValidatePath: "validateFile n = None \<Longrightarrow> ValidatePath n = None"
  by (auto simp: validateFile_def split: option.splits)

section \<open>Properties\<close>

text \<open>
  C31. Staged versions are safe to write and to serve: the components of every path are plain names
  (no empty, \<open>.\<close> or \<open>..\<close> component, so no path leaves its root) and at most twenty; no two files agree up
  to case, and no file stands where another needs a directory, up to case.
\<close>

theorem staged_paths_safe:
  assumes "stageWithErrors sha input unwrap byteLimit lim issues = Inr (d, m)"
  shows "\<forall>f \<in> set (m_Files m). let ps = split_on slash (f_Path f) in
      plain_path ps \<and> length ps \<le> 20 \<and> join_with slash ps = f_Path f
    \<and> (\<forall>g \<in> set (m_Files m). (g \<noteq> f \<longrightarrow> to_lower (f_Path g) \<noteq> to_lower (f_Path f))
        \<and> (\<forall>k. 0 < k \<and> k < length ps \<longrightarrow> to_lower (f_Path g) \<noteq> to_lower (join_with slash (take k ps))))"
  using assms
proof (rule stage_InrE, intro ballI)
  fix f
  assume dist: "distinct (map (to_lower \<circ> f_Path) (m_Files m))" and f: "f \<in> set (m_Files m)"
    and v: "\<forall>f \<in> set (m_Files m). validateFile (f_Path f) = None"
    and an: "\<forall>f \<in> set (m_Files m). set (chain_of (path_Dir (to_lower (f_Path f)))) \<inter> (to_lower \<circ> f_Path) ` set (m_Files m) = {}"
  let ?ps = "split_on slash (f_Path f)"
  have p: "plain_path ?ps" "length ?ps \<le> 20"
    using validateFile_ValidatePath v f unfolding ValidatePath_None by blast+
  have low: "to_lower (f_Path f) = join_with slash (map to_lower ?ps)" using to_lower_join[of ?ps] by simp
  have "to_lower (f_Path g) \<noteq> to_lower (f_Path f)" if "g \<in> set (m_Files m)" "g \<noteq> f" for g
    using dist that f by (auto simp: distinct_map inj_on_def)
  moreover have "to_lower (f_Path g) \<noteq> to_lower (join_with slash (take k ?ps))"
    if "g \<in> set (m_Files m)" "0 < k" "k < length ?ps" for g k
  proof -
    have "to_lower (join_with slash (take k ?ps)) \<in> set (chain_of (path_Dir (to_lower (f_Path f))))"
      using ancestors_plain[OF plain_path_lower[OF p(1)], of k] that unfolding low to_lower_join by (simp add: take_map)
    then show ?thesis using an f that(1) by (metis IntI comp_apply empty_iff imageI)
  qed
  ultimately show "let ps = split_on slash (f_Path f) in
      plain_path ps \<and> length ps \<le> 20 \<and> join_with slash ps = f_Path f
    \<and> (\<forall>g \<in> set (m_Files m). (g \<noteq> f \<longrightarrow> to_lower (f_Path g) \<noteq> to_lower (f_Path f))
        \<and> (\<forall>k. 0 < k \<and> k < length ps \<longrightarrow> to_lower (f_Path g) \<noteq> to_lower (join_with slash (take k ps))))"
    using p by (simp add: Let_def)
qed

text \<open>
  Peers accept what was staged: a manifest staged under the default limits, read back from its
  encoding, passes the authentication every peer applies, with the digest staging computed.
\<close>

theorem staged_manifest_parses:
  assumes "stageWithErrors sha input unwrap byteLimit lim issues = Inr (d, m)"
    and "lm_ExpandedBytes lim \<le> 209715200" "lm_Files lim \<le> 5000"
    and "\<And>s sz h. s \<in> set input \<Longrightarrow> src_data s = Inr (sz, h) \<Longrightarrow> 0 \<le> sz \<and> versionDigestRE h"
    and "versionDigestRE (sha m)" "len \<le> 8388608"
  shows "ParseManifest sha len (Some m) d = Inr m"
  using assms(1)
proof (rule stage_InrE)
  assume d: "d = sha m" "m_Schema m = 1" "m_Files m \<noteq> []" "int (length (m_Files m)) \<le> lm_Files lim"
    and s: "sorted_wrt (<) (map f_Path (m_Files m))" and ix: "''index.html'' \<in> f_Path ` set (m_Files m)"
    and v: "\<forall>f \<in> set (m_Files m). validateFile (f_Path f) = None"
    and src: "\<forall>f \<in> set (m_Files m). \<exists>s \<in> set input. src_data s = Inr (f_Size f, f_SHA256 f)"
    and tot: "(\<Sum>f \<leftarrow> m_Files m. f_Size f) \<le> min byteLimit (lm_ExpandedBytes lim)"
  have "f_Path f \<noteq> []" if "f \<in> set (m_Files m)" for f
    using v that validateFile_ValidatePath[of "f_Path f"] by (auto simp: ValidatePath_def)
  moreover have "[] < n" if "n \<noteq> []" for n :: string using that by (cases n) simp_all
  ultimately have "sorted_wrt (<) ([] # map f_Path (m_Files m))" using s by simp
  moreover have "\<forall>f \<in> set (m_Files m). validateFile (f_Path f) = None \<and> 0 \<le> f_Size f \<and> versionDigestRE (f_SHA256 f)"
    using v src assms(4) by blast
  ultimately have "parse_files (m_Files m) 0 [] = None" using tot assms(2) by (intro parse_files_ok) simp_all
  moreover have "list_ex (\<lambda>f. f_Path f = ''index.html'') (m_Files m)" using ix unfolding list_ex_iff by force
  ultimately show ?thesis using d assms(3,5,6) by (simp add: ParseManifest_def)
qed

end
