(* ===== verification/Content_Footprint.thy ===== *)
theory Content_Footprint
  imports Content_Safety
begin

text \<open>
  The footprint of a version: exact content bytes, whole blocks, and sizes within the bounds that
  storage reclamation checks before it refunds a version.
\<close>

section \<open>Rounding and directory budgets\<close>

lemma round_up_bounds:
  assumes "1 \<le> block"
  shows "n \<le> round_up block n" "round_up block n < n + block" "block dvd round_up block n"
proof -
  have "(n + block - 1) div block * block = n + block - 1 - (n + block - 1) mod block"
    by (simp add: minus_mod_eq_div_mult)
  moreover have "0 \<le> (n + block - 1) mod block" "(n + block - 1) mod block < block" using assms by simp_all
  ultimately show "n \<le> round_up block n" "round_up block n < n + block" by (simp_all add: round_up_def)
  show "block dvd round_up block n" by (simp add: round_up_def)
qed

text \<open>A directory table with at most \<open>n\<close> entries whose budgets add up to at most \<open>b\<close> and whose names satisfy \<open>K\<close>.\<close>

definition budgeted :: "(string \<Rightarrow> bool) \<Rightarrow> nat \<Rightarrow> int \<Rightarrow> (string \<times> int) list \<Rightarrow> bool" where
  "budgeted K n b dirs \<longleftrightarrow> length dirs \<le> n \<and> (\<forall>(d, v) \<in> set dirs. 0 \<le> v \<and> K d) \<and> (\<Sum>(d, v) \<leftarrow> dirs. v) \<le> b"

abbreviation short :: "string \<Rightarrow> bool" where "short d \<equiv> length d \<le> 1040"

lemma adjust_budgeted:
  assumes "budgeted K n b dirs" "0 \<le> v" "K d"
  shows "budgeted K (Suc n) (b + v) (adjust d v dirs)" "length dirs \<le> length (adjust d v dirs)"
proof -
  have "length (adjust d v dirs) \<le> Suc (length dirs) \<and> length dirs \<le> length (adjust d v dirs)
      \<and> (\<Sum>(d, v) \<leftarrow> adjust d v dirs. v) = (\<Sum>(d, v) \<leftarrow> dirs. v) + v"
    by (induction dirs) auto
  moreover have "\<forall>(d, v) \<in> set (adjust d v dirs). 0 \<le> v \<and> K d"
    if "\<forall>(d, v) \<in> set dirs. 0 \<le> v \<and> K d"
    using that assms(2,3) by (induction dirs) (auto split: if_splits)
  ultimately show "budgeted K (Suc n) (b + v) (adjust d v dirs)" "length dirs \<le> length (adjust d v dirs)"
    using assms(1) by (auto simp: budgeted_def)
qed

lemma fold_adjust_budgeted:
  assumes "budgeted K n b dirs" "\<forall>x \<in> set xs. 0 \<le> v x \<and> v x \<le> V \<and> K (k x)" "0 \<le> V"
  shows "budgeted K (n + length xs) (b + int (length xs) * V) (fold (\<lambda>x. if skip x then id else adjust (k x) (v x)) xs dirs)
    \<and> length dirs \<le> length (fold (\<lambda>x. if skip x then id else adjust (k x) (v x)) xs dirs)"
  using assms(1,2)
proof (induction xs arbitrary: n b dirs)
  case (Cons x xs)
  let ?dirs = "if skip x then dirs else adjust (k x) (v x) dirs"
  note a = adjust_budgeted[OF Cons.prems(1), of "v x" "k x"]
  have "budgeted K (Suc n) (b + V) ?dirs \<and> length dirs \<le> length ?dirs"
    using a Cons.prems assms(3) by (auto simp: budgeted_def)
  then show ?case using Cons.IH[of "Suc n" "b + V" ?dirs] Cons.prems(2) by (cases "skip x") (auto simp: algebra_simps)
qed simp

section \<open>The directories of a file\<close>

lemma split_on_length: "p \<in> set (split_on c s) \<Longrightarrow> length p \<le> length s"
  by (induction s arbitrary: p) (auto split: list.splits if_splits simp: le_SucI)

lemma Base_length: "length (path_Base s) \<le> Suc (length s)"
proof -
  let ?t = "rev (dropWhile (\<lambda>c. c = slash) (rev s))"
  have "length (after_last_slash ?t) \<le> length ?t"
    unfolding after_last_slash_def by (rule split_on_length[OF last_in_set]) simp
  moreover have "length ?t \<le> length s" by (simp add: length_dropWhile_le[of _ "rev s", simplified])
  ultimately show ?thesis by (simp add: path_Base_def Let_def)
qed

lemma dir_chain_plain:
  assumes "plain_path (''public'' # ps)"
  shows "length (dir_chain n (join_with slash (''public'' # ps))) \<le> length ps
    \<and> (\<forall>d \<in> set (dir_chain n (join_with slash (''public'' # ps))). length d \<le> length (join_with slash (''public'' # ps)))"
  using assms
proof (induction ps arbitrary: n rule: rev_induct)
  case Nil
  then show ?case by (cases n) simp_all
next
  case (snoc p ps)
  let ?s = "join_with slash (''public'' # ps @ [p])"
  have pl: "plain_path (''public'' # ps)" using snoc.prems by (simp add: plain_path_def)
  have d: "path_Dir ?s = join_with slash (''public'' # ps)"
    using Dir_plain[of "''public'' # ps" p] snoc.prems by simp
  have l: "length (join_with slash (''public'' # ps)) \<le> length ?s"
    using join_with_snoc[of "''public'' # ps" slash p] by simp
  show ?case using snoc.IH[OF pl, of "n - 1"] d l by (cases n) (auto intro: order_trans)
qed

lemma add_entry_budgeted:
  assumes "ValidatePath path = None" "budgeted short n b dirs"
  shows "budgeted short (n + 20) (b + 2000) (add_entry (''public/'' @ path) dirs)" "length dirs \<le> length (add_entry (''public/'' @ path) dirs)"
proof -
  obtain ps p where ps: "split_on slash path = ps @ [p]" by (cases "split_on slash path" rule: rev_cases) auto
  have v: "plain_path (ps @ [p])" "length path \<le> 1024" "length ps \<le> 19"
    using assms(1) unfolding ValidatePath_None by (auto simp: ps)
  define nm where "nm = ''public/'' @ path"
  have path: "nm = join_with slash ((''public'' # ps) @ [p])"
    using join_split[of slash path] by (simp add: ps join_with_Cons nm_def)
  have pl: "plain_path ((''public'' # ps) @ [p])" using v(1) by (simp add: plain_path_def plain_def)
  have pub: "plain_path (''public'' # ps)" using pl by (simp add: plain_path_def)
  have dir: "path_Dir nm = join_with slash (''public'' # ps)" unfolding path Dir_plain[OF pl] by simp
  have nl: "length nm \<le> 1031" using v(2) by (simp add: nm_def)
  have len: "length (path_Dir nm) \<le> 1031"
    using arg_cong[OF path, of length] nl join_with_snoc[of "''public'' # ps" slash p] unfolding dir by simp
  have base: "length (path_Base nm) + 32 \<le> 2000" using Base_length[of nm] nl by simp
  let ?chain = "dir_chain (length nm) (path_Dir nm)"
  have c: "length ?chain \<le> 19" "\<forall>d \<in> set ?chain. length d \<le> 1040"
    using dir_chain_plain[OF pub, of "length nm"] v(3) len unfolding dir by (auto intro: order_trans)
  let ?dirs = "adjust (path_Dir nm) (int (length (path_Base nm)) + 32) dirs"
  have a: "budgeted short (Suc n) (b + (int (length (path_Base nm)) + 32)) ?dirs" "length dirs \<le> length ?dirs"
    by (rule adjust_budgeted[OF assms(2)], use len in simp_all)+
  from fold_adjust_budgeted[OF a(1), where xs = ?chain and v = "\<lambda>_. 0" and V = 0 and k = id and skip = "\<lambda>_. False"] c
  have "budgeted short (n + 20) (b + 2000) (add_entry nm dirs) \<and> length dirs \<le> length (add_entry nm dirs)"
    using a(2) base unfolding add_entry_def by (auto simp: budgeted_def id_def)
  then show "budgeted short (n + 20) (b + 2000) (add_entry (''public/'' @ path) dirs)" "length dirs \<le> length (add_entry (''public/'' @ path) dirs)"
    by (simp_all add: nm_def)
qed

lemma footprint_files_InrE:
  assumes "footprint_files block fs dirs c a = Inr (dirs', c', a')" "1 \<le> block" "budgeted short n b dirs" "block dvd a" "c \<le> 209715200"
  shows "c' = c + (\<Sum>f \<leftarrow> fs. f_Size f) \<and> c' \<le> 209715200 \<and> block dvd a'
    \<and> a + (c' - c) \<le> a' \<and> a' \<le> a + (c' - c) + int (length fs) * block
    \<and> budgeted short (n + 20 * length fs) (b + 2000 * int (length fs)) dirs' \<and> length dirs \<le> length dirs'"
  using assms
proof (induction fs arbitrary: dirs c a n b)
  case (Cons f fs)
  let ?dirs = "add_entry (''public/'' @ f_Path f) dirs"
  from Cons.prems(1) have f: "validateFile (f_Path f) = None" "c + f_Size f \<le> 209715200"
    and r: "footprint_files block fs ?dirs (c + f_Size f) (a + round_up block (f_Size f)) = Inr (dirs', c', a')"
    by (auto split: if_splits)
  note e = add_entry_budgeted[OF validateFile_ValidatePath[OF f(1)] Cons.prems(3)]
  note u = round_up_bounds[OF Cons.prems(2), of "f_Size f"]
  from Cons.IH[OF r Cons.prems(2) e(1) dvd_add[OF Cons.prems(4) u(3)] f(2)] show ?case
    using u e(2) by (simp add: algebra_simps)
qed simp

lemma sum_round_up:
  assumes "1 \<le> block" "\<forall>(d, v) \<in> set dirs. 0 \<le> v"
  shows "block dvd (\<Sum>(d, v) \<leftarrow> dirs. round_up block (max 1 v)) \<and> 0 \<le> (\<Sum>(d, v) \<leftarrow> dirs. round_up block (max 1 v))
    \<and> (\<Sum>(d, v) \<leftarrow> dirs. round_up block (max 1 v)) \<le> (\<Sum>(d, v) \<leftarrow> dirs. v) + int (length dirs) * (block + 1)"
  using assms(2)
proof (induction dirs)
  case (Cons x dirs)
  obtain d v where x: "x = (d, v)" by (cases x)
  have "0 \<le> v" using Cons.prems x by auto
  then show ?case using Cons round_up_bounds[OF assms(1), of "max 1 v"] by (auto simp: x algebra_simps)
qed simp

lemma add_dir_entries_budgeted:
  assumes "budgeted short n b dirs"
  shows "budgeted (\<lambda>_. True) (n + n) (b + int n * 1100) (add_dir_entries dirs)" "length dirs \<le> length (add_dir_entries dirs)"
proof -
  have w: "budgeted (\<lambda>_. True) n b dirs" and n: "length dirs \<le> n" using assms by (auto simp: budgeted_def)
  have v: "int (length (path_Base d)) + 32 \<le> 1100" if "d \<in> set (map fst dirs)" for d
  proof -
    have "length d \<le> 1040" using that assms by (auto simp: budgeted_def)
    then show ?thesis using Base_length[of d] by simp
  qed
  have f: "add_dir_entries dirs = fold (\<lambda>d. if d = [] \<or> d = ''public'' then id
      else adjust (path_Dir d) (int (length (path_Base d)) + 32)) (map fst dirs) dirs"
    by (simp add: add_dir_entries_def)
  have "budgeted (\<lambda>_. True) (n + length dirs) (b + int (length dirs) * 1100) (add_dir_entries dirs) \<and> length dirs \<le> length (add_dir_entries dirs)"
    using fold_adjust_budgeted[OF w, where xs = "map fst dirs" and v = "\<lambda>d. int (length (path_Base d)) + 32"
      and V = 1100 and k = path_Dir and skip = "\<lambda>d. d = [] \<or> d = ''public''"] v
    unfolding f by simp
  then show "budgeted (\<lambda>_. True) (n + n) (b + int n * 1100) (add_dir_entries dirs)" "length dirs \<le> length (add_dir_entries dirs)"
    using n by (auto simp: budgeted_def)
qed

section \<open>Properties\<close>

text \<open>
  Footprints are exact and bounded: the content bytes of a version are the sum of its file sizes,
  the allocation covers them and the shared directories in whole blocks, every file and directory has
  an inode, and for every block size the result stays within the bounds (1 TiB and a million inodes)
  that retiring and reclaiming a version insist on, so no version is allocated that could not be
  reclaimed.
\<close>

theorem footprint_bounds:
  assumes "Footprint json_len m block = Inr fp" "\<And>n. json_len m = Some n \<Longrightarrow> 0 \<le> n \<and> n \<le> 8388608"
  shows "fp_ContentBytes fp = (\<Sum>f \<leftarrow> m_Files m. f_Size f) \<and> fp_ContentBytes fp \<le> 209715200
    \<and> fp_ContentBytes fp + 4 * block \<le> fp_AllocatedBytes fp \<and> block dvd fp_AllocatedBytes fp
    \<and> fp_AllocatedBytes fp \<le> 2 ^ 40 \<and> int (length (m_Files m)) + 7 \<le> fp_Inodes fp \<and> fp_Inodes fp \<le> 2 ^ 20"
proof -
  from assms(1) obtain dirs c a n where b: "1 \<le> block" "block \<le> 1048576" "length (m_Files m) \<le> 5000"
    and ff: "footprint_files block (m_Files m) [([], 64), (''public'', 0)] 0 0 = Inr (dirs, c, a)" and n: "json_len m = Some n"
    and fp: "fp = \<lparr>fp_ContentBytes = c, fp_AllocatedBytes = a + (\<Sum>(d, v) \<leftarrow> add_dir_entries dirs. round_up block (max 1 v))
        + round_up block n + 4 * block, fp_Inodes = int (length (m_Files m)) + int (length (add_dir_entries dirs)) + 5\<rparr>"
    by (auto simp: Footprint_def Let_def split: if_splits sum.splits option.splits)
  have "budgeted short 2 64 [([], 64), (''public'', 0)]" by (simp add: budgeted_def)
  note F = footprint_files_InrE[OF ff b(1) this, simplified]
  have "budgeted short 100002 10000064 dirs" using F b(3) by (auto simp: budgeted_def)
  note A = add_dir_entries_budgeted[OF this]
  have A': "length (add_dir_entries dirs) \<le> 200004" "\<forall>(d, v) \<in> set (add_dir_entries dirs). 0 \<le> v"
    "(\<Sum>(d, v) \<leftarrow> add_dir_entries dirs. v) \<le> 120002264"
    using A(1) by (auto simp: budgeted_def)
  note S = sum_round_up[OF b(1) A'(2)] and R = round_up_bounds[OF b(1), of n]
  have m: "int (length (add_dir_entries dirs)) * (block + 1) \<le> 200004 * 1048577"
    by (rule mult_mono) (use A'(1) b in auto)
  have l: "int (length (m_Files m)) * block \<le> 5000 * 1048576"
    by (rule mult_mono) (use b in auto)
  have le: "fp_AllocatedBytes fp \<le> 2 ^ 40" using F S R m l A'(3) assms(2)[OF n] b(2) by (simp add: fp)
  have dv: "block dvd fp_AllocatedBytes fp" using F S R(3) by (simp add: fp)
  have "fp_ContentBytes fp + 4 * block \<le> fp_AllocatedBytes fp" using F S R(1) assms(2)[OF n] by (simp add: fp)
  moreover have "int (length (m_Files m)) + 7 \<le> fp_Inodes fp \<and> fp_Inodes fp \<le> 2 ^ 20"
    using F A(2) A'(1) b(3) by (simp add: fp)
  ultimately show ?thesis using F le dv by (simp add: fp)
qed

section \<open>Witnesses\<close>

text \<open>Two files in one enclosing directory, which staging strips.\<close>

definition demo_sha :: string where "demo_sha = replicate 64 (CHR ''a'')"

definition demo_sources :: "source list" where
  "demo_sources = [\<lparr>src_Name = ''site/index.html'', src_Open = True, src_data = Inr (12, demo_sha)\<rparr>,
     \<lparr>src_Name = ''site/css/a.css'', src_Open = True, src_data = Inr (5, demo_sha)\<rparr>]"

definition demo_manifest :: manifest where
  "demo_manifest = \<lparr>m_Schema = 1, m_Files = [\<lparr>f_Path = ''css/a.css'', f_Size = 5, f_SHA256 = demo_sha\<rparr>,
     \<lparr>f_Path = ''index.html'', f_Size = 12, f_SHA256 = demo_sha\<rparr>]\<rparr>"

lemma demo_staged: "stageWithErrors (\<lambda>_. demo_sha) demo_sources True 1000 DefaultLimits [] = Inr (demo_sha, demo_manifest)"
  by code_simp

lemma demo_footprint: "Footprint (\<lambda>_. Some 300) demo_manifest 4096
   = Inr \<lparr>fp_ContentBytes = 17, fp_AllocatedBytes = 40960, fp_Inodes = 10\<rparr>"
  by code_simp

theorem staged_paths_safe_witness:
  "plain_path [''css'', ''a.css''] \<and> to_lower ''index.html'' \<noteq> to_lower ''css''"
proof -
  let ?f = "\<lparr>f_Path = ''css/a.css'', f_Size = 5, f_SHA256 = demo_sha\<rparr>"
  have m: "?f \<in> set (m_Files demo_manifest)" "\<lparr>f_Path = ''index.html'', f_Size = 12, f_SHA256 = demo_sha\<rparr> \<in> set (m_Files demo_manifest)"
    by (simp_all add: demo_manifest_def)
  have s: "split_on slash (f_Path ?f) = [''css'', ''a.css'']" by simp
  have j: "join_with slash (take 1 [''css'', ''a.css'']) = ''css''" by simp
  note safe = bspec[OF staged_paths_safe[OF demo_staged] m(1), unfolded Let_def s]
  from safe have "plain_path [''css'', ''a.css'']" by simp
  moreover from safe m(2) j have "to_lower ''index.html'' \<noteq> to_lower ''css''" by fastforce
  ultimately show ?thesis ..
qed

theorem staged_manifest_parses_witness: "ParseManifest (\<lambda>_. demo_sha) 300 (Some demo_manifest) demo_sha = Inr demo_manifest"
proof (rule staged_manifest_parses[OF demo_staged])
  have h: "versionDigestRE demo_sha" by (simp add: versionDigestRE_def demo_sha_def list_all_iff char_class_defs)
  then show "versionDigestRE demo_sha" .
  show "0 \<le> sz \<and> versionDigestRE h'" if "s \<in> set demo_sources" "src_data s = Inr (sz, h')" for s sz h'
    using that h by (auto simp: demo_sources_def)
qed (simp_all add: DefaultLimits_def)

theorem footprint_bounds_witness:
  "fp_AllocatedBytes \<lparr>fp_ContentBytes = 17, fp_AllocatedBytes = 40960, fp_Inodes = 10\<rparr> \<le> 2 ^ 40"
  using footprint_bounds[OF demo_footprint] by simp

end
