(* ===== verification/Captured.thy ===== *)
theory Captured
  imports Metadata_Tx
begin

text \<open>
  Transaction bodies that assign variables of the function around them. The runner calls such a
  closure once per attempt (\<open>internal/metadata/transaction.go\<close>, \<open>run\<close>) and the captured variables keep
  what the previous attempt left in them. \<open>Tx.Get\<close> decodes into the variable it is given with gob,
  which transmits no field that has its zero value and leaves the fields it does not receive as they
  are: what a captured variable holds after \<open>Get\<close> is the stored record only where the variable was
  zero before.

  \<open>ctm\<close> is a body with captured variables of type \<open>'c\<close>. \<open>uncap\<close> reads it as an ordinary body for given
  values of the variables, so that everything proved of ordinary bodies applies; \<open>captured\<close> is what
  the variables hold when an attempt starts and \<open>RunCaptured\<close> the runner on such a body.
\<close>

section \<open>Bodies\<close>

type_synonym ('v, 'c, 'a) ctm = "'c \<Rightarrow> 'v tx \<Rightarrow> ((err + 'a) \<times> 'c) \<times> 'v tx"

definition c_return :: "'a \<Rightarrow> ('v, 'c, 'a) ctm" where
  "c_return x = (\<lambda>c t. ((Inr x, c), t))"

definition c_throw :: "err \<Rightarrow> ('v, 'c, 'a) ctm" where
  "c_throw e = (\<lambda>c t. ((Inl e, c), t))"

definition c_bind :: "('v, 'c, 'a) ctm \<Rightarrow> ('a \<Rightarrow> ('v, 'c, 'b) ctm) \<Rightarrow> ('v, 'c, 'b) ctm" where
  "c_bind m f = (\<lambda>c t. case m c t of
     ((Inl e, c'), t') \<Rightarrow> ((Inl e, c'), t')
   | ((Inr x, c'), t') \<Rightarrow> f x c' t')"

text \<open>A step that does not touch the variables, a look at them and an assignment to them.\<close>

definition c_lift :: "('v, 'a) txm \<Rightarrow> ('v, 'c, 'a) ctm" where
  "c_lift m = (\<lambda>c t. case m t of (r, t') \<Rightarrow> ((r, c), t'))"

definition c_get :: "('v, 'c, 'c) ctm" where
  "c_get = (\<lambda>c t. ((Inr c, c), t))"

definition c_modify :: "('c \<Rightarrow> 'c) \<Rightarrow> ('v, 'c, unit) ctm" where
  "c_modify f = (\<lambda>c t. ((Inr (), f c), t))"

text \<open>\<open>tx.Get(key, &variable)\<close>: \<open>merge\<close> decodes the stored record over the variable.\<close>

definition c_Get ::
  "('v, 'd) codec \<Rightarrow> ('d \<Rightarrow> 'a option) \<Rightarrow> ('a \<Rightarrow> 'c \<Rightarrow> 'c) \<Rightarrow> string \<Rightarrow> ('v, 'c, unit) ctm" where
  "c_Get cd into merge key = c_bind (c_lift (Get cd into key)) (\<lambda>x. c_modify (merge x))"

text \<open>One field of a gob record: the zero value is not transmitted.\<close>

definition gob_field :: "'a \<Rightarrow> 'a \<Rightarrow> 'a \<Rightarrow> 'a" where
  "gob_field zero old new = (if new = zero then old else new)"

lemma gob_field_simps [simp]:
  "gob_field z z x = x" "gob_field z x x = x" "gob_field z x z = x"
  "gob_field False b True = True"
  by (simp_all add: gob_field_def)

section \<open>Attempts\<close>

definition uncap :: "('v, 'c, 'a) ctm \<Rightarrow> 'c \<Rightarrow> ('v, 'a \<times> 'c) txm" where
  "uncap m c = (\<lambda>t. case m c t of
     ((Inl e, c'), t') \<Rightarrow> (Inl e, t') | ((Inr x, c'), t') \<Rightarrow> (Inr (x, c'), t'))"

fun captured :: "('s, 'v) backend \<Rightarrow> ('v, 'c, 'a) ctm \<Rightarrow> (nat \<Rightarrow> 's schedule) \<Rightarrow> 'c \<Rightarrow> nat \<Rightarrow> 'c" where
  "captured be m sch c 0 = c"
| "captured be m sch c (Suc k) =
     snd (fst (m (captured be m sch c k) (begin_tx be (sch k) Replicated False)))"

definition RunCaptured ::
  "('s, 'v) backend \<Rightarrow> ('v, 'c, 'a) ctm \<Rightarrow> 'c \<Rightarrow> (nat \<Rightarrow> 's schedule) \<Rightarrow> (nat \<Rightarrow> err option)
    \<Rightarrow> (err + 'a \<times> 'c) \<times> 's" where
  "RunCaptured be m c sch ctx = Run be (\<lambda>k. uncap m (captured be m sch c k)) sch ctx"

text \<open>Reading a body as an ordinary one, step by step.\<close>

lemma c_bind_steps:
  "c_bind (c_return x) f = f x" "c_bind (c_throw e) f = c_throw e"
  "c_bind (if b then m else m') f = (if b then c_bind m f else c_bind m' f)"
  by (auto simp: c_return_def c_throw_def c_bind_def fun_eq_iff split: prod.splits sum.splits)

lemma c_bind_assoc: "c_bind (c_bind m f') f = c_bind m (\<lambda>x. c_bind (f' x) f)"
  by (auto simp: c_bind_def fun_eq_iff split: prod.splits sum.splits)

lemma uncap_bind_lift: "uncap (c_bind (c_lift m) f) c = tx_bind m (\<lambda>x. uncap (f x) c)"
  and uncap_bind_modify: "uncap (c_bind (c_modify g) f1) c = uncap (f1 ()) (g c)"
  and uncap_bind_get: "uncap (c_bind c_get f2) c = uncap (f2 c) c"
  and uncap_bind_Get: "uncap (c_bind (c_Get cd into merge key) f3) c =
    tx_bind (Get cd into key) (\<lambda>x. uncap (f3 ()) (merge x c))"
  by (auto simp: uncap_def c_bind_def c_lift_def c_get_def c_modify_def c_Get_def fun_eq_iff
      split: prod.splits sum.splits)

lemma uncap_ends:
  "uncap (c_return x) c = tx_return (x, c)" "uncap (c_throw e) c = tx_throw e"
  "uncap (c_lift m) c = tx_bind m (\<lambda>x. tx_return (x, c))"
  by (auto simp: uncap_def c_return_def c_throw_def c_lift_def fun_eq_iff split: prod.splits sum.splits)

lemma uncap_if: "uncap (if b then m else m') c = (if b then uncap m c else uncap m' c)"
  by simp

lemma uncap_option:
  "uncap (case x of None \<Rightarrow> m | Some y \<Rightarrow> f y) c = (case x of None \<Rightarrow> uncap m c | Some y \<Rightarrow> uncap (f y) c)"
  by (simp split: option.split)

lemmas uncap_steps = c_bind_steps c_bind_assoc uncap_bind_lift uncap_bind_modify uncap_bind_get uncap_bind_Get uncap_ends uncap_if uncap_option prod.case

text \<open>The variables after a successful attempt are the ones its value carries.\<close>

lemma uncap_value: "uncap m c t = (Inr (x, c'), u) \<longleftrightarrow> m c t = ((Inr x, c'), u)"
  by (auto simp: uncap_def split: prod.splits sum.splits)

end
