(* ===== verification/Unicode_Text.thy ===== *)
theory Unicode_Text
  imports Prelude
begin

text \<open>
  The text functions of Go's standard library that the handlers apply to user-supplied names:
  \<open>utf8.ValidString\<close>, \<open>utf8.RuneCountInString\<close>, \<open>strings.TrimSpace\<close> and \<open>unicode.IsControl\<close>. A Go
  string is the list of its bytes; \<open>runes\<close> splits a valid one into code points, each with its bytes.
\<close>

text \<open>The number of continuation bytes a leading byte asks for and the range of the first of them.\<close>

definition utf8_lead :: "nat \<Rightarrow> (nat \<times> nat \<times> nat) option" where
  "utf8_lead b =
     (if b < 128 then Some (0, 128, 191)
      else if 194 \<le> b \<and> b \<le> 223 then Some (1, 128, 191)
      else if b = 224 then Some (2, 160, 191)
      else if b = 237 then Some (2, 128, 159)
      else if 225 \<le> b \<and> b \<le> 239 then Some (2, 128, 191)
      else if b = 240 then Some (3, 144, 191)
      else if 241 \<le> b \<and> b \<le> 243 then Some (3, 128, 191)
      else if b = 244 then Some (3, 128, 143)
      else None)"

definition utf8_tail_ok :: "nat \<Rightarrow> nat \<Rightarrow> nat \<Rightarrow> nat list \<Rightarrow> bool" where
  "utf8_tail_ok n lo hi bs \<longleftrightarrow> length bs = n
     \<and> (case bs of [] \<Rightarrow> True | b # rest \<Rightarrow> lo \<le> b \<and> b \<le> hi \<and> list_all (\<lambda>x. 128 \<le> x \<and> x \<le> 191) rest)"

definition utf8_value :: "nat \<Rightarrow> nat list \<Rightarrow> nat" where
  "utf8_value b bs =
     foldl (\<lambda>v x. v * 64 + (x - 128))
       (case length bs of 0 \<Rightarrow> b | Suc 0 \<Rightarrow> b - 192 | Suc (Suc 0) \<Rightarrow> b - 224 | _ \<Rightarrow> b - 240) bs"

function runes :: "string \<Rightarrow> (nat \<times> string) list option" where
  "runes [] = Some []"
| "runes (c # s) = (case utf8_lead (of_char c) of
     None \<Rightarrow> None
   | Some (n, lo, hi) \<Rightarrow>
       if utf8_tail_ok n lo hi (map of_char (take n s))
       then map_option ((#) (utf8_value (of_char c) (map of_char (take n s)), c # take n s)) (runes (drop n s))
       else None)"
  by pat_completeness auto
termination by (relation "measure length") auto

definition ValidString :: "string \<Rightarrow> bool" where
  "ValidString s \<longleftrightarrow> runes s \<noteq> None"

definition RuneCount :: "string \<Rightarrow> nat" where
  "RuneCount s = (case runes s of None \<Rightarrow> 0 | Some rs \<Rightarrow> length rs)"

definition IsSpace :: "nat \<Rightarrow> bool" where
  "IsSpace r \<longleftrightarrow> (9 \<le> r \<and> r \<le> 13) \<or> r \<in> {32, 133, 160, 5760, 8232, 8233, 8239, 8287, 12288}
     \<or> (8192 \<le> r \<and> r \<le> 8202)"

definition IsControl :: "nat \<Rightarrow> bool" where
  "IsControl r \<longleftrightarrow> r < 32 \<or> (127 \<le> r \<and> r < 160)"

text \<open>
  \<open>strings.TrimSpace\<close> on a valid string drops the white-space runes at both ends. On an invalid one
  it drops valid runes only, so the result is invalid as well; callers refuse it.
\<close>

definition trim_runes :: "(nat \<times> string) list \<Rightarrow> (nat \<times> string) list" where
  "trim_runes rs = rev (dropWhile (IsSpace \<circ> fst) (rev (dropWhile (IsSpace \<circ> fst) rs)))"

definition rune_bytes :: "(nat \<times> string) list \<Rightarrow> string" where
  "rune_bytes rs = concat (map snd rs)"

text \<open>
  \<open>strings.Fields\<close>: the maximal runs of bytes between white space. An invalid byte counts as a rune of
  its own that is not white space.
\<close>

definition first_rune :: "char \<Rightarrow> string \<Rightarrow> nat \<times> nat" where
  "first_rune c s = (case utf8_lead (of_char c) of
     None \<Rightarrow> (65533, 0)
   | Some (n, lo, hi) \<Rightarrow>
       if utf8_tail_ok n lo hi (map of_char (take n s))
       then (utf8_value (of_char c) (map of_char (take n s)), n) else (65533, 0))"

function fields_from :: "string \<Rightarrow> string \<Rightarrow> string list" where
  "fields_from word [] = (if word = [] then [] else [word])"
| "fields_from word (c # s) = (case first_rune c s of (r, n) \<Rightarrow>
     if IsSpace r then (if word = [] then [] else [word]) @ fields_from [] (drop n s)
     else fields_from (word @ c # take n s) (drop n s))"
  by pat_completeness auto
termination by (relation "measure (length \<circ> snd)") auto

definition Fields :: "string \<Rightarrow> string list" where
  "Fields s = fields_from [] s"

lemma runes_bytes: "runes s = Some rs \<Longrightarrow> rune_bytes rs = s"
  by (induction s arbitrary: rs rule: runes.induct)
    (auto simp: rune_bytes_def split: option.splits prod.splits if_splits)

lemma trim_runes_sub: "set (trim_runes rs) \<subseteq> set rs"
  unfolding trim_runes_def using set_dropWhileD by (metis set_rev subsetI)

end
