(* ===== verification/Agent_OAuth.thy ===== *)
theory Agent_OAuth
  imports Project_Store Captured Unicode_Text
begin

text \<open>
  The OAuth server for agents (\<open>internal/httpserver/agent_tokens.go\<close>, \<open>agent_authorize.go\<close>,
  \<open>agent_connections.go\<close>, \<open>agent_gateway.go\<close>): consent, the token endpoint with its single-use
  codes and rotating refresh tokens, revocation, the replicated lease around a Firebase refresh, the
  gateway's credential check, the website's list of connections and the one-time upload links.

  Each transaction is one body; a body whose closure assigns variables of its handler is a \<open>ctm\<close>. The
  handlers are functions of the results of the calls they make: transactions, the identity verifier,
  the Firebase endpoint, encryption and random strings. \<open>auth\<close> is the server's configuration at one
  call: its clock, its resource name, and SHA-256 in hex (\<open>agentHash\<close>) and in base64 (PKCE).
\<close>

section \<open>Configuration, requests and replies\<close>

record auth =
  aa_now :: time
  aa_Resource :: string
  aa_agentHash :: "string \<Rightarrow> string"
  aa_challenge :: "string \<Rightarrow> string"

datatype agent_reply =
    AgentError int string
  | AgentEmpty int
  | AgentTokens string string "string list"
  | AgentRedirect string string
  | AgentUpload string time
  | AgentResult project

definition agentChallenge :: "string \<Rightarrow> bool" where
  "agentChallenge s \<longleftrightarrow> base64url32 s"

definition agentGrantLive :: "agent_grant \<Rightarrow> time \<Rightarrow> bool" where
  "agentGrantLive g now \<longleftrightarrow> \<not> ag_Revoked g \<and> now < ag_ExpiresAt g \<and> now < ag_IdleUntil g"

definition agentHasScope :: "agent_grant \<Rightarrow> string \<Rightarrow> bool" where
  "agentHasScope g required \<longleftrightarrow> required \<in> set (ag_Scopes g)"

text \<open>The supported scopes among the words of the parameter, in the server's order.\<close>

definition agentScopes :: "string \<Rightarrow> string list option" where
  "agentScopes s =
     (if s = [] then Some [''orbit'', ''drop'']
      else if list_ex (\<lambda>w. w \<noteq> ''orbit'' \<and> w \<noteq> ''drop'') (Fields s) then None
      else let out = filter (\<lambda>w. w \<in> set (Fields s)) [''orbit'', ''drop''] in
        if out = [] then None else Some out)"

definition agentSingleValues :: "(string \<times> string list) list \<Rightarrow> bool" where
  "agentSingleValues v \<longleftrightarrow> list_all (\<lambda>(_, values). length values = 1) v"

text \<open>The value of the consent cookie: it must be sent exactly once.\<close>

definition agentBrowserCookie :: "(string \<times> string) list \<Rightarrow> string" where
  "agentBrowserCookie cookies =
     (let values = map snd (filter (\<lambda>(n, _). n = ''__Host-drop-agent'') cookies) in
      if length values \<noteq> 1 \<or> \<not> agentChallenge (last values) then [] else last values)"

section \<open>Captured records\<close>

definition zero_credential :: agent_credential where
  "zero_credential = \<lparr>cr_Kind = [], cr_GrantID = [], cr_ClientID = [], cr_RedirectURI = [],
     cr_Challenge = [], cr_ExpiresAt = 0, cr_RetainUntil = 0, cr_Used = False\<rparr>"

definition zero_grant :: agent_grant where
  "zero_grant = \<lparr>ag_ID = [], ag_UID = [], ag_Email = [], ag_Provider = [], ag_ClientID = [],
     ag_Name = [], ag_Domain = [], ag_Resource = [], ag_Scopes = [], ag_CreatedAt = 0,
     ag_LastUsedAt = 0, ag_ExpiresAt = 0, ag_IdleUntil = 0, ag_FirebaseRefresh = [],
     ag_Revoked = False, ag_Lease = [], ag_LeaseUntil = 0\<rparr>"

definition zero_client :: agent_client where
  "zero_client = \<lparr>ac_ID = [], ac_RedirectURIs = [], ac_Name = [], ac_URI = [], ac_Logo = [],
     ac_AuthMethod = [], ac_ResponseTypes = [], ac_GrantTypes = [], ac_IssuedAt = 0,
     ac_ExpiresAt = 0, ac_Domain = []\<rparr>"

definition zero_pending :: agent_pending where
  "zero_pending = \<lparr>ap_Client = zero_client, ap_RedirectURI = [], ap_Challenge = [], ap_State = [],
     ap_Resource = [], ap_Scopes = [], ap_CookieHash = [], ap_CSRFHash = [], ap_ExpiresAt = 0,
     ap_Used = False\<rparr>"

definition zero_ticket :: agent_upload_ticket where
  "zero_ticket = \<lparr>ut_UID = [], ut_Name = [], ut_ProjectID = [], ut_Lease = [], ut_LeaseUntil = 0,
     ut_Revision = 0, ut_Password = [], ut_ExpiresAt = 0, ut_Result = None\<rparr>"

text \<open>Decoding a stored record over a captured variable, field by field.\<close>

definition merge_credential :: "agent_credential \<Rightarrow> agent_credential \<Rightarrow> agent_credential" where
  "merge_credential new old = \<lparr>cr_Kind = gob_field [] (cr_Kind old) (cr_Kind new),
     cr_GrantID = gob_field [] (cr_GrantID old) (cr_GrantID new),
     cr_ClientID = gob_field [] (cr_ClientID old) (cr_ClientID new),
     cr_RedirectURI = gob_field [] (cr_RedirectURI old) (cr_RedirectURI new),
     cr_Challenge = gob_field [] (cr_Challenge old) (cr_Challenge new),
     cr_ExpiresAt = gob_field 0 (cr_ExpiresAt old) (cr_ExpiresAt new),
     cr_RetainUntil = gob_field 0 (cr_RetainUntil old) (cr_RetainUntil new),
     cr_Used = gob_field False (cr_Used old) (cr_Used new)\<rparr>"

definition merge_grant :: "agent_grant \<Rightarrow> agent_grant \<Rightarrow> agent_grant" where
  "merge_grant new old = \<lparr>ag_ID = gob_field [] (ag_ID old) (ag_ID new),
     ag_UID = gob_field [] (ag_UID old) (ag_UID new),
     ag_Email = gob_field [] (ag_Email old) (ag_Email new),
     ag_Provider = gob_field [] (ag_Provider old) (ag_Provider new),
     ag_ClientID = gob_field [] (ag_ClientID old) (ag_ClientID new),
     ag_Name = gob_field [] (ag_Name old) (ag_Name new),
     ag_Domain = gob_field [] (ag_Domain old) (ag_Domain new),
     ag_Resource = gob_field [] (ag_Resource old) (ag_Resource new),
     ag_Scopes = gob_field [] (ag_Scopes old) (ag_Scopes new),
     ag_CreatedAt = gob_field 0 (ag_CreatedAt old) (ag_CreatedAt new),
     ag_LastUsedAt = gob_field 0 (ag_LastUsedAt old) (ag_LastUsedAt new),
     ag_ExpiresAt = gob_field 0 (ag_ExpiresAt old) (ag_ExpiresAt new),
     ag_IdleUntil = gob_field 0 (ag_IdleUntil old) (ag_IdleUntil new),
     ag_FirebaseRefresh = gob_field [] (ag_FirebaseRefresh old) (ag_FirebaseRefresh new),
     ag_Revoked = gob_field False (ag_Revoked old) (ag_Revoked new),
     ag_Lease = gob_field [] (ag_Lease old) (ag_Lease new),
     ag_LeaseUntil = gob_field 0 (ag_LeaseUntil old) (ag_LeaseUntil new)\<rparr>"

definition merge_client :: "agent_client \<Rightarrow> agent_client \<Rightarrow> agent_client" where
  "merge_client new old = \<lparr>ac_ID = gob_field [] (ac_ID old) (ac_ID new),
     ac_RedirectURIs = gob_field [] (ac_RedirectURIs old) (ac_RedirectURIs new),
     ac_Name = gob_field [] (ac_Name old) (ac_Name new), ac_URI = gob_field [] (ac_URI old) (ac_URI new),
     ac_Logo = gob_field [] (ac_Logo old) (ac_Logo new),
     ac_AuthMethod = gob_field [] (ac_AuthMethod old) (ac_AuthMethod new),
     ac_ResponseTypes = gob_field [] (ac_ResponseTypes old) (ac_ResponseTypes new),
     ac_GrantTypes = gob_field [] (ac_GrantTypes old) (ac_GrantTypes new),
     ac_IssuedAt = gob_field 0 (ac_IssuedAt old) (ac_IssuedAt new),
     ac_ExpiresAt = gob_field 0 (ac_ExpiresAt old) (ac_ExpiresAt new),
     ac_Domain = gob_field [] (ac_Domain old) (ac_Domain new)\<rparr>"

definition merge_pending :: "agent_pending \<Rightarrow> agent_pending \<Rightarrow> agent_pending" where
  "merge_pending new old = \<lparr>ap_Client = merge_client (ap_Client new) (ap_Client old),
     ap_RedirectURI = gob_field [] (ap_RedirectURI old) (ap_RedirectURI new),
     ap_Challenge = gob_field [] (ap_Challenge old) (ap_Challenge new),
     ap_State = gob_field [] (ap_State old) (ap_State new),
     ap_Resource = gob_field [] (ap_Resource old) (ap_Resource new),
     ap_Scopes = gob_field [] (ap_Scopes old) (ap_Scopes new),
     ap_CookieHash = gob_field [] (ap_CookieHash old) (ap_CookieHash new),
     ap_CSRFHash = gob_field [] (ap_CSRFHash old) (ap_CSRFHash new),
     ap_ExpiresAt = gob_field 0 (ap_ExpiresAt old) (ap_ExpiresAt new),
     ap_Used = gob_field False (ap_Used old) (ap_Used new)\<rparr>"


definition merge_project :: "project \<Rightarrow> project \<Rightarrow> project" where
  "merge_project new old = \<lparr>p_ID = gob_field [] (p_ID old) (p_ID new),
     p_StorageApp = gob_field [] (p_StorageApp old) (p_StorageApp new),
     p_StorageGeneration = gob_field [] (p_StorageGeneration old) (p_StorageGeneration new),
     p_Owner = \<lparr>o_Kind = gob_field [] (o_Kind (p_Owner old)) (o_Kind (p_Owner new)),
       o_ID = gob_field [] (o_ID (p_Owner old)) (o_ID (p_Owner new))\<rparr>,
     p_OwnerKey = gob_field [] (p_OwnerKey old) (p_OwnerKey new),
     p_Slug = gob_field [] (p_Slug old) (p_Slug new),
     p_InitialSlug = gob_field [] (p_InitialSlug old) (p_InitialSlug new),
     p_AliasCount = gob_field 0 (p_AliasCount old) (p_AliasCount new),
     p_InitialSuffix = gob_field [] (p_InitialSuffix old) (p_InitialSuffix new),
     p_ActiveDigest = gob_field [] (p_ActiveDigest old) (p_ActiveDigest new),
     p_ActiveBytes = gob_field 0 (p_ActiveBytes old) (p_ActiveBytes new),
     p_ChargedBytes = gob_field 0 (p_ChargedBytes old) (p_ChargedBytes new),
     p_Revision = gob_field 0 (p_Revision old) (p_Revision new),
     p_PolicyRevision = gob_field 0 (p_PolicyRevision old) (p_PolicyRevision new),
     p_WatermarkDisabled = gob_field False (p_WatermarkDisabled old) (p_WatermarkDisabled new),
     p_Private = gob_field False (p_Private old) (p_Private new),
     p_PasswordDigest = gob_field [] (p_PasswordDigest old) (p_PasswordDigest new),
     p_PasswordRevision = gob_field 0 (p_PasswordRevision old) (p_PasswordRevision new),
     p_Status = gob_field [] (p_Status old) (p_Status new),
     p_PendingOperation = gob_field [] (p_PendingOperation old) (p_PendingOperation new),
     p_CreatedAt = gob_field 0 (p_CreatedAt old) (p_CreatedAt new),
     p_UpdatedAt = gob_field 0 (p_UpdatedAt old) (p_UpdatedAt new),
     p_ExpiresAt = gob_field None (p_ExpiresAt old) (p_ExpiresAt new)\<rparr>"

definition merge_ticket :: "agent_upload_ticket \<Rightarrow> agent_upload_ticket \<Rightarrow> agent_upload_ticket" where
  "merge_ticket new old = \<lparr>ut_UID = gob_field [] (ut_UID old) (ut_UID new),
     ut_Name = gob_field [] (ut_Name old) (ut_Name new),
     ut_ProjectID = gob_field [] (ut_ProjectID old) (ut_ProjectID new),
     ut_Lease = gob_field [] (ut_Lease old) (ut_Lease new),
     ut_LeaseUntil = gob_field 0 (ut_LeaseUntil old) (ut_LeaseUntil new),
     ut_Revision = gob_field 0 (ut_Revision old) (ut_Revision new),
     ut_Password = gob_field [] (ut_Password old) (ut_Password new),
     ut_ExpiresAt = gob_field 0 (ut_ExpiresAt old) (ut_ExpiresAt new),
     ut_Result = (case ut_Result new of
        None \<Rightarrow> ut_Result old
      | Some p \<Rightarrow> Some (merge_project p (case ut_Result old of None \<Rightarrow> zero_project | Some q \<Rightarrow> q)))\<rparr>"

section \<open>The token endpoint\<close>

record token_form =
  tf_authorization :: string
  tf_client_id :: string
  tf_client_secret :: string
  tf_resource :: string
  tf_grant_type :: string
  tf_code :: string
  tf_refresh_token :: string
  tf_code_verifier :: string
  tf_redirect_uri :: string

text \<open>The checks before the first transaction: the kind of credential and the secret presented.\<close>

definition token_request :: "auth \<Rightarrow> token_form \<Rightarrow> agent_reply + string \<times> string" where
  "token_request a f =
     (if tf_authorization f \<noteq> [] \<or> tf_client_secret f \<noteq> [] then Inl (AgentError 401 ''invalid_client'')
      else if tf_client_id f = [] then Inl (AgentError 400 ''invalid_request'')
      else if tf_resource f \<noteq> [] \<and> tf_resource f \<noteq> aa_Resource a then Inl (AgentError 400 ''invalid_target'')
      else if tf_grant_type f \<noteq> ''authorization_code'' \<and> tf_grant_type f \<noteq> ''refresh_token''
        then Inl (AgentError 400 ''unsupported_grant_type'')
      else let (kind, secret) = (if tf_grant_type f = ''authorization_code'' then (''code'', tf_code f)
             else (''refresh'', tf_refresh_token f))
        in if \<not> agentChallenge secret then Inl (AgentError 400 ''invalid_grant'') else Inr (kind, secret))"

definition verifier_char :: "char \<Rightarrow> bool" where
  "verifier_char c \<longleftrightarrow> is_alnum c \<or> c \<in> {CHR ''-'', CHR ''.'', CHR ''_'', CHR ''~''}"

definition pkce_ok :: "auth \<Rightarrow> token_form \<Rightarrow> agent_credential \<Rightarrow> bool" where
  "pkce_ok a f c \<longleftrightarrow> (let verifier = tf_code_verifier f in
     \<not> (length verifier < 43 \<or> length verifier > 128 \<or> list_ex (\<lambda>x. \<not> verifier_char x) verifier)
     \<and> cr_RedirectURI c = tf_redirect_uri f \<and> aa_challenge a verifier = cr_Challenge c)"

abbreviation grant_key :: "string \<Rightarrow> string" where
  "grant_key i \<equiv> raftRef ''agent_grants'' i"

abbreviation credential_key :: "string \<Rightarrow> string" where
  "credential_key i \<equiv> raftRef ''agent_credentials'' i"

definition revoked :: "agent_grant \<Rightarrow> agent_grant" where
  "revoked g = g\<lparr>ag_Revoked := True, ag_FirebaseRefresh := []\<rparr>"

text \<open>
  The first transaction of \<open>token\<close>. It returns whether the request is refused (\<open>invalid\<close>): a refusal
  must still commit the revocation of the grant whose credential is replayed. The captured variables
  are \<open>credential\<close> and \<open>grant\<close>.
\<close>

definition redeem ::
  "auth \<Rightarrow> ('v, doc) codec \<Rightarrow> token_form \<Rightarrow> string \<Rightarrow> string \<Rightarrow> ('v, agent_credential \<times> agent_grant, bool) ctm" where
  "redeem a cd f kind secret = (let key = credential_key (aa_agentHash a secret) in
     c_bind (c_lift (tx_optional (Get cd asAgentCredential key))) (\<lambda>found. case found of
       None \<Rightarrow> c_return True
     | Some saved \<Rightarrow>
       c_bind (c_modify (\<lambda>(c, g). (merge_credential saved c, g))) (\<lambda>_. c_bind c_get (\<lambda>(c, _).
       if cr_Kind c \<noteq> kind \<or> cr_ClientID c \<noteq> tf_client_id f then c_return True
       else
       c_bind (c_Get cd asAgentGrant (\<lambda>x (c, g). (c, merge_grant x g)) (grant_key (cr_GrantID c))) (\<lambda>_.
       c_bind c_get (\<lambda>(c, g).
       if cr_Used c then
         c_bind (c_modify (\<lambda>(c, g). (c, revoked g))) (\<lambda>_.
         c_bind (c_lift (Set cd (grant_key (ag_ID g)) (DAgentGrant (revoked g)))) (\<lambda>_. c_return True))
       else if \<not> aa_now a < cr_ExpiresAt c \<or> \<not> agentGrantLive g (aa_now a) \<or> ag_Resource g \<noteq> aa_Resource a
         then c_return True
       else if kind = ''code'' \<and> \<not> pkce_ok a f c then c_return True
       else
         c_bind (c_modify (\<lambda>(c, g). (c\<lparr>cr_Used := True\<rparr>, g))) (\<lambda>_.
         c_bind (c_lift (Set cd key (DAgentCredential (c\<lparr>cr_Used := True\<rparr>)))) (\<lambda>_. c_return False))))))))"

text \<open>
  The second transaction, with the captured \<open>grant\<close>: it extends the idle limit and stores the digests of
  a fresh access token and a fresh refresh token.
\<close>

definition access_credential :: "agent_grant \<Rightarrow> time \<Rightarrow> agent_credential" where
  "access_credential g now = zero_credential\<lparr>cr_Kind := ''access'', cr_GrantID := ag_ID g,
     cr_ClientID := ag_ClientID g, cr_ExpiresAt := now + hour, cr_RetainUntil := ag_ExpiresAt g + day\<rparr>"

definition refresh_credential :: "agent_grant \<Rightarrow> agent_credential" where
  "refresh_credential g = zero_credential\<lparr>cr_Kind := ''refresh'', cr_GrantID := ag_ID g,
     cr_ClientID := ag_ClientID g, cr_ExpiresAt := ag_ExpiresAt g, cr_RetainUntil := ag_ExpiresAt g + day\<rparr>"

definition extended :: "agent_grant \<Rightarrow> time \<Rightarrow> agent_grant" where
  "extended g now = (let idle = now + 30 * day in
     g\<lparr>ag_IdleUntil := (if idle > ag_ExpiresAt g then ag_ExpiresAt g else idle)\<rparr>)"

definition issue :: "auth \<Rightarrow> ('v, doc) codec \<Rightarrow> string \<Rightarrow> string \<Rightarrow> ('v, agent_grant, unit) ctm" where
  "issue a cd access refresh =
     c_bind c_get (\<lambda>g0.
     c_bind (c_Get cd asAgentGrant merge_grant (grant_key (ag_ID g0))) (\<lambda>_.
     c_bind c_get (\<lambda>g.
     if \<not> agentGrantLive g (aa_now a) then c_throw ErrAgentInvalid
     else
       c_bind (c_modify (\<lambda>g. extended g (aa_now a))) (\<lambda>_.
       c_bind (c_lift (Set cd (grant_key (ag_ID g)) (DAgentGrant (extended g (aa_now a))))) (\<lambda>_.
       c_bind (c_lift (Create cd (credential_key (aa_agentHash a access))
         (DAgentCredential (access_credential (extended g (aa_now a)) (aa_now a))))) (\<lambda>_.
       c_lift (Create cd (credential_key (aa_agentHash a refresh))
         (DAgentCredential (refresh_credential (extended g (aa_now a)))))))))))"

text \<open>
  The handler, given what its calls return: the first transaction, \<open>firebaseFor\<close> (its error, if any)
  and the second transaction with fresh secrets. The second component is the grant the handler
  revokes because a Firebase call ended indeterminately.
\<close>

record token_calls =
  tk_redeem :: "string \<Rightarrow> string \<Rightarrow> err + bool \<times> agent_credential \<times> agent_grant"
  tk_firebase :: "string \<Rightarrow> err option"
  tk_issue :: "agent_grant \<Rightarrow> string \<Rightarrow> string \<Rightarrow> err + agent_grant"
  tk_random :: "string \<times> string"

definition token :: "auth \<Rightarrow> token_calls \<Rightarrow> token_form \<Rightarrow> agent_reply \<times> string option" where
  "token a calls f = (case token_request a f of
     Inl reply \<Rightarrow> (reply, None)
   | Inr (kind, secret) \<Rightarrow> (case tk_redeem calls kind secret of
       Inl e \<Rightarrow> (AgentError 503 ''temporarily_unavailable'', None)
     | Inr (invalid, credential, grant) \<Rightarrow>
         if invalid then (AgentError 400 ''invalid_grant'', None)
         else case (if kind = ''refresh'' then tk_firebase calls (ag_ID grant) else None) of
           Some e \<Rightarrow> if e = ErrAgentInvalid \<or> e = ErrFirebaseRefused then (AgentError 400 ''invalid_grant'', None)
             else (AgentError 503 ''temporarily_unavailable'', Some (ag_ID grant))
         | None \<Rightarrow> (case tk_random calls of (access, refresh) \<Rightarrow>
             (case tk_issue calls grant access refresh of
                Inl e \<Rightarrow> (AgentError 400 ''invalid_grant'', None)
              | Inr g \<Rightarrow> (AgentTokens access refresh (ag_Scopes g), None)))))"

section \<open>Revocation\<close>

definition revokeGrant :: "('v, doc) codec \<Rightarrow> string \<Rightarrow> ('v, unit) txm" where
  "revokeGrant cd i =
     tx_bind (Get cd asAgentGrant (grant_key i)) (\<lambda>g.
     Set cd (grant_key i) (DAgentGrant (revoked g)))"

text \<open>\<open>revoke\<close>: unknown tokens and tokens of another client have the same empty reply.\<close>

definition revoke_token :: "auth \<Rightarrow> ('v, doc) codec \<Rightarrow> string \<Rightarrow> string \<Rightarrow> ('v, unit) txm" where
  "revoke_token a cd tok client =
     tx_bind (tx_optional (Get cd asAgentCredential (credential_key (aa_agentHash a tok)))) (\<lambda>found. case found of
       None \<Rightarrow> tx_return ()
     | Some c \<Rightarrow>
         if cr_Kind c \<noteq> ''access'' \<and> cr_Kind c \<noteq> ''refresh'' then tx_return ()
         else if client \<noteq> [] \<and> client \<noteq> cr_ClientID c then tx_return ()
         else tx_bind (Get cd asAgentGrant (grant_key (cr_GrantID c))) (\<lambda>g.
           Set cd (grant_key (ag_ID g)) (DAgentGrant (revoked g))))"

definition revoke :: "string \<Rightarrow> string \<Rightarrow> err option \<Rightarrow> agent_reply" where
  "revoke tok authorization result =
     (if tok = [] then AgentError 400 ''invalid_request''
      else if authorization \<noteq> [] then AgentError 401 ''invalid_client''
      else case result of Some e \<Rightarrow> AgentError 503 ''temporarily_unavailable'' | None \<Rightarrow> AgentEmpty 200)"

definition deleteGrant_tx :: "('v, doc) codec \<Rightarrow> string \<Rightarrow> string \<Rightarrow> ('v, unit) txm" where
  "deleteGrant_tx cd uid i =
     tx_bind (Get cd asAgentGrant (grant_key i)) (\<lambda>g.
     tx_bind (tx_guard (ag_UID g \<noteq> uid) ErrNotFound) (\<lambda>_.
     Set cd (grant_key i) (DAgentGrant (revoked g))))"



section \<open>Firebase sessions\<close>

record agent_session =
  fs_IDToken :: string
  fs_RefreshToken :: string
  fs_UID :: string
  fs_ExpiresAt :: time

text \<open>
  The cache of sessions of one instance. Revoking or deleting a grant drops its entry: \<open>revokeGrant\<close>
  whatever its transaction returned (\<open>result\<close>), \<open>deleteGrant\<close> once it has succeeded.
\<close>

type_synonym session_cache = "(string, agent_session) fmap"

definition revokeGrant_cached :: "string \<Rightarrow> err option \<Rightarrow> session_cache \<Rightarrow> err option \<times> session_cache" where
  "revokeGrant_cached i result cache = (result, fmdrop i cache)"

definition deleteGrant ::
  "err + string \<Rightarrow> string \<Rightarrow> (string \<Rightarrow> err option) \<Rightarrow> session_cache \<Rightarrow> agent_reply \<times> session_cache" where
  "deleteGrant identity i transact cache = (case identity of
     Inl e \<Rightarrow> (AgentError 401 ''invalid_token'', cache)
   | Inr uid \<Rightarrow>
       if \<not> agentChallenge i then (AgentError 404 ''not_found'', cache)
       else case transact uid of
         None \<Rightarrow> (AgentEmpty 204, fmdrop i cache)
       | Some e \<Rightarrow> (if e = ErrNotFound \<or> e = MetadataErrNotFound then AgentError 404 ''not_found''
           else AgentError 503 ''temporarily_unavailable'', cache))"

text \<open>The answer of the token endpoint: none, or a status and, where the body was read within its
  bound and is JSON, its fields (\<open>expires_in\<close> as the integer it spells, if it spells one).\<close>

datatype firebase_reply =
    Unreachable
  | Answer int "(string \<times> string \<times> string \<times> int option) option"

definition exchangeFirebase :: "time \<Rightarrow> string \<Rightarrow> string \<Rightarrow> firebase_reply \<Rightarrow> err + agent_session" where
  "exchangeFirebase now refresh uid reply = (case reply of
     Unreachable \<Rightarrow> Inl (ErrOther ''Firebase refresh unavailable'')
   | Answer status body \<Rightarrow>
       if status = 400 \<or> status = 401 \<or> status = 403 then Inl ErrFirebaseRefused
       else if status \<noteq> 200 then Inl (ErrOther ''Firebase refresh unavailable'')
       else case body of
         None \<Rightarrow> Inl ErrFirebaseRefused
       | Some (idToken, refreshToken, user, expiresIn) \<Rightarrow>
           if user \<noteq> uid \<or> idToken = [] then Inl ErrFirebaseRefused
           else case expiresIn of
             None \<Rightarrow> Inl ErrFirebaseRefused
           | Some expires \<Rightarrow>
               if expires \<le> 0 \<or> expires > 3660 then Inl ErrFirebaseRefused
               else Inr \<lparr>fs_IDToken = idToken,
                 fs_RefreshToken = (if refreshToken = [] then refresh else refreshToken),
                 fs_UID = user, fs_ExpiresAt = now + expires * second\<rparr>)"

text \<open>Dropping every expired entry of a full cache, and all of it if that frees nothing.\<close>

definition cacheSession ::
  "time \<Rightarrow> string \<Rightarrow> agent_session \<Rightarrow> session_cache \<Rightarrow> session_cache" where
  "cacheSession now i session cache =
     (let cache = (if fcard (fmdom cache) \<ge> 1024 then
            let kept = fmfilter (\<lambda>k. case fmlookup cache k of None \<Rightarrow> False | Some v \<Rightarrow> now < fs_ExpiresAt v) cache
            in if fcard (fmdom kept) \<ge> 1024 then fmempty else kept
          else cache)
      in fmupd i (session\<lparr>fs_RefreshToken := []\<rparr>) cache)"

definition cached_fresh :: "agent_session option \<Rightarrow> time \<Rightarrow> bool" where
  "cached_fresh cached now \<longleftrightarrow> (case cached of None \<Rightarrow> False | Some s \<Rightarrow> now < fs_ExpiresAt s - 5 * minute)"

datatype lease_result = LeaseInvalid | LeaseWaiting | LeaseAcquired

text \<open>The transaction of \<open>firebaseFor\<close> that takes the lease; the captured variable is \<open>grant\<close>.\<close>

definition acquire ::
  "auth \<Rightarrow> ('v, doc) codec \<Rightarrow> string \<Rightarrow> bool \<Rightarrow> string \<Rightarrow> agent_session option \<Rightarrow> ('v, agent_grant, lease_result) ctm" where
  "acquire a cd i force lease cached =
     c_bind (c_Get cd asAgentGrant merge_grant (grant_key i)) (\<lambda>_.
     c_bind c_get (\<lambda>g.
     if \<not> agentGrantLive g (aa_now a) then c_return LeaseInvalid
     else if ag_Lease g \<noteq> [] \<and> aa_now a < ag_LeaseUntil g then c_return LeaseWaiting
     else if \<not> force \<and> cached_fresh cached (aa_now a) then c_return LeaseWaiting
     else let g' = g\<lparr>ag_Lease := lease, ag_LeaseUntil := aa_now a + 15 * second\<rparr> in
       c_bind (c_modify (\<lambda>_. g')) (\<lambda>_.
       c_bind (c_lift (Set cd (grant_key i) (DAgentGrant g'))) (\<lambda>_.
       c_return LeaseAcquired))))"

text \<open>
  The waiting loop: each poll has its clock, the outcome of the transaction, the cached session and
  whether the caller's context ended during the pause. \<open>None\<close>: the polls given were not enough.
\<close>

record poll =
  po_now :: time
  po_result :: "err + lease_result"
  po_cached :: "agent_session option"
  po_done :: "err option"

fun firebase_wait :: "time \<Rightarrow> bool \<Rightarrow> poll list \<Rightarrow> (err + agent_session option) option" where
  "firebase_wait deadline force [] = None"
| "firebase_wait deadline force (p # polls) = (case po_result p of
     Inl e \<Rightarrow> Some (Inl e)
   | Inr LeaseInvalid \<Rightarrow> Some (Inl ErrAgentInvalid)
   | Inr LeaseAcquired \<Rightarrow> Some (Inr None)
   | Inr LeaseWaiting \<Rightarrow>
       if \<not> force \<and> cached_fresh (po_cached p) (po_now p) then Some (Inr (po_cached p))
       else if \<not> po_now p < deadline then Some (Inl (ErrOther ''Firebase refresh busy''))
       else case po_done p of
         Some e \<Rightarrow> Some (Inl e)
       | None \<Rightarrow> firebase_wait deadline force polls)"

text \<open>The transaction that ends the lease with the outcome of the refresh.\<close>

definition release ::
  "auth \<Rightarrow> ('v, doc) codec \<Rightarrow> string \<Rightarrow> string \<Rightarrow> bool \<Rightarrow> string option \<Rightarrow> ('v, unit) txm" where
  "release a cd i lease refused encrypted =
     tx_bind (Get cd asAgentGrant (grant_key i)) (\<lambda>current.
     tx_bind (tx_guard (ag_Lease current \<noteq> lease \<or> \<not> agentGrantLive current (aa_now a)) ErrAgentInvalid) (\<lambda>_.
     let current = current\<lparr>ag_Lease := [], ag_LeaseUntil := 0\<rparr>;
         current = (if refused then revoked current
           else case encrypted of None \<Rightarrow> current | Some x \<Rightarrow> current\<lparr>ag_FirebaseRefresh := x\<rparr>)
     in Set cd (grant_key i) (DAgentGrant current)))"

text \<open>
  \<open>firebaseFor\<close> once the lease is held: decrypt the refresh token (failing that, revoke the grant),
  exchange it, encrypt the new one, and commit the release. The result comes with the grant to revoke,
  if any.
\<close>

definition firebase_refresh ::
  "string \<Rightarrow> err + string \<Rightarrow> (string \<Rightarrow> err + agent_session) \<Rightarrow> (string \<Rightarrow> err + string)
    \<Rightarrow> (bool \<Rightarrow> string option \<Rightarrow> err option) \<Rightarrow> (err + agent_session) \<times> string option" where
  "firebase_refresh i decrypted exchange encrypt commit = (case decrypted of
     Inl e \<Rightarrow> (Inl ErrAgentInvalid, Some i)
   | Inr refresh \<Rightarrow>
       let renewed = (case exchange refresh of
             Inl e \<Rightarrow> Inl e
           | Inr s \<Rightarrow> (case encrypt (fs_RefreshToken s) of Inl e \<Rightarrow> Inl e | Inr x \<Rightarrow> Inr (s, x)))
       in (case commit (renewed = Inl ErrFirebaseRefused) (case renewed of Inl e \<Rightarrow> None | Inr (s, x) \<Rightarrow> Some x) of
             Some e \<Rightarrow> Inl e
           | None \<Rightarrow> (case renewed of Inl e \<Rightarrow> Inl e | Inr (s, x) \<Rightarrow> Inr s), None))"

section \<open>Authorization and consent\<close>

record authorize_query =
  aq_client_id :: string
  aq_redirect_uri :: string
  aq_state :: string
  aq_response_type :: string
  aq_code_challenge :: string
  aq_code_challenge_method :: string
  aq_scope :: string
  aq_resource :: string

text \<open>
  \<open>authorize\<close> up to the rate limit: refused with an error page, sent back to the client with an error
  code, or accepted as a pending consent. \<open>matches registered candidate\<close> is \<open>agentRedirectMatches\<close>.
\<close>

definition authorize_request ::
  "auth \<Rightarrow> (string \<Rightarrow> string \<Rightarrow> bool) \<Rightarrow> err + agent_client \<Rightarrow> authorize_query \<Rightarrow> agent_reply + agent_pending" where
  "authorize_request a matches client q = (case client of
     Inl e \<Rightarrow> Inl (AgentError 400 ''Unknown or expired client.'')
   | Inr c \<Rightarrow>
       if \<not> list_ex (\<lambda>uri. matches uri (aq_redirect_uri q)) (ac_RedirectURIs c)
       then Inl (AgentError 400 ''The redirect URI is not registered for this client.'')
       else if aq_response_type q \<noteq> ''code'' then Inl (AgentRedirect [] ''unsupported_response_type'')
       else if aq_state q = [] \<or> length (aq_state q) > 2048 \<or> aq_code_challenge_method q \<noteq> ''S256''
           \<or> \<not> agentChallenge (aq_code_challenge q) then Inl (AgentRedirect [] ''invalid_request'')
       else case agentScopes (aq_scope q) of
         None \<Rightarrow> Inl (AgentRedirect [] ''invalid_scope'')
       | Some scopes \<Rightarrow>
           if aq_resource q \<noteq> [] \<and> aq_resource q \<noteq> aa_Resource a then Inl (AgentRedirect [] ''invalid_target'')
           else Inr (zero_pending\<lparr>ap_Client := c, ap_RedirectURI := aq_redirect_uri q, ap_State := aq_state q,
             ap_Resource := aa_Resource a, ap_Scopes := scopes, ap_Challenge := aq_code_challenge q\<rparr>))"

abbreviation pending_key :: "string \<Rightarrow> string" where
  "pending_key i \<equiv> raftRef ''agent_pending'' i"

text \<open>The rest of \<open>authorize\<close>: bind the pending consent to the browser and store it.\<close>

definition bound_pending :: "auth \<Rightarrow> string \<Rightarrow> string \<Rightarrow> agent_pending \<Rightarrow> agent_pending" where
  "bound_pending a cookie csrf p = p\<lparr>ap_CookieHash := aa_agentHash a cookie,
     ap_CSRFHash := aa_agentHash a csrf, ap_ExpiresAt := aa_now a + 10 * minute\<rparr>"

definition authorize_tx :: "auth \<Rightarrow> ('v, doc) codec \<Rightarrow> string \<Rightarrow> agent_pending \<Rightarrow> ('v, unit) txm" where
  "authorize_tx a cd handle p = Create cd (pending_key (aa_agentHash a handle)) (DAgentPending p)"

record consent_input =
  ci_Handle :: string
  ci_CSRF :: string
  ci_Action :: string
  ci_Cookie :: string

definition consent_check :: "auth \<Rightarrow> consent_input \<Rightarrow> agent_pending \<Rightarrow> bool" where
  "consent_check a inp p \<longleftrightarrow> \<not> ap_Used p \<and> aa_now a < ap_ExpiresAt p
     \<and> ap_CookieHash p = aa_agentHash a (ci_Cookie inp) \<and> ap_CSRFHash p = aa_agentHash a (ci_CSRF inp)
     \<and> ci_Cookie inp \<noteq> []"

text \<open>The start of the three consent transactions; the captured variable is \<open>p\<close>.\<close>

definition consent_look :: "auth \<Rightarrow> ('v, doc) codec \<Rightarrow> consent_input \<Rightarrow> ('v, agent_pending, unit) ctm" where
  "consent_look a cd inp =
     c_bind (c_Get cd asAgentPending merge_pending (pending_key (aa_agentHash a (ci_Handle inp)))) (\<lambda>_.
     c_bind c_get (\<lambda>p.
     if \<not> consent_check a inp p then c_throw ErrForbidden else c_return ()))"

definition consent_use :: "auth \<Rightarrow> ('v, doc) codec \<Rightarrow> consent_input \<Rightarrow> ('v, agent_pending, unit) ctm" where
  "consent_use a cd inp =
     c_bind (c_modify (\<lambda>p. p\<lparr>ap_Used := True\<rparr>)) (\<lambda>_.
     c_bind c_get (\<lambda>p.
     c_lift (Set cd (pending_key (aa_agentHash a (ci_Handle inp))) (DAgentPending p))))"

definition consent_deny :: "auth \<Rightarrow> ('v, doc) codec \<Rightarrow> consent_input \<Rightarrow> ('v, agent_pending, unit) ctm" where
  "consent_deny a cd inp = c_bind (consent_look a cd inp) (\<lambda>_. consent_use a cd inp)"

fun live_grants :: "('v, doc) codec \<Rightarrow> time \<Rightarrow> string list \<Rightarrow> ('v, string list) txm" where
  "live_grants cd now [] = tx_return []"
| "live_grants cd now (i # rest) =
     tx_bind (Get cd asAgentGrant (grant_key i)) (\<lambda>previous.
     tx_bind (live_grants cd now rest) (\<lambda>active.
     tx_return (if agentGrantLive previous now then i # active else active)))"

abbreviation owner_grants :: "string \<Rightarrow> string" where
  "owner_grants h \<equiv> raftRef ''agent_grant_owners'' h"

definition consent_allow ::
  "auth \<Rightarrow> ('v, doc) codec \<Rightarrow> consent_input \<Rightarrow> agent_grant \<Rightarrow> agent_credential \<Rightarrow> string
    \<Rightarrow> ('v, agent_pending, unit) ctm" where
  "consent_allow a cd inp g credential code = (let indexKey = owner_grants (aa_agentHash a (ag_UID g)) in
     c_bind (consent_look a cd inp) (\<lambda>_.
     c_bind (c_lift (tx_optional (Get cd asTexts indexKey))) (\<lambda>ids.
     c_bind (c_lift (live_grants cd (aa_now a) (case ids of None \<Rightarrow> [] | Some xs \<Rightarrow> xs))) (\<lambda>active.
     c_bind (c_lift (tx_guard (length active \<ge> 50) ErrQuota)) (\<lambda>_.
     c_bind (consent_use a cd inp) (\<lambda>_.
     c_bind (c_lift (Create cd (grant_key (ag_ID g)) (DAgentGrant g))) (\<lambda>_.
     c_bind (c_lift (Create cd (credential_key (aa_agentHash a code)) (DAgentCredential credential))) (\<lambda>_.
     c_lift (Set cd indexKey (DTexts (active @ [ag_ID g])))))))))))"

definition consent_grant ::
  "auth \<Rightarrow> agent_pending \<Rightarrow> string \<times> string \<times> string \<Rightarrow> string \<Rightarrow> string \<Rightarrow> agent_grant" where
  "consent_grant a p identity grantID encrypted = (case identity of (uid, email, provider) \<Rightarrow>
     zero_grant\<lparr>ag_ID := grantID, ag_UID := uid, ag_Email := email, ag_Provider := provider,
       ag_ClientID := ac_ID (ap_Client p), ag_Name := ac_Name (ap_Client p),
       ag_Domain := ac_Domain (ap_Client p), ag_Resource := ap_Resource p, ag_Scopes := ap_Scopes p,
       ag_CreatedAt := aa_now a, ag_ExpiresAt := aa_now a + 90 * day,
       ag_IdleUntil := aa_now a + 30 * day, ag_FirebaseRefresh := encrypted\<rparr>)"

definition consent_credential :: "auth \<Rightarrow> agent_pending \<Rightarrow> agent_grant \<Rightarrow> agent_credential" where
  "consent_credential a p g = zero_credential\<lparr>cr_Kind := ''code'', cr_GrantID := ag_ID g,
     cr_ClientID := ag_ClientID g, cr_RedirectURI := ap_RedirectURI p, cr_Challenge := ap_Challenge p,
     cr_ExpiresAt := aa_now a + minute, cr_RetainUntil := ag_ExpiresAt g + day\<rparr>"


text \<open>
  The handler of the consent form, given the results of its calls. The three transactions run in
  this order on the same captured \<open>p\<close>.
\<close>

record consent_calls =
  cc_look :: "agent_pending \<Rightarrow> err + agent_pending"
  cc_deny :: "agent_pending \<Rightarrow> err + agent_pending"
  cc_verify :: "err + string \<times> string \<times> string"
  cc_refreshToken :: string
  cc_exchange :: "string \<Rightarrow> err + agent_session"
  cc_random :: "string \<times> string"
  cc_encrypt :: "string \<Rightarrow> err + string"
  cc_allow :: "agent_pending \<Rightarrow> agent_grant \<Rightarrow> agent_credential \<Rightarrow> string \<Rightarrow> err + agent_pending"

definition consent :: "auth \<Rightarrow> consent_calls \<Rightarrow> consent_input \<Rightarrow> agent_reply \<times> (string \<times> agent_session) option" where
  "consent a calls inp =
     (if \<not> agentChallenge (ci_Handle inp) \<or> \<not> agentChallenge (ci_CSRF inp)
         \<or> (ci_Action inp \<noteq> ''allow'' \<and> ci_Action inp \<noteq> ''deny'')
      then (AgentError 400 ''invalid_request'', None)
      else case cc_look calls zero_pending of
        Inl e \<Rightarrow> (AgentError 403 ''invalid_request'', None)
      | Inr p \<Rightarrow>
        if ci_Action inp = ''deny'' then (case cc_deny calls p of
            Inl e \<Rightarrow> (AgentError 403 ''invalid_request'', None)
          | Inr p' \<Rightarrow> (AgentRedirect [] ''access_denied'', None))
        else case cc_verify calls of
          Inl e \<Rightarrow> (AgentError 401 ''invalid_request'', None)
        | Inr (uid, email, provider) \<Rightarrow>
          if cc_refreshToken calls = [] \<or> length (cc_refreshToken calls) > 16384
          then (AgentError 400 ''invalid_request'', None)
          else case cc_exchange calls uid of
            Inl e \<Rightarrow> (AgentError 401 ''invalid_request'', None)
          | Inr firebase \<Rightarrow> (case cc_random calls of (grantID, code) \<Rightarrow>
            (case cc_encrypt calls (fs_RefreshToken firebase) of
              Inl e \<Rightarrow> (AgentError 503 ''temporarily_unavailable'', None)
            | Inr encrypted \<Rightarrow>
              let g = consent_grant a p (uid, email, provider) grantID encrypted in
              (case cc_allow calls p g (consent_credential a p g) code of
                Inl e \<Rightarrow> (AgentError (if e = ErrQuota then 400 else 409) ''invalid_request'', None)
              | Inr p' \<Rightarrow> (AgentRedirect code [], Some (ag_ID g, firebase))))))"

section \<open>The gateway\<close>

text \<open>The credential check: whether the bearer is refused; the captured variable is \<open>grant\<close>.\<close>

definition gateway_check :: "auth \<Rightarrow> ('v, doc) codec \<Rightarrow> string \<Rightarrow> ('v, agent_grant, bool) ctm" where
  "gateway_check a cd secret =
     c_bind (c_lift (tx_optional (Get cd asAgentCredential (credential_key (aa_agentHash a secret))))) (\<lambda>found.
     case found of
       None \<Rightarrow> c_return True
     | Some c \<Rightarrow>
       if cr_Kind c \<noteq> ''access'' \<or> \<not> aa_now a < cr_ExpiresAt c then c_return True
       else
         c_bind (c_Get cd asAgentGrant merge_grant (grant_key (cr_GrantID c))) (\<lambda>_.
         c_bind c_get (\<lambda>g.
         c_return (\<not> agentGrantLive g (aa_now a) \<or> ag_Resource g \<noteq> aa_Resource a))))"

definition gateway_touch :: "auth \<Rightarrow> ('v, doc) codec \<Rightarrow> string \<Rightarrow> ('v, unit) txm" where
  "gateway_touch a cd i =
     tx_bind (Get cd asAgentGrant (grant_key i)) (\<lambda>current.
     tx_bind (tx_guard (\<not> agentGrantLive current (aa_now a)) ErrAgentInvalid) (\<lambda>_.
     if IsZero (ag_LastUsedAt current) \<or> aa_now a - ag_LastUsedAt current \<ge> minute
     then Set cd (grant_key (ag_ID current)) (DAgentGrant (current\<lparr>ag_LastUsedAt := aa_now a\<rparr>))
     else tx_return ()))"

text \<open>
  A posted JSON-RPC message as the gateway parses it: \<open>None\<close> where the body is not one JSON object
  without duplicate members. Members are looked up by their exact names; the inner option of a string
  member is \<open>None\<close> where it is not a JSON string.
\<close>

record rpc =
  rpc_version :: "string option"
  rpc_method :: "string option option"
  rpc_has_result :: bool
  rpc_has_error :: bool
  rpc_has_id :: bool
  rpc_tool :: "string option"

datatype gateway_verdict = BadMessage | ToolNameRequired | InsufficientScope string | Forward

definition required_scope :: "string \<Rightarrow> string" where
  "required_scope name = (if has_prefix name ''drop_'' then ''drop'' else ''orbit'')"

definition gateway_scope :: "agent_grant \<Rightarrow> rpc option \<Rightarrow> gateway_verdict" where
  "gateway_scope g message = (case message of
     None \<Rightarrow> BadMessage
   | Some m \<Rightarrow>
       let rpc_method' = (case rpc_method m of Some (Some s) \<Rightarrow> s | _ \<Rightarrow> []);
           methodErr = (rpc_method m \<noteq> None \<and> rpc_method' = []);
           response = (rpc_method' = [] \<and> rpc_has_id m \<and> rpc_has_result m \<noteq> rpc_has_error m)
       in if rpc_version m \<noteq> Some ''2.0'' \<or> methodErr \<or> (rpc_method' = [] \<and> \<not> response) then BadMessage
          else if rpc_method' = ''tools/call'' then
            (case rpc_tool m of
               None \<Rightarrow> ToolNameRequired
             | Some name \<Rightarrow>
                 if name = [] then ToolNameRequired
                 else if \<not> agentHasScope g (required_scope name) then InsufficientScope (required_scope name)
                 else Forward)
          else Forward)"

text \<open>
  The gateway up to the forwarded request: the reply if it answers itself, or the session and grant it
  forwards with. \<open>too_large\<close>: reading the body failed at its bound. \<open>posted\<close> is \<open>None\<close> for methods other
  than POST.
\<close>

record gateway_calls =
  gw_check :: "string \<Rightarrow> err + bool \<times> agent_grant"
  gw_firebase :: "string \<Rightarrow> err + agent_session"
  gw_touch :: "string \<Rightarrow> err option"

datatype gateway_reply = Unauthorized | GatewayError int string | Rpc gateway_verdict

definition gateway ::
  "gateway_calls \<Rightarrow> string \<Rightarrow> bool \<Rightarrow> rpc option option \<Rightarrow> gateway_reply + agent_session \<times> agent_grant" where
  "gateway calls secret too_large posted =
     (if \<not> agentChallenge secret \<or> count_list secret (CHR ''.'') = 2 then Inl Unauthorized
      else case gw_check calls secret of
        Inl e \<Rightarrow> Inl (GatewayError 503 ''temporarily_unavailable'')
      | Inr (invalid, g) \<Rightarrow>
        if invalid then Inl Unauthorized
        else if too_large then Inl (GatewayError 413 ''invalid_request'')
        else case (case posted of None \<Rightarrow> Forward | Some message \<Rightarrow> gateway_scope g message) of
          Forward \<Rightarrow> (case gw_firebase calls (ag_ID g) of
              Inl e \<Rightarrow> if e = ErrAgentInvalid \<or> e = ErrFirebaseRefused then Inl Unauthorized
                else Inl (GatewayError 503 ''temporarily_unavailable'')
            | Inr session \<Rightarrow> (case gw_touch calls (ag_ID g) of
                Some e \<Rightarrow> if e = ErrAgentInvalid then Inl Unauthorized
                  else Inl (GatewayError 503 ''temporarily_unavailable'')
              | None \<Rightarrow> Inr (session, g)))
        | verdict \<Rightarrow> Inl (Rpc verdict))"

section \<open>Connections and upload links\<close>

fun listed_grants :: "auth \<Rightarrow> ('v, doc) codec \<Rightarrow> string \<Rightarrow> string list \<Rightarrow> ('v, agent_grant list) txm" where
  "listed_grants a cd uid [] = tx_return []"
| "listed_grants a cd uid (i # rest) =
     tx_bind (Get cd asAgentGrant (grant_key i)) (\<lambda>g.
     tx_bind (listed_grants a cd uid rest) (\<lambda>gs.
     tx_return (if ag_UID g = uid \<and> agentGrantLive g (aa_now a) then g # gs else gs)))"

definition listGrants :: "auth \<Rightarrow> ('v, doc) codec \<Rightarrow> string \<Rightarrow> ('v, agent_grant list) txm" where
  "listGrants a cd uid =
     tx_bind (tx_optional (Get cd asTexts (owner_grants (aa_agentHash a uid)))) (\<lambda>ids. case ids of
       None \<Rightarrow> tx_return []
     | Some xs \<Rightarrow> listed_grants a cd uid xs)"

abbreviation ticket_key :: "string \<Rightarrow> string" where
  "ticket_key i \<equiv> raftRef ''agent_upload_tickets'' i"

definition uploadLink_tx ::
  "auth \<Rightarrow> ('v, doc) codec \<Rightarrow> string \<Rightarrow> string \<Rightarrow> string \<Rightarrow> agent_upload_ticket \<Rightarrow> ('v, unit) txm" where
  "uploadLink_tx a cd uid projectID digest rcd =
     tx_bind (if projectID \<noteq> [] then
         tx_bind (Get cd asProject (raftRef ''projects'' projectID)) (\<lambda>p.
         tx_bind (tx_guard (o_Kind (p_Owner p) \<noteq> ''firebase'' \<or> o_ID (p_Owner p) \<noteq> uid \<or> \<not> Live p (aa_now a))
           ErrNotFound) (\<lambda>_.
         tx_return (rcd\<lparr>ut_Revision := p_Revision p\<rparr>)))
       else tx_return rcd) (\<lambda>ticket.
     Create cd (ticket_key digest) (DTicket ticket))"

definition uploadLink ::
  "auth \<Rightarrow> bool \<Rightarrow> err + string \<times> string \<Rightarrow> string \<Rightarrow> string \<Rightarrow> string \<Rightarrow> string
    \<Rightarrow> (string \<Rightarrow> err + string) \<Rightarrow> (string \<Rightarrow> agent_upload_ticket \<Rightarrow> err option) \<Rightarrow> agent_reply" where
  "uploadLink a enabled identity name projectID password ticket encrypt transact =
     (if \<not> enabled then AgentError 503 ''publishing_unavailable''
      else case identity of
        Inl e \<Rightarrow> AgentError 401 ''invalid_token''
      | Inr (uid, provider) \<Rightarrow>
        if provider \<noteq> ''google.com'' then AgentError 403 ''access_denied''
        else if ValidateInput ''upload_ticket'' projectID name (if projectID \<noteq> [] then 1 else 0) \<noteq> None
            \<or> (projectID \<noteq> [] \<and> password \<noteq> []) then AgentError 400 ''invalid_request''
        else if password \<noteq> [] \<and> (length password > 1024 \<or> \<not> ValidString password \<or> RuneCount password < 12)
          then AgentError 400 ''invalid_request''
        else let digest = aa_agentHash a ticket;
            expires = aa_now a + 30 * minute;
            rcd = zero_ticket\<lparr>ut_UID := uid, ut_Name := name, ut_ProjectID := projectID, ut_ExpiresAt := expires\<rparr>
          in case (if password = [] then Inr [] else encrypt password) of
            Inl e \<Rightarrow> AgentError 503 ''temporarily_unavailable''
          | Inr sealed \<Rightarrow> (case transact digest (rcd\<lparr>ut_Password := sealed\<rparr>) of
              None \<Rightarrow> AgentUpload ticket expires
            | Some e \<Rightarrow> if e = ErrNotFound \<or> e = MetadataErrNotFound then AgentError 404 ''not_found''
                else AgentError 503 ''temporarily_unavailable''))"

text \<open>Taking the upload lease: whether another upload holds it; the captured variable is \<open>record\<close>.\<close>

definition upload_acquire :: "auth \<Rightarrow> ('v, doc) codec \<Rightarrow> string \<Rightarrow> string \<Rightarrow> ('v, agent_upload_ticket, bool) ctm" where
  "upload_acquire a cd digest lease =
     c_bind (c_Get cd asTicket merge_ticket (ticket_key digest)) (\<lambda>_.
     c_bind c_get (\<lambda>rcd.
     if ut_Result rcd \<noteq> None \<or> \<not> aa_now a < ut_ExpiresAt rcd then c_return False
     else if ut_Lease rcd \<noteq> [] \<and> aa_now a < ut_LeaseUntil rcd then c_return True
     else let rcd' = rcd\<lparr>ut_Lease := lease, ut_LeaseUntil := aa_now a + 6 * minute\<rparr> in
       c_bind (c_modify (\<lambda>_. rcd')) (\<lambda>_.
       c_bind (c_lift (Set cd (ticket_key digest) (DTicket rcd'))) (\<lambda>_.
       c_return False))))"

definition upload_release :: "('v, doc) codec \<Rightarrow> string \<Rightarrow> string \<Rightarrow> ('v, unit) txm" where
  "upload_release cd digest lease =
     tx_bind (Get cd asTicket (ticket_key digest)) (\<lambda>current.
     if ut_Lease current \<noteq> lease then tx_return ()
     else Set cd (ticket_key digest) (DTicket (current\<lparr>ut_Lease := [], ut_LeaseUntil := 0\<rparr>)))"

text \<open>What the upload endpoint does after the lease transaction: answer, or publish as the ticket's
  account with the ticket's target and revision.\<close>

definition upload_next ::
  "auth \<Rightarrow> string \<Rightarrow> err + bool \<times> agent_upload_ticket \<Rightarrow> agent_reply + actor \<times> string \<times> int" where
  "upload_next a digest result = (case result of
     Inl e \<Rightarrow> Inl (if e = MetadataErrNotFound then AgentError 404 ''not_found''
       else AgentError 503 ''temporarily_unavailable'')
   | Inr (busy, rcd) \<Rightarrow>
       if \<not> aa_now a < ut_ExpiresAt rcd then Inl (AgentError 404 ''not_found'')
       else case ut_Result rcd of
         Some p \<Rightarrow> Inl (AgentResult p)
       | None \<Rightarrow>
           if busy then Inl (AgentError 409 ''upload_in_progress'')
           else Inr (zero_actor\<lparr>u_UID := ut_UID rcd, u_UploadTicketDigest := digest\<rparr>,
             ut_ProjectID rcd, ut_Revision rcd))"

end
