(* ===== verification/Agent_Maintenance.thy ===== *)
theory Agent_Maintenance
  imports Agent_OAuth
begin

text \<open>
  Cleanup of agent records (\<open>internal/project/agent_maintenance.go\<close>): a bounded scan proposes
  records, and a transaction rechecks each candidate before it is deleted. \<open>now\<close> is the repository's
  clock; the keys of a collection are its prefix followed by an identifier.
\<close>

definition agent_prefixes :: "string list" where
  "agent_prefixes = [''agent_rate/'', ''agent_pending/'', ''agent_clients/'', ''agent_credentials/'',
     ''agent_upload_tickets/'', ''agent_grants/'']"

definition grant_spent :: "time \<Rightarrow> agent_grant \<Rightarrow> bool" where
  "grant_spent now g \<longleftrightarrow> ag_FirebaseRefresh g \<noteq> []
     \<and> (ag_Revoked g \<or> \<not> now < ag_IdleUntil g \<or> \<not> now < ag_ExpiresAt g)"

definition decoded :: "('v, doc) codec \<Rightarrow> (doc \<Rightarrow> 'a option) \<Rightarrow> 'v \<Rightarrow> ('a \<Rightarrow> bool) \<Rightarrow> err + bool" where
  "decoded cd into v P = (case Decode cd into v of Inl e \<Rightarrow> Inl e | Inr x \<Rightarrow> Inr (P x))"

definition agentRecordExpired :: "('v, doc) codec \<Rightarrow> string \<Rightarrow> 'v \<Rightarrow> time \<Rightarrow> err + bool" where
  "agentRecordExpired cd prefix v now =
     (if prefix = ''agent_rate/'' then decoded cd asAgentRate v (\<lambda>x. \<not> now < ar_ExpiresAt x)
      else if prefix = ''agent_pending/'' then decoded cd asAgentPending v (\<lambda>x. \<not> now < ap_ExpiresAt x + hour)
      else if prefix = ''agent_clients/'' then decoded cd asAgentClient v (\<lambda>x. \<not> now < ac_ExpiresAt x + day)
      else if prefix = ''agent_credentials/'' then
        decoded cd asAgentCredential v (\<lambda>x. \<not> IsZero (cr_RetainUntil x) \<and> \<not> now < cr_RetainUntil x)
      else if prefix = ''agent_upload_tickets/'' then decoded cd asTicket v (\<lambda>x. \<not> now < ut_ExpiresAt x + hour)
      else if prefix = ''agent_grants/'' then
        decoded cd asAgentGrant v (\<lambda>x. \<not> now < ag_ExpiresAt x + day \<or> grant_spent now x)
      else Inr False)"

text \<open>
  The transaction on one candidate. A record that is gone (\<open>ignoreAgentMissing\<close>) or no longer expired
  is left alone; a revoked, idle or expired grant loses its Firebase secret first; a grant past its
  retention is removed from its owner's index and deleted. \<open>hash\<close> is SHA-256 in hex.
\<close>

definition maintain_if :: "('v, 'a) txm \<Rightarrow> ('a \<Rightarrow> bool) \<Rightarrow> ('v, unit) txm \<Rightarrow> ('v, unit) txm" where
  "maintain_if get keep act = tx_bind (tx_optional get) (\<lambda>found. case found of
     None \<Rightarrow> tx_return ()
   | Some v \<Rightarrow> if keep v then tx_return () else act)"

definition maintain_grant ::
  "('v, doc) codec \<Rightarrow> (string \<Rightarrow> string) \<Rightarrow> time \<Rightarrow> string \<Rightarrow> ('v, unit) txm" where
  "maintain_grant cd hash now key =
     tx_bind (tx_optional (Get cd asAgentGrant key)) (\<lambda>found. case found of
       None \<Rightarrow> tx_return ()
     | Some v \<Rightarrow>
         if now < ag_ExpiresAt v + day then
           (if grant_spent now v then Set cd key (DAgentGrant (revoked v)) else tx_return ())
         else
           tx_bind (tx_optional (Get cd asTexts (owner_grants (hash (ag_UID v))))) (\<lambda>ids.
           let kept = filter (\<lambda>i. i \<noteq> ag_ID v) (case ids of None \<Rightarrow> [] | Some xs \<Rightarrow> xs) in
           tx_bind (if kept = [] then Delete (owner_grants (hash (ag_UID v)))
                    else Set cd (owner_grants (hash (ag_UID v))) (DTexts kept)) (\<lambda>_.
           Delete key)))"

definition maintain_tx ::
  "('v, doc) codec \<Rightarrow> (string \<Rightarrow> string) \<Rightarrow> time \<Rightarrow> string \<Rightarrow> string \<Rightarrow> ('v, unit) txm" where
  "maintain_tx cd hash now prefix key =
     (if prefix = ''agent_rate/'' then
        maintain_if (Get cd asAgentRate key) (\<lambda>v. now < ar_ExpiresAt v) (Delete key)
      else if prefix = ''agent_pending/'' then
        maintain_if (Get cd asAgentPending key) (\<lambda>v. now < ap_ExpiresAt v + hour) (Delete key)
      else if prefix = ''agent_clients/'' then
        maintain_if (Get cd asAgentClient key) (\<lambda>v. now < ac_ExpiresAt v + day) (Delete key)
      else if prefix = ''agent_credentials/'' then
        maintain_if (Get cd asAgentCredential key) (\<lambda>v. IsZero (cr_RetainUntil v) \<or> now < cr_RetainUntil v) (Delete key)
      else if prefix = ''agent_upload_tickets/'' then
        maintain_if (Get cd asTicket key) (\<lambda>v. now < ut_ExpiresAt v + hour) (Delete key)
      else if prefix = ''agent_grants/'' then maintain_grant cd hash now key
      else Delete key)"

text \<open>
  The sweep, over a store \<open>'s\<close> that \<open>transact\<close> changes: one page of each collection, from the cursor
  the previous sweep left, and the cursors of the next one.
\<close>

fun maintain_page ::
  "('v \<Rightarrow> err + bool) \<Rightarrow> (string \<Rightarrow> 's \<Rightarrow> err option \<times> 's) \<Rightarrow> (string \<times> 'v) list \<Rightarrow> 's \<Rightarrow> err option \<times> 's" where
  "maintain_page due transact [] s = (None, s)"
| "maintain_page due transact ((key, v) # rest) s = (case due v of
     Inl e \<Rightarrow> (Some e, s)
   | Inr False \<Rightarrow> maintain_page due transact rest s
   | Inr True \<Rightarrow> (case transact key s of
       (Some e, s') \<Rightarrow> (Some e, s')
     | (None, s') \<Rightarrow> maintain_page due transact rest s'))"

fun maintain_prefixes ::
  "('v, doc) codec \<Rightarrow> time \<Rightarrow> (string \<Rightarrow> string \<Rightarrow> 's \<Rightarrow> err + (string \<times> 'v) list \<times> string)
    \<Rightarrow> (string \<Rightarrow> string \<Rightarrow> 's \<Rightarrow> err option \<times> 's) \<Rightarrow> string list \<Rightarrow> (string \<Rightarrow> string) \<Rightarrow> 's
    \<Rightarrow> err option \<times> (string \<Rightarrow> string) \<times> 's" where
  "maintain_prefixes cd now scan transact [] cursors s = (None, cursors, s)"
| "maintain_prefixes cd now scan transact (p # ps) cursors s = (case scan p (cursors p) s of
     Inl e \<Rightarrow> (Some e, cursors, s)
   | Inr (page, next) \<Rightarrow>
       (case maintain_page (\<lambda>v. agentRecordExpired cd p v now) (transact p) page s of
          (Some e, s') \<Rightarrow> (Some e, cursors, s')
        | (None, s') \<Rightarrow> maintain_prefixes cd now scan transact ps (cursors(p := next)) s'))"

definition MaintainAgents ::
  "('v, doc) codec \<Rightarrow> time \<Rightarrow> (string \<Rightarrow> string \<Rightarrow> 's \<Rightarrow> err + (string \<times> 'v) list \<times> string)
    \<Rightarrow> (string \<Rightarrow> string \<Rightarrow> 's \<Rightarrow> err option \<times> 's) \<Rightarrow> (string \<Rightarrow> string) \<Rightarrow> 's
    \<Rightarrow> err option \<times> (string \<Rightarrow> string) \<times> 's" where
  "MaintainAgents cd now scan transact cursors s =
     maintain_prefixes cd now scan transact agent_prefixes cursors s"

end
