(* ===== verification/Agent_System.thy ===== *)
theory Agent_System
  imports Agent_Maintenance
begin

text \<open>
  The life of agent grants: an abstract specification of grants, credentials, pending consents and
  the index of an owner's grants, the proof that every transaction of the OAuth server and of its
  cleanup is a step of it, and the invariants that follow for every run.
\<close>

section \<open>The records in a store\<close>

definition grant_at :: "(string \<Rightarrow> doc option) \<Rightarrow> string \<Rightarrow> agent_grant option" where
  "grant_at D i = Option.bind (D (grant_key i)) asAgentGrant"

definition cred_at :: "(string \<Rightarrow> doc option) \<Rightarrow> string \<Rightarrow> agent_credential option" where
  "cred_at D k = Option.bind (D (credential_key k)) asAgentCredential"

definition pend_at :: "(string \<Rightarrow> doc option) \<Rightarrow> string \<Rightarrow> agent_pending option" where
  "pend_at D k = Option.bind (D (pending_key k)) asAgentPending"

definition grant_index :: "(string \<Rightarrow> doc option) \<Rightarrow> string \<Rightarrow> string list" where
  "grant_index D h = (case Option.bind (D (owner_grants h)) asTexts of None \<Rightarrow> [] | Some ids \<Rightarrow> ids)"

lemma agent_upd [simp]:
  "grant_at (D(grant_key i := v)) = (grant_at D)(i := Option.bind v asAgentGrant)"
  "grant_at (D(credential_key k := v)) = grant_at D" "grant_at (D(pending_key k := v)) = grant_at D"
  "grant_at (D(owner_grants h := v)) = grant_at D"
  "cred_at (D(credential_key k := v)) = (cred_at D)(k := Option.bind v asAgentCredential)"
  "cred_at (D(grant_key i := v)) = cred_at D" "cred_at (D(pending_key k := v)) = cred_at D"
  "cred_at (D(owner_grants h := v)) = cred_at D"
  "pend_at (D(pending_key k := v)) = (pend_at D)(k := Option.bind v asAgentPending)"
  "pend_at (D(grant_key i := v)) = pend_at D" "pend_at (D(credential_key k := v)) = pend_at D"
  "pend_at (D(owner_grants h := v)) = pend_at D"
  "grant_index (D(owner_grants h := v)) =
     (grant_index D)(h := (case Option.bind v asTexts of None \<Rightarrow> [] | Some ids \<Rightarrow> ids))"
  "grant_index (D(grant_key i := v)) = grant_index D" "grant_index (D(credential_key k := v)) = grant_index D"
  "grant_index (D(pending_key k := v)) = grant_index D"
  by (auto simp: fun_eq_iff grant_at_def cred_at_def pend_at_def grant_index_def key_simps)

text \<open>What a transaction reads.\<close>

lemma Get_grant:
  assumes "Get cd asAgentGrant (grant_key i) t = (Inr g, u)"
  shows "grant_at (docs cd t) i = Some g" "cur u = cur t" "tx_read u = tx_read t"
  using assms by (auto simp: grant_at_def elim!: Get_InrE)

lemma Get_credential:
  assumes "tx_optional (Get cd asAgentCredential (credential_key k)) t = (Inr found, u)" "good_env cd (tx_read t)"
  shows "cred_at (docs cd t) k = found" "cur u = cur t" "tx_read u = tx_read t"
  using assms by (auto simp: cred_at_def elim!: tx_optional_InrE Get_InrE Get_missingE)

section \<open>Captured records keep their identity\<close>

text \<open>The fields of a record that no transaction changes after its creation.\<close>

definition cred_core :: "agent_credential \<Rightarrow> agent_credential" where
  "cred_core c = c\<lparr>cr_Used := False\<rparr>"

definition grant_core :: "agent_grant \<Rightarrow> agent_grant" where
  "grant_core g = g\<lparr>ag_LastUsedAt := 0, ag_IdleUntil := 0, ag_FirebaseRefresh := [], ag_Revoked := False,
     ag_Lease := [], ag_LeaseUntil := 0\<rparr>"

definition pend_core :: "agent_pending \<Rightarrow> agent_pending" where
  "pend_core p = p\<lparr>ap_Used := False\<rparr>"

text \<open>A captured variable is zero or holds an earlier reading of the record it is read from.\<close>

definition compat_cred :: "agent_credential \<Rightarrow> agent_credential \<Rightarrow> bool" where
  "compat_cred c0 c \<longleftrightarrow> c0 = zero_credential \<or> cred_core c0 = cred_core c"

definition compat_grant :: "agent_grant \<Rightarrow> agent_grant \<Rightarrow> bool" where
  "compat_grant g0 g \<longleftrightarrow> g0 = zero_grant \<or> grant_core g0 = grant_core g"

definition compat_pend :: "agent_pending \<Rightarrow> agent_pending \<Rightarrow> bool" where
  "compat_pend p0 p \<longleftrightarrow> p0 = zero_pending \<or> pend_core p0 = pend_core p"

lemma merge_zero [simp]:
  "merge_credential c zero_credential = c" "merge_grant g zero_grant = g" "merge_client cl zero_client = cl"
  "merge_pending p zero_pending = p"
  by (simp_all add: merge_credential_def zero_credential_def merge_grant_def zero_grant_def merge_client_def
      zero_client_def merge_pending_def zero_pending_def)

lemma merge_same [simp]:
  "merge_client cl cl = cl" "merge_credential c c = c" "merge_grant g g = g" "merge_pending p p = p"
  by (simp_all add: merge_client_def merge_credential_def merge_grant_def merge_pending_def)

lemma merge_cred_core:
  assumes "compat_cred c0 c"
  shows "cred_core (merge_credential c c0) = cred_core c" "cr_Used c \<Longrightarrow> cr_Used (merge_credential c c0)"
proof -
  show "cred_core (merge_credential c c0) = cred_core c"
  proof (cases "c0 = zero_credential")
    case False
    then have "cred_core c0 = cred_core c" using assms by (simp add: compat_cred_def)
    then show ?thesis by (cases c; cases c0) (simp add: cred_core_def merge_credential_def)
  qed simp
qed (simp add: merge_credential_def)

lemma merge_grant_core:
  assumes "compat_grant g0 g"
  shows "grant_core (merge_grant g g0) = grant_core g" "ag_Revoked g \<Longrightarrow> ag_Revoked (merge_grant g g0)"
proof -
  show "grant_core (merge_grant g g0) = grant_core g"
  proof (cases "g0 = zero_grant")
    case False
    then have "grant_core g0 = grant_core g" using assms by (simp add: compat_grant_def)
    then show ?thesis by (cases g; cases g0) (simp add: grant_core_def merge_grant_def)
  qed simp
qed (simp add: merge_grant_def)

lemma merge_pend_core:
  assumes "compat_pend p0 p"
  shows "pend_core (merge_pending p p0) = pend_core p" "ap_Used p \<Longrightarrow> ap_Used (merge_pending p p0)"
proof -
  show "pend_core (merge_pending p p0) = pend_core p"
  proof (cases "p0 = zero_pending")
    case False
    then have "pend_core p0 = pend_core p" using assms by (simp add: compat_pend_def)
    then show ?thesis by (cases p; cases p0) (simp add: pend_core_def merge_pending_def)
  qed simp
qed (simp add: merge_pending_def)

section \<open>The specification\<close>

record life =
  l_grants :: "string \<Rightarrow> agent_grant option"
  l_creds :: "string \<Rightarrow> agent_credential option"
  l_pend :: "string \<Rightarrow> agent_pending option"
  l_index :: "string \<Rightarrow> string list"
  l_ids :: "string set"
  l_keys :: "string set"

text \<open>
  \<open>l_ids\<close> and \<open>l_keys\<close> are the grant identifiers and credential digests drawn so far. A transaction may
  amend a grant (its identity stays and a revocation is final), spend a credential, ask for and answer
  a consent, create a grant with its first credential for an unanswered consent, add two credentials to
  a grant that is not revoked, or forget records whose retention is over.
\<close>

definition amends :: "agent_grant \<Rightarrow> agent_grant \<Rightarrow> bool" where
  "amends g g' \<longleftrightarrow> grant_core g' = grant_core g \<and> (ag_Revoked g \<longrightarrow> ag_Revoked g')"

definition credential_of :: "agent_grant \<Rightarrow> agent_credential \<Rightarrow> bool" where
  "credential_of g c \<longleftrightarrow> cr_GrantID c = ag_ID g \<and> cr_ClientID c = ag_ClientID g \<and> \<not> cr_Used c
     \<and> cr_RetainUntil c = ag_ExpiresAt g + day"

definition answered :: "agent_pending \<Rightarrow> agent_pending" where
  "answered p = p\<lparr>ap_Used := True\<rparr>"

definition spent :: "agent_credential \<Rightarrow> agent_credential" where
  "spent c = c\<lparr>cr_Used := True\<rparr>"

inductive life_step :: "(string \<Rightarrow> string) \<Rightarrow> life \<Rightarrow> life \<Rightarrow> bool" for hash where
  stutter: "life_step hash l l"
| amend: "l_grants l i = Some g \<Longrightarrow> amends g g' \<Longrightarrow> life_step hash l (l\<lparr>l_grants := (l_grants l)(i \<mapsto> g')\<rparr>)"
| spend: "l_creds l k = Some c \<Longrightarrow> \<not> cr_Used c \<Longrightarrow> life_step hash l (l\<lparr>l_creds := (l_creds l)(k \<mapsto> spent c)\<rparr>)"
| ask: "l_pend l k = None \<Longrightarrow> \<not> ap_Used p \<Longrightarrow> life_step hash l (l\<lparr>l_pend := (l_pend l)(k \<mapsto> p)\<rparr>)"
| answer: "l_pend l k = Some p \<Longrightarrow> \<not> ap_Used p \<Longrightarrow>
    life_step hash l (l\<lparr>l_pend := (l_pend l)(k \<mapsto> answered p)\<rparr>)"
| allow: "l_pend l k = Some p \<Longrightarrow> \<not> ap_Used p \<Longrightarrow> l_grants l (ag_ID g) = None \<Longrightarrow> ag_ID g \<notin> l_ids l \<Longrightarrow>
    \<not> ag_Revoked g \<Longrightarrow> l_creds l k' = None \<Longrightarrow> k' \<notin> l_keys l \<Longrightarrow> credential_of g c \<Longrightarrow>
    active = filter (\<lambda>i. \<exists>g. l_grants l i = Some g \<and> agentGrantLive g now) (l_index l (hash (ag_UID g))) \<Longrightarrow>
    length active < 50 \<Longrightarrow>
    life_step hash l (l\<lparr>l_grants := (l_grants l)(ag_ID g \<mapsto> g), l_creds := (l_creds l)(k' \<mapsto> c),
      l_pend := (l_pend l)(k \<mapsto> answered p),
      l_index := (l_index l)(hash (ag_UID g) := active @ [ag_ID g]),
      l_ids := insert (ag_ID g) (l_ids l), l_keys := insert k' (l_keys l)\<rparr>)"
| renew: "l_grants l i = Some g \<Longrightarrow> \<not> ag_Revoked g \<Longrightarrow> amends g g' \<Longrightarrow> k1 \<noteq> k2 \<Longrightarrow>
    l_creds l k1 = None \<Longrightarrow> l_creds l k2 = None \<Longrightarrow> k1 \<notin> l_keys l \<Longrightarrow> k2 \<notin> l_keys l \<Longrightarrow>
    credential_of g c1 \<Longrightarrow> credential_of g c2 \<Longrightarrow>
    life_step hash l (l\<lparr>l_grants := (l_grants l)(i \<mapsto> g'), l_creds := (l_creds l)(k1 \<mapsto> c1, k2 \<mapsto> c2),
      l_keys := insert k1 (insert k2 (l_keys l))\<rparr>)"
| forget_pending: "l_pend l k = Some p \<Longrightarrow> \<not> now < ap_ExpiresAt p + hour \<Longrightarrow>
    life_step hash l (l\<lparr>l_pend := (l_pend l)(k := None)\<rparr>)"
| forget_credential: "l_creds l k = Some c \<Longrightarrow> \<not> now < cr_RetainUntil c \<Longrightarrow>
    life_step hash l (l\<lparr>l_creds := (l_creds l)(k := None)\<rparr>)"
| forget_grant: "l_grants l i = Some g \<Longrightarrow> \<not> now < ag_ExpiresAt g + day \<Longrightarrow>
    life_step hash l (l\<lparr>l_grants := (l_grants l)(i := None),
      l_index := (l_index l)(hash (ag_UID g) := filter (\<lambda>j. j \<noteq> ag_ID g) (l_index l (hash (ag_UID g))))\<rparr>)"

text \<open>
  The invariant: records are stored under their identifiers, every identifier was drawn, an owner's
  index lists at most 50 grants, each of them stored and the owner's, and a credential is retained
  for a day longer than its grant can live.
\<close>

definition life_ok :: "(string \<Rightarrow> string) \<Rightarrow> life \<Rightarrow> bool" where
  "life_ok hash l \<longleftrightarrow>
     (\<forall>i g. l_grants l i = Some g \<longrightarrow> ag_ID g = i \<and> i \<in> l_ids l)
     \<and> (\<forall>k c. l_creds l k = Some c \<longrightarrow> k \<in> l_keys l \<and> cr_GrantID c \<in> l_ids l
          \<and> (\<forall>g. l_grants l (cr_GrantID c) = Some g \<longrightarrow>
               cr_ClientID c = ag_ClientID g \<and> cr_RetainUntil c = ag_ExpiresAt g + day))
     \<and> (\<forall>h. length (l_index l h) \<le> 50 \<and> distinct (l_index l h)
          \<and> (\<forall>i \<in> set (l_index l h). \<exists>g. l_grants l i = Some g \<and> hash (ag_UID g) = h))"


lemma life_okD:
  assumes "life_ok hash l"
  shows "l_grants l i = Some g \<Longrightarrow> ag_ID g = i" "l_grants l i = Some g \<Longrightarrow> i \<in> l_ids l"
    "l_creds l k = Some c \<Longrightarrow> k \<in> l_keys l" "l_creds l k = Some c \<Longrightarrow> cr_GrantID c \<in> l_ids l"
    "l_creds l k = Some c \<Longrightarrow> l_grants l (cr_GrantID c) = Some g \<Longrightarrow> cr_ClientID c = ag_ClientID g"
    "l_creds l k = Some c \<Longrightarrow> l_grants l (cr_GrantID c) = Some g \<Longrightarrow> cr_RetainUntil c = ag_ExpiresAt g + day"
    "length (l_index l h) \<le> 50" "distinct (l_index l h)"
    "i \<in> set (l_index l h) \<Longrightarrow> \<exists>g. l_grants l i = Some g \<and> hash (ag_UID g) = h"
  using assms by (auto simp: life_ok_def)

lemma life_okI:
  assumes "\<And>i g. l_grants l i = Some g \<Longrightarrow> ag_ID g = i \<and> i \<in> l_ids l"
    and "\<And>k c. l_creds l k = Some c \<Longrightarrow> k \<in> l_keys l \<and> cr_GrantID c \<in> l_ids l"
    and "\<And>k c g. l_creds l k = Some c \<Longrightarrow> l_grants l (cr_GrantID c) = Some g \<Longrightarrow>
      cr_ClientID c = ag_ClientID g \<and> cr_RetainUntil c = ag_ExpiresAt g + day"
    and "\<And>h. length (l_index l h) \<le> 50 \<and> distinct (l_index l h)"
    and "\<And>h i. i \<in> set (l_index l h) \<Longrightarrow> \<exists>g. l_grants l i = Some g \<and> hash (ag_UID g) = h"
  shows "life_ok hash l"
  using assms by (simp add: life_ok_def)

lemma amends_core:
  assumes "amends g g'"
  shows "ag_ID g' = ag_ID g" "ag_UID g' = ag_UID g" "ag_ClientID g' = ag_ClientID g" "ag_ExpiresAt g' = ag_ExpiresAt g"
    "ag_Resource g' = ag_Resource g" "ag_Scopes g' = ag_Scopes g" "ag_Revoked g \<Longrightarrow> ag_Revoked g'"
  using assms by (auto simp: amends_def grant_core_def dest: arg_cong[of _ _ ag_ID] arg_cong[of _ _ ag_UID]
      arg_cong[of _ _ ag_ClientID] arg_cong[of _ _ ag_ExpiresAt] arg_cong[of _ _ ag_Resource] arg_cong[of _ _ ag_Scopes])

lemma spent_simps [simp]:
  "cr_GrantID (spent c) = cr_GrantID c" "cr_ClientID (spent c) = cr_ClientID c"
  "cr_RetainUntil (spent c) = cr_RetainUntil c" "cr_Used (spent c)" "cr_Kind (spent c) = cr_Kind c"
  by (simp_all add: spent_def)

lemma life_ok_amend:
  assumes ok: "life_ok hash l" and g: "l_grants l i = Some g" and a: "amends g g'"
  shows "life_ok hash (l\<lparr>l_grants := (l_grants l)(i \<mapsto> g')\<rparr>)"
proof -
  note am = amends_core[OF a]
  have look: "\<exists>h0. l_grants l j = Some h0 \<and> ag_ID h = ag_ID h0 \<and> ag_UID h = ag_UID h0
      \<and> ag_ClientID h = ag_ClientID h0 \<and> ag_ExpiresAt h = ag_ExpiresAt h0"
    if "((l_grants l)(i \<mapsto> g')) j = Some h" for j h
    using that g am by (cases "j = i") auto
  show ?thesis
  proof (rule life_okI)
    fix j h assume "l_grants (l\<lparr>l_grants := (l_grants l)(i \<mapsto> g')\<rparr>) j = Some h"
    then obtain h0 where "l_grants l j = Some h0" "ag_ID h = ag_ID h0" using look[of j h] by auto
    then show "ag_ID h = j \<and> j \<in> l_ids (l\<lparr>l_grants := (l_grants l)(i \<mapsto> g')\<rparr>)"
      using life_okD(1,2)[OF ok, of j h0] by simp
  next
    fix k c h assume c: "l_creds (l\<lparr>l_grants := (l_grants l)(i \<mapsto> g')\<rparr>) k = Some c"
      and "l_grants (l\<lparr>l_grants := (l_grants l)(i \<mapsto> g')\<rparr>) (cr_GrantID c) = Some h"
    then obtain h0 where "l_grants l (cr_GrantID c) = Some h0" "ag_ClientID h = ag_ClientID h0" "ag_ExpiresAt h = ag_ExpiresAt h0"
      using look[of "cr_GrantID c" h] by auto
    then show "cr_ClientID c = ag_ClientID h \<and> cr_RetainUntil c = ag_ExpiresAt h + day"
      using life_okD(5,6)[OF ok, of k c h0] c by simp
  next
    fix h j assume "j \<in> set (l_index (l\<lparr>l_grants := (l_grants l)(i \<mapsto> g')\<rparr>) h)"
    then obtain h0 where "l_grants l j = Some h0" "hash (ag_UID h0) = h" using life_okD(9)[OF ok, of j h] by auto
    then show "\<exists>g. l_grants (l\<lparr>l_grants := (l_grants l)(i \<mapsto> g')\<rparr>) j = Some g \<and> hash (ag_UID g) = h"
      using g am(2) by (cases "j = i") auto
  qed (use life_okD[OF ok] in auto)
qed

lemma life_ok_credential:
  assumes ok: "life_ok hash l" and g: "l_grants l i = Some g" and c: "credential_of g c"
  shows "life_ok hash (l\<lparr>l_creds := (l_creds l)(k \<mapsto> c), l_keys := insert k (l_keys l)\<rparr>)"
proof -
  have i: "cr_GrantID c = i" "i \<in> l_ids l" using c life_okD(1,2)[OF ok g] by (simp_all add: credential_of_def)
  show ?thesis
  proof (rule life_okI)
    fix k' c' g' assume "l_creds (l\<lparr>l_creds := (l_creds l)(k \<mapsto> c), l_keys := insert k (l_keys l)\<rparr>) k' = Some c'"
      and "l_grants (l\<lparr>l_creds := (l_creds l)(k \<mapsto> c), l_keys := insert k (l_keys l)\<rparr>) (cr_GrantID c') = Some g'"
    then show "cr_ClientID c' = ag_ClientID g' \<and> cr_RetainUntil c' = ag_ExpiresAt g' + day"
      using life_okD(5,6)[OF ok, of k' c' g'] c g i(1) by (auto simp: credential_of_def split: if_splits)
  qed (use life_okD[OF ok] i in \<open>auto split: if_splits\<close>)
qed

lemma life_ok_grant:
  assumes ok: "life_ok hash l" and i: "ag_ID g \<notin> l_ids l"
    and ids: "set ids \<subseteq> set (l_index l (hash (ag_UID g)))" "distinct ids" "length ids < 50"
  shows "life_ok hash (l\<lparr>l_grants := (l_grants l)(ag_ID g \<mapsto> g),
    l_index := (l_index l)(hash (ag_UID g) := ids @ [ag_ID g]), l_ids := insert (ag_ID g) (l_ids l)\<rparr>)" (is "life_ok _ ?l")
proof -
  have new: "l_grants l (ag_ID g) = None" using life_okD(2)[OF ok, of "ag_ID g"] i by (cases "l_grants l (ag_ID g)") auto
  have "j \<noteq> ag_ID g" if "j \<in> set (l_index l h)" for j h
    using life_okD(9)[OF ok that] new by auto
  then have n: "ag_ID g \<notin> set ids" using ids(1) by blast
  have c: "cr_GrantID c \<noteq> ag_ID g" if "l_creds l k = Some c" for k c using life_okD(4)[OF ok that] i by metis
  show ?thesis
  proof (rule life_okI)
    fix h j assume j: "j \<in> set (l_index ?l h)"
    show "\<exists>g. l_grants ?l j = Some g \<and> hash (ag_UID g) = h"
    proof (cases "j = ag_ID g")
      case True
      then have "h = hash (ag_UID g)" using j \<open>\<And>j h. j \<in> set (l_index l h) \<Longrightarrow> j \<noteq> ag_ID g\<close>
        by (auto split: if_splits)
      then show ?thesis using True by simp
    next
      case False
      then have "j \<in> set (l_index l h)" using j ids(1) by (auto split: if_splits)
      from life_okD(9)[OF ok this] show ?thesis using False by simp
    qed
  next
    fix h show "length (l_index ?l h) \<le> 50 \<and> distinct (l_index ?l h)"
      using ids(2,3) n life_okD(7,8)[OF ok, of h] by simp
  qed (use life_okD[OF ok] c in \<open>auto split: if_splits\<close>)
qed

lemma life_ok_cong:
  assumes "life_ok hash l" "l_grants l' = l_grants l" "l_creds l' = l_creds l" "l_index l' = l_index l"
    "l_ids l' = l_ids l" "l_keys l' = l_keys l"
  shows "life_ok hash l'"
  using assms(1) unfolding life_ok_def assms(2-) .

lemma life_step_ok:
  assumes "life_step hash l l'" "life_ok hash l"
  shows "life_ok hash l'"
  using assms(1)
proof cases
  case stutter
  then show ?thesis using assms(2) by simp
next
  case (amend i g g')
  show ?thesis unfolding amend(1) by (rule life_ok_amend[OF assms(2) amend(2,3)])
next
  case (spend k c)
  then show ?thesis using life_okD[OF assms(2)] by (auto simp: life_ok_def)
next
  case (ask k p)
  then show ?thesis using assms(2) by (auto intro: life_ok_cong)
next
  case (answer k p)
  then show ?thesis using assms(2) by (auto intro: life_ok_cong)
next
  case (allow k p g k' c active now)
  let ?l = "l\<lparr>l_grants := (l_grants l)(ag_ID g \<mapsto> g),
    l_index := (l_index l)(hash (ag_UID g) := active @ [ag_ID g]), l_ids := insert (ag_ID g) (l_ids l)\<rparr>"
  have "life_ok hash ?l" using allow(5,10,11) life_okD(8)[OF assms(2)] by (intro life_ok_grant[OF assms(2)]) auto
  from life_ok_credential[OF this, of "ag_ID g" g c k'] allow(9)
  have "life_ok hash (?l\<lparr>l_creds := (l_creds l)(k' \<mapsto> c), l_keys := insert k' (l_keys l)\<rparr>)" by simp
  then show ?thesis unfolding allow(1) by (rule life_ok_cong) simp_all
next
  case (renew i g g' k1 k2 c1 c2)
  let ?l = "l\<lparr>l_grants := (l_grants l)(i \<mapsto> g')\<rparr>"
  note am = amends_core[OF renew(4)] and id = life_okD(1,2)[OF assms(2) renew(2)]
  have ok: "life_ok hash ?l" by (rule life_ok_amend[OF assms(2) renew(2,4)])
  have c: "credential_of g' c1" "credential_of g' c2" using renew(10,11) am by (simp_all add: credential_of_def)
  have "life_ok hash (?l\<lparr>l_creds := (l_creds l)(k1 \<mapsto> c1), l_keys := insert k1 (l_keys l)\<rparr>)"
    using life_ok_credential[OF ok, of i g' c1 k1] c(1) by simp
  from life_ok_credential[OF this, of i g' c2 k2] c(2)
  have "life_ok hash (?l\<lparr>l_creds := (l_creds l)(k1 \<mapsto> c1, k2 \<mapsto> c2), l_keys := insert k2 (insert k1 (l_keys l))\<rparr>)" by simp
  then show ?thesis unfolding renew(1) by (simp add: insert_commute)
next
  case (forget_pending k p now)
  then show ?thesis using assms(2) by (auto intro: life_ok_cong)
next
  case (forget_credential k c now)
  then show ?thesis using life_okD[OF assms(2)] by (auto simp: life_ok_def)
next
  case (forget_grant i g now)
  note ok = life_okD[OF assms(2)]
  have id: "ag_ID g = i" by (rule ok(1)[OF forget_grant(2)])
  have "h = hash (ag_UID g)" if "i \<in> set (l_index l h)" for h using ok(9)[OF that] forget_grant(2) by auto
  moreover have "length (filter (\<lambda>j. j \<noteq> i) (l_index l h)) \<le> 50" for h
    using ok(7)[of h] length_filter_le[of _ "l_index l h"] le_trans by blast
  ultimately show ?thesis unfolding forget_grant(1) id
    by (intro life_okI) (use ok in \<open>auto split: if_splits\<close>)
qed

text \<open>
  What no step undoes: identifiers drawn stay drawn, a record that is gone is not created again, its
  identity never changes, and revocation of a grant, use of a credential and the answer to a consent
  are final.
\<close>

definition life_le :: "life \<Rightarrow> life \<Rightarrow> bool" where
  "life_le l l' \<longleftrightarrow> l_ids l \<subseteq> l_ids l' \<and> l_keys l \<subseteq> l_keys l'
     \<and> (\<forall>i g'. i \<in> l_ids l \<longrightarrow> l_grants l' i = Some g' \<longrightarrow> (\<exists>g. l_grants l i = Some g \<and> amends g g'))
     \<and> (\<forall>k c'. k \<in> l_keys l \<longrightarrow> l_creds l' k = Some c' \<longrightarrow>
          (\<exists>c. l_creds l k = Some c \<and> cred_core c' = cred_core c \<and> (cr_Used c \<longrightarrow> cr_Used c')))"

lemma life_leD:
  "life_le l l' \<Longrightarrow> i \<in> l_ids l \<Longrightarrow> l_grants l' i = Some g' \<Longrightarrow> \<exists>g. l_grants l i = Some g \<and> amends g g'"
  "life_le l l' \<Longrightarrow> k \<in> l_keys l \<Longrightarrow> l_creds l' k = Some c' \<Longrightarrow>
     \<exists>c. l_creds l k = Some c \<and> cred_core c' = cred_core c \<and> (cr_Used c \<longrightarrow> cr_Used c')"
  unfolding life_le_def by blast+

lemma amends_refl [simp]: "amends g g"
  by (simp add: amends_def)

lemma amends_trans: "amends g h \<Longrightarrow> amends h k \<Longrightarrow> amends g k"
  by (simp add: amends_def)

lemma life_le_refl: "life_le l l"
  by (simp add: life_le_def)

lemma life_le_trans:
  assumes "life_le l1 l2" "life_le l2 l3"
  shows "life_le l1 l3"
  unfolding life_le_def
proof (intro conjI allI impI)
  fix i g3 assume i: "i \<in> l_ids l1" and g: "l_grants l3 i = Some g3"
  have "i \<in> l_ids l2" using i assms(1) by (auto simp: life_le_def)
  then obtain g2 where "l_grants l2 i = Some g2" "amends g2 g3" using g assms(2) unfolding life_le_def by metis
  then show "\<exists>g. l_grants l1 i = Some g \<and> amends g g3"
    using i assms(1) amends_trans unfolding life_le_def by metis
next
  fix k c3 assume k: "k \<in> l_keys l1" and c: "l_creds l3 k = Some c3"
  have "k \<in> l_keys l2" using k assms(1) by (auto simp: life_le_def)
  then obtain c2 where "l_creds l2 k = Some c2" "cred_core c3 = cred_core c2" "cr_Used c2 \<longrightarrow> cr_Used c3"
    using c assms(2) unfolding life_le_def by metis
  then show "\<exists>c. l_creds l1 k = Some c \<and> cred_core c3 = cred_core c \<and> (cr_Used c \<longrightarrow> cr_Used c3)"
    using k assms(1) unfolding life_le_def by metis
qed (use assms in \<open>auto simp: life_le_def\<close>)

lemma cred_core_spent [simp]: "cred_core (spent c) = cred_core c"
  by (simp add: cred_core_def spent_def)

lemma life_step_le:
  assumes "life_step hash l l'" "life_ok hash l"
  shows "life_le l l'"
  using assms(1) by cases (use life_okD(2,3)[OF assms(2)] in \<open>auto simp: life_le_def\<close>)

end
