(* ===== verification/Agent_Refine.thy ===== *)
theory Agent_Refine
  imports Agent_System
begin

text \<open>
  Every transaction of the OAuth server and of its cleanup, run on a store that satisfies the
  invariant, is a step of the specification of \<open>Agent_System\<close>. Captured variables enter a transaction
  as they are after earlier attempts (\<open>compat\<close>).
\<close>

section \<open>Transactions as events\<close>

datatype agent_event =
    EAuthorize string agent_pending
  | EDeny consent_input agent_pending
  | EAllow consent_input "string \<times> string \<times> string" string string string agent_pending
  | ERedeem token_form string string agent_credential agent_grant
  | EIssue string string agent_grant
  | ERevokeGrant string
  | ERevokeToken string string
  | EDeleteGrant string string
  | EAcquire string bool string "agent_session option" agent_grant
  | ERelease string string bool "string option"
  | ECheck string agent_grant
  | ETouch string
  | EMaintain string string

fun agent_body :: "auth \<Rightarrow> ('v, doc) codec \<Rightarrow> agent_event \<Rightarrow> ('v, unit) txm" where
  "agent_body a cd (EAuthorize handle p) = authorize_tx a cd handle p"
| "agent_body a cd (EDeny inp p) = tx_void (uncap (consent_deny a cd inp) p)"
| "agent_body a cd (EAllow inp identity grantID encrypted code p) =
     (let g = consent_grant a p identity grantID encrypted in
      tx_void (uncap (consent_allow a cd inp g (consent_credential a p g) code) p))"
| "agent_body a cd (ERedeem f kind secret c g) = tx_void (uncap (redeem a cd f kind secret) (c, g))"
| "agent_body a cd (EIssue access refresh g) = tx_void (uncap (issue a cd access refresh) g)"
| "agent_body a cd (ERevokeGrant i) = revokeGrant cd i"
| "agent_body a cd (ERevokeToken tok client) = revoke_token a cd tok client"
| "agent_body a cd (EDeleteGrant uid i) = deleteGrant_tx cd uid i"
| "agent_body a cd (EAcquire i force lease cached g) = tx_void (uncap (acquire a cd i force lease cached) g)"
| "agent_body a cd (ERelease i lease refused encrypted) = release a cd i lease refused encrypted"
| "agent_body a cd (ECheck secret g) = tx_void (uncap (gateway_check a cd secret) g)"
| "agent_body a cd (ETouch i) = gateway_touch a cd i"
| "agent_body a cd (EMaintain c i) = maintain_tx cd (aa_agentHash a) (aa_now a) (c @ ''/'') (raftRef c i)"

text \<open>The random values an event draws.\<close>

fun ev_ids :: "agent_event \<Rightarrow> string set" where
  "ev_ids (EAllow inp identity grantID encrypted code p) = {grantID}"
| "ev_ids _ = {}"

fun ev_keys :: "auth \<Rightarrow> agent_event \<Rightarrow> string set" where
  "ev_keys a (EAllow inp identity grantID encrypted code p) = {aa_agentHash a code}"
| "ev_keys a (EIssue access refresh g) = {aa_agentHash a access, aa_agentHash a refresh}"
| "ev_keys a _ = {}"

text \<open>The captured variables of an event against the store it runs on. The stored pending consent is
  asked for with an unused record, and cleanup visits the agent collections only.\<close>

fun ev_ok :: "auth \<Rightarrow> (string \<Rightarrow> doc option) \<Rightarrow> agent_event \<Rightarrow> bool" where
  "ev_ok a D (EAuthorize handle p) = (\<not> ap_Used p)"
| "ev_ok a D (EDeny inp p0) = (\<forall>p. pend_at D (aa_agentHash a (ci_Handle inp)) = Some p \<longrightarrow> compat_pend p0 p)"
| "ev_ok a D (EAllow inp identity grantID encrypted code p0) =
     (\<forall>p. pend_at D (aa_agentHash a (ci_Handle inp)) = Some p \<longrightarrow> compat_pend p0 p)"
| "ev_ok a D (ERedeem f kind secret c0 g0) =
     (\<forall>c. cred_at D (aa_agentHash a secret) = Some c \<longrightarrow> compat_cred c0 c
        \<and> (\<forall>g. grant_at D (cr_GrantID c) = Some g \<longrightarrow> compat_grant g0 g))"
| "ev_ok a D (EIssue access refresh g0) = (\<forall>g. grant_at D (ag_ID g0) = Some g \<longrightarrow> compat_grant g0 g)"
| "ev_ok a D (EAcquire i force lease cached g0) = (\<forall>g. grant_at D i = Some g \<longrightarrow> compat_grant g0 g)"
| "ev_ok a D (EMaintain c i) = (c @ ''/'' \<in> set agent_prefixes)"
| "ev_ok a D _ = True"

definition life_of :: "(string \<Rightarrow> doc option) \<Rightarrow> string set \<Rightarrow> string set \<Rightarrow> life" where
  "life_of D ids keys = \<lparr>l_grants = grant_at D, l_creds = cred_at D, l_pend = pend_at D,
     l_index = grant_index D, l_ids = ids, l_keys = keys\<rparr>"

lemma life_of_simps [simp]:
  "l_grants (life_of D ids keys) = grant_at D" "l_creds (life_of D ids keys) = cred_at D"
  "l_pend (life_of D ids keys) = pend_at D" "l_index (life_of D ids keys) = grant_index D"
  "l_ids (life_of D ids keys) = ids" "l_keys (life_of D ids keys) = keys"
  by (simp_all add: life_of_def)

section \<open>Effects of the transactions\<close>

text \<open>A write of one grant that keeps its identity.\<close>

lemma life_amend:
  assumes "grant_at D i = Some g" "amends g g'"
  shows "life_step hash (life_of D ids keys) (life_of (D(grant_key i \<mapsto> DAgentGrant g')) ids keys)"
  using life_step.amend[of "life_of D ids keys" i g g' hash] assms by (simp add: life_of_def as_defs)

lemma amends_fields [simp]:
  "amends g (revoked g)" "amends g (g\<lparr>ag_LastUsedAt := n\<rparr>)" "amends g (extended g now)"
  "amends g (g\<lparr>ag_Lease := x, ag_LeaseUntil := n\<rparr>)" "amends g (revoked (g\<lparr>ag_Lease := x, ag_LeaseUntil := n\<rparr>))"
  "amends g (g\<lparr>ag_Lease := x, ag_LeaseUntil := n, ag_FirebaseRefresh := y\<rparr>)"
  by (simp_all add: amends_def grant_core_def revoked_def extended_def Let_def)

text \<open>Read a grant, change it, write it back: the shape of most transactions.\<close>

lemma amend_write:
  assumes "Set cd (grant_key j) (DAgentGrant g') t = (Inr x, u)" "good_env cd (tx_read t)"
    and "grant_at (docs cd t) i = Some g" "amends g g'" "j = i"
  shows "life_step hash (life_of (docs cd t) ids keys) (life_of (docs cd u) ids keys)"
proof -
  have "docs cd u = (docs cd t)(grant_key i \<mapsto> DAgentGrant g')" using assms(1,2,5) by (auto elim!: Set_InrE)
  then show ?thesis using life_amend[OF assms(3,4)] by simp
qed

lemma life_same: "cur u = cur t \<Longrightarrow> life_step hash (life_of (docs cd t) ids keys) (life_of (docs cd u) ids keys)"
  by (simp add: stutter)

lemma revokeGrant_life:
  assumes "revokeGrant cd i t = (Inr x, u)" "good_env cd (tx_read t)"
  shows "life_step hash (life_of (docs cd t) ids keys) (life_of (docs cd u) ids keys)"
proof -
  from assms(1) obtain g t1 where 1: "Get cd asAgentGrant (grant_key i) t = (Inr g, t1)"
    and 2: "Set cd (grant_key i) (DAgentGrant (revoked g)) t1 = (Inr x, u)"
    unfolding revokeGrant_def by (elim tx_bind_InrE)
  note g = Get_grant[OF 1]
  show ?thesis using amend_write[OF 2] g assms(2) by simp
qed

lemma revoke_token_life:
  assumes "revoke_token a cd tok client t = (Inr x, u)" "good_env cd (tx_read t)" "life_ok hash (life_of (docs cd t) ids keys)"
  shows "life_step hash (life_of (docs cd t) ids keys) (life_of (docs cd u) ids keys)"
proof -
  let ?G = "\<lambda>c :: agent_credential. tx_bind (Get cd asAgentGrant (grant_key (cr_GrantID c))) (\<lambda>g.
           Set cd (grant_key (ag_ID g)) (DAgentGrant (revoked g)))"
  from assms(1) obtain found t1 where
    1: "tx_optional (Get cd asAgentCredential (credential_key (aa_agentHash a tok))) t = (Inr found, t1)"
    and 2: "(case found of None \<Rightarrow> tx_return ()
     | Some c \<Rightarrow> if cr_Kind c \<noteq> ''access'' \<and> cr_Kind c \<noteq> ''refresh'' then tx_return ()
         else if client \<noteq> [] \<and> client \<noteq> cr_ClientID c then tx_return () else ?G c) t1 = (Inr x, u)"
    unfolding revoke_token_def by (elim tx_bind_InrE[of "tx_optional _"])
  note c = Get_credential[OF 1 assms(2)]
  have "u = t1 \<or> ?G (the found) t1 = (Inr x, u)"
    using 2 by (cases found) (simp_all del: tx_bind_app split: if_splits)
  then consider "u = t1" | c' where "?G c' t1 = (Inr x, u)" by blast
  then show ?thesis
  proof cases
    case (2 c')
    from 2 obtain g t2 where 3: "Get cd asAgentGrant (grant_key (cr_GrantID c')) t1 = (Inr g, t2)"
      and 4: "Set cd (grant_key (ag_ID g)) (DAgentGrant (revoked g)) t2 = (Inr x, u)" by (elim tx_bind_InrE)
    note g = Get_grant[OF 3]
    have "ag_ID g = cr_GrantID c'" using life_okD(1)[OF assms(3), of "cr_GrantID c'" g] g(1) c(2) by simp
    then show ?thesis using amend_write[OF 4] g c assms(2) by simp
  qed (use c in \<open>auto intro: stutter\<close>)
qed

lemma deleteGrant_life:
  assumes "deleteGrant_tx cd uid i t = (Inr x, u)" "good_env cd (tx_read t)"
  shows "life_step hash (life_of (docs cd t) ids keys) (life_of (docs cd u) ids keys)"
proof -
  from assms(1) obtain g t1 where 1: "Get cd asAgentGrant (grant_key i) t = (Inr g, t1)"
    and 2: "Set cd (grant_key i) (DAgentGrant (revoked g)) t1 = (Inr x, u)"
    unfolding deleteGrant_tx_def by (elim tx_bind_InrE tx_guard_InrE) simp
  note g = Get_grant[OF 1]
  show ?thesis using amend_write[OF 2] g assms(2) by simp
qed

lemma release_life:
  assumes "release a cd i lease refused encrypted t = (Inr x, u)" "good_env cd (tx_read t)"
  shows "life_step hash (life_of (docs cd t) ids keys) (life_of (docs cd u) ids keys)"
proof -
  let ?g = "\<lambda>g. if refused then revoked (g\<lparr>ag_Lease := [], ag_LeaseUntil := 0\<rparr>)
      else case encrypted of None \<Rightarrow> g\<lparr>ag_Lease := [], ag_LeaseUntil := 0\<rparr>
        | Some y \<Rightarrow> g\<lparr>ag_Lease := [], ag_LeaseUntil := 0, ag_FirebaseRefresh := y\<rparr>"
  from assms(1) obtain g t1 where 1: "Get cd asAgentGrant (grant_key i) t = (Inr g, t1)"
    and 2: "Set cd (grant_key i) (DAgentGrant (?g g)) t1 = (Inr x, u)"
    unfolding release_def Let_def by (elim tx_bind_InrE tx_guard_InrE) simp
  note g = Get_grant[OF 1]
  have "amends g (?g g)" by (simp split: option.split)
  then show ?thesis using amend_write[OF 2] g assms(2) by simp
qed

lemma gateway_touch_life:
  assumes "gateway_touch a cd i t = (Inr x, u)" "good_env cd (tx_read t)" "life_ok hash (life_of (docs cd t) ids keys)"
  shows "life_step hash (life_of (docs cd t) ids keys) (life_of (docs cd u) ids keys)"
proof -
  from assms(1) obtain g t1 where 1: "Get cd asAgentGrant (grant_key i) t = (Inr g, t1)"
    and 2: "u = t1 \<or> Set cd (grant_key (ag_ID g)) (DAgentGrant (g\<lparr>ag_LastUsedAt := aa_now a\<rparr>)) t1 = (Inr x, u)"
    unfolding gateway_touch_def by (elim tx_bind_InrE tx_guard_InrE) (auto split: if_splits)
  note g = Get_grant[OF 1]
  have "ag_ID g = i" using life_okD(1)[OF assms(3), of i g] g(1) by simp
  then show ?thesis using 2 amend_write[of cd "ag_ID g" _ t1 x u i g] g assms(2) by (auto intro: stutter)
qed

lemma acquire_life:
  assumes "uncap (acquire a cd i force lease cached) g0 t = (Inr y, u)" "good_env cd (tx_read t)"
    and "\<And>g. grant_at (docs cd t) i = Some g \<Longrightarrow> compat_grant g0 g"
  shows "life_step hash (life_of (docs cd t) ids keys) (life_of (docs cd u) ids keys)"
proof -
  let ?g = "\<lambda>g. (merge_grant g g0)\<lparr>ag_Lease := lease, ag_LeaseUntil := aa_now a + 15 * second\<rparr>"
  from assms(1) obtain g t1 where 1: "Get cd asAgentGrant (grant_key i) t = (Inr g, t1)"
    and 2: "u = t1 \<or> (\<exists>x. Set cd (grant_key i) (DAgentGrant (?g g)) t1 = (Inr x, u))"
    unfolding acquire_def Let_def uncap_steps
    by (auto simp del: tx_bind_app split: if_splits elim!: tx_bind_InrE tx_return_InrE)
  note g = Get_grant[OF 1]
  have "amends g (?g g)" using merge_grant_core[OF assms(3)[OF g(1)]] by (simp add: amends_def grant_core_def)
  then show ?thesis using 2 amend_write[of cd i _ t1 _ u i g] g assms(2) by (auto intro: stutter)
qed

lemma gateway_check_life:
  assumes "uncap (gateway_check a cd secret) g0 t = (Inr y, u)" "good_env cd (tx_read t)"
  shows "life_step hash (life_of (docs cd t) ids keys) (life_of (docs cd u) ids keys)"
proof -
  have "cur u = cur t"
    using assms(1) unfolding gateway_check_def uncap_steps
    by (auto simp del: tx_bind_app split: if_splits option.splits elim!: tx_bind_InrE tx_return_InrE tx_optional_InrE Get_InrE Get_missingE)
  then show ?thesis by (rule life_same)
qed


section \<open>The token endpoint\<close>

text \<open>The outcomes of the redemption of a credential, with the captured variables \<open>(c0, g0)\<close> before and
  \<open>(c', g')\<close> after.\<close>

lemma redeem_cases:
  assumes "uncap (redeem a cd f kind secret) (c0, g0) t = (Inr (invalid, c', g'), u)" "good_env cd (tx_read t)"
  obtains (unknown) "cred_at (docs cd t) (aa_agentHash a secret) = None" "invalid" "docs cd u = docs cd t"
      "c' = c0" "g' = g0"
  | (mismatch) c where "cred_at (docs cd t) (aa_agentHash a secret) = Some c" "invalid" "docs cd u = docs cd t"
      "cr_Kind (merge_credential c c0) \<noteq> kind \<or> cr_ClientID (merge_credential c c0) \<noteq> tf_client_id f"
      "c' = merge_credential c c0" "g' = g0"
  | (replay) c g where "cred_at (docs cd t) (aa_agentHash a secret) = Some c"
      "cr_Kind (merge_credential c c0) = kind" "cr_ClientID (merge_credential c c0) = tf_client_id f"
      "grant_at (docs cd t) (cr_GrantID (merge_credential c c0)) = Some g" "cr_Used (merge_credential c c0)" "invalid"
      "docs cd u = (docs cd t)(grant_key (ag_ID (merge_grant g g0)) \<mapsto> DAgentGrant (revoked (merge_grant g g0)))"
      "c' = merge_credential c c0" "g' = revoked (merge_grant g g0)"
  | (refused) c g where "cred_at (docs cd t) (aa_agentHash a secret) = Some c"
      "cr_Kind (merge_credential c c0) = kind" "cr_ClientID (merge_credential c c0) = tf_client_id f"
      "grant_at (docs cd t) (cr_GrantID (merge_credential c c0)) = Some g" "\<not> cr_Used (merge_credential c c0)" "invalid"
      "\<not> aa_now a < cr_ExpiresAt (merge_credential c c0) \<or> \<not> agentGrantLive (merge_grant g g0) (aa_now a)
        \<or> ag_Resource (merge_grant g g0) \<noteq> aa_Resource a \<or> (kind = ''code'' \<and> \<not> pkce_ok a f (merge_credential c c0))"
      "docs cd u = docs cd t" "c' = merge_credential c c0" "g' = merge_grant g g0"
  | (accepted) c g where "cred_at (docs cd t) (aa_agentHash a secret) = Some c"
      "cr_Kind (merge_credential c c0) = kind" "cr_ClientID (merge_credential c c0) = tf_client_id f"
      "grant_at (docs cd t) (cr_GrantID (merge_credential c c0)) = Some g" "\<not> cr_Used (merge_credential c c0)" "\<not> invalid"
      "aa_now a < cr_ExpiresAt (merge_credential c c0)" "agentGrantLive (merge_grant g g0) (aa_now a)"
      "ag_Resource (merge_grant g g0) = aa_Resource a" "kind = ''code'' \<Longrightarrow> pkce_ok a f (merge_credential c c0)"
      "docs cd u = (docs cd t)(credential_key (aa_agentHash a secret) \<mapsto> DAgentCredential (spent (merge_credential c c0)))"
      "c' = spent (merge_credential c c0)" "g' = merge_grant g g0"
proof -
  let ?k = "credential_key (aa_agentHash a secret)"
  let ?final = "\<lambda>c g. if cr_Used c then
         tx_bind (Set cd (grant_key (ag_ID g)) (DAgentGrant (revoked g))) (\<lambda>_. tx_return (True, c, revoked g))
       else if \<not> aa_now a < cr_ExpiresAt c \<or> \<not> agentGrantLive g (aa_now a) \<or> ag_Resource g \<noteq> aa_Resource a
         then tx_return (True, c, g)
       else if kind = ''code'' \<and> \<not> pkce_ok a f c then tx_return (True, c, g)
       else tx_bind (Set cd ?k (DAgentCredential (c\<lparr>cr_Used := True\<rparr>))) (\<lambda>_. tx_return (False, c\<lparr>cr_Used := True\<rparr>, g))"
  let ?rest = "\<lambda>saved. let c = merge_credential saved c0 in
      if cr_Kind c \<noteq> kind \<or> cr_ClientID c \<noteq> tf_client_id f then tx_return (True, c, g0)
      else tx_bind (Get cd asAgentGrant (grant_key (cr_GrantID c))) (\<lambda>x. ?final c (merge_grant x g0))"
  have body: "uncap (redeem a cd f kind secret) (c0, g0) = tx_bind (tx_optional (Get cd asAgentCredential ?k)) (\<lambda>found.
      case found of None \<Rightarrow> tx_return (True, c0, g0) | Some saved \<Rightarrow> ?rest saved)"
    unfolding redeem_def Let_def uncap_steps ..
  from assms(1)[unfolded body] obtain found t1 where 1: "tx_optional (Get cd asAgentCredential ?k) t = (Inr found, t1)"
    and 2: "(case found of None \<Rightarrow> tx_return (True, c0, g0) | Some saved \<Rightarrow> ?rest saved) t1 = (Inr (invalid, c', g'), u)"
    by (elim tx_bind_InrE)
  note c = Get_credential[OF 1 assms(2)]
  show thesis
  proof (cases found)
    case None
    then show thesis using 2 c unknown by simp
  next
    case (Some saved)
    let ?c = "merge_credential saved c0"
    note found = c(1)[unfolded Some]
    show thesis
    proof (cases "cr_Kind ?c \<noteq> kind \<or> cr_ClientID ?c \<noteq> tf_client_id f")
      case True
      from 2[unfolded Some option.case Let_def if_P[OF True]] have "u = t1" "invalid" "c' = ?c" "g' = g0" by simp_all
      then show thesis using c(2) True mismatch[OF found] by simp
    next
      case False
      from 2[unfolded Some option.case Let_def if_not_P[OF False]] obtain g t2 where
        3: "Get cd asAgentGrant (grant_key (cr_GrantID ?c)) t1 = (Inr g, t2)"
        and 4: "?final ?c (merge_grant g g0) t2 = (Inr (invalid, c', g'), u)" by (elim tx_bind_InrE)
      note g = Get_grant[OF 3, unfolded c(2,3)]
      have env: "good_env cd (tx_read t2)" using assms(2) g(3) c(3) by simp
      have docs2: "docs cd t2 = docs cd t" using g(2) c(2) by simp
      show thesis
      proof (cases "cr_Used ?c")
        case True
        from 4[unfolded if_P[OF True]] obtain y where
          w: "Set cd (grant_key (ag_ID (merge_grant g g0))) (DAgentGrant (revoked (merge_grant g g0))) t2 = (Inr y, u)"
          and "invalid" "c' = ?c" "g' = revoked (merge_grant g g0)"
          by (elim tx_bind_InrE tx_return_InrE) simp
        moreover have "docs cd u = (docs cd t)(grant_key (ag_ID (merge_grant g g0)) \<mapsto> DAgentGrant (revoked (merge_grant g g0)))"
          using w env docs2 by (auto elim!: Set_InrE)
        ultimately show thesis using True False by (intro replay[OF found _ _ g(1)]) simp_all
      next
        case unused: False
        show thesis
        proof (cases "\<not> aa_now a < cr_ExpiresAt ?c \<or> \<not> agentGrantLive (merge_grant g g0) (aa_now a)
           \<or> ag_Resource (merge_grant g g0) \<noteq> aa_Resource a \<or> (kind = ''code'' \<and> \<not> pkce_ok a f ?c)")
          case True
          then have "u = t2" "invalid" "c' = ?c" "g' = merge_grant g g0"
            using 4[unfolded if_not_P[OF unused]] by (auto simp del: tx_bind_app split: if_splits)
          then show thesis using True unused False docs2 by (intro refused[OF found _ _ g(1)]) simp_all
        next
          case ok: False
          then have "tx_bind (Set cd ?k (DAgentCredential (spent ?c))) (\<lambda>_. tx_return (False, spent ?c, merge_grant g g0)) t2
              = (Inr (invalid, c', g'), u)"
            using 4[unfolded if_not_P[OF unused]] by (simp del: tx_bind_app add: spent_def split: if_splits)
          then obtain y where w: "Set cd ?k (DAgentCredential (spent ?c)) t2 = (Inr y, u)"
            and "\<not> invalid" "c' = spent ?c" "g' = merge_grant g g0" by (elim tx_bind_InrE tx_return_InrE) simp
          moreover have "docs cd u = (docs cd t)(?k \<mapsto> DAgentCredential (spent ?c))"
            using w env docs2 by (auto elim!: Set_InrE)
          ultimately show thesis using ok unused False by (intro accepted[OF found _ _ g(1)]) simp_all
        qed
      qed
    qed
  qed
qed


lemma core_fields:
  "cred_core c = cred_core c' \<Longrightarrow> cr_GrantID c = cr_GrantID c' \<and> cr_Kind c = cr_Kind c' \<and> cr_ClientID c = cr_ClientID c'
     \<and> cr_RedirectURI c = cr_RedirectURI c' \<and> cr_Challenge c = cr_Challenge c' \<and> cr_ExpiresAt c = cr_ExpiresAt c'
     \<and> cr_RetainUntil c = cr_RetainUntil c'"
  by (cases c; cases c') (simp add: cred_core_def)

lemma core_unused: "cred_core c = cred_core c' \<Longrightarrow> cr_Used c = cr_Used c' \<Longrightarrow> c = c'"
  by (cases c; cases c') (simp add: cred_core_def)

lemma merge_amends: "compat_grant g0 g \<Longrightarrow> amends g (merge_grant g g0)"
  using merge_grant_core by (simp add: amends_def)

text \<open>A captured credential that was not used is the stored one.\<close>

lemma merge_unused: "compat_cred c0 c \<Longrightarrow> \<not> cr_Used (merge_credential c c0) \<Longrightarrow> merge_credential c c0 = c \<and> \<not> cr_Used c"
  using merge_cred_core[of c0 c] core_unused by blast

lemma life_spend:
  assumes "cred_at D k = Some c" "\<not> cr_Used c"
  shows "life_step hash (life_of D ids keys) (life_of (D(credential_key k \<mapsto> DAgentCredential (spent c))) ids keys)"
  using life_step.spend[of "life_of D ids keys" k c hash] assms by (simp add: life_of_def as_defs)

lemma redeem_life:
  assumes "uncap (redeem a cd f kind secret) (c0, g0) t = (Inr (invalid, c', g'), u)" "good_env cd (tx_read t)"
    and ok: "life_ok hash (life_of (docs cd t) ids keys)" and ev: "ev_ok a (docs cd t) (ERedeem f kind secret c0 g0)"
  shows "life_step hash (life_of (docs cd t) ids keys) (life_of (docs cd u) ids keys)"
  using assms(1,2)
proof (cases rule: redeem_cases)
  case (replay c g)
  have cc: "compat_cred c0 c" using ev replay(1) by simp
  then have i: "cr_GrantID (merge_credential c c0) = cr_GrantID c" using merge_cred_core(1) core_fields by blast
  then have cg: "compat_grant g0 g" using ev replay(1,4) by simp
  have id: "ag_ID (merge_grant g g0) = cr_GrantID c"
    using life_okD(1)[OF ok, of "cr_GrantID c" g] replay(4) i amends_core(1)[OF merge_amends[OF cg]] by simp
  have "amends g (revoked (merge_grant g g0))" using amends_trans[OF merge_amends[OF cg]] by simp
  then show ?thesis unfolding replay(7) id using life_amend replay(4) i by simp
next
  case (accepted c g)
  have "compat_cred c0 c" using ev accepted(1) by simp
  then have "merge_credential c c0 = c" "\<not> cr_Used c" using merge_unused accepted(5) by blast+
  then show ?thesis unfolding accepted(11) using life_spend[OF accepted(1)] by simp
qed (auto intro: stutter)

lemma issue_cases:
  assumes "uncap (issue a cd access refresh) g0 t = (Inr (x, g'), u)" "good_env cd (tx_read t)"
  obtains g where "grant_at (docs cd t) (ag_ID g0) = Some g" "agentGrantLive (merge_grant g g0) (aa_now a)"
    "g' = extended (merge_grant g g0) (aa_now a)"
    "cred_at (docs cd t) (aa_agentHash a access) = None" "cred_at (docs cd t) (aa_agentHash a refresh) = None"
    "aa_agentHash a access \<noteq> aa_agentHash a refresh"
    "docs cd u = (docs cd t)(grant_key (ag_ID (merge_grant g g0)) \<mapsto> DAgentGrant g',
       credential_key (aa_agentHash a access) \<mapsto> DAgentCredential (access_credential g' (aa_now a)),
       credential_key (aa_agentHash a refresh) \<mapsto> DAgentCredential (refresh_credential g'))"
proof -
  let ?g = "\<lambda>g. extended (merge_grant g g0) (aa_now a)"
  let ?ka = "credential_key (aa_agentHash a access)" and ?kr = "credential_key (aa_agentHash a refresh)"
  from assms(1) obtain g t1 x2 t2 x3 t3 where 1: "Get cd asAgentGrant (grant_key (ag_ID g0)) t = (Inr g, t1)"
    and live: "agentGrantLive (merge_grant g g0) (aa_now a)" and g': "g' = ?g g"
    and 2: "Set cd (grant_key (ag_ID (merge_grant g g0))) (DAgentGrant (?g g)) t1 = (Inr x2, t2)"
    and 3: "Create cd ?ka (DAgentCredential (access_credential (?g g) (aa_now a))) t2 = (Inr x3, t3)"
    and 4: "Create cd ?kr (DAgentCredential (refresh_credential (?g g))) t3 = (Inr x, u)"
    unfolding issue_def uncap_steps
    by (auto simp del: tx_bind_app split: if_splits elim!: tx_bind_InrE tx_return_InrE tx_throw_InrE)
  note g = Get_grant[OF 1]
  have e2: "docs cd t2 = (docs cd t)(grant_key (ag_ID (merge_grant g g0)) \<mapsto> DAgentGrant (?g g))" "tx_read t2 = tx_read t"
    using 2 g assms(2) by (auto elim!: Set_InrE)
  have e3: "docs cd t2 ?ka = None" "docs cd t3 = (docs cd t2)(?ka \<mapsto> DAgentCredential (access_credential (?g g) (aa_now a)))"
    "tx_read t3 = tx_read t" using 3 e2 assms(2) by (auto elim!: Create_InrE)
  have e4: "docs cd t3 ?kr = None" "docs cd u = (docs cd t3)(?kr \<mapsto> DAgentCredential (refresh_credential (?g g)))"
    using 4 e3 assms(2) by (auto elim!: Create_InrE)
  have "aa_agentHash a access \<noteq> aa_agentHash a refresh" using e3(2) e4(1) by auto
  moreover have "docs cd t ?ka = None" "docs cd t ?kr = None"
    using e3(1,2) e4(1) e2(1) by (auto simp: key_simps split: if_splits)
  ultimately show thesis
    by (intro that[OF g(1) live g']) (use e2 e3 e4 g' in \<open>simp_all add: cred_at_def\<close>)
qed


lemma credential_of_new [simp]: "credential_of g (access_credential g now)" "credential_of g (refresh_credential g)"
  by (simp_all add: credential_of_def access_credential_def refresh_credential_def zero_credential_def)

lemma credential_of_amends: "amends g g' \<Longrightarrow> credential_of g' c \<Longrightarrow> credential_of g c"
  using amends_core[of g g'] by (simp add: credential_of_def)

lemma issue_life:
  assumes "uncap (issue a cd access refresh) g0 t = (Inr (x, g'), u)" "good_env cd (tx_read t)"
    and ok: "life_ok hash (life_of (docs cd t) ids keys)" and ev: "ev_ok a (docs cd t) (EIssue access refresh g0)"
    and keys: "ev_keys a (EIssue access refresh g0) \<inter> keys = {}"
  shows "life_step hash (life_of (docs cd t) ids keys) (life_of (docs cd u) ids (ev_keys a (EIssue access refresh g0) \<union> keys))"
  using assms(1,2)
proof (rule issue_cases)
  fix g assume g: "grant_at (docs cd t) (ag_ID g0) = Some g" "agentGrantLive (merge_grant g g0) (aa_now a)"
    "g' = extended (merge_grant g g0) (aa_now a)"
    and new: "cred_at (docs cd t) (aa_agentHash a access) = None" "cred_at (docs cd t) (aa_agentHash a refresh) = None"
      "aa_agentHash a access \<noteq> aa_agentHash a refresh"
    and d: "docs cd u = (docs cd t)(grant_key (ag_ID (merge_grant g g0)) \<mapsto> DAgentGrant g',
       credential_key (aa_agentHash a access) \<mapsto> DAgentCredential (access_credential g' (aa_now a)),
       credential_key (aa_agentHash a refresh) \<mapsto> DAgentCredential (refresh_credential g'))"
  have cg: "compat_grant g0 g" using ev g(1) by simp
  have am: "amends g g'" unfolding g(3) using amends_trans[OF merge_amends[OF cg]] by simp
  have id: "ag_ID (merge_grant g g0) = ag_ID g0"
    using life_okD(1)[OF ok, of "ag_ID g0" g] g(1) amends_core(1)[OF merge_amends[OF cg]] by simp
  have live: "\<not> ag_Revoked g" using g(2) amends_core(7)[OF merge_amends[OF cg]] by (auto simp: agentGrantLive_def)
  have "life_step hash (life_of (docs cd t) ids keys) ((life_of (docs cd t) ids keys)\<lparr>l_grants := (grant_at (docs cd t))(ag_ID g0 \<mapsto> g'),
      l_creds := (cred_at (docs cd t))(aa_agentHash a access \<mapsto> access_credential g' (aa_now a),
        aa_agentHash a refresh \<mapsto> refresh_credential g'),
      l_keys := insert (aa_agentHash a access) (insert (aa_agentHash a refresh) keys)\<rparr>)"
    using life_step.renew[of "life_of (docs cd t) ids keys" "ag_ID g0" g g' "aa_agentHash a access" "aa_agentHash a refresh"
        "access_credential g' (aa_now a)" "refresh_credential g'" hash]
      g(1) live am new keys credential_of_amends[OF am] by simp
  then show ?thesis by (simp add: life_of_def d id as_defs)
qed

section \<open>Consent\<close>

lemma Get_pending:
  assumes "Get cd asAgentPending (pending_key k) t = (Inr p, u)"
  shows "pend_at (docs cd t) k = Some p" "cur u = cur t" "tx_read u = tx_read t"
  using assms by (auto simp: pend_at_def elim!: Get_InrE)

lemma pend_core_unused: "pend_core p = pend_core p' \<Longrightarrow> ap_Used p = ap_Used p' \<Longrightarrow> p = p'"
  by (cases p; cases p') (simp add: pend_core_def)

lemma merge_pend_unused:
  "compat_pend p0 p \<Longrightarrow> \<not> ap_Used (merge_pending p p0) \<Longrightarrow> merge_pending p p0 = p \<and> \<not> ap_Used p"
  using merge_pend_core[of p0 p] pend_core_unused by blast

lemma authorize_life:
  assumes "authorize_tx a cd handle p t = (Inr x, u)" "good_env cd (tx_read t)" "\<not> ap_Used p"
  shows "life_step hash (life_of (docs cd t) ids keys) (life_of (docs cd u) ids keys)"
proof -
  let ?k = "aa_agentHash a handle"
  have d: "docs cd t (pending_key ?k) = None" "docs cd u = (docs cd t)(pending_key ?k \<mapsto> DAgentPending p)"
    using assms(1,2) unfolding authorize_tx_def by (auto elim!: Create_InrE)
  have "pend_at (docs cd t) ?k = None" by (simp add: pend_at_def d(1))
  then show ?thesis using life_step.ask[of "life_of (docs cd t) ids keys" ?k p hash] assms(3)
    by (simp add: life_of_def d(2) as_defs)
qed

lemma deny_cases:
  assumes "uncap (consent_deny a cd inp) p0 t = (Inr (x, p'), u)" "good_env cd (tx_read t)"
  obtains p where "pend_at (docs cd t) (aa_agentHash a (ci_Handle inp)) = Some p"
    "consent_check a inp (merge_pending p p0)" "p' = answered (merge_pending p p0)"
    "docs cd u = (docs cd t)(pending_key (aa_agentHash a (ci_Handle inp)) \<mapsto> DAgentPending (answered (merge_pending p p0)))"
proof -
  let ?k = "pending_key (aa_agentHash a (ci_Handle inp))"
  from assms(1) obtain p t1 y where 1: "Get cd asAgentPending ?k t = (Inr p, t1)"
    and c: "consent_check a inp (merge_pending p p0)" and p': "p' = answered (merge_pending p p0)"
    and 2: "Set cd ?k (DAgentPending (answered (merge_pending p p0))) t1 = (Inr y, u)"
    unfolding consent_deny_def consent_look_def consent_use_def uncap_steps answered_def
    by (auto simp del: tx_bind_app split: if_splits elim!: tx_bind_InrE tx_return_InrE tx_throw_InrE)
  note p = Get_pending[OF 1]
  have "docs cd u = (docs cd t)(?k \<mapsto> DAgentPending (answered (merge_pending p p0)))"
    using 2 p assms(2) by (auto elim!: Set_InrE)
  then show thesis by (rule that[OF p(1) c p'])
qed

lemma deny_life:
  assumes "uncap (consent_deny a cd inp) p0 t = (Inr (x, p'), u)" "good_env cd (tx_read t)"
    and ev: "ev_ok a (docs cd t) (EDeny inp p0)"
  shows "life_step hash (life_of (docs cd t) ids keys) (life_of (docs cd u) ids keys)"
  using assms(1,2)
proof (rule deny_cases)
  let ?k = "aa_agentHash a (ci_Handle inp)"
  fix p assume p: "pend_at (docs cd t) ?k = Some p" "consent_check a inp (merge_pending p p0)"
    and d: "docs cd u = (docs cd t)(pending_key ?k \<mapsto> DAgentPending (answered (merge_pending p p0)))"
  have "merge_pending p p0 = p \<and> \<not> ap_Used p"
    using merge_pend_unused p ev by (simp add: consent_check_def)
  then show ?thesis using life_step.answer[of "life_of (docs cd t) ids keys" ?k p hash] p(1)
    by (simp add: life_of_def d as_defs)
qed

lemma live_grants_InrE:
  assumes "live_grants cd now xs t = (Inr active, u)"
  shows "active = filter (\<lambda>i. \<exists>g. grant_at (docs cd t) i = Some g \<and> agentGrantLive g now) xs
    \<and> cur u = cur t \<and> tx_read u = tx_read t"
  using assms
proof (induction xs arbitrary: t active)
  case (Cons i xs)
  from Cons.prems obtain g t1 rest where 1: "Get cd asAgentGrant (grant_key i) t = (Inr g, t1)"
    and 2: "live_grants cd now xs t1 = (Inr rest, u)" and a: "active = (if agentGrantLive g now then i # rest else rest)"
    unfolding live_grants.simps by (elim tx_bind_InrE tx_return_InrE) simp
  show ?case using Cons.IH[OF 2] Get_grant[OF 1] a by simp
qed simp


lemma grant_index_read:
  assumes "tx_optional (Get cd asTexts (owner_grants h)) t = (Inr found, u)" "good_env cd (tx_read t)"
  shows "grant_index (docs cd t) h = (case found of None \<Rightarrow> [] | Some ids \<Rightarrow> ids)" "cur u = cur t" "tx_read u = tx_read t"
  using assms by (auto simp: grant_index_def as_defs elim!: tx_optional_InrE Get_InrE Get_missingE)

lemma allow_cases:
  assumes "uncap (consent_allow a cd inp g c code) p0 t = (Inr (x, p'), u)" "good_env cd (tx_read t)"
  obtains p active where "pend_at (docs cd t) (aa_agentHash a (ci_Handle inp)) = Some p"
    "consent_check a inp (merge_pending p p0)" "p' = answered (merge_pending p p0)"
    "active = filter (\<lambda>i. \<exists>g. grant_at (docs cd t) i = Some g \<and> agentGrantLive g (aa_now a))
       (grant_index (docs cd t) (aa_agentHash a (ag_UID g)))" "length active < 50"
    "grant_at (docs cd t) (ag_ID g) = None" "cred_at (docs cd t) (aa_agentHash a code) = None"
    "docs cd u = (docs cd t)(pending_key (aa_agentHash a (ci_Handle inp)) \<mapsto> DAgentPending p',
       grant_key (ag_ID g) \<mapsto> DAgentGrant g, credential_key (aa_agentHash a code) \<mapsto> DAgentCredential c,
       owner_grants (aa_agentHash a (ag_UID g)) \<mapsto> DTexts (active @ [ag_ID g]))"
proof -
  let ?k = "pending_key (aa_agentHash a (ci_Handle inp))" and ?i = "owner_grants (aa_agentHash a (ag_UID g))"
    and ?g = "grant_key (ag_ID g)" and ?c = "credential_key (aa_agentHash a code)"
  from assms(1) obtain p t1 found t2 active t3 y4 t4 y5 t5 y6 t6 where 1: "Get cd asAgentPending ?k t = (Inr p, t1)"
    and ch: "consent_check a inp (merge_pending p p0)" and p': "p' = answered (merge_pending p p0)"
    and 2: "tx_optional (Get cd asTexts ?i) t1 = (Inr found, t2)"
    and 3: "live_grants cd (aa_now a) (case found of None \<Rightarrow> [] | Some xs \<Rightarrow> xs) t2 = (Inr active, t3)"
    and len: "\<not> length active \<ge> 50"
    and 4: "Set cd ?k (DAgentPending (answered (merge_pending p p0))) t3 = (Inr y4, t4)"
    and 5: "Create cd ?g (DAgentGrant g) t4 = (Inr y5, t5)" and 6: "Create cd ?c (DAgentCredential c) t5 = (Inr y6, t6)"
    and 7: "Set cd ?i (DTexts (active @ [ag_ID g])) t6 = (Inr x, u)"
    unfolding consent_allow_def Let_def consent_look_def consent_use_def uncap_steps answered_def
    by (elim tx_bind_InrE tx_if_InrE tx_throw_InrE tx_guard_InrE tx_return_InrE) (simp del: tx_bind_app)
  note p = Get_pending[OF 1]
  note i = grant_index_read[OF 2, unfolded p(2,3), OF assms(2)]
  note l = live_grants_InrE[OF 3, unfolded i(2,3), folded i(1), unfolded p(2,3)]
  have e4: "docs cd t4 = (docs cd t)(?k \<mapsto> DAgentPending p')" "tx_read t4 = tx_read t"
    using 4 l assms(2) p' by (auto elim!: Set_InrE)
  have e5: "docs cd t4 ?g = None" "docs cd t5 = (docs cd t4)(?g \<mapsto> DAgentGrant g)" "tx_read t5 = tx_read t"
    using 5 e4 assms(2) by (auto elim!: Create_InrE)
  have e6: "docs cd t5 ?c = None" "docs cd t6 = (docs cd t5)(?c \<mapsto> DAgentCredential c)" "tx_read t6 = tx_read t"
    using 6 e5 assms(2) by (auto elim!: Create_InrE)
  have e7: "docs cd u = (docs cd t6)(?i \<mapsto> DTexts (active @ [ag_ID g]))" using 7 e6 assms(2) by (auto elim!: Set_InrE)
  have "docs cd t ?g = None" "docs cd t ?c = None" using e4(1) e5(1,2) e6(1) by (simp_all add: key_simps)
  then show thesis
    by (intro that[OF p(1) ch p']) (use l len e4 e5 e6 e7 in \<open>simp_all add: grant_at_def cred_at_def\<close>)
qed

lemma consent_grant_simps [simp]:
  "ag_ID (consent_grant a p identity grantID encrypted) = grantID"
  "\<not> ag_Revoked (consent_grant a p identity grantID encrypted)"
  "credential_of g (consent_credential a p g)"
  by (simp_all add: consent_grant_def zero_grant_def consent_credential_def credential_of_def zero_credential_def
      split: prod.splits)

lemma allow_life:
  assumes "uncap (consent_allow a cd inp g c code) p0 t = (Inr (x, p'), u)" "good_env cd (tx_read t)"
    and hash: "aa_agentHash a = hash" and g: "\<not> ag_Revoked g" "credential_of g c" "ag_ID g \<notin> ids" "hash code \<notin> keys"
    and ev: "\<And>p. pend_at (docs cd t) (hash (ci_Handle inp)) = Some p \<Longrightarrow> compat_pend p0 p"
  shows "life_step hash (life_of (docs cd t) ids keys) (life_of (docs cd u) (insert (ag_ID g) ids) (insert (hash code) keys))"
  using assms(1,2)
proof (rule allow_cases)
  let ?k = "hash (ci_Handle inp)" and ?D = "docs cd t"
  fix p active assume p: "pend_at ?D (aa_agentHash a (ci_Handle inp)) = Some p" "consent_check a inp (merge_pending p p0)"
      "p' = answered (merge_pending p p0)"
    and act: "active = filter (\<lambda>i. \<exists>g. grant_at ?D i = Some g \<and> agentGrantLive g (aa_now a))
       (grant_index ?D (aa_agentHash a (ag_UID g)))" "length active < 50"
    and new: "grant_at ?D (ag_ID g) = None" "cred_at ?D (aa_agentHash a code) = None"
    and d: "docs cd u = ?D(pending_key (aa_agentHash a (ci_Handle inp)) \<mapsto> DAgentPending p',
       grant_key (ag_ID g) \<mapsto> DAgentGrant g, credential_key (aa_agentHash a code) \<mapsto> DAgentCredential c,
       owner_grants (aa_agentHash a (ag_UID g)) \<mapsto> DTexts (active @ [ag_ID g]))"
  have m: "merge_pending p p0 = p" "\<not> ap_Used p"
    using merge_pend_unused[of p0 p] p ev hash by (auto simp: consent_check_def)
  have "life_step hash (life_of ?D ids keys) ((life_of ?D ids keys)\<lparr>l_grants := (grant_at ?D)(ag_ID g \<mapsto> g),
      l_creds := (cred_at ?D)(hash code \<mapsto> c), l_pend := (pend_at ?D)(?k \<mapsto> answered p),
      l_index := (grant_index ?D)(hash (ag_UID g) := active @ [ag_ID g]),
      l_ids := insert (ag_ID g) ids, l_keys := insert (hash code) keys\<rparr>)"
    using life_step.allow[of "life_of ?D ids keys" ?k p g "hash code" c active "aa_now a" hash] p m act new g hash by simp
  then show ?thesis using m p(3) hash by (simp add: life_of_def d as_defs)
qed


section \<open>Cleanup\<close>

definition life_collections :: "string set" where
  "life_collections = {''agent_grants'', ''agent_credentials'', ''agent_pending'', ''agent_grant_owners''}"

lemma life_of_within:
  assumes "within S D D'" "S \<inter> life_collections = {}"
  shows "life_of D' ids keys = life_of D ids keys"
  using assms unfolding life_collections_def life_of_def
  by (simp add: fun_eq_iff grant_at_def cred_at_def pend_at_def grant_index_def withinD)

lemma maintain_if_cases:
  assumes "maintain_if (Get cd into key) keep (Delete key) t = (Inr x, u)"
  obtains "cur u = cur t"
  | v d where "docs cd t key = Some d" "into d = Some v" "\<not> keep v" "docs cd u = (docs cd t)(key := None)"
proof -
  from assms obtain found t1 where 1: "tx_optional (Get cd into key) t = (Inr found, t1)"
    and 2: "(case found of None \<Rightarrow> tx_return () | Some v \<Rightarrow> if keep v then tx_return () else Delete key) t1 = (Inr x, u)"
    unfolding maintain_if_def by (elim tx_bind_InrE)
  show thesis
  proof (cases found)
    case None
    then show thesis using 1 2 that(1) by (auto elim!: tx_optional_InrE Get_missingE)
  next
    case (Some v)
    then obtain d where d: "docs cd t key = Some d" "into d = Some v" "cur t1 = cur t"
      using 1 by (auto elim!: tx_optional_InrE Get_InrE)
    show thesis
    proof (cases "keep v")
      case True
      then show thesis using 2 Some d(3) that(1) by simp
    next
      case False
      then have "Delete key t1 = (Inr x, u)" using 2 Some by simp
      then have "docs cd u = (docs cd t)(key := None)" using d(3) by (auto elim!: Delete_InrE)
      then show thesis by (rule that(2)[OF d(1,2) False])
    qed
  qed
qed

lemma maintain_other_life:
  assumes "maintain_if (Get cd into (raftRef c i)) keep (Delete (raftRef c i)) t = (Inr x, u)"
    and "plain c" "c \<notin> life_collections"
  shows "life_step hash (life_of (docs cd t) ids keys) (life_of (docs cd u) ids keys)"
  using assms(1)
proof (rule maintain_if_cases)
  assume "docs cd u = (docs cd t)(raftRef c i := None)"
  then have "within {c} (docs cd t) (docs cd u)" using assms(2) by (simp add: within_upd)
  then have "life_of (docs cd u) ids keys = life_of (docs cd t) ids keys" by (rule life_of_within) (use assms(3) in simp)
  then show ?thesis by (simp add: stutter)
qed (rule life_same)

lemma maintain_grant_cases:
  assumes "maintain_grant cd hash now (grant_key i) t = (Inr x, u)" "good_env cd (tx_read t)"
  obtains "docs cd u = docs cd t"
  | (strip) g where "grant_at (docs cd t) i = Some g" "grant_spent now g"
      "docs cd u = (docs cd t)(grant_key i \<mapsto> DAgentGrant (revoked g))"
  | (drop) g where "grant_at (docs cd t) i = Some g" "\<not> now < ag_ExpiresAt g + day"
      "life_of (docs cd u) ids keys = (life_of (docs cd t) ids keys)\<lparr>l_grants := (grant_at (docs cd t))(i := None),
         l_index := (grant_index (docs cd t))(hash (ag_UID g) :=
           filter (\<lambda>j. j \<noteq> ag_ID g) (grant_index (docs cd t) (hash (ag_UID g))))\<rparr>"
proof -
  let ?h = "\<lambda>g. owner_grants (hash (ag_UID g))"
  let ?drop = "\<lambda>g :: agent_grant. tx_bind (tx_optional (Get cd asTexts (?h g))) (\<lambda>ids.
       tx_bind (if filter (\<lambda>i. i \<noteq> ag_ID g) (case ids of None \<Rightarrow> [] | Some xs \<Rightarrow> xs) = [] then Delete (?h g)
                else Set cd (?h g) (DTexts (filter (\<lambda>i. i \<noteq> ag_ID g) (case ids of None \<Rightarrow> [] | Some xs \<Rightarrow> xs)))) (\<lambda>_.
       Delete (grant_key i)))"
  from assms(1) obtain found t1 where 1: "tx_optional (Get cd asAgentGrant (grant_key i)) t = (Inr found, t1)"
    and 2: "(case found of None \<Rightarrow> tx_return () | Some v \<Rightarrow> if now < ag_ExpiresAt v + day then
           (if grant_spent now v then Set cd (grant_key i) (DAgentGrant (revoked v)) else tx_return ())
         else ?drop v) t1 = (Inr x, u)"
    unfolding maintain_grant_def Let_def by (elim tx_bind_InrE[of "tx_optional _"])
  have e1: "grant_at (docs cd t) i = found" "cur t1 = cur t" "tx_read t1 = tx_read t"
    using 1 assms(2) by (auto simp: grant_at_def elim!: tx_optional_InrE Get_InrE Get_missingE)
  show thesis
  proof (cases found)
    case None
    then show thesis using 2 e1 that(1) by simp
  next
    case (Some g)
    note g = e1(1)[unfolded Some]
    show thesis
    proof (cases "now < ag_ExpiresAt g + day")
      case True
      then show thesis using 2 Some e1 assms(2) that(1) strip[OF g] by (auto split: if_splits elim!: Set_InrE)
    next
      case False
      let ?kept = "\<lambda>ids. filter (\<lambda>i. i \<noteq> ag_ID g) (case ids of None \<Rightarrow> [] | Some xs \<Rightarrow> xs)"
      from 2 False Some have "?drop g t1 = (Inr x, u)" by (simp del: tx_bind_app)
      then obtain ids t2 y3 t3 where 3: "tx_optional (Get cd asTexts (?h g)) t1 = (Inr ids, t2)"
        and 4: "(if ?kept ids = [] then Delete (?h g) else Set cd (?h g) (DTexts (?kept ids))) t2 = (Inr y3, t3)"
        and 5: "Delete (grant_key i) t3 = (Inr x, u)" by (elim tx_bind_InrE)
      note ix = grant_index_read[OF 3, unfolded e1, OF assms(2)]
      have "grant_index (docs cd t3) = (grant_index (docs cd t))(hash (ag_UID g) := ?kept ids) \<and> grant_at (docs cd t3) = grant_at (docs cd t)
          \<and> cred_at (docs cd t3) = cred_at (docs cd t) \<and> pend_at (docs cd t3) = pend_at (docs cd t)"
        using 4 ix assms(2) by (auto simp: as_defs split: if_splits elim!: Set_InrE Delete_InrE)
      moreover have "docs cd u = (docs cd t3)(grant_key i := None)" using 5 by (auto elim!: Delete_InrE)
      ultimately show thesis using False ix(1) by (intro drop[OF g]) (simp_all add: life_of_def)
    qed
  qed
qed

lemma maintain_life:
  assumes "maintain_tx cd hash now (c @ ''/'') (raftRef c i) t = (Inr x, u)" "good_env cd (tx_read t)"
    and "c @ ''/'' \<in> set agent_prefixes"
  shows "life_step hash (life_of (docs cd t) ids keys) (life_of (docs cd u) ids keys)"
proof -
  have p: "set agent_prefixes = (\<lambda>c. c @ ''/'') ` {''agent_rate'', ''agent_clients'', ''agent_upload_tickets'',
      ''agent_pending'', ''agent_credentials'', ''agent_grants''}"
    by (auto simp: agent_prefixes_def)
  have "inj (\<lambda>c :: string. c @ ''/'')" by (rule injI) (simp only: append_same_eq)
  then have "c \<in> {''agent_rate'', ''agent_clients'', ''agent_upload_tickets'', ''agent_pending'', ''agent_credentials'', ''agent_grants''}"
    using assms(3) unfolding p by (rule inj_image_mem_iff[THEN iffD1])
  then have "c \<in> {''agent_rate'', ''agent_clients'', ''agent_upload_tickets''} \<or> c = ''agent_pending'' \<or> c = ''agent_credentials'' \<or> c = ''agent_grants''"
    by (simp only: insert_iff empty_iff simp_thms disj_assoc)
  then show ?thesis
  proof (elim disjE)
    assume 1: "c \<in> {''agent_rate'', ''agent_clients'', ''agent_upload_tickets''}"
    then show ?thesis using assms(1)
      by (auto simp: maintain_tx_def life_collections_def intro: maintain_other_life)
  next
    assume 2: "c = ''agent_pending''"
    from assms(1) have "maintain_if (Get cd asAgentPending (pending_key i)) (\<lambda>v. now < ap_ExpiresAt v + hour) (Delete (pending_key i)) t = (Inr x, u)"
      unfolding maintain_tx_def 2 by simp
    then show ?thesis
    proof (rule maintain_if_cases)
      fix p d assume "docs cd t (pending_key i) = Some d" "asAgentPending d = Some p" "\<not> now < ap_ExpiresAt p + hour"
        and d: "docs cd u = (docs cd t)(pending_key i := None)"
      then have "pend_at (docs cd t) i = Some p" "\<not> now < ap_ExpiresAt p + hour" by (simp_all add: pend_at_def as_defs)
      from forget_pending[of "life_of (docs cd t) ids keys", simplified, OF this]
      show ?thesis by (simp add: life_of_def d)
    qed (rule life_same)
  next
    assume 3: "c = ''agent_credentials''"
    from assms(1) have "maintain_if (Get cd asAgentCredential (credential_key i)) (\<lambda>v. IsZero (cr_RetainUntil v) \<or> now < cr_RetainUntil v)
        (Delete (credential_key i)) t = (Inr x, u)" unfolding maintain_tx_def 3 by simp
    then show ?thesis
    proof (rule maintain_if_cases)
      fix k d assume "docs cd t (credential_key i) = Some d" "asAgentCredential d = Some k" "\<not> (IsZero (cr_RetainUntil k) \<or> now < cr_RetainUntil k)"
        and d: "docs cd u = (docs cd t)(credential_key i := None)"
      then have "cred_at (docs cd t) i = Some k" "\<not> now < cr_RetainUntil k" by (simp_all add: cred_at_def as_defs)
      from forget_credential[of "life_of (docs cd t) ids keys", simplified, OF this]
      show ?thesis by (simp add: life_of_def d)
    qed (rule life_same)
  next
    assume 4: "c = ''agent_grants''"
    from assms(1) have m: "maintain_grant cd hash now (grant_key i) t = (Inr x, u)" unfolding maintain_tx_def 4 by simp
    from m assms(2) show ?thesis
    proof (cases rule: maintain_grant_cases[where ids = ids and keys = keys])
      case (strip g)
      show ?thesis unfolding strip(3) by (rule life_amend[OF strip(1)]) simp
    next
      case (drop g)
      show ?thesis unfolding drop(3)
        using life_step.forget_grant[of "life_of (docs cd t) ids keys" i g now hash] drop(1,2) by simp
    qed (simp add: stutter)
  qed
qed


section \<open>Runs\<close>

lemma event_life:
  assumes "agent_body a cd ev t = (Inr x, u)" "good_env cd (tx_read t)" "aa_agentHash a = hash"
    and "life_ok hash (life_of (docs cd t) ids keys)" "ev_ok a (docs cd t) ev"
    and "ev_ids ev \<inter> ids = {}" "ev_keys a ev \<inter> keys = {}"
  shows "life_step hash (life_of (docs cd t) ids keys) (life_of (docs cd u) (ev_ids ev \<union> ids) (ev_keys a ev \<union> keys))"
proof (cases ev)
  case (EAuthorize handle p)
  then show ?thesis using authorize_life[of a cd handle p t x u] assms by simp
next
  case (EDeny inp p)
  then obtain y p' where "uncap (consent_deny a cd inp) p t = (Inr (y, p'), u)" using assms(1) by (auto elim!: tx_void_InrE)
  from deny_life[OF this assms(2)] show ?thesis using EDeny assms by simp
next
  case (EAllow inp identity grantID encrypted code p)
  let ?g = "consent_grant a p identity grantID encrypted"
  from EAllow obtain y p' where "uncap (consent_allow a cd inp ?g (consent_credential a p ?g) code) p t = (Inr (y, p'), u)"
    using assms(1) by (auto simp: Let_def elim!: tx_void_InrE)
  from allow_life[OF this assms(2,3)] show ?thesis using EAllow assms by simp
next
  case (ERedeem f kind secret c g)
  then obtain y c' g' where "uncap (redeem a cd f kind secret) (c, g) t = (Inr (y, c', g'), u)" using assms(1) by (auto elim!: tx_void_InrE)
  from redeem_life[OF this assms(2,4)] show ?thesis using ERedeem assms by simp
next
  case (EIssue access refresh g)
  then obtain y g' where "uncap (issue a cd access refresh) g t = (Inr (y, g'), u)" using assms(1) by (auto elim!: tx_void_InrE)
  from issue_life[OF this assms(2,4)] show ?thesis using EIssue assms by simp
next
  case (EAcquire i force lease cached g)
  then obtain y where "uncap (acquire a cd i force lease cached) g t = (Inr y, u)" using assms(1) by (auto elim!: tx_void_InrE)
  from acquire_life[OF this assms(2)] show ?thesis using EAcquire assms by simp
next
  case (ECheck secret g)
  then obtain y where "uncap (gateway_check a cd secret) g t = (Inr y, u)" using assms(1) by (auto elim!: tx_void_InrE)
  from gateway_check_life[OF this assms(2)] show ?thesis using ECheck by simp
next
  case (EMaintain c i)
  then show ?thesis using maintain_life[of cd hash "aa_now a" c i t x u] assms by simp
qed (use assms in \<open>auto intro: revokeGrant_life revoke_token_life deleteGrant_life release_life gateway_touch_life\<close>)

text \<open>
  A world is a store with the random values drawn so far. A step is a transaction that commits, with
  fresh random values, or writes to other collections.
\<close>

type_synonym world = "(string \<Rightarrow> doc option) \<times> string set \<times> string set"

fun world_life :: "world \<Rightarrow> life" where
  "world_life (D, ids, keys) = life_of D ids keys"

inductive agent_step :: "(string \<Rightarrow> string) \<Rightarrow> ('v, doc) codec \<Rightarrow> world \<Rightarrow> world \<Rightarrow> bool" for hash cd where
  event: "aa_agentHash a = hash \<Longrightarrow> good_env cd (tx_read t) \<Longrightarrow> docs cd t = D \<Longrightarrow> ev_ok a D ev \<Longrightarrow>
    ev_ids ev \<inter> ids = {} \<Longrightarrow> ev_keys a ev \<inter> keys = {} \<Longrightarrow> agent_body a cd ev t = (Inr x, u) \<Longrightarrow> docs cd u = D' \<Longrightarrow>
    agent_step hash cd (D, ids, keys) (D', ev_ids ev \<union> ids, ev_keys a ev \<union> keys)"
| other: "within S D D' \<Longrightarrow> S \<inter> life_collections = {} \<Longrightarrow> agent_step hash cd (D, ids, keys) (D', ids, keys)"

interpretation agents: refinement "agent_step hash cd" world_life "life_step hash" "life_ok hash" "\<lambda>_. True" for hash cd
proof
  fix hash and cd :: "('v, doc) codec" and w w'
  assume "agent_step hash cd w w'" "life_ok hash (world_life w)"
  then show "life_step hash (world_life w) (world_life w')"
  proof cases
    case (event a t D ev ids keys x u D')
    then show ?thesis using event_life[OF event(9,4,3)] \<open>life_ok hash (world_life w)\<close> by simp
  next
    case (other S D D' ids keys)
    then show ?thesis using life_of_within[OF other(3,4)] by (simp add: stutter)
  qed
qed (auto intro: life_step_ok)

definition no_agents :: world where
  "no_agents = (Map.empty, {}, {})"

lemma no_agents_ok: "life_ok hash (world_life no_agents)"
  by (simp add: no_agents_def life_ok_def grant_at_def cred_at_def grant_index_def)

lemma agents_le:
  assumes "(agent_step hash cd)\<^sup>*\<^sup>* w w'" "life_ok hash (world_life w)"
  shows "life_le (world_life w) (world_life w')" "life_ok hash (world_life w')"
proof -
  show "life_le (world_life w) (world_life w')"
    by (rule agents.monotone[OF assms, where R = life_le]) (auto intro: life_le_refl life_le_trans life_step_le)
  show "life_ok hash (world_life w')" using agents.invariant[OF assms] by simp
qed

end
