(* ===== verification/Agent_Keys.thy ===== *)
theory Agent_Keys
  imports Project_Store Unicode_Text
begin

text \<open>
  Agent keys and upload tickets (\<open>internal/project/agent_keys.go\<close>, \<open>agent_oauth.go\<close>): a key is a
  random bearer secret of which only the SHA-256 digest is stored, under the digest; an index record
  per account lists the account's keys, at most five. The first sections translate the operations;
  the last proves the invariant that the index is exactly the list of the account's keys and that
  every operation keeps it.
\<close>

section \<open>Operations\<close>

definition agentKeyLifetime :: int where "agentKeyLifetime = 90 * day"

text \<open>Only the canonical encoding of 32 bytes behind the prefix is a key (\<open>base64url32\<close>).\<close>

definition agentKeyDigest :: "(string \<Rightarrow> string) \<Rightarrow> string \<Rightarrow> string option" where
  "agentKeyDigest sha secret =
     (if \<not> has_prefix secret ''drop_'' \<or> length secret \<noteq> 48 then None
      else if \<not> base64url32 (trim_prefix secret ''drop_'') then None
      else Some (sha secret))"

definition agent_label :: "string \<Rightarrow> string option" where
  "agent_label label = (case runes label of
     None \<Rightarrow> None
   | Some rs \<Rightarrow> let trimmed = trim_runes rs; bytes = rune_bytes trimmed in
       if length bytes < 1 \<or> length bytes > 64 \<or> list_ex (IsControl \<circ> fst) trimmed then None
       else Some bytes)"

text \<open>The loop over the index: keys that are still valid are kept, expired ones are deleted.\<close>

fun active_keys :: "cfg \<Rightarrow> ('v, doc) codec \<Rightarrow> string list \<Rightarrow> ('v, string list) txm" where
  "active_keys cf cd [] = tx_return []"
| "active_keys cf cd (prior # rest) =
     tx_bind (tx_optional (Get cd asAgentKey (raftRef ''agent_keys'' prior))) (\<lambda>stored. case stored of
       None \<Rightarrow> active_keys cf cd rest
     | Some k \<Rightarrow>
         if repo_now cf < k_ExpiresAt k
         then tx_bind (active_keys cf cd rest) (\<lambda>ids. tx_return (prior # ids))
         else tx_bind (Delete (raftRef ''agent_keys'' prior)) (\<lambda>_. active_keys cf cd rest))"

text \<open>\<open>random\<close> is the encoding of 32 fresh random bytes, or the error of the random source.\<close>

definition IssueAgentKey ::
  "cfg \<Rightarrow> ('v, doc) codec \<Rightarrow> actor \<Rightarrow> string \<Rightarrow> err + string \<Rightarrow> ('v, string \<times> agent_key) txm" where
  "IssueAgentKey cf cd a label random = (case agent_label label of
     None \<Rightarrow> tx_throw ErrInvalid
   | Some label' \<Rightarrow>
     if u_UID a = [] then tx_throw ErrForbidden
     else case random of
       Inl e \<Rightarrow> tx_throw e
     | Inr b \<Rightarrow>
       let secret = ''drop_'' @ b;
           i = (case agentKeyDigest (cf_sha cf) secret of None \<Rightarrow> [] | Some d \<Rightarrow> d);
           key = \<lparr>k_ID = i, k_UID = u_UID a, k_Label = label', k_CreatedAt = repo_now cf,
                  k_ExpiresAt = repo_now cf + agentKeyLifetime\<rparr>;
           indexKey = raftRef ''account_agent_keys'' (ownerKey cf (Owner a))
       in tx_bind (authorize cf cd a) (\<lambda>_.
          tx_bind (tx_optional (Get cd asTexts indexKey)) (\<lambda>index.
          tx_bind (active_keys cf cd (case index of None \<Rightarrow> [] | Some ids \<Rightarrow> ids)) (\<lambda>active.
          tx_bind (tx_guard (length active \<ge> 5) ErrQuota) (\<lambda>_.
          tx_bind (raftTx_Create cf cd (raftRef ''agent_keys'' i) (DAgentKey key)) (\<lambda>_.
          tx_bind (raftTx_Set cf cd indexKey (DTexts (active @ [i]))) (\<lambda>_.
          tx_return (secret, key))))))))"

fun listed_keys :: "cfg \<Rightarrow> ('v, doc) codec \<Rightarrow> actor \<Rightarrow> string list \<Rightarrow> ('v, agent_key list) txm" where
  "listed_keys cf cd a [] = tx_return []"
| "listed_keys cf cd a (i # rest) =
     tx_bind (tx_optional (Get cd asAgentKey (raftRef ''agent_keys'' i))) (\<lambda>stored.
     tx_bind (listed_keys cf cd a rest) (\<lambda>keys.
     tx_return (case stored of
       None \<Rightarrow> keys
     | Some k \<Rightarrow> if k_UID k = u_UID a \<and> repo_now cf < k_ExpiresAt k then k # keys else keys)))"

definition ListAgentKeys :: "cfg \<Rightarrow> ('v, doc) codec \<Rightarrow> actor \<Rightarrow> ('v, agent_key list) txm" where
  "ListAgentKeys cf cd a =
     tx_bind (tx_guard (u_UID a = []) ErrForbidden) (\<lambda>_.
     tx_bind (authorize cf cd a) (\<lambda>_.
     tx_bind (tx_optional (Get cd asTexts (raftRef ''account_agent_keys'' (ownerKey cf (Owner a))))) (\<lambda>index.
     case index of None \<Rightarrow> tx_return [] | Some ids \<Rightarrow> listed_keys cf cd a ids)))"

definition RevokeAgentKey :: "cfg \<Rightarrow> ('v, doc) codec \<Rightarrow> actor \<Rightarrow> string \<Rightarrow> ('v, unit) txm" where
  "RevokeAgentKey cf cd a i =
     tx_bind (tx_guard (\<not> digestRE i) ErrInvalid) (\<lambda>_.
     tx_bind (tx_guard (u_UID a = []) ErrForbidden) (\<lambda>_.
     tx_bind (authorize cf cd a) (\<lambda>_.
     tx_bind (tx_missing ErrNotFound (Get cd asAgentKey (raftRef ''agent_keys'' i))) (\<lambda>key.
     tx_bind (tx_guard (k_UID key \<noteq> u_UID a) ErrNotFound) (\<lambda>_.
     let indexKey = raftRef ''account_agent_keys'' (ownerKey cf (Owner a)) in
     tx_bind (Get cd asTexts indexKey) (\<lambda>ids.
     tx_bind (Delete (raftRef ''agent_keys'' i)) (\<lambda>_.
     raftTx_Set cf cd indexKey (DTexts (filter (\<lambda>prior. prior \<noteq> i) ids)))))))))"

definition AuthenticateAgentKey :: "cfg \<Rightarrow> ('v, doc) codec \<Rightarrow> string \<Rightarrow> ('v, actor) txm" where
  "AuthenticateAgentKey cf cd secret = (case agentKeyDigest (cf_sha cf) secret of
     None \<Rightarrow> tx_throw ErrUnauthorized
   | Some i \<Rightarrow>
       tx_bind (tx_missing ErrUnauthorized (Get cd asAgentKey (raftRef ''agent_keys'' i))) (\<lambda>key.
       tx_bind (tx_guard (k_UID key = [] \<or> \<not> repo_now cf < k_ExpiresAt key) ErrUnauthorized) (\<lambda>_.
       tx_return (zero_actor\<lparr>u_UID := k_UID key, u_AgentKeyDigest := i\<rparr>))))"

definition GetAgentUploadProject :: "cfg \<Rightarrow> ('v, doc) codec \<Rightarrow> actor \<Rightarrow> string \<Rightarrow> ('v, project) txm" where
  "GetAgentUploadProject cf cd a i =
     tx_bind (authorizeUploadTicket cf cd a) (\<lambda>_.
     tx_bind (Get cd asTicket (raftRef ''agent_upload_tickets'' (u_UploadTicketDigest a))) (\<lambda>ticket.
     tx_bind (tx_guard (ut_ProjectID ticket \<noteq> i) ErrNotFound) (\<lambda>_.
     tx_bind (tx_missing ErrNotFound (Get cd asProject (raftRef ''projects'' i))) (\<lambda>result.
     tx_bind (tx_guard (\<not> Owns a (p_Owner result) \<or> \<not> Live result (repo_now cf)) ErrNotFound) (\<lambda>_.
     tx_return result)))))"

section \<open>Replay\<close>

lemma replays_active_keys [replay_intros]: "replays_all (active_keys cf cd ids)"
  by (induction ids) (simp_all del: tx_bind_app add: replay_intros)

lemma replays_listed_keys [replay_intros]: "replays_all (listed_keys cf cd a ids)"
  by (induction ids) (simp_all del: tx_bind_app add: replay_intros)

lemma replays_agent_keys [replay_intros]:
  "replays_all (IssueAgentKey cf cd a label random)" "replays_all (ListAgentKeys cf cd a)"
  "replays_all (RevokeAgentKey cf cd a i)" "replays_all (AuthenticateAgentKey cf cd secret)"
  "replays_all (GetAgentUploadProject cf cd a i)"
  unfolding IssueAgentKey_def ListAgentKeys_def RevokeAgentKey_def AuthenticateAgentKey_def
    GetAgentUploadProject_def Let_def
  by (intro replay_intros)+

section \<open>The index lists the account's keys\<close>

definition key_at :: "(string \<Rightarrow> doc option) \<Rightarrow> string \<Rightarrow> agent_key option" where
  "key_at D i = Option.bind (D (raftRef ''agent_keys'' i)) asAgentKey"

definition key_index :: "(string \<Rightarrow> doc option) \<Rightarrow> string \<Rightarrow> string list" where
  "key_index D o' = (case Option.bind (D (raftRef ''account_agent_keys'' o')) asTexts of
     None \<Rightarrow> [] | Some ids \<Rightarrow> ids)"

definition keys_ok :: "cfg \<Rightarrow> (string \<Rightarrow> doc option) \<Rightarrow> bool" where
  "keys_ok cf D \<longleftrightarrow>
     (\<forall>o'. length (key_index D o') \<le> 5 \<and> distinct (key_index D o'))
     \<and> (\<forall>i k. key_at D i = Some k \<longrightarrow>
          i \<in> set (key_index D (ownerKey cf \<lparr>o_Kind = ''firebase'', o_ID = k_UID k\<rparr>)))"

definition key_collections :: "string set" where
  "key_collections = {''agent_keys'', ''account_agent_keys''}"


lemma key_upd [simp]:
  "key_at (D(raftRef ''agent_keys'' i := v)) = (key_at D)(i := Option.bind v asAgentKey)"
  "key_index (D(raftRef ''agent_keys'' i := v)) = key_index D"
  "key_at (D(raftRef ''account_agent_keys'' o' := v)) = key_at D"
  "key_index (D(raftRef ''account_agent_keys'' o' := v)) =
     (key_index D)(o' := (case Option.bind v asTexts of None \<Rightarrow> [] | Some ids \<Rightarrow> ids))"
  by (auto simp: fun_eq_iff key_at_def key_index_def key_simps)

lemma key_at_within: "within S D D' \<Longrightarrow> ''agent_keys'' \<notin> S \<Longrightarrow> key_at D' = key_at D"
  by (simp add: fun_eq_iff key_at_def withinD)

lemma key_index_within: "within S D D' \<Longrightarrow> ''account_agent_keys'' \<notin> S \<Longrightarrow> key_index D' = key_index D"
  by (simp add: fun_eq_iff key_index_def withinD)

text \<open>What the loop leaves: listed keys that have expired are gone, everything else is as before; the
  result lists the listed keys that are still stored.\<close>

definition purged :: "time \<Rightarrow> string set \<Rightarrow> (string \<Rightarrow> doc option) \<Rightarrow> string \<Rightarrow> agent_key option" where
  "purged now S D i = (case key_at D i of
     None \<Rightarrow> None | Some k \<Rightarrow> if i \<in> S \<and> \<not> now < k_ExpiresAt k then None else Some k)"

lemma purged_skip:
  "key_at D i = None \<or> (\<exists>k. key_at D i = Some k \<and> now < k_ExpiresAt k) \<Longrightarrow>
     purged now (insert i S) D = purged now S D"
  by (auto simp: purged_def fun_eq_iff split: option.splits)

lemma purged_at:
  "key_at D i = None \<Longrightarrow> purged now S D i = None"
  "key_at D i = Some k \<Longrightarrow> now < k_ExpiresAt k \<Longrightarrow> purged now S D i = Some k"
  by (simp_all add: purged_def)

lemma purged_drop:
  "key_at D i = Some k \<Longrightarrow> \<not> now < k_ExpiresAt k \<Longrightarrow>
     purged now S (D(raftRef ''agent_keys'' i := None)) = purged now (insert i S) D"
  by (auto simp: purged_def fun_eq_iff split: option.splits)

lemma active_keys_effect:
  assumes "active_keys cf cd ids t = (Inr active, u)" "good_env cd (tx_read t)"
  shows "key_at (docs cd u) = purged (repo_now cf) (set ids) (docs cd t)
    \<and> active = filter (\<lambda>i. key_at (docs cd u) i \<noteq> None) ids
    \<and> within {''agent_keys''} (docs cd t) (docs cd u) \<and> tx_read u = tx_read t"
  using assms
proof (induction ids arbitrary: t active)
  case (Cons i ids)
  from Cons.prems(1) obtain st t1 where
    g: "tx_optional (Get cd asAgentKey (raftRef ''agent_keys'' i)) t = (Inr st, t1)"
    and r: "(case st of None \<Rightarrow> active_keys cf cd ids
     | Some k \<Rightarrow> if repo_now cf < k_ExpiresAt k
         then tx_bind (active_keys cf cd ids) (\<lambda>ids. tx_return (i # ids))
         else tx_bind (Delete (raftRef ''agent_keys'' i)) (\<lambda>_. active_keys cf cd ids)) t1 = (Inr active, u)"
    unfolding active_keys.simps by (elim tx_bind_InrE) blast
  have e: "key_at (docs cd t) i = st" "cur t1 = cur t" "tx_read t1 = tx_read t"
    using g Cons.prems(2) by (auto simp: key_at_def elim!: tx_optional_InrE Get_InrE Get_missingE)
  show ?case
  proof (cases st)
    case None
    with r have "active_keys cf cd ids t1 = (Inr active, u)" by simp
    from Cons.IH[OF this] show ?thesis using Cons.prems(2) e None by (simp add: purged_skip purged_at)
  next
    case (Some k)
    show ?thesis
    proof (cases "repo_now cf < k_ExpiresAt k")
      case True
      then obtain rest where "active_keys cf cd ids t1 = (Inr rest, u)" "active = i # rest"
        using r Some by (auto simp del: tx_bind_app elim!: tx_bind_InrE)
      with Cons.IH[of t1 rest] Cons.prems(2) e Some True show ?thesis by (simp add: purged_skip purged_at)
    next
      case False
      then obtain t2 where d: "Delete (raftRef ''agent_keys'' i) t1 = (Inr (), t2)"
          "active_keys cf cd ids t2 = (Inr active, u)"
        using r Some by (auto simp del: tx_bind_app elim!: tx_bind_InrE)
      have t2: "docs cd t2 = (docs cd t)(raftRef ''agent_keys'' i := None)" "tx_read t2 = tx_read t"
        using d(1) e by (auto elim!: Delete_InrE)
      note IH = Cons.IH[OF d(2), unfolded t2 purged_drop[OF e(1)[unfolded Some] False]]
      have "within {''agent_keys''} (docs cd t) ((docs cd t)(raftRef ''agent_keys'' i := None))" by (simp add: within_upd)
      then have "within {''agent_keys''} (docs cd t) (docs cd u)" using IH Cons.prems(2) by (blast intro: within_trans)
      moreover have "purged (repo_now cf) (insert i (set ids)) (docs cd t) i = None"
        using e(1) Some False by (simp add: purged_def)
      ultimately show ?thesis using IH Cons.prems(2) by simp
    qed
  qed
qed (simp add: purged_def fun_eq_iff split: option.splits)


text \<open>The keys of the account \<open>a\<close> acts for.\<close>

abbreviation account_key :: "cfg \<Rightarrow> string \<Rightarrow> string" where
  "account_key cf uid \<equiv> ownerKey cf \<lparr>o_Kind = ''firebase'', o_ID = uid\<rparr>"

lemma Owner_account: "u_UID a \<noteq> [] \<Longrightarrow> ownerKey cf (Owner a) = account_key cf (u_UID a)"
  by (simp add: Owner_def)

lemma index_read:
  assumes "tx_optional (Get cd asTexts (raftRef ''account_agent_keys'' o')) t = (Inr index, u)"
    and "good_env cd (tx_read t)"
  shows "key_index (docs cd t) o' = (case index of None \<Rightarrow> [] | Some ids \<Rightarrow> ids)"
    "cur u = cur t" "tx_read u = tx_read t"
  using assms by (auto simp: key_index_def as_defs elim!: tx_optional_InrE Get_InrE Get_missingE)

lemma IssueAgentKey_InrE:
  assumes "IssueAgentKey cf cd a label random t = (Inr (secret, key), u)" "good_env cd (tx_read t)"
  obtains b active where "random = Inr b" "secret = ''drop_'' @ b"
    "k_ID key = (case agentKeyDigest (cf_sha cf) secret of None \<Rightarrow> [] | Some d \<Rightarrow> d)"
    "u_UID a \<noteq> []" "k_UID key = u_UID a" "agent_label label = Some (k_Label key)"
    "k_ExpiresAt key = repo_now cf + agentKeyLifetime"
    "active = filter (\<lambda>i. purged (repo_now cf) (set (key_index (docs cd t) (account_key cf (u_UID a)))) (docs cd t) i \<noteq> None)
       (key_index (docs cd t) (account_key cf (u_UID a)))"
    "length active < 5"
    "purged (repo_now cf) (set (key_index (docs cd t) (account_key cf (u_UID a)))) (docs cd t) (k_ID key) = None"
    "key_at (docs cd u) =
       (purged (repo_now cf) (set (key_index (docs cd t) (account_key cf (u_UID a)))) (docs cd t))(k_ID key \<mapsto> key)"
    "key_index (docs cd u) = (key_index (docs cd t))(account_key cf (u_UID a) := active @ [k_ID key])"
    "within key_collections (docs cd t) (docs cd u)"
proof -
  from assms(1) obtain label' b where lb: "agent_label label = Some label'" "random = Inr b" "u_UID a \<noteq> []"
    unfolding IssueAgentKey_def by (auto split: option.splits if_splits sum.splits)
  note o = Owner_account[OF lb(3)]
  from assms(1) lb o obtain t1 index t2 active t3 x4 t4 x5 where
    1: "authorize cf cd a t = (Inr (), t1)"
    and 2: "tx_optional (Get cd asTexts (raftRef ''account_agent_keys'' (account_key cf (u_UID a)))) t1 = (Inr index, t2)"
    and 3: "active_keys cf cd (case index of None \<Rightarrow> [] | Some ids \<Rightarrow> ids) t2 = (Inr active, t3)"
    and g: "length active < 5"
    and key: "secret = ''drop_'' @ b" "key = \<lparr>k_ID = (case agentKeyDigest (cf_sha cf) secret of None \<Rightarrow> [] | Some d \<Rightarrow> d),
        k_UID = u_UID a, k_Label = label', k_CreatedAt = repo_now cf, k_ExpiresAt = repo_now cf + agentKeyLifetime\<rparr>"
    and 4: "raftTx_Create cf cd (raftRef ''agent_keys'' (k_ID key)) (DAgentKey key) t3 = (Inr x4, t4)"
    and 5: "raftTx_Set cf cd (raftRef ''account_agent_keys'' (account_key cf (u_UID a))) (DTexts (active @ [k_ID key])) t4 = (Inr x5, u)"
    unfolding IssueAgentKey_def Let_def
    by (auto simp del: tx_bind_app elim!: tx_bind_InrE tx_guard_InrE tx_return_InrE)
  have e1: "cur t1 = cur t" "tx_read t1 = tx_read t" using 1 by (auto elim!: authorize_InrE)
  note i = index_read[OF 2, unfolded e1, OF assms(2)]
  note a = active_keys_effect[OF 3, unfolded i(2,3) e1 i(1)[symmetric], OF assms(2)]
  have c: "docs cd t3 (raftRef ''agent_keys'' (k_ID key)) = None" "docs cd t4 = (docs cd t3)(raftRef ''agent_keys'' (k_ID key) \<mapsto> DAgentKey key)"
    "tx_read t4 = tx_read t"
    using raftTx_Create_other_InrE[OF 4] a assms(2) by auto
  have d: "docs cd u = (docs cd t4)(raftRef ''account_agent_keys'' (account_key cf (u_UID a)) \<mapsto> DTexts (active @ [k_ID key]))"
    using 5 c(3) assms(2) by (auto simp: raftTx_Set_other elim!: Set_InrE)
  have n: "key_at (docs cd t3) (k_ID key) = None" using c(1) by (simp add: key_at_def)
  have w: "within key_collections (docs cd t) (docs cd t3)" 
    by (rule within_mono[of "{''agent_keys''}"]) (use a in \<open>simp_all add: key_collections_def\<close>)
  have x: "key_index (docs cd t3) = key_index (docs cd t)" using a by (intro key_index_within[of "{''agent_keys''}"]) simp_all
  show thesis
    by (rule that[OF lb(2) key(1) _ lb(3)]) (use key lb a n c d g w x i(1) in \<open>auto simp: key_collections_def as_defs intro: within_upd\<close>)
qed


lemma RevokeAgentKey_InrE:
  assumes "RevokeAgentKey cf cd a i t = (Inr x, u)" "good_env cd (tx_read t)"
  obtains key where "key_at (docs cd t) i = Some key" "k_UID key = u_UID a" "u_UID a \<noteq> []"
    "key_at (docs cd u) = (key_at (docs cd t))(i := None)"
    "key_index (docs cd u) = (key_index (docs cd t))
       (account_key cf (u_UID a) := filter (\<lambda>prior. prior \<noteq> i) (key_index (docs cd t) (account_key cf (u_UID a))))"
    "within key_collections (docs cd t) (docs cd u)"
proof -
  let ?k = "raftRef ''account_agent_keys'' (account_key cf (u_UID a))"
  from assms(1) obtain t1 key t2 ids t3 t4 where uid: "u_UID a \<noteq> []" "k_UID key = u_UID a"
    and 1: "authorize cf cd a t = (Inr (), t1)"
    and 2: "Get cd asAgentKey (raftRef ''agent_keys'' i) t1 = (Inr key, t2)"
    and 3: "Get cd asTexts ?k t2 = (Inr ids, t3)"
    and 4: "Delete (raftRef ''agent_keys'' i) t3 = (Inr (), t4)"
    and 5: "raftTx_Set cf cd ?k (DTexts (filter (\<lambda>prior. prior \<noteq> i) ids)) t4 = (Inr x, u)"
    unfolding RevokeAgentKey_def Let_def
    by (elim tx_bind_InrE tx_guard_InrE tx_missing_InrE) (simp add: Owner_account)
  have e1: "cur t1 = cur t" "tx_read t1 = tx_read t" using 1 by (auto elim!: authorize_InrE)
  have e2: "key_at (docs cd t) i = Some key" "cur t2 = cur t" "tx_read t2 = tx_read t"
    using 2 e1 by (auto simp: key_at_def elim!: Get_InrE)
  have e3: "key_index (docs cd t) (account_key cf (u_UID a)) = ids" "cur t3 = cur t" "tx_read t3 = tx_read t"
    using 3 e2 by (auto simp: key_index_def as_defs elim!: Get_InrE)
  have e4: "docs cd t4 = (docs cd t)(raftRef ''agent_keys'' i := None)" "tx_read t4 = tx_read t"
    using 4 e3 by (auto elim!: Delete_InrE)
  have e5: "docs cd u = (docs cd t)(raftRef ''agent_keys'' i := None, ?k \<mapsto> DTexts (filter (\<lambda>prior. prior \<noteq> i) ids))"
    using 5 e4 assms(2) by (auto simp: raftTx_Set_other elim!: Set_InrE)
  show thesis
    by (rule that[OF e2(1) uid(2,1)]) (use e3(1) e5 in \<open>simp_all add: as_defs key_collections_def within_upd\<close>)
qed

lemma RevokeAgentKey_key:
  assumes "RevokeAgentKey cf cd a i t = (Inr x, u)" "good_env cd (tx_read t)"
  shows "docs cd u (raftRef ''agent_keys'' i) = None"
proof -
  from assms(1) obtain t3 t4 ids where 4: "Delete (raftRef ''agent_keys'' i) t3 = (Inr (), t4)" "tx_read t3 = tx_read t"
    and 5: "raftTx_Set cf cd (raftRef ''account_agent_keys'' (ownerKey cf (Owner a))) (DTexts ids) t4 = (Inr x, u)"
    unfolding RevokeAgentKey_def Let_def
    by (elim tx_bind_InrE tx_guard_InrE tx_missing_InrE Get_InrE authorize_InrE) simp
  have "docs cd t4 = (docs cd t3)(raftRef ''agent_keys'' i := None)" "tx_read t4 = tx_read t"
    using 4 by (auto elim!: Delete_InrE)
  then show ?thesis using 5 assms(2) by (auto simp: raftTx_Set_other key_simps elim!: Set_InrE)
qed

section \<open>The invariant\<close>

lemma keys_okD:
  assumes "keys_ok cf D"
  shows "length (key_index D o') \<le> 5" "distinct (key_index D o')"
    "key_at D i = Some k \<Longrightarrow> i \<in> set (key_index D (account_key cf (k_UID k)))"
  using assms by (auto simp: keys_ok_def)

lemma IssueAgentKey_keys_ok:
  assumes "IssueAgentKey cf cd a label random t = (Inr y, u)" "good_env cd (tx_read t)" "keys_ok cf (docs cd t)"
  shows "keys_ok cf (docs cd u)"
proof -
  obtain secret key where y: "y = (secret, key)" by (cases y)
  let ?o = "account_key cf (u_UID a)" and ?D = "docs cd t" and ?i = "k_ID key"
  let ?p = "purged (repo_now cf) (set (key_index ?D ?o)) ?D"
  from assms(1)[unfolded y] assms(2) obtain active where e: "k_UID key = u_UID a"
      "active = filter (\<lambda>i. ?p i \<noteq> None) (key_index ?D ?o)" "length active < 5" "?p ?i = None"
      "key_at (docs cd u) = ?p(?i \<mapsto> key)" "key_index (docs cd u) = (key_index ?D)(?o := active @ [?i])"
    by (rule IssueAgentKey_InrE) blast
  have sub: "?p j = Some k \<Longrightarrow> key_at ?D j = Some k" for j k
    by (auto simp: purged_def split: option.splits if_splits)
  have "?i \<notin> set active" using e(2,4) by simp
  then have d: "distinct (active @ [?i])" using e(2) keys_okD(2)[OF assms(3)] by simp
  have "j \<in> set (key_index (docs cd u) (account_key cf (k_UID k)))" if "key_at (docs cd u) j = Some k" for j k
  proof (cases "j = ?i")
    case True
    then show ?thesis using that e by simp
  next
    case False
    then have p: "?p j = Some k" using that e(5) by simp
    have "j \<in> set (key_index ?D (account_key cf (k_UID k)))" using keys_okD(3)[OF assms(3) sub[OF p]] .
    then show ?thesis using e(2,6) p by auto
  qed
  then show ?thesis using d e(3,6) keys_okD(1,2)[OF assms(3)] by (simp add: keys_ok_def)
qed

lemma RevokeAgentKey_keys_ok:
  assumes "RevokeAgentKey cf cd a i t = (Inr x, u)" "good_env cd (tx_read t)" "keys_ok cf (docs cd t)"
  shows "keys_ok cf (docs cd u)"
proof -
  let ?o = "account_key cf (u_UID a)" and ?D = "docs cd t"
  from assms(1,2) have e: "key_at (docs cd u) = (key_at ?D)(i := None)"
      "key_index (docs cd u) = (key_index ?D)(?o := filter (\<lambda>prior. prior \<noteq> i) (key_index ?D ?o))"
    by (auto elim!: RevokeAgentKey_InrE)
  have "length (filter (\<lambda>prior. prior \<noteq> i) (key_index ?D ?o)) \<le> 5"
    using keys_okD(1)[OF assms(3)] length_filter_le le_trans by blast
  moreover have "j \<in> set (key_index (docs cd u) (account_key cf (k_UID k)))" if "key_at (docs cd u) j = Some k" for j k
    using that e keys_okD(3)[OF assms(3), of j k] by (auto split: if_splits)
  ultimately show ?thesis using e(2) keys_okD(1,2)[OF assms(3)] by (simp add: keys_ok_def)
qed

text \<open>A step of the store as far as agent keys are concerned: issuing a key, revoking one, or any
  writes outside the two collections.\<close>

inductive key_step :: "('v, doc) codec \<Rightarrow> cfg \<Rightarrow> (string \<Rightarrow> doc option) \<Rightarrow> (string \<Rightarrow> doc option) \<Rightarrow> bool" for cd cf0 where
  issue: "cf_hash cf = cf_hash cf0 \<Longrightarrow> good_env cd (tx_read t) \<Longrightarrow> docs cd t = D \<Longrightarrow>
    IssueAgentKey cf cd a label random t = (Inr y, u) \<Longrightarrow> docs cd u = D' \<Longrightarrow> key_step cd cf0 D D'"
| revoke: "cf_hash cf = cf_hash cf0 \<Longrightarrow> good_env cd (tx_read t) \<Longrightarrow> docs cd t = D \<Longrightarrow>
    RevokeAgentKey cf cd a i t = (Inr x, u) \<Longrightarrow> docs cd u = D' \<Longrightarrow> key_step cd cf0 D D'"
| other: "within S D D' \<Longrightarrow> S \<inter> key_collections = {} \<Longrightarrow> key_step cd cf0 D D'"

lemma keys_ok_hash: "cf_hash cf = cf_hash cf' \<Longrightarrow> keys_ok cf = keys_ok cf'"
  by (rule ext) (simp add: keys_ok_def ownerKey_def)

lemma keys_ok_within: "within S D D' \<Longrightarrow> S \<inter> key_collections = {} \<Longrightarrow> keys_ok cf D \<Longrightarrow> keys_ok cf D'"
  unfolding keys_ok_def by (simp add: key_at_within[of S D D'] key_index_within[of S D D'] key_collections_def)

interpretation keys: invariant_system "key_step cd cf" "keys_ok cf" for cd cf
proof
  fix cd :: "('v, doc) codec" and cf D D'
  assume "key_step cd cf D D'" "keys_ok cf D"
  then show "keys_ok cf D'"
  proof cases
    case (issue cf' t a label random y u)
    then show ?thesis using IssueAgentKey_keys_ok[OF issue(4,2)] \<open>keys_ok cf D\<close> keys_ok_hash[OF issue(1)] by simp
  next
    case (revoke cf' t a i x u)
    then show ?thesis using RevokeAgentKey_keys_ok[OF revoke(4,2)] \<open>keys_ok cf D\<close> keys_ok_hash[OF revoke(1)] by simp
  next
    case (other S)
    then show ?thesis using \<open>keys_ok cf D\<close> by (rule keys_ok_within)
  qed
qed

lemma keys_ok_empty: "keys_ok cf Map.empty"
  by (simp add: keys_ok_def key_at_def key_index_def)

text \<open>At most five keys of an account are stored, expired ones included.\<close>

lemma keys_bounded:
  assumes "keys_ok cf D"
  shows "finite {i. \<exists>k. key_at D i = Some k \<and> k_UID k = uid}" "card {i. \<exists>k. key_at D i = Some k \<and> k_UID k = uid} \<le> 5"
proof -
  let ?S = "{i. \<exists>k. key_at D i = Some k \<and> k_UID k = uid}" and ?I = "key_index D (account_key cf uid)"
  have sub: "?S \<subseteq> set ?I" using keys_okD(3)[OF assms] by blast
  then show "finite ?S" by (rule finite_subset) simp
  have "card ?S \<le> length ?I" using card_mono[OF _ sub] card_length[of ?I] by simp
  then show "card ?S \<le> 5" using keys_okD(1)[OF assms] le_trans by blast
qed

end
