(* ===== verification/Agent_Scenario.thy ===== *)
theory Agent_Scenario
  imports Agent_Refine Agent_Keys Scenario
begin

text \<open>
  A concrete connection, run through the model's own definitions: a client asks for authorization, the
  user allows it, the client redeems its code, replays it, and the grant is revoked; and an agent key
  is issued. The witnesses of the agents' properties use it.
\<close>

section \<open>A connection\<close>

definition demo_auth :: "time \<Rightarrow> auth" where
  "demo_auth now = \<lparr>aa_now = now, aa_Resource = ''mcp'', aa_agentHash = (\<lambda>s. s), aa_challenge = (\<lambda>s. s)\<rparr>"

definition demo_verifier :: string where
  "demo_verifier = replicate 43 (CHR ''v'')"

definition demo_pending :: agent_pending where
  "demo_pending = bound_pending (demo_auth 0) ''cookie'' ''csrf'' (zero_pending\<lparr>ap_Client := zero_client\<lparr>ac_ID := ''client''\<rparr>,
     ap_RedirectURI := ''app'', ap_Resource := ''mcp'', ap_Scopes := [''drop''], ap_Challenge := demo_verifier\<rparr>)"

definition demo_input :: consent_input where
  "demo_input = \<lparr>ci_Handle = ''handle'', ci_CSRF = ''csrf'', ci_Action = ''allow'', ci_Cookie = ''cookie''\<rparr>"

definition demo_agent :: agent_grant where
  "demo_agent = consent_grant (demo_auth 0) demo_pending (''alice'', [], ''google.com'') ''grant'' ''sealed''"

definition demo_code :: agent_credential where
  "demo_code = consent_credential (demo_auth 0) demo_pending demo_agent"

definition demo_form :: token_form where
  "demo_form = \<lparr>tf_authorization = [], tf_client_id = ''client'', tf_client_secret = [], tf_resource = [],
     tf_grant_type = ''authorization_code'', tf_code = ''code'', tf_refresh_token = [],
     tf_code_verifier = demo_verifier, tf_redirect_uri = ''app''\<rparr>"

definition demo_asked :: "string \<Rightarrow> doc option" where
  "demo_asked = Map.empty(pending_key ''handle'' \<mapsto> DAgentPending demo_pending)"

definition demo_connected :: "string \<Rightarrow> doc option" where
  "demo_connected = demo_asked(pending_key ''handle'' \<mapsto> DAgentPending (answered demo_pending),
     grant_key ''grant'' \<mapsto> DAgentGrant demo_agent, credential_key ''code'' \<mapsto> DAgentCredential demo_code,
     owner_grants ''alice'' \<mapsto> DTexts [''grant''])"

definition demo_redeemed :: "string \<Rightarrow> doc option" where
  "demo_redeemed = demo_connected(credential_key ''code'' \<mapsto> DAgentCredential (spent demo_code))"

definition demo_disconnected :: "string \<Rightarrow> doc option" where
  "demo_disconnected = demo_redeemed(grant_key ''grant'' \<mapsto> DAgentGrant (revoked demo_agent))"

lemma demo_agent_sel [simp]:
  "ag_ID demo_agent = ''grant''" "ag_UID demo_agent = ''alice''" "ag_ClientID demo_agent = ''client''"
  "ag_Resource demo_agent = ''mcp''" "\<not> ag_Revoked demo_agent" "ag_ExpiresAt demo_agent = 90 * day"
  "ag_IdleUntil demo_agent = 30 * day" "agentGrantLive demo_agent 0"
  by (simp_all add: demo_agent_def consent_grant_def zero_grant_def demo_pending_def bound_pending_def zero_pending_def
      demo_auth_def agentGrantLive_def zero_client_def day_def hour_def second_def)

lemma demo_code_sel [simp]:
  "cr_Kind demo_code = ''code''" "cr_GrantID demo_code = ''grant''" "cr_ClientID demo_code = ''client''" "\<not> cr_Used demo_code"
  "cr_ExpiresAt demo_code = minute" "cr_RedirectURI demo_code = ''app''" "cr_Challenge demo_code = demo_verifier"
  "cr_RetainUntil demo_code = 91 * day"
  by (simp_all add: demo_code_def consent_credential_def zero_credential_def demo_pending_def bound_pending_def
      zero_pending_def demo_auth_def)

lemma demo_auth_sel [simp]:
  "aa_now (demo_auth now) = now" "aa_Resource (demo_auth now) = ''mcp''" "aa_agentHash (demo_auth now) = (\<lambda>s. s)"
  "aa_challenge (demo_auth now) = (\<lambda>s. s)"
  by (simp_all add: demo_auth_def)

lemma demo_form_sel [simp]: "tf_client_id demo_form = ''client''"
  by (simp add: demo_form_def)

lemma demo_stores [simp]:
  "demo_asked (pending_key ''handle'') = Some (DAgentPending demo_pending)" "demo_asked (grant_key i) = None"
  "demo_asked (credential_key k) = None" "demo_asked (owner_grants h) = None"
  "demo_connected (credential_key ''code'') = Some (DAgentCredential demo_code)"
  "demo_connected (grant_key ''grant'') = Some (DAgentGrant demo_agent)"
  "demo_redeemed (credential_key ''code'') = Some (DAgentCredential (spent demo_code))"
  "demo_redeemed (grant_key ''grant'') = Some (DAgentGrant demo_agent)"
  by (simp_all add: demo_asked_def demo_connected_def demo_redeemed_def key_simps)

lemma demo_pkce: "pkce_ok (demo_auth 0) demo_form demo_code"
  by (simp add: pkce_ok_def Let_def demo_form_def demo_verifier_def list_ex_iff verifier_char_def is_alnum_def
      is_lower_alnum_def is_lower_def char_between_def)

lemma demo_check: "consent_check (demo_auth 0) demo_input demo_pending" "ci_Handle demo_input = ''handle''" "\<not> ap_Used demo_pending"
  by (simp_all add: consent_check_def demo_pending_def bound_pending_def zero_pending_def demo_input_def demo_auth_def
      minute_def second_def)

lemma steps_Create: "D k = None \<Longrightarrow> steps (f ()) (D(k \<mapsto> d)) r D' n \<Longrightarrow> steps (tx_bind (Create doc_codec k d) f) D r D' (2 + n)"
  by (rule steps_call[where a = 2]) (auto simp: steps_def intro!: execs_Create)

lemma demo_authorize: "steps (authorize_tx (demo_auth 0) doc_codec ''handle'' demo_pending) Map.empty (Inr ()) demo_asked 2"
  unfolding authorize_tx_def demo_asked_def by (auto simp: steps_def intro!: execs_Create)

lemma demo_allow: "steps (uncap (consent_allow (demo_auth 0) doc_codec demo_input demo_agent demo_code ''code'') demo_pending)
    demo_asked (Inr ((), answered demo_pending)) demo_connected 8"
  unfolding consent_allow_def Let_def consent_look_def consent_use_def uncap_steps
  apply (rule steps_le)
   apply (rule steps_found(1), simp add: demo_check, simp)
   apply (rule steps_when(1), simp add: demo_check)
   apply (rule steps_absent(1), simp, simp only: option.case live_grants.simps)
   apply (rule steps_return, rule steps_pass, simp)
   apply (rule steps_write(1))
   apply (rule steps_Create, simp add: key_simps)
   apply (rule steps_Create, simp add: key_simps)
   apply (rule steps_write(1), rule steps_done)
    apply (simp add: demo_connected_def demo_check answered_def)
   apply (simp add: answered_def)
  apply simp
  done

lemma demo_redeem: "steps (uncap (redeem (demo_auth 0) doc_codec demo_form ''code'' ''code'') (zero_credential, zero_grant))
    demo_connected (Inr (False, spent demo_code, demo_agent)) demo_redeemed 3"
  unfolding redeem_def Let_def uncap_steps
  apply (rule steps_le)
   apply (rule steps_found(3), simp, simp)
   apply (simp only: option.case demo_auth_sel merge_zero)
   apply (rule steps_when(1), simp)
   apply (rule steps_found(1), simp, simp)
   apply (rule steps_when(1), simp)
   apply (rule steps_when(1), simp add: minute_def second_def)
   apply (rule steps_when(1), simp add: demo_pkce)
   apply (rule steps_write(1), rule steps_done)
    apply (simp add: demo_redeemed_def spent_def)
   apply (simp add: spent_def)
  apply simp
  done


lemma demo_replay: "steps (uncap (redeem (demo_auth 0) doc_codec demo_form ''code'' ''code'') (zero_credential, zero_grant))
    demo_redeemed (Inr (True, spent demo_code, revoked demo_agent)) demo_disconnected 3"
  unfolding redeem_def Let_def uncap_steps
  apply (rule steps_le)
   apply (rule steps_found(3), simp, simp)
   apply (simp only: option.case demo_auth_sel merge_zero)
   apply (rule steps_when(1), simp)
   apply (rule steps_found(1), simp, simp)
   apply (rule steps_when(2), simp)
   apply (rule steps_write(1), rule steps_done)
    apply (simp_all add: demo_disconnected_def)
  done

text \<open>The same request again with what the first attempt left in the captured variables, on the store
  before it.\<close>

lemma demo_retry: "steps (uncap (redeem (demo_auth 0) doc_codec demo_form ''code'' ''code'') (spent demo_code, demo_agent))
    demo_connected (Inr (True, spent demo_code, revoked demo_agent))
    (demo_connected(grant_key ''grant'' \<mapsto> DAgentGrant (revoked demo_agent))) 3"
proof -
  have m: "merge_credential demo_code (spent demo_code) = spent demo_code" "merge_grant demo_agent demo_agent = demo_agent"
    by (cases demo_code) (simp add: merge_credential_def spent_def gob_field_def, simp)
  show ?thesis unfolding redeem_def Let_def uncap_steps
    apply (rule steps_le)
     apply (rule steps_found(3), simp, simp)
     apply (simp only: option.case demo_auth_sel m)
     apply (rule steps_when(1), simp)
     apply (rule steps_found(1), simp, simp)
     apply (rule steps_when(2), simp add: m)
     apply (rule steps_write(1), rule steps_done)
      apply (simp_all add: m)
    done
qed

section \<open>Its run\<close>

lemma demo_event:
  assumes "steps (agent_body (demo_auth now) doc_codec ev) D (Inr ()) D' k" "k \<le> 128" "ev_ok (demo_auth now) D ev"
    "ev_ids ev \<inter> ids = {}" "ev_keys (demo_auth now) ev \<inter> keys = {}"
  shows "agent_step (\<lambda>s. s) doc_codec (D, ids, keys) (D', ev_ids ev \<union> ids, ev_keys (demo_auth now) ev \<union> keys)"
proof -
  obtain u where "agent_body (demo_auth now) doc_codec ev (start_tx D) = (Inr (), u)" "docs doc_codec u = D'"
    using steps_start[OF assms(1,2)] by blast
  then show ?thesis
    by (intro agent_step.event[where a = "demo_auth now" and t = "start_tx D" and u = u and x = "()"])
      (use assms start_tx_runs[of D] runs_docs[of "start_tx D" D 0] in simp_all)
qed

lemma demo_asked_step: "agent_step (\<lambda>s. s) doc_codec no_agents (demo_asked, {}, {})"
  using demo_event[of 0 "EAuthorize ''handle'' demo_pending" Map.empty demo_asked 2 "{}" "{}"] demo_authorize demo_check
  by (simp add: no_agents_def)

lemma demo_connected_step:
  "agent_step (\<lambda>s. s) doc_codec (demo_asked, {}, {}) (demo_connected, {''grant''}, {''code''})"
proof -
  let ?ev = "EAllow demo_input (''alice'', [], ''google.com'') ''grant'' ''sealed'' ''code'' demo_pending"
  have "steps (agent_body (demo_auth 0) doc_codec ?ev) demo_asked (Inr ()) demo_connected 8"
    using steps_void[OF demo_allow] by (simp add: demo_agent_def demo_code_def Let_def)
  then show ?thesis using demo_event[of 0 ?ev demo_asked demo_connected 8 "{}" "{}"]
    by (simp add: compat_pend_def pend_at_def demo_check as_defs)
qed


lemma demo_redeemed_step:
  "agent_step (\<lambda>s. s) doc_codec (demo_connected, {''grant''}, {''code''}) (demo_redeemed, {''grant''}, {''code''})"
  using demo_event[of 0 "ERedeem demo_form ''code'' ''code'' zero_credential zero_grant" demo_connected demo_redeemed 3 "{''grant''}" "{''code''}"]
    steps_void[OF demo_redeem] by (simp add: compat_cred_def compat_grant_def)

lemma demo_disconnected_step:
  "agent_step (\<lambda>s. s) doc_codec (demo_redeemed, {''grant''}, {''code''}) (demo_disconnected, {''grant''}, {''code''})"
  using demo_event[of 0 "ERedeem demo_form ''code'' ''code'' zero_credential zero_grant" demo_redeemed demo_disconnected 3 "{''grant''}" "{''code''}"]
    steps_void[OF demo_replay] by (simp add: compat_cred_def compat_grant_def)

lemma demo_runs:
  "(agent_step (\<lambda>s. s) doc_codec)\<^sup>*\<^sup>* no_agents (demo_connected, {''grant''}, {''code''})"
  "(agent_step (\<lambda>s. s) doc_codec)\<^sup>*\<^sup>* no_agents (demo_redeemed, {''grant''}, {''code''})"
  "(agent_step (\<lambda>s. s) doc_codec)\<^sup>*\<^sup>* no_agents (demo_disconnected, {''grant''}, {''code''})"
proof -
  show 1: "(agent_step (\<lambda>s. s) doc_codec)\<^sup>*\<^sup>* no_agents (demo_connected, {''grant''}, {''code''})"
    using demo_asked_step demo_connected_step by (meson rtranclp.rtrancl_into_rtrancl rtranclp.rtrancl_refl)
  show 2: "(agent_step (\<lambda>s. s) doc_codec)\<^sup>*\<^sup>* no_agents (demo_redeemed, {''grant''}, {''code''})"
    using 1 demo_redeemed_step by (rule rtranclp.rtrancl_into_rtrancl)
  show "(agent_step (\<lambda>s. s) doc_codec)\<^sup>*\<^sup>* no_agents (demo_disconnected, {''grant''}, {''code''})"
    using 2 demo_disconnected_step by (rule rtranclp.rtrancl_into_rtrancl)
qed

lemma demo_start: "good_env doc_codec (tx_read (start_tx D))" "docs doc_codec (start_tx D) = D"
  and demo_cur: "cur (start_tx D) = D"
  using start_tx_runs[of D] runs_docs[of "start_tx D" D 0] by simp_all

section \<open>A key\<close>

definition demo_random :: string where
  "demo_random = replicate 43 (CHR ''A'')"

definition demo_key :: agent_key where
  "demo_key = \<lparr>k_ID = replicate 64 (CHR ''1''), k_UID = ''alice'', k_Label = ''laptop'', k_CreatedAt = demo_time,
     k_ExpiresAt = demo_time + agentKeyLifetime\<rparr>"

definition demo_keyring :: "string \<Rightarrow> doc option" where
  "demo_keyring = Map.empty(raftRef ''agent_keys'' (k_ID demo_key) \<mapsto> DAgentKey demo_key,
     raftRef ''account_agent_keys'' (account_key demo_cfg ''alice'') \<mapsto> DTexts [k_ID demo_key])"

lemma demo_label: "agent_label ''  laptop '' = Some ''laptop''"
  by (simp add: agent_label_def utf8_lead_def utf8_tail_ok_def utf8_value_def trim_runes_def IsSpace_def IsControl_def
      rune_bytes_def)

lemma demo_key_digest: "agentKeyDigest (cf_sha demo_cfg) (''drop_'' @ demo_random) = Some (k_ID demo_key)"
  by (simp add: agentKeyDigest_def demo_random_def demo_key_def has_prefix_def trim_prefix_def base64url32_def
      list_all_iff base64url_value_def is_upper_def char_between_def)

lemma steps_new_key:
  "D (raftRef ''agent_keys'' i) = None \<Longrightarrow>
     steps (raftTx_Create cf doc_codec (raftRef ''agent_keys'' i) d) D (Inr ()) (D(raftRef ''agent_keys'' i \<mapsto> d)) 2"
  "steps (raftTx_Set cf doc_codec (raftRef ''account_agent_keys'' o') e) D (Inr ()) (D(raftRef ''account_agent_keys'' o' \<mapsto> e)) 1"
proof -
  assume "D (raftRef ''agent_keys'' i) = None"
  then show "steps (raftTx_Create cf doc_codec (raftRef ''agent_keys'' i) d) D (Inr ()) (D(raftRef ''agent_keys'' i \<mapsto> d)) 2"
    unfolding raftTx_Create_def
    by (intro steps_le[OF steps_absent(2)]) (auto simp: raftTx_Set_other intro!: steps_prim(4))
qed (simp add: raftTx_Set_other steps_prim(4)[simplified])

lemma steps_key_index: "D' = D(raftRef ''account_agent_keys'' o' \<mapsto> e) \<Longrightarrow>
    steps (raftTx_Set cf doc_codec (raftRef ''account_agent_keys'' o') e) D (Inr ()) D' 1"
  using steps_new_key(2) by simp

lemma demo_issue: "steps (IssueAgentKey demo_cfg doc_codec demo_bearer ''  laptop '' (Inr demo_random)) Map.empty
    (Inr (''drop_'' @ demo_random, demo_key)) demo_keyring 5"
proof -
  let ?k = "\<lparr>k_ID = k_ID demo_key, k_UID = u_UID demo_bearer, k_Label = ''laptop'', k_CreatedAt = repo_now demo_cfg,
      k_ExpiresAt = repo_now demo_cfg + agentKeyLifetime\<rparr>"
  have k: "?k = demo_key" by (simp add: demo_key_def)
  show ?thesis
    unfolding IssueAgentKey_def demo_label option.case sum.case Let_def demo_key_digest k
    apply (rule steps_le)
     apply (rule steps_when(1), simp)
     apply (rule steps_call[where a = 0 and ?D1.0 = Map.empty], simp add: steps_def execs_demo_authorize)
     apply (rule steps_absent(1), simp, simp only: option.case active_keys.simps)
     apply (rule steps_return, rule steps_pass, simp)
     apply (rule steps_call, rule steps_new_key(1), simp)
     apply (rule steps_call, rule steps_new_key(2), rule steps_done)
      apply (simp add: demo_keyring_def)
     apply simp
    apply simp
    done
qed

lemma demo_keyring_reached: "(key_step doc_codec demo_cfg)\<^sup>*\<^sup>* Map.empty demo_keyring"
proof -
  obtain u where "IssueAgentKey demo_cfg doc_codec demo_bearer ''  laptop '' (Inr demo_random) (start_tx Map.empty) =
      (Inr (''drop_'' @ demo_random, demo_key), u)" "docs doc_codec u = demo_keyring"
    using steps_start[OF demo_issue] by auto
  then have "key_step doc_codec demo_cfg Map.empty demo_keyring" by (intro key_step.issue[OF refl demo_start]) auto
  then show ?thesis by blast
qed


definition demo_keyless :: "string \<Rightarrow> doc option" where
  "demo_keyless = demo_keyring(raftRef ''agent_keys'' (k_ID demo_key) := None,
     raftRef ''account_agent_keys'' (account_key demo_cfg ''alice'') \<mapsto> DTexts [])"

lemma demo_key_sel [simp]: "digestRE (k_ID demo_key)" "k_UID demo_key = ''alice''" "k_ExpiresAt demo_key = demo_time + agentKeyLifetime"
  by (simp_all add: demo_key_def digestRE_def list_all_iff is_hex_def is_digit_def char_between_def)

lemma demo_keyring_sel [simp]:
  "demo_keyring (raftRef ''agent_keys'' (k_ID demo_key)) = Some (DAgentKey demo_key)"
  "demo_keyring (raftRef ''account_agent_keys'' (account_key demo_cfg ''alice'')) = Some (DTexts [k_ID demo_key])"
  by (simp_all add: demo_keyring_def key_simps)

lemma demo_revoke_key: "steps (RevokeAgentKey demo_cfg doc_codec demo_bearer (k_ID demo_key)) demo_keyring (Inr ()) demo_keyless 4"
  unfolding RevokeAgentKey_def Let_def
  apply (rule steps_le)
   apply (rule steps_pass, simp, rule steps_pass, simp)
   apply (rule steps_call[where a = 0 and ?D1.0 = demo_keyring], simp add: steps_def execs_demo_authorize)
   apply (rule steps_found(2), simp, simp, rule steps_pass, simp)
   apply (simp only: demo_bearer_facts)
   apply (rule steps_found(1), rule demo_keyring_sel(2), simp, rule steps_write(2))
   apply (rule steps_key_index)
   apply (simp add: demo_keyless_def)
  apply simp
  done

section \<open>Cleanup, and a retried request\<close>

lemma demo_forget: "steps (maintain_tx doc_codec (\<lambda>s. s) (91 * day) ''agent_credentials/'' (credential_key ''code''))
    demo_redeemed (Inr ()) (demo_redeemed(credential_key ''code'' := None)) 2"
proof -
  have "steps (maintain_if (Get doc_codec asAgentCredential (credential_key ''code''))
      (\<lambda>v. IsZero (cr_RetainUntil v) \<or> 91 * day < cr_RetainUntil v) (Delete (credential_key ''code'')))
    demo_redeemed (Inr ()) (demo_redeemed(credential_key ''code'' := None)) (Suc 0 + Suc 0)"
    unfolding maintain_if_def
    by (rule steps_found(3), simp, simp, simp only: option.case, rule steps_when(1))
      (simp_all add: IsZero_def day_def hour_def second_def steps_prim(5))
  then show ?thesis by (simp add: maintain_tx_def eval_nat_numeral)
qed

text \<open>A backend whose state is a store, and an attempt that sees the store \<open>D\<close> throughout.\<close>

definition demo_backend :: "(string \<Rightarrow> doc option, doc) backend" where
  "demo_backend = \<lparr>be_read = (\<lambda>D. frozen (record_of D)), be_check = (\<lambda>_ _. None),
     be_commit = (\<lambda>D _. (Some KvErrConflict, D)), be_coherent = True\<rparr>"

definition demo_schedule :: "(string \<Rightarrow> doc option) \<Rightarrow> (string \<Rightarrow> doc option) schedule" where
  "demo_schedule D = \<lparr>at_read = (\<lambda>_. D), at_validate = D, at_finish = D\<rparr>"

lemma demo_begin: "begin_tx demo_backend (demo_schedule D) Replicated False = start_tx D"
  by (simp add: begin_tx_def demo_backend_def demo_schedule_def start_tx_def snapshot_tx_def)

end
