(* ===== verification/Agent_Guarantees.thy ===== *)
theory Agent_Guarantees
  imports Agent_Scenario
begin

text \<open>
  What the agent credentials guarantee, over every run of the transactions of \<open>Agent_Refine\<close> and
  \<open>Agent_Keys\<close>, with a concrete connection (consent, code, tokens) on which the hypotheses hold.
\<close>

section \<open>Lemmas for the guarantees\<close>

lemma gateway_check_accepts:
  assumes "uncap (gateway_check a cd secret) zero_grant t = (Inr (False, g), u)" "good_env cd (tx_read t)"
  obtains c where "cred_at (docs cd t) (aa_agentHash a secret) = Some c" "cr_Kind c = ''access''" "aa_now a < cr_ExpiresAt c"
    "grant_at (docs cd t) (cr_GrantID c) = Some g" "agentGrantLive g (aa_now a)" "ag_Resource g = aa_Resource a"
proof -
  let ?k = "credential_key (aa_agentHash a secret)"
  from assms(1) obtain found t1 where 1: "tx_optional (Get cd asAgentCredential ?k) t = (Inr found, t1)"
    and 2: "(case found of None \<Rightarrow> tx_return (True, zero_grant)
      | Some c \<Rightarrow> if cr_Kind c \<noteq> ''access'' \<or> \<not> aa_now a < cr_ExpiresAt c then tx_return (True, zero_grant)
        else tx_bind (Get cd asAgentGrant (grant_key (cr_GrantID c))) (\<lambda>x.
          tx_return (\<not> agentGrantLive (merge_grant x zero_grant) (aa_now a) \<or> ag_Resource (merge_grant x zero_grant) \<noteq> aa_Resource a,
            merge_grant x zero_grant))) t1 = (Inr (False, g), u)"
    unfolding gateway_check_def uncap_steps by (elim tx_bind_InrE)
  note c = Get_credential[OF 1 assms(2)]
  from 2 obtain c' where f: "found = Some c'" "cr_Kind c' = ''access''" "aa_now a < cr_ExpiresAt c'"
    and "tx_bind (Get cd asAgentGrant (grant_key (cr_GrantID c'))) (\<lambda>x.
          tx_return (\<not> agentGrantLive x (aa_now a) \<or> ag_Resource x \<noteq> aa_Resource a, x)) t1 = (Inr (False, g), u)"
    by (auto simp del: tx_bind_app split: option.splits if_splits)
  then obtain t2 where g: "Get cd asAgentGrant (grant_key (cr_GrantID c')) t1 = (Inr g, t2)"
    and "agentGrantLive g (aa_now a)" "ag_Resource g = aa_Resource a"
    by (auto simp del: tx_bind_app elim!: tx_bind_InrE tx_return_InrE)
  then show thesis using that[of c'] c f Get_grant(1)[OF g] by simp
qed

text \<open>Along a run, a revoked grant stays revoked or goes away, and a spent credential stays spent or
  goes away.\<close>

lemma run_revoked:
  assumes "(agent_step hash cd)\<^sup>*\<^sup>* (D, ids, keys) (D', ids', keys')" "life_ok hash (life_of D ids keys)"
    and "grant_at D i = Some g" "ag_Revoked g" "grant_at D' i = Some g'"
  shows "ag_Revoked g'"
proof -
  have "i \<in> ids" using life_okD(2)[OF assms(2), of i g] assms(3) by simp
  then obtain h where "grant_at D i = Some h" "amends h g'"
    using life_leD(1)[OF agents_le(1)[OF assms(1)], of i g'] assms(2,5) by auto
  then show ?thesis using assms(3,4) by (simp add: amends_def)
qed

lemma run_spent:
  assumes "(agent_step hash cd)\<^sup>*\<^sup>* (D, ids, keys) (D', ids', keys')" "life_ok hash (life_of D ids keys)"
    and "cred_at D k = Some c" "cr_Used c" "cred_at D' k = Some c'"
  shows "cr_Used c' \<and> cred_core c' = cred_core c"
proof -
  have "k \<in> keys" using life_okD(3)[OF assms(2), of k c] assms(3) by simp
  then show ?thesis using life_leD(2)[OF agents_le(1)[OF assms(1)], of k c'] assms(2-5) by auto
qed

text \<open>Authentication on a given store.\<close>

lemma AuthenticateAgentKey_start:
  assumes "agentKeyDigest (cf_sha cf) secret = Some i"
  shows "D (raftRef ''agent_keys'' i) = Some (DAgentKey k) \<Longrightarrow> k_UID k \<noteq> [] \<Longrightarrow> repo_now cf < k_ExpiresAt k \<Longrightarrow>
      fst (AuthenticateAgentKey cf doc_codec secret (start_tx D)) = Inr (zero_actor\<lparr>u_UID := k_UID k, u_AgentKeyDigest := i\<rparr>)"
    and "D (raftRef ''agent_keys'' i) = None \<Longrightarrow> fst (AuthenticateAgentKey cf doc_codec secret (start_tx D)) = Inl ErrUnauthorized"
proof -
  assume k: "D (raftRef ''agent_keys'' i) = Some (DAgentKey k)" "k_UID k \<noteq> []" "repo_now cf < k_ExpiresAt k"
  have "steps (AuthenticateAgentKey cf doc_codec secret) D (Inr (zero_actor\<lparr>u_UID := k_UID k, u_AgentKeyDigest := i\<rparr>)) D (Suc 0 + 0)"
    unfolding AuthenticateAgentKey_def assms option.case
    by (rule steps_found(2), rule k(1), simp, rule steps_pass, use k in simp, rule steps_done) simp_all
  from steps_start[OF this] show "fst (AuthenticateAgentKey cf doc_codec secret (start_tx D)) =
      Inr (zero_actor\<lparr>u_UID := k_UID k, u_AgentKeyDigest := i\<rparr>)" by auto
next
  assume "D (raftRef ''agent_keys'' i) = None"
  then have "execs (AuthenticateAgentKey cf doc_codec secret) D 0 (Inl ErrUnauthorized) D (Suc 0)"
    unfolding AuthenticateAgentKey_def assms option.case
    by (intro execs_bind_error execs_missing_error execs_Get_missing) simp_all
  then show "fst (AuthenticateAgentKey cf doc_codec secret (start_tx D)) = Inl ErrUnauthorized"
    using start_tx_runs[of D] unfolding execs_def by fastforce
qed

section \<open>Guarantees\<close>

text \<open>An account never has more than five agent keys stored, whatever keys are issued and revoked.\<close>

theorem agent_keys_bounded:
  assumes "(key_step cd cf)\<^sup>*\<^sup>* Map.empty D"
  shows "finite {i. \<exists>k. key_at D i = Some k \<and> k_UID k = uid} \<and> card {i. \<exists>k. key_at D i = Some k \<and> k_UID k = uid} \<le> 5"
  using keys_bounded[OF keys.invariant[OF assms keys_ok_empty]] by blast

theorem agent_keys_bounded_witness:
  "card {i. \<exists>k. key_at demo_keyring i = Some k \<and> k_UID k = ''alice''} \<le> 5 \<and> key_at demo_keyring (k_ID demo_key) = Some demo_key"
  using agent_keys_bounded[OF demo_keyring_reached, of "''alice''"] by (simp add: key_at_def as_defs)

text \<open>The life of a key: the secret an issued key comes with authenticates as the account it was issued
  to until the key expires, and once a key is revoked its secret authenticates no longer.\<close>

theorem agent_key_lifecycle:
  assumes "IssueAgentKey cf doc_codec a label random (start_tx D) = (Inr (secret, key), u)"
    and "agentKeyDigest (cf_sha cf) secret \<noteq> None" "cf_sha cf' = cf_sha cf" "repo_now cf' < k_ExpiresAt key"
    and "RevokeAgentKey cf'' doc_codec b (k_ID key) (start_tx D') = (Inr x, v)"
  shows "fst (AuthenticateAgentKey cf' doc_codec secret (start_tx (docs doc_codec u))) =
      Inr (zero_actor\<lparr>u_UID := u_UID a, u_AgentKeyDigest := k_ID key\<rparr>)
    \<and> fst (AuthenticateAgentKey cf' doc_codec secret (start_tx (docs doc_codec v))) = Inl ErrUnauthorized"
proof -
  from assms(1) demo_start(1)[of D] obtain k: "u_UID a \<noteq> []" "k_UID key = u_UID a" "key_at (docs doc_codec u) (k_ID key) = Some key"
      "k_ID key = (case agentKeyDigest (cf_sha cf) secret of None \<Rightarrow> [] | Some d \<Rightarrow> d)"
    by (rule IssueAgentKey_InrE) simp
  then have dg: "agentKeyDigest (cf_sha cf') secret = Some (k_ID key)" using assms(2,3) by auto
  have "docs doc_codec u (raftRef ''agent_keys'' (k_ID key)) = Some (DAgentKey key)"
    using k(3) by (simp add: key_at_def bind_eq_Some_conv)
  moreover have "docs doc_codec v (raftRef ''agent_keys'' (k_ID key)) = None"
    using RevokeAgentKey_key[OF assms(5) demo_start(1)] .
  ultimately show ?thesis using AuthenticateAgentKey_start[OF dg] k(1,2) assms(4) by auto
qed

theorem agent_key_lifecycle_witness:
  "\<exists>u v. IssueAgentKey demo_cfg doc_codec demo_bearer ''  laptop '' (Inr demo_random) (start_tx Map.empty)
        = (Inr (''drop_'' @ demo_random, demo_key), u)
    \<and> fst (AuthenticateAgentKey demo_cfg doc_codec (''drop_'' @ demo_random) (start_tx (docs doc_codec u))) =
        Inr (zero_actor\<lparr>u_UID := u_UID demo_bearer, u_AgentKeyDigest := k_ID demo_key\<rparr>)
    \<and> RevokeAgentKey demo_cfg doc_codec demo_bearer (k_ID demo_key) (start_tx demo_keyring) = (Inr (), v)
    \<and> fst (AuthenticateAgentKey demo_cfg doc_codec (''drop_'' @ demo_random) (start_tx (docs doc_codec v))) = Inl ErrUnauthorized"
proof -
  obtain u where u: "IssueAgentKey demo_cfg doc_codec demo_bearer ''  laptop '' (Inr demo_random) (start_tx Map.empty) =
      (Inr (''drop_'' @ demo_random, demo_key), u)"
    using steps_start[OF demo_issue] by auto
  obtain v where v: "RevokeAgentKey demo_cfg doc_codec demo_bearer (k_ID demo_key) (start_tx demo_keyring) = (Inr (), v)"
    using steps_start[OF demo_revoke_key] by auto
  have "repo_now demo_cfg < k_ExpiresAt demo_key" by (simp add: agentKeyLifetime_def day_def hour_def second_def)
  with agent_key_lifecycle[OF u _ refl _ v] demo_key_digest u v show ?thesis by auto
qed

text \<open>C34. A revocation is final: after a grant is revoked, no sequence of transactions makes the gateway
  accept one of its access tokens, and none makes the token endpoint issue tokens for it.\<close>

theorem revocation_is_final:
  assumes "(agent_step hash cd)\<^sup>*\<^sup>* no_agents (D, ids, keys)" "grant_at D i = Some g" "ag_Revoked g"
    and "(agent_step hash cd)\<^sup>*\<^sup>* (D, ids, keys) (D', ids', keys')"
    and "good_env cd (tx_read t)" "docs cd t = D'"
  shows "(\<forall>secret g' u. uncap (gateway_check a cd secret) zero_grant t = (Inr (False, g'), u) \<longrightarrow> ag_ID g' \<noteq> i)
    \<and> (\<forall>access refresh g0 y u. ag_ID g0 = i \<longrightarrow> uncap (issue a cd access refresh) g0 t \<noteq> (Inr y, u))"
proof -
  have ok: "life_ok hash (life_of D ids keys)" using agents_le(2)[OF assms(1) no_agents_ok] by simp
  have ok': "life_ok hash (life_of D' ids' keys')" using agents_le(2)[OF assms(4)] ok by simp
  note rev = run_revoked[OF assms(4) ok assms(2,3)]
  have "ag_ID g' \<noteq> i" if r: "uncap (gateway_check a cd secret) zero_grant t = (Inr (False, g'), u)" for secret g' u
    using r assms(5)
  proof (rule gateway_check_accepts)
    fix c assume g': "grant_at (docs cd t) (cr_GrantID c) = Some g'" "agentGrantLive g' (aa_now a)"
    then have "ag_ID g' = cr_GrantID c" using life_okD(1)[OF ok', of "cr_GrantID c" g'] assms(6) by simp
    then show "ag_ID g' \<noteq> i" using rev[of g'] g' assms(6) by (auto simp: agentGrantLive_def)
  qed
  moreover have False if i: "ag_ID g0 = i" and r: "uncap (issue a cd access refresh) g0 t = (Inr y, u)" for access refresh g0 y u
  proof -
    from r have "uncap (issue a cd access refresh) g0 t = (Inr (fst y, snd y), u)" by (cases y) simp
    from this assms(5) show False
    proof (rule issue_cases)
      fix h assume h: "grant_at (docs cd t) (ag_ID g0) = Some h" "agentGrantLive (merge_grant h g0) (aa_now a)"
      then have "ag_Revoked (merge_grant h g0)" using rev[of h] i assms(6) by (simp add: merge_grant_def)
      then show False using h(2) by (simp add: agentGrantLive_def)
    qed
  qed
  ultimately show ?thesis by blast
qed

theorem revocation_is_final_witness:
  "ag_Revoked (revoked demo_agent) \<and> grant_at demo_disconnected ''grant'' = Some (revoked demo_agent)
    \<and> \<not> (\<exists>secret g' u. uncap (gateway_check (demo_auth 0) doc_codec secret) zero_grant (start_tx demo_disconnected) = (Inr (False, g'), u)
        \<and> ag_ID g' = ''grant'')
    \<and> \<not> (\<exists>access refresh y u. uncap (issue (demo_auth 0) doc_codec access refresh) demo_agent (start_tx demo_disconnected) = (Inr y, u))"
proof -
  have g: "grant_at demo_disconnected ''grant'' = Some (revoked demo_agent)" "ag_Revoked (revoked demo_agent)"
    by (simp_all add: demo_disconnected_def as_defs revoked_def)
  from revocation_is_final[OF demo_runs(3) g rtranclp.rtrancl_refl demo_start, of "demo_auth 0"] g show ?thesis
    using demo_agent_sel(1) by blast
qed

text \<open>An accepted redemption: what it requires of the store and what it writes.\<close>

lemma redemption_is_sound:
  assumes "uncap (redeem a cd f kind secret) (zero_credential, zero_grant) t = (Inr (False, c', g), u)" "good_env cd (tx_read t)"
  shows "\<exists>c. cred_at (docs cd t) (aa_agentHash a secret) = Some c \<and> \<not> cr_Used c \<and> cr_Kind c = kind
    \<and> cr_ClientID c = tf_client_id f \<and> aa_now a < cr_ExpiresAt c \<and> grant_at (docs cd t) (cr_GrantID c) = Some g
    \<and> agentGrantLive g (aa_now a) \<and> ag_Resource g = aa_Resource a
    \<and> (kind = ''code'' \<longrightarrow> cr_RedirectURI c = tf_redirect_uri f \<and> aa_challenge a (tf_code_verifier f) = cr_Challenge c)"
  using assms by (cases rule: redeem_cases) (auto simp: pkce_ok_def Let_def)

text \<open>C35. A code or refresh token is redeemed soundly and at most once. An accepted redemption found the
  secret's record stored, unused, unexpired, of the requested kind and for the requesting client, its
  grant live and for this server's resource, and a code with the redirect address it was issued for and
  a verifier whose digest is its challenge. Whatever transactions follow, every further redemption of
  the same secret is refused; while its record is stored, one that names the right kind and client also
  revokes the grant.\<close>

theorem credential_redeemed_once:
  assumes "(agent_step hash cd)\<^sup>*\<^sup>* no_agents (D, ids, keys)"
    and "uncap (redeem a cd f kind secret) (zero_credential, zero_grant) t = (Inr (False, c1, g1), u)"
    and "good_env cd (tx_read t)" "docs cd t = D" "aa_agentHash a = hash"
    and "(agent_step hash cd)\<^sup>*\<^sup>* (docs cd u, ids, keys) (D', ids', keys')"
    and "uncap (redeem a' cd f' kind' secret) (zero_credential, zero_grant) t' = (Inr (invalid, c2, g2), u')"
    and "good_env cd (tx_read t')" "docs cd t' = D'" "aa_agentHash a' = hash"
  shows "(\<exists>c. cred_at D (hash secret) = Some c \<and> \<not> cr_Used c \<and> cr_Kind c = kind \<and> cr_ClientID c = tf_client_id f
      \<and> aa_now a < cr_ExpiresAt c \<and> grant_at D (cr_GrantID c) = Some g1 \<and> agentGrantLive g1 (aa_now a) \<and> ag_Resource g1 = aa_Resource a
      \<and> (kind = ''code'' \<longrightarrow> cr_RedirectURI c = tf_redirect_uri f \<and> aa_challenge a (tf_code_verifier f) = cr_Challenge c))
    \<and> invalid \<and> (cred_at D' (hash secret) \<noteq> None \<and> kind' = kind \<and> tf_client_id f' = tf_client_id f \<longrightarrow>
    (\<exists>g. grant_at (docs cd u') (cr_GrantID c1) = Some g \<and> ag_Revoked g))"
proof (intro conjI[OF redemption_is_sound[OF assms(2,3), unfolded assms(4,5)]])
  let ?k = "hash secret"
  have ok: "life_ok hash (life_of D ids keys)" using agents_le(2)[OF assms(1) no_agents_ok] by simp
  from assms(2,3) obtain c where c: "cred_at D ?k = Some c" "cr_Kind c = kind" "cr_ClientID c = tf_client_id f"
      "docs cd u = D(credential_key ?k \<mapsto> DAgentCredential (spent c))" "c1 = spent c" "\<not> cr_Used c"
    by (rule redeem_cases) (use assms(4,5) in auto)
  have "agent_step hash cd (D, ids, keys) (docs cd u, ev_ids (ERedeem f kind secret zero_credential zero_grant) \<union> ids,
      ev_keys a (ERedeem f kind secret zero_credential zero_grant) \<union> keys)"
    by (rule agent_step.event[where a = a and t = t and u = u and x = "()"])
      (use assms in \<open>simp_all add: compat_cred_def compat_grant_def tx_void_def\<close>)
  then have okD: "life_ok hash (life_of (docs cd u) ids keys)" using agents_le(2)[OF r_into_rtranclp] ok by fastforce
  have cu: "cred_at (docs cd u) ?k = Some (spent c)" using c(4) by (simp add: as_defs)
  note sp = run_spent[OF assms(6) okD cu]
  have okD': "life_ok hash (life_of D' ids' keys')" using agents_le(2)[OF assms(6)] okD by simp
  from assms(7,8) show "invalid \<and> (cred_at D' (hash secret) \<noteq> None \<and> kind' = kind \<and> tf_client_id f' = tf_client_id f \<longrightarrow>
    (\<exists>g. grant_at (docs cd u') (cr_GrantID c1) = Some g \<and> ag_Revoked g))"
  proof (cases rule: redeem_cases)
    case unknown
    then show ?thesis using assms(9,10) by simp
  next
    case (mismatch x)
    then have "cred_core x = cred_core c" using sp[of x] assms(9,10) by simp
    then show ?thesis using mismatch(2,4) c(2,3) core_fields[of x c] by auto
  next
    case (replay x g)
    then have "cred_core x = cred_core c" using sp[of x] assms(9,10) by simp
    then have "cr_GrantID x = cr_GrantID c1" using core_fields[of x c] c(5) by simp
    moreover have "ag_ID g = cr_GrantID x" using life_okD(1)[OF okD', of "cr_GrantID x" g] replay(4) assms(9) by simp
    ultimately have "grant_at (docs cd u') (cr_GrantID c1) = Some (revoked g)" using replay(7) by (simp add: as_defs)
    then show ?thesis using replay(6) by (simp add: revoked_def)
  next
    case (refused x g)
    then show ?thesis using sp[of x] assms(9,10) by simp
  next
    case (accepted x g)
    then show ?thesis using sp[of x] assms(9,10) by simp
  qed
qed

theorem credential_redeemed_once_witness:
  "\<exists>u'. uncap (redeem (demo_auth 0) doc_codec demo_form ''code'' ''code'') (zero_credential, zero_grant) (start_tx demo_redeemed)
        = (Inr (True, spent demo_code, revoked demo_agent), u')
    \<and> (\<exists>g. grant_at (docs doc_codec u') ''grant'' = Some g \<and> ag_Revoked g)"
proof -
  obtain u where u: "uncap (redeem (demo_auth 0) doc_codec demo_form ''code'' ''code'') (zero_credential, zero_grant) (start_tx demo_connected)
        = (Inr (False, spent demo_code, demo_agent), u)" "docs doc_codec u = demo_redeemed"
    using steps_start[OF demo_redeem] by auto
  obtain u' where u': "uncap (redeem (demo_auth 0) doc_codec demo_form ''code'' ''code'') (zero_credential, zero_grant) (start_tx demo_redeemed)
        = (Inr (True, spent demo_code, revoked demo_agent), u')"
    using steps_start[OF demo_replay] by auto
  have "cred_at demo_redeemed ''code'' \<noteq> None" by (simp add: cred_at_def as_defs)
  then show ?thesis
    using credential_redeemed_once[OF demo_runs(1) u(1) demo_start demo_auth_sel(3) _ u' demo_start demo_auth_sel(3)] u(2) u' by auto
qed

text \<open>C33. Every run of the server's transactions from an empty store is a run of the specification, and keeps
  its invariant: records are stored under their identifiers, an account's index names at most 50
  grants, each stored and its own, and a credential is kept a day longer than its grant can live.\<close>

theorem agents_refine_specification:
  assumes "(agent_step hash cd)\<^sup>*\<^sup>* no_agents (D, ids, keys)"
  shows "(life_step hash)\<^sup>*\<^sup>* (life_of Map.empty {} {}) (life_of D ids keys) \<and> life_ok hash (life_of D ids keys)"
  using agents.simulated[OF assms no_agents_ok] agents_le(2)[OF assms no_agents_ok] by (simp add: no_agents_def)

theorem agents_refine_specification_witness:
  "life_ok (\<lambda>s. s) (life_of demo_connected {''grant''} {''code''}) \<and> grant_index demo_connected ''alice'' = [''grant'']"
  using agents_refine_specification[OF demo_runs(1)] by (simp add: demo_connected_def as_defs)



text \<open>Replay tombstones outlive the grants they guard: when cleanup deletes a credential, its grant
  is gone or its lifetime ended at least a day earlier, so it can never be live again.\<close>

theorem tombstones_outlive_grants:
  assumes "(agent_step hash cd)\<^sup>*\<^sup>* no_agents (docs cd t, ids, keys)" "good_env cd (tx_read t)"
    and "maintain_tx cd hash now ''agent_credentials/'' (credential_key k) t = (Inr x, u)"
    and "cred_at (docs cd t) k = Some c" "cred_at (docs cd u) k = None"
    and "grant_at (docs cd t) (cr_GrantID c) = Some g"
  shows "ag_ExpiresAt g + day \<le> now \<and> (\<forall>later. now \<le> later \<longrightarrow> \<not> agentGrantLive g later)"
proof -
  have ok: "life_ok hash (life_of (docs cd t) ids keys)" using agents_le(2)[OF assms(1) no_agents_ok] by simp
  have "cr_RetainUntil c = ag_ExpiresAt g + day" using life_okD(6)[OF ok, of k c g] assms(4,6) by simp
  moreover from assms(3) have "cr_RetainUntil c \<le> now"
  proof -
    from assms(3) have "maintain_if (Get cd asAgentCredential (credential_key k))
        (\<lambda>v. IsZero (cr_RetainUntil v) \<or> now < cr_RetainUntil v) (Delete (credential_key k)) t = (Inr x, u)"
      unfolding maintain_tx_def by simp
    then show ?thesis
      by (rule maintain_if_cases) (use assms(4,5) in \<open>auto simp: cred_at_def as_defs\<close>)
  qed
  ultimately show ?thesis by (auto simp: agentGrantLive_def day_def hour_def second_def)
qed

theorem tombstones_outlive_grants_witness:
  "\<exists>u. maintain_tx doc_codec (\<lambda>s. s) (91 * day) ''agent_credentials/'' (credential_key ''code'') (start_tx demo_redeemed) = (Inr (), u)
    \<and> cred_at (docs doc_codec u) ''code'' = None \<and> ag_ExpiresAt demo_agent + day \<le> 91 * day"
proof -
  obtain u where u: "maintain_tx doc_codec (\<lambda>s. s) (91 * day) ''agent_credentials/'' (credential_key ''code'') (start_tx demo_redeemed)
      = (Inr (), u)" "docs doc_codec u = demo_redeemed(credential_key ''code'' := None)"
    using steps_start[OF demo_forget] by auto
  have "cred_at demo_redeemed ''code'' = Some (spent demo_code)" "grant_at demo_redeemed (cr_GrantID (spent demo_code)) = Some demo_agent"
    by (simp_all add: cred_at_def grant_at_def as_defs)
  moreover have "cred_at (docs doc_codec u) ''code'' = None" using u(2) by simp
  ultimately have "ag_ExpiresAt demo_agent + day \<le> 91 * day"
    using tombstones_outlive_grants[OF _ demo_start(1) u(1)] demo_runs(2) by (metis demo_start(2))
  then show ?thesis using u(1) \<open>cred_at (docs doc_codec u) ''code'' = None\<close> by blast
qed



end
