(* ===== verification/Addresses.thy ===== *)
theory Addresses
  imports Prelude "HOL-Library.Word"
begin

unbundle bit_operations_syntax

text \<open>
  Network addresses and the gate on outbound connections (\<open>internal/httpserver/agent_clients.go\<close>,
  \<open>agentDeniedNetworks\<close>, \<open>agentPublicIP\<close> and the dialer of \<open>newAgentMetadataClient\<close>). An address is
  \<open>netip.Addr\<close> at its width: nothing, 32 bits, or 128 bits with a zone. The predicates are the ones of
  \<open>net/netip\<close>, on bytes and masks; the gate is proved equal to a table of address ranges.
\<close>

section \<open>Addresses and prefixes\<close>

datatype addr = NoAddr | V4 "32 word" | V6 "128 word" string

record prefix =
  pf_addr :: addr
  pf_bits :: nat

definition v4_byte :: "32 word \<Rightarrow> nat \<Rightarrow> 8 word" where
  "v4_byte n i = ucast (drop_bit (24 - 8 * i) n)"

definition v6_u16 :: "128 word \<Rightarrow> nat \<Rightarrow> 16 word" where
  "v6_u16 n i = ucast (drop_bit (112 - 16 * i) n)"

definition Unmap :: "addr \<Rightarrow> addr" where
  "Unmap ip = (case ip of
     V6 n zone \<Rightarrow> if drop_bit 32 n = 0xffff then V4 (ucast n) else ip
   | _ \<Rightarrow> ip)"

definition Is6 :: "addr \<Rightarrow> bool" where
  "Is6 ip \<longleftrightarrow> (case ip of V6 n zone \<Rightarrow> True | _ \<Rightarrow> False)"

definition IsLoopback :: "addr \<Rightarrow> bool" where
  "IsLoopback ip \<longleftrightarrow> (case Unmap ip of
     NoAddr \<Rightarrow> False | V4 n \<Rightarrow> v4_byte n 0 = 127 | V6 n zone \<Rightarrow> n = 1)"

definition IsMulticast :: "addr \<Rightarrow> bool" where
  "IsMulticast ip \<longleftrightarrow> (case Unmap ip of
     NoAddr \<Rightarrow> False | V4 n \<Rightarrow> v4_byte n 0 AND 0xf0 = 0xe0 | V6 n zone \<Rightarrow> drop_bit 8 (v6_u16 n 0) = 0xff)"

definition IsLinkLocalUnicast :: "addr \<Rightarrow> bool" where
  "IsLinkLocalUnicast ip \<longleftrightarrow> (case Unmap ip of
     NoAddr \<Rightarrow> False | V4 n \<Rightarrow> v4_byte n 0 = 169 \<and> v4_byte n 1 = 254 | V6 n zone \<Rightarrow> v6_u16 n 0 AND 0xffc0 = 0xfe80)"

definition IsPrivate :: "addr \<Rightarrow> bool" where
  "IsPrivate ip \<longleftrightarrow> (case Unmap ip of
     NoAddr \<Rightarrow> False
   | V4 n \<Rightarrow> v4_byte n 0 = 10 \<or> (v4_byte n 0 = 172 \<and> v4_byte n 1 AND 0xf0 = 16) \<or> (v4_byte n 0 = 192 \<and> v4_byte n 1 = 168)
   | V6 n zone \<Rightarrow> drop_bit 8 (v6_u16 n 0) AND 0xfe = 0xfc)"

definition IsUnspecified :: "addr \<Rightarrow> bool" where
  "IsUnspecified ip \<longleftrightarrow> ip = V4 0 \<or> ip = V6 0 []"

definition IsGlobalUnicast :: "addr \<Rightarrow> bool" where
  "IsGlobalUnicast ip \<longleftrightarrow> ip \<noteq> NoAddr \<and> (let ip = Unmap ip in
     ip \<noteq> V4 0 \<and> ip \<noteq> V4 0xffffffff \<and> ip \<noteq> V6 0 []
     \<and> \<not> IsLoopback ip \<and> \<not> IsMulticast ip \<and> \<not> IsLinkLocalUnicast ip)"

text \<open>\<open>Prefix.Contains\<close>: an address with a zone, or of the other family, is in no prefix.\<close>

definition Contains :: "prefix \<Rightarrow> addr \<Rightarrow> bool" where
  "Contains p ip \<longleftrightarrow> (case (pf_addr p, ip) of
     (V4 m, V4 n) \<Rightarrow> drop_bit (32 - pf_bits p) (n XOR m) = 0
   | (V6 m _, V6 n zone) \<Rightarrow> zone = [] \<and> drop_bit (128 - pf_bits p) (n XOR m) = 0
   | _ \<Rightarrow> False)"

section \<open>The gate\<close>

definition ipv4 :: "nat \<Rightarrow> nat \<Rightarrow> nat \<Rightarrow> nat \<Rightarrow> addr" where
  "ipv4 a b c d = V4 (word_of_nat (((a * 256 + b) * 256 + c) * 256 + d))"

definition agentDeniedNetworks :: "prefix list" where
  "agentDeniedNetworks =
     [\<lparr>pf_addr = ipv4 0 0 0 0, pf_bits = 8\<rparr>, \<lparr>pf_addr = ipv4 192 88 99 0, pf_bits = 24\<rparr>,
      \<lparr>pf_addr = ipv4 100 64 0 0, pf_bits = 10\<rparr>, \<lparr>pf_addr = ipv4 192 0 0 0, pf_bits = 24\<rparr>,
      \<lparr>pf_addr = ipv4 192 0 2 0, pf_bits = 24\<rparr>, \<lparr>pf_addr = ipv4 198 18 0 0, pf_bits = 15\<rparr>,
      \<lparr>pf_addr = ipv4 198 51 100 0, pf_bits = 24\<rparr>, \<lparr>pf_addr = ipv4 203 0 113 0, pf_bits = 24\<rparr>,
      \<lparr>pf_addr = ipv4 240 0 0 0, pf_bits = 4\<rparr>, \<lparr>pf_addr = V6 (push_bit 96 0x20010db8) [], pf_bits = 32\<rparr>,
      \<lparr>pf_addr = V6 (push_bit 96 0x20010000) [], pf_bits = 32\<rparr>, \<lparr>pf_addr = V6 (push_bit 112 0x2002) [], pf_bits = 16\<rparr>,
      \<lparr>pf_addr = V6 (push_bit 96 0x64ff9b) [], pf_bits = 96\<rparr>]"

definition agentPublicIP :: "addr \<Rightarrow> bool" where
  "agentPublicIP addr = (let ip = Unmap addr in
     if Is6 ip \<and> \<not> Contains \<lparr>pf_addr = V6 (push_bit 112 0x2000) [], pf_bits = 3\<rparr> ip then False
     else if \<not> IsGlobalUnicast ip \<or> IsPrivate ip \<or> IsLoopback ip \<or> IsLinkLocalUnicast ip \<or> IsUnspecified ip then False
     else \<not> list_ex (\<lambda>p. Contains p ip) agentDeniedNetworks)"

text \<open>
  The dialer: every address the name resolves to must pass the gate, then they are tried in order.
  The result is the error or the address that was connected to, after the addresses that were dialled.
\<close>

fun dial_each :: "(addr \<Rightarrow> bool) \<Rightarrow> addr list \<Rightarrow> err \<Rightarrow> addr list \<times> (err + addr)" where
  "dial_each reachable [] last_err = ([], Inl last_err)"
| "dial_each reachable (ip # ips) last_err =
     (if reachable ip then ([ip], Inr ip)
      else case dial_each reachable ips (ErrOther ''dial'') of (dialled, r) \<Rightarrow> (ip # dialled, r))"

definition metadata_dial :: "err + addr list \<Rightarrow> (addr \<Rightarrow> bool) \<Rightarrow> addr list \<times> (err + addr)" where
  "metadata_dial lookup reachable = (case lookup of
     Inl e \<Rightarrow> ([], Inl ErrInvalid)
   | Inr ips \<Rightarrow>
       if ips = [] then ([], Inl ErrInvalid)
       else if list_ex (\<lambda>ip. \<not> agentPublicIP ip) ips then ([], Inl ErrInvalid)
       else dial_each reachable ips (ErrOther ''dial''))"

section \<open>Ranges\<close>

text \<open>The special-purpose ranges of IPv4, and those of IPv6 within global unicast, by first and last address.\<close>

definition v4_num :: "nat \<Rightarrow> nat \<Rightarrow> nat \<Rightarrow> nat \<Rightarrow> nat" where
  "v4_num a b c d = ((a * 256 + b) * 256 + c) * 256 + d"

definition special_v4 :: "(nat \<times> nat) list" where
  "special_v4 =
     [(v4_num 0 0 0 0, v4_num 0 255 255 255), (v4_num 10 0 0 0, v4_num 10 255 255 255),
      (v4_num 100 64 0 0, v4_num 100 127 255 255), (v4_num 127 0 0 0, v4_num 127 255 255 255),
      (v4_num 169 254 0 0, v4_num 169 254 255 255), (v4_num 172 16 0 0, v4_num 172 31 255 255),
      (v4_num 192 0 0 0, v4_num 192 0 0 255), (v4_num 192 0 2 0, v4_num 192 0 2 255),
      (v4_num 192 88 99 0, v4_num 192 88 99 255), (v4_num 192 168 0 0, v4_num 192 168 255 255),
      (v4_num 198 18 0 0, v4_num 198 19 255 255), (v4_num 198 51 100 0, v4_num 198 51 100 255),
      (v4_num 203 0 113 0, v4_num 203 0 113 255), (v4_num 224 0 0 0, v4_num 255 255 255 255)]"

definition special_v6 :: "(nat \<times> nat) list" where
  "special_v6 = [(0x20010000 * 2 ^ 96, 0x20010001 * 2 ^ 96 - 1), (0x20010db8 * 2 ^ 96, 0x20010db9 * 2 ^ 96 - 1),
     (0x2002 * 2 ^ 112, 0x2003 * 2 ^ 112 - 1)]"

definition within_range :: "nat \<Rightarrow> nat \<times> nat \<Rightarrow> bool" where
  "within_range x r \<longleftrightarrow> fst r \<le> x \<and> x \<le> snd r"

definition public_range :: "addr \<Rightarrow> bool" where
  "public_range ip \<longleftrightarrow> (case ip of
     NoAddr \<Rightarrow> False
   | V4 n \<Rightarrow> \<not> list_ex (within_range (unat n)) special_v4
   | V6 n zone \<Rightarrow>
       if within_range (unat n) (0xffff * 2 ^ 32, 0x10000 * 2 ^ 32 - 1)
       then \<not> list_ex (within_range (unat n - 0xffff * 2 ^ 32)) special_v4
       else zone = [] \<and> within_range (unat n) (0x2000 * 2 ^ 112, 0x4000 * 2 ^ 112 - 1)
         \<and> \<not> list_ex (within_range (unat n)) special_v6)"

lemma any_steps: "list_ex P [] \<longleftrightarrow> False" "list_ex P (x # xs) \<longleftrightarrow> P x \<or> list_ex P xs"
  by (simp_all add: list_ex_iff)

lemma div_range:
  assumes "0 < (k::nat)"
  shows "x div k = c \<longleftrightarrow> c * k \<le> x \<and> x < (c + 1) * k"
proof
  assume "x div k = c"
  then show "c * k \<le> x \<and> x < (c + 1) * k"
    using assms dividend_less_times_div[of k x] by (auto simp: mult.commute)
next
  assume "c * k \<le> x \<and> x < (c + 1) * k"
  then show "x div k = c" by (intro div_nat_eqI) (simp_all add: mult.commute)
qed

lemma unat_drop: "unat (drop_bit k w) = unat w div 2 ^ k"
  unfolding unat_drop_bit_eq by (rule drop_bit_eq_div)

lemma unat_low: "unat (ucast w :: 'b::len word) = unat w mod 2 ^ LENGTH('b)"
  unfolding unsigned_ucast_eq by (rule take_bit_eq_mod)

lemma drop_xor:
  fixes n m :: "'a::len word"
  shows "drop_bit k (n XOR m) = 0 \<longleftrightarrow> unat n div 2 ^ k = unat m div 2 ^ k"
proof -
  have "drop_bit k (n XOR m) = 0 \<longleftrightarrow> drop_bit k n = drop_bit k m"
    by (auto simp: bit_eq_iff bit_simps)
  also have "\<dots> \<longleftrightarrow> unat (drop_bit k n) = unat (drop_bit k m)" by (rule word_unat_eq_iff)
  finally show ?thesis unfolding unat_drop .
qed

lemma unat_bytes:
  "unat (v4_byte n 0) = unat n div 2 ^ 24" "unat (v4_byte n 1) = unat n div 2 ^ 16 mod 256"
proof -
  have "unat n < 2 ^ 32" using unsigned_less[of n, where ?'a = nat] by simp
  then have "unat n div 2 ^ 24 < 256" by (simp add: div_less_iff_less_mult)
  then show "unat (v4_byte n 0) = unat n div 2 ^ 24"
    unfolding v4_byte_def unat_low unat_drop by simp
  show "unat (v4_byte n 1) = unat n div 2 ^ 16 mod 256"
    unfolding v4_byte_def unat_low unat_drop by simp
qed

text \<open>The upper four bits of a byte.\<close>

lemma upper_nibble:
  fixes b c :: "8 word"
  assumes "drop_bit 4 c = d" "c AND 0xf0 = c"
  shows "b AND 0xf0 = c \<longleftrightarrow> unat b div 16 = unat d"
proof -
  have m: "b AND 0xf0 = push_bit 4 (drop_bit 4 b)" for b :: "8 word"
  proof (rule bit_word_eqI)
    fix i assume "i < LENGTH(8)"
    moreover have "bit (0xf0 :: 8 word) i \<longleftrightarrow> 4 \<le> i" if "i < 8"
    proof -
      have "i \<in> {0,1,2,3,4,5,6,7}" using that by auto
      then show ?thesis by (elim insertE emptyE) (simp_all add: bit_iff_odd)
    qed
    ultimately show "bit (b AND 0xf0) i = bit (push_bit 4 (drop_bit 4 b)) i"
      by (auto simp: bit_simps)
  qed
  have "b AND 0xf0 = c \<longleftrightarrow> drop_bit 4 b = d"
  proof
    assume "b AND 0xf0 = c"
    then have "drop_bit 4 (b AND 0xf0) = d" using assms(1) by simp
    moreover have "drop_bit 4 (b AND 0xf0) = drop_bit 4 b" unfolding m
      by (auto simp: bit_eq_iff bit_simps dest: bit_imp_le_length)
    ultimately show "drop_bit 4 b = d" by simp
  qed (use assms m[of b] m[of c] in simp)
  also have "\<dots> \<longleftrightarrow> unat b div 16 = unat d"
    unfolding word_unat_eq_iff unat_drop by simp
  finally show ?thesis .
qed

text \<open>The predicates on IPv4 as ranges.\<close>

lemma v4_bounds: "unat (n :: 32 word) < 4294967296"
  using unsigned_less[of n, where ?'a = nat] by simp

lemma byte0: "c < 256 \<Longrightarrow> v4_byte n 0 = word_of_nat c \<longleftrightarrow> within_range (unat n) (v4_num c 0 0 0, v4_num c 255 255 255)"
  unfolding word_unat_eq_iff unat_bytes within_range_def v4_num_def
  using div_range[of "2 ^ 24" "unat n" c] by (simp add: unat_of_nat) linarith

lemma byte01:
  assumes "c < 256" "d < 256"
  shows "v4_byte n 0 = word_of_nat c \<and> v4_byte n 1 = word_of_nat d \<longleftrightarrow>
    within_range (unat n) (v4_num c d 0 0, v4_num c d 255 255)"
proof -
  have "unat n div 2 ^ 24 = unat n div 2 ^ 16 div 256" by (simp add: div_mult2_eq[symmetric])
  then have "unat n div 2 ^ 24 = c \<and> unat n div 2 ^ 16 mod 256 = d \<longleftrightarrow> unat n div 2 ^ 16 = c * 256 + d"
    using assms by (auto simp: mult.commute)
  also have "\<dots> \<longleftrightarrow> within_range (unat n) (v4_num c d 0 0, v4_num c d 255 255)"
    unfolding within_range_def v4_num_def using div_range[of "2 ^ 16" "unat n" "c * 256 + d"] by simp linarith
  finally show ?thesis unfolding word_unat_eq_iff unat_bytes using assms by (simp add: unat_of_nat)
qed

lemma prefix_range:
  fixes n m :: "'a::len word"
  assumes "unat m mod 2 ^ k = 0"
  shows "drop_bit k (n XOR m) = 0 \<longleftrightarrow> within_range (unat n) (unat m, unat m + 2 ^ k - 1)"
proof -
  have "unat m div 2 ^ k * 2 ^ k = unat m" using assms by (metis add.right_neutral div_mult_mod_eq)
  then have "unat n div 2 ^ k = unat m div 2 ^ k \<longleftrightarrow> unat m \<le> unat n \<and> unat n < unat m + 2 ^ k"
    unfolding div_range[OF zero_less_power[OF zero_less_numeral]] by (simp add: algebra_simps)
  moreover have "unat n < unat m + 2 ^ k \<longleftrightarrow> unat n \<le> unat m + 2 ^ k - 1"
    using zero_less_power[of "2 :: nat" k] by linarith
  ultimately show ?thesis unfolding drop_xor within_range_def by simp
qed

lemma v4_contains:
  assumes "v4_num a b c 0 < 4294967296" "v4_num a b c 0 mod 2 ^ (32 - bits) = 0"
  shows "Contains \<lparr>pf_addr = ipv4 a b c 0, pf_bits = bits\<rparr> (V4 n) \<longleftrightarrow>
    within_range (unat n) (v4_num a b c 0, v4_num a b c 0 + 2 ^ (32 - bits) - 1)"
proof -
  let ?m = "word_of_nat (v4_num a b c 0) :: 32 word"
  have m: "unat ?m = v4_num a b c 0" using assms(1) by (simp add: unat_of_nat)
  have "Contains \<lparr>pf_addr = ipv4 a b c 0, pf_bits = bits\<rparr> (V4 n) \<longleftrightarrow> drop_bit (32 - bits) (n XOR ?m) = 0"
    by (simp add: Contains_def ipv4_def v4_num_def del: drop_bit_xor)
  then show ?thesis using prefix_range[of ?m "32 - bits" n] assms(2) m by metis
qed

lemma v4_family:
  "Contains \<lparr>pf_addr = V6 m z, pf_bits = bits\<rparr> (V4 n) \<longleftrightarrow> False"
  "Contains \<lparr>pf_addr = ipv4 a b c d, pf_bits = bits\<rparr> (V6 k z) \<longleftrightarrow> False"
  by (simp_all add: Contains_def ipv4_def)

lemma agentPublicIP_v4: "agentPublicIP (V4 n) \<longleftrightarrow> \<not> list_ex (within_range (unat n)) special_v4"
proof -
  let ?r = "\<lambda>a b c d a' b' c' d'. within_range (unat n) (v4_num a b c d, v4_num a' b' c' d')"
  have zero: "n = 0 \<Longrightarrow> ?r 0 0 0 0 0 255 255 255" and ones: "n = 0xffffffff \<Longrightarrow> ?r 240 0 0 0 255 255 255 255"
    by (simp_all add: within_range_def v4_num_def)
  have multi: "v4_byte n 0 AND 0xf0 = 0xe0 \<longleftrightarrow> ?r 224 0 0 0 239 255 255 255"
  proof -
    have "v4_byte n 0 AND 0xf0 = 0xe0 \<longleftrightarrow> unat n div 2 ^ 24 div 16 = 14"
      using upper_nibble[of "0xe0" "14" "v4_byte n 0"] unat_bytes(1)[of n] by simp
    also have "\<dots> \<longleftrightarrow> unat n div 2 ^ 28 = 14" by (simp add: div_mult2_eq[symmetric])
    finally show ?thesis using div_range[of "2 ^ 28" "unat n" 14] by (simp add: within_range_def v4_num_def) linarith
  qed
  have p172: "v4_byte n 0 = 172 \<and> v4_byte n 1 AND 0xf0 = 16 \<longleftrightarrow> ?r 172 16 0 0 172 31 255 255"
  proof -
    let ?m = "unat n div 2 ^ 20"
    have "a mod 256 div 16 = a div 16 mod 16" for a :: nat using mod_mult2_eq[of a 16 16] by simp
    then have "unat n div 2 ^ 24 = ?m div 16" "unat n div 2 ^ 16 mod 256 div 16 = ?m mod 16"
      by (simp_all add: div_mult2_eq[symmetric])
    then have "v4_byte n 0 = 172 \<and> v4_byte n 1 AND 0xf0 = 16 \<longleftrightarrow> ?m div 16 = 172 \<and> ?m mod 16 = 1"
      using upper_nibble[of 16 1 "v4_byte n 1"] unat_bytes[of n] by (simp add: word_unat_eq_iff)
    also have "\<dots> \<longleftrightarrow> ?m = 2753"
    proof -
      have "m div 16 = 172 \<and> m mod 16 = 1 \<longleftrightarrow> m = 2753" for m :: nat by presburger
      then show ?thesis .
    qed
    finally show ?thesis using div_range[of "2 ^ 20" "unat n" 2753] by (simp add: within_range_def v4_num_def) linarith
  qed
  have rest: "?r 224 0 0 0 255 255 255 255 \<longleftrightarrow> ?r 224 0 0 0 239 255 255 255 \<or> ?r 240 0 0 0 255 255 255 255"
    by (auto simp: within_range_def v4_num_def)
  have bytes: "v4_byte n 0 = 127 \<longleftrightarrow> ?r 127 0 0 0 127 255 255 255" "v4_byte n 0 = 10 \<longleftrightarrow> ?r 10 0 0 0 10 255 255 255"
    "v4_byte n 0 = 169 \<and> v4_byte n 1 = 254 \<longleftrightarrow> ?r 169 254 0 0 169 254 255 255"
    "v4_byte n 0 = 192 \<and> v4_byte n 1 = 168 \<longleftrightarrow> ?r 192 168 0 0 192 168 255 255"
    using byte0[of 127 n] byte0[of 10 n] byte01[of 169 254 n] byte01[of 192 168 n] by simp_all
  have c: "list_ex (\<lambda>p. Contains p (V4 n)) agentDeniedNetworks \<longleftrightarrow>
      ?r 0 0 0 0 0 255 255 255 \<or> ?r 192 88 99 0 192 88 99 255 \<or> ?r 100 64 0 0 100 127 255 255 \<or> ?r 192 0 0 0 192 0 0 255
      \<or> ?r 192 0 2 0 192 0 2 255 \<or> ?r 198 18 0 0 198 19 255 255 \<or> ?r 198 51 100 0 198 51 100 255
      \<or> ?r 203 0 113 0 203 0 113 255 \<or> ?r 240 0 0 0 255 255 255 255"
    unfolding agentDeniedNetworks_def any_steps v4_family by (simp add: v4_contains v4_num_def)
  have "agentPublicIP (V4 n) \<longleftrightarrow> \<not> (n = 0 \<or> n = 0xffffffff \<or> v4_byte n 0 = 127 \<or> v4_byte n 0 AND 0xf0 = 0xe0
      \<or> (v4_byte n 0 = 169 \<and> v4_byte n 1 = 254) \<or> v4_byte n 0 = 10 \<or> (v4_byte n 0 = 172 \<and> v4_byte n 1 AND 0xf0 = 16)
      \<or> (v4_byte n 0 = 192 \<and> v4_byte n 1 = 168) \<or> list_ex (\<lambda>p. Contains p (V4 n)) agentDeniedNetworks)"
    unfolding agentPublicIP_def Let_def IsGlobalUnicast_def IsPrivate_def IsLoopback_def IsLinkLocalUnicast_def
      IsMulticast_def IsUnspecified_def Is6_def Unmap_def addr.case
    by (simp only: addr.inject addr.distinct if_False simp_thms if_bool_eq_conj) argo
  then show ?thesis unfolding c multi p172 bytes special_v4_def any_steps rest using zero ones by blast
qed

text \<open>IPv6 within \<open>2000::/3\<close> is neither private, nor local, nor multicast.\<close>

lemma v6_contains:
  assumes "unat m mod 2 ^ (128 - bits) = 0"
  shows "Contains \<lparr>pf_addr = V6 m z, pf_bits = bits\<rparr> (V6 n zone) \<longleftrightarrow>
    zone = [] \<and> within_range (unat n) (unat m, unat m + 2 ^ (128 - bits) - 1)"
proof -
  have "Contains \<lparr>pf_addr = V6 m z, pf_bits = bits\<rparr> (V6 n zone) \<longleftrightarrow> zone = [] \<and> drop_bit (128 - bits) (n XOR m) = 0"
    by (simp add: Contains_def del: drop_bit_xor)
  then show ?thesis using prefix_range[OF assms] by metis
qed

lemma global_v6:
  assumes "within_range (unat n) (0x2000 * 2 ^ 112, 0x4000 * 2 ^ 112 - 1)" "drop_bit 32 n \<noteq> 0xffff"
  shows "IsGlobalUnicast (V6 n z) \<and> \<not> IsPrivate (V6 n z) \<and> \<not> IsLoopback (V6 n z) \<and> \<not> IsLinkLocalUnicast (V6 n z)
    \<and> \<not> IsUnspecified (V6 n z)"
proof -
  let ?x = "unat n div 2 ^ 112"
  have x: "0x2000 \<le> ?x" "?x < 0x4000"
    using assms(1) by (simp_all add: within_range_def less_eq_div_iff_mult_less_eq div_less_iff_less_mult)
  have u: "unat (v6_u16 n 0) = ?x" using x by (simp add: v6_u16_def unat_low unat_drop)
  then have d: "unat (drop_bit 8 (v6_u16 n 0)) < 0x40" using x by (simp add: unat_drop)
  have "v6_u16 n 0 AND 0xffc0 \<noteq> 0xfe80"
    using word_and_le2[of "v6_u16 n 0" "0xffc0"] u x by (auto simp: word_le_nat_alt)
  moreover have "drop_bit 8 (v6_u16 n 0) \<noteq> 0xff" using d by auto
  moreover have "drop_bit 8 (v6_u16 n 0) AND 0xfe \<noteq> 0xfc"
    using word_and_le2[of "drop_bit 8 (v6_u16 n 0)" "0xfe"] d by (auto simp: word_le_nat_alt)
  moreover have "n \<noteq> 0" "n \<noteq> 1" using assms(1) by (auto simp: within_range_def)
  ultimately show ?thesis using assms(2)
    by (simp add: IsGlobalUnicast_def IsPrivate_def IsLoopback_def IsLinkLocalUnicast_def IsMulticast_def
        IsUnspecified_def Unmap_def Let_def)
qed

lemma mapped_range: "drop_bit 32 (n :: 128 word) = 0xffff \<longleftrightarrow> within_range (unat n) (0xffff * 2 ^ 32, 0x10000 * 2 ^ 32 - 1)"
  unfolding word_unat_eq_iff unat_drop using div_range[of "2 ^ 32" "unat n" "0xffff"]
  by (simp add: within_range_def) linarith

lemma agentPublicIP_v6:
  assumes "drop_bit 32 n \<noteq> 0xffff"
  shows "agentPublicIP (V6 n zone) \<longleftrightarrow> zone = [] \<and> within_range (unat n) (0x2000 * 2 ^ 112, 0x4000 * 2 ^ 112 - 1)
    \<and> \<not> list_ex (within_range (unat n)) special_v6"
proof -
  have u: "Unmap (V6 n zone) = V6 n zone" using assms by (simp add: Unmap_def)
  have c: "Contains \<lparr>pf_addr = V6 (push_bit 112 0x2000) [], pf_bits = 3\<rparr> (V6 n zone) \<longleftrightarrow>
      zone = [] \<and> within_range (unat n) (0x2000 * 2 ^ 112, 0x4000 * 2 ^ 112 - 1)"
    by (subst v6_contains) (simp_all add: push_bit_eq_mult)
  have l: "list_ex (\<lambda>p. Contains p (V6 n [])) agentDeniedNetworks \<longleftrightarrow> list_ex (within_range (unat n)) special_v6"
    if "within_range (unat n) (0x2000 * 2 ^ 112, 0x4000 * 2 ^ 112 - 1)"
    unfolding agentDeniedNetworks_def any_steps v4_family special_v6_def
    using that by (auto simp: v6_contains push_bit_eq_mult within_range_def)
  show ?thesis
    unfolding agentPublicIP_def Let_def u c using global_v6[OF _ assms] l by (auto simp: Is6_def)
qed

lemma agentPublicIP_mapped:
  assumes "drop_bit 32 n = 0xffff"
  shows "agentPublicIP (V6 n zone) \<longleftrightarrow> agentPublicIP (V4 (ucast n))" "unat (ucast n :: 32 word) = unat n - 0xffff * 2 ^ 32"
proof -
  show "agentPublicIP (V6 n zone) \<longleftrightarrow> agentPublicIP (V4 (ucast n))"
    using assms by (simp add: agentPublicIP_def Unmap_def)
  have "unat n div 2 ^ 32 = 0xffff" using assms unat_drop[of 32 n] by simp
  then show "unat (ucast n :: 32 word) = unat n - 0xffff * 2 ^ 32"
    unfolding unat_low using minus_div_mult_eq_mod[of "unat n" "2 ^ 32"] by simp
qed

text \<open>C38. The gate on outbound connections, written with the byte tests, masks and prefixes of the code,
  admits exactly the addresses outside a table of special-purpose ranges: an IPv4 address, also in its
  IPv6-mapped form, outside 14 ranges, and an IPv6 address without a zone in \<open>2000::/3\<close> outside three.\<close>

theorem agentPublicIP_ranges: "agentPublicIP ip = public_range ip"
proof (cases ip)
  case NoAddr
  then show ?thesis by (simp add: agentPublicIP_def public_range_def IsGlobalUnicast_def Unmap_def Is6_def)
next
  case (V4 n)
  then show ?thesis by (simp add: public_range_def agentPublicIP_v4)
next
  case (V6 n zone)
  show ?thesis
  proof (cases "drop_bit 32 n = 0xffff")
    case True
    then show ?thesis using V6 agentPublicIP_mapped[OF True] mapped_range[of n]
      by (simp add: public_range_def agentPublicIP_v4)
  next
    case False
    then show ?thesis using V6 agentPublicIP_v6[OF False] mapped_range[of n]
      by (simp add: public_range_def)
  qed
qed

lemma dial_each_prefix:
  "dial_each reachable ips e = (dialled, r) \<Longrightarrow>
     (\<exists>rest. ips = dialled @ rest) \<and> (\<forall>ip. r = Inr ip \<longrightarrow> ip \<in> set dialled \<and> reachable ip)"
  by (induction ips arbitrary: e dialled) (fastforce split: if_splits prod.splits)+

text \<open>The dialer connects to public addresses only: if one of the addresses a name resolves to is not
  public, nothing is dialled, and otherwise only addresses of the answer are, in its order, up to the
  first that can be reached.\<close>

lemma metadata_dial_safe:
  assumes "metadata_dial (Inr ips) reachable = (dialled, r)"
  shows "(\<exists>rest. ips = dialled @ rest) \<and> \<not> list_ex (\<lambda>ip. \<not> agentPublicIP ip) dialled
    \<and> (list_ex (\<lambda>ip. \<not> agentPublicIP ip) ips \<longrightarrow> dialled = [] \<and> r = Inl ErrInvalid)
    \<and> (\<forall>ip. r = Inr ip \<longrightarrow> ip \<in> set dialled \<and> reachable ip)"
proof (cases "ips = [] \<or> list_ex (\<lambda>ip. \<not> agentPublicIP ip) ips")
  case True
  then show ?thesis using assms by (auto simp: metadata_dial_def split: if_splits)
next
  case False
  then have "dial_each reachable ips (ErrOther ''dial'') = (dialled, r)" using assms by (simp add: metadata_dial_def)
  from dial_each_prefix[OF this] False show ?thesis by (auto simp: list_ex_iff)
qed

end
