(* ===== verification/Agent_Clients.thy ===== *)
theory Agent_Clients
  imports Agent_Maintenance Addresses Content
begin

text \<open>
  Clients of the OAuth server (\<open>internal/httpserver/agent_clients.go\<close>, and of \<open>agent_auth.go\<close> the checks
  on addresses, origins and bearers): redirect addresses, dynamic registration, client documents fetched
  from their own address with their bounded cache, the rate limit of the public endpoints, cross-origin
  rules and the replicated encryption key.

  \<open>url_lib\<close> stands for the URL parser and printer of \<open>net/url\<close>; a parsed address is a record of the
  fields the code reads. JSON, HTTP and random strings enter as the results of the calls.
\<close>

section \<open>Addresses\<close>

record url =
  ur_Scheme :: string
  ur_User :: bool
  ur_Host :: string
  ur_Path :: string
  ur_RawQuery :: string
  ur_ForceQuery :: bool
  ur_Fragment :: string
  ur_Opaque :: string

record url_lib =
  ul_Parse :: "string \<Rightarrow> url option"
  ul_String :: "url \<Rightarrow> string"
  ul_Query :: "string \<Rightarrow> bool"

text \<open>\<open>URL.Hostname\<close> and \<open>URL.Port\<close>: the host is cut at its last colon if digits follow it, and loses the
  brackets of an IPv6 literal.\<close>

definition cut_port :: "string \<Rightarrow> string \<times> string" where
  "cut_port h = (let tail = rev (takeWhile (\<lambda>c. c \<noteq> CHR '':'') (rev h)) in
     if length tail < length h \<and> list_all is_digit tail
     then (take (length h - length tail - 1) h, tail) else (h, []))"

definition Hostname :: "url \<Rightarrow> string" where
  "Hostname u = (let h = fst (cut_port (ur_Host u)) in
     if length h \<ge> 2 \<and> hd h = CHR ''['' \<and> last h = CHR '']'' then butlast (tl h) else h)"

definition Port :: "url \<Rightarrow> string" where
  "Port u = snd (cut_port (ur_Host u))"

definition Atoi :: "string \<Rightarrow> nat" where
  "Atoi s = foldl (\<lambda>n c. n * 10 + (of_char c - 48)) 0 s"

definition unsafe_text :: "string \<Rightarrow> bool" where
  "unsafe_text s \<longleftrightarrow> list_ex (\<lambda>c. c = CHR 0x0D \<or> c = CHR 0x0A \<or> c = CHR 0x5C) s"

definition agentLoopback :: "url \<Rightarrow> bool" where
  "agentLoopback u \<longleftrightarrow> (let h = to_lower (Hostname u) in
     ur_Scheme u = ''http'' \<and> (h = ''127.0.0.1'' \<or> h = ''::1'' \<or> h = ''localhost''))"

definition agentRedirect :: "url_lib \<Rightarrow> string \<Rightarrow> bool" where
  "agentRedirect lib s =
     (if length s = 0 \<or> length s > 2048 \<or> unsafe_text s then False
      else case ul_Parse lib s of
        None \<Rightarrow> False
      | Some u \<Rightarrow>
        if ur_Scheme u = [] \<or> ur_User u \<or> ur_Fragment u \<noteq> [] \<or> ur_Opaque u \<noteq> [] then False
        else if \<not> ul_Query lib (ur_RawQuery u) then False
        else if Port u \<noteq> [] \<and> (Atoi (Port u) < 1 \<or> Atoi (Port u) > 65535) then False
        else if ur_Scheme u = ''https'' then Hostname u \<noteq> []
        else if ur_Scheme u = ''http'' then agentLoopback u
        else if ur_Scheme u \<in> {''javascript'', ''data'', ''file'', ''ftp'', ''ws'', ''wss'', ''mailto'', ''tel'',
             ''about'', ''blob'', ''vbscript''} then False
        else (ur_Scheme u = ''cursor'' \<or> ur_Scheme u = ''vscode'' \<or> ur_Scheme u = ''vscode-insiders''
              \<or> CHR ''.'' \<in> set (ur_Scheme u))
          \<and> (ur_Host u \<noteq> [] \<or> has_prefix (ur_Path u) ''/''))"

text \<open>A loopback client may use any port.\<close>

definition agentRedirectMatches :: "url_lib \<Rightarrow> string \<Rightarrow> string \<Rightarrow> bool" where
  "agentRedirectMatches lib registered candidate =
     (if \<not> agentRedirect lib candidate then False
      else if registered = candidate then True
      else case (ul_Parse lib registered, ul_Parse lib candidate) of
        (Some a, Some b) \<Rightarrow>
          if \<not> agentLoopback a \<or> \<not> agentLoopback b \<or> Hostname a \<noteq> Hostname b then False
          else ul_String lib (a\<lparr>ur_Host := Hostname a\<rparr>) = ul_String lib (b\<lparr>ur_Host := Hostname b\<rparr>)
      | _ \<Rightarrow> False)"

definition agentHTTPSURL :: "url_lib \<Rightarrow> string \<Rightarrow> bool" where
  "agentHTTPSURL lib s \<longleftrightarrow> (case ul_Parse lib s of
     None \<Rightarrow> False
   | Some u \<Rightarrow> ur_Scheme u = ''https'' \<and> Hostname u \<noteq> [] \<and> \<not> ur_User u \<and> ur_Fragment u = []
       \<and> \<not> ur_ForceQuery u \<and> \<not> unsafe_text s)"

definition agentAuthorizeOrigin :: "url_lib \<Rightarrow> string \<Rightarrow> string option" where
  "agentAuthorizeOrigin lib endpoint = (case ul_Parse lib endpoint of
     None \<Rightarrow> None
   | Some u \<Rightarrow>
       if \<not> agentHTTPSURL lib endpoint \<or> ur_RawQuery u \<noteq> [] \<or> CHR ''#'' \<in> set endpoint then None
       else let host = to_lower (ur_Host u) in
         Some (''https://'' @ (if has_prefix (rev host) (rev '':443'') then take (length host - 4) host else host)))"

section \<open>Client metadata\<close>

definition agentNormalizeClientTypes :: "agent_client \<Rightarrow> agent_client option" where
  "agentNormalizeClientTypes c =
     (if ac_GrantTypes c \<noteq> [] \<and> ''authorization_code'' \<notin> set (ac_GrantTypes c) then None
      else if ac_ResponseTypes c \<noteq> [] \<and> ''code'' \<notin> set (ac_ResponseTypes c) then None
      else Some (c\<lparr>ac_GrantTypes := ''authorization_code'' #
          (if ac_GrantTypes c = [] \<or> ''refresh_token'' \<in> set (ac_GrantTypes c) then [''refresh_token''] else []),
        ac_ResponseTypes := [''code'']\<rparr>))"

definition agentClientValid :: "url_lib \<Rightarrow> agent_client \<Rightarrow> bool" where
  "agentClientValid lib c =
     (if ac_RedirectURIs c = [] \<or> length (ac_RedirectURIs c) > 20 \<or> length (ac_Name c) > 200
         \<or> \<not> ValidString (ac_Name c) \<or> length (ac_URI c) > 2048 \<or> length (ac_Logo c) > 2048 then False
      else if list_ex (IsControl \<circ> fst) (case runes (ac_Name c) of None \<Rightarrow> [] | Some rs \<Rightarrow> rs) then False
      else if list_ex (\<lambda>s. \<not> agentRedirect lib s) (ac_RedirectURIs c) then False
      else if ac_URI c \<noteq> [] \<and> \<not> agentHTTPSURL lib (ac_URI c) then False
      else if ac_Logo c \<noteq> [] \<and> \<not> agentHTTPSURL lib (ac_Logo c) then False
      else if ac_AuthMethod c \<noteq> [] \<and> ac_AuthMethod c \<noteq> ''none'' then False
      else if list_ex (\<lambda>s. s \<noteq> ''code'') (ac_ResponseTypes c) then False
      else \<not> list_ex (\<lambda>s. s \<noteq> ''authorization_code'' \<and> s \<noteq> ''refresh_token'') (ac_GrantTypes c))"

definition Unix :: "time \<Rightarrow> int" where
  "Unix t = t div second - 62135596800"

abbreviation client_key :: "string \<Rightarrow> string" where
  "client_key i \<equiv> raftRef ''agent_clients'' i"

text \<open>The registered record: identifier, domain and lifetime are the server's.\<close>

definition registered_client :: "auth \<Rightarrow> string \<Rightarrow> agent_client \<Rightarrow> agent_client" where
  "registered_client a random c = c\<lparr>ac_ID := ''flux_'' @ random, ac_Domain := [], ac_AuthMethod := ''none'',
     ac_IssuedAt := Unix (aa_now a), ac_ExpiresAt := aa_now a + 90 * day,
     ac_Name := (if ac_Name c = [] then ''MCP client'' else ac_Name c)\<rparr>"

definition registerClient_tx :: "auth \<Rightarrow> ('v, doc) codec \<Rightarrow> agent_client \<Rightarrow> ('v, unit) txm" where
  "registerClient_tx a cd c = Create cd (client_key (aa_agentHash a (ac_ID c))) (DAgentClient c)"

text \<open>\<open>body\<close> is the decoded request, \<open>None\<close> where it is not exactly one JSON object within its bound.\<close>

definition registerClient ::
  "auth \<Rightarrow> url_lib \<Rightarrow> err option \<Rightarrow> bool \<Rightarrow> agent_client option \<Rightarrow> string \<Rightarrow> (agent_client \<Rightarrow> err option)
    \<Rightarrow> agent_reply + agent_client" where
  "registerClient a lib limited json body random transact = (case limited of
     Some e \<Rightarrow> Inl (AgentError (if e = ErrRateLimited then 429 else 503) ''temporarily_unavailable'')
   | None \<Rightarrow>
       if \<not> json then Inl (AgentError 400 ''invalid_client_metadata'')
       else case Option.bind body agentNormalizeClientTypes of
         None \<Rightarrow> Inl (AgentError 400 ''invalid_client_metadata'')
       | Some c \<Rightarrow>
           if \<not> agentClientValid lib c then Inl (AgentError 400 ''invalid_client_metadata'')
           else let c = registered_client a random c in
             (case transact c of
                Some e \<Rightarrow> Inl (AgentError 503 ''temporarily_unavailable'')
              | None \<Rightarrow> Inr c))"

text \<open>
  A client that is identified by the address of its metadata document. \<open>reply\<close> is \<open>None\<close> where the
  request failed, and otherwise the status, the length of the body read and its decoded content.
\<close>

definition bounded_cache ::
  "time \<Rightarrow> (string, agent_client) fmap \<Rightarrow> (string, agent_client) fmap" where
  "bounded_cache now cache =
     (if fcard (fmdom cache) \<ge> 256 then
        let kept = fmfilter (\<lambda>k. case fmlookup cache k of None \<Rightarrow> False | Some v \<Rightarrow> now < ac_ExpiresAt v) cache
        in if fcard (fmdom kept) \<ge> 256 then fmempty else kept
      else cache)"

definition metadataClient ::
  "auth \<Rightarrow> url_lib \<Rightarrow> (int \<times> nat \<times> agent_client option) option \<Rightarrow> string \<Rightarrow> (string, agent_client) fmap
    \<Rightarrow> (err + agent_client) \<times> (string, agent_client) fmap" where
  "metadataClient a lib reply i cache = (case ul_Parse lib i of
     None \<Rightarrow> (Inl ErrInvalid, cache)
   | Some u \<Rightarrow>
     if \<not> agentHTTPSURL lib i \<or> ur_Path u = [] \<or> ur_Path u = ''/'' then (Inl ErrInvalid, cache)
     else case (case fmlookup cache i of Some c \<Rightarrow> if aa_now a < ac_ExpiresAt c then Some c else None | None \<Rightarrow> None) of
       Some c \<Rightarrow> (Inr c, cache)
     | None \<Rightarrow> (case reply of
         None \<Rightarrow> (Inl ErrInvalid, cache)
       | Some (status, len, decoded_body) \<Rightarrow>
         if status \<noteq> 200 \<or> len > 32768 then (Inl ErrInvalid, cache)
         else case decoded_body of
           None \<Rightarrow> (Inl ErrInvalid, cache)
         | Some d \<Rightarrow>
           if ac_ID d \<noteq> i then (Inl ErrInvalid, cache)
           else case agentNormalizeClientTypes d of
             None \<Rightarrow> (Inl ErrInvalid, cache)
           | Some c \<Rightarrow>
             if \<not> agentClientValid lib c then (Inl ErrInvalid, cache)
             else let c = c\<lparr>ac_Domain := Hostname u, ac_AuthMethod := ''none'', ac_ExpiresAt := aa_now a + 5 * minute,
                     ac_Name := (if ac_Name c = [] then Hostname u else ac_Name c)\<rparr>
               in (Inr c, fmupd i c (bounded_cache (aa_now a) cache))))"

definition clientFor ::
  "auth \<Rightarrow> (string \<Rightarrow> err + agent_client) \<Rightarrow> err + agent_client \<Rightarrow> string \<Rightarrow> err + agent_client" where
  "clientFor a fetch stored_client i =
     (if length i > 2048 then Inl ErrInvalid
      else if has_prefix i ''https://'' then fetch i
      else case stored_client of
        Inl e \<Rightarrow> Inl e
      | Inr c \<Rightarrow> if \<not> aa_now a < ac_ExpiresAt c then Inl ErrInvalid else Inr c)"

definition clientFor_tx :: "auth \<Rightarrow> ('v, doc) codec \<Rightarrow> string \<Rightarrow> ('v, agent_client, unit) ctm" where
  "clientFor_tx a cd i = c_Get cd asAgentClient merge_client (client_key (aa_agentHash a i))"

section \<open>The rate limit\<close>

text \<open>Decimal numerals (\<open>strconv.FormatInt\<close>) and Go's division, which rounds towards zero.\<close>

fun decimal :: "nat \<Rightarrow> string" where
  "decimal n = (if n < 10 then [char_of (48 + n)] else decimal (n div 10) @ [char_of (48 + n mod 10)])"

declare decimal.simps [simp del]

definition FormatInt :: "int \<Rightarrow> string" where
  "FormatInt i = (if i < 0 then CHR ''-'' # decimal (nat (- i)) else decimal (nat i))"

definition rate_minute :: "time \<Rightarrow> int" where
  "rate_minute now = (if Unix now < 0 then - (- Unix now div 60) else Unix now div 60)"

definition rate_key :: "auth \<Rightarrow> string \<Rightarrow> string \<Rightarrow> string" where
  "rate_key a kind host = raftRef ''agent_rate'' (aa_agentHash a (kind @ host @ ''/'' @ FormatInt (rate_minute (aa_now a))))"

text \<open>The peer: the connection's host or, from a loopback connection, the address in the proxy's header.
  The arguments are the host part, if the remote address splits, and the two parsed addresses.\<close>

definition rate_host :: "(addr \<Rightarrow> string) \<Rightarrow> string \<Rightarrow> string option \<Rightarrow> (string \<Rightarrow> addr option) \<Rightarrow> string \<Rightarrow> string" where
  "rate_host show_addr remote host_part parse header =
     (let host = (case host_part of None \<Rightarrow> remote | Some h \<Rightarrow> h) in
      case parse host of
        None \<Rightarrow> host
      | Some ip \<Rightarrow> if \<not> IsLoopback ip then host
          else (case parse header of None \<Rightarrow> host | Some peer \<Rightarrow> show_addr peer))"

text \<open>The transaction: whether the call is denied. The bucket is a variable of the closure, zero where no
  record is stored.\<close>

definition rate_tx :: "auth \<Rightarrow> ('v, doc) codec \<Rightarrow> string \<Rightarrow> int \<Rightarrow> ('v, bool) txm" where
  "rate_tx a cd key most =
     tx_bind (tx_optional (Get cd asAgentRate key)) (\<lambda>found.
     let bucket = (case found of None \<Rightarrow> \<lparr>ar_Count = 0, ar_ExpiresAt = 0\<rparr> | Some b \<Rightarrow> b) in
     if ar_Count bucket \<ge> most then tx_return True
     else tx_bind (Set cd key (DAgentRate (bucket\<lparr>ar_Count := inc64 (ar_Count bucket),
         ar_ExpiresAt := aa_now a + 2 * minute\<rparr>))) (\<lambda>_. tx_return False))"

definition rate :: "err + bool \<Rightarrow> err option" where
  "rate result = (case result of Inl e \<Rightarrow> Some e | Inr denied \<Rightarrow> if denied then Some ErrRateLimited else None)"

section \<open>Origins, bearers and the encryption key\<close>

text \<open>\<open>agentCORS\<close>: the headers of the reply and whether the request goes on to its handler. \<open>origins\<close> are
  the values of the \<open>Origin\<close> header, \<open>requested\<close> the method a preflight request names and \<open>headers\<close> the
  names in its list, trimmed. The folded names are ASCII without \<open>k\<close> and \<open>s\<close>, the only ASCII letters
  with other fold-equal characters.\<close>

datatype cors_reply = CorsRefused string | CorsNext "string option"

definition public_origin :: "url_lib \<Rightarrow> string \<Rightarrow> bool" where
  "public_origin lib origin \<longleftrightarrow> (case ul_Parse lib origin of
     None \<Rightarrow> False
   | Some u \<Rightarrow> (ur_Scheme u = ''http'' \<or> ur_Scheme u = ''https'') \<and> ur_Host u \<noteq> [] \<and> ur_Path u = []
       \<and> \<not> ur_User u \<and> ur_RawQuery u = [] \<and> ur_Fragment u = [])"

definition contains_text :: "string \<Rightarrow> string \<Rightarrow> bool" where
  "contains_text s part \<longleftrightarrow> list_ex (\<lambda>i. has_prefix (drop i s) part) [0..<Suc (length s)]"

definition agentCORS ::
  "url_lib \<Rightarrow> string list \<Rightarrow> string \<Rightarrow> bool \<Rightarrow> string list \<Rightarrow> bool \<Rightarrow> string \<Rightarrow> string list \<Rightarrow> cors_reply" where
  "agentCORS lib allowed methods public origins preflight requested headers =
     (let origin = (case origins of [] \<Rightarrow> [] | v # _ \<Rightarrow> v);
          ok = (if public \<and> origin \<noteq> ''null'' then public_origin lib origin else origin \<in> set allowed)
      in if origin \<noteq> [] \<and> (length origins \<noteq> 1 \<or> \<not> ok) then CorsRefused ''untrusted_origin''
         else if preflight \<and> requested \<noteq> [] \<and> \<not> contains_text ('', '' @ methods @ '','') ('', '' @ requested @ '','') then CorsRefused ''invalid_request''
         else if preflight \<and> list_ex (\<lambda>h. h \<noteq> [] \<and> to_lower h \<noteq> ''authorization'' \<and> to_lower h \<noteq> ''content-type'') headers
           then CorsRefused ''invalid_request''
         else CorsNext (if origin = [] then None else Some origin))"

definition agentBearer :: "string list \<Rightarrow> string" where
  "agentBearer authorization =
     (if length authorization \<noteq> 1 then []
      else case Fields (hd authorization) of
        [scheme, secret] \<Rightarrow> if to_lower scheme = ''bearer'' then secret else []
      | _ \<Rightarrow> [])"

text \<open>The actor behind a bearer (\<open>projectBearerActor\<close> in \<open>agent_projects.go\<close>): a key publishes only, anything
  else must be a Firebase token.\<close>

definition projectBearerActor ::
  "bool \<Rightarrow> string \<Rightarrow> (string \<Rightarrow> err + actor) \<Rightarrow> (string \<Rightarrow> err + agent_identity) \<Rightarrow> err + actor" where
  "projectBearerActor publish secret authenticate verify =
     (if has_prefix secret ''drop_'' then (if \<not> publish then Inl ErrForbidden else authenticate secret)
      else if count_list secret (CHR ''.'') \<noteq> 2 then Inl ErrUnauthorized
      else case verify secret of
        Inl e \<Rightarrow> Inl ErrUnauthorized
      | Inr i \<Rightarrow> ActorFromFirebase i)"

text \<open>
  \<open>agentPrivateEncryptionKey\<close>: the transaction that reads or creates the replicated key, and the loop
  around it. Each round has the outcome of its transaction and whether the deadline passed in its
  pause; \<open>None\<close>: the rounds given were not enough.
\<close>

definition private_key_tx :: "('v, doc) codec \<Rightarrow> string \<Rightarrow> ('v, string) txm" where
  "private_key_tx cd candidate = (let key = raftRef ''agent_private'' ''encryption-v1'' in
     tx_bind (tx_optional (Get cd asText key)) (\<lambda>found. case found of
       None \<Rightarrow> tx_bind (Create cd key (DText candidate)) (\<lambda>_. tx_return candidate)
     | Some k \<Rightarrow> tx_return k))"

fun agentPrivateEncryptionKey :: "((err + string) \<times> err option) list \<Rightarrow> (err + string) option" where
  "agentPrivateEncryptionKey [] = None"
| "agentPrivateEncryptionKey ((result, ended) # rounds) = (case result of
     Inr key \<Rightarrow> Some (Inr key)
   | Inl e \<Rightarrow> (case ended of Some e' \<Rightarrow> Some (Inl e') | None \<Rightarrow> agentPrivateEncryptionKey rounds))"

end
