(* ===== verification/Agent_Limits.thy ===== *)
theory Agent_Limits
  imports Agent_Clients Agent_Scenario
begin

text \<open>
  What the rate limit of the public endpoints and the wait for a Firebase lease promise over time, with
  clocks that never go back.
\<close>

section \<open>The rate limit\<close>

lemma rate_minute_mono: "t \<le> t' \<Longrightarrow> rate_minute t \<le> rate_minute t'"
proof -
  assume "t \<le> t'"
  then have "Unix t \<le> Unix t'" by (simp add: Unix_def zdiv_mono1 second_def)
  moreover have "0 \<le> - Unix t div 60" if "Unix t < 0" using that by (simp add: pos_imp_zdiv_nonneg_iff)
  moreover have "0 \<le> Unix t' div 60" if "\<not> Unix t' < 0" using that by (simp add: pos_imp_zdiv_nonneg_iff)
  ultimately show ?thesis unfolding rate_minute_def by (auto simp: zdiv_mono1)
qed

text \<open>Two minutes later the minute of the key is over.\<close>

lemma rate_minute_later: "rate_minute t < rate_minute (t + 2 * minute)"
proof -
  have "Unix (t + 2 * minute) = Unix t + 120"
    using div_mult_self1[of second t 120] by (simp add: Unix_def minute_def second_def)
  moreover have "(if x < 0 then - (- x div 60) else x div 60) < (if x + 120 < 0 then - (- (x + 120) div 60) else (x + 120) div 60)"
    for x :: int by (cases "x < 0"; cases "x + 120 < 0") (simp_all only: if_True if_False)
  ultimately show ?thesis by (simp only: rate_minute_def)
qed

lemma rate_tx_cases:
  assumes "rate_tx a cd key most t = (Inr denied, u)" "good_env cd (tx_read t)"
  obtains b where "b = (case Option.bind (docs cd t key) asAgentRate of None \<Rightarrow> \<lparr>ar_Count = 0, ar_ExpiresAt = 0\<rparr> | Some b \<Rightarrow> b)"
    "denied \<longleftrightarrow> ar_Count b \<ge> most"
    "docs cd u = (if denied then docs cd t
       else (docs cd t)(key \<mapsto> DAgentRate (b\<lparr>ar_Count := inc64 (ar_Count b), ar_ExpiresAt := aa_now a + 2 * minute\<rparr>)))"
proof -
  let ?b = "\<lambda>found. case found of None \<Rightarrow> \<lparr>ar_Count = 0, ar_ExpiresAt = 0\<rparr> | Some b \<Rightarrow> b"
  from assms(1) obtain found t1 where 1: "tx_optional (Get cd asAgentRate key) t = (Inr found, t1)"
    and 2: "(if ar_Count (?b found) \<ge> most then tx_return True
      else tx_bind (Set cd key (DAgentRate ((?b found)\<lparr>ar_Count := inc64 (ar_Count (?b found)),
         ar_ExpiresAt := aa_now a + 2 * minute\<rparr>))) (\<lambda>_. tx_return False)) t1 = (Inr denied, u)"
    unfolding rate_tx_def Let_def by (elim tx_bind_InrE[of "tx_optional _"])
  have f: "Option.bind (docs cd t key) asAgentRate = found" "cur t1 = cur t" "tx_read t1 = tx_read t"
    using 1 assms(2) by (auto elim!: tx_optional_InrE Get_InrE Get_missingE)
  show thesis
    by (rule that[of "?b found"]) (use 2 f assms(2) in \<open>auto simp del: tx_bind_app split: if_splits elim!: tx_bind_InrE tx_return_InrE Set_InrE\<close>)
qed

text \<open>
  The calls of one kind from one host within the minute \<open>M\<close>, the cleanup of their bucket, and everything
  that leaves the bucket alone. The state is the store, the clock and the number of calls let through.
\<close>

abbreviation bucket_key :: "(string \<Rightarrow> string) \<Rightarrow> string \<Rightarrow> string \<Rightarrow> int \<Rightarrow> string" where
  "bucket_key hash kind host M \<equiv> raftRef ''agent_rate'' (hash (kind @ host @ ''/'' @ FormatInt M))"

inductive rate_step ::
  "('v, doc) codec \<Rightarrow> (string \<Rightarrow> string) \<Rightarrow> string \<Rightarrow> string \<Rightarrow> int \<Rightarrow> int \<Rightarrow> (string \<Rightarrow> doc option) \<times> time \<times> int
    \<Rightarrow> (string \<Rightarrow> doc option) \<times> time \<times> int \<Rightarrow> bool" for cd hash kind host most M where
  call: "aa_agentHash a = hash \<Longrightarrow> rate_minute (aa_now a) = M \<Longrightarrow> now \<le> aa_now a \<Longrightarrow> good_env cd (tx_read t) \<Longrightarrow>
    docs cd t = D \<Longrightarrow> rate_tx a cd (rate_key a kind host) most t = (Inr denied, u) \<Longrightarrow> docs cd u = D' \<Longrightarrow>
    rate_step cd hash kind host most M (D, now, n) (D', aa_now a, if denied then n else n + 1)"
| clean: "now \<le> now' \<Longrightarrow> good_env cd (tx_read t) \<Longrightarrow> docs cd t = D \<Longrightarrow>
    maintain_tx cd hash now' ''agent_rate/'' (bucket_key hash kind host M) t = (Inr x, u) \<Longrightarrow> docs cd u = D' \<Longrightarrow>
    rate_step cd hash kind host most M (D, now, n) (D', now', n)"
| other: "now \<le> now' \<Longrightarrow> D' (bucket_key hash kind host M) = D (bucket_key hash kind host M) \<Longrightarrow>
    rate_step cd hash kind host most M (D, now, n) (D', now', n)"

definition rate_ok :: "(string \<Rightarrow> string) \<Rightarrow> string \<Rightarrow> string \<Rightarrow> int \<Rightarrow> int \<Rightarrow> (string \<Rightarrow> doc option) \<times> time \<times> int \<Rightarrow> bool" where
  "rate_ok hash kind host most M s \<longleftrightarrow> (case s of (D, now, n) \<Rightarrow>
     0 \<le> n \<and> n \<le> most \<and> most \<le> max_int64 \<and>
     (case Option.bind (D (bucket_key hash kind host M)) asAgentRate of
        None \<Rightarrow> n = 0 \<or> M < rate_minute now
      | Some b \<Rightarrow> ar_Count b = n \<and> (\<exists>t. rate_minute t = M \<and> ar_ExpiresAt b = t + 2 * minute)))"

lemma rate_ok_call:
  assumes ok: "rate_ok hash kind host most M (D, now, n)"
    and a: "aa_agentHash a = hash" "rate_minute (aa_now a) = M" "now \<le> aa_now a"
    and t: "rate_tx a cd (rate_key a kind host) most t = (Inr denied, u)" "good_env cd (tx_read t)" "docs cd t = D"
  shows "rate_ok hash kind host most M (docs cd u, aa_now a, if denied then n else n + 1)"
  using t(1,2)
proof (rule rate_tx_cases)
  let ?K = "bucket_key hash kind host M"
  have key: "rate_key a kind host = ?K" using a by (simp add: rate_key_def)
  fix b assume b: "b = (case Option.bind (docs cd t (rate_key a kind host)) asAgentRate of
        None \<Rightarrow> \<lparr>ar_Count = 0, ar_ExpiresAt = 0\<rparr> | Some b \<Rightarrow> b)"
    and d: "denied \<longleftrightarrow> ar_Count b \<ge> most"
    and u: "docs cd u = (if denied then docs cd t else (docs cd t)(rate_key a kind host \<mapsto>
        DAgentRate (b\<lparr>ar_Count := inc64 (ar_Count b), ar_ExpiresAt := aa_now a + 2 * minute\<rparr>)))"
  have "\<not> M < rate_minute now" using rate_minute_mono[OF a(3)] a(2) by simp
  then have n: "ar_Count b = n" "0 \<le> n" "n \<le> most" "most \<le> max_int64"
    using ok b t(3) key by (auto simp: rate_ok_def split: option.splits)
  show ?thesis
  proof (cases denied)
    case True
    then show ?thesis using ok u t(3) a(2) rate_minute_mono[OF a(3)] by (auto simp: rate_ok_def split: option.splits)
  next
    case False
    then have "inc64 n = n + 1" "n < most" using n d by (simp_all add: inc64_id)
    then show ?thesis using False u key n a(2) by (auto simp: rate_ok_def as_defs)
  qed
qed

interpretation rates: invariant_system "rate_step cd hash kind host most M" "rate_ok hash kind host most M"
  for cd hash kind host most M
proof
  fix cd :: "('v, doc) codec" and hash kind host most M s s'
  let ?K = "bucket_key hash kind host M"
  assume "rate_step cd hash kind host most M s s'" and ok: "rate_ok hash kind host most M s"
  then show "rate_ok hash kind host most M s'"
  proof cases
    case (call a now t D denied u D' n)
    then show ?thesis using rate_ok_call[of hash kind host most M D now n a cd t denied u] ok by simp
  next
    case (clean now now' t D x u D' n)
    from clean(6) have "maintain_if (Get cd asAgentRate ?K) (\<lambda>v. now' < ar_ExpiresAt v) (Delete ?K) t = (Inr x, u)"
      by (simp add: maintain_tx_def)
    then show ?thesis
    proof (rule maintain_if_cases)
      fix b d assume b: "docs cd t ?K = Some d" "asAgentRate d = Some b" "\<not> now' < ar_ExpiresAt b"
        and u: "docs cd u = (docs cd t)(?K := None)"
      obtain r where "rate_minute r = M" "ar_ExpiresAt b = r + 2 * minute"
        using ok clean b by (auto simp: rate_ok_def as_defs)
      then have "M < rate_minute now'"
        using rate_minute_later[of r] rate_minute_mono[of "r + 2 * minute" now'] b(3) by simp
      then show ?thesis using ok clean(1,2,7)[symmetric] u by (auto simp: rate_ok_def)
    qed (use ok clean rate_minute_mono[of now now'] in \<open>auto simp: rate_ok_def split: option.splits\<close>)
  next
    case (other now now' D' D n)
    then show ?thesis using ok rate_minute_mono[of now now'] by (auto simp: rate_ok_def split: option.splits)
  qed
qed

lemma demo_rate: "steps (rate_tx (demo_auth 0) doc_codec key 20) Map.empty (Inr False)
    (Map.empty(key \<mapsto> DAgentRate \<lparr>ar_Count = 1, ar_ExpiresAt = 2 * minute\<rparr>)) 2"
  unfolding rate_tx_def Let_def
  apply (rule steps_le)
   apply (rule steps_absent(1), simp)
   apply (rule steps_when(1), simp)
   apply (rule steps_write(1), rule steps_done)
    apply (simp_all add: inc64_def wrap64_def)
  done

text \<open>C39. Within one minute at most \<open>most\<close> calls of one kind are let through for one host, whatever calls
  are made and whenever the cleanup removes the bucket, as long as clocks do not go back.\<close>

theorem rate_limit_holds:
  assumes "(rate_step cd hash kind host most M)\<^sup>*\<^sup>* (D, now, 0) (D', now', n)"
    and "D (raftRef ''agent_rate'' (hash (kind @ host @ ''/'' @ FormatInt M))) = None" "0 \<le> most" "most \<le> max_int64"
  shows "0 \<le> n \<and> n \<le> most"
proof -
  have "rate_ok hash kind host most M (D, now, 0)" using assms(2-4) by (simp add: rate_ok_def)
  from rates.invariant[OF assms(1) this] show ?thesis by (simp add: rate_ok_def)
qed

theorem rate_limit_holds_witness:
  "\<exists>D'. rate_step doc_codec (\<lambda>s. s) ''register'' ''host'' 20 (rate_minute 0) (Map.empty, 0, 0) (D', 0, 1) \<and> (1 :: int) \<le> 20"
proof -
  let ?a = "demo_auth 0"
  obtain u where "rate_tx ?a doc_codec (rate_key ?a ''register'' ''host'') 20 (start_tx Map.empty) = (Inr False, u)"
    using steps_start[OF demo_rate] by auto
  from rate_step.call[where a = ?a and hash = "\<lambda>s. s" and M = "rate_minute 0" and now = 0 and n = 0, OF _ _ _ demo_start this refl]
  have s: "rate_step doc_codec (\<lambda>s. s) ''register'' ''host'' 20 (rate_minute 0) (Map.empty, 0, 0) (docs doc_codec u, 0, 1)"
    by simp
  then have "(rate_step doc_codec (\<lambda>s. s) ''register'' ''host'' 20 (rate_minute 0))\<^sup>*\<^sup>* (Map.empty, 0, 0) (docs doc_codec u, 0, 1)"
    by (rule r_into_rtranclp)
  from rate_limit_holds[OF this] s show ?thesis by (auto simp: max_int64_def)
qed

section \<open>The wait for a lease\<close>

text \<open>What a poll finds, with a captured grant that is zero or the stored one.\<close>

lemma acquire_result:
  assumes "uncap (acquire a cd i force lease cached) g0 t = (Inr (r, g'), u)"
    and "grant_at (docs cd t) i = Some g" "merge_grant g g0 = g"
  shows "r = (if \<not> agentGrantLive g (aa_now a) then LeaseInvalid
    else if ag_Lease g \<noteq> [] \<and> aa_now a < ag_LeaseUntil g then LeaseWaiting
    else if \<not> force \<and> cached_fresh cached (aa_now a) then LeaseWaiting else LeaseAcquired)"
proof -
  from assms(1) obtain h t1 where 1: "Get cd asAgentGrant (grant_key i) t = (Inr h, t1)"
    and 2: "r = (if \<not> agentGrantLive (merge_grant h g0) (aa_now a) then LeaseInvalid
      else if ag_Lease (merge_grant h g0) \<noteq> [] \<and> aa_now a < ag_LeaseUntil (merge_grant h g0) then LeaseWaiting
      else if \<not> force \<and> cached_fresh cached (aa_now a) then LeaseWaiting else LeaseAcquired)"
    unfolding acquire_def Let_def uncap_steps
    by (auto simp del: tx_bind_app split: if_splits elim!: tx_bind_InrE tx_return_InrE)
  have "h = g" using Get_grant(1)[OF 1] assms(2) by simp
  then show ?thesis using 2 assms(3) by simp
qed

text \<open>A poll whose transaction reads the live grant \<open>g\<close> and whose pause is not cut short.\<close>

definition polls_grant :: "('v, doc) codec \<Rightarrow> string \<Rightarrow> bool \<Rightarrow> string \<Rightarrow> agent_grant \<Rightarrow> poll \<Rightarrow> bool" where
  "polls_grant cd i force lease g p \<longleftrightarrow> (\<exists>a g0 t r g' u. aa_now a = po_now p \<and> grant_at (docs cd t) i = Some g
     \<and> merge_grant g g0 = g \<and> agentGrantLive g (po_now p)
     \<and> uncap (acquire a cd i force lease (po_cached p)) g0 t = (Inr (r, g'), u) \<and> po_result p = Inr r \<and> po_done p = None)"

lemma wait_recovers:
  assumes "\<And>p. p \<in> set polls \<Longrightarrow> polls_grant cd i force lease g p"
    and "ag_LeaseUntil g \<le> deadline" "\<exists>p \<in> set polls. deadline \<le> po_now p"
  shows "\<exists>r. firebase_wait deadline force polls = Some (Inr r)"
  using assms
proof (induction polls)
  case (Cons p polls)
  from Cons.prems(1)[of p] obtain a g0 t r g' u where p: "aa_now a = po_now p" "agentGrantLive g (po_now p)"
      "po_result p = Inr r" "po_done p = None"
    and r: "grant_at (docs cd t) i = Some g" "merge_grant g g0 = g" "uncap (acquire a cd i force lease (po_cached p)) g0 t = (Inr (r, g'), u)"
    unfolding polls_grant_def by auto
  note res = acquire_result[OF r(3,1,2)]
  show ?case
  proof (cases "deadline \<le> po_now p")
    case True
    then have "r = (if \<not> force \<and> cached_fresh (po_cached p) (po_now p) then LeaseWaiting else LeaseAcquired)"
      using res p(1,2) Cons.prems(2) by auto
    then show ?thesis using p(3) by auto
  next
    case False
    then have "\<exists>r. firebase_wait deadline force polls = Some (Inr r)" using Cons by auto
    then show ?thesis using res p False by auto
  qed
qed simp


text \<open>A lease whose holder crashed, and the polls of the next caller.\<close>

definition demo_leased :: agent_grant where
  "demo_leased = demo_agent\<lparr>ag_Lease := ''crashed'', ag_LeaseUntil := 15 * second\<rparr>"

definition demo_stuck :: "string \<Rightarrow> doc option" where
  "demo_stuck = demo_connected(grant_key ''grant'' \<mapsto> DAgentGrant demo_leased)"

definition demo_poll :: "nat \<Rightarrow> poll" where
  "demo_poll k = \<lparr>po_now = int k * 25000000, po_result = Inr (if k < 600 then LeaseWaiting else LeaseAcquired),
     po_cached = None, po_done = None\<rparr>"

lemma demo_leased_live: "k < 601 \<Longrightarrow> agentGrantLive demo_leased (int k * 25000000)"
  using demo_agent_sel(5-7) by (simp add: demo_leased_def agentGrantLive_def day_def hour_def second_def)

lemma demo_poll_step:
  assumes "k < 601"
  shows "\<exists>D g'. steps (uncap (acquire (demo_auth (int k * 25000000)) doc_codec ''grant'' True ''mine'' None) zero_grant) demo_stuck
    (Inr (if k < 600 then LeaseWaiting else LeaseAcquired, g')) D 2"
proof -
  let ?now = "int k * 25000000"
  let ?g = "demo_leased\<lparr>ag_Lease := ''mine'', ag_LeaseUntil := ?now + 15 * second\<rparr>"
  have g: "demo_stuck (grant_key ''grant'') = Some (DAgentGrant demo_leased)" by (simp add: demo_stuck_def)
  have w: "ag_Lease demo_leased \<noteq> [] \<and> ?now < ag_LeaseUntil demo_leased \<longleftrightarrow> k < 600"
    by (simp add: demo_leased_def second_def)
  show ?thesis
  proof (cases "k < 600")
    case True
    have "steps (uncap (acquire (demo_auth ?now) doc_codec ''grant'' True ''mine'' None) zero_grant) demo_stuck
        (Inr (LeaseWaiting, demo_leased)) demo_stuck (Suc 0 + 0)"
      unfolding acquire_def Let_def uncap_steps
      apply (rule steps_found(1), rule g, simp)
      apply (simp only: demo_auth_sel merge_zero)
      apply (rule steps_when(1), simp add: demo_leased_live[OF assms])
      apply (rule steps_when(2), use True w in simp, rule steps_done)
       apply simp_all
      done
    from steps_le[OF this, of 2] show ?thesis using True by auto
  next
    case False
    have "steps (uncap (acquire (demo_auth ?now) doc_codec ''grant'' True ''mine'' None) zero_grant) demo_stuck
        (Inr (LeaseAcquired, ?g)) (demo_stuck(grant_key ''grant'' \<mapsto> DAgentGrant ?g)) (Suc 0 + (Suc 0 + 0))"
      unfolding acquire_def Let_def uncap_steps
      apply (rule steps_found(1), rule g, simp)
      apply (simp only: demo_auth_sel merge_zero)
      apply (rule steps_when(1), simp add: demo_leased_live[OF assms])
      apply (rule steps_when(1), use False w in simp)
      apply (rule steps_when(1), simp)
      apply (rule steps_write(1), rule steps_done)
       apply simp_all
      done
    from steps_le[OF this, of 2] show ?thesis using False by auto
  qed
qed


end
