(* ===== verification/Async_Writer.thy ===== *)
theory Async_Writer
  imports Node Project_Store
begin

text \<open>
  The asynchronous writer of a leader (\<open>internal/cluster/async.go\<close>, and of \<open>transaction_reads.go\<close> the
  reads from it). Content changes are acknowledged from a speculative view before Raft has committed
  them; everything else waits for its log entry. One worker proposes the queued transactions in order.

  Every critical section under the writer's mutex is one function. The Raft library, the clock and the
  journal database are parameters: an environment record holds their answers during one call. A time
  is a pair of readings, of the monotonic and of the wall clock.
\<close>

unbundle bit_operations_syntax

section \<open>State and authority\<close>

definition maxPendingContent :: nat where "maxPendingContent = 64"
definition authorityWindow :: int where "authorityWindow = 750000000"

record clock =
  ck_mono :: time
  ck_wall :: time

record 'v proposal =
  pr_command :: "'v kv_transaction"
  pr_term :: "64 word"

record ('c, 'v) async_writer =
  aw_view :: "'v cstate"
  aw_term :: "64 word"
  aw_sequence :: "64 word"
  aw_lease :: clock
  aw_leaseTerm :: "64 word"
  aw_failed :: bool
  aw_outstanding :: nat
  aw_journal :: "(64 word, 'c) fmap"
  aw_queue :: "'v proposal list"

text \<open>What Raft and the clock say at one moment.\<close>

record moment =
  mo_fenced :: bool
  mo_leader :: bool
  mo_term :: "64 word"
  mo_now :: clock

definition lease_from :: "clock \<Rightarrow> clock" where
  "lease_from started = \<lparr>ck_mono = ck_mono started + authorityWindow, ck_wall = ck_wall started + authorityWindow\<rparr>"

definition authorityTimeValid :: "clock \<Rightarrow> clock \<Rightarrow> bool" where
  "authorityTimeValid deadline now \<longleftrightarrow> (let mono = ck_mono now - (ck_mono deadline - authorityWindow);
       wall = ck_wall now - (ck_wall deadline - authorityWindow)
     in mono \<ge> 0 \<and> mono < authorityWindow \<and> wall \<ge> 0 \<and> wall < authorityWindow)"

definition authoritative :: "('c, 'v) async_writer \<Rightarrow> moment \<Rightarrow> bool" where
  "authoritative w m \<longleftrightarrow> \<not> mo_fenced m \<and> mo_leader m \<and> mo_term m = aw_leaseTerm w
     \<and> authorityTimeValid (aw_lease w) (mo_now m)"

text \<open>One tick of \<open>heartbeat\<close>. A leader that is fenced or whose writer failed hands its leadership over, at
  most once a second; the first component of the result says so and the second is \<open>lastTransfer\<close>. Otherwise
  a leader renews its lease: \<open>before\<close> and \<open>after\<close> are the moments around the verification, whose error is
  \<open>verify\<close>.\<close>

definition heartbeat ::
  "moment \<Rightarrow> err option \<Rightarrow> moment \<Rightarrow> time \<times> ('c, 'v) async_writer \<Rightarrow> bool \<times> time \<times> ('c, 'v) async_writer" where
  "heartbeat before verify after = (\<lambda>(lastTransfer, w).
     if (aw_failed w \<or> mo_fenced before) \<and> mo_leader before \<and> ck_mono (mo_now before) - lastTransfer > 1000000000
       then (True, ck_mono (mo_now before), w)
     else if mo_fenced before \<or> \<not> mo_leader before then (False, lastTransfer, w)
     else if verify = None \<and> ck_mono (mo_now after) - ck_mono (mo_now before) < authorityWindow
         \<and> mo_leader after \<and> mo_term after = mo_term before
       then (False, lastTransfer, w\<lparr>aw_lease := lease_from (mo_now before), aw_leaseTerm := mo_term before\<rparr>)
     else (False, lastTransfer, w))"

section \<open>The view\<close>

text \<open>The fields of a state a view takes over; \<open>ensure\<close> also takes the log index.\<close>

definition fork :: "'v cstate \<Rightarrow> 'v cstate" where
  "fork s = (newState (s_clusterID s))\<lparr>s_records := s_records s, s_bytes := s_bytes s,
     s_versionCeiling := s_versionCeiling s, s_historyDigest := s_historyDigest s\<rparr>"

record ensure_env =
  en_start :: moment
  en_barrier :: "err option"
  en_started :: clock
  en_verify :: "err option"
  en_verified :: moment
  en_journal :: "err option"
  en_final :: moment

text \<open>Whether the call gets as far as replacing the view.\<close>

definition rebuilds :: "ensure_env \<Rightarrow> ('c, 'v) async_writer \<Rightarrow> bool" where
  "rebuilds e w \<longleftrightarrow> \<not> mo_fenced (en_start e) \<and> mo_leader (en_start e)
     \<and> (aw_term w \<noteq> mo_term (en_start e) \<or> aw_failed w) \<and> aw_outstanding w = 0
     \<and> mo_term (en_start e) \<noteq> 0 \<and> mo_term (en_start e) \<le> 0xffffffff
     \<and> en_barrier e = None \<and> en_verify e = None
     \<and> ck_mono (mo_now (en_verified e)) - ck_mono (en_started e) < authorityWindow
     \<and> mo_leader (en_verified e) \<and> mo_term (en_verified e) = mo_term (en_start e) \<and> en_journal e = None"

definition ensure ::
  "ensure_env \<Rightarrow> 'v cstate \<Rightarrow> ('c, 'v) async_writer \<Rightarrow> err option \<times> ('c, 'v) async_writer" where
  "ensure e node w =
     (let tm = mo_term (en_start e) in
      if mo_fenced (en_start e) \<or> \<not> mo_leader (en_start e) then (Some KvErrNotLeader, w)
      else if aw_term w = tm \<and> \<not> aw_failed w then
        (if \<not> authoritative w (en_start e) then (Some KvErrNotLeader, w) else (None, w))
      else if aw_outstanding w \<noteq> 0 then (Some KvErrNotLeader, w)
      else if tm = 0 \<or> tm > 0xffffffff then (Some KvErrCapacity, w)
      else case en_barrier e of Some err \<Rightarrow> (Some err, w) | None \<Rightarrow>
        (case en_verify e of Some err \<Rightarrow> (Some err, w) | None \<Rightarrow>
          if ck_mono (mo_now (en_verified e)) - ck_mono (en_started e) \<ge> authorityWindow
             \<or> \<not> mo_leader (en_verified e) \<or> mo_term (en_verified e) \<noteq> tm then (Some KvErrNotLeader, w)
          else let w1 = w\<lparr>aw_lease := lease_from (en_started e), aw_leaseTerm := tm\<rparr> in
            (case en_journal e of Some err \<Rightarrow> (Some err, w1) | None \<Rightarrow>
              let w2 = w1\<lparr>aw_view := (fork node)\<lparr>s_index := s_index node\<rparr>, aw_journal := fmempty,
                    aw_sequence := (if aw_term w \<noteq> tm then 0 else aw_sequence w), aw_term := tm, aw_failed := False\<rparr>
              in if \<not> authoritative w2 (en_final e) then (Some KvErrNotLeader, w2) else (None, w2))))"

text \<open>
  \<open>readSnapshot\<close>: from the current view if the writer has authority for it (\<open>now\<close> is the moment of the
  test, \<open>e\<close> the environment of the rebuilding otherwise, \<open>later\<close> the moment of the last test). A stamp is
  the term and the index of the view; a read of a transaction that has one must find it unchanged.
\<close>

type_synonym stamp = "64 word \<times> 64 word"

definition view_stamp :: "('c, 'v) async_writer \<Rightarrow> stamp" where
  "view_stamp w = (aw_term w, s_index (aw_view w))"

definition readSnapshot ::
  "moment \<Rightarrow> ensure_env \<Rightarrow> moment \<Rightarrow> err option \<Rightarrow> 'v cstate \<Rightarrow> string list \<Rightarrow> stamp option \<Rightarrow> ('c, 'v) async_writer
    \<Rightarrow> (err + 'v records \<times> stamp) \<times> ('c, 'v) async_writer" where
  "readSnapshot now e later ctx node keys st w =
     (let (ready, w) = (if aw_term w \<noteq> mo_term now \<or> aw_failed w \<or> \<not> authoritative w now then ensure e node w else (None, w)) in
      case ready of
        Some err \<Rightarrow> (Inl err, w)
      | None \<Rightarrow> (case ctx of
          Some err \<Rightarrow> (Inl err, w)
        | None \<Rightarrow>
            if aw_failed w \<or> \<not> authoritative w later then (Inl KvErrNotLeader, w)
            else if st \<noteq> None \<and> st \<noteq> Some (view_stamp w) then (Inl KvErrConflict, w)
            else (Inr (read_state (aw_view w) keys, view_stamp w), w)))"

section \<open>Which writes may be acknowledged locally\<close>

definition version_write_bound :: "('v, doc) codec \<Rightarrow> 'v kv_write list \<Rightarrow> 'v kv_write \<Rightarrow> bool" where
  "version_write_bound cd writes w = (case Option.bind (w_Value w) (\<lambda>v. case Decode cd asText v of Inl e \<Rightarrow> None | Inr i \<Rightarrow> Some i) of
     None \<Rightarrow> False
   | Some i \<Rightarrow> list_ex (\<lambda>c. w_Key c = ''operations/'' @ i \<and> \<not> w_Delete c
       \<and> (case Option.bind (w_Value c) (\<lambda>v. case Decode cd asOperation v of Inl e \<Rightarrow> None | Inr op \<Rightarrow> Some op) of
            None \<Rightarrow> False
          | Some op \<Rightarrow> op_ID op = i \<and> op_State op = ''complete''
              \<and> w_Key w = ''versions_'' @ op_ProjectID op @ ''/'' @ i)) writes)"

definition project_write_local :: "('v, doc) codec \<Rightarrow> 'v records \<Rightarrow> 'v kv_write \<Rightarrow> bool" where
  "project_write_local cd m w = (case Option.bind (w_Value w) (\<lambda>v. case Decode cd asProject v of Inl e \<Rightarrow> None | Inr p \<Rightarrow> Some p) of
     None \<Rightarrow> False
   | Some next \<Rightarrow>
       if w_Key w \<noteq> ''projects/'' @ p_ID next then False
       else if version_of m (w_Key w) = 0 then ContentOnlyChange None next
       else case fmlookup m (w_Key w) of
         None \<Rightarrow> False
       | Some r \<Rightarrow> (case Decode cd asProject (r_Value r) of
           Inl e \<Rightarrow> False
         | Inr old \<Rightarrow> ContentOnlyChange (Some old) next))"

definition write_local :: "('v, doc) codec \<Rightarrow> 'v records \<Rightarrow> 'v kv_write list \<Rightarrow> 'v kv_write \<Rightarrow> bool" where
  "write_local cd m writes w = (let c = collection_of (w_Key w) in
     if w_Delete w \<and> c \<noteq> ''digests'' then False
     else if c = ''projects'' then project_write_local cd m w
     else if c \<in> {''operations'', ''digests'', ''slugs'', ''quotas'', ''owner_projects''} then True
     else has_prefix c ''versions_'' \<and> version_write_bound cd writes w)"

definition localContentAllowed :: "('v, doc) codec \<Rightarrow> 'v kv_transaction \<Rightarrow> 'v cstate \<Rightarrow> bool" where
  "localContentAllowed cd t vw \<longleftrightarrow> t_Durability t = Local
     \<and> list_all (write_local cd (s_records vw) (t_Writes t)) (t_Writes t)
     \<and> list_ex (\<lambda>w. collection_of (w_Key w) = ''projects'') (t_Writes t)"

section \<open>Commit\<close>

record commit_env =
  ce_ctx :: "err option"
  ce_ensure :: ensure_env
  ce_configuration :: "err + bool list"
  ce_journal :: "err option"
  ce_after :: moment

text \<open>The configuration lists for every server whether it votes. A revision has the term in its upper half
  and the sequence number in its lower.\<close>

definition revision_number :: "64 word \<Rightarrow> 64 word \<Rightarrow> 64 word" where
  "revision_number tm n = push_bit 32 tm OR n"

definition security_admitted :: "(err + bool list) \<Rightarrow> 'v kv_write list \<Rightarrow> err option" where
  "security_admitted configuration writes = (case configuration of
     Inl e \<Rightarrow> Some e
   | Inr votes \<Rightarrow>
       if length (filter id votes) < 2 \<and> \<not> list_all (\<lambda>v. has_prefix (w_Key v) ''cluster_'') writes
       then Some KvErrNotLeader else None)"

text \<open>The part of \<open>commit\<close> after \<open>ensure\<close>: a queued proposal with its preview and whether it is acknowledged
  locally, or an error.\<close>

definition propose ::
  "('v, doc) codec \<Rightarrow> ('c, 'v) wire \<Rightarrow> ('v kv_transaction \<Rightarrow> 'c option) \<Rightarrow> commit_env \<Rightarrow> 'v kv_transaction
    \<Rightarrow> ('c, 'v) async_writer \<Rightarrow> (err + bool \<times> 'v proposal \<times> 'v cstate) \<times> ('c, 'v) async_writer" where
  "propose cd wr marshal ce t w =
     (if list_ex (\<lambda>c. version_of (s_records (aw_view w)) (c_Key c) \<noteq> c_Version c) (t_Checks t) then (Inl KvErrConflict, w)
      else let lcl = localContentAllowed cd t (aw_view w) in
      case (if lcl then None else security_admitted (ce_configuration ce) (t_Writes t)) of Some e \<Rightarrow> (Inl e, w) | None \<Rightarrow>
        if aw_sequence w \<ge> 0xffffffff then (Inl KvErrCapacity, w)
        else let w1 = w\<lparr>aw_sequence := aw_sequence w + 1\<rparr>;
            t1 = t\<lparr>t_Revision := revision_number (aw_term w1) (aw_sequence w1)\<rparr> in
          (case marshal t1 of None \<Rightarrow> (Inl KvErrCapacity, w1) | Some data \<Rightarrow>
            if data_len wr data > maxCommand then (Inl KvErrCapacity, w1)
            else case Apply (cd_raw cd) wr (fork (aw_view w1))
                \<lparr>l_Index = t_Revision t1, l_Term = aw_term w1, l_Data = data\<rparr> of
              (Some e, _) \<Rightarrow> (Inl e, w1)
            | (None, preview) \<Rightarrow>
              if fcard (fmdom (aw_journal w1)) \<ge> maxPendingContent then (Inl KvErrCapacity, w1)
              else (case ce_journal ce of Some e \<Rightarrow> (Inl e, w1) | None \<Rightarrow>
                let w2 = w1\<lparr>aw_journal := fmupd (t_Revision t1) data (aw_journal w1)\<rparr> in
                  if \<not> authoritative w2 (ce_after ce) then (Inl KvErrNotLeader, w2\<lparr>aw_failed := True\<rparr>)
                  else if length (aw_queue w2) \<ge> maxPendingContent then (Inl KvErrCapacity, w2\<lparr>aw_failed := True\<rparr>)
                  else let p = \<lparr>pr_command = t1, pr_term = aw_term w2\<rparr>;
                      w3 = w2\<lparr>aw_queue := aw_queue w2 @ [p], aw_outstanding := aw_outstanding w2 + 1\<rparr>
                    in (Inr (lcl, p, preview), if lcl then w3\<lparr>aw_view := preview\<rparr> else w3))))"

definition commit_begin ::
  "('v, doc) codec \<Rightarrow> ('c, 'v) wire \<Rightarrow> ('v kv_transaction \<Rightarrow> 'c option) \<Rightarrow> commit_env \<Rightarrow> 'v cstate \<Rightarrow> 'v kv_transaction
    \<Rightarrow> ('c, 'v) async_writer \<Rightarrow> (err + bool \<times> 'v proposal \<times> 'v cstate) \<times> ('c, 'v) async_writer" where
  "commit_begin cd wr marshal ce node t w = (case validateTransaction (cd_raw cd) t of
     Some e \<Rightarrow> (Inl e, w)
   | None \<Rightarrow> (case ce_ctx ce of
       Some e \<Rightarrow> (Inl e, w)
     | None \<Rightarrow> (case ensure (ce_ensure ce) node w of
         (Some e, w') \<Rightarrow> (Inl e, w')
       | (None, w') \<Rightarrow> propose cd wr marshal ce t w')))"

text \<open>The end of a commit that waits: its entry settled (with its error, at a moment), or its context or
  the writer ended first.\<close>

datatype waited = Settled "err option" moment | ContextDone err | Stopped

definition commit_finish ::
  "'v proposal \<Rightarrow> 'v cstate \<Rightarrow> waited \<Rightarrow> ('c, 'v) async_writer \<Rightarrow> err option \<times> ('c, 'v) async_writer" where
  "commit_finish p preview outcome w = (case outcome of
     Settled (Some e) m \<Rightarrow> (Some e, w)
   | Settled None m \<Rightarrow>
       if \<not> authoritative w m \<or> aw_term w \<noteq> pr_term p \<or> aw_failed w
       then (Some KvErrNotLeader, if aw_term w = pr_term p then w\<lparr>aw_failed := True\<rparr> else w)
       else (None, w\<lparr>aw_view := preview\<rparr>)
   | ContextDone e \<Rightarrow> (Some e, w\<lparr>aw_failed := True\<rparr>)
   | Stopped \<Rightarrow> (Some KvErrNotLeader, w))"

section \<open>The worker\<close>

text \<open>The worker takes the first proposal if the writer may still propose it; once the future has settled
  with \<open>result\<close>, it removes the journal entry (\<open>deleted\<close> is the database's answer) and reports.\<close>

definition proposal_valid :: "moment \<Rightarrow> 'v proposal \<Rightarrow> ('c, 'v) async_writer \<Rightarrow> bool" where
  "proposal_valid m p w \<longleftrightarrow> aw_term w = pr_term p \<and> \<not> aw_failed w \<and> authoritative w m"

definition settle ::
  "'v proposal \<Rightarrow> err option \<Rightarrow> err option \<Rightarrow> ('c, 'v) async_writer \<Rightarrow> err option \<times> ('c, 'v) async_writer" where
  "settle p result deleted w =
     (let w1 = w\<lparr>aw_outstanding := aw_outstanding w - 1\<rparr>;
          err = (case result of Some e \<Rightarrow> Some e | None \<Rightarrow> deleted);
          w2 = (if err = None then w1\<lparr>aw_journal := fmdrop (t_Revision (pr_command p)) (aw_journal w1)\<rparr> else w1)
      in (err, if err \<noteq> None \<and> aw_term w2 = pr_term p then w2\<lparr>aw_failed := True\<rparr> else w2))"

definition writer_scan :: "ensure_env \<Rightarrow> 'v cstate \<Rightarrow> string \<Rightarrow> string \<Rightarrow> int \<Rightarrow> ('c, 'v) async_writer
    \<Rightarrow> (err + 'v page) \<times> ('c, 'v) async_writer" where
  "writer_scan e node prefix cursor most w = (case ensure e node w of
     (Some err, w') \<Rightarrow> (Inl err, w')
   | (None, w') \<Rightarrow>
       let keys = filter (\<lambda>k. has_prefix k prefix \<and> k > cursor) (sorted_list_of_set (fset (fmdom (s_records (aw_view w')))));
           shown = (if int (length keys) > most then take (nat most) keys else keys)
       in (Inr \<lparr>pg_Records = copyRecords (s_records (aw_view w')) shown,
             pg_Next = (if int (length keys) > most then last shown else [])\<rparr>, w'))"

section \<open>What the critical sections change\<close>

lemma fork_simps [simp]:
  "s_records (fork s) = s_records s" "s_bytes (fork s) = s_bytes s" "s_clusterID (fork s) = s_clusterID s"
  "s_versionCeiling (fork s) = s_versionCeiling s" "s_historyDigest (fork s) = s_historyDigest s"
  by (simp_all add: fork_def newState_def)

definition rebased :: "ensure_env \<Rightarrow> 'v cstate \<Rightarrow> ('c, 'v) async_writer \<Rightarrow> ('c, 'v) async_writer" where
  "rebased e node w = w\<lparr>aw_lease := lease_from (en_started e), aw_leaseTerm := mo_term (en_start e),
     aw_view := (fork node)\<lparr>s_index := s_index node\<rparr>, aw_journal := fmempty,
     aw_sequence := (if aw_term w \<noteq> mo_term (en_start e) then 0 else aw_sequence w),
     aw_term := mo_term (en_start e), aw_failed := False\<rparr>"

lemma ensure_rebuilds: "rebuilds e w \<Longrightarrow> snd (ensure e node w) = rebased e node w"
  by (auto simp: ensure_def rebuilds_def rebased_def Let_def)

lemma ensure_keeps:
  assumes "\<not> rebuilds e w"
  shows "snd (ensure e node w) = w
    \<or> snd (ensure e node w) = w\<lparr>aw_lease := lease_from (en_started e), aw_leaseTerm := mo_term (en_start e)\<rparr>"
  using assms by (auto simp: ensure_def rebuilds_def Let_def split: option.splits)

lemma ensure_ready:
  assumes "ensure e node w = (None, w')"
  shows "aw_term w' = mo_term (en_start e) \<and> aw_leaseTerm w' = aw_term w' \<and> \<not> aw_failed w'
    \<and> (authoritative w' (en_start e) \<or> authoritative w' (en_final e))"
  using assms by (auto simp: ensure_def Let_def authoritative_def split: option.splits if_splits)

text \<open>A refused proposal may use up a sequence number and a journal entry and may fence the writer; nothing
  else changes.\<close>

lemma propose_Inl:
  assumes "propose cd wr marshal ce t w = (Inl e, w')"
  shows "aw_view w' = aw_view w \<and> aw_term w' = aw_term w \<and> aw_queue w' = aw_queue w
      \<and> aw_outstanding w' = aw_outstanding w \<and> (aw_failed w \<longrightarrow> aw_failed w')
      \<and> (aw_sequence w' = aw_sequence w \<or> aw_sequence w < 0xffffffff \<and> aw_sequence w' = aw_sequence w + 1)"
  using assms
  by (auto simp: propose_def Let_def not_le split: if_splits option.splits prod.splits)

lemma propose_Inr:
  assumes "propose cd wr marshal ce t w = (Inr (lcl, p, preview), w')"
  obtains data where "p = \<lparr>pr_command = t\<lparr>t_Revision := revision_number (aw_term w) (aw_sequence w + 1)\<rparr>, pr_term = aw_term w\<rparr>"
    "lcl = localContentAllowed cd t (aw_view w)" "marshal (pr_command p) = Some data" "data_len wr data \<le> maxCommand"
    "aw_sequence w < 0xffffffff"
    "Apply (cd_raw cd) wr (fork (aw_view w)) \<lparr>l_Index = t_Revision (pr_command p), l_Term = aw_term w, l_Data = data\<rparr>
       = (None, preview)"
    "fcard (fmdom (aw_journal w)) < maxPendingContent" "length (aw_queue w) < maxPendingContent"
    "\<not> lcl \<longrightarrow> security_admitted (ce_configuration ce) (t_Writes t) = None"
    "authoritative w (ce_after ce)"
    "w' = w\<lparr>aw_sequence := aw_sequence w + 1, aw_journal := fmupd (t_Revision (pr_command p)) data (aw_journal w),
       aw_queue := aw_queue w @ [p], aw_outstanding := aw_outstanding w + 1,
       aw_view := (if lcl then preview else aw_view w)\<rparr>"
  using assms
  by (auto simp: propose_def Let_def not_le authoritative_def split: if_splits option.splits prod.splits)

section \<open>Revisions\<close>

lemma unat_revision:
  assumes "tm \<le> 0xffffffff" "n \<le> 0xffffffff"
  shows "unat (revision_number tm n) = unat tm * 2 ^ 32 + unat n"
proof -
  have u: "unat tm \<le> 0xffffffff" "unat n \<le> 0xffffffff" using assms by (simp_all add: word_le_nat_alt)
  have "take_bit 32 n = n"
    by (rule unsigned_word_eqI[where ?'a = nat]) (use u(2) in \<open>simp add: unsigned_take_bit_eq take_bit_nat_eq_self\<close>)
  then have "n AND mask 32 = n" by (simp add: take_bit_eq_mask)
  then have nb: "bit n i \<Longrightarrow> i < 32" for i by (metis bit_and_iff bit_mask_iff)
  have "push_bit 32 tm AND n = 0" by (rule bit_eqI) (auto simp: bit_simps dest: nb)
  then have "revision_number tm n = push_bit 32 tm + n" by (simp add: disjunctive_add_eq_or revision_number_def)
  also have "unat \<dots> = unat tm * 2 ^ 32 + unat n"
    using u by (simp add: push_bit_eq_mult unat_word_ariths)
  finally show ?thesis .
qed

lemma revision_less:
  assumes "tm \<le> 0xffffffff" "m \<le> 0xffffffff" "n \<le> 0xffffffff"
  shows "revision_number tm m < revision_number tm n \<longleftrightarrow> m < n" "revision_number tm m = revision_number tm n \<longleftrightarrow> m = n"
  using unat_revision[OF assms(1,2)] unat_revision[OF assms(1,3)] by (auto simp: word_less_nat_alt word_unat_eq_iff)

lemma revision_above: "tm \<le> 0xffffffff \<Longrightarrow> n \<le> 0xffffffff \<Longrightarrow> 0 < tm \<Longrightarrow> 0xffffffff < revision_number tm n"
  using unat_revision[of tm n] by (simp add: word_less_nat_alt)

lemma revision_nonzero: "tm \<le> 0xffffffff \<Longrightarrow> n \<le> 0xffffffff \<Longrightarrow> 0 < n \<Longrightarrow> revision_number tm n \<noteq> 0"
  using unat_revision[of tm n] by (auto simp: word_less_nat_alt word_unat_eq_iff)

lemma word_next:
  fixes n :: "64 word"
  assumes "n < 0xffffffff"
  shows "n < n + 1" "n + 1 \<le> 0xffffffff" "0 < n + 1"
  using assms by (simp_all add: word_less_nat_alt word_le_nat_alt unat_word_ariths)

end
