(* ===== verification/Async_Safety.thy ===== *)
theory Async_Safety
  imports Async_Writer
begin

text \<open>
  The asynchronous writer in operation: the steps of commits, reads, the worker, the heartbeat and the log
  of the cluster in any order. The view a leader serves is the state of its node after the entries still
  under way; these entries will be accepted; and a change of anything but content is acknowledged only
  once the node has applied it.
\<close>

section \<open>Content\<close>

text \<open>What of a state decides about later entries that carry a revision.\<close>

definition same_content :: "'v cstate \<Rightarrow> 'v cstate \<Rightarrow> bool" where
  "same_content a b \<longleftrightarrow> s_records a = s_records b \<and> s_bytes a = s_bytes b
     \<and> s_versionCeiling a = s_versionCeiling b \<and> s_historyDigest a = s_historyDigest b"

lemma same_content_refl [simp]: "same_content a a"
  and same_content_sym: "same_content a b \<Longrightarrow> same_content b a"
  and same_content_trans [trans]: "same_content a b \<Longrightarrow> same_content b c \<Longrightarrow> same_content a c"
  and same_content_fork [simp]: "same_content (fork a) b = same_content a b" "same_content b (fork a) = same_content b a"
  and same_content_index [simp]: "same_content (a\<lparr>s_index := i\<rparr>) b = same_content a b"
    "same_content b (a\<lparr>s_index := i\<rparr>) = same_content b a"
  by (auto simp: same_content_def)

lemma fold_apply_write_content:
  "same_content a b \<Longrightarrow> same_content (fold (apply_write v) ws a) (fold (apply_write v) ws b)"
proof (induction ws arbitrary: a b)
  case (Cons w ws)
  have "same_content (apply_write v w a) (apply_write v w b)"
    using Cons.prems by (auto simp: same_content_def apply_write_def split: option.splits)
  then show ?case using Cons.IH by simp
qed simp

lemma Apply_content:
  assumes "same_content a b" "decode_tx wr (l_Data l) = Some t" "t_Revision t \<noteq> 0"
    "l_Data l' = l_Data l" "l_Term l' = l_Term l"
  shows "fst (Apply ops wr a l) = fst (Apply ops wr b l') \<and> same_content (snd (Apply ops wr a l)) (snd (Apply ops wr b l'))"
proof -
  have v: "log_version l t = t_Revision t" "log_version l' t = t_Revision t" using assms(3) by (simp_all add: log_version_def)
  have eq: "s_records a = s_records b" "s_bytes a = s_bytes b" "s_versionCeiling a = s_versionCeiling b"
    "s_historyDigest a = s_historyDigest b" using assms(1) by (auto simp: same_content_def)
  let ?up = "\<lambda>s i. s\<lparr>s_index := i, s_versionCeiling := max (t_Revision t) (s_versionCeiling b),
       s_historyDigest := chain wr (s_historyDigest b) (l_Data l)\<rparr>"
  have f: "same_content (fold (apply_write (t_Revision t)) (t_Writes t) (?up a (l_Index l)))
      (fold (apply_write (t_Revision t)) (t_Writes t) (?up b (l_Index l')))"
    by (rule fold_apply_write_content) (simp add: same_content_def eq)
  show ?thesis using f assms(1)
    by (auto simp: Apply_def Let_def v eq assms(2,4,5) same_content_def split: prod.splits)
qed

section \<open>Draining the queue\<close>

text \<open>What the node becomes once the entries \<open>ps\<close> are applied, each under its term, if all are accepted.\<close>

fun drain :: "'v raw_ops \<Rightarrow> ('c, 'v) wire \<Rightarrow> ('v kv_transaction \<Rightarrow> 'c option) \<Rightarrow> 'v cstate \<Rightarrow> 'v proposal list \<Rightarrow> 'v cstate option" where
  "drain ops wr marshal s [] = Some s"
| "drain ops wr marshal s (p # ps) = (case marshal (pr_command p) of
     None \<Rightarrow> None
   | Some data \<Rightarrow> (case Apply ops wr s \<lparr>l_Index = t_Revision (pr_command p), l_Term = pr_term p, l_Data = data\<rparr> of
       (Some e, _) \<Rightarrow> None
     | (None, s') \<Rightarrow> drain ops wr marshal s' ps))"

definition leads_to :: "'v raw_ops \<Rightarrow> ('c, 'v) wire \<Rightarrow> ('v kv_transaction \<Rightarrow> 'c option) \<Rightarrow> 'v cstate \<Rightarrow> 'v proposal list
    \<Rightarrow> 'v cstate \<Rightarrow> bool" where
  "leads_to ops wr marshal s ps s' = (case drain ops wr marshal s ps of None \<Rightarrow> False | Some d \<Rightarrow> same_content d s')"

lemma leads_to_Nil [simp]: "leads_to ops wr marshal s [] s' = same_content s s'"
  by (simp add: leads_to_def)

lemma leads_to_Cons:
  "leads_to ops wr marshal s (p # ps) s' \<longleftrightarrow> (\<exists>data u. marshal (pr_command p) = Some data
     \<and> Apply ops wr s \<lparr>l_Index = t_Revision (pr_command p), l_Term = pr_term p, l_Data = data\<rparr> = (None, u)
     \<and> leads_to ops wr marshal u ps s')"
  by (auto simp: leads_to_def split: option.splits prod.splits)

lemma leads_to_content:
  assumes "faithful_wire wr marshal" "\<forall>p \<in> set ps. t_Revision (pr_command p) \<noteq> 0"
  shows "same_content a b \<Longrightarrow> same_content s' s'' \<Longrightarrow> leads_to ops wr marshal a ps s' \<Longrightarrow> leads_to ops wr marshal b ps s''"
  using assms(2)
proof (induction ps arbitrary: a b)
  case Nil
  then show ?case by (simp add: same_content_def)
next
  case (Cons p ps)
  from Cons.prems(3) obtain data u where d: "marshal (pr_command p) = Some data"
    and u: "Apply ops wr a \<lparr>l_Index = t_Revision (pr_command p), l_Term = pr_term p, l_Data = data\<rparr> = (None, u)"
    and r: "leads_to ops wr marshal u ps s'" unfolding leads_to_Cons by blast
  let ?l = "\<lparr>l_Index = t_Revision (pr_command p), l_Term = pr_term p, l_Data = data\<rparr>"
  have "decode_tx wr (l_Data ?l) = Some (pr_command p)" using assms(1) d by (simp add: faithful_wire_def)
  with Cons.prems have *: "fst (Apply ops wr b ?l) = None \<and> same_content u (snd (Apply ops wr b ?l))"
    using Apply_content[of a b wr ?l "pr_command p" ?l ops] u by simp
  then obtain v where v: "Apply ops wr b ?l = (None, v)" "same_content u v" by (cases "Apply ops wr b ?l") auto
  have "leads_to ops wr marshal v ps s''" using Cons.IH[OF v(2) Cons.prems(2) r] Cons.prems(4) by simp
  with d v(1) show ?case unfolding leads_to_Cons by blast
qed

lemma drain_append:
  "drain ops wr marshal s (ps @ qs) = Option.bind (drain ops wr marshal s ps) (\<lambda>u. drain ops wr marshal u qs)"
  by (induction ps arbitrary: s) (auto split: option.splits prod.splits)

lemma leads_to_append:
  assumes "faithful_wire wr marshal" "\<forall>p \<in> set qs. t_Revision (pr_command p) \<noteq> 0"
    "leads_to ops wr marshal s ps u" "leads_to ops wr marshal u qs s'"
  shows "leads_to ops wr marshal s (ps @ qs) s'"
proof -
  from assms(3) obtain d where d: "drain ops wr marshal s ps = Some d" "same_content d u"
    by (auto simp: leads_to_def split: option.splits)
  have "leads_to ops wr marshal d qs s'"
    using leads_to_content[OF assms(1,2) same_content_sym[OF d(2)] same_content_refl assms(4)] .
  then show ?thesis using d(1) by (simp add: leads_to_def drain_append)
qed

section \<open>The writer in operation\<close>

text \<open>
  The worker is idle, waits for the future of a proposal, or has its result. \<open>sy_call\<close> is the commit that
  waits for its entry (the write mutex admits one): its proposal, its preview and what its \<open>done\<close> channel
  holds. \<open>sy_foreign\<close> says whether the log of this node has moved, since the view was last rebuilt, by
  something other than the worker's entries: entries of another leader, a restored snapshot, the
  shutdown of Raft. \<open>sy_applied\<close> lists the proposals whose entries the node applied without error.
\<close>

datatype 'v work = Idle | Proposed "'v proposal" | Finished "'v proposal" "err option"

record ('c, 'v) system =
  sy_node :: "'v cstate"
  sy_writer :: "('c, 'v) async_writer"
  sy_work :: "'v work"
  sy_call :: "('v proposal \<times> 'v cstate \<times> err option option) option"
  sy_foreign :: bool
  sy_applied :: "'v proposal list"

definition deliver :: "'v proposal \<Rightarrow> err option \<Rightarrow> ('v proposal \<times> 'v cstate \<times> err option option) option
    \<Rightarrow> ('v proposal \<times> 'v cstate \<times> err option option) option" where
  "deliver p e c = (case c of None \<Rightarrow> None | Some (q, pv, d) \<Rightarrow> if q = p then Some (q, pv, Some e) else Some (q, pv, d))"

text \<open>The steps. Terms never decrease and log positions increase; nothing else is assumed of Raft here.\<close>

inductive async_step ::
  "('v, doc) codec \<Rightarrow> ('c, 'v) wire \<Rightarrow> ('v kv_transaction \<Rightarrow> 'c option) \<Rightarrow> ('c, 'v) system \<Rightarrow> ('c, 'v) system \<Rightarrow> bool"
  for cd wr marshal where
  beat: "heartbeat m1 e m2 (lt, sy_writer s) = (tr, lt', w') \<Longrightarrow> async_step cd wr marshal s (s\<lparr>sy_writer := w'\<rparr>)"
| foreign: "s_index (sy_node s) < s_index n' \<Longrightarrow> s_index n' \<le> 0xffffffff \<Longrightarrow>
    async_step cd wr marshal s (s\<lparr>sy_node := n', sy_foreign := True\<rparr>)"
| ready: "ensure e (sy_node s) (sy_writer s) = (r, w') \<Longrightarrow> aw_term (sy_writer s) \<le> mo_term (en_start e) \<Longrightarrow>
    async_step cd wr marshal s (s\<lparr>sy_writer := w', sy_foreign := sy_foreign s \<and> \<not> rebuilds e (sy_writer s)\<rparr>)"
| start: "sy_call s = None \<Longrightarrow> validateTransaction (cd_raw cd) t = None \<Longrightarrow> ce_ctx ce = None \<Longrightarrow>
    commit_begin cd wr marshal ce (sy_node s) t (sy_writer s) = (r, w') \<Longrightarrow>
    aw_term (sy_writer s) \<le> mo_term (en_start (ce_ensure ce)) \<Longrightarrow>
    async_step cd wr marshal s (s\<lparr>sy_writer := w',
      sy_foreign := sy_foreign s \<and> \<not> rebuilds (ce_ensure ce) (sy_writer s),
      sy_call := (case r of Inr (False, p, pv) \<Rightarrow> Some (p, pv, None) | _ \<Rightarrow> None)\<rparr>)"
| take: "sy_work s = Idle \<Longrightarrow> aw_queue (sy_writer s) = p # q \<Longrightarrow>
    async_step cd wr marshal s (s\<lparr>sy_writer := (sy_writer s)\<lparr>aw_queue := q\<rparr>,
      sy_work := (if proposal_valid m p (sy_writer s) then Proposed p else Finished p (Some KvErrNotLeader))\<rparr>)"
| logged: "sy_work s = Proposed p \<Longrightarrow> marshal (pr_command p) = Some data \<Longrightarrow> s_index (sy_node s) < i \<Longrightarrow> i \<le> 0xffffffff \<Longrightarrow>
    Apply (cd_raw cd) wr (sy_node s) \<lparr>l_Index = i, l_Term = tm, l_Data = data\<rparr> = (r, n') \<Longrightarrow>
    async_step cd wr marshal s (s\<lparr>sy_node := n', sy_work := Finished p r,
      sy_applied := (if r = None then p # sy_applied s else sy_applied s)\<rparr>)"
| unlogged: "sy_work s = Proposed p \<Longrightarrow> async_step cd wr marshal s (s\<lparr>sy_work := Finished p (Some e)\<rparr>)"
| settled: "sy_work s = Finished p r \<Longrightarrow> settle p r deleted (sy_writer s) = (e, w') \<Longrightarrow>
    async_step cd wr marshal s (s\<lparr>sy_writer := w', sy_work := Idle, sy_call := deliver p e (sy_call s)\<rparr>)"
| finish: "sy_call s = Some (p, pv, Some e) \<Longrightarrow> commit_finish p pv (Settled e m) (sy_writer s) = (r, w') \<Longrightarrow>
    async_step cd wr marshal s (s\<lparr>sy_writer := w', sy_call := None\<rparr>)"
| cancel: "sy_call s = Some (p, pv, d) \<Longrightarrow> commit_finish p pv (ContextDone e) (sy_writer s) = (r, w') \<Longrightarrow>
    async_step cd wr marshal s (s\<lparr>sy_writer := w', sy_call := None\<rparr>)"
| stopped: "sy_call s = Some (p, pv, d) \<Longrightarrow> commit_finish p pv Stopped (sy_writer s) = (r, w') \<Longrightarrow>
    async_step cd wr marshal s (s\<lparr>sy_writer := w', sy_call := None, sy_foreign := True\<rparr>)"

text \<open>A writer as \<open>newAsyncWriter\<close> makes it, over any state of the node and any old journal.\<close>

definition newAsyncWriter :: "string \<Rightarrow> (64 word, 'c) fmap \<Rightarrow> ('c, 'v) async_writer" where
  "newAsyncWriter cid journal = \<lparr>aw_view = newState cid, aw_term = 0, aw_sequence = 0, aw_lease = \<lparr>ck_mono = 0, ck_wall = 0\<rparr>,
     aw_leaseTerm = 0, aw_failed = False, aw_outstanding = 0, aw_journal = journal, aw_queue = []\<rparr>"

definition started :: "'v cstate \<Rightarrow> (64 word, 'c) fmap \<Rightarrow> ('c, 'v) system" where
  "started node journal = \<lparr>sy_node = node, sy_writer = newAsyncWriter (s_clusterID node) journal, sy_work = Idle,
     sy_call = None, sy_foreign = True, sy_applied = []\<rparr>"

definition async_reachable ::
  "('v, doc) codec \<Rightarrow> ('c, 'v) wire \<Rightarrow> ('v kv_transaction \<Rightarrow> 'c option) \<Rightarrow> ('c, 'v) system \<Rightarrow> bool" where
  "async_reachable cd wr marshal s \<longleftrightarrow> (\<exists>node journal. s_index node \<le> 0xffffffff
     \<and> (async_step cd wr marshal)\<^sup>*\<^sup>* (started node journal) s)"

section \<open>The invariant\<close>

definition tracked :: "('c, 'v) system \<Rightarrow> 'v proposal list" where
  "tracked s = (case sy_work s of Idle \<Rightarrow> [] | Proposed p \<Rightarrow> [p] | Finished p e \<Rightarrow> [p]) @ aw_queue (sy_writer s)"

definition pending :: "('c, 'v) system \<Rightarrow> 'v proposal list" where
  "pending s = (case sy_work s of Idle \<Rightarrow> [] | Proposed p \<Rightarrow> [p] | Finished p e \<Rightarrow> if e = None then [] else [p])
     @ aw_queue (sy_writer s)"

definition expected :: "('c, 'v) system \<Rightarrow> 'v cstate" where
  "expected s = (case sy_call s of
     Some (p, pv, d) \<Rightarrow> if (d = None \<or> d = Some None) \<and> pr_term p = aw_term (sy_writer s) then pv else aw_view (sy_writer s)
   | None \<Rightarrow> aw_view (sy_writer s))"

definition usable :: "('c, 'v) system \<Rightarrow> bool" where
  "usable s \<longleftrightarrow> \<not> aw_failed (sy_writer s) \<and> \<not> sy_foreign s"

definition numbered :: "('c, 'v) async_writer \<Rightarrow> 'v proposal \<Rightarrow> bool" where
  "numbered w p \<longleftrightarrow> pr_term p = aw_term w
     \<and> (\<exists>n. 0 < n \<and> n \<le> aw_sequence w \<and> t_Revision (pr_command p) = revision_number (aw_term w) n)"

definition earlier :: "'v proposal \<Rightarrow> 'v proposal \<Rightarrow> bool" where
  "earlier p q \<longleftrightarrow> t_Revision (pr_command p) < t_Revision (pr_command q)"

definition queue_ok :: "('c, 'v) system \<Rightarrow> bool" where
  "queue_ok s \<longleftrightarrow> (let w = sy_writer s in aw_term w \<le> 0xffffffff \<and> aw_sequence w \<le> 0xffffffff
     \<and> aw_outstanding w = length (tracked s) \<and> (\<forall>p \<in> set (tracked s). numbered w p) \<and> sorted_wrt earlier (tracked s)
     \<and> (\<forall>p. sy_work s = Finished p None \<longrightarrow> p \<in> set (sy_applied s)))"

definition call_ok :: "('c, 'v) system \<Rightarrow> bool" where
  "call_ok s \<longleftrightarrow> (\<forall>p pv d. sy_call s = Some (p, pv, d) \<longrightarrow> pr_term p \<le> aw_term (sy_writer s)
     \<and> (d = None \<longrightarrow> tracked s \<noteq> [] \<and> last (tracked s) = p
         \<and> (\<forall>q. sy_work s = Proposed q \<or> sy_work s = Finished q None \<longrightarrow> \<not> aw_failed (sy_writer s)))
     \<and> (d \<noteq> None \<longrightarrow> p \<notin> set (tracked s))
     \<and> (d = Some None \<longrightarrow> p \<in> set (sy_applied s)
         \<and> (pr_term p = aw_term (sy_writer s) \<longrightarrow> \<not> aw_failed (sy_writer s) \<and> tracked s = [])))"

text \<open>\<open>pending\<close> are the entries the node has not applied, \<open>expected\<close> the state after them: the view, or the
  preview of the waiting commit.\<close>

definition content_ok ::
  "('v, doc) codec \<Rightarrow> ('c, 'v) wire \<Rightarrow> ('v kv_transaction \<Rightarrow> 'c option) \<Rightarrow> ('c, 'v) system \<Rightarrow> bool" where
  "content_ok cd wr marshal s \<longleftrightarrow> (usable s \<longrightarrow> leads_to (cd_raw cd) wr marshal (sy_node s) (pending s) (expected s))"

definition preview_ok ::
  "('v, doc) codec \<Rightarrow> ('c, 'v) wire \<Rightarrow> ('v kv_transaction \<Rightarrow> 'c option) \<Rightarrow> ('c, 'v) system \<Rightarrow> bool" where
  "preview_ok cd wr marshal s \<longleftrightarrow> (\<forall>p pv d. sy_call s = Some (p, pv, d) \<longrightarrow> d = None \<or> d = Some None \<longrightarrow>
     pr_term p = aw_term (sy_writer s) \<longrightarrow> leads_to (cd_raw cd) wr marshal (aw_view (sy_writer s)) [p] pv)"

definition async_inv ::
  "('v, doc) codec \<Rightarrow> ('c, 'v) wire \<Rightarrow> ('v kv_transaction \<Rightarrow> 'c option) \<Rightarrow> ('c, 'v) system \<Rightarrow> bool" where
  "async_inv cd wr marshal s \<longleftrightarrow> queue_ok s \<and> call_ok s \<and> content_ok cd wr marshal s"

lemma async_inv_started: "async_inv cd wr marshal (started node journal)"
  by (simp add: async_inv_def queue_ok_def call_ok_def content_ok_def usable_def started_def newAsyncWriter_def
      tracked_def)

lemma expected_cong:
  "sy_call s' = sy_call s \<Longrightarrow> aw_view (sy_writer s') = aw_view (sy_writer s) \<Longrightarrow> aw_term (sy_writer s') = aw_term (sy_writer s) \<Longrightarrow>
    expected s' = expected s"
  by (simp add: expected_def split: option.split)

text \<open>The lease matters to none of this.\<close>

lemma async_inv_lease:
  assumes "async_inv cd wr marshal s"
  shows "async_inv cd wr marshal (s\<lparr>sy_writer := (sy_writer s)\<lparr>aw_lease := l, aw_leaseTerm := t\<rparr>\<rparr>)"
proof -
  let ?w = "(sy_writer s)\<lparr>aw_lease := l, aw_leaseTerm := t\<rparr>"
  let ?s = "s\<lparr>sy_writer := ?w\<rparr>"
  have [simp]: "tracked ?s = tracked s" "pending ?s = pending s" "expected ?s = expected s" "usable ?s = usable s"
    "numbered ?w = numbered (sy_writer s)"
    by (simp_all add: tracked_def pending_def expected_def usable_def numbered_def fun_eq_iff split: option.split)
  show ?thesis using assms by (simp add: async_inv_def queue_ok_def call_ok_def content_ok_def Let_def)
qed

lemma tracked_empty: "tracked s = [] \<Longrightarrow> sy_work s = Idle \<and> aw_queue (sy_writer s) = [] \<and> pending s = []"
  by (cases "sy_work s") (auto simp: tracked_def pending_def)

lemma rebased_simps [simp]:
  "aw_term (rebased e node w) = mo_term (en_start e)" "aw_failed (rebased e node w) = False"
  "aw_queue (rebased e node w) = aw_queue w" "aw_outstanding (rebased e node w) = aw_outstanding w"
  "aw_view (rebased e node w) = (fork node)\<lparr>s_index := s_index node\<rparr>"
  "aw_sequence (rebased e node w) = (if aw_term w \<noteq> mo_term (en_start e) then 0 else aw_sequence w)"
  "aw_leaseTerm (rebased e node w) = mo_term (en_start e)"
  by (simp_all add: rebased_def)

lemma ensure_inv:
  assumes inv: "async_inv cd wr marshal s" and e: "ensure e (sy_node s) (sy_writer s) = (r, w')"
    and le: "aw_term (sy_writer s) \<le> mo_term (en_start e)"
  shows "async_inv cd wr marshal (s\<lparr>sy_writer := w', sy_foreign := sy_foreign s \<and> \<not> rebuilds e (sy_writer s)\<rparr>)"
proof (cases "rebuilds e (sy_writer s)")
  case False
  have f: "s\<lparr>sy_writer := v, sy_foreign := sy_foreign s \<and> \<not> rebuilds e (sy_writer s)\<rparr> = s\<lparr>sy_writer := v\<rparr>" for v
    using False by simp
  show ?thesis unfolding f using ensure_keeps[OF False, of "sy_node s"] e async_inv_lease[OF inv] inv by auto
next
  case True
  let ?s = "s\<lparr>sy_writer := w', sy_foreign := sy_foreign s \<and> \<not> rebuilds e (sy_writer s)\<rparr>"
  have w': "w' = rebased e (sy_node s) (sy_writer s)" using ensure_rebuilds[OF True, of "sy_node s"] e by simp
  have t: "tracked s = []" using True inv by (auto simp: rebuilds_def async_inv_def queue_ok_def Let_def)
  then have t': "tracked ?s = []" "pending ?s = []" using tracked_empty[OF t] by (simp_all add: tracked_def pending_def w')
  have tm: "mo_term (en_start e) \<le> 0xffffffff" and fresh: "aw_term (sy_writer s) \<noteq> mo_term (en_start e) \<or> aw_failed (sy_writer s)"
    using True by (auto simp: rebuilds_def)
  have old: "pr_term p \<noteq> mo_term (en_start e)" "p \<in> set (sy_applied s)" if "sy_call s = Some (p, pv, Some None)" for p pv
    using inv that fresh le by (auto simp: async_inv_def call_ok_def)
  have no: "sy_call s \<noteq> Some (p, pv, None)" for p pv using inv t by (auto simp: async_inv_def call_ok_def)
  have "queue_ok ?s" using t' tm inv t tracked_empty[OF t] by (auto simp: queue_ok_def w' async_inv_def Let_def)
  moreover have "call_ok ?s" using inv le t' old no unfolding call_ok_def async_inv_def by (fastforce simp: w')
  moreover have "same_content (sy_node s) (expected ?s)"
    using old(1) no by (simp add: expected_def w' split: option.split) blast
  ultimately show ?thesis by (simp add: async_inv_def content_ok_def t')
qed

lemma numbered_mono:
  "numbered w p \<Longrightarrow> aw_term w' = aw_term w \<Longrightarrow> aw_sequence w \<le> aw_sequence w' \<Longrightarrow> numbered w' p"
  unfolding numbered_def by (metis order_trans)

lemma numbered_nonzero:
  assumes "numbered w p" "aw_term w \<le> 0xffffffff" "aw_sequence w \<le> 0xffffffff"
  shows "t_Revision (pr_command p) \<noteq> 0"
  using assms(1) revision_nonzero[OF assms(2) order_trans[OF _ assms(3)]] by (auto simp: numbered_def)

lemma propose_inv:
  assumes wire: "faithful_wire wr marshal" and inv: "async_inv cd wr marshal s" and c: "sy_call s = None"
    and ok: "\<not> aw_failed (sy_writer s)" and p: "propose cd wr marshal ce t (sy_writer s) = (r, w')"
  shows "async_inv cd wr marshal (s\<lparr>sy_writer := w', sy_call := (case r of Inr (False, p, pv) \<Rightarrow> Some (p, pv, None) | _ \<Rightarrow> None)\<rparr>)"
    (is "async_inv cd wr marshal ?s")
proof (cases r)
  case (Inl e)
  let ?w = "sy_writer s"
  have k: "aw_view w' = aw_view ?w" "aw_term w' = aw_term ?w" "aw_queue w' = aw_queue ?w" "aw_outstanding w' = aw_outstanding ?w"
    "aw_failed ?w \<longrightarrow> aw_failed w'"
    "aw_sequence w' = aw_sequence ?w \<or> aw_sequence ?w < 0xffffffff \<and> aw_sequence w' = aw_sequence ?w + 1"
    using propose_Inl[OF p[unfolded Inl]] by auto
  have le: "aw_sequence ?w \<le> aw_sequence w'" using k(6) word_next(1)[of "aw_sequence ?w"] by auto
  have tr: "tracked ?s = tracked s" and pe: "pending ?s = pending s" and ex: "expected ?s = expected s"
    by (simp_all add: tracked_def pending_def expected_def k c Inl)
  have "\<forall>p \<in> set (tracked s). numbered w' p"
    using inv numbered_mono[OF _ k(2) le] by (simp add: async_inv_def queue_ok_def Let_def)
  moreover have "aw_sequence w' \<le> 0xffffffff"
    using k(6) word_next(2)[of "aw_sequence ?w"] inv by (auto simp: async_inv_def queue_ok_def Let_def)
  ultimately have "queue_ok ?s" using inv unfolding queue_ok_def Let_def tr by (simp add: async_inv_def queue_ok_def Let_def k)
  moreover have "usable ?s \<Longrightarrow> usable s" using k(5) by (auto simp: usable_def)
  then have "content_ok cd wr marshal ?s"
    unfolding content_ok_def pe ex using inv by (simp add: async_inv_def content_ok_def)
  ultimately show ?thesis by (simp add: async_inv_def call_ok_def Inl)
next
  case (Inr x)
  obtain lcl q pv where x: "x = (lcl, q, pv)" by (cases x)
  let ?w = "sy_writer s" and ?n = "aw_sequence (sy_writer s) + 1"
  obtain data where q: "q = \<lparr>pr_command = t\<lparr>t_Revision := revision_number (aw_term ?w) ?n\<rparr>, pr_term = aw_term ?w\<rparr>"
    and d: "marshal (pr_command q) = Some data" and n: "aw_sequence ?w < 0xffffffff"
    and a: "Apply (cd_raw cd) wr (fork (aw_view ?w)) \<lparr>l_Index = t_Revision (pr_command q), l_Term = aw_term ?w, l_Data = data\<rparr> = (None, pv)"
    and w': "w' = ?w\<lparr>aw_sequence := ?n, aw_journal := fmupd (t_Revision (pr_command q)) data (aw_journal ?w),
       aw_queue := aw_queue ?w @ [q], aw_outstanding := aw_outstanding ?w + 1, aw_view := (if lcl then pv else aw_view ?w)\<rparr>"
    using p unfolding Inr x by (elim propose_Inr) blast
  note nx = word_next[OF n]
  have tm: "aw_term ?w \<le> 0xffffffff" using inv by (simp add: async_inv_def queue_ok_def Let_def)
  have tr: "tracked ?s = tracked s @ [q]" and pe: "pending ?s = pending s @ [q]" by (simp_all add: tracked_def pending_def w')
  have old: "numbered w' p" "earlier p q" if "p \<in> set (tracked s)" for p
  proof -
    have "numbered ?w p" using inv that by (simp add: async_inv_def queue_ok_def Let_def)
    then obtain m where m: "pr_term p = aw_term ?w" "0 < m" "m \<le> aw_sequence ?w" "t_Revision (pr_command p) = revision_number (aw_term ?w) m"
      by (auto simp: numbered_def)
    have "m < ?n" using m(3) nx(1) by simp
    then show "numbered w' p" "earlier p q" using m tm nx(2) revision_less(1)[OF tm, of m ?n]
      by (auto simp: numbered_def earlier_def w' q intro!: exI[of _ m])
  qed
  have "numbered w' q" using nx by (auto simp: numbered_def w' q)
  then have "queue_ok ?s" using inv old nx(2)
    by (simp add: async_inv_def queue_ok_def Let_def tr sorted_wrt_append ball_Un) (simp add: w')
  moreover have "call_ok ?s"
  proof -
    have "sy_call ?s = (if lcl then None else Some (q, pv, None))" by (cases lcl) (simp_all add: Inr x)
    moreover have "pr_term q = aw_term (sy_writer ?s)" "\<not> aw_failed (sy_writer ?s)" using ok by (simp_all add: q w')
    ultimately show ?thesis unfolding call_ok_def tr by (simp split: if_splits)
  qed
  moreover have "content_ok cd wr marshal ?s"
    unfolding content_ok_def
  proof
    assume "usable ?s"
    then have "usable s" by (simp add: usable_def w')
    then have l: "leads_to (cd_raw cd) wr marshal (sy_node s) (pending s) (aw_view ?w)"
      using inv c by (simp add: async_inv_def content_ok_def expected_def)
    have rev: "t_Revision (pr_command q) \<noteq> 0" using revision_nonzero[OF tm nx(2,3)] by (simp add: q)
    have "leads_to (cd_raw cd) wr marshal (fork (aw_view ?w)) [q] pv"
      using a d by (simp add: leads_to_Cons) (simp add: q)
    then have "leads_to (cd_raw cd) wr marshal (aw_view ?w) [q] pv"
      using leads_to_content[OF wire, of "[q]" "fork (aw_view ?w)" "aw_view ?w" pv pv] rev by simp
    then have "leads_to (cd_raw cd) wr marshal (sy_node s) (pending s @ [q]) pv"
      using leads_to_append[OF wire _ l, of "[q]" pv] rev by simp
    moreover have "expected ?s = pv" by (cases lcl) (simp_all add: expected_def Inr x w' q)
    ultimately show "leads_to (cd_raw cd) wr marshal (sy_node ?s) (pending ?s) (expected ?s)" by (simp add: pe)
  qed
  ultimately show ?thesis by (simp add: async_inv_def)
qed

text \<open>A proposal under way is logged under some term; if the node accepts it, that is the proposal's term.\<close>

lemma apply_term:
  "Apply ops wr s l = (None, s') \<Longrightarrow> decode_tx wr (l_Data l) = Some t \<Longrightarrow> t_Revision t \<noteq> 0 \<Longrightarrow>
    drop_bit 32 (t_Revision t) = l_Term l"
  by (elim Apply_None) (simp add: apply_result_def)

lemma logged_inv:
  assumes wire: "faithful_wire wr marshal" and inv: "async_inv cd wr marshal s" and wk: "sy_work s = Proposed p"
    and d: "marshal (pr_command p) = Some data"
    and a: "Apply (cd_raw cd) wr (sy_node s) \<lparr>l_Index = i, l_Term = tm, l_Data = data\<rparr> = (r, n')"
  shows "async_inv cd wr marshal (s\<lparr>sy_node := n', sy_work := Finished p r,
      sy_applied := (if r = None then p # sy_applied s else sy_applied s)\<rparr>)"
    (is "async_inv cd wr marshal ?s")
proof -
  have tr: "tracked ?s = tracked s" by (simp add: tracked_def wk)
  have num: "numbered (sy_writer s) p" and tm: "aw_term (sy_writer s) \<le> 0xffffffff" and sq: "aw_sequence (sy_writer s) \<le> 0xffffffff"
    and nums: "\<forall>q \<in> set (aw_queue (sy_writer s)). numbered (sy_writer s) q"
    using inv by (simp_all add: async_inv_def queue_ok_def Let_def tracked_def wk)
  have nz: "t_Revision (pr_command q) \<noteq> 0" if "numbered (sy_writer s) q" for q
    using that tm sq by (rule numbered_nonzero)
  have "queue_ok ?s" using inv by (auto simp: async_inv_def queue_ok_def Let_def tr)
  moreover have "call_ok ?s" using inv wk by (auto simp: async_inv_def call_ok_def tr)
  moreover have "content_ok cd wr marshal ?s"
    unfolding content_ok_def
  proof
    assume u: "usable ?s"
    then have us: "usable s" by (simp add: usable_def)
    have l: "leads_to (cd_raw cd) wr marshal (sy_node s) (p # aw_queue (sy_writer s)) (expected s)"
      using inv us by (simp add: async_inv_def content_ok_def pending_def wk)
    have nzq: "\<forall>q \<in> set (p # aw_queue (sy_writer s)). t_Revision (pr_command q) \<noteq> 0" using nums num nz by simp
    have ex: "expected ?s = expected s" by (rule expected_cong) simp_all
    have "leads_to (cd_raw cd) wr marshal n' (pending ?s) (expected s)"
    proof (cases r)
      case (Some e)
      then have "same_content (sy_node s) n'" using Apply_error(1)[OF a[unfolded Some]] by simp
      moreover have "pending ?s = p # aw_queue (sy_writer s)" by (simp add: pending_def Some)
      ultimately show ?thesis using leads_to_content[OF wire nzq _ same_content_refl l, of n'] by simp
    next
      case None
      from l obtain v where v: "Apply (cd_raw cd) wr (sy_node s) \<lparr>l_Index = t_Revision (pr_command p), l_Term = pr_term p, l_Data = data\<rparr> = (None, v)"
        and lv: "leads_to (cd_raw cd) wr marshal v (aw_queue (sy_writer s)) (expected s)" using d by (auto simp: leads_to_Cons)
      have dec: "decode_tx wr data = Some (pr_command p)" using wire d by (simp add: faithful_wire_def)
      have "drop_bit 32 (t_Revision (pr_command p)) = pr_term p" "drop_bit 32 (t_Revision (pr_command p)) = tm"
        using apply_term[OF v] apply_term[OF a[unfolded None]] dec nz[OF num] by simp_all
      then have "same_content v n'"
        using Apply_content[of "sy_node s" "sy_node s" wr "\<lparr>l_Index = t_Revision (pr_command p), l_Term = pr_term p, l_Data = data\<rparr>"
            "pr_command p" "\<lparr>l_Index = i, l_Term = tm, l_Data = data\<rparr>" "cd_raw cd"] v a dec nz[OF num] by simp
      moreover have "pending ?s = aw_queue (sy_writer s)" by (simp add: pending_def None)
      ultimately show ?thesis using leads_to_content[OF wire _ _ same_content_refl lv, of n'] nzq by simp
    qed
    then show "leads_to (cd_raw cd) wr marshal (sy_node ?s) (pending ?s) (expected ?s)" unfolding ex by simp
  qed
  ultimately show ?thesis by (simp add: async_inv_def)
qed

lemma settle_fields:
  assumes "settle p r deleted w = (e, w')"
  shows "aw_view w' = aw_view w" "aw_term w' = aw_term w" "aw_sequence w' = aw_sequence w" "aw_queue w' = aw_queue w"
    "aw_outstanding w' = aw_outstanding w - 1" "e = None \<Longrightarrow> r = None"
    "aw_failed w' \<longleftrightarrow> aw_failed w \<or> e \<noteq> None \<and> aw_term w = pr_term p"
  using assms by (auto simp: settle_def Let_def split: option.splits if_splits)

lemma settled_inv:
  assumes inv: "async_inv cd wr marshal s" and wk: "sy_work s = Finished p r"
    and st: "settle p r deleted (sy_writer s) = (e, w')"
  shows "async_inv cd wr marshal (s\<lparr>sy_writer := w', sy_work := Idle, sy_call := deliver p e (sy_call s)\<rparr>)"
    (is "async_inv cd wr marshal ?s")
proof -
  let ?q = "aw_queue (sy_writer s)"
  note f = settle_fields[OF st]
  have tr: "tracked s = p # ?q" "tracked ?s = ?q" by (simp_all add: tracked_def wk f)
  have qo: "queue_ok s" and co: "call_ok s" using inv by (simp_all add: async_inv_def)
  have pt: "pr_term p = aw_term (sy_writer s)" using qo by (simp add: queue_ok_def Let_def tr numbered_def)
  have later: "\<forall>q \<in> set ?q. earlier p q" using qo by (simp add: queue_ok_def Let_def tr)
  then have notin: "p \<notin> set ?q" by (auto simp: earlier_def)
  have nn: "numbered w' = numbered (sy_writer s)" by (simp add: numbered_def fun_eq_iff f)
  have "queue_ok ?s" using qo by (auto simp: queue_ok_def Let_def tr nn f)
  moreover have "call_ok ?s"
    unfolding call_ok_def
  proof (intro allI impI)
    fix q pv d assume "sy_call ?s = Some (q, pv, d)"
    then obtain d0 where c: "sy_call s = Some (q, pv, d0)" and d: "d = (if q = p then Some e else d0)"
      by (auto simp: deliver_def split: option.splits prod.splits if_splits)
    note cs = co[unfolded call_ok_def, rule_format, OF c]
    have last: "?q = [] \<and> d0 = None" if "q = p"
    proof -
      have d0: "d0 = None" using cs that tr(1) by auto
      have "?q = []"
      proof (rule ccontr)
        assume "?q \<noteq> []"
        then have "last ?q = p" using cs d0 that tr(1) by simp
        then show False using notin \<open>?q \<noteq> []\<close> last_in_set by metis
      qed
      then show ?thesis using d0 by simp
    qed
    have "p \<in> set (sy_applied s) \<and> \<not> aw_failed (sy_writer s)" if "q = p" "e = None"
      using last[OF that(1)] f(6)[OF that(2)] cs wk qo by (auto simp: queue_ok_def Let_def)
    moreover have "pr_term q \<le> aw_term (sy_writer ?s)" using cs by (simp add: f)
    ultimately show "pr_term q \<le> aw_term (sy_writer ?s)
     \<and> (d = None \<longrightarrow> tracked ?s \<noteq> [] \<and> last (tracked ?s) = q
         \<and> (\<forall>q. sy_work ?s = Proposed q \<or> sy_work ?s = Finished q None \<longrightarrow> \<not> aw_failed (sy_writer ?s)))
     \<and> (d \<noteq> None \<longrightarrow> q \<notin> set (tracked ?s))
     \<and> (d = Some None \<longrightarrow> q \<in> set (sy_applied ?s)
         \<and> (pr_term q = aw_term (sy_writer ?s) \<longrightarrow> \<not> aw_failed (sy_writer ?s) \<and> tracked ?s = []))"
      using cs d last notin unfolding tr by (cases "q = p") (simp_all add: f pt split: if_splits)
  qed
  moreover have "content_ok cd wr marshal ?s"
    unfolding content_ok_def
  proof
    assume u: "usable ?s"
    then have e: "e = None" using f(7) pt by (simp add: usable_def)
    with u have us: "usable s" using f(7) by (simp add: usable_def)
    have "pending ?s = pending s" using f(6)[OF e] by (simp add: pending_def wk f)
    moreover have "expected ?s = expected s"
      using co tr(1) by (auto simp: expected_def deliver_def f e call_ok_def split: option.splits)
    ultimately show "leads_to (cd_raw cd) wr marshal (sy_node ?s) (pending ?s) (expected ?s)"
      using inv us by (simp add: async_inv_def content_ok_def)
  qed
  ultimately show ?thesis by (simp add: async_inv_def)
qed

lemma finish_inv:
  assumes inv: "async_inv cd wr marshal s" and c: "sy_call s = Some (p, pv, Some e)"
    and st: "commit_finish p pv (Settled e m) (sy_writer s) = (r, w')"
  shows "async_inv cd wr marshal (s\<lparr>sy_writer := w', sy_call := None\<rparr>)"
    (is "async_inv cd wr marshal ?s")
proof -
  have f: "aw_term w' = aw_term (sy_writer s)" "aw_sequence w' = aw_sequence (sy_writer s)" "aw_queue w' = aw_queue (sy_writer s)"
    "aw_outstanding w' = aw_outstanding (sy_writer s)" "aw_failed (sy_writer s) \<Longrightarrow> aw_failed w'"
    using st by (auto simp: commit_finish_def split: option.splits if_splits)
  have tr: "tracked ?s = tracked s" and pe: "pending ?s = pending s" by (simp_all add: tracked_def pending_def f)
  have nn: "numbered w' = numbered (sy_writer s)" by (simp add: numbered_def fun_eq_iff f)
  have "queue_ok ?s" using inv unfolding queue_ok_def Let_def tr by (simp add: async_inv_def queue_ok_def Let_def f nn)
  moreover have "content_ok cd wr marshal ?s"
    unfolding content_ok_def pe
  proof
    assume u: "usable ?s"
    then have us: "usable s" using f(5) by (auto simp: usable_def)
    have "expected ?s = expected s"
      using st u c by (auto simp: expected_def commit_finish_def usable_def split: option.splits if_splits)
    then show "leads_to (cd_raw cd) wr marshal (sy_node ?s) (pending s) (expected ?s)"
      using inv us by (simp add: async_inv_def content_ok_def)
  qed
  ultimately show ?thesis by (simp add: async_inv_def call_ok_def)
qed

text \<open>Steps after which the view is not served: the content no longer matters.\<close>

lemma unusable_inv:
  assumes inv: "async_inv cd wr marshal s" and "\<not> usable s'"
    and w: "aw_term (sy_writer s') = aw_term (sy_writer s)" "aw_sequence (sy_writer s') = aw_sequence (sy_writer s)"
      "aw_outstanding (sy_writer s') = aw_outstanding (sy_writer s)" "tracked s' = tracked s"
    and "sy_call s' = None \<or> sy_call s' = sy_call s \<and> aw_failed (sy_writer s') = aw_failed (sy_writer s)
      \<and> (\<forall>q. sy_work s' = Proposed q \<or> sy_work s' = Finished q None \<longrightarrow> sy_work s = sy_work s')"
    and "\<forall>q. sy_work s' = Finished q None \<longrightarrow> sy_work s = sy_work s'" "sy_applied s' = sy_applied s"
  shows "async_inv cd wr marshal s'"
proof -
  have nn: "numbered (sy_writer s') = numbered (sy_writer s)" by (simp add: numbered_def fun_eq_iff w)
  have "queue_ok s'" using inv assms(8,9) by (auto simp: async_inv_def queue_ok_def Let_def w nn)
  moreover have "call_ok s'" using inv assms(7,9) unfolding async_inv_def call_ok_def w by (metis option.distinct(1))
  ultimately show ?thesis using assms(2) by (simp add: async_inv_def content_ok_def)
qed

text \<open>Steps of the worker that leave the node and the view alone.\<close>

lemma same_view_inv:
  assumes inv: "async_inv cd wr marshal s" and "tracked s' = tracked s" "pending s' = pending s"
    and f: "sy_writer s' = (sy_writer s)\<lparr>aw_queue := q\<rparr>" "sy_call s' = sy_call s" "sy_applied s' = sy_applied s"
      "sy_node s' = sy_node s" "usable s' = usable s"
    and w: "\<And>x. sy_work s' = Proposed x \<or> sy_work s' = Finished x None \<Longrightarrow> \<not> aw_failed (sy_writer s)"
      "\<And>x. sy_work s' \<noteq> Finished x None"
  shows "async_inv cd wr marshal s'"
proof -
  have ex: "expected s' = expected s" by (rule expected_cong) (simp_all add: f)
  have nn: "numbered (sy_writer s') = numbered (sy_writer s)" by (simp add: numbered_def fun_eq_iff f)
  have "queue_ok s'" using inv w(2) unfolding queue_ok_def Let_def nn assms(2) by (simp add: async_inv_def queue_ok_def Let_def f)
  moreover have "call_ok s'" using inv w unfolding call_ok_def assms(2) by (simp add: async_inv_def call_ok_def f)
  moreover have "content_ok cd wr marshal s'" using inv
    unfolding content_ok_def ex assms(3) f(5) by (simp add: async_inv_def content_ok_def f)
  ultimately show ?thesis by (simp add: async_inv_def)
qed

lemma start_inv:
  assumes wire: "faithful_wire wr marshal" and inv: "async_inv cd wr marshal s" and c: "sy_call s = None"
    and v: "validateTransaction (cd_raw cd) t = None" "ce_ctx ce = None"
    and st: "commit_begin cd wr marshal ce (sy_node s) t (sy_writer s) = (r, w')"
    and le: "aw_term (sy_writer s) \<le> mo_term (en_start (ce_ensure ce))"
  shows "async_inv cd wr marshal (s\<lparr>sy_writer := w', sy_foreign := sy_foreign s \<and> \<not> rebuilds (ce_ensure ce) (sy_writer s),
      sy_call := (case r of Inr (False, p, pv) \<Rightarrow> Some (p, pv, None) | _ \<Rightarrow> None)\<rparr>)"
proof -
  obtain e w1 where e: "ensure (ce_ensure ce) (sy_node s) (sy_writer s) = (e, w1)" by fastforce
  let ?s1 = "s\<lparr>sy_writer := w1, sy_foreign := sy_foreign s \<and> \<not> rebuilds (ce_ensure ce) (sy_writer s)\<rparr>"
  have inv1: "async_inv cd wr marshal ?s1" by (rule ensure_inv[OF inv e le])
  show ?thesis
  proof (cases e)
    case (Some x)
    then have "r = Inl x" "w' = w1" using st e v by (simp_all add: commit_begin_def)
    moreover have "?s1\<lparr>sy_call := None\<rparr> = ?s1" using c by simp
    ultimately show ?thesis using inv1 by simp
  next
    case None
    then have p: "propose cd wr marshal ce t (sy_writer ?s1) = (r, w')" using st e v by (simp add: commit_begin_def)
    have "\<not> aw_failed (sy_writer ?s1)" using ensure_ready[OF e[unfolded None]] by simp
    then have i: "async_inv cd wr marshal (?s1\<lparr>sy_writer := w', sy_call := (case r of Inr (False, p, pv) \<Rightarrow> Some (p, pv, None) | _ \<Rightarrow> None)\<rparr>)"
      using propose_inv[OF wire inv1 _ _ p] c by simp
    have eq: "?s1\<lparr>sy_writer := w', sy_call := x\<rparr> = s\<lparr>sy_writer := w',
        sy_foreign := sy_foreign s \<and> \<not> rebuilds (ce_ensure ce) (sy_writer s), sy_call := x\<rparr>" for x
      by (rule system.equality) simp_all
    show ?thesis using i unfolding eq .
  qed
qed

lemma beat_writer:
  "heartbeat m1 e m2 (lt, w) = (tr, lt', w') \<Longrightarrow>
    w' = w \<or> w' = w\<lparr>aw_lease := lease_from (mo_now m1), aw_leaseTerm := mo_term m1\<rparr>"
  by (auto simp: heartbeat_def split: if_splits)

lemma async_step_inv:
  assumes "faithful_wire wr marshal" "async_step cd wr marshal s s'" "async_inv cd wr marshal s"
  shows "async_inv cd wr marshal s'"
  using assms(2,3)
proof cases
  case (beat m1 e m2 lt tr lt' w')
  then show ?thesis using beat_writer[OF beat(2)] async_inv_lease assms(3) by auto
next
  case (foreign n')
  show ?thesis by (rule unusable_inv[OF assms(3)]) (simp_all add: foreign usable_def tracked_def)
next
  case (ready e r w')
  then show ?thesis using ensure_inv assms(3) by blast
next
  case (start t ce r w')
  then show ?thesis using start_inv[OF assms(1,3)] by blast
next
  case (take p q m)
  then have f: "sy_writer s' = (sy_writer s)\<lparr>aw_queue := q\<rparr>" "sy_call s' = sy_call s"
      "sy_foreign s' = sy_foreign s" "sy_applied s' = sy_applied s" "sy_node s' = sy_node s"
    and wk: "sy_work s' = (if proposal_valid m p (sy_writer s) then Proposed p else Finished p (Some KvErrNotLeader))"
    by simp_all
  have "tracked s' = tracked s" "pending s' = pending s"
    using wk by (auto simp: tracked_def pending_def f take(2,3))
  moreover have "\<not> aw_failed (sy_writer s)" if "sy_work s' = Proposed x \<or> sy_work s' = Finished x None" for x
    using that wk by (auto simp: proposal_valid_def split: if_splits)
  ultimately show ?thesis using wk by (intro same_view_inv[OF assms(3)]) (auto simp: f usable_def split: if_splits)
next
  case (logged p data i tm r n')
  then show ?thesis using logged_inv[OF assms(1,3)] by blast
next
  case (unlogged p e)
  then show ?thesis
    by (intro same_view_inv[where q = "aw_queue (sy_writer s)", OF assms(3)]) (auto simp: usable_def tracked_def pending_def)
next
  case (settled p r deleted e w')
  then show ?thesis using settled_inv[OF assms(3)] by blast
next
  case (finish p pv e m r w')
  then show ?thesis using finish_inv[OF assms(3)] by blast
next
  case (cancel p pv d e r w')
  then show ?thesis
    by (intro unusable_inv[OF assms(3)]) (auto simp: commit_finish_def usable_def tracked_def)
next
  case (stopped p pv d r w')
  then show ?thesis
    by (intro unusable_inv[OF assms(3)]) (auto simp: commit_finish_def usable_def tracked_def)
qed

lemma async_reachable_inv:
  assumes "faithful_wire wr marshal" "async_reachable cd wr marshal s"
  shows "async_inv cd wr marshal s"
proof -
  from assms(2) obtain node journal where "(async_step cd wr marshal)\<^sup>*\<^sup>* (started node journal) s"
    by (auto simp: async_reachable_def)
  then show ?thesis
    by (induction rule: rtranclp_induct) (auto intro: async_inv_started async_step_inv[OF assms(1)])
qed

text \<open>The preview of the waiting commit is its transaction on the view.\<close>

lemma propose_preview:
  assumes "faithful_wire wr marshal" "aw_term w \<le> 0xffffffff" "propose cd wr marshal ce t w = (Inr (lcl, p, pv), w')"
  shows "leads_to (cd_raw cd) wr marshal (aw_view w) [p] pv"
  using assms(3)
proof (rule propose_Inr)
  fix data
  assume p: "p = \<lparr>pr_command = t\<lparr>t_Revision := revision_number (aw_term w) (aw_sequence w + 1)\<rparr>, pr_term = aw_term w\<rparr>"
    and d: "marshal (pr_command p) = Some data" and n: "aw_sequence w < 0xffffffff"
    and a: "Apply (cd_raw cd) wr (fork (aw_view w)) \<lparr>l_Index = t_Revision (pr_command p), l_Term = aw_term w, l_Data = data\<rparr> = (None, pv)"
  have "t_Revision (pr_command p) \<noteq> 0" using revision_nonzero[OF assms(2) word_next(2,3)[OF n]] by (simp add: p)
  moreover have "leads_to (cd_raw cd) wr marshal (fork (aw_view w)) [p] pv" using a d by (simp add: leads_to_Cons) (simp add: p)
  ultimately show ?thesis
    using leads_to_content[OF assms(1), of "[p]" "fork (aw_view w)" "aw_view w" pv pv] by simp
qed

lemma preview_step:
  assumes wire: "faithful_wire wr marshal" and st: "async_step cd wr marshal s s'" and inv: "async_inv cd wr marshal s"
    and pv: "preview_ok cd wr marshal s"
  shows "preview_ok cd wr marshal s'"
  using st
proof cases
  case (beat m1 e m2 lt tr lt' w')
  then show ?thesis using beat_writer[OF beat(2)] pv by (auto simp: preview_ok_def)
next
  case (ready e r w')
  show ?thesis
  proof (cases "rebuilds e (sy_writer s)")
    case True
    have "w' = rebased e (sy_node s) (sy_writer s)" using ensure_rebuilds[OF True, of "sy_node s"] ready(2) by simp
    moreover have "d \<noteq> None \<and> (d = Some None \<longrightarrow> pr_term p \<noteq> mo_term (en_start e))" if "sy_call s = Some (p, v, d)" for p v d
      using inv that True ready(3) by (auto simp: async_inv_def call_ok_def rebuilds_def queue_ok_def Let_def)
    ultimately show ?thesis using ready(1) unfolding preview_ok_def by auto
  next
    case False
    then show ?thesis using ensure_keeps[OF False, of "sy_node s"] ready(1,2) pv by (auto simp: preview_ok_def)
  qed
next
  case (start t ce r w')
  show ?thesis
  proof (cases "\<exists>p v. r = Inr (False, p, v)")
    case True
    then obtain p v where r: "r = Inr (False, p, v)" by blast
    obtain w1 where e: "ensure (ce_ensure ce) (sy_node s) (sy_writer s) = (None, w1)"
      and pr: "propose cd wr marshal ce t w1 = (r, w')"
      using start(3-5) r by (auto simp: commit_begin_def split: prod.splits option.splits)
    have "aw_term w1 \<le> 0xffffffff"
      using ensure_inv[OF inv e start(6)] by (simp add: async_inv_def queue_ok_def Let_def)
    then have "leads_to (cd_raw cd) wr marshal (aw_view w1) [p] v" using propose_preview[OF wire] pr r by blast
    moreover have "aw_view w' = aw_view w1" using pr r by (auto elim: propose_Inr)
    ultimately show ?thesis using start(1) r by (simp add: preview_ok_def)
  next
    case False
    then show ?thesis using start(1) by (auto simp: preview_ok_def split: sum.splits prod.splits bool.splits)
  qed
next
  case (settled p r deleted e w')
  note f = settle_fields[OF settled(3)]
  have "p \<in> set (tracked s)" by (simp add: tracked_def settled(2))
  then have "d = None" if "sy_call s = Some (p, v, d)" for v d
    using inv that by (auto simp: async_inv_def call_ok_def)
  then show ?thesis using pv settled(1) unfolding preview_ok_def
    by (auto simp: f deliver_def split: option.splits prod.splits if_splits)
qed (use pv in \<open>auto simp: preview_ok_def\<close>)

lemma async_reachable_preview:
  assumes "faithful_wire wr marshal" "async_reachable cd wr marshal s"
  shows "preview_ok cd wr marshal s"
proof -
  from assms(2) obtain node journal where "(async_step cd wr marshal)\<^sup>*\<^sup>* (started node journal) s"
    by (auto simp: async_reachable_def)
  then have "async_inv cd wr marshal s \<and> preview_ok cd wr marshal s"
  proof (induction rule: rtranclp_induct)
    case base
    have "sy_call (started node journal) = None" by (simp add: started_def)
    then show ?case by (simp add: async_inv_started preview_ok_def)
  next
    case (step y z)
    then show ?case using async_step_inv[OF assms(1)] preview_step[OF assms(1)] by blast
  qed
  then show ?thesis ..
qed

section \<open>What a leader serves\<close>

text \<open>
  The hypothesis on Raft: as long as a node leads the term for which its view was built, its log moves
  only by the entries it proposes itself (one leader per term, and the barrier of \<open>ensure\<close> has applied the
  entries of earlier terms).
\<close>

definition own_reign :: "('c, 'v) system \<Rightarrow> moment \<Rightarrow> bool" where
  "own_reign s m \<longleftrightarrow> (mo_leader m \<and> mo_term m = aw_term (sy_writer s) \<longrightarrow> \<not> sy_foreign s)"

lemma read_view:
  assumes "readSnapshot now e later ctx node keys st w = (Inr (m, stamp), w')"
  shows "m = copyRecords (s_records (aw_view w')) keys" "\<not> aw_failed w'" "authoritative w' later"
    "w' = w \<and> aw_term w = mo_term now \<and> authoritative w now \<or> ensure e node w = (None, w')"
  using assms unfolding readSnapshot_def
  by (auto simp: read_state_def split: if_splits option.splits prod.splits)

lemma view_after_pending:
  assumes inv: "async_inv cd wr marshal s" "preview_ok cd wr marshal s" and "usable s"
  shows "\<exists>d. drain (cd_raw cd) wr marshal (sy_node s) (pending s) = Some d
    \<and> (same_content d (aw_view (sy_writer s))
       \<or> (\<exists>p pv r. sy_call s = Some (p, pv, r) \<and> r \<in> {None, Some None} \<and> leads_to (cd_raw cd) wr marshal (aw_view (sy_writer s)) [p] d))"
proof -
  have "leads_to (cd_raw cd) wr marshal (sy_node s) (pending s) (expected s)"
    using inv(1) assms(3) by (simp add: async_inv_def content_ok_def)
  then obtain d where d: "drain (cd_raw cd) wr marshal (sy_node s) (pending s) = Some d" "same_content d (expected s)"
    by (auto simp: leads_to_def split: option.splits)
  show ?thesis
  proof (cases "expected s = aw_view (sy_writer s)")
    case True
    then show ?thesis using d by auto
  next
    case False
    then obtain p pv r where c: "sy_call s = Some (p, pv, r)" "r = None \<or> r = Some None" "pr_term p = aw_term (sy_writer s)"
      and ex: "expected s = pv"
      by (auto simp: expected_def split: option.splits prod.splits if_splits)
    then have l: "leads_to (cd_raw cd) wr marshal (aw_view (sy_writer s)) [p] pv" using inv(2) by (auto simp: preview_ok_def)
    then have "leads_to (cd_raw cd) wr marshal (aw_view (sy_writer s)) [p] d"
      using d(2) unfolding ex leads_to_def by (auto simp: same_content_def split: option.splits)
    then show ?thesis using d(1) c by blast
  qed
qed

end
