(* ===== verification/Async_Stamps.thy ===== *)
theory Async_Stamps
  imports Async_Safety
begin

text \<open>
  The stamps of snapshot reads. A transaction that reads the speculative view several times compares the
  term and the index of the view; equal stamps mean that the view has the same records, however many
  entries, failures and rebuilt views lie between the reads.
\<close>

section \<open>How the view moves\<close>

text \<open>The steps of the writer, reduced to what they do to the view, its numbering and the node.\<close>

definition live :: "err option option \<Rightarrow> bool" where
  "live d \<longleftrightarrow> d = None \<or> d = Some None"

inductive advance :: "('c, 'v) system \<Rightarrow> ('c, 'v) system \<Rightarrow> bool" where
  quiet: "aw_view (sy_writer s') = aw_view (sy_writer s) \<Longrightarrow> aw_term (sy_writer s') = aw_term (sy_writer s) \<Longrightarrow>
    aw_sequence (sy_writer s') = aw_sequence (sy_writer s)
      \<or> aw_sequence (sy_writer s) < 0xffffffff \<and> aw_sequence (sy_writer s') = aw_sequence (sy_writer s) + 1 \<Longrightarrow>
    sy_node s' = sy_node s \<or> s_index (sy_node s) < s_index (sy_node s') \<and> s_index (sy_node s') \<le> 0xffffffff \<Longrightarrow>
    (\<And>p pv d'. sy_call s' = Some (p, pv, d') \<Longrightarrow> live d' \<Longrightarrow> \<exists>d. sy_call s = Some (p, pv, d) \<and> live d) \<Longrightarrow> advance s s'"
| rebuilt: "aw_view (sy_writer s') = (fork (sy_node s))\<lparr>s_index := s_index (sy_node s)\<rparr> \<Longrightarrow>
    aw_term (sy_writer s) \<le> aw_term (sy_writer s') \<Longrightarrow> aw_term (sy_writer s') \<le> 0xffffffff \<Longrightarrow>
    aw_sequence (sy_writer s') = aw_sequence (sy_writer s)
      \<or> aw_term (sy_writer s') \<noteq> aw_term (sy_writer s) \<and> aw_sequence (sy_writer s') = 0 \<Longrightarrow>
    sy_node s' = sy_node s \<Longrightarrow>
    (\<And>p pv d. sy_call s' = Some (p, pv, d) \<Longrightarrow> live d \<Longrightarrow> pr_term p \<noteq> aw_term (sy_writer s')) \<Longrightarrow> advance s s'"
| acknowledged: "aw_sequence (sy_writer s) < 0xffffffff \<Longrightarrow> aw_term (sy_writer s) \<le> 0xffffffff \<Longrightarrow>
    s_index (aw_view (sy_writer s')) = revision_number (aw_term (sy_writer s)) (aw_sequence (sy_writer s) + 1) \<Longrightarrow>
    aw_term (sy_writer s') = aw_term (sy_writer s) \<Longrightarrow> aw_sequence (sy_writer s') = aw_sequence (sy_writer s) + 1 \<Longrightarrow>
    sy_node s' = sy_node s \<Longrightarrow> sy_call s' = None \<Longrightarrow> advance s s'"
| queued: "aw_sequence (sy_writer s) < 0xffffffff \<Longrightarrow> aw_term (sy_writer s) \<le> 0xffffffff \<Longrightarrow>
    aw_view (sy_writer s') = aw_view (sy_writer s) \<Longrightarrow>
    aw_term (sy_writer s') = aw_term (sy_writer s) \<Longrightarrow> aw_sequence (sy_writer s') = aw_sequence (sy_writer s) + 1 \<Longrightarrow>
    sy_node s' = sy_node s \<Longrightarrow> sy_call s' = Some (p, pv, None) \<Longrightarrow>
    s_index pv = revision_number (aw_term (sy_writer s)) (aw_sequence (sy_writer s) + 1) \<Longrightarrow> advance s s'"
| finished: "sy_call s = Some (p, pv, d) \<Longrightarrow> live d \<Longrightarrow> pr_term p = aw_term (sy_writer s) \<Longrightarrow> aw_view (sy_writer s') = pv \<Longrightarrow>
    aw_term (sy_writer s') = aw_term (sy_writer s) \<Longrightarrow> aw_sequence (sy_writer s') = aw_sequence (sy_writer s) \<Longrightarrow>
    sy_node s' = sy_node s \<Longrightarrow> sy_call s' = None \<Longrightarrow> advance s s'"

lemma ensure_advance:
  assumes inv: "async_inv cd wr marshal s" and e: "ensure e (sy_node s) (sy_writer s) = (r, w')"
    and le: "aw_term (sy_writer s) \<le> mo_term (en_start e)"
  shows "advance s (s\<lparr>sy_writer := w', sy_foreign := b\<rparr>)"
proof (cases "rebuilds e (sy_writer s)")
  case True
  have w': "w' = rebased e (sy_node s) (sy_writer s)" using ensure_rebuilds[OF True, of "sy_node s"] e by simp
  have "d \<noteq> None \<and> (d = Some None \<longrightarrow> pr_term p \<noteq> mo_term (en_start e))" if "sy_call s = Some (p, v, d)" for p v d
    using inv that True le by (auto simp: async_inv_def call_ok_def rebuilds_def queue_ok_def Let_def)
  then show ?thesis using True le by (intro rebuilt) (auto simp: w' rebuilds_def live_def)
next
  case False
  have "w' = sy_writer s \<or> w' = (sy_writer s)\<lparr>aw_lease := lease_from (en_started e), aw_leaseTerm := mo_term (en_start e)\<rparr>"
    using ensure_keeps[OF False, of "sy_node s"] e by simp
  then show ?thesis by (intro quiet) auto
qed

lemma propose_advance:
  assumes inv: "async_inv cd wr marshal s" and c: "sy_call s = None" and p: "propose cd wr marshal ce t (sy_writer s) = (r, w')"
  shows "advance s (s\<lparr>sy_writer := w', sy_call := (case r of Inr (False, p, pv) \<Rightarrow> Some (p, pv, None) | _ \<Rightarrow> None)\<rparr>)"
proof (cases r)
  case (Inl e)
  note k = propose_Inl[OF p[unfolded Inl]]
  show ?thesis using k by (intro quiet) (auto simp: Inl)
next
  case (Inr x)
  obtain lcl q pv where x: "x = (lcl, q, pv)" by (cases x)
  have tm: "aw_term (sy_writer s) \<le> 0xffffffff" using inv by (simp add: async_inv_def queue_ok_def Let_def)
  from p[unfolded Inr x] show ?thesis
  proof (rule propose_Inr)
    fix data
    assume q: "q = \<lparr>pr_command = t\<lparr>t_Revision := revision_number (aw_term (sy_writer s)) (aw_sequence (sy_writer s) + 1)\<rparr>, pr_term = aw_term (sy_writer s)\<rparr>"
      and n: "aw_sequence (sy_writer s) < 0xffffffff"
      and a: "Apply (cd_raw cd) wr (fork (aw_view (sy_writer s))) \<lparr>l_Index = t_Revision (pr_command q), l_Term = aw_term (sy_writer s), l_Data = data\<rparr> = (None, pv)"
      and w': "w' = (sy_writer s)\<lparr>aw_sequence := aw_sequence (sy_writer s) + 1,
        aw_journal := fmupd (t_Revision (pr_command q)) data (aw_journal (sy_writer s)),
        aw_queue := aw_queue (sy_writer s) @ [q], aw_outstanding := aw_outstanding (sy_writer s) + 1,
        aw_view := (if lcl then pv else aw_view (sy_writer s))\<rparr>"
    have ix: "s_index pv = revision_number (aw_term (sy_writer s)) (aw_sequence (sy_writer s) + 1)"
      using a by (elim Apply_None) (simp add: apply_result_def q)
    show ?thesis
    proof (cases lcl)
      case True
      then show ?thesis using n tm ix by (intro acknowledged) (simp_all add: w' Inr x)
    next
      case False
      then show ?thesis using n tm ix by (intro queued) (simp_all add: w' Inr x)
    qed
  qed
qed

lemma Apply_index: "Apply ops wr s l = (r, s') \<Longrightarrow> s_index s' = l_Index l"
proof (cases r)
  case None
  then show "Apply ops wr s l = (r, s') \<Longrightarrow> s_index s' = l_Index l"
    by (auto simp: apply_result_def elim!: Apply_None)
next
  case (Some e)
  then show "Apply ops wr s l = (r, s') \<Longrightarrow> s_index s' = l_Index l" using Apply_error(1)[of ops wr s l e s'] by simp
qed

lemma step_advances:
  assumes st: "async_step cd wr marshal s s'" and inv: "async_inv cd wr marshal s"
  shows "advance\<^sup>*\<^sup>* s s'"
  using st
proof cases
  case (beat m1 e m2 lt tr lt' w')
  have "advance s s'" using beat_writer[OF beat(2)] beat(1) by (intro quiet) auto
  then show ?thesis by blast
next
  case (ready e r w')
  then show ?thesis using ensure_advance[OF inv] by blast
next
  case (start t ce r w')
  obtain e w1 where e: "ensure (ce_ensure ce) (sy_node s) (sy_writer s) = (e, w1)" by fastforce
  let ?s1 = "s\<lparr>sy_writer := w1, sy_foreign := sy_foreign s \<and> \<not> rebuilds (ce_ensure ce) (sy_writer s)\<rparr>"
  have i1: "async_inv cd wr marshal ?s1" by (rule ensure_inv[OF inv e start(6)])
  have a1: "advance s ?s1" by (rule ensure_advance[OF inv e start(6)])
  have "advance ?s1 s'"
  proof (cases e)
    case (Some x)
    then have "r = Inl x" "w' = w1" using start(3-5) e by (simp_all add: commit_begin_def)
    then show ?thesis using start(1) by (intro quiet) auto
  next
    case None
    then have p: "propose cd wr marshal ce t (sy_writer ?s1) = (r, w')" using start(3-5) e by (simp add: commit_begin_def)
    have eq: "?s1\<lparr>sy_writer := w', sy_call := x\<rparr> = s\<lparr>sy_writer := w',
        sy_foreign := sy_foreign s \<and> \<not> rebuilds (ce_ensure ce) (sy_writer s), sy_call := x\<rparr>" for x
      by (rule system.equality) simp_all
    show ?thesis using propose_advance[OF i1 _ p] start(2) unfolding eq start(1) by simp
  qed
  with a1 show ?thesis by simp
next
  case (logged p data i tm r n')
  have "advance s s'" using logged Apply_index[OF logged(6)] by (intro quiet) auto
  then show ?thesis by blast
next
  case (settled p r deleted e w')
  have "p \<in> set (tracked s)" by (simp add: tracked_def settled(2))
  then have "d = None" if "sy_call s = Some (p, v, d)" for v d
    using inv that by (auto simp: async_inv_def call_ok_def)
  then have "advance s s'" using settled(1) settle_fields[OF settled(3)]
    by (intro quiet) (auto simp: deliver_def live_def split: option.splits prod.splits if_splits)
  then show ?thesis by blast
next
  case (finish p pv e m r w')
  have "advance s s'"
  proof (cases "e = None \<and> r = None")
    case True
    then show ?thesis using finish(1-3)
      by (intro finished[of s p pv "Some e"]) (auto simp: commit_finish_def live_def split: if_splits)
  next
    case False
    then show ?thesis using finish(1-3) by (intro quiet) (auto simp: commit_finish_def split: option.splits if_splits)
  qed
  then show ?thesis by blast
next
  case (foreign n')
  have "advance s s'" using foreign by (intro quiet) auto
  then show ?thesis by blast
next
  case (take p q m)
  have "advance s s'" using take by (intro quiet) auto
  then show ?thesis by blast
next
  case (unlogged p e)
  have "advance s s'" using unlogged by (intro quiet) auto
  then show ?thesis by blast
next
  case (cancel p pv d e r w')
  have "advance s s'" using cancel by (intro quiet) (auto simp: commit_finish_def)
  then show ?thesis by blast
next
  case (stopped p pv d r w')
  have "advance s s'" using stopped by (intro quiet) (auto simp: commit_finish_def)
  then show ?thesis by blast
qed

section \<open>The index of the view\<close>

text \<open>An index in the lower half is a log position of the node, one above it a revision of the current term.\<close>

definition stamps_ok :: "('c, 'v) system \<Rightarrow> bool" where
  "stamps_ok s \<longleftrightarrow> (let w = sy_writer s; i = s_index (aw_view w); tm = aw_term w in
     s_index (sy_node s) \<le> 0xffffffff \<and> tm \<le> 0xffffffff \<and> aw_sequence w \<le> 0xffffffff
     \<and> (tm \<noteq> 0 \<longrightarrow>
         (i \<le> 0xffffffff \<longrightarrow> i \<le> s_index (sy_node s) \<and> (i = s_index (sy_node s) \<longrightarrow> s_records (aw_view w) = s_records (sy_node s)))
       \<and> (0xffffffff < i \<longrightarrow> (\<exists>n \<le> aw_sequence w. i = revision_number tm n))
       \<and> (\<forall>p pv d. sy_call s = Some (p, pv, d) \<longrightarrow> live d \<longrightarrow> pr_term p = tm \<longrightarrow>
            (\<exists>n \<le> aw_sequence w. s_index pv = revision_number tm n) \<and> (0xffffffff < i \<longrightarrow> i < s_index pv))))"

lemma next_revision:
  assumes "tm \<le> 0xffffffff" "n \<le> (m :: 64 word)" "m < 0xffffffff"
  shows "revision_number tm n < revision_number tm (m + 1)"
proof -
  have "n < m + 1" "m + 1 \<le> 0xffffffff" using assms(2) word_next[OF assms(3)] by simp_all
  then show ?thesis using revision_less(1)[OF assms(1), of n "m + 1"] by simp
qed

lemma sequence_grows:
  assumes "b = a \<or> a < 0xffffffff \<and> b = a + (1 :: 64 word)" "a \<le> 0xffffffff"
  shows "a \<le> b" "b \<le> 0xffffffff"
  using assms word_next[of a] by auto

lemma stamps_ok_started: "s_index node \<le> 0xffffffff \<Longrightarrow> stamps_ok (started node journal)"
  by (simp add: stamps_ok_def started_def newAsyncWriter_def)

lemma stamps_ok_quiet:
  assumes ok: "stamps_ok s"
    and v: "aw_view (sy_writer s') = aw_view (sy_writer s)" "aw_term (sy_writer s') = aw_term (sy_writer s)"
    and sq: "aw_sequence (sy_writer s') = aw_sequence (sy_writer s)
      \<or> aw_sequence (sy_writer s) < 0xffffffff \<and> aw_sequence (sy_writer s') = aw_sequence (sy_writer s) + 1"
    and n: "sy_node s' = sy_node s \<or> s_index (sy_node s) < s_index (sy_node s') \<and> s_index (sy_node s') \<le> 0xffffffff"
    and c: "\<And>p pv d'. sy_call s' = Some (p, pv, d') \<Longrightarrow> live d' \<Longrightarrow> \<exists>d. sy_call s = Some (p, pv, d) \<and> live d"
  shows "stamps_ok s'"
proof -
  have le: "aw_sequence (sy_writer s) \<le> aw_sequence (sy_writer s')" "aw_sequence (sy_writer s') \<le> 0xffffffff"
    using sequence_grows[OF sq] ok by (simp_all add: stamps_ok_def Let_def)
  have bound: "s_index (sy_node s') \<le> 0xffffffff" using n ok by (auto simp: stamps_ok_def Let_def)
  show ?thesis
    unfolding stamps_ok_def Let_def v
  proof (intro conjI impI allI)
    fix p pv d' assume t: "aw_term (sy_writer s) \<noteq> 0" and p: "sy_call s' = Some (p, pv, d')" "live d'" "pr_term p = aw_term (sy_writer s)"
    then have "(\<exists>n \<le> aw_sequence (sy_writer s). s_index pv = revision_number (aw_term (sy_writer s)) n)
      \<and> (0xffffffff < s_index (aw_view (sy_writer s)) \<longrightarrow> s_index (aw_view (sy_writer s)) < s_index pv)"
      using c[OF p(1,2)] ok unfolding stamps_ok_def Let_def by blast
    then show "\<exists>n \<le> aw_sequence (sy_writer s'). s_index pv = revision_number (aw_term (sy_writer s)) n"
      "0xffffffff < s_index (aw_view (sy_writer s)) \<Longrightarrow> s_index (aw_view (sy_writer s)) < s_index pv"
      using le(1) by (meson order_trans)+
  qed (use ok le bound n in \<open>auto simp: stamps_ok_def Let_def intro: order_trans less_imp_le\<close>)
qed

lemma advance_index:
  assumes "advance s s'" "stamps_ok s"
  shows "stamps_ok s'"
  using assms
proof cases
  case quiet
  then show ?thesis using stamps_ok_quiet[OF assms(2)] by blast
next
  case rebuilt
  then show ?thesis using assms(2) by (auto simp: stamps_ok_def Let_def)
next
  case acknowledged
  let ?n = "aw_sequence (sy_writer s) + 1"
  note nx = word_next[OF acknowledged(1)]
  have "aw_term (sy_writer s) \<noteq> 0 \<Longrightarrow> 0xffffffff < revision_number (aw_term (sy_writer s)) ?n"
    using revision_above[OF acknowledged(2) nx(2)] by (simp add: word_neq_0_conv)
  then show ?thesis using acknowledged assms(2) nx(2) by (auto simp: stamps_ok_def Let_def not_le)
next
  case (queued p pv)
  let ?n = "aw_sequence (sy_writer s) + 1"
  note nx = word_next[OF queued(1)]
  have "stamps_ok s" using assms(2) .
  then show ?thesis
    using queued nx next_revision[OF queued(2) _ queued(1)]
    unfolding stamps_ok_def Let_def by (auto intro: order_trans[OF _ less_imp_le[OF nx(1)]])
next
  case (finished p pv d)
  have "\<not> s_index pv \<le> 0xffffffff" if t: "aw_term (sy_writer s) \<noteq> 0"
  proof -
    obtain n where "n \<le> aw_sequence (sy_writer s)" "s_index pv = revision_number (aw_term (sy_writer s)) n"
      using assms(2) t finished(1-3) by (auto simp: stamps_ok_def Let_def)
    then show ?thesis using revision_above[of "aw_term (sy_writer s)" n] assms(2) t
      by (auto simp: stamps_ok_def Let_def word_neq_0_conv not_le)
  qed
  then show ?thesis using finished assms(2) unfolding stamps_ok_def Let_def by auto
qed

section \<open>Equal stamps\<close>

text \<open>What the moves between an earlier state \<open>s\<close> and a later one \<open>s'\<close> leave true. Within one term the view is
  either untouched, or has a later revision, or was taken from the node in between.\<close>

definition moved :: "('c, 'v) system \<Rightarrow> ('c, 'v) system \<Rightarrow> bool" where
  "moved s s' \<longleftrightarrow> (let v = aw_view (sy_writer s); v' = aw_view (sy_writer s'); tm = aw_term (sy_writer s) in
     tm \<le> aw_term (sy_writer s') \<and> s_index (sy_node s) \<le> s_index (sy_node s')
     \<and> (s_index (sy_node s') = s_index (sy_node s) \<longrightarrow> s_records (sy_node s') = s_records (sy_node s))
     \<and> (aw_term (sy_writer s') = tm \<longrightarrow>
          aw_sequence (sy_writer s) \<le> aw_sequence (sy_writer s')
        \<and> (v' = v
           \<or> 0xffffffff < s_index v' \<and> (0xffffffff < s_index v \<longrightarrow> s_index v < s_index v')
           \<or> s_index v' \<le> 0xffffffff \<and> s_index (sy_node s) \<le> s_index v'
               \<and> (s_index v' = s_index (sy_node s) \<longrightarrow> s_records v' = s_records (sy_node s)))
        \<and> (\<forall>p pv d. sy_call s' = Some (p, pv, d) \<longrightarrow> live d \<longrightarrow> pr_term p = tm \<longrightarrow>
             0xffffffff < s_index pv \<and> (0xffffffff < s_index v \<longrightarrow> s_index v < s_index pv))))"

lemma call_above:
  assumes "stamps_ok s" "aw_term (sy_writer s) \<noteq> 0" "sy_call s = Some (p, pv, d)" "live d" "pr_term p = aw_term (sy_writer s)"
  shows "0xffffffff < s_index pv"
proof -
  have tm: "aw_term (sy_writer s) \<le> 0xffffffff" "0 < aw_term (sy_writer s)" and sq: "aw_sequence (sy_writer s) \<le> 0xffffffff"
    using assms(1,2) by (simp_all add: stamps_ok_def Let_def word_neq_0_conv)
  obtain n where "n \<le> aw_sequence (sy_writer s)" "s_index pv = revision_number (aw_term (sy_writer s)) n"
    using assms by (auto simp: stamps_ok_def Let_def)
  then show ?thesis using revision_above[OF tm(1) order_trans[OF _ sq] tm(2)] by simp
qed

lemma moved_refl:
  assumes "stamps_ok s" "aw_term (sy_writer s) \<noteq> 0"
  shows "moved s s"
proof -
  have "s_index (aw_view (sy_writer s)) < s_index pv"
    if "0xffffffff < s_index (aw_view (sy_writer s))" "sy_call s = Some (p, pv, d)" "live d" "pr_term p = aw_term (sy_writer s)" for p pv d
    using assms that unfolding stamps_ok_def Let_def by blast
  with call_above[OF assms] show ?thesis by (simp add: moved_def Let_def)
qed

lemma moved_advance:
  assumes m: "moved s u" and a: "advance u u'" and ok: "stamps_ok s" "stamps_ok u" and t: "aw_term (sy_writer s) \<noteq> 0"
  shows "moved s u'"
proof -
  let ?v = "aw_view (sy_writer s)" and ?tm = "aw_term (sy_writer s)"
  have fresh: "0xffffffff < s_index ?v \<longrightarrow> s_index ?v < revision_number ?tm (aw_sequence (sy_writer u) + 1)"
      "0xffffffff < revision_number ?tm (aw_sequence (sy_writer u) + 1)"
    if "aw_term (sy_writer u) = ?tm" "aw_sequence (sy_writer u) < 0xffffffff"
  proof -
    have tm: "?tm \<le> 0xffffffff" "0 < ?tm" using ok(1) t by (simp_all add: stamps_ok_def Let_def word_neq_0_conv)
    have le: "aw_sequence (sy_writer s) \<le> aw_sequence (sy_writer u)" using m that(1) by (simp add: moved_def Let_def)
    show "0xffffffff < revision_number ?tm (aw_sequence (sy_writer u) + 1)"
      by (rule revision_above[OF tm(1) word_next(2)[OF that(2)] tm(2)])
    show "0xffffffff < s_index ?v \<longrightarrow> s_index ?v < revision_number ?tm (aw_sequence (sy_writer u) + 1)"
      using ok(1) t next_revision[OF tm(1) order_trans[OF _ le] that(2)] by (auto simp: stamps_ok_def Let_def)
  qed
  from a show ?thesis
  proof cases
    case quiet
    have sq: "aw_sequence (sy_writer u) \<le> aw_sequence (sy_writer u')"
      using sequence_grows(1)[OF quiet(3)] ok(2) by (simp add: stamps_ok_def Let_def)
    have mu: "?tm \<le> aw_term (sy_writer u)" "s_index (sy_node s) \<le> s_index (sy_node u)"
      "s_index (sy_node u) = s_index (sy_node s) \<longrightarrow> s_records (sy_node u) = s_records (sy_node s)"
      using m by (simp_all add: moved_def Let_def)
    have nd: "s_index (sy_node s) \<le> s_index (sy_node u')"
      "s_index (sy_node u') = s_index (sy_node s) \<longrightarrow> s_records (sy_node u') = s_records (sy_node s)"
      using quiet(4) mu(2,3) by auto
    have "aw_sequence (sy_writer s) \<le> aw_sequence (sy_writer u')" if "aw_term (sy_writer u) = ?tm"
      using m that sq unfolding moved_def Let_def by (metis order_trans)
    then show ?thesis using m mu(1) nd quiet(5) unfolding moved_def Let_def quiet(1,2) by (metis (no_types))
  next
    case rebuilt
    have nb: "s_index (sy_node u) \<le> 0xffffffff" using ok(2) by (simp add: stamps_ok_def Let_def)
    have n: "s_index (sy_node s) \<le> s_index (sy_node u)"
      "s_index (sy_node u) = s_index (sy_node s) \<longrightarrow> s_records (sy_node u) = s_records (sy_node s)" and t1: "?tm \<le> aw_term (sy_writer u)"
      using m by (simp_all add: moved_def Let_def)
    have "aw_sequence (sy_writer s) \<le> aw_sequence (sy_writer u')" if e: "aw_term (sy_writer u') = ?tm"
    proof -
      have "aw_term (sy_writer u) = ?tm" using t1 rebuilt(2) e by simp
      then show ?thesis using rebuilt(4) m e by (simp add: moved_def Let_def)
    qed
    then show ?thesis using n nb rebuilt(6) order_trans[OF t1 rebuilt(2)]
      unfolding moved_def Let_def by (simp add: rebuilt(1,5)) metis
  next
    case acknowledged
    then show ?thesis using m fresh word_next(1)[OF acknowledged(1)] unfolding moved_def Let_def by auto
  next
    case (queued p pv)
    then show ?thesis using m fresh word_next(1)[OF queued(1)] unfolding moved_def Let_def by auto
  next
    case (finished p pv d)
    then show ?thesis using m unfolding moved_def Let_def by auto
  qed
qed

lemma moved_equal_stamps:
  assumes "moved s s'" "stamps_ok s" "aw_term (sy_writer s) \<noteq> 0" "view_stamp (sy_writer s') = view_stamp (sy_writer s)"
  shows "s_records (aw_view (sy_writer s')) = s_records (aw_view (sy_writer s))"
proof -
  let ?v = "aw_view (sy_writer s)" and ?v' = "aw_view (sy_writer s')"
  have e: "aw_term (sy_writer s') = aw_term (sy_writer s)" "s_index ?v' = s_index ?v" using assms(4) by (simp_all add: view_stamp_def)
  consider "?v' = ?v" | "0xffffffff < s_index ?v'" "0xffffffff < s_index ?v \<longrightarrow> s_index ?v < s_index ?v'"
    | "s_index ?v' \<le> 0xffffffff" "s_index (sy_node s) \<le> s_index ?v'" "s_index ?v' = s_index (sy_node s) \<longrightarrow> s_records ?v' = s_records (sy_node s)"
    using assms(1) e(1) unfolding moved_def Let_def by blast
  then show ?thesis
  proof cases
    case 3
    then have "s_index ?v \<le> s_index (sy_node s)" "s_index ?v = s_index (sy_node s) \<longrightarrow> s_records ?v = s_records (sy_node s)"
      using assms(2,3) e(2) by (simp_all add: stamps_ok_def Let_def)
    then show ?thesis using 3 e(2) by simp
  qed (use e in auto)
qed

lemma advances_moved:
  assumes "advance\<^sup>*\<^sup>* u u'" "stamps_ok u"
  shows "stamps_ok u' \<and> (stamps_ok s \<longrightarrow> aw_term (sy_writer s) \<noteq> 0 \<longrightarrow> moved s u \<longrightarrow> moved s u')"
  using assms
proof (induction rule: rtranclp_induct)
  case (step y z)
  then show ?case using advance_index moved_advance by blast
qed simp

lemma stepped_moved:
  assumes "faithful_wire wr marshal" "async_step cd wr marshal u u'" "async_inv cd wr marshal u" "stamps_ok u" "moved s u"
    and "stamps_ok s" "aw_term (sy_writer s) \<noteq> 0"
  shows "async_inv cd wr marshal u' \<and> stamps_ok u' \<and> moved s u'"
  using async_step_inv[OF assms(1-3)] advances_moved[OF step_advances[OF assms(2,3)] assms(4)] assms(5-7) by blast

lemma stepped_index:
  assumes "(async_step cd wr marshal)\<^sup>*\<^sup>* s s'" "faithful_wire wr marshal" "async_inv cd wr marshal s" "stamps_ok s"
  shows "async_inv cd wr marshal s' \<and> stamps_ok s'"
  using assms(1)
proof (induction rule: rtranclp_induct)
  case base
  then show ?case using assms(3,4) by blast
next
  case (step y z)
  then show ?case using async_step_inv[OF assms(2)] advances_moved[OF step_advances] by blast
qed

end
