(* ===== verification/Async_Guarantees.thy ===== *)
theory Async_Guarantees
  imports Async_Stamps
begin

text \<open>
  The properties of the asynchronous writer, with a run of it as witness: a node becomes the leader of
  term 1, a session record is committed through the log, and a project is reserved with a local
  acknowledgement.
\<close>

section \<open>A run\<close>

definition aw_wire :: "(doc kv_transaction, doc) wire" where
  "aw_wire = \<lparr>data_len = (\<lambda>_. 100), decode_tx = Some, chain = (\<lambda>_ _. replicate 64 (CHR ''0''))\<rparr>"

definition aw_moment :: moment where
  "aw_moment = \<lparr>mo_fenced = False, mo_leader = True, mo_term = 1, mo_now = \<lparr>ck_mono = 5, ck_wall = 5\<rparr>\<rparr>"

definition aw_ensure :: ensure_env where
  "aw_ensure = \<lparr>en_start = aw_moment, en_barrier = None, en_started = \<lparr>ck_mono = 5, ck_wall = 5\<rparr>, en_verify = None,
     en_verified = aw_moment, en_journal = None, en_final = aw_moment\<rparr>"

definition aw_commit :: commit_env where
  "aw_commit = \<lparr>ce_ctx = None, ce_ensure = aw_ensure, ce_configuration = Inr [True, True], ce_journal = None, ce_after = aw_moment\<rparr>"

definition aw_tx :: "durability \<Rightarrow> string \<Rightarrow> doc \<Rightarrow> doc kv_transaction" where
  "aw_tx du k d = \<lparr>t_Schema = 1, t_Checks = [\<lparr>c_Key = k, c_Version = 0\<rparr>],
     t_Writes = [\<lparr>w_Key = k, w_Value = Some d, w_Delete = False\<rparr>], t_Durability = du, t_Revision = 0\<rparr>"

definition aw_session :: "doc kv_transaction" where "aw_session = aw_tx Replicated ''sessions/a'' (DText ''x'')"

definition aw_writer1 :: "(doc kv_transaction, doc) async_writer" where
  "aw_writer1 = \<lparr>aw_view = newState ''c'', aw_term = 1, aw_sequence = 0,
     aw_lease = \<lparr>ck_mono = 5 + authorityWindow, ck_wall = 5 + authorityWindow\<rparr>, aw_leaseTerm = 1, aw_failed = False,
     aw_outstanding = 0, aw_journal = fmempty, aw_queue = []\<rparr>"

definition aw_state1 :: "(doc kv_transaction, doc) system" where
  "aw_state1 = \<lparr>sy_node = newState ''c'', sy_writer = aw_writer1, sy_work = Idle, sy_call = None, sy_foreign = False, sy_applied = []\<rparr>"

lemma aw_wire_faithful: "faithful_wire aw_wire Some"
  by (simp add: faithful_wire_def aw_wire_def)

lemma aw_authority: "authoritative aw_writer1 aw_moment"
  by (simp add: authoritative_def aw_writer1_def aw_moment_def authorityTimeValid_def authorityWindow_def)

lemma aw_ensure1: "ensure aw_ensure (newState ''c'') (newAsyncWriter ''c'' fmempty) = (None, aw_writer1)"
  using aw_authority
  by (simp add: ensure_def aw_ensure_def aw_moment_def newAsyncWriter_def Let_def authorityWindow_def lease_from_def
      aw_writer1_def fork_def newState_def)

lemma aw_reach1: "async_reachable doc_codec aw_wire Some aw_state1"
proof -
  let ?s = "started (newState ''c'') fmempty :: (doc kv_transaction, doc) system"
  have e: "ensure aw_ensure (sy_node ?s) (sy_writer ?s) = (None, aw_writer1)" using aw_ensure1 by (simp add: started_def newState_def)
  have r: "rebuilds aw_ensure (sy_writer ?s)"
    by (simp add: rebuilds_def aw_ensure_def aw_moment_def started_def newAsyncWriter_def authorityWindow_def)
  have "async_step doc_codec aw_wire Some ?s (?s\<lparr>sy_writer := aw_writer1, sy_foreign := sy_foreign ?s \<and> \<not> rebuilds aw_ensure (sy_writer ?s)\<rparr>)"
    by (rule async_step.ready[OF e]) (simp add: started_def newAsyncWriter_def)
  moreover have "?s\<lparr>sy_writer := aw_writer1, sy_foreign := sy_foreign ?s \<and> \<not> rebuilds aw_ensure (sy_writer ?s)\<rparr> = aw_state1"
    using r by (simp add: started_def aw_state1_def)
  ultimately show ?thesis unfolding async_reachable_def
    by (metis newState_def r_into_rtranclp cstate.select_convs(4) word_zero_le)
qed

lemma aw_revision: "revision_number 1 1 = 4294967297"
  by (simp add: revision_number_def)

lemma aw_validate:
  "documentKey k \<Longrightarrow> Durability_Valid du \<Longrightarrow> validateTransaction (cd_raw doc_codec) ((aw_tx du k d)\<lparr>t_Revision := r\<rparr>) = None"
  by (simp add: validateTransaction_def aw_tx_def doc_codec_def maxChanges_def maxValue_def opt_len_def opt_valid_def)

lemma aw_apply:
  assumes "documentKey k" "length k \<le> 200" "Durability_Valid du" "s_records s = fmempty" "s_bytes s = 0"
  shows "fst (Apply (cd_raw doc_codec) aw_wire s \<lparr>l_Index = i, l_Term = 1, l_Data = (aw_tx du k d)\<lparr>t_Revision := revision_number 1 1\<rparr>\<rparr>) = None"
  using aw_validate[OF assms(1,3), where d = d and r = "revision_number 1 1"] assms(2,4,5)
  unfolding Apply_def Let_def
  by (simp add: aw_wire_def maxCommand_def aw_revision aw_tx_def version_of_def account_def fcard.rep_eq opt_len_def
      doc_codec_def maxRecords_def maxStateBytes_def)

definition aw_proposal :: "doc kv_transaction \<Rightarrow> doc proposal" where
  "aw_proposal t = \<lparr>pr_command = t\<lparr>t_Revision := revision_number 1 1\<rparr>, pr_term = 1\<rparr>"

definition aw_preview :: "doc kv_transaction \<Rightarrow> doc cstate" where
  "aw_preview t = snd (Apply (cd_raw doc_codec) aw_wire (fork (newState ''c''))
     \<lparr>l_Index = revision_number 1 1, l_Term = 1, l_Data = t\<lparr>t_Revision := revision_number 1 1\<rparr>\<rparr>)"

definition aw_writer2 :: "bool \<Rightarrow> doc kv_transaction \<Rightarrow> (doc kv_transaction, doc) async_writer" where
  "aw_writer2 lcl t = aw_writer1\<lparr>aw_sequence := 1, aw_journal := fmupd (revision_number 1 1) (t\<lparr>t_Revision := revision_number 1 1\<rparr>) fmempty,
     aw_queue := [aw_proposal t], aw_outstanding := 1, aw_view := (if lcl then aw_preview t else newState ''c'')\<rparr>"

lemma aw_propose:
  assumes "documentKey k" "length k \<le> 200" "Durability_Valid du" "t = aw_tx du k d" "localContentAllowed doc_codec t (newState ''c'') = lcl"
  shows "propose doc_codec aw_wire Some aw_commit t aw_writer1 = (Inr (lcl, aw_proposal t, aw_preview t), aw_writer2 lcl t)"
proof -
  let ?r = "Apply (cd_raw doc_codec) aw_wire (fork (newState ''c''))
     \<lparr>l_Index = revision_number 1 1, l_Term = 1, l_Data = t\<lparr>t_Revision := revision_number 1 1\<rparr>\<rparr>"
  have "fst ?r = None" unfolding assms(4) by (rule aw_apply[OF assms(1-3)]) (simp_all add: newState_def)
  then have r: "?r = (None, aw_preview t)" unfolding aw_preview_def by (metis prod.collapse)
  have c: "\<not> list_ex (\<lambda>c. version_of (s_records (newState ''c'' :: doc cstate)) (c_Key c) \<noteq> c_Version c) (t_Checks t)"
    by (simp add: assms(4) aw_tx_def newState_def version_of_def)
  have adm: "security_admitted (ce_configuration aw_commit) (t_Writes t) = None"
    by (simp add: security_admitted_def aw_commit_def)
  have au: "authoritative (aw_writer1\<lparr>aw_sequence := 1, aw_journal := j\<rparr>) (ce_after aw_commit)" for j
    using aw_authority by (simp add: authoritative_def aw_commit_def)
  have dl: "data_len aw_wire x = 100" for x by (simp add: aw_wire_def)
  have f: "aw_view aw_writer1 = newState ''c''" "aw_term aw_writer1 = 1" "aw_sequence aw_writer1 = 0" "aw_journal aw_writer1 = fmempty"
      "aw_queue aw_writer1 = []" "aw_outstanding aw_writer1 = 0"
    by (simp_all add: aw_writer1_def)
  show ?thesis unfolding propose_def
    using c adm au r by (simp add: f assms(5) Let_def dl maxCommand_def fcard.rep_eq maxPendingContent_def
        aw_proposal_def aw_writer2_def aw_commit_def)
qed

lemma aw_key: "documentKey ''sessions/a''" "documentKey ''projects/p''"
  by (simp_all add: documentKey_def cut_def char_class_defs)

abbreviation aw_p :: "doc proposal" where "aw_p \<equiv> aw_proposal aw_session"

definition aw_state2 :: "(doc kv_transaction, doc) system" where
  "aw_state2 = aw_state1\<lparr>sy_writer := aw_writer2 False aw_session, sy_call := Some (aw_p, aw_preview aw_session, None)\<rparr>"

definition aw_state3 :: "(doc kv_transaction, doc) system" where
  "aw_state3 = aw_state2\<lparr>sy_writer := (aw_writer2 False aw_session)\<lparr>aw_queue := []\<rparr>, sy_work := Proposed aw_p\<rparr>"

definition aw_node4 :: "doc cstate" where
  "aw_node4 = snd (Apply (cd_raw doc_codec) aw_wire (newState ''c'') \<lparr>l_Index = 1, l_Term = 1, l_Data = pr_command aw_p\<rparr>)"

definition aw_state4 :: "(doc kv_transaction, doc) system" where
  "aw_state4 = aw_state3\<lparr>sy_node := aw_node4, sy_work := Finished aw_p None, sy_applied := [aw_p]\<rparr>"

definition aw_writer5 :: "(doc kv_transaction, doc) async_writer" where
  "aw_writer5 = (aw_writer2 False aw_session)\<lparr>aw_queue := [], aw_outstanding := 0, aw_journal := fmempty\<rparr>"

definition aw_state5 :: "(doc kv_transaction, doc) system" where
  "aw_state5 = aw_state4\<lparr>sy_writer := aw_writer5, sy_work := Idle, sy_call := Some (aw_p, aw_preview aw_session, Some None)\<rparr>"

lemma aw_reach_step:
  assumes "async_reachable doc_codec aw_wire Some s" "async_step doc_codec aw_wire Some s s'"
  shows "async_reachable doc_codec aw_wire Some s'"
  using assms unfolding async_reachable_def by (meson rtranclp.rtrancl_into_rtrancl)

lemma aw_begin:
  "commit_begin doc_codec aw_wire Some aw_commit (newState ''c'') aw_session aw_writer1
     = (Inr (False, aw_p, aw_preview aw_session), aw_writer2 False aw_session)"
proof -
  have "aw_session\<lparr>t_Revision := 0\<rparr> = aw_session" by (simp add: aw_session_def aw_tx_def)
  then have v: "validateTransaction (cd_raw doc_codec) aw_session = None"
    using aw_validate[OF aw_key(1), where du = Replicated and d = "DText ''x''" and r = 0] by (simp add: aw_session_def Durability_Valid_def)
  have e: "ensure aw_ensure (newState ''c'') aw_writer1 = (None, aw_writer1)"
    using aw_authority by (simp add: ensure_def aw_ensure_def Let_def) (simp add: aw_moment_def aw_writer1_def)
  have l: "localContentAllowed doc_codec aw_session (newState ''c'') = False"
    by (simp add: localContentAllowed_def aw_session_def aw_tx_def)
  have "propose doc_codec aw_wire Some aw_commit aw_session aw_writer1 = (Inr (False, aw_p, aw_preview aw_session), aw_writer2 False aw_session)"
    by (rule aw_propose[OF aw_key(1) _ _ aw_session_def l]) (simp_all add: Durability_Valid_def)
  then show ?thesis using v e by (simp add: commit_begin_def aw_commit_def)
qed

lemma aw_reach2: "async_reachable doc_codec aw_wire Some aw_state2"
proof (rule aw_reach_step[OF aw_reach1])
  have v: "validateTransaction (cd_raw doc_codec) aw_session = None"
    using aw_begin by (auto simp: commit_begin_def split: option.splits)
  have b: "commit_begin doc_codec aw_wire Some aw_commit (sy_node aw_state1) aw_session (sy_writer aw_state1)
     = (Inr (False, aw_p, aw_preview aw_session), aw_writer2 False aw_session)" using aw_begin by (simp add: aw_state1_def)
  show "async_step doc_codec aw_wire Some aw_state1 aw_state2"
    using async_step.start[OF _ v _ b] by (simp add: aw_state2_def aw_commit_def aw_state1_def aw_writer1_def aw_ensure_def aw_moment_def)
qed

lemma aw_reach3: "async_reachable doc_codec aw_wire Some aw_state3"
proof (rule aw_reach_step[OF aw_reach2])
  have "proposal_valid aw_moment aw_p (sy_writer aw_state2)"
    using aw_authority by (simp add: proposal_valid_def aw_state2_def aw_writer2_def aw_proposal_def authoritative_def)
      (simp add: aw_writer1_def)
  then show "async_step doc_codec aw_wire Some aw_state2 aw_state3"
    using async_step.take[of aw_state2 aw_p "[]" doc_codec aw_wire Some aw_moment]
    by (simp add: aw_state3_def) (simp add: aw_state2_def aw_writer2_def aw_state1_def)
qed

lemma aw_logged: "Apply (cd_raw doc_codec) aw_wire (newState ''c'') \<lparr>l_Index = 1, l_Term = 1, l_Data = pr_command aw_p\<rparr> = (None, aw_node4)"
proof -
  have "fst (Apply (cd_raw doc_codec) aw_wire (newState ''c'') \<lparr>l_Index = 1, l_Term = 1, l_Data = pr_command aw_p\<rparr>) = None"
    unfolding aw_proposal_def aw_session_def proposal.select_convs
    by (rule aw_apply[OF aw_key(1)]) (simp_all add: Durability_Valid_def newState_def)
  then show ?thesis unfolding aw_node4_def by (metis prod.collapse)
qed

lemma aw_reach4: "async_reachable doc_codec aw_wire Some aw_state4"
proof (rule aw_reach_step[OF aw_reach3])
  have w: "sy_work aw_state3 = Proposed aw_p" by (simp add: aw_state3_def)
  have a: "Apply (cd_raw doc_codec) aw_wire (sy_node aw_state3) \<lparr>l_Index = 1, l_Term = 1, l_Data = pr_command aw_p\<rparr> = (None, aw_node4)"
    using aw_logged by (simp add: aw_state3_def aw_state2_def aw_state1_def)
  show "async_step doc_codec aw_wire Some aw_state3 aw_state4"
    using async_step.logged[where marshal = Some, OF w refl _ _ a]
    by (simp add: aw_state4_def aw_state3_def aw_state2_def aw_state1_def newState_def)
qed

lemma aw_reach5: "async_reachable doc_codec aw_wire Some aw_state5"
proof (rule aw_reach_step[OF aw_reach4])
  have w: "sy_work aw_state4 = Finished aw_p None" by (simp add: aw_state4_def)
  have dr: "fmdrop x (fmupd x y fmempty) = fmempty" for x :: "64 word" and y :: "doc kv_transaction" by (rule fmap_ext) simp
  have st: "settle aw_p None None (sy_writer aw_state4) = (None, aw_writer5)"
    by (simp add: settle_def aw_state4_def aw_state3_def aw_writer5_def aw_writer2_def aw_writer1_def aw_proposal_def Let_def dr)
  show "async_step doc_codec aw_wire Some aw_state4 aw_state5"
    using async_step.settled[OF w st] by (simp add: aw_state5_def aw_state4_def aw_state3_def aw_state2_def deliver_def)
qed

section \<open>Properties\<close>



text \<open>
  C9. The preflight keeps its promise. As long as the writer has not failed and no other leader has
  written, the state machine of the node accepts every entry that the worker proposes, under the term of
  its proposal and at whatever log position: no capacity error, conflict or invalid revision can follow
  a local acknowledgement.
\<close>

theorem proposed_entries_accepted:
  assumes "faithful_wire wr marshal" "async_reachable cd wr marshal s"
    and "\<not> aw_failed (sy_writer s)" "\<not> sy_foreign s" "sy_work s = Proposed p"
  shows "\<exists>data. marshal (pr_command p) = Some data
    \<and> fst (Apply (cd_raw cd) wr (sy_node s) \<lparr>l_Index = i, l_Term = pr_term p, l_Data = data\<rparr>) = None"
proof -
  have inv: "async_inv cd wr marshal s" by (rule async_reachable_inv[OF assms(1,2)])
  then have "leads_to (cd_raw cd) wr marshal (sy_node s) (p # aw_queue (sy_writer s)) (expected s)"
    using assms(3-5) by (simp add: async_inv_def content_ok_def usable_def pending_def)
  then obtain data u where d: "marshal (pr_command p) = Some data"
    and a: "Apply (cd_raw cd) wr (sy_node s) \<lparr>l_Index = t_Revision (pr_command p), l_Term = pr_term p, l_Data = data\<rparr> = (None, u)"
    by (auto simp: leads_to_Cons)
  have "t_Revision (pr_command p) \<noteq> 0"
    by (rule numbered_nonzero[of "sy_writer s"]) (use inv in \<open>simp_all add: async_inv_def queue_ok_def Let_def tracked_def assms(5)\<close>)
  moreover have "decode_tx wr data = Some (pr_command p)" using assms(1) d by (simp add: faithful_wire_def)
  ultimately have "fst (Apply (cd_raw cd) wr (sy_node s) \<lparr>l_Index = i, l_Term = pr_term p, l_Data = data\<rparr>) = None"
    using Apply_content[of "sy_node s" "sy_node s" wr "\<lparr>l_Index = t_Revision (pr_command p), l_Term = pr_term p, l_Data = data\<rparr>"
        "pr_command p" "\<lparr>l_Index = i, l_Term = pr_term p, l_Data = data\<rparr>" "cd_raw cd"] a by simp
  with d show ?thesis by blast
qed

theorem proposed_entries_accepted_witness:
  "\<exists>data. Some (pr_command aw_p) = Some data
    \<and> fst (Apply (cd_raw doc_codec) aw_wire (newState ''c'') \<lparr>l_Index = 77, l_Term = 1, l_Data = data\<rparr>) = None"
proof -
  have f: "sy_work aw_state3 = Proposed aw_p" "\<not> sy_foreign aw_state3" "sy_node aw_state3 = newState ''c''" "pr_term aw_p = 1"
    "\<not> aw_failed (sy_writer aw_state3)"
    by (simp_all add: aw_state3_def aw_state2_def aw_state1_def aw_writer2_def aw_writer1_def aw_proposal_def)
  from proposed_entries_accepted[OF aw_wire_faithful aw_reach3 f(5,2,1), of 77] show ?thesis by (simp add: f)
qed

text \<open>
  C6. Security changes are acknowledged only when committed. A commit that may not be acknowledged locally
  returns success only after the node has applied its log entry without error; and if the node still
  leads the term of its view, the view it serves from then on has exactly the content of the node.
\<close>

theorem acknowledged_after_commit:
  assumes "faithful_wire wr marshal" "async_reachable cd wr marshal s"
    and c: "sy_call s = Some (p, pv, Some e)" and f: "commit_finish p pv (Settled e m) (sy_writer s) = (None, w')"
  shows "p \<in> set (sy_applied s)
    \<and> (own_reign s m \<longrightarrow> mo_term m = aw_term (sy_writer s) \<longrightarrow> same_content (sy_node s) (aw_view w'))"
proof -
  have inv: "async_inv cd wr marshal s" by (rule async_reachable_inv[OF assms(1,2)])
  have e: "e = None" and au: "authoritative (sy_writer s) m" "aw_term (sy_writer s) = pr_term p" "\<not> aw_failed (sy_writer s)"
    and w': "aw_view w' = pv"
    using f by (auto simp: commit_finish_def split: option.splits if_splits)
  have ap: "p \<in> set (sy_applied s)" and tr: "tracked s = []" using inv c e au(2) by (auto simp: async_inv_def call_ok_def)
  have "same_content (sy_node s) pv" if "own_reign s m" "mo_term m = aw_term (sy_writer s)"
  proof -
    have "usable s" using that au by (simp add: own_reign_def usable_def authoritative_def)
    moreover have "expected s = pv" using c e au(2) by (simp add: expected_def)
    ultimately show ?thesis using inv tracked_empty[OF tr] by (simp add: async_inv_def content_ok_def)
  qed
  then show ?thesis using ap w' by simp
qed

theorem acknowledged_after_commit_witness:
  "aw_p \<in> set (sy_applied aw_state5) \<and> same_content aw_node4 (aw_preview aw_session)"
proof -
  have f: "sy_call aw_state5 = Some (aw_p, aw_preview aw_session, Some None)" "sy_writer aw_state5 = aw_writer5" "sy_node aw_state5 = aw_node4"
    "\<not> sy_foreign aw_state5" by (simp_all add: aw_state5_def aw_state4_def aw_state3_def aw_state2_def aw_state1_def)
  have w: "aw_term aw_writer5 = 1" "\<not> aw_failed aw_writer5" "pr_term aw_p = 1"
    by (simp_all add: aw_writer5_def aw_writer2_def aw_writer1_def aw_proposal_def)
  have "authoritative aw_writer5 aw_moment" using aw_authority by (simp add: authoritative_def aw_writer5_def aw_writer2_def)
  then have "commit_finish aw_p (aw_preview aw_session) (Settled None aw_moment) (sy_writer aw_state5)
      = (None, aw_writer5\<lparr>aw_view := aw_preview aw_session\<rparr>)"
    by (simp add: commit_finish_def f w)
  from acknowledged_after_commit[OF aw_wire_faithful aw_reach5 f(1) this]
  show ?thesis by (simp add: f w own_reign_def aw_moment_def)
qed

text \<open>What a locally acknowledged transaction may do to a record: the fields of a project that decide who may
  see or change it.\<close>

definition policy_fields :: "project \<Rightarrow> owner \<times> string \<times> bool \<times> string \<times> int \<times> int" where
  "policy_fields p = (p_Owner p, p_Slug p, p_Private p, p_PasswordDigest p, p_PasswordRevision p, p_PolicyRevision p)"

definition content_collections :: "string list" where
  "content_collections = [''operations'', ''digests'', ''slugs'', ''quotas'', ''owner_projects'']"

lemma content_only_fields:
  "contentOnlyProjectChange old next \<Longrightarrow> policy_fields next = policy_fields old \<and> p_Status next \<noteq> ''deleted''"
  by (auto simp: contentOnlyProjectChange_def Let_def split: if_splits dest!: arg_cong[where f = policy_fields])
    (simp_all add: policy_fields_def)

lemma local_write:
  assumes "write_local cd m ws w" "write_ok (cd_raw cd) w"
  shows "collection_of (w_Key w) \<in> set content_collections \<or> has_prefix (collection_of (w_Key w)) ''versions_''
    \<or> (\<exists>v next. written ver w = Some \<lparr>r_Version = ver, r_Value = v\<rparr> \<and> Decode cd asProject v = Inr next \<and> w_Key w = ''projects/'' @ p_ID next
        \<and> (if version_of m (w_Key w) = 0 then creation_only next
           else (\<exists>r old. fmlookup m (w_Key w) = Some r \<and> Decode cd asProject (r_Value r) = Inr old \<and> contentOnlyProjectChange old next)))"
proof (cases "collection_of (w_Key w) = ''projects''")
  case True
  then have "\<not> w_Delete w" "project_write_local cd m w" using assms(1) by (auto simp: write_local_def Let_def split: if_splits)
  then show ?thesis
    by (auto simp: project_write_local_def written_def ContentOnlyChange_def bind_eq_Some_conv version_of_def
        split: option.splits sum.splits if_splits)
next
  case False
  then show ?thesis using assms(1) by (auto simp: write_local_def Let_def content_collections_def split: if_splits)
qed


definition aw_project :: project where
  "aw_project = zero_project\<lparr>p_ID := ''p'', p_Status := ''reserved'', p_PolicyRevision := 1\<rparr>"

definition aw_reserve :: "doc kv_transaction" where "aw_reserve = aw_tx Local ''projects/p'' (DProject aw_project)"

lemma aw_reserve_local: "localContentAllowed doc_codec aw_reserve (newState ''c'') = True"
  by (simp add: localContentAllowed_def aw_reserve_def aw_tx_def write_local_def collection_of_def cut_def
      project_write_local_def Decode_def doc_codec_def asProject_def newState_def version_of_def ContentOnlyChange_def
      creation_only_def aw_project_def zero_project_def)


text \<open>
  C8. Equal stamps, equal records. A transaction reads the view of a leader several times and hands the
  stamp of its first read to the later ones. If such a later read succeeds, then both reads answer from
  the same records, whatever entries, failures, elections and rebuilt views lie between them: a revision
  is used once, and within one term a view rebuilt at the same log position has the same content. Log
  positions below \<open>2 ^ 32\<close> are part of the step relation.
\<close>

theorem equal_stamps_equal_records:
  assumes "faithful_wire wr marshal" "async_reachable cd wr marshal s1" "(async_step cd wr marshal)\<^sup>*\<^sup>* s1 s2"
    and r1: "readSnapshot now1 e1 later1 ctx1 n1 keys1 None w1 = (Inr (m1, st), sy_writer s1)"
    and r2: "readSnapshot now2 e2 later2 ctx2 n2 keys2 (Some st) w2 = (Inr (m2, st2), sy_writer s2)"
    and "aw_term (sy_writer s1) \<noteq> 0"
  shows "st2 = st \<and> (\<exists>recs. m1 = copyRecords recs keys1 \<and> m2 = copyRecords recs keys2)"
proof -
  obtain node journal where n: "s_index node \<le> 0xffffffff" "(async_step cd wr marshal)\<^sup>*\<^sup>* (started node journal) s1"
    using assms(2) by (auto simp: async_reachable_def)
  have i1: "async_inv cd wr marshal s1 \<and> stamps_ok s1"
    using n(2) by (rule stepped_index) (simp_all add: assms(1) async_inv_started stamps_ok_started n(1))
  have "async_inv cd wr marshal s2 \<and> stamps_ok s2 \<and> moved s1 s2"
    using assms(3)
  proof (induction rule: rtranclp_induct)
    case base
    then show ?case using i1 moved_refl assms(6) by blast
  next
    case (step y z)
    then show ?case using stepped_moved[OF assms(1) step.hyps(2) _ _ _ conjunct2[OF i1] assms(6)] by blast
  qed
  moreover have st: "st = view_stamp (sy_writer s1)" "view_stamp (sy_writer s2) = st" "st2 = st"
    using r1 r2 by (auto simp: readSnapshot_def split: if_splits option.splits prod.splits)
  ultimately have "s_records (aw_view (sy_writer s2)) = s_records (aw_view (sy_writer s1))"
    using moved_equal_stamps[of s1 s2] i1 assms(6) by simp
  then show ?thesis using read_view(1)[OF r1] read_view(1)[OF r2] st by metis
qed

theorem equal_stamps_equal_records_witness:
  "\<exists>recs. (fmempty :: doc records) = copyRecords recs [''sessions/a''] \<and> fmempty = copyRecords recs [''slugs/b'']"
proof -
  have f: "sy_writer aw_state1 = aw_writer1" by (simp add: aw_state1_def)
  have w: "aw_term aw_writer1 = 1" "\<not> aw_failed aw_writer1" "s_records (aw_view aw_writer1) = fmempty"
    by (simp_all add: aw_writer1_def newState_def)
  have r: "readSnapshot aw_moment aw_ensure aw_moment None (newState ''c'') keys st aw_writer1
      = (Inr (copyRecords fmempty keys, view_stamp aw_writer1), aw_writer1)" if "st = None \<or> st = Some (view_stamp aw_writer1)" for keys st
    using aw_authority that by (auto simp: readSnapshot_def w read_state_def) (auto simp: aw_moment_def)
  from equal_stamps_equal_records[OF aw_wire_faithful aw_reach1 rtranclp.rtrancl_refl, unfolded f,
      OF r[of None "[''sessions/a'']"] r[of "Some (view_stamp aw_writer1)" "[''slugs/b'']"]]
  show ?thesis by (simp add: w)
qed

end
