(* ===== verification/Membership.thy ===== *)
theory Membership
  imports Addresses Cluster_State
begin

text \<open>
  The members of a cluster (\<open>internal/cluster/config.go\<close>, \<open>membership.go\<close>, \<open>dynamic_target.go\<close> and the
  controller of \<open>enrollment.go\<close>): validation of members, the four operations that change the Raft
  configuration, the voter target and the round of the controller that decides which operation to run.

  The Raft library is a parameter. An operation gives the configuration change it asks Raft for; the
  function \<open>change\<close> that carries it out has the documented effect (\<open>raft_changes\<close>). Parsing of addresses and
  ports (\<open>netip.ParseAddrPort\<close>) is the parameter \<open>pa\<close>; results of probes and reads are arguments.
\<close>

section \<open>Members and configurations\<close>

record member =
  m_ID :: string
  m_Address :: string

datatype suffrage = Voter | Nonvoter | Staging

record server =
  sv_ID :: string
  sv_Address :: string
  sv_Suffrage :: suffrage

type_synonym configuration = "server list"
type_synonym addr_parser = "string \<Rightarrow> (addr \<times> nat) option"

definition maxVoters :: nat where "maxVoters = 7"
definition maxMembers :: nat where "maxMembers = 16"

definition Zone :: "addr \<Rightarrow> string" where
  "Zone ip = (case ip of V6 n zone \<Rightarrow> zone | _ \<Rightarrow> [])"

definition nodeIDPattern :: "string \<Rightarrow> bool" where
  "nodeIDPattern s \<longleftrightarrow> s \<noteq> [] \<and> length s \<le> 64 \<and> list_all (\<lambda>c. is_alnum c \<or> c = CHR ''_'' \<or> c = CHR ''-'') s"

definition member_valid :: "addr_parser \<Rightarrow> member \<Rightarrow> bool" where
  "member_valid pa m \<longleftrightarrow> nodeIDPattern (m_ID m) \<and> (case pa (m_Address m) of
     None \<Rightarrow> False
   | Some (ip, port) \<Rightarrow> \<not> IsUnspecified ip \<and> \<not> IsMulticast ip \<and> Zone ip = [] \<and> port \<ge> 1024)"

definition raftAddress :: "member \<Rightarrow> string" where
  "raftAddress m = m_ID m @ ''@'' @ m_Address m"

definition parseAddress :: "addr_parser \<Rightarrow> string \<Rightarrow> err + member" where
  "parseAddress pa raw = (let (i, a, ok) = cut (CHR ''@'') raw; m = \<lparr>m_ID = i, m_Address = a\<rparr> in
     if \<not> ok \<or> \<not> member_valid pa m then Inl (ErrOther ''invalid authenticated Raft address'') else Inr m)"

definition voters :: "configuration \<Rightarrow> nat" where
  "voters c = length (filter (\<lambda>s. sv_Suffrage s = Voter) c)"

datatype raft_change = AddVoter string string | AddNonvoter string string | RemoveServer string

section \<open>Operations on the membership\<close>

fun learner_conflict :: "addr_parser \<Rightarrow> member \<Rightarrow> configuration \<Rightarrow> err option" where
  "learner_conflict pa m [] = None"
| "learner_conflict pa m (s # ss) =
     (if sv_ID s = m_ID m \<or> sv_Address s = raftAddress m
      then Some (ErrOther ''member already exists; address replacement requires explicit handling'')
      else case parseAddress pa (sv_Address s) of
        Inl e \<Rightarrow> Some e
      | Inr x \<Rightarrow> if m_Address x = m_Address m then Some (ErrOther ''member address already in use'')
                else learner_conflict pa m ss)"

definition AddLearner :: "addr_parser \<Rightarrow> err + configuration \<Rightarrow> member \<Rightarrow> err + raft_change" where
  "AddLearner pa conf m =
     (if \<not> member_valid pa m then Inl (ErrOther ''invalid cluster member identity or address'')
      else case conf of
        Inl e \<Rightarrow> Inl e
      | Inr c \<Rightarrow>
          if length c \<ge> maxMembers then Inl (ErrOther ''cluster member limit reached'')
          else case learner_conflict pa m c of
            Some e \<Rightarrow> Inl e
          | None \<Rightarrow> Inr (AddNonvoter (m_ID m) (raftAddress m)))"

text \<open>The loop of \<open>Promote\<close>: the number of voters and whether the member is a learner at its address.\<close>

fun promotable :: "member \<Rightarrow> configuration \<Rightarrow> nat \<times> bool \<Rightarrow> (nat \<times> bool) option" where
  "promotable m [] r = Some r"
| "promotable m (s # ss) (n, found) = (let n = (if sv_Suffrage s = Voter then n + 1 else n) in
     if sv_ID s = m_ID m then
       (if sv_Address s \<noteq> raftAddress m \<or> sv_Suffrage s \<noteq> Nonvoter then None else promotable m ss (n, True))
     else promotable m ss (n, found))"

record peer_status =
  ps_ID :: string
  ps_Role :: string
  ps_Term :: "64 word"
  ps_LastIndex :: "64 word"
  ps_StateIndex :: "64 word"

definition learnerCaughtUp :: "err + peer_status \<Rightarrow> member \<Rightarrow> 64 word \<Rightarrow> 64 word \<Rightarrow> err option" where
  "learnerCaughtUp probe m targetState index = (case probe of
     Inl e \<Rightarrow> Some e
   | Inr st \<Rightarrow> if ps_ID st \<noteq> m_ID m \<or> ps_Role st \<noteq> ''Follower'' \<or> ps_LastIndex st < max targetState index
                  \<or> ps_StateIndex st < targetState
               then Some (ErrOther ''learner has not caught up to committed state'') else None)"

definition Promote ::
  "addr_parser \<Rightarrow> nat \<Rightarrow> bool \<Rightarrow> err + configuration \<times> 64 word \<Rightarrow> err + peer_status \<Rightarrow> 64 word \<Rightarrow> member \<Rightarrow> err + raft_change" where
  "Promote pa statusPort observer conf probe applied m =
     (if \<not> member_valid pa m \<or> statusPort < 1024 \<or> \<not> observer then Inl KvErrInvalid
      else case conf of
        Inl e \<Rightarrow> Inl e
      | Inr (c, index) \<Rightarrow> (case promotable m c (0, False) of
          None \<Rightarrow> Inl KvErrInvalid
        | Some (n, found) \<Rightarrow>
            if \<not> found \<or> n \<ge> maxVoters + 1 then Inl KvErrInvalid
            else case learnerCaughtUp probe m applied index of
              Some e \<Rightarrow> Inl e
            | None \<Rightarrow> Inr (AddVoter (m_ID m) (raftAddress m))))"

definition RemoveMember :: "string \<Rightarrow> err + configuration \<Rightarrow> string \<Rightarrow> err + raft_change" where
  "RemoveMember local conf i =
     (if \<not> nodeIDPattern i \<or> i = local then Inl KvErrInvalid
      else case conf of
        Inl e \<Rightarrow> Inl e
      | Inr c \<Rightarrow>
          let found = list_ex (\<lambda>s. sv_ID s = i) c;
              isVoter = (case filter (\<lambda>s. sv_ID s = i) c of [] \<Rightarrow> False | ss \<Rightarrow> sv_Suffrage (last ss) = Voter)
          in if \<not> found \<or> (isVoter \<and> voters c \<le> 3)
             then Inl (ErrOther ''removal would violate minimum three-voter membership'')
             else Inr (RemoveServer i))"

fun address_taken :: "addr_parser \<Rightarrow> member \<Rightarrow> configuration \<Rightarrow> err option" where
  "address_taken pa m [] = None"
| "address_taken pa m (s # ss) = (case parseAddress pa (sv_Address s) of
     Inl e \<Rightarrow> Some e
   | Inr x \<Rightarrow> if m_Address x = m_Address m \<and> m_ID x \<noteq> m_ID m then Some KvErrInvalid else address_taken pa m ss)"

definition updateAddress :: "addr_parser \<Rightarrow> err + configuration \<Rightarrow> member \<Rightarrow> err + raft_change" where
  "updateAddress pa conf m =
     (if \<not> member_valid pa m then Inl KvErrInvalid
      else case conf of
        Inl e \<Rightarrow> Inl e
      | Inr c \<Rightarrow> (case address_taken pa m c of
          Some e \<Rightarrow> Inl e
        | None \<Rightarrow> (case filter (\<lambda>s. sv_ID s = m_ID m) c of
            [] \<Rightarrow> Inl KvErrInvalid
          | s # _ \<Rightarrow> Inr (if sv_Suffrage s = Voter then AddVoter (m_ID m) (raftAddress m)
                         else AddNonvoter (m_ID m) (raftAddress m)))))"

section \<open>The voter target\<close>

record target_state =
  ts_term :: "64 word"
  ts_active :: int
  ts_pending :: int
  ts_since :: "time option"

definition oddTarget :: "int \<Rightarrow> int \<Rightarrow> int" where
  "oddTarget eligible least = (let eligible = (if eligible mod 2 = 0 then eligible - 1 else eligible)
     in max least (min (int maxVoters) eligible))"

definition adjustTarget :: "time \<Rightarrow> 64 word \<Rightarrow> int \<Rightarrow> int \<Rightarrow> int \<Rightarrow> int \<Rightarrow> int \<Rightarrow> target_state \<Rightarrow> target_state" where
  "adjustTarget now term raise lower least vs eligible e =
     (let e1 = (if ts_term e \<noteq> term \<or> ts_active e = 0
            then \<lparr>ts_term = term, ts_active = oddTarget vs least, ts_pending = 0, ts_since = None\<rparr> else e);
          e2 = (if ts_active e1 < least then e1\<lparr>ts_active := least, ts_pending := 0, ts_since := None\<rparr> else e1);
          desired = oddTarget eligible least
      in if desired = ts_active e2 then e2\<lparr>ts_pending := 0, ts_since := None\<rparr>
         else let e3 = (if desired \<noteq> ts_pending e2 \<or> ts_since e2 = None then e2\<lparr>ts_pending := desired, ts_since := Some now\<rparr> else e2);
                  window = (if desired < ts_active e3 then lower else raise)
              in if now - the (ts_since e3) \<ge> window
                 then e3\<lparr>ts_active := desired, ts_pending := 0, ts_since := None\<rparr> else e3)"

section \<open>The controller\<close>

record admission =
  ad_Member :: member
  ad_KeyHash :: string
  ad_Retired :: bool

text \<open>The parts of the struct \<open>enrollment\<close> that \<open>reconcile\<close> keeps between rounds.\<close>

record controller =
  cn_missing :: "(string, time) fmap"
  cn_target :: target_state

text \<open>What a round sees: the errors of the calls it makes, the committed configuration with its index, the least
  number of voters, the answers to the probes (\<open>rd_probe\<close> of \<open>probeMembers\<close>, with the hash of the peer's key;
  \<open>rd_learner\<close> of \<open>learnerCaughtUp\<close>), the records of admission and what the clock shows at each reading: when
  \<open>adjustTarget\<close> starts, when a member is noted as missing and when it is checked against the grace period.\<close>

record round =
  rd_local :: string
  rd_localKey :: string
  rd_term :: "64 word"
  rd_generationPending :: bool
  rd_fence :: "err option"
  rd_stored :: "err + configuration \<times> 64 word"
  rd_stillLeader :: bool
  rd_target :: "err + int"
  rd_fresh :: bool
  rd_probe :: "member \<Rightarrow> err + peer_status \<times> string"
  rd_version :: "string \<Rightarrow> err + 64 word"
  rd_commit :: "admission \<Rightarrow> err option"
  rd_admission :: "string \<Rightarrow> err + admission option"
  rd_learner :: "member \<Rightarrow> err + peer_status"
  rd_applied :: "member \<Rightarrow> 64 word"
  rd_now :: time
  rd_noted :: "string \<Rightarrow> time"
  rd_checked :: "string \<Rightarrow> time"
  rd_grace :: int
  rd_raise :: int
  rd_lower :: int

datatype decision = Nothing | Fails err | Retires member | Promotes member

text \<open>\<open>committedConfiguration\<close>: \<open>rd_fence\<close> is the error of the fence or of reading the commit index, \<open>rd_stored\<close> the
  result of \<open>configurationAtIndex\<close>.\<close>

definition forget_pending :: "target_state \<Rightarrow> target_state" where
  "forget_pending t = t\<lparr>ts_pending := 0, ts_since := None\<rparr>"

definition committedConfiguration :: "round \<Rightarrow> controller \<Rightarrow> (err + configuration \<times> 64 word) \<times> controller" where
  "committedConfiguration r e = (case rd_fence r of
     Some err \<Rightarrow> (Inl err, e)
   | None \<Rightarrow> (case rd_stored r of
       Inr c \<Rightarrow> if rd_stillLeader r then (Inr c, e)
                else (Inl (ErrOther ''not caught up''), e\<lparr>cn_target := forget_pending (cn_target e)\<rparr>)
     | Inl err \<Rightarrow> (Inl (ErrOther ''not caught up''), e\<lparr>cn_target := forget_pending (cn_target e)\<rparr>)))"

text \<open>\<open>probeMembers\<close>: the members that answer, with their keys. The probes run concurrently; identities in a
  configuration are distinct, so the order in which they end does not matter. Starts with the node itself.\<close>

fun probe_servers :: "addr_parser \<Rightarrow> round \<Rightarrow> configuration \<Rightarrow> (string \<times> string) list" where
  "probe_servers pa r [] = []"
| "probe_servers pa r (s # ss) =
     (if sv_ID s = rd_local r then probe_servers pa r ss
      else case parseAddress pa (sv_Address s) of
        Inl e \<Rightarrow> probe_servers pa r ss
      | Inr m \<Rightarrow> (case rd_probe r m of
          Inl e \<Rightarrow> probe_servers pa r ss
        | Inr (st, key) \<Rightarrow>
            if ps_ID st = m_ID m \<and> (ps_Role st = ''Follower'' \<or> ps_Role st = ''Leader'')
            then (m_ID m, key) # probe_servers pa r ss else probe_servers pa r ss))"

definition probeMembers :: "addr_parser \<Rightarrow> round \<Rightarrow> configuration \<Rightarrow> (string \<times> string) list" where
  "probeMembers pa r c = (rd_local r, rd_localKey r) # probe_servers pa r c"

text \<open>\<open>rememberMemberKeys\<close>: the admissions it commits under which identities, and its error.\<close>

fun rememberMemberKeys :: "addr_parser \<Rightarrow> round \<Rightarrow> (string \<times> string) list \<Rightarrow> configuration
    \<Rightarrow> (string \<times> admission) list \<times> err option" where
  "rememberMemberKeys pa r keys [] = ([], None)"
| "rememberMemberKeys pa r keys (s # ss) =
     (if sv_Suffrage s \<noteq> Voter then rememberMemberKeys pa r keys ss
      else case map_of keys (sv_ID s) of
        None \<Rightarrow> rememberMemberKeys pa r keys ss
      | Some hash \<Rightarrow>
          if hash = [] then rememberMemberKeys pa r keys ss
          else case rd_version r (sv_ID s) of
            Inl e \<Rightarrow> ([], Some e)
          | Inr version \<Rightarrow>
              if version \<noteq> 0 then rememberMemberKeys pa r keys ss
              else case parseAddress pa (sv_Address s) of
                Inl e \<Rightarrow> ([], Some e)
              | Inr m \<Rightarrow>
                  let a = \<lparr>ad_Member = m, ad_KeyHash = hash, ad_Retired = False\<rparr>
                  in case rd_commit r a of
                    Some e \<Rightarrow> ([], Some e)
                  | None \<Rightarrow> (let (pins, err) = rememberMemberKeys pa r keys ss in ((sv_ID s, a) # pins, err)))"

text \<open>The loop over the servers: who is missing since when, and the voters and learners met so far.\<close>

fun sort_servers ::
  "addr_parser \<Rightarrow> (string \<Rightarrow> time) \<Rightarrow> string list \<Rightarrow> configuration \<Rightarrow> (string, time) fmap \<times> member list \<times> member list
    \<Rightarrow> err option \<times> (string, time) fmap \<times> member list \<times> member list" where
  "sort_servers pa now healthy [] r = (None, r)"
| "sort_servers pa now healthy (s # ss) (missing, vs, ls) = (case parseAddress pa (sv_Address s) of
     Inl e \<Rightarrow> (Some e, missing, vs, ls)
   | Inr m \<Rightarrow>
       let missing = (if m_ID m \<in> set healthy then fmdrop (m_ID m) missing
            else if fmlookup missing (m_ID m) = None then fmupd (m_ID m) (now (m_ID m)) missing else missing)
       in if sv_Suffrage s = Voter then sort_servers pa now healthy ss (missing, vs @ [m], ls)
          else sort_servers pa now healthy ss (missing, vs, ls @ [m]))"

definition overdue :: "round \<Rightarrow> (string, time) fmap \<Rightarrow> member \<Rightarrow> bool" where
  "overdue r missing m = (case fmlookup missing (m_ID m) of
     None \<Rightarrow> False | Some since \<Rightarrow> rd_checked r (m_ID m) - since \<ge> rd_grace r)"

text \<open>The loop over the learners: the first overdue one is retired; otherwise the ready ones.\<close>

fun ready_learners ::
  "round \<Rightarrow> 64 word \<Rightarrow> string list \<Rightarrow> (string, time) fmap \<Rightarrow> member list \<Rightarrow> member list \<Rightarrow> decision + member list" where
  "ready_learners r index healthy missing [] ready = Inr ready"
| "ready_learners r index healthy missing (m # ms) ready =
     (if overdue r missing m then Inl (Retires m)
      else if m_ID m \<notin> set healthy then ready_learners r index healthy missing ms ready
      else case rd_admission r (m_ID m) of
        Inl e \<Rightarrow> Inl (Fails e)
      | Inr None \<Rightarrow> ready_learners r index healthy missing ms ready
      | Inr (Some a) \<Rightarrow>
          if ad_Retired a \<or> ad_Member a \<noteq> m then ready_learners r index healthy missing ms ready
          else if learnerCaughtUp (rd_learner r m) m (rd_applied r m) index = None
          then ready_learners r index healthy missing ms (ready @ [m])
          else ready_learners r index healthy missing ms ready)"

text \<open>Voters are added in steps to the next odd number: a promotion starts when enough learners are ready to
  complete the step, or below three voters.\<close>

definition scales :: "int \<Rightarrow> int \<Rightarrow> nat \<Rightarrow> bool" where
  "scales target n ready \<longleftrightarrow> n < target \<and> ready > 0 \<and> (let next = (if (n + 1) mod 2 = 0 then n + 2 else n + 1) in
     n < target \<and> n < 3 \<or> (target \<ge> next \<and> int ready \<ge> next - n))"

definition decide :: "round \<Rightarrow> 64 word \<Rightarrow> string list \<Rightarrow> (string, time) fmap \<Rightarrow> int \<Rightarrow> member list \<Rightarrow> member list \<Rightarrow> decision" where
  "decide r index healthy missing target vs ls =
     (let failed = List.find (overdue r missing) (sort_key m_ID vs); n = int (length vs) in
      if failed \<noteq> None \<and> n > target \<and> n mod 2 = 0 then Retires (the failed)
      else case ready_learners r index healthy missing ls [] of
        Inl d \<Rightarrow> d
      | Inr ready \<Rightarrow>
          if failed \<noteq> None \<and> ready \<noteq> [] \<and> n \<le> int maxVoters then Promotes (hd ready)
          else if scales target n (length ready) then Promotes (hd ready)
          else if failed \<noteq> None \<and> n > target then Retires (the failed)
          else Nothing)"

text \<open>The round up to its decision, with the admissions it commits on the way.\<close>

definition reconcile :: "addr_parser \<Rightarrow> round \<Rightarrow> controller \<Rightarrow> decision \<times> (string \<times> admission) list \<times> controller" where
  "reconcile pa r e =
     (if rd_generationPending r then (Fails KvErrNotLeader, [], e)
      else case committedConfiguration r e of
        (Inl err, e) \<Rightarrow> (Fails err, [], e)
      | (Inr (c, index), e) \<Rightarrow> (case rd_target r of
          Inl err \<Rightarrow> (Fails err, [], e)
        | Inr least \<Rightarrow>
            if \<not> rd_fresh r then (Fails KvErrNotLeader, [], e\<lparr>cn_missing := fmempty, cn_target := forget_pending (cn_target e)\<rparr>)
            else let keys = probeMembers pa r c; healthy = map fst keys in
              case rememberMemberKeys pa r keys c of
                (pins, Some err) \<Rightarrow> (Fails err, pins, e)
              | (pins, None) \<Rightarrow> (case sort_servers pa (rd_noted r) healthy c (cn_missing e, [], []) of
                  (Some err, missing, _) \<Rightarrow> (Fails err, pins, e\<lparr>cn_missing := missing\<rparr>)
                | (None, missing, vs, ls) \<Rightarrow>
                    let t = adjustTarget (rd_now r) (rd_term r) (rd_raise r) (rd_lower r) least (int (length vs))
                          (int (length (remdups healthy))) (cn_target e)
                    in (decide r index healthy missing (ts_active t) vs ls, pins, e\<lparr>cn_missing := missing, cn_target := t\<rparr>))))"

section \<open>The committed configuration\<close>

text \<open>\<open>configurationAtIndex\<close>: the log is searched downwards from \<open>through\<close> for a configuration entry, then the
  snapshots in the order the store lists them. An entry is its configuration, nothing for one of
  another type, or the error of reading it; decoding that panics is an error.\<close>

fun config_entry :: "(nat \<Rightarrow> err + (err + configuration) option) \<Rightarrow> nat \<Rightarrow> nat \<Rightarrow> (err + configuration \<times> nat) option" where
  "config_entry entry first 0 = None"
| "config_entry entry first (Suc i) =
     (if Suc i < first then None
      else case entry (Suc i) of
        Inl e \<Rightarrow> Some (Inl e)
      | Inr (Some (Inl e)) \<Rightarrow> Some (Inl KvErrInvalid)
      | Inr (Some (Inr c)) \<Rightarrow> Some (Inr (c, Suc i))
      | Inr None \<Rightarrow> config_entry entry first i)"

definition configurationAtIndex ::
  "err + nat \<Rightarrow> err + nat \<Rightarrow> (nat \<Rightarrow> err + (err + configuration) option) \<Rightarrow> err + (nat \<times> configuration \<times> nat) list \<Rightarrow> nat
    \<Rightarrow> err + configuration \<times> nat" where
  "configurationAtIndex first lastIx entry metas through = (case first of
     Inl e \<Rightarrow> Inl e
   | Inr f \<Rightarrow> (case lastIx of
       Inl e \<Rightarrow> Inl e
     | Inr l \<Rightarrow> (case config_entry entry f (min l through) of
         Some r \<Rightarrow> r
       | None \<Rightarrow> (case metas of
           Inl e \<Rightarrow> Inl e
         | Inr ms \<Rightarrow> (case List.find (\<lambda>m. fst m \<le> through) ms of
             Some m \<Rightarrow> Inr (snd m)
           | None \<Rightarrow> Inl (ErrOther ''not caught up''))))))"

section \<open>Admission and retirement\<close>

text \<open>An approval lets one key rejoin at one recovery generation until it expires.\<close>

record recoveryGeneration =
  rg_Generation :: "64 word"
  rg_Lineage :: string

record rejoinApproval =
  ra_key :: string
  ra_recovery :: recoveryGeneration
  ra_expires :: time

definition approved :: "(string, rejoinApproval) fmap \<Rightarrow> time \<Rightarrow> admission \<Rightarrow> recoveryGeneration \<Rightarrow> bool" where
  "approved values now a current = (case fmlookup values (m_ID (ad_Member a)) of
     None \<Rightarrow> False
   | Some v \<Rightarrow> ra_key v = ad_KeyHash a \<and> ra_recovery v = current \<and> now < ra_expires v)"

text \<open>The results of the calls of one \<open>admit\<close>: waiting for a pending recovery generation, the generation, the
  approvals at the two places they are asked for, the probes in the order of the code, the configuration (read twice, and once more by the membership
  operation), the stored admission with its version, the commit.\<close>

record admit_env =
  am_wait :: "err option"
  am_generation :: "err + recoveryGeneration"
  am_approvals1 :: "(string, rejoinApproval) fmap"
  am_now1 :: time
  am_probe1 :: "err + peer_status"
  am_conf1 :: "err + configuration"
  am_automatic :: bool
  am_probe2 :: "err + peer_status"
  am_record :: "err + (64 word \<times> admission option)"
  am_probe3 :: "err + peer_status"
  am_term :: "64 word"
  am_approvals2 :: "(string, rejoinApproval) fmap"
  am_now2 :: time
  am_commit :: "err option"
  am_conf2 :: "err + configuration"
  am_conf3 :: "err + configuration"

definition notCaughtUp :: err where "notCaughtUp = ErrOther ''learner has not caught up to committed state''"

fun address_change :: "admit_env \<Rightarrow> admission \<Rightarrow> configuration \<Rightarrow> bool \<Rightarrow> err + bool" where
  "address_change env a [] changed = Inr changed"
| "address_change env a (s # ss) changed =
     (if sv_ID s = m_ID (ad_Member a) \<and> (sv_Suffrage s = Voter \<or> sv_Address s \<noteq> raftAddress (ad_Member a)) then
        (if \<not> am_automatic env \<or> sv_Address s = raftAddress (ad_Member a)
         then Inl (ErrOther ''existing voter identity cannot be reenrolled after losing local state'')
         else case am_probe2 env of
           Inl e \<Rightarrow> Inl (ErrOther ''address replacement requires existing durable history'')
         | Inr st \<Rightarrow> if ps_ID st \<noteq> m_ID (ad_Member a) \<or> ps_LastIndex st = 0
                     then Inl (ErrOther ''address replacement requires existing durable history'')
                     else address_change env a ss True)
      else address_change env a ss changed)"

definition present_in :: "configuration \<Rightarrow> string \<Rightarrow> bool" where
  "present_in c i = list_ex (\<lambda>s. sv_ID s = i) c"

text \<open>The branch for an identity that has an admission record: an error, or whether the record is rewritten.\<close>

definition readmit :: "admit_env \<Rightarrow> recoveryGeneration \<Rightarrow> configuration \<Rightarrow> bool \<Rightarrow> admission option \<Rightarrow> admission \<Rightarrow> err + bool" where
  "readmit env generation c changed stored a = (case stored of
     None \<Rightarrow> Inl KvErrInvalid
   | Some old \<Rightarrow>
       if ad_KeyHash old \<noteq> ad_KeyHash a \<or> m_ID (ad_Member old) \<noteq> m_ID (ad_Member a) then Inl KvErrInvalid
       else if ad_Retired old \<and> present_in c (m_ID (ad_Member a)) then Inl KvErrInvalid
       else case (if present_in c (m_ID (ad_Member a)) then None
            else case am_probe3 env of
              Inl e \<Rightarrow> Some KvErrInvalid
            | Inr st \<Rightarrow>
                if ps_ID st \<noteq> m_ID (ad_Member a) then Some KvErrInvalid
                else if ps_Term st > am_term env then Some notCaughtUp
                else if \<not> ad_Retired old \<and> ps_LastIndex st > 0 \<and> (rg_Generation generation = 0 \<or> \<not> approved (am_approvals2 env) (am_now2 env) a generation) then Some notCaughtUp
                else None) of
         Some e \<Rightarrow> Inl e
       | None \<Rightarrow> if \<not> ad_Retired old \<and> \<not> changed \<and> old \<noteq> a then Inl KvErrInvalid
                 else Inr (changed \<or> ad_Retired old))"

text \<open>The last part: the configuration change, if one is needed.\<close>

definition admit_change :: "addr_parser \<Rightarrow> admit_env \<Rightarrow> bool \<Rightarrow> admission \<Rightarrow> err + raft_change option" where
  "admit_change pa env changed a =
     (if changed then (case updateAddress pa (am_conf3 env) (ad_Member a) of Inl e \<Rightarrow> Inl e | Inr x \<Rightarrow> Inr (Some x))
      else case am_conf2 env of
        Inl e \<Rightarrow> Inl e
      | Inr c \<Rightarrow> (case List.find (\<lambda>s. sv_ID s = m_ID (ad_Member a)) c of
          Some s \<Rightarrow> if sv_Address s \<noteq> raftAddress (ad_Member a) then Inl KvErrInvalid else Inr None
        | None \<Rightarrow> (case AddLearner pa (am_conf3 env) (ad_Member a) of Inl e \<Rightarrow> Inl e | Inr x \<Rightarrow> Inr (Some x))))"

text \<open>\<open>admit\<close> gives the admission it commits, if any, and its result.\<close>

definition admit :: "addr_parser \<Rightarrow> admit_env \<Rightarrow> admission \<Rightarrow> admission option \<times> (err + raft_change option)" where
  "admit pa env a = (case am_wait env of Some e \<Rightarrow> (None, Inl e) | None \<Rightarrow>
     (case am_generation env of Inl e \<Rightarrow> (None, Inl e) | Inr generation \<Rightarrow>
       if rg_Generation generation > 0 \<and> \<not> approved (am_approvals1 env) (am_now1 env) a generation \<and> (case am_probe1 env of
            Inl e \<Rightarrow> True | Inr st \<Rightarrow> ps_ID st \<noteq> m_ID (ad_Member a) \<or> ps_LastIndex st \<noteq> 0)
       then (None, Inl notCaughtUp)
       else (case am_conf1 env of Inl e \<Rightarrow> (None, Inl e) | Inr c \<Rightarrow>
         if length c \<ge> maxMembers \<and> \<not> present_in c (m_ID (ad_Member a))
         then (None, Inl (ErrOther ''cluster member limit reached''))
         else (case address_change env a c False of Inl e \<Rightarrow> (None, Inl e) | Inr changed \<Rightarrow>
           (case am_record env of Inl e \<Rightarrow> (None, Inl e) | Inr (version, stored) \<Rightarrow>
             (case (if version \<noteq> 0 then readmit env generation c changed stored a else Inr True) of
                Inl e \<Rightarrow> (None, Inl e)
              | Inr writes \<Rightarrow>
                  if \<not> writes then (None, admit_change pa env changed a)
                  else case am_commit env of
                    Some e \<Rightarrow> (None, Inl e)
                  | None \<Rightarrow> (Some a, admit_change pa env changed a)))))))"

text \<open>\<open>retire\<close>: the record is marked before the member is removed.\<close>

definition retire ::
  "string \<Rightarrow> err + (64 word \<times> admission option) \<Rightarrow> err option \<Rightarrow> err + configuration \<Rightarrow> member
    \<Rightarrow> admission option \<times> (err + raft_change)" where
  "retire local stored commit conf m = (case stored of
     Inl e \<Rightarrow> (None, Inl e)
   | Inr (version, old) \<Rightarrow>
       if version \<noteq> 0 \<and> old = None then (None, Inl KvErrInvalid)
       else let a = (if version = 0 then \<lparr>ad_Member = m, ad_KeyHash = [], ad_Retired = True\<rparr>
                     else (the old)\<lparr>ad_Retired := True\<rparr>)
         in case commit of
           Some e \<Rightarrow> (None, Inl e)
         | None \<Rightarrow> (Some a, RemoveMember local conf (m_ID m)))"

text \<open>\<open>target\<close>: the immutable minimum of voters, 3 or 5, fixed at the first call.\<close>

definition voter_floor :: "err + (64 word \<times> int option) \<Rightarrow> nat \<Rightarrow> bool \<Rightarrow> err option \<Rightarrow> int option \<times> (err + int)" where
  "voter_floor stored initial automatic commit = (case stored of
     Inl e \<Rightarrow> (None, Inl e)
   | Inr (version, policy) \<Rightarrow>
       if version \<noteq> 0 then
         (case policy of None \<Rightarrow> (None, Inl KvErrInvalid)
          | Some n \<Rightarrow> if n \<noteq> 3 \<and> n \<noteq> 5 then (None, Inl KvErrInvalid) else (None, Inr n))
       else let n = (if automatic then 3 else int initial) in
         if n \<noteq> 3 \<and> n \<noteq> 5 then (None, Inl KvErrInvalid)
         else case commit of Some e \<Rightarrow> (None, Inl e) | None \<Rightarrow> (Some n, Inr n))"

text \<open>What \<open>reconcile\<close> does with its decision: the admission it commits and the change it asks for.\<close>

record round_env =
  re_stored :: "err + (64 word \<times> admission option)"
  re_commit :: "err option"
  re_removes :: "err + configuration"
  re_port :: nat
  re_observer :: bool
  re_promotes :: "err + configuration \<times> 64 word"
  re_probe :: "err + peer_status"
  re_applied :: "64 word"

definition carry_out :: "addr_parser \<Rightarrow> string \<Rightarrow> round_env \<Rightarrow> decision \<Rightarrow> admission option \<times> (err + raft_change option)" where
  "carry_out pa local env d = (case d of
     Nothing \<Rightarrow> (None, Inr None)
   | Fails e \<Rightarrow> (None, Inl e)
   | Retires m \<Rightarrow> (case retire local (re_stored env) (re_commit env) (re_removes env) m of
       (w, Inl e) \<Rightarrow> (w, Inl e) | (w, Inr x) \<Rightarrow> (w, Inr (Some x)))
   | Promotes m \<Rightarrow> (None, case Promote pa (re_port env) (re_observer env) (re_promotes env) (re_probe env) (re_applied env) m of
       Inl e \<Rightarrow> Inl e | Inr x \<Rightarrow> Inr (Some x)))"

end
