(* ===== verification/Observer.thy ===== *)
theory Observer
  imports Membership Async_Writer
begin

text \<open>
  What a node sees of its peers (\<open>internal/cluster/status.go\<close>, \<open>leader_conflicts.go\<close>, \<open>rejoin.go\<close>): the rounds of
  the observer, the latch that a confirmed conflict of leaders sets, the choice of the leader to ask for
  admission and the decision to ask at all.

  The results of the probes are given in the order in which they arrive. Times are pairs of readings, of
  the monotonic and of the wall clock, in nanoseconds.
\<close>

section \<open>Evidence over time\<close>

definition autoRecoveryInterval :: int where "autoRecoveryInterval = 15 * second"
definition leaderConflictClearWindow :: int where "leaderConflictClearWindow = 120 * second"

definition recoverySampleGapValid :: "clock option \<Rightarrow> clock \<Rightarrow> bool" where
  "recoverySampleGapValid previous now = (case previous of
     None \<Rightarrow> False
   | Some p \<Rightarrow> (let monotonic = ck_mono now - ck_mono p; wall = ck_wall now - ck_wall p in
       monotonic \<ge> 0 \<and> monotonic \<le> 3 * autoRecoveryInterval \<and> wall \<ge> 0 \<and> wall \<le> 3 * autoRecoveryInterval))"

definition recoveryWindowElapsed :: "clock \<Rightarrow> clock \<Rightarrow> int" where
  "recoveryWindowElapsed since now = min (ck_mono now - ck_mono since) (ck_wall now - ck_wall since)"

section \<open>Conflicts of leaders\<close>

record observation =
  ob_Address :: string
  ob_Status :: peer_status

record leaderConflict =
  lc_consecutive :: nat
  lc_latched :: bool
  lc_singleSince :: "clock option"
  lc_lastRound :: "clock option"

definition breakContinuity :: "leaderConflict \<Rightarrow> leaderConflict" where
  "breakContinuity c = c\<lparr>lc_consecutive := 0, lc_singleSince := None, lc_lastRound := None\<rparr>"

definition leader_ids :: "observation list \<Rightarrow> string list" where
  "leader_ids obs = remdups (map (\<lambda>p. ps_ID (ob_Status p)) (filter (\<lambda>p. ps_Role (ob_Status p) = ''Leader'') obs))"

definition observe :: "clock \<Rightarrow> observation list \<Rightarrow> leaderConflict \<Rightarrow> leaderConflict" where
  "observe now obs c =
     (let c = (if lc_lastRound c \<noteq> None \<and> \<not> recoverySampleGapValid (lc_lastRound c) now then breakContinuity c else c);
          c = c\<lparr>lc_lastRound := Some now\<rparr>;
          leaders = length (leader_ids obs)
      in if leaders > 1 then
           let c = c\<lparr>lc_singleSince := None, lc_consecutive := lc_consecutive c + 1\<rparr>
           in if lc_consecutive c \<ge> 2 \<and> \<not> lc_latched c then c\<lparr>lc_latched := True\<rparr> else c
         else let c = c\<lparr>lc_consecutive := 0\<rparr> in
           if leaders \<noteq> 1 then c\<lparr>lc_singleSince := None\<rparr>
           else if \<not> lc_latched c then c\<lparr>lc_singleSince := None\<rparr>
           else case lc_singleSince c of
             None \<Rightarrow> c\<lparr>lc_singleSince := Some now\<rparr>
           | Some since \<Rightarrow>
               if recoveryWindowElapsed since now \<ge> leaderConflictClearWindow
               then c\<lparr>lc_latched := False, lc_singleSince := None\<rparr> else c)"

section \<open>The observer\<close>

record observer =
  os_leaders :: leaderConflict
  os_observations :: "observation list"
  os_updated :: "clock option"

text \<open>One round: the node's own status, the addresses from discovery, whether the caller gave up while probes were
  started or before they were counted, and the answers.\<close>

record refresh_env =
  rf_local :: "peer_status option"
  rf_fresh :: bool
  rf_addresses :: nat
  rf_started :: "err option"
  rf_results :: "observation list"
  rf_finished :: "err option"
  rf_now :: clock

definition broken :: "observer \<Rightarrow> observer" where
  "broken w = w\<lparr>os_leaders := breakContinuity (os_leaders w)\<rparr>"

definition forgotten :: "observer \<Rightarrow> observer" where
  "forgotten w = w\<lparr>os_observations := [], os_updated := None\<rparr>"

definition Refresh :: "refresh_env \<Rightarrow> observer \<Rightarrow> err option \<times> observer" where
  "Refresh r w =
     (if \<not> rf_fresh r then (Some (ErrOther ''discovery is stale''), broken (forgotten w))
      else if rf_addresses r > 64 then (Some (ErrOther ''too many cluster candidates''), broken w)
      else case rf_started r of
        Some e \<Rightarrow> (Some e, broken w)
      | None \<Rightarrow>
          let ids = map (\<lambda>p. ps_ID (ob_Status p)) (rf_results r) in
          if \<not> distinct ids then (Some (ErrOther ''duplicate peer identity''), broken (forgotten w))
          else case rf_finished r of
            Some e \<Rightarrow> (Some e, broken w)
          | None \<Rightarrow>
              let round = rf_results r @ (case rf_local r of
                    None \<Rightarrow> []
                  | Some st \<Rightarrow> if ps_ID st \<in> set ids then [] else [\<lparr>ob_Address = [], ob_Status = st\<rparr>])
              in (None, w\<lparr>os_observations := rf_results r, os_updated := Some (rf_now r),
                    os_leaders := observe (rf_now r) round (os_leaders w)\<rparr>))"

text \<open>\<open>Snapshot\<close> reads the clock twice; both comparisons use the monotonic reading.\<close>

definition Observer_Snapshot :: "clock \<Rightarrow> clock \<Rightarrow> observer \<Rightarrow> observation list option" where
  "Observer_Snapshot now1 now2 w = (case os_updated w of
     None \<Rightarrow> None
   | Some u \<Rightarrow> if ck_mono now1 < ck_mono u \<or> ck_mono now2 - ck_mono u > 90 * second then None else Some (os_observations w))"

definition leaderConflictDetected :: "observer \<Rightarrow> bool" where
  "leaderConflictDetected w = lc_latched (os_leaders w)"

section \<open>Whom to ask, and whether\<close>

text \<open>\<open>leaderForRequest\<close>: the snapshot and the latch at the start, what each candidate answers when it is probed again
  (or that its address cannot be parsed or the caller gave up), and the latch at the end.\<close>

definition leaderForRequest ::
  "observation list option \<Rightarrow> bool \<Rightarrow> (observation \<Rightarrow> err + observation) \<Rightarrow> err option \<Rightarrow> bool \<Rightarrow> err + observation" where
  "leaderForRequest snapshot conflict reprobe ctx conflict' = (case snapshot of
     None \<Rightarrow> Inl KvErrNotLeader
   | Some peers \<Rightarrow>
       if conflict then Inl KvErrNotLeader
       else (case filter (\<lambda>p. ps_Role (ob_Status p) = ''Leader'') peers of
         [] \<Rightarrow> Inl KvErrNotLeader
       | [p] \<Rightarrow> Inr p
       | candidates \<Rightarrow>
           let current = List.map_filter (\<lambda>p. case reprobe p of
                   Inl e \<Rightarrow> None
                 | Inr q \<Rightarrow> if ps_ID (ob_Status q) = ps_ID (ob_Status p) \<and> ps_Role (ob_Status q) = ''Leader'' then Some q else None) candidates
           in if length current \<noteq> 1 \<or> ctx \<noteq> None \<or> conflict' then Inl KvErrNotLeader else Inr (hd current)))"

text \<open>\<open>shouldRequestRejoin\<close>: \<open>own\<close> is the leader Raft knows, \<open>contact\<close> its last contact with one.\<close>

definition shouldRequestRejoin ::
  "bool \<Rightarrow> bool \<Rightarrow> bool \<Rightarrow> string \<Rightarrow> observation list option \<Rightarrow> string \<Rightarrow> clock option \<Rightarrow> clock \<Rightarrow> clock \<Rightarrow> bool" where
  "shouldRequestRejoin conflict found isLeader own snapshot local contact started now \<longleftrightarrow>
     \<not> conflict \<and> (\<not> found \<or> \<not> isLeader \<and> own = [] \<and> (case snapshot of
       None \<Rightarrow> False
     | Some peers \<Rightarrow>
         list_ex (\<lambda>p. ps_Role (ob_Status p) = ''Leader'' \<and> ps_ID (ob_Status p) \<noteq> local) peers
         \<and> ck_mono now - ck_mono (case contact of None \<Rightarrow> started | Some c \<Rightarrow> c) \<ge> 120 * second))"

section \<open>The latch over time\<close>

definition refreshes :: "observer \<Rightarrow> refresh_env list \<Rightarrow> observer" where
  "refreshes w rs = fold (\<lambda>r w. snd (Refresh r w)) rs w"

text \<open>A round completes or it breaks the row of rounds; what a round that completes sees.\<close>

definition refresh_ids :: "refresh_env \<Rightarrow> string list" where
  "refresh_ids r = map (\<lambda>p. ps_ID (ob_Status p)) (rf_results r)"

definition completes :: "refresh_env \<Rightarrow> bool" where
  "completes r \<longleftrightarrow> rf_fresh r \<and> rf_addresses r \<le> 64 \<and> rf_started r = None \<and> distinct (refresh_ids r) \<and> rf_finished r = None"

definition round_of :: "refresh_env \<Rightarrow> observation list" where
  "round_of r = rf_results r @ (case rf_local r of
     None \<Rightarrow> [] | Some st \<Rightarrow> if ps_ID st \<in> set (refresh_ids r) then [] else [\<lparr>ob_Address = [], ob_Status = st\<rparr>])"

lemma Refresh_leaders:
  "os_leaders (snd (Refresh r w)) = (if completes r then observe (rf_now r) (round_of r) (os_leaders w) else breakContinuity (os_leaders w))"
  by (auto simp: Refresh_def completes_def round_of_def refresh_ids_def broken_def forgotten_def Let_def split: option.splits)

lemma Refresh_succeeds: "fst (Refresh r w) = None \<longleftrightarrow> completes r"
  by (auto simp: Refresh_def completes_def refresh_ids_def Let_def split: option.splits)

text \<open>Rounds in a row: no gap between neighbours is longer than three intervals, on either clock.\<close>

fun in_a_row :: "clock list \<Rightarrow> bool" where
  "in_a_row (a # b # ts) \<longleftrightarrow> recoverySampleGapValid (Some a) b \<and> in_a_row (b # ts)"
| "in_a_row ts \<longleftrightarrow> True"

lemma in_a_row_snoc:
  "in_a_row (ts @ [b]) \<longleftrightarrow> in_a_row ts \<and> (ts \<noteq> [] \<longrightarrow> recoverySampleGapValid (Some (last ts)) b)"
  by (induction ts rule: in_a_row.induct) auto

definition single :: "refresh_env \<Rightarrow> bool" where
  "single r \<longleftrightarrow> completes r \<and> length (leader_ids (round_of r)) = 1"

definition several :: "refresh_env \<Rightarrow> bool" where
  "several r \<longleftrightarrow> completes r \<and> length (leader_ids (round_of r)) > 1"

text \<open>What the fields of the latch say about the rounds so far.\<close>

definition conflict_ok :: "refresh_env list \<Rightarrow> leaderConflict \<Rightarrow> bool" where
  "conflict_ok rs c \<longleftrightarrow>
     (\<forall>t. lc_lastRound c = Some t \<longrightarrow> rs \<noteq> [] \<and> t = rf_now (last rs))
   \<and> (lc_consecutive c > 0 \<longrightarrow> rs \<noteq> [] \<and> several (last rs) \<and> lc_lastRound c \<noteq> None)
   \<and> (\<forall>s. lc_singleSince c = Some s \<longrightarrow> lc_lastRound c \<noteq> None
        \<and> (\<exists>pre suf. rs = pre @ suf \<and> suf \<noteq> [] \<and> rf_now (hd suf) = s \<and> list_all single suf \<and> in_a_row (map rf_now suf)))"

lemma conflict_ok_start: "conflict_ok [] \<lparr>lc_consecutive = 0, lc_latched = b, lc_singleSince = None, lc_lastRound = None\<rparr>"
  by (simp add: conflict_ok_def)

lemma conflict_ok_break: "conflict_ok rs c \<Longrightarrow> conflict_ok rs' (breakContinuity c)"
  by (simp add: conflict_ok_def breakContinuity_def)

text \<open>The latch before it looks at the leaders: the row goes on, or it starts again.\<close>

definition continued :: "clock \<Rightarrow> leaderConflict \<Rightarrow> leaderConflict" where
  "continued now c = (if lc_lastRound c \<noteq> None \<and> \<not> recoverySampleGapValid (lc_lastRound c) now then breakContinuity c else c)"

lemma continued_single:
  assumes "conflict_ok rs c" "lc_singleSince (continued (rf_now r) c) = Some s" "single r"
  shows "\<exists>pre suf. rs @ [r] = pre @ suf \<and> suf \<noteq> [] \<and> rf_now (hd suf) = s \<and> list_all single suf \<and> in_a_row (map rf_now suf)"
proof -
  have c: "lc_singleSince c = Some s" and g: "lc_lastRound c \<noteq> None \<longrightarrow> recoverySampleGapValid (lc_lastRound c) (rf_now r)"
    using assms(2) by (auto simp: continued_def breakContinuity_def split: if_splits)
  obtain pre suf where ps: "rs = pre @ suf" "suf \<noteq> []" "rf_now (hd suf) = s" "list_all single suf" "in_a_row (map rf_now suf)"
    and l: "lc_lastRound c = Some (rf_now (last rs))"
    using assms(1) c unfolding conflict_ok_def by force
  have "in_a_row (map rf_now (suf @ [r]))" using ps g l by (simp add: in_a_row_snoc last_map)
  then show ?thesis using ps assms(3) by (intro exI[of _ pre] exI[of _ "suf @ [r]"]) simp
qed

lemma continued_several:
  assumes "conflict_ok rs c" "lc_consecutive (continued (rf_now r) c) > 0"
  shows "rs \<noteq> [] \<and> several (last rs) \<and> recoverySampleGapValid (Some (rf_now (last rs))) (rf_now r)"
proof -
  have "lc_consecutive c > 0" and g: "lc_lastRound c \<noteq> None \<longrightarrow> recoverySampleGapValid (lc_lastRound c) (rf_now r)"
    using assms(2) by (auto simp: continued_def breakContinuity_def split: if_splits)
  then show ?thesis using assms(1) unfolding conflict_ok_def by force
qed

lemma observe_continued:
  "observe now obs c = (let c = (continued now c)\<lparr>lc_lastRound := Some now\<rparr>; leaders = length (leader_ids obs)
      in if leaders > 1 then
           c\<lparr>lc_singleSince := None, lc_consecutive := lc_consecutive c + 1, lc_latched := lc_latched c \<or> lc_consecutive c \<ge> 1\<rparr>
         else if leaders \<noteq> 1 \<or> \<not> lc_latched c then c\<lparr>lc_consecutive := 0, lc_singleSince := None\<rparr>
         else case lc_singleSince c of
             None \<Rightarrow> c\<lparr>lc_consecutive := 0, lc_singleSince := Some now\<rparr>
           | Some since \<Rightarrow>
               if recoveryWindowElapsed since now \<ge> leaderConflictClearWindow
               then c\<lparr>lc_consecutive := 0, lc_latched := False, lc_singleSince := None\<rparr> else c\<lparr>lc_consecutive := 0\<rparr>)"
  unfolding observe_def continued_def[symmetric] by (auto simp: Let_def split: option.splits)

lemma conflict_ok_observe:
  assumes ok: "conflict_ok rs c" and r: "completes r"
  shows "conflict_ok (rs @ [r]) (observe (rf_now r) (round_of r) c)"
proof -
  let ?c = "observe (rf_now r) (round_of r) c"
  have "lc_lastRound ?c = Some (rf_now r)" by (auto simp: observe_continued Let_def split: option.splits)
  moreover have "several r" if "lc_consecutive ?c > 0"
    using that r by (auto simp: observe_continued several_def Let_def split: if_splits option.splits)
  moreover have "\<exists>pre suf. rs @ [r] = pre @ suf \<and> suf \<noteq> [] \<and> rf_now (hd suf) = s \<and> list_all single suf \<and> in_a_row (map rf_now suf)"
    if s: "lc_singleSince ?c = Some s" for s
  proof -
    have one: "single r" using s r by (auto simp: observe_continued single_def Let_def split: if_splits option.splits)
    have "s = rf_now r \<or> lc_singleSince (continued (rf_now r) c) = Some s"
      using s by (auto simp: observe_continued Let_def split: if_splits option.splits)
    then show ?thesis
    proof
      assume "s = rf_now r"
      then show ?thesis using one by (intro exI[of _ rs] exI[of _ "[r]"]) simp
    qed (rule continued_single[OF ok _ one])
  qed
  ultimately show ?thesis by (auto simp: conflict_ok_def)
qed

lemma conflict_ok_refreshes:
  assumes "conflict_ok [] (os_leaders w)"
  shows "conflict_ok rs (os_leaders (refreshes w rs))"
proof (induction rs rule: rev_induct)
  case (snoc r rs)
  then show ?case by (auto simp: refreshes_def Refresh_leaders intro: conflict_ok_observe conflict_ok_break)
qed (use assms in \<open>simp add: refreshes_def\<close>)

lemma observe_latch:
  assumes ok: "conflict_ok rs c" and r: "completes r"
  shows "lc_latched (observe (rf_now r) (round_of r) c) \<Longrightarrow> \<not> lc_latched c \<Longrightarrow>
      rs \<noteq> [] \<and> several (last rs) \<and> several r \<and> recoverySampleGapValid (Some (rf_now (last rs))) (rf_now r)"
    and "\<not> lc_latched (observe (rf_now r) (round_of r) c) \<Longrightarrow> lc_latched c \<Longrightarrow>
      \<exists>pre suf. rs @ [r] = pre @ suf \<and> suf \<noteq> [] \<and> list_all single suf \<and> in_a_row (map rf_now suf)
        \<and> leaderConflictClearWindow \<le> recoveryWindowElapsed (rf_now (hd suf)) (rf_now r)"
proof -
  have l: "lc_latched (continued now c) = lc_latched c" for now by (simp add: continued_def breakContinuity_def)
  {
    assume "lc_latched (observe (rf_now r) (round_of r) c)" "\<not> lc_latched c"
    then have "lc_consecutive (continued (rf_now r) c) > 0 \<and> several r"
      using r by (auto simp: observe_continued several_def Let_def l split: if_splits option.splits)
    then show "rs \<noteq> [] \<and> several (last rs) \<and> several r \<and> recoverySampleGapValid (Some (rf_now (last rs))) (rf_now r)"
      using continued_several[OF ok] by blast
  }
  assume "\<not> lc_latched (observe (rf_now r) (round_of r) c)" "lc_latched c"
  then obtain s where "lc_singleSince (continued (rf_now r) c) = Some s" "single r"
      "leaderConflictClearWindow \<le> recoveryWindowElapsed s (rf_now r)"
    using r by (auto simp: observe_continued single_def Let_def l split: if_splits option.splits)
  then show "\<exists>pre suf. rs @ [r] = pre @ suf \<and> suf \<noteq> [] \<and> list_all single suf \<and> in_a_row (map rf_now suf)
        \<and> leaderConflictClearWindow \<le> recoveryWindowElapsed (rf_now (hd suf)) (rf_now r)"
    using continued_single[OF ok, of r s] by blast
qed

end
