(* ===== verification/Recovery.thy ===== *)
theory Recovery
  imports Observer
begin

text \<open>
  Recovery after a permanent loss of the majority (\<open>internal/cluster/auto_recovery.go\<close>, \<open>auto_recovery_policy.go\<close>,
  \<open>recovery_generation.go\<close>, \<open>recovery.go\<close>, \<open>recovery_view.go\<close>) and the return of stranded members
  (\<open>rejoin_protocol.go\<close>): the signed policy, the evaluation of the evidence, the manager's tick, the last checks
  before a request for recovery is written, the validation of such a request, the generation that marks a
  recovered history and the approvals for members to come back.

  Files, the network, Raft and the clock are parameters: an environment record holds their answers during one
  call, in the order of the code. SHA-256 of an address and the signature of a policy are functions given.
\<close>

section \<open>Files\<close>

datatype 'a stored_file = Missing | Unreadable err | Holds 'a

section \<open>Policy\<close>

record autoRecoveryPolicy =
  po_ClusterID :: string
  po_Mode :: string
  po_UpdatedAt :: time
  po_MAC :: string

record policy_status =
  pl_Mode :: string
  pl_Valid :: bool

text \<open>\<open>loadAutoRecoveryPolicy\<close>: \<open>mac\<close> is \<open>autoRecoveryMAC\<close>, an error without a usable passphrase, and \<open>unhex\<close> decodes the
  stored signature.\<close>

definition loadAutoRecoveryPolicy ::
  "string \<Rightarrow> (autoRecoveryPolicy \<Rightarrow> err + string) \<Rightarrow> (string \<Rightarrow> string option) \<Rightarrow> err option \<Rightarrow> autoRecoveryPolicy stored_file
    \<Rightarrow> policy_status \<times> string" where
  "loadAutoRecoveryPolicy clusterID mac unhex path content =
     (let status = \<lparr>pl_Mode = ''observe'', pl_Valid = False\<rparr> in
      if path \<noteq> None then (status, ''invalid-path'')
      else case content of
        Missing \<Rightarrow> (status, ''missing-or-invalid'')
      | Unreadable e \<Rightarrow> (status, ''missing-or-invalid'')
      | Holds p \<Rightarrow>
          if po_ClusterID p \<noteq> clusterID \<or> po_UpdatedAt p = 0 \<or> po_Mode p \<notin> {''off'', ''observe'', ''on''}
          then (status, ''invalid-policy'')
          else case (mac (p\<lparr>po_MAC := []\<rparr>), unhex (po_MAC p)) of
            (Inr expected, Some provided) \<Rightarrow>
              if expected = provided then (\<lparr>pl_Mode = po_Mode p, pl_Valid = True\<rparr>, po_MAC p) else (status, ''invalid-signature'')
          | _ \<Rightarrow> (status, ''invalid-signature''))"

section \<open>Views of the peers\<close>

record recovery_view =
  rv_TransportRecovery :: "recoveryGeneration option"
  rv_NodeID :: string
  rv_LastLogIndex :: "64 word"
  rv_LastLogTerm :: "64 word"
  rv_HasLeader :: bool
  rv_MembershipRole :: string
  rv_DiscoveryViewHash :: string
  rv_Recovery :: recoveryGeneration
  rv_Protocol :: int

type_synonym addr_port = "addr \<times> nat"

text \<open>\<open>recoveryWinner\<close>: \<open>rank\<close> is \<open>candidateRank\<close>, the hexadecimal SHA-256 of an address.\<close>

definition recoveryWinner :: "(addr \<Rightarrow> string) \<Rightarrow> recovery_view \<Rightarrow> addr_port \<Rightarrow> recovery_view \<Rightarrow> addr_port \<Rightarrow> bool" where
  "recoveryWinner rank a aa b ba =
     (if (rv_MembershipRole a = ''voter'') \<noteq> (rv_MembershipRole b = ''voter'') then rv_MembershipRole a = ''voter''
      else if rv_LastLogTerm a \<noteq> rv_LastLogTerm b then rv_LastLogTerm a > rv_LastLogTerm b
      else if rv_LastLogIndex a \<noteq> rv_LastLogIndex b then rv_LastLogIndex a > rv_LastLogIndex b
      else rank (fst aa) < rank (fst ba))"

definition validRecoveryAddresses :: "addr_port list \<Rightarrow> nat \<Rightarrow> bool" where
  "validRecoveryAddresses addresses port \<longleftrightarrow> addresses \<noteq> [] \<and> length addresses \<le> 64
     \<and> list_all (\<lambda>(ip, p). ip \<noteq> NoAddr \<and> \<not> IsUnspecified ip \<and> \<not> IsMulticast ip \<and> Zone ip = [] \<and> p \<noteq> 0 \<and> (port \<noteq> 0 \<longrightarrow> p = port)) addresses
     \<and> distinct (map fst addresses)"

section \<open>What stands in the way\<close>

record resetIntent =
  ri_ClusterID :: string
  ri_NodeID :: string
  ri_Directory :: string
  ri_Moving :: bool
  ri_Recovery :: recoveryGeneration

definition autoRecoveryCooldown :: int where "autoRecoveryCooldown = 86400 * second"

definition blocking_files :: "string list" where
  "blocking_files = [''recover-singleton.json'', ''restore-singleton.json'', ''recovery-generation.json'', ''rejoin-reset.json'']"

definition done_stamp :: "string \<Rightarrow> string option" where
  "done_stamp name = (if take 23 name = ''recover-singleton.done-'' \<or> take 23 name = ''restore-singleton.done-''
     then Some (drop 23 name) else None)"

text \<open>\<open>recoveryBlocked\<close>: \<open>stat\<close> is the result of \<open>Lstat\<close>, \<open>reset\<close> the journal of a reset and \<open>stamp\<close> parses the time in the
  name of a request that was carried out.\<close>

definition recoveryBlocked ::
  "(string \<Rightarrow> unit stored_file) \<Rightarrow> resetIntent stored_file \<Rightarrow> err + string list \<Rightarrow> (string \<Rightarrow> time option) \<Rightarrow> clock \<Rightarrow> bool" where
  "recoveryBlocked stat reset entries stamp now \<longleftrightarrow>
     list_ex (\<lambda>name. case stat name of
         Missing \<Rightarrow> False
       | Unreadable e \<Rightarrow> True
       | Holds _ \<Rightarrow> \<not> (name = ''rejoin-reset.json'' \<and> (case reset of Holds i \<Rightarrow> \<not> ri_Moving i | _ \<Rightarrow> False))) blocking_files
     \<or> (case entries of
         Inl e \<Rightarrow> True
       | Inr names \<Rightarrow> list_ex (\<lambda>name. case done_stamp name of
           None \<Rightarrow> False
         | Some raw \<Rightarrow> (case stamp raw of None \<Rightarrow> True | Some t \<Rightarrow> ck_wall now < t \<or> ck_wall now - t < autoRecoveryCooldown)) names)"

section \<open>Evaluation\<close>

record recovery_plan =
  rp_winner :: recovery_view
  rp_lost :: "string list"
  rp_view :: string

text \<open>The fingerprint is the JSON text of these four values.\<close>

type_synonym fingerprint = "string \<times> string \<times> string list \<times> recoveryGeneration"

record evaluation =
  ev_guarded :: bool
  ev_conflict :: bool
  ev_localAddr :: addr
  ev_own :: "err + recovery_view"
  ev_generationPending :: bool
  ev_blocked :: "clock \<Rightarrow> bool"
  ev_conf :: "err + configuration"
  ev_views :: "addr_port \<Rightarrow> err + recovery_view"
  ev_cancelled :: "member \<Rightarrow> bool"
  ev_probe :: "member \<Rightarrow> err + peer_status"
  ev_ctx :: "err option"
  ev_leaderAgain :: bool

definition transport_differs :: "recovery_view \<Rightarrow> bool" where
  "transport_differs v = (case rv_TransportRecovery v of None \<Rightarrow> False | Some g \<Rightarrow> g \<noteq> rv_Recovery v)"

text \<open>The loop over the views: the identities seen and the best candidate, or nothing when a view breaks agreement.\<close>

definition view_agrees :: "recovery_view \<Rightarrow> string \<Rightarrow> string list \<Rightarrow> recovery_view \<Rightarrow> bool" where
  "view_agrees own hash seen v \<longleftrightarrow> \<not> transport_differs v \<and> rv_NodeID v \<notin> set seen \<and> \<not> rv_HasLeader v \<and> rv_DiscoveryViewHash v = hash
     \<and> rv_Protocol v = 1 \<and> rg_Generation (rv_Recovery v) \<le> rg_Generation (rv_Recovery own)
     \<and> \<not> (rg_Generation (rv_Recovery v) = rg_Generation (rv_Recovery own) \<and> rg_Lineage (rv_Recovery v) \<noteq> rg_Lineage (rv_Recovery own))
     \<and> \<not> (rv_NodeID v = rv_NodeID own \<and> rv_Recovery v \<noteq> rv_Recovery own)"

definition can_win :: "recovery_view \<Rightarrow> bool" where
  "can_win v \<longleftrightarrow> rv_LastLogIndex v \<noteq> 0 \<and> rv_MembershipRole v \<noteq> ''none''"

fun scan_views ::
  "(addr \<Rightarrow> string) \<Rightarrow> recovery_view \<Rightarrow> string \<Rightarrow> (addr_port \<times> (err + recovery_view)) list
    \<Rightarrow> string list \<times> (recovery_view \<times> addr_port) option \<Rightarrow> (string list \<times> (recovery_view \<times> addr_port) option) option" where
  "scan_views rank own hash [] r = Some r"
| "scan_views rank own hash ((a, res) # rest) (seen, winner) = (case res of
     Inl e \<Rightarrow> None
   | Inr v \<Rightarrow>
       if \<not> view_agrees own hash seen v then None
       else let seen = seen @ [rv_NodeID v] in
         if \<not> can_win v then scan_views rank own hash rest (seen, winner)
         else scan_views rank own hash rest (seen, case winner of
             None \<Rightarrow> Some (v, a)
           | Some (w, b) \<Rightarrow> if recoveryWinner rank v a w b then Some (v, a) else winner))"

text \<open>The loop over the voters: how many there are, how many discovery lists and who is absent.\<close>

fun count_voters ::
  "addr_parser \<Rightarrow> string list \<Rightarrow> addr_port list \<Rightarrow> configuration \<Rightarrow> nat \<times> nat \<times> member list \<Rightarrow> err + nat \<times> nat \<times> member list" where
  "count_voters pa seen addresses [] r = Inr r"
| "count_voters pa seen addresses (s # ss) (n, present, absent) =
     (if sv_Suffrage s \<noteq> Voter then count_voters pa seen addresses ss (n, present, absent)
      else case parseAddress pa (sv_Address s) of
        Inl e \<Rightarrow> Inl e
      | Inr m \<Rightarrow>
          let ip = (case pa (m_Address m) of None \<Rightarrow> NoAddr | Some (ip, port) \<Rightarrow> ip)
          in if m_ID m \<in> set seen \<or> list_ex (\<lambda>a. fst a = ip) addresses
             then count_voters pa seen addresses ss (n + 1, present + 1, absent)
             else count_voters pa seen addresses ss (n + 1, present, absent @ [m]))"

definition still_reachable :: "evaluation \<Rightarrow> member \<Rightarrow> bool" where
  "still_reachable ev m = (ev_cancelled ev m \<or> (case ev_probe ev m of Inl e \<Rightarrow> False | Inr st \<Rightarrow> ps_ID st = m_ID m))"

definition evaluate ::
  "addr_parser \<Rightarrow> (addr \<Rightarrow> string) \<Rightarrow> evaluation \<Rightarrow> addr_port list \<Rightarrow> string \<Rightarrow> clock \<Rightarrow> err + recovery_plan \<times> fingerprint" where
  "evaluate pa rank ev addresses hash now =
     (if \<not> ev_guarded ev \<or> ev_conflict ev then Inl KvErrNotLeader
      else if \<not> list_ex (\<lambda>a. fst a = ev_localAddr ev) addresses then Inl KvErrNotLeader
      else case ev_own ev of
        Inl e \<Rightarrow> Inl KvErrNotLeader
      | Inr own \<Rightarrow>
          if rv_HasLeader own \<or> transport_differs own \<or> rv_LastLogIndex own = 0 \<or> rv_MembershipRole own = ''none''
             \<or> ev_generationPending ev \<or> ev_blocked ev now then Inl KvErrNotLeader
          else case ev_conf ev of
            Inl e \<Rightarrow> Inl e
          | Inr c \<Rightarrow> (case scan_views rank own hash (map (\<lambda>a. (a, ev_views ev a)) addresses) ([], None) of
              None \<Rightarrow> Inl KvErrNotLeader
            | Some (seen, None) \<Rightarrow> Inl KvErrNotLeader
            | Some (seen, Some (winner, _)) \<Rightarrow>
                if rv_NodeID own \<notin> set seen then Inl KvErrNotLeader
                else (case count_voters pa seen addresses c (0, 0, []) of
                  Inl e \<Rightarrow> Inl e
                | Inr (n, present, absent) \<Rightarrow>
                    if n = 0 \<or> present \<ge> n div 2 + 1 \<or> absent = [] then Inl KvErrNotLeader
                    else if list_ex (still_reachable ev) absent then Inl KvErrNotLeader
                    else case ev_ctx ev of
                      Some e \<Rightarrow> Inl e
                    | None \<Rightarrow>
                        if ev_leaderAgain ev then Inl KvErrNotLeader
                        else let lost = sort (map m_ID absent)
                          in Inr (\<lparr>rp_winner = winner, rp_lost = lost, rp_view = hash\<rparr>, (hash, rv_NodeID winner, lost, rv_Recovery own)))))"

section \<open>The manager\<close>

record recoveryManager =
  rm_lastSample :: "clock option"
  rm_since :: "clock option"
  rm_missingSince :: "clock option"
  rm_fingerprint :: "fingerprint option"
  rm_policyFingerprint :: string
  rm_reported :: bool
  rm_fenceReported :: bool
  rm_conflictDetected :: bool

text \<open>The parts of the node the manager writes: the fence, the pending request to the runtime with the number of
  requests sent, and the details it publishes.\<close>

record recovery_node =
  rn_selfFenced :: bool
  rn_controlPending :: bool
  rn_control :: nat
  rn_details :: "string \<times> string \<times> string"

record recovery_config =
  rc_localID :: string
  rc_localAddr :: addr
  rc_statusPort :: nat
  rc_window :: int

definition resetWindow :: "recoveryManager \<Rightarrow> recoveryManager" where
  "resetWindow m = m\<lparr>rm_since := None, rm_fingerprint := None, rm_reported := False\<rparr>"

record tick_env =
  tk_now :: clock
  tk_policy :: policy_status
  tk_signature :: string
  tk_conflict :: bool
  tk_refresh :: "err option"
  tk_addresses :: "addr_port list"
  tk_fresh :: bool
  tk_view :: string
  tk_evaluation :: evaluation

definition publish :: "string \<Rightarrow> string \<Rightarrow> string \<Rightarrow> recovery_node \<Rightarrow> recovery_node" where
  "publish v state mode n = n\<lparr>rn_details := (v, state, mode)\<rparr>"

text \<open>The start of a tick: a new policy or a gap in the samples starts the evidence afresh.\<close>

definition tick_start :: "tick_env \<Rightarrow> recoveryManager \<Rightarrow> recoveryManager" where
  "tick_start t m =
     (let m = (if tk_signature t \<noteq> rm_policyFingerprint m
             \<or> rm_lastSample m \<noteq> None \<and> \<not> recoverySampleGapValid (rm_lastSample m) (tk_now t)
           then (resetWindow m)\<lparr>rm_missingSince := None, rm_fenceReported := False\<rparr> else m)
      in m\<lparr>rm_policyFingerprint := tk_signature t, rm_lastSample := Some (tk_now t), rm_conflictDetected := tk_conflict t\<rparr>)"

text \<open>A node that discovery does not list fences itself after a whole window.\<close>

definition self_absent :: "recovery_config \<Rightarrow> tick_env \<Rightarrow> recoveryManager \<times> recovery_node \<Rightarrow> recoveryManager \<times> recovery_node" where
  "self_absent c t = (\<lambda>(m, n).
     let m = resetWindow m;
         since = (case rm_missingSince m of None \<Rightarrow> tk_now t | Some s \<Rightarrow> s);
         m = m\<lparr>rm_missingSince := Some since\<rparr>
     in if recoveryWindowElapsed since (tk_now t) \<ge> rc_window c
        then (m\<lparr>rm_fenceReported := True\<rparr>, if pl_Valid (tk_policy t) \<and> pl_Mode (tk_policy t) = ''on'' then n\<lparr>rn_selfFenced := True\<rparr> else n)
        else (m, n))"

text \<open>The end of a tick whose evaluation gave a plan.\<close>

definition collect ::
  "recovery_config \<Rightarrow> tick_env \<Rightarrow> recovery_plan \<times> fingerprint \<Rightarrow> recoveryManager \<times> recovery_node \<Rightarrow> recoveryManager \<times> recovery_node" where
  "collect c t = (\<lambda>(plan, fp) (m, n).
     let mode = pl_Mode (tk_policy t);
         m = (if rm_fingerprint m \<noteq> Some fp \<or> rm_since m = None
              then m\<lparr>rm_since := Some (tk_now t), rm_fingerprint := Some fp, rm_reported := False\<rparr> else m)
     in if recoveryWindowElapsed (the (rm_since m)) (tk_now t) < rc_window c
        then (m, publish (tk_view t) ''collecting-evidence'' mode n)
        else let n = publish (tk_view t) ''window-satisfied'' mode n
          in (m\<lparr>rm_reported := True\<rparr>,
              if mode = ''on'' \<and> rv_NodeID (rp_winner plan) = rc_localID c \<and> \<not> rn_controlPending n
              then n\<lparr>rn_controlPending := True, rn_control := rn_control n + 1\<rparr> else n))"

definition tick ::
  "addr_parser \<Rightarrow> (addr \<Rightarrow> string) \<Rightarrow> recovery_config \<Rightarrow> tick_env \<Rightarrow> recoveryManager \<times> recovery_node
    \<Rightarrow> err option \<times> recoveryManager \<times> recovery_node" where
  "tick pa rank c t = (\<lambda>(m, n).
     let m = tick_start t m; mode = pl_Mode (tk_policy t);
         n = (if mode \<noteq> ''on'' then n\<lparr>rn_selfFenced := False\<rparr> else n);
         forget = (\<lambda>m. (resetWindow m)\<lparr>rm_missingSince := None\<rparr>)
     in if mode = ''off'' then (None, forget m, publish [] ''off'' mode n)
        else if tk_refresh t \<noteq> None then (Some KvErrNotLeader, forget m, publish [] ''discovery-failed'' mode n)
        else if \<not> tk_fresh t \<or> \<not> validRecoveryAddresses (tk_addresses t) (rc_statusPort c)
        then (Some KvErrNotLeader, forget m, publish [] ''invalid-discovery'' mode n)
        else if \<not> list_ex (\<lambda>a. fst a = rc_localAddr c) (tk_addresses t) then
          let (m, n) = self_absent c t (m, n) in (Some KvErrNotLeader, m, publish (tk_view t) ''self-absent'' mode n)
        else
          let m = m\<lparr>rm_missingSince := None, rm_fenceReported := False\<rparr>; n = n\<lparr>rn_selfFenced := False\<rparr>
          in if \<not> pl_Valid (tk_policy t)
             then (Some KvErrNotLeader, resetWindow m, publish (tk_view t) ''unsigned-policy-observe'' mode n)
             else if rm_conflictDetected m
             then (Some KvErrNotLeader, resetWindow m, publish (tk_view t) ''multiple-leaders-manual-review'' mode n)
             else case evaluate pa rank (tk_evaluation t) (tk_addresses t) (tk_view t) (tk_now t) of
               Inl e \<Rightarrow> (Some e, resetWindow m, publish (tk_view t) ''waiting'' mode n)
             | Inr plan \<Rightarrow> (None, collect c t plan (m, n)))"

section \<open>The request for recovery\<close>

record singletonRequest =
  sr_NodeID :: string
  sr_ExpectedLastIndex :: "64 word"
  sr_AllowLearner :: bool

text \<open>\<open>performRecovery\<close>: the policy, discovery and the clock as they are read, twice, and then what the closed node and
  its disk say.\<close>

record perform_env =
  pf_policy1 :: policy_status
  pf_signature1 :: string
  pf_now1 :: clock
  pf_now2 :: clock
  pf_refresh :: "err option"
  pf_addresses :: "addr_port list"
  pf_fresh :: bool
  pf_view :: string
  pf_now3 :: clock
  pf_evaluation :: evaluation
  pf_policy2 :: policy_status
  pf_signature2 :: string
  pf_fresh2 :: bool
  pf_view2 :: string
  pf_conflict :: bool
  pf_now4 :: clock
  pf_close :: "err option"
  pf_position :: "64 word \<times> 64 word"
  pf_last :: "err + 64 word"
  pf_tail :: "err + 64 word"
  pf_present :: bool
  pf_write :: "err option"

text \<open>After Raft is closed: the request that is written, or the error.\<close>

definition write_request :: "recovery_config \<Rightarrow> perform_env \<Rightarrow> recovery_view \<Rightarrow> err + singletonRequest" where
  "write_request c p w = (case pf_close p of
     Some e \<Rightarrow> Inl e
   | None \<Rightarrow>
       if pf_position p \<noteq> (rv_LastLogIndex w, rv_LastLogTerm w) then Inl (ErrOther ''Raft position changed during shutdown'')
       else case pf_last p of
         Inl e \<Rightarrow> Inl e
       | Inr l \<Rightarrow> (case (if l > 0 then pf_tail p else Inr 0) of
           Inl e \<Rightarrow> Inl e
         | Inr term \<Rightarrow>
             if l > rv_LastLogIndex w \<or> l = rv_LastLogIndex w \<and> l > 0 \<and> term \<noteq> rv_LastLogTerm w
             then Inl (ErrOther ''Raft history changed during recovery shutdown'')
             else if pf_present p then Inl (ErrOther ''recovery request already present'')
             else case pf_write p of
               Some e \<Rightarrow> Inl e
             | None \<Rightarrow> Inr \<lparr>sr_NodeID = rc_localID c, sr_ExpectedLastIndex = l, sr_AllowLearner = rv_MembershipRole w = ''learner''\<rparr>))"

text \<open>Whether Raft was stopped, the request that was written and the manager.\<close>

definition performRecovery ::
  "addr_parser \<Rightarrow> (addr \<Rightarrow> string) \<Rightarrow> recovery_config \<Rightarrow> perform_env \<Rightarrow> recoveryManager
    \<Rightarrow> bool \<times> (err + singletonRequest) \<times> recoveryManager" where
  "performRecovery pa rank c p m =
     (let refused = (False, Inl KvErrNotLeader, resetWindow m) in
      case rm_since m of
        None \<Rightarrow> refused
      | Some since \<Rightarrow>
          if \<not> pl_Valid (pf_policy1 p) \<or> pl_Mode (pf_policy1 p) \<noteq> ''on'' \<or> pf_signature1 p \<noteq> rm_policyFingerprint m
             \<or> recoveryWindowElapsed since (pf_now1 p) < rc_window c
             \<or> \<not> recoverySampleGapValid (rm_lastSample m) (pf_now2 p) \<or> pf_refresh p \<noteq> None then refused
          else if \<not> pf_fresh p \<or> \<not> validRecoveryAddresses (pf_addresses p) (rc_statusPort c) then refused
          else case evaluate pa rank (pf_evaluation p) (pf_addresses p) (pf_view p) (pf_now3 p) of
            Inl e \<Rightarrow> refused
          | Inr (plan, fp) \<Rightarrow>
              if Some fp \<noteq> rm_fingerprint m \<or> rv_NodeID (rp_winner plan) \<noteq> rc_localID c then refused
              else if \<not> pl_Valid (pf_policy2 p) \<or> pl_Mode (pf_policy2 p) \<noteq> ''on'' \<or> pf_signature2 p \<noteq> pf_signature1 p
                \<or> \<not> pf_fresh2 p \<or> pf_view2 p \<noteq> rp_view plan \<or> rm_conflictDetected m \<or> pf_conflict p
                \<or> \<not> recoverySampleGapValid (rm_lastSample m) (pf_now4 p) then refused
              else (True, write_request c p (rp_winner plan), m))"

end
