(* ===== verification/Rejoin.thy ===== *)
theory Rejoin
  imports Recovery
begin

text \<open>
  Generations of a recovered history and the return of members that missed a recovery
  (\<open>internal/cluster/recovery_generation.go\<close>, \<open>recovery.go\<close>, \<open>rejoin_protocol.go\<close>): a node that recovers alone commits a
  new generation; a member of an older one may come back only with the leader's approval, or resets its
  state when no majority of its own generation can be reached.
\<close>

section \<open>Generations\<close>

definition no_generation :: recoveryGeneration where
  "no_generation = \<lparr>rg_Generation = 0, rg_Lineage = []\<rparr>"

text \<open>The method \<open>recoveryGeneration\<close>, on the version and the decoded value of the row.\<close>

definition Node_recoveryGeneration :: "64 word \<times> recoveryGeneration option \<Rightarrow> err + recoveryGeneration" where
  "Node_recoveryGeneration row = (if fst row = 0 then Inr no_generation else case snd row of
     None \<Rightarrow> Inl KvErrInvalid
   | Some g \<Rightarrow> if rg_Generation g = 0 \<or> length (rg_Lineage g) \<noteq> 32 then Inl KvErrInvalid else Inr g)"

record generationIntent =
  gi_ClusterID :: string
  gi_NodeID :: string
  gi_Recovery :: recoveryGeneration

text \<open>The intent that is written, if any, and the error.\<close>

definition prepareGenerationIntent ::
  "string \<Rightarrow> string \<Rightarrow> generationIntent stored_file \<Rightarrow> err option \<Rightarrow> generationIntent option \<times> err option" where
  "prepareGenerationIntent clusterID local existing replace = (case existing of
     Holds i \<Rightarrow> (None, if gi_ClusterID i \<noteq> clusterID \<or> gi_NodeID i \<noteq> local then Some KvErrInvalid else None)
   | Unreadable e \<Rightarrow> (None, Some e)
   | Missing \<Rightarrow> (case replace of
       Some e \<Rightarrow> (None, Some e)
     | None \<Rightarrow> (Some \<lparr>gi_ClusterID = clusterID, gi_NodeID = local, gi_Recovery = no_generation\<rparr>, None)))"

record finish_env =
  fg_fence :: "err option"
  fg_row :: "64 word \<times> recoveryGeneration option"
  fg_guard :: "(err + recoveryGeneration) option"
  fg_watermark :: "generationIntent stored_file"
  fg_millis :: "64 word"
  fg_lineage :: string
  fg_replace :: "err option"
  fg_lstat :: "err option"
  fg_commit :: "err option"
  fg_guard2 :: "(err + recoveryGeneration) option"
  fg_replace2 :: "err option"
  fg_consume :: "err option"

text \<open>The choice of a generation above everything known; \<open>highest + 1\<close> wraps around.\<close>

definition known_generation :: "string \<Rightarrow> finish_env \<Rightarrow> 64 word \<Rightarrow> err + 64 word" where
  "known_generation clusterID f current = (case (case fg_guard f of
       None \<Rightarrow> Inr current
     | Some (Inl e) \<Rightarrow> Inl e
     | Some (Inr known) \<Rightarrow> Inr (max current (rg_Generation known))) of
     Inl e \<Rightarrow> Inl e
   | Inr highest \<Rightarrow> (case fg_watermark f of
       Missing \<Rightarrow> Inr highest
     | Unreadable e \<Rightarrow> Inl e
     | Holds w \<Rightarrow> if gi_ClusterID w \<noteq> clusterID then Inl KvErrInvalid else Inr (max highest (rg_Generation (gi_Recovery w)))))"

definition choose_generation :: "string \<Rightarrow> finish_env \<Rightarrow> 64 word \<Rightarrow> generationIntent \<Rightarrow> generationIntent \<times> err option" where
  "choose_generation clusterID f current i =
     (if rg_Generation (gi_Recovery i) \<noteq> 0 then (i, None)
      else case known_generation clusterID f current of
        Inl e \<Rightarrow> (i, Some e)
      | Inr highest \<Rightarrow>
          let i = i\<lparr>gi_Recovery := \<lparr>rg_Generation = max (highest + 1) (fg_millis f), rg_Lineage = fg_lineage f\<rparr>\<rparr>
          in (i, case fg_replace f of Some e \<Rightarrow> Some e | None \<Rightarrow> fg_lstat f))"

text \<open>\<open>finishRecoveryGeneration\<close>: the intent it leaves, the generation it commits, if any, and its error.\<close>

definition finishRecoveryGeneration ::
  "string \<Rightarrow> finish_env \<Rightarrow> generationIntent \<Rightarrow> generationIntent \<times> recoveryGeneration option \<times> err option" where
  "finishRecoveryGeneration clusterID f i = (case fg_fence f of
     Some e \<Rightarrow> (i, None, Some e)
   | None \<Rightarrow> (case Node_recoveryGeneration (fg_row f) of
       Inl e \<Rightarrow> (i, None, Some e)
     | Inr current \<Rightarrow> (case choose_generation clusterID f (rg_Generation current) i of
         (i, Some e) \<Rightarrow> (i, None, Some e)
       | (i, None) \<Rightarrow>
           let rest = (case fg_guard2 f of
                 Some (Inl e) \<Rightarrow> Some e
               | _ \<Rightarrow> (case fg_replace2 f of Some e \<Rightarrow> Some e | None \<Rightarrow> fg_consume f))
           in if current = gi_Recovery i then (i, None, rest)
              else if rg_Generation current \<ge> rg_Generation (gi_Recovery i) then (i, None, Some KvErrInvalid)
              else case fg_commit f of
                Some e \<Rightarrow> (i, None, Some e)
              | None \<Rightarrow> (i, Some (gi_Recovery i), rest))))"

section \<open>Requests for recovery\<close>

text \<open>\<open>latestRecoveryConfiguration\<close>: entries after the newest snapshot, in their order.\<close>

fun scan_configuration :: "(nat \<Rightarrow> err + (err + configuration) option) \<Rightarrow> nat list \<Rightarrow> configuration \<Rightarrow> err + configuration" where
  "scan_configuration entry [] c = Inr c"
| "scan_configuration entry (i # is) c = (case entry i of
     Inl e \<Rightarrow> Inl e
   | Inr None \<Rightarrow> scan_configuration entry is c
   | Inr (Some (Inl e)) \<Rightarrow> Inl (ErrOther ''invalid persisted Raft configuration'')
   | Inr (Some (Inr d)) \<Rightarrow> scan_configuration entry is d)"

definition latestRecoveryConfiguration ::
  "err + (nat \<times> configuration) list \<Rightarrow> err + nat \<Rightarrow> err + nat \<Rightarrow> (nat \<Rightarrow> err + (err + configuration) option) \<Rightarrow> err + configuration" where
  "latestRecoveryConfiguration metas first lastIx entry = (case metas of
     Inl e \<Rightarrow> Inl e
   | Inr ms \<Rightarrow>
       let (after, c) = (case ms of [] \<Rightarrow> (0, []) | m # _ \<Rightarrow> m)
       in case first of
         Inl e \<Rightarrow> Inl e
       | Inr f \<Rightarrow> (case lastIx of
           Inl e \<Rightarrow> Inl e
         | Inr l \<Rightarrow>
             let start = max f ((after + 1) mod 2 ^ 64)
             in if start = 0 then Inr c else scan_configuration entry [start..<Suc l] c))"

definition validateSingleton ::
  "string \<Rightarrow> singletonRequest \<Rightarrow> bool \<Rightarrow> err + 64 word \<Rightarrow> err + configuration \<Rightarrow> err option" where
  "validateSingleton local request existing lastIx conf =
     (if \<not> existing then Some (ErrOther ''singleton recovery requires existing Raft state'')
      else case lastIx of
        Inl e \<Rightarrow> Some e
      | Inr l \<Rightarrow>
          if l \<noteq> sr_ExpectedLastIndex request then Some (ErrOther ''singleton recovery last index mismatch'')
          else case conf of
            Inl e \<Rightarrow> Some e
          | Inr c \<Rightarrow>
              if list_ex (\<lambda>s. sv_ID s = local \<and> (sv_Suffrage s = Voter \<or> sr_AllowLearner request \<and> sv_Suffrage s = Nonvoter)) c
              then None
              else Some (ErrOther ''singleton recovery requires this node to be a voter in the latest configuration''))"

section \<open>The position of a node\<close>

text \<open>\<open>logPosition\<close>: of the log, or of the newest snapshot when it is ahead.\<close>

definition logPosition :: "64 word \<times> 64 word \<Rightarrow> 64 word \<times> 64 word \<Rightarrow> 64 word \<times> 64 word" where
  "logPosition log snap = (if fst snap > fst log then snap else log)"

record view_env =
  ve_localID :: string
  ve_log :: "64 word \<times> 64 word"
  ve_snapshot :: "64 word \<times> 64 word"
  ve_leader :: string
  ve_isLeader :: bool
  ve_conf :: "err + configuration"
  ve_row :: "64 word \<times> recoveryGeneration option"
  ve_view :: string
  ve_protocol :: int
  ve_auto :: "string option"
  ve_guard :: "(err + recoveryGeneration) option"

definition membership_role :: "string \<Rightarrow> configuration \<Rightarrow> string" where
  "membership_role i c = (case filter (\<lambda>s. sv_ID s = i) c of
     [] \<Rightarrow> ''none'' | ss \<Rightarrow> if sv_Suffrage (last ss) = Voter then ''voter'' else ''learner'')"

definition Node_RecoveryView :: "view_env \<Rightarrow> err + recovery_view" where
  "Node_RecoveryView v = (let (index, term) = logPosition (ve_log v) (ve_snapshot v) in
     case ve_conf v of
       Inl e \<Rightarrow> Inl e
     | Inr c \<Rightarrow> (case Node_recoveryGeneration (ve_row v) of
         Inl e \<Rightarrow> Inl e
       | Inr g \<Rightarrow>
           let view = \<lparr>rv_TransportRecovery = None, rv_NodeID = ve_localID v, rv_LastLogIndex = index, rv_LastLogTerm = term,
                 rv_HasLeader = (ve_leader v \<noteq> [] \<or> ve_isLeader v), rv_MembershipRole = membership_role (ve_localID v) c,
                 rv_DiscoveryViewHash = (if ve_view v = [] then (case ve_auto v of None \<Rightarrow> [] | Some h \<Rightarrow> h) else ve_view v),
                 rv_Recovery = g, rv_Protocol = ve_protocol v\<rparr>
           in case ve_guard v of
             None \<Rightarrow> Inr view
           | Some (Inl e) \<Rightarrow> Inl e
           | Some (Inr effective) \<Rightarrow> Inr (if effective \<noteq> g then view\<lparr>rv_TransportRecovery := Some effective\<rparr> else view)))"

section \<open>Coming back\<close>

datatype rejoin_reply = Refused nat | Reply string recoveryGeneration

text \<open>A request after its body: \<open>rj_refused\<close> is the answer of the checks on the request, its credential and the
  candidate; \<open>rj_hash\<close> the hash of the peer's key; \<open>rj_clock\<close> the reading for each approval looked at.\<close>

record rejoin_env =
  rj_refused :: "nat option"
  rj_member :: member
  rj_recovery :: recoveryGeneration
  rj_current :: "err + recoveryGeneration"
  rj_leader :: bool
  rj_pending :: bool
  rj_fence :: "err option"
  rj_hash :: string
  rj_row :: "64 word \<times> admission option"
  rj_row2 :: "64 word \<times> admission option"
  rj_clock :: "string \<Rightarrow> time"
  rj_now :: time

definition identity_mismatch :: "64 word \<times> admission option \<Rightarrow> string \<Rightarrow> string \<Rightarrow> bool" where
  "identity_mismatch row hash i \<longleftrightarrow> fst row \<noteq> 0 \<and> (case snd row of
     None \<Rightarrow> True | Some old \<Rightarrow> ad_KeyHash old \<noteq> hash \<or> m_ID (ad_Member old) \<noteq> i)"

definition live_approvals :: "(string \<Rightarrow> time) \<Rightarrow> (string, rejoinApproval) fmap \<Rightarrow> (string, rejoinApproval) fmap" where
  "live_approvals clock values =
     fmfilter (\<lambda>i. case fmlookup values i of None \<Rightarrow> False | Some a \<Rightarrow> clock i < ra_expires a) values"

definition rejoinServe :: "rejoin_env \<Rightarrow> (string, rejoinApproval) fmap \<Rightarrow> rejoin_reply \<times> (string, rejoinApproval) fmap" where
  "rejoinServe j values = (case rj_refused j of
     Some status \<Rightarrow> (Refused status, values)
   | None \<Rightarrow> (case rj_current j of
       Inl e \<Rightarrow> (Refused 503, values)
     | Inr current \<Rightarrow>
         if \<not> (rj_leader j \<and> \<not> rj_pending j \<and> rj_fence j = None) then (Reply ''wait'' current, values)
         else if rg_Generation (rj_recovery j) < rg_Generation current
              \<or> rg_Generation (rj_recovery j) = rg_Generation current \<and> rg_Lineage (rj_recovery j) \<noteq> rg_Lineage current
         then (if identity_mismatch (rj_row2 j) (rj_hash j) (m_ID (rj_member j)) then (Refused 403, values)
               else (Reply ''reset_required'' current, values))
         else if rj_recovery j = current then
           (if identity_mismatch (rj_row j) (rj_hash j) (m_ID (rj_member j)) then (Refused 403, values)
            else let live = live_approvals (rj_clock j) values in
              if fcard (fmdom live) \<ge> 64 then (Refused 503, live)
              else (Reply ''ok'' current, fmupd (m_ID (rj_member j))
                \<lparr>ra_key = rj_hash j, ra_recovery = current, ra_expires = rj_now j + 60 * second\<rparr> live))
         else (Reply ''wait'' current, values)))"

section \<open>Giving up a stranded history\<close>

record reset_env =
  rs_conflict :: bool
  rs_isLeader :: bool
  rs_leader :: string
  rs_conf :: "err + configuration"
  rs_current :: "err + recoveryGeneration"
  rs_local :: string
  rs_probe :: "member \<Rightarrow> err + peer_status"
  rs_exchange :: "member \<Rightarrow> err + recoveryGeneration"
  rs_conflict2 :: bool

text \<open>A voter counts as reachable unless its probe fails or it names another generation.\<close>

definition may_be_live :: "reset_env \<Rightarrow> recoveryGeneration \<Rightarrow> member \<Rightarrow> bool" where
  "may_be_live r current m = (case rs_probe r m of
     Inl e \<Rightarrow> False
   | Inr st \<Rightarrow> ps_ID st = m_ID m \<and> (case rs_exchange r m of Inl e \<Rightarrow> True | Inr g \<Rightarrow> g = current))"

fun count_reachable ::
  "addr_parser \<Rightarrow> reset_env \<Rightarrow> recoveryGeneration \<Rightarrow> configuration \<Rightarrow> nat \<times> nat \<times> bool \<Rightarrow> (nat \<times> nat \<times> bool) option" where
  "count_reachable pa r current [] x = Some x"
| "count_reachable pa r current (s # ss) (n, reachable, self) =
     (if sv_Suffrage s \<noteq> Voter then count_reachable pa r current ss (n, reachable, self)
      else if sv_ID s = rs_local r then count_reachable pa r current ss (n + 1, reachable + 1, True)
      else case parseAddress pa (sv_Address s) of
        Inl e \<Rightarrow> None
      | Inr m \<Rightarrow> count_reachable pa r current ss (n + 1, if may_be_live r current m then reachable + 1 else reachable, self))"

definition mayReset :: "addr_parser \<Rightarrow> reset_env \<Rightarrow> bool" where
  "mayReset pa r \<longleftrightarrow> \<not> rs_conflict r \<and> \<not> rs_isLeader r \<and> rs_leader r = [] \<and> (case (rs_conf r, rs_current r) of
     (Inr c, Inr current) \<Rightarrow> (case count_reachable pa r current c (0, 0, False) of
       None \<Rightarrow> False
     | Some (n, reachable, self) \<Rightarrow> \<not> rs_conflict2 r \<and> (\<not> self \<or> reachable < n div 2 + 1))
   | _ \<Rightarrow> False)"

end
