(* ===== verification/Recovery_Safety.thy ===== *)
theory Recovery_Safety
  imports Rejoin "HOL-Library.Product_Lexorder"
begin

text \<open>
  Why automatic recovery is safe to leave on: what an evaluation that gives a plan has established, that nodes
  with the same views agree on who recovers, that a request is written only after a whole window of agreeing
  evidence, that generations grow, and that approvals to come back are bound to a key and a generation.
\<close>

section \<open>The best candidate\<close>

text \<open>The comparison is a lexicographic order: voters first, then the later term, the longer log and the rank.\<close>

definition winner_key :: "(addr \<Rightarrow> string) \<Rightarrow> recovery_view \<Rightarrow> addr_port \<Rightarrow> bool \<times> int \<times> int \<times> string" where
  "winner_key rank v a = (rv_MembershipRole v \<noteq> ''voter'', - uint (rv_LastLogTerm v), - uint (rv_LastLogIndex v), rank (fst a))"

lemma recoveryWinner_key: "recoveryWinner rank v a w b \<longleftrightarrow> winner_key rank v a < winner_key rank w b"
  by (auto simp: recoveryWinner_def winner_key_def word_less_def word_uint_eq_iff)

lemma recoveryWinner_irrefl: "\<not> recoveryWinner rank a aa a aa"
  by (simp add: recoveryWinner_key)

lemma recoveryWinner_negative:
  "\<not> recoveryWinner rank v a w b \<Longrightarrow> recoveryWinner rank x d w b \<Longrightarrow> \<not> recoveryWinner rank v a x d"
  unfolding recoveryWinner_key by order

lemma recoveryWinner_total:
  assumes "\<not> recoveryWinner rank v a w b" "\<not> recoveryWinner rank w b v a"
  shows "rank (fst a) = rank (fst b)"
proof -
  have "winner_key rank v a = winner_key rank w b" using assms unfolding recoveryWinner_key by order
  then show ?thesis by (simp add: winner_key_def)
qed

text \<open>A loop over the views keeps the best candidate met so far.\<close>

definition candidate :: "(addr_port \<times> (err + recovery_view)) list \<Rightarrow> recovery_view \<times> addr_port \<Rightarrow> bool" where
  "candidate vs x \<longleftrightarrow> (snd x, Inr (fst x)) \<in> set vs \<and> can_win (fst x)"

definition unbeaten :: "(addr \<Rightarrow> string) \<Rightarrow> (addr_port \<times> (err + recovery_view)) list \<Rightarrow> recovery_view \<times> addr_port \<Rightarrow> bool" where
  "unbeaten rank vs x \<longleftrightarrow> (\<forall>v a. candidate vs (v, a) \<longrightarrow> \<not> recoveryWinner rank v a (fst x) (snd x))"

definition best_so_far :: "(addr \<Rightarrow> string) \<Rightarrow> (addr_port \<times> (err + recovery_view)) list \<Rightarrow> (recovery_view \<times> addr_port) option \<Rightarrow> bool" where
  "best_so_far rank vs w = (case w of None \<Rightarrow> (\<forall>x. \<not> candidate vs x) | Some x \<Rightarrow> candidate vs x \<and> unbeaten rank vs x)"

lemma best_so_far_skip:
  "best_so_far rank vs w \<Longrightarrow> \<not> can_win v \<Longrightarrow> best_so_far rank (vs @ [(a, Inr v)]) w"
  by (auto simp: best_so_far_def candidate_def unbeaten_def split: option.splits)

lemma best_so_far_next:
  assumes "best_so_far rank vs w" "can_win v"
  shows "best_so_far rank (vs @ [(a, Inr v)]) (case w of
             None \<Rightarrow> Some (v, a)
           | Some (x, b) \<Rightarrow> if recoveryWinner rank v a x b then Some (v, a) else w)"
proof (cases w)
  case None
  then show ?thesis using assms recoveryWinner_irrefl by (auto simp: best_so_far_def candidate_def unbeaten_def)
next
  case (Some y)
  obtain x b where y: "y = (x, b)" by (cases y)
  have c: "candidate (vs @ [(a, Inr v)]) z \<longleftrightarrow> candidate vs z \<or> z = (v, a)" for z
    using assms(2) by (cases z) (auto simp: candidate_def)
  have "candidate vs (x, b)" and u: "\<And>z d. candidate vs (z, d) \<Longrightarrow> \<not> recoveryWinner rank z d x b"
    using assms(1) by (auto simp: best_so_far_def unbeaten_def Some y)
  then show ?thesis using recoveryWinner_irrefl[of rank v a] recoveryWinner_negative[of rank _ _ x b v a]
    by (auto simp: best_so_far_def unbeaten_def c Some y)
qed

lemma scan_views_ok:
  assumes "scan_views rank own hash vs (seen, w) = Some (seen', w')" "best_so_far rank before w"
  shows "best_so_far rank (before @ vs) w' \<and> (\<forall>(a, r) \<in> set vs. \<exists>v seen. r = Inr v \<and> view_agrees own hash seen v)
    \<and> set seen' = set seen \<union> {rv_NodeID v | a v. (a, Inr v) \<in> set vs}"
  using assms
proof (induction vs arbitrary: seen w before)
  case (Cons x vs)
  obtain a v where x: "x = (a, Inr v)" and ag: "view_agrees own hash seen v"
    using Cons.prems(1) by (cases x) (auto split: sum.splits if_splits)
  obtain w2 where rec: "scan_views rank own hash vs (seen @ [rv_NodeID v], w2) = Some (seen', w')"
    and best: "best_so_far rank (before @ [(a, Inr v)]) w2"
    using Cons.prems ag best_so_far_skip[OF Cons.prems(2), of v a] best_so_far_next[OF Cons.prems(2), of v a]
    by (auto simp: x Let_def split: if_splits)
  from Cons.IH[OF rec best] ag show ?case by (cases a) (auto simp: x)
qed simp

section \<open>What a plan rests on\<close>

text \<open>A voter is present for the evaluation if discovery lists its address or one of the views is its own.\<close>

definition listed :: "addr_parser \<Rightarrow> evaluation \<Rightarrow> addr_port list \<Rightarrow> member \<Rightarrow> bool" where
  "listed pa ev addresses m \<longleftrightarrow> (\<exists>a \<in> set addresses. fst a = (case pa (m_Address m) of None \<Rightarrow> NoAddr | Some (ip, port) \<Rightarrow> ip)
     \<or> (\<exists>v. ev_views ev a = Inr v \<and> rv_NodeID v = m_ID m))"

definition voter_members :: "addr_parser \<Rightarrow> configuration \<Rightarrow> member list \<Rightarrow> bool" where
  "voter_members pa c ms \<longleftrightarrow> map (\<lambda>s. parseAddress pa (sv_Address s)) (filter (\<lambda>s. sv_Suffrage s = Voter) c) = map Inr ms"

lemma count_voters_ok:
  assumes "count_voters pa seen addresses c (n, p, ab) = Inr (n', p', ab')"
  shows "\<exists>ms. voter_members pa c ms \<and> n' = n + length ms
    \<and> p' = p + length (filter (\<lambda>m. m_ID m \<in> set seen \<or> list_ex (\<lambda>a. fst a = (case pa (m_Address m) of None \<Rightarrow> NoAddr | Some (ip, port) \<Rightarrow> ip)) addresses) ms)
    \<and> ab' = ab @ filter (\<lambda>m. \<not> (m_ID m \<in> set seen \<or> list_ex (\<lambda>a. fst a = (case pa (m_Address m) of None \<Rightarrow> NoAddr | Some (ip, port) \<Rightarrow> ip)) addresses)) ms"
  using assms
proof (induction c arbitrary: n p ab)
  case (Cons s c)
  show ?case
  proof (cases "sv_Suffrage s = Voter")
    case False
    then show ?thesis using Cons by (simp add: voter_members_def)
  next
    case True
    then obtain m where m: "parseAddress pa (sv_Address s) = Inr m" using Cons.prems by (auto split: sum.splits)
    let ?l = "m_ID m \<in> set seen \<or> list_ex (\<lambda>a. fst a = (case pa (m_Address m) of None \<Rightarrow> NoAddr | Some (ip, port) \<Rightarrow> ip)) addresses"
    have "count_voters pa seen addresses c (n + 1, if ?l then p + 1 else p, if ?l then ab else ab @ [m]) = Inr (n', p', ab')"
      using Cons.prems True m by (auto simp: Let_def)
    from Cons.IH[OF this] obtain ms where "voter_members pa c ms" "n' = n + 1 + length ms"
      "p' = (if ?l then p + 1 else p) + length (filter (\<lambda>m. m_ID m \<in> set seen \<or> list_ex (\<lambda>a. fst a = (case pa (m_Address m) of None \<Rightarrow> NoAddr | Some (ip, port) \<Rightarrow> ip)) addresses) ms)"
      "ab' = (if ?l then ab else ab @ [m]) @ filter (\<lambda>m. \<not> (m_ID m \<in> set seen \<or> list_ex (\<lambda>a. fst a = (case pa (m_Address m) of None \<Rightarrow> NoAddr | Some (ip, port) \<Rightarrow> ip)) addresses)) ms"
      by blast
    then show ?thesis using True m by (intro exI[of _ "m # ms"]) (auto simp: voter_members_def)
  qed
qed (simp add: voter_members_def)

definition view_list :: "evaluation \<Rightarrow> addr_port list \<Rightarrow> (addr_port \<times> (err + recovery_view)) list" where
  "view_list ev addresses = map (\<lambda>a. (a, ev_views ev a)) addresses"

text \<open>What holds when an evaluation gives a plan.\<close>

definition plan_sound :: "addr_parser \<Rightarrow> (addr \<Rightarrow> string) \<Rightarrow> evaluation \<Rightarrow> addr_port list \<Rightarrow> string \<Rightarrow> recovery_view \<Rightarrow> member list \<Rightarrow> recovery_plan \<Rightarrow> bool" where
  "plan_sound pa rank ev addresses hash own ms plan \<longleftrightarrow>
     (\<forall>a \<in> set addresses. \<exists>v. ev_views ev a = Inr v \<and> \<not> rv_HasLeader v \<and> rv_DiscoveryViewHash v = hash
        \<and> rg_Generation (rv_Recovery v) \<le> rg_Generation (rv_Recovery own))
   \<and> 2 * length (filter (listed pa ev addresses) ms) \<le> length ms
   \<and> (\<forall>m \<in> set ms. \<not> listed pa ev addresses m \<longrightarrow> \<not> still_reachable ev m)
   \<and> rp_lost plan = sort (map m_ID (filter (\<lambda>m. \<not> listed pa ev addresses m) ms)) \<and> rp_lost plan \<noteq> []
   \<and> (\<exists>a. candidate (view_list ev addresses) (rp_winner plan, a) \<and> unbeaten rank (view_list ev addresses) (rp_winner plan, a))"

text \<open>Chains of checks that end with a value passed them all.\<close>

lemma check_Inr:
  "((if b then Inl k else x) = Inr y) \<longleftrightarrow> \<not> b \<and> x = Inr y"
  "((case s of Inl e \<Rightarrow> Inl (g e) | Inr a \<Rightarrow> f a) = Inr y) \<longleftrightarrow> (\<exists>a. s = Inr a \<and> f a = Inr y)"
  "((case z of None \<Rightarrow> Inl k | Some a \<Rightarrow> h a) = Inr y) \<longleftrightarrow> (\<exists>a. z = Some a \<and> h a = Inr y)"
  "((case u of None \<Rightarrow> x | Some a \<Rightarrow> Inl (j a)) = Inr y) \<longleftrightarrow> u = None \<and> x = Inr y"
  by (auto split: sum.splits option.splits)

lemma evaluate_plan:
  assumes "evaluate pa rank ev addresses hash now = Inr (plan, fp)"
  obtains own c ms where "ev_own ev = Inr own" "ev_conf ev = Inr c" "voter_members pa c ms" "\<not> rv_HasLeader own" "\<not> ev_conflict ev"
    "\<not> ev_blocked ev now" "\<not> ev_leaderAgain ev" "fp = (hash, rv_NodeID (rp_winner plan), rp_lost plan, rv_Recovery own)"
    "plan_sound pa rank ev addresses hash own ms plan"
proof -
  obtain own c seen w wa n p ab where own: "ev_own ev = Inr own" "\<not> rv_HasLeader own" "\<not> ev_conflict ev" "\<not> ev_blocked ev now"
    and c: "ev_conf ev = Inr c" and sc: "scan_views rank own hash (view_list ev addresses) ([], None) = Some (seen, Some (w, wa))"
    and cv: "count_voters pa seen addresses c (0, 0, []) = Inr (n, p, ab)" and g: "p < n div 2 + 1" "ab \<noteq> []" "\<not> list_ex (still_reachable ev) ab"
    "\<not> ev_leaderAgain ev" and plan: "plan = \<lparr>rp_winner = w, rp_lost = sort (map m_ID ab), rp_view = hash\<rparr>"
    "fp = (hash, rv_NodeID w, sort (map m_ID ab), rv_Recovery own)"
    using assms unfolding evaluate_def view_list_def[symmetric] by (auto simp: check_Inr Let_def)
  note so = scan_views_ok[OF sc, of "[]"]
  have so: "best_so_far rank (view_list ev addresses) (Some (w, wa))"
    "\<forall>(a, r) \<in> set (view_list ev addresses). \<exists>v seen. r = Inr v \<and> view_agrees own hash seen v"
    "set seen = {rv_NodeID v | a v. (a, Inr v) \<in> set (view_list ev addresses)}"
    using so by (simp_all add: best_so_far_def candidate_def)
  have li: "m_ID m \<in> set seen \<or> list_ex (\<lambda>a. fst a = (case pa (m_Address m) of None \<Rightarrow> NoAddr | Some (ip, port) \<Rightarrow> ip)) addresses
      \<longleftrightarrow> listed pa ev addresses m" for m
  proof -
    have "(a, Inr v) \<in> set (view_list ev addresses) \<longleftrightarrow> a \<in> set addresses \<and> ev_views ev a = Inr v" for a v
      unfolding view_list_def set_map image_iff by (metis prod.inject)
    then have "m_ID m \<in> set seen \<longleftrightarrow> (\<exists>a \<in> set addresses. \<exists>v. ev_views ev a = Inr v \<and> rv_NodeID v = m_ID m)"
      unfolding so(3) mem_Collect_eq by metis
    then show ?thesis unfolding listed_def list_ex_iff by blast
  qed
  from count_voters_ok[OF cv] obtain ms where ms: "voter_members pa c ms" "n = length ms"
    "p = length (filter (listed pa ev addresses) ms)" "ab = filter (\<lambda>m. \<not> listed pa ev addresses m) ms"
    unfolding li by auto
  have "plan_sound pa rank ev addresses hash own ms plan"
    unfolding plan_sound_def
  proof (intro conjI)
    show "\<forall>a \<in> set addresses. \<exists>v. ev_views ev a = Inr v \<and> \<not> rv_HasLeader v \<and> rv_DiscoveryViewHash v = hash
        \<and> rg_Generation (rv_Recovery v) \<le> rg_Generation (rv_Recovery own)"
      using so(2) by (fastforce simp: view_list_def view_agrees_def)
    show "\<forall>m \<in> set ms. \<not> listed pa ev addresses m \<longrightarrow> \<not> still_reachable ev m" using g(3) ms(4) by (auto simp: list_ex_iff)
    show "\<exists>a. candidate (view_list ev addresses) (rp_winner plan, a) \<and> unbeaten rank (view_list ev addresses) (rp_winner plan, a)"
      using so(1) by (intro exI[of _ wa]) (simp add: best_so_far_def plan(1))
    have "0 < length (rp_lost plan)" using g(2) by (simp add: plan(1))
    then show "rp_lost plan \<noteq> []" by auto
  qed (use g ms in \<open>auto simp: plan(1)\<close>)
  then show thesis using that own c ms(1) g(4) plan by simp
qed

section \<open>Evidence over time\<close>

text \<open>The life of a manager: ticks and attempts to recover that were refused, in any order; other parts of the node
  write its fields between them.\<close>

datatype manager_event = Ticked tick_env | Attempted perform_env

definition newManager :: recoveryManager where
  "newManager = \<lparr>rm_lastSample = None, rm_since = None, rm_missingSince = None, rm_fingerprint = None, rm_policyFingerprint = [],
     rm_reported = False, rm_fenceReported = False, rm_conflictDetected = False\<rparr>"

inductive manager_run ::
  "addr_parser \<Rightarrow> (addr \<Rightarrow> string) \<Rightarrow> recovery_config \<Rightarrow> manager_event list \<Rightarrow> recoveryManager \<times> recovery_node \<Rightarrow> bool"
  for pa rank c where
  begins: "manager_run pa rank c [] (newManager, n)"
| ticks: "manager_run pa rank c evs (m, n) \<Longrightarrow> tick pa rank c t (m, n) = (e, m', n') \<Longrightarrow> manager_run pa rank c (evs @ [Ticked t]) (m', n')"
| refused: "manager_run pa rank c evs (m, n) \<Longrightarrow> performRecovery pa rank c p m = (False, r, m') \<Longrightarrow>
    manager_run pa rank c (evs @ [Attempted p]) (m', n)"
| elsewhere: "manager_run pa rank c evs (m, n) \<Longrightarrow> manager_run pa rank c evs (m, n')"

text \<open>A tick that is evidence for a fingerprint under a signed policy.\<close>

definition evidence :: "addr_parser \<Rightarrow> (addr \<Rightarrow> string) \<Rightarrow> recovery_config \<Rightarrow> fingerprint \<Rightarrow> string \<Rightarrow> tick_env \<Rightarrow> bool" where
  "evidence pa rank c fp signature t \<longleftrightarrow> tk_signature t = signature \<and> pl_Valid (tk_policy t) \<and> pl_Mode (tk_policy t) \<noteq> ''off''
     \<and> tk_refresh t = None \<and> tk_fresh t \<and> validRecoveryAddresses (tk_addresses t) (rc_statusPort c) \<and> \<not> tk_conflict t
     \<and> (\<exists>plan. evaluate pa rank (tk_evaluation t) (tk_addresses t) (tk_view t) (tk_now t) = Inr (plan, fp))"

definition manager_ok :: "addr_parser \<Rightarrow> (addr \<Rightarrow> string) \<Rightarrow> recovery_config \<Rightarrow> manager_event list \<Rightarrow> recoveryManager \<Rightarrow> bool" where
  "manager_ok pa rank c evs m \<longleftrightarrow> (\<forall>s. rm_since m = Some s \<longrightarrow> (\<exists>fp pre ts. evs = pre @ map Ticked ts \<and> ts \<noteq> []
     \<and> tk_now (hd ts) = s \<and> rm_fingerprint m = Some fp \<and> list_all (evidence pa rank c fp (rm_policyFingerprint m)) ts
     \<and> in_a_row (map tk_now ts) \<and> rm_lastSample m = Some (tk_now (last ts))))"

lemma manager_ok_reset: "manager_ok pa rank c evs (resetWindow m)" "manager_ok pa rank c evs ((resetWindow m)\<lparr>rm_missingSince := x\<rparr>)"
  by (simp_all add: manager_ok_def resetWindow_def)

lemma resetWindow_since [simp]: "rm_since (resetWindow m) = None"
  by (simp add: resetWindow_def)

lemma self_absent_since: "rm_since (fst (self_absent c t (m, n))) = None"
  by (simp add: self_absent_def Let_def)

lemma tick_start_keeps:
  assumes "rm_since (tick_start t m) = Some s"
  shows "rm_since m = Some s" "rm_fingerprint (tick_start t m) = rm_fingerprint m" "tk_signature t = rm_policyFingerprint m"
    "rm_lastSample m \<noteq> None \<Longrightarrow> recoverySampleGapValid (rm_lastSample m) (tk_now t)"
  using assms by (auto simp: tick_start_def Let_def resetWindow_def split: if_splits)

lemma tick_start_fields: "rm_policyFingerprint (tick_start t m) = tk_signature t" "rm_lastSample (tick_start t m) = Some (tk_now t)"
    "rm_conflictDetected (tick_start t m) = tk_conflict t"
  by (simp_all add: tick_start_def Let_def)

text \<open>A tick leaves the window open only when it is evidence.\<close>

lemma tick_cases:
  assumes "tick pa rank c t (m, n) = (e, m', n')"
  obtains "rm_since m' = None"
  | plan fp where "evidence pa rank c fp (tk_signature t) t"
      "\<exists>n1 n2. collect c t (plan, fp) ((tick_start t m)\<lparr>rm_missingSince := None, rm_fenceReported := False\<rparr>, n1) = (m', n2)"
proof (cases "pl_Mode (tk_policy t) = ''off'' \<or> tk_refresh t \<noteq> None \<or> \<not> tk_fresh t
    \<or> \<not> validRecoveryAddresses (tk_addresses t) (rc_statusPort c) \<or> \<not> list_ex (\<lambda>a. fst a = rc_localAddr c) (tk_addresses t)
    \<or> \<not> pl_Valid (tk_policy t) \<or> tk_conflict t")
  case True
  then have "rm_since m' = None" using assms self_absent_since
    by (auto simp: tick_def Let_def tick_start_fields split: if_splits prod.splits) (metis fst_conv)+
  then show ?thesis by (rule that)
next
  case False
  show ?thesis
  proof (cases "evaluate pa rank (tk_evaluation t) (tk_addresses t) (tk_view t) (tk_now t)")
    case (Inl x)
    then have "rm_since m' = None" using assms False by (auto simp: tick_def Let_def tick_start_fields)
    then show ?thesis by (rule that)
  next
    case (Inr x)
    obtain plan fp where x: "x = (plan, fp)" by (cases x)
    have "evidence pa rank c fp (tk_signature t) t" using False Inr x by (auto simp: evidence_def)
    moreover have "\<exists>n1 n2. collect c t (plan, fp) ((tick_start t m)\<lparr>rm_missingSince := None, rm_fenceReported := False\<rparr>, n1) = (m', n2)"
      using assms False Inr x by (auto simp: tick_def Let_def tick_start_fields)
    ultimately show ?thesis by (rule that)
  qed
qed

lemma collect_window:
  assumes "collect c t (plan, fp) (m, n) = (m', n')"
  shows "rm_fingerprint m' = Some fp" "rm_policyFingerprint m' = rm_policyFingerprint m" "rm_lastSample m' = rm_lastSample m"
    and "rm_since m' = Some (tk_now t) \<or> rm_since m' = rm_since m \<and> rm_fingerprint m = Some fp \<and> rm_since m \<noteq> None"
  using assms by (auto simp: collect_def Let_def split: if_splits)

lemma manager_ok_tick:
  assumes ok: "manager_ok pa rank c evs m" and t: "tick pa rank c t (m, n) = (e, m', n')"
  shows "manager_ok pa rank c (evs @ [Ticked t]) m'"
  using t
proof (cases rule: tick_cases)
  case 1
  then show ?thesis by (simp add: manager_ok_def)
next
  case (2 plan fp)
  let ?m = "(tick_start t m)\<lparr>rm_missingSince := None, rm_fenceReported := False\<rparr>"
  obtain n1 n2 where "collect c t (plan, fp) (?m, n1) = (m', n2)" using 2(2) by blast
  note co = collect_window[OF this]
  have f: "rm_fingerprint m' = Some fp" "rm_policyFingerprint m' = tk_signature t" "rm_lastSample m' = Some (tk_now t)"
    using co by (simp_all add: tick_start_fields)
  have "\<exists>pre ts. evs @ [Ticked t] = pre @ map Ticked ts \<and> ts \<noteq> [] \<and> tk_now (hd ts) = s
      \<and> list_all (evidence pa rank c fp (tk_signature t)) ts \<and> in_a_row (map tk_now ts) \<and> tk_now t = tk_now (last ts)"
    if s: "rm_since m' = Some s" for s
  proof (cases "rm_since m' = Some (tk_now t)")
    case True
    then show ?thesis using s 2(1) by (intro exI[of _ evs] exI[of _ "[t]"]) simp
  next
    case False
    then have k: "rm_since (tick_start t m) = Some s" "rm_fingerprint (tick_start t m) = Some fp" using co(4) s by auto
    note ts = tick_start_keeps[OF k(1)]
    from ok ts(1) obtain pre ts' where o: "evs = pre @ map Ticked ts'" "ts' \<noteq> []" "tk_now (hd ts') = s"
      "list_all (evidence pa rank c fp (rm_policyFingerprint m)) ts'" "in_a_row (map tk_now ts')" "rm_lastSample m = Some (tk_now (last ts'))"
      using k(2) ts(2) unfolding manager_ok_def by fastforce
    have "in_a_row (map tk_now (ts' @ [t]))" using o(2,5,6) ts(4) by (simp add: in_a_row_snoc last_map)
    then show ?thesis using o 2(1) ts(3) by (intro exI[of _ pre] exI[of _ "ts' @ [t]"]) simp
  qed
  then show ?thesis unfolding manager_ok_def f option.inject by blast
qed

lemma performRecovery_refused: "performRecovery pa rank c p m = (False, r, m') \<Longrightarrow> m' = resetWindow m"
  by (auto simp: performRecovery_def Let_def split: option.splits if_splits sum.splits prod.splits)

lemma manager_run_ok: "manager_run pa rank c evs mn \<Longrightarrow> manager_ok pa rank c evs (fst mn)"
proof (induction rule: manager_run.induct)
  case (begins n)
  then show ?case by (simp add: manager_ok_def newManager_def)
next
  case (ticks evs m n t e m' n')
  then show ?case using manager_ok_tick by simp
next
  case (refused evs m n p r m')
  from performRecovery_refused[OF refused(2)] show ?case by (simp add: manager_ok_reset)
qed simp

end
