(* ===== verification/Bootstrap.thy ===== *)
theory Bootstrap
  imports Rejoin
begin

text \<open>
  The first start of a cluster (\<open>internal/cluster/automatic.go\<close>): a node that finds no history anywhere among the
  addresses that discovery lists founds the cluster, if it has the lowest rank of them. Files, probes and Raft
  are parameters, as in \<open>Recovery\<close>.
\<close>

section \<open>Records\<close>

record automatic =
  at_view :: string
  at_since :: "clock option"

record primaryHistory =
  ph_Primary :: string
  ph_Term :: "64 word"
  ph_HighestRevision :: "64 word"
  ph_Updated :: time

record bootstrap_status =
  bs_ID :: string
  bs_LastIndex :: "64 word"
  bs_BootstrapView :: string

text \<open>What a tick reads, in the order of the code: discovery, Raft's last index, the results of recording the evidence,
  Raft's configuration, the earlier history, the probes of the other addresses, the marker and the intent, and
  the outcome of the bootstrap.\<close>

record bootstrap_env =
  be_addresses :: "addr_port list"
  be_fresh :: bool
  be_view :: string
  be_local :: member
  be_localAddr :: addr
  be_lastIndex :: "64 word"
  be_genesis :: "err option"
  be_leader :: bool
  be_conf :: "err + configuration"
  be_update :: "err option"
  be_history :: "err option"
  be_previous :: "unit stored_file"
  be_probe :: "addr_port \<Rightarrow> err + bootstrap_status"
  be_marker :: "unit stored_file"
  be_intent :: "(member option) stored_file"
  be_replace :: "err option"
  be_bootstrap :: "err option"

datatype bootstrap_result = Waits | Failed err | Known | Founded

section \<open>A tick\<close>

text \<open>The view is remembered with the moment since which it has been the same.\<close>

definition note_view :: "clock \<Rightarrow> string \<Rightarrow> automatic \<Rightarrow> automatic" where
  "note_view now v a = (if at_view a \<noteq> v then \<lparr>at_view = v, at_since = Some now\<rparr> else a)"

definition stable_view :: "clock \<Rightarrow> automatic \<Rightarrow> bool" where
  "stable_view now a = (case at_since a of None \<Rightarrow> True | Some s \<Rightarrow> ck_mono now - ck_mono s \<ge> 30 * second)"

text \<open>A member that has a history records it and, as the leader, corrects its own address.\<close>

fun correct_address :: "bootstrap_env \<Rightarrow> configuration \<Rightarrow> err option" where
  "correct_address b [] = None"
| "correct_address b (s # ss) =
     (if sv_ID s = m_ID (be_local b) \<and> sv_Address s \<noteq> raftAddress (be_local b)
      then case be_update b of Some e \<Rightarrow> Some e | None \<Rightarrow> correct_address b ss
      else correct_address b ss)"

definition known_member :: "bootstrap_env \<Rightarrow> bootstrap_result" where
  "known_member b = (case be_genesis b of
     Some e \<Rightarrow> Failed e
   | None \<Rightarrow> (case (if be_leader b then (case be_conf b of Inl e \<Rightarrow> Some e | Inr c \<Rightarrow> correct_address b c) else None) of
       Some e \<Rightarrow> Failed e
     | None \<Rightarrow> (case be_history b of Some e \<Rightarrow> Failed e | None \<Rightarrow> Known)))"

definition empty_peer :: "bootstrap_env \<Rightarrow> addr_port \<Rightarrow> bool" where
  "empty_peer b a = (case be_probe b a of Inl e \<Rightarrow> False | Inr st \<Rightarrow> bs_LastIndex st = 0 \<and> bs_BootstrapView st = be_view b)"

text \<open>The intent to found the cluster is kept over a restart.\<close>

definition intent_ready :: "bootstrap_env \<Rightarrow> err option" where
  "intent_ready b = (case be_intent b of
     Holds None \<Rightarrow> Some KvErrInvalid
   | Holds (Some m) \<Rightarrow> if m_ID m \<noteq> m_ID (be_local b) then Some KvErrInvalid else None
   | Missing \<Rightarrow> be_replace b
   | Unreadable e \<Rightarrow> Some e)"

definition found_cluster :: "bootstrap_env \<Rightarrow> bootstrap_result" where
  "found_cluster b = (case be_previous b of
     Holds _ \<Rightarrow> Failed (ErrOther ''previous primary history without durable log requires recovery'')
   | Unreadable e \<Rightarrow> Failed e
   | Missing \<Rightarrow>
       if \<not> list_all (\<lambda>a. fst a = be_localAddr b \<or> empty_peer b a) (be_addresses b) then Failed KvErrNotLeader
       else case be_marker b of
         Holds _ \<Rightarrow> Failed (ErrOther ''existing deployment evidence requires surviving quorum or explicit recovery'')
       | Unreadable e \<Rightarrow> Failed e
       | Missing \<Rightarrow> (case intent_ready b of
           Some e \<Rightarrow> Failed e
         | None \<Rightarrow> (case be_bootstrap b of
             Some e \<Rightarrow> Failed e
           | None \<Rightarrow> (case be_genesis b of Some e \<Rightarrow> Failed e | None \<Rightarrow> Founded))))"

definition automatic_tick ::
  "(addr \<Rightarrow> string) \<Rightarrow> clock \<Rightarrow> bootstrap_env \<Rightarrow> automatic \<Rightarrow> bootstrap_result \<times> automatic" where
  "automatic_tick rank now b a =
     (if \<not> be_fresh b \<or> be_addresses b = [] \<or> length (be_addresses b) > 64 then (Failed KvErrNotLeader, a)
      else let a = note_view now (be_view b) a in
        if \<not> list_ex (\<lambda>x. fst x = be_localAddr b) (be_addresses b) then (Failed KvErrNotLeader, a)
        else if be_lastIndex b > 0 then (known_member b, a)
        else if \<not> stable_view now a \<or> list_ex (\<lambda>x. rank (fst x) < rank (be_localAddr b)) (be_addresses b) then (Waits, a)
        else (found_cluster b, a))"

section \<open>Evidence\<close>

text \<open>\<open>recordHistory\<close>: the next entry, from the old one (if it can be read), the status of the node and of its peers.\<close>

definition recordHistory ::
  "(primaryHistory option) stored_file \<Rightarrow> string \<Rightarrow> 64 word \<Rightarrow> 64 word \<Rightarrow> 64 word list option \<Rightarrow> time \<Rightarrow> err + primaryHistory" where
  "recordHistory previous leader term durable peers now =
     (case (case previous of
         Holds None \<Rightarrow> Inl KvErrInvalid
       | Holds (Some h) \<Rightarrow> Inr h
       | Missing \<Rightarrow> Inr \<lparr>ph_Primary = [], ph_Term = 0, ph_HighestRevision = 0, ph_Updated = 0\<rparr>
       | Unreadable e \<Rightarrow> Inl e) of
       Inl e \<Rightarrow> Inl e
     | Inr old \<Rightarrow>
         let highest = fold max (case peers of None \<Rightarrow> [] | Some ps \<Rightarrow> ps) (max (ph_HighestRevision old) durable)
         in Inr \<lparr>ph_Primary = (if leader = [] then ph_Primary old else leader), ph_Term = term, ph_HighestRevision = highest, ph_Updated = now\<rparr>)"

text \<open>\<open>recordGenesis\<close>: a marker that exists must name this cluster; otherwise it is written. \<open>existing\<close> holds the
  cluster of a readable marker.\<close>

definition recordGenesis :: "string \<Rightarrow> (string option) stored_file \<Rightarrow> err option \<Rightarrow> string option \<times> err option" where
  "recordGenesis clusterID existing write = (case existing of
     Missing \<Rightarrow> (case write of Some e \<Rightarrow> (None, Some e) | None \<Rightarrow> (Some clusterID, None))
   | Unreadable e \<Rightarrow> (None, Some e)
   | Holds None \<Rightarrow> (None, Some (ErrOther ''existing content belongs to a different cluster; refusing implicit recovery''))
   | Holds (Some i) \<Rightarrow> (None, if i \<noteq> clusterID
       then Some (ErrOther ''existing content belongs to a different cluster; refusing implicit recovery'') else None))"

lemma fold_max_ge: "(x :: 64 word) \<le> fold max ps x \<and> (\<forall>p \<in> set ps. p \<le> fold max ps x)"
proof (induction ps arbitrary: x)
  case (Cons p ps)
  have "max p x \<le> fold max ps (max p x)" "\<forall>q \<in> set ps. q \<le> fold max ps (max p x)" using Cons[of "max p x"] by blast+
  then show ?case by simp
qed simp

text \<open>The highest revision known never goes back.\<close>

lemma recordHistory_monotone:
  assumes "recordHistory (Holds (Some old)) leader term durable peers now = Inr h"
  shows "ph_HighestRevision old \<le> ph_HighestRevision h \<and> durable \<le> ph_HighestRevision h
    \<and> (\<forall>ps p. peers = Some ps \<longrightarrow> p \<in> set ps \<longrightarrow> p \<le> ph_HighestRevision h)"
proof -
  let ?ps = "case peers of None \<Rightarrow> [] | Some ps \<Rightarrow> ps"
  have h: "ph_HighestRevision h = fold max ?ps (max (ph_HighestRevision old) durable)"
    using assms by (auto simp: recordHistory_def Let_def)
  show ?thesis using fold_max_ge[where ps = ?ps and x = "max (ph_HighestRevision old) durable"] unfolding h by (auto split: option.splits)
qed

section \<open>Who founds\<close>

definition ticked :: "(addr \<Rightarrow> string) \<Rightarrow> automatic \<Rightarrow> (clock \<times> bootstrap_env) list \<Rightarrow> automatic" where
  "ticked rank a ts = fold (\<lambda>(now, b) a. snd (automatic_tick rank now b a)) ts a"

definition reads_view :: "bootstrap_env \<Rightarrow> bool" where
  "reads_view b \<longleftrightarrow> be_fresh b \<and> be_addresses b \<noteq> [] \<and> length (be_addresses b) \<le> 64"

lemma automatic_tick_state: "snd (automatic_tick rank now b a) = (if reads_view b then note_view now (be_view b) a else a)"
  by (auto simp: automatic_tick_def reads_view_def Let_def)

text \<open>Since the remembered moment every tick that read discovery saw the remembered view.\<close>

lemma ticked_since:
  assumes "at_since (ticked rank a ts) = Some s" "at_since a = None" "at_view a = []" "\<forall>(now, b) \<in> set ts. be_view b \<noteq> []"
  shows "\<exists>pre b suf. ts = pre @ (s, b) # suf \<and> reads_view b
    \<and> (\<forall>(now, b) \<in> set ((s, b) # suf). reads_view b \<longrightarrow> be_view b = at_view (ticked rank a ts))"
  using assms(1,4)
proof (induction ts rule: rev_induct)
  case Nil
  then show ?case using assms(2) by (simp add: ticked_def)
next
  case (snoc t ts)
  obtain now b where t: "t = (now, b)" by (cases t)
  let ?a = "ticked rank a ts"
  have tk: "ticked rank a (ts @ [t]) = (if reads_view b then note_view now (be_view b) ?a else ?a)"
    by (simp add: ticked_def t automatic_tick_state)
  show ?case
  proof (cases "reads_view b \<and> at_view ?a \<noteq> be_view b")
    case True
    then show ?thesis using snoc.prems(1) unfolding tk
      by (intro exI[of _ ts] exI[of _ b] exI[of _ "[]"]) (simp add: note_view_def t)
  next
    case False
    then have same: "ticked rank a (ts @ [t]) = ?a" unfolding tk by (auto simp: note_view_def)
    with snoc obtain pre b' suf where "ts = pre @ (s, b') # suf" "reads_view b'"
      "\<forall>(now, b) \<in> set ((s, b') # suf). reads_view b \<longrightarrow> be_view b = at_view ?a" by auto
    then show ?thesis using False unfolding same by (intro exI[of _ pre] exI[of _ b'] exI[of _ "suf @ [t]"]) (auto simp: t)
  qed
qed

lemma Founded_conditions:
  assumes "fst (automatic_tick rank now b a) = Founded"
  shows "reads_view b" "be_lastIndex b = 0" "stable_view now (note_view now (be_view b) a)"
    "\<exists>x \<in> set (be_addresses b). fst x = be_localAddr b"
    "\<forall>x \<in> set (be_addresses b). \<not> rank (fst x) < rank (be_localAddr b)"
    "\<forall>x \<in> set (be_addresses b). fst x \<noteq> be_localAddr b \<longrightarrow> empty_peer b x"
    "be_previous b = Missing" "be_marker b = Missing"
proof -
  have c: "reads_view b" "\<exists>x \<in> set (be_addresses b). fst x = be_localAddr b" "stable_view now (note_view now (be_view b) a)"
    "\<forall>x \<in> set (be_addresses b). \<not> rank (fst x) < rank (be_localAddr b)" "be_lastIndex b = 0" "found_cluster b = Founded"
    using assms by (auto simp: automatic_tick_def reads_view_def Let_def list_ex_iff known_member_def word_gt_0
        split: if_splits option.splits sum.splits)
  then show "reads_view b" "be_lastIndex b = 0" "stable_view now (note_view now (be_view b) a)"
    "\<exists>x \<in> set (be_addresses b). fst x = be_localAddr b" "\<forall>x \<in> set (be_addresses b). \<not> rank (fst x) < rank (be_localAddr b)" by simp_all
  show "\<forall>x \<in> set (be_addresses b). fst x \<noteq> be_localAddr b \<longrightarrow> empty_peer b x" "be_previous b = Missing" "be_marker b = Missing"
    using c(6) by (auto simp: found_cluster_def list_all_iff split: stored_file.splits if_splits)
qed

end
