(* ===== verification/Membership_Safety.thy ===== *)
theory Membership_Safety
  imports Membership "HOL-Library.Multiset"
begin

text \<open>
  What the membership operations keep. Whatever sequence of learners added, members promoted, removed or
  readdressed the leader runs, identities and addresses stay distinct, the limits on members and voters
  hold and three voters are never given up. The voter target moves only after a full window of agreeing
  observations, and an identity stays bound to its first key.
\<close>

section \<open>Addresses of members\<close>

lemma nodeID_no_at: "nodeIDPattern s \<Longrightarrow> CHR ''@'' \<notin> set s"
  by (auto simp: nodeIDPattern_def list_all_iff char_class_defs)

lemma cut_at: "c \<notin> set a \<Longrightarrow> cut c (a @ c # b) = (a, b, True)"
proof -
  assume "c \<notin> set a"
  then have "takeWhile (\<lambda>x. x \<noteq> c) (a @ c # b) = a" by (induction a) auto
  then show ?thesis by (simp add: cut_def)
qed

lemma parse_raftAddress: "member_valid pa m \<Longrightarrow> parseAddress pa (raftAddress m) = Inr m"
proof -
  assume v: "member_valid pa m"
  then have "cut (CHR ''@'') (raftAddress m) = (m_ID m, m_Address m, True)"
    using cut_at[OF nodeID_no_at, of "m_ID m" "m_Address m"] by (simp add: raftAddress_def member_valid_def)
  then show ?thesis using v by (cases m) (simp add: parseAddress_def Let_def)
qed

section \<open>Configurations\<close>

text \<open>The documented effect of the Raft calls: \<open>AddVoter\<close> adds a voter or makes the server a voter at the new
  address, \<open>AddNonvoter\<close> adds a learner or changes the address and keeps what the server may do, \<open>RemoveServer\<close> removes.\<close>

definition suffrage_of :: "configuration \<Rightarrow> string \<Rightarrow> suffrage" where
  "suffrage_of c i = (case List.find (\<lambda>s. sv_ID s = i) c of None \<Rightarrow> Nonvoter | Some s \<Rightarrow> sv_Suffrage s)"

definition raft_changes :: "(raft_change \<Rightarrow> configuration \<Rightarrow> configuration) \<Rightarrow> bool" where
  "raft_changes ch \<longleftrightarrow> (\<forall>c i a. distinct (map sv_ID c) \<longrightarrow>
     mset (ch (AddVoter i a) c) = mset (filter (\<lambda>s. sv_ID s \<noteq> i) c @ [\<lparr>sv_ID = i, sv_Address = a, sv_Suffrage = Voter\<rparr>])
   \<and> mset (ch (AddNonvoter i a) c) = mset (filter (\<lambda>s. sv_ID s \<noteq> i) c
       @ [\<lparr>sv_ID = i, sv_Address = a, sv_Suffrage = suffrage_of c i\<rparr>])
   \<and> mset (ch (RemoveServer i) c) = mset (filter (\<lambda>s. sv_ID s \<noteq> i) c))"

lemma raft_changesD:
  assumes "raft_changes ch" "distinct (map sv_ID c)"
  shows "mset (ch (AddVoter i a) c) = mset (filter (\<lambda>s. sv_ID s \<noteq> i) c @ [\<lparr>sv_ID = i, sv_Address = a, sv_Suffrage = Voter\<rparr>])"
    and "mset (ch (AddNonvoter i a) c) = mset (filter (\<lambda>s. sv_ID s \<noteq> i) c
       @ [\<lparr>sv_ID = i, sv_Address = a, sv_Suffrage = suffrage_of c i\<rparr>])"
    and "mset (ch (RemoveServer i) c) = mset (filter (\<lambda>s. sv_ID s \<noteq> i) c)"
  using assms unfolding raft_changes_def by blast+

lemma find_in: "List.find P xs = Some y \<Longrightarrow> y \<in> set xs \<and> P y"
  by (auto simp: find_Some_iff)

definition address_of :: "addr_parser \<Rightarrow> server \<Rightarrow> string" where
  "address_of pa s = (case parseAddress pa (sv_Address s) of Inl e \<Rightarrow> [] | Inr m \<Rightarrow> m_Address m)"

definition server_ok :: "addr_parser \<Rightarrow> server \<Rightarrow> bool" where
  "server_ok pa s \<longleftrightarrow> (case parseAddress pa (sv_Address s) of Inl e \<Rightarrow> False | Inr m \<Rightarrow> m_ID m = sv_ID s)"

definition configuration_ok :: "addr_parser \<Rightarrow> configuration \<Rightarrow> bool" where
  "configuration_ok pa c \<longleftrightarrow> distinct (map sv_ID c) \<and> distinct (map (address_of pa) c) \<and> list_all (server_ok pa) c
     \<and> length c \<le> maxMembers \<and> voters c \<le> maxVoters + 1"

lemma configuration_ok_mset:
  assumes "mset c = mset d"
  shows "configuration_ok pa c = configuration_ok pa d" "voters c = voters d"
proof -
  have "mset (map f c) = mset (map f d)" for f :: "server \<Rightarrow> string" using assms by simp
  then have "distinct (map f c) = distinct (map f d)" for f :: "server \<Rightarrow> string" by (rule mset_eq_imp_distinct_iff)
  moreover have "length c = length d" "set c = set d" by (rule mset_eq_length[OF assms], rule mset_eq_setD[OF assms])
  moreover have v: "voters c = voters d"
    unfolding voters_def using assms by (metis mset_filter size_mset)
  ultimately show "configuration_ok pa c = configuration_ok pa d" "voters c = voters d" by (simp_all add: configuration_ok_def list_all_iff)
qed

lemma voters_append [simp]: "voters (c @ d) = voters c + voters d"
  and voters_Nil [simp]: "voters [] = 0"
  and voters_Cons [simp]: "voters (s # c) = (if sv_Suffrage s = Voter then 1 else 0) + voters c"
  by (simp_all add: voters_def)

lemma without:
  assumes "configuration_ok pa c"
  shows "configuration_ok pa (filter P c)"
proof -
  have "voters (filter P c) \<le> voters c" by (induction c) auto
  then show ?thesis using assms
    by (auto simp: configuration_ok_def distinct_map_filter list_all_iff intro: order_trans[OF length_filter_le])
qed

lemma split_server:
  assumes "distinct (map sv_ID c)" "s \<in> set c"
  shows "mset c = mset (filter (\<lambda>x. sv_ID x \<noteq> sv_ID s) c @ [s])"
  using assms
proof (induction c)
  case (Cons x c)
  show ?case
  proof (cases "x = s")
    case True
    then have "filter (\<lambda>y. sv_ID y \<noteq> sv_ID s) c = c" using Cons.prems by (auto simp: filter_id_conv image_iff)
    then show ?thesis using True by simp
  next
    case False
    then have "sv_ID x \<noteq> sv_ID s" using Cons.prems by (auto simp: image_iff)
    then show ?thesis using Cons False by simp
  qed
qed simp

lemma voters_without:
  assumes "distinct (map sv_ID c)" "s \<in> set c"
  shows "voters c = voters (filter (\<lambda>x. sv_ID x \<noteq> sv_ID s) c) + (if sv_Suffrage s = Voter then 1 else 0)"
  using configuration_ok_mset(2)[OF split_server[OF assms]] by simp

text \<open>Replacing or adding one server.\<close>

lemma configuration_ok_put:
  assumes ok: "configuration_ok pa c" and v: "member_valid pa m"
    and free: "\<forall>s \<in> set c. sv_ID s \<noteq> m_ID m \<longrightarrow> address_of pa s \<noteq> m_Address m"
    and room: "length (filter (\<lambda>s. sv_ID s \<noteq> m_ID m) c) < maxMembers"
    and "voters (filter (\<lambda>s. sv_ID s \<noteq> m_ID m) c) + (if f = Voter then 1 else 0) \<le> maxVoters + 1"
  shows "configuration_ok pa (filter (\<lambda>s. sv_ID s \<noteq> m_ID m) c @ [\<lparr>sv_ID = m_ID m, sv_Address = raftAddress m, sv_Suffrage = f\<rparr>])"
  using without[OF ok, of "\<lambda>s. sv_ID s \<noteq> m_ID m"] assms(3-5)
  by (auto simp: configuration_ok_def server_ok_def address_of_def parse_raftAddress[OF v])

section \<open>The operations\<close>

lemma learner_free:
  assumes "learner_conflict pa m c = None" "s \<in> set c"
  shows "sv_ID s \<noteq> m_ID m" "address_of pa s \<noteq> m_Address m"
  using assms by (induction c) (auto simp: address_of_def split: if_splits sum.splits)

lemma promotable_Some:
  assumes "promotable m c (k, b) = Some (n, found)"
  shows "n = k + voters c \<and> (found \<longrightarrow> b \<or> (\<exists>s \<in> set c. sv_ID s = m_ID m \<and> sv_Address s = raftAddress m \<and> sv_Suffrage s = Nonvoter))"
  using assms
proof (induction c arbitrary: k b)
  case (Cons s c)
  then show ?case by (fastforce simp: Let_def split: if_splits)
qed simp

lemma taken_free:
  assumes "address_taken pa m c = None" "s \<in> set c" "sv_ID s \<noteq> m_ID m" "server_ok pa s"
  shows "address_of pa s \<noteq> m_Address m"
  using assms by (induction c) (auto simp: address_of_def server_ok_def split: if_splits sum.splits)

text \<open>The steps: an operation succeeds on the configuration of the leader and Raft carries out its change.\<close>

inductive member_step :: "addr_parser \<Rightarrow> (raft_change \<Rightarrow> configuration \<Rightarrow> configuration) \<Rightarrow> configuration \<Rightarrow> configuration \<Rightarrow> bool"
  for pa ch where
  learner: "AddLearner pa (Inr c) m = Inr x \<Longrightarrow> member_step pa ch c (ch x c)"
| promotion: "Promote pa port obs (Inr (c, index)) probe applied m = Inr x \<Longrightarrow> member_step pa ch c (ch x c)"
| removal: "RemoveMember local (Inr c) i = Inr x \<Longrightarrow> member_step pa ch c (ch x c)"
| readdress: "updateAddress pa (Inr c) m = Inr x \<Longrightarrow> member_step pa ch c (ch x c)"

definition keeps_quorum :: "configuration \<Rightarrow> configuration \<Rightarrow> bool" where
  "keeps_quorum c c' \<longleftrightarrow> min 3 (voters c) \<le> voters c'"

lemma keeps_quorum_trans: "keeps_quorum a b \<Longrightarrow> keeps_quorum b c \<Longrightarrow> keeps_quorum a c"
  by (auto simp: keeps_quorum_def)

lemma via_mset: "mset d = mset e \<Longrightarrow> configuration_ok pa e \<and> keeps_quorum c e \<Longrightarrow> configuration_ok pa d \<and> keeps_quorum c d"
  using configuration_ok_mset[of d e] by (simp add: keeps_quorum_def)

lemma learner_step:
  assumes ch: "raft_changes ch" and ok: "configuration_ok pa c" and op: "AddLearner pa (Inr c) m = Inr x"
  shows "configuration_ok pa (ch x c) \<and> keeps_quorum c (ch x c)"
proof -
  have v: "member_valid pa m" and n: "length c < maxMembers" and f: "learner_conflict pa m c = None"
    and x: "x = AddNonvoter (m_ID m) (raftAddress m)"
    using op by (auto simp: AddLearner_def split: if_splits option.splits)
  note fr = learner_free[OF f]
  have fi: "filter (\<lambda>s. sv_ID s \<noteq> m_ID m) c = c" using fr(1) by (simp add: filter_id_conv)
  have d: "distinct (map sv_ID c)" "voters c \<le> maxVoters + 1" using ok by (simp_all add: configuration_ok_def)
  have nv: "suffrage_of c (m_ID m) = Nonvoter" using fr(1) by (auto simp: suffrage_of_def find_None_iff split: option.splits dest: find_in)
  have e: "mset (ch x c) = mset (c @ [\<lparr>sv_ID = m_ID m, sv_Address = raftAddress m, sv_Suffrage = Nonvoter\<rparr>])"
    using raft_changesD(2)[OF ch d(1), of "m_ID m" "raftAddress m"] unfolding x fi nv .
  have "configuration_ok pa (c @ [\<lparr>sv_ID = m_ID m, sv_Address = raftAddress m, sv_Suffrage = Nonvoter\<rparr>])"
    using configuration_ok_put[OF ok v, of Nonvoter] fr(2) n d(2) by (simp add: fi)
  then show ?thesis by (intro via_mset[OF e]) (simp add: keeps_quorum_def)
qed

lemma promotion_step:
  assumes ch: "raft_changes ch" and ok: "configuration_ok pa c" and op: "Promote pa port obs (Inr (c, index)) probe applied m = Inr x"
  shows "configuration_ok pa (ch x c) \<and> keeps_quorum c (ch x c)"
proof -
  obtain k where v: "member_valid pa m" and x: "x = AddVoter (m_ID m) (raftAddress m)"
    and p: "promotable m c (0, False) = Some (k, True)" and k: "k \<le> maxVoters"
    using op by (auto simp: Promote_def split: if_splits option.splits)
  have n: "voters c \<le> maxVoters" using promotable_Some[OF p] k by simp
  obtain s where s: "s \<in> set c" "sv_ID s = m_ID m" "sv_Address s = raftAddress m" "sv_Suffrage s = Nonvoter"
    using promotable_Some[OF p] by auto
  let ?c = "filter (\<lambda>s. sv_ID s \<noteq> m_ID m) c"
  have d: "distinct (map sv_ID c)" "distinct (map (address_of pa) c)" "length c \<le> maxMembers" using ok by (simp_all add: configuration_ok_def)
  have e: "mset (ch x c) = mset (?c @ [\<lparr>sv_ID = m_ID m, sv_Address = raftAddress m, sv_Suffrage = Voter\<rparr>])"
    using raft_changesD(1)[OF ch d(1)] unfolding x .
  have a: "address_of pa s = m_Address m" using s(3) parse_raftAddress[OF v] by (simp add: address_of_def)
  have free: "\<forall>t \<in> set c. sv_ID t \<noteq> m_ID m \<longrightarrow> address_of pa t \<noteq> m_Address m"
    using d(2) s a by (metis distinct_map inj_on_eq_iff)
  have len: "length ?c < maxMembers" using s(1,2) d(3) length_filter_less[of s c "\<lambda>s. sv_ID s \<noteq> m_ID m"] by simp
  have vo: "voters ?c = voters c" using voters_without[OF d(1) s(1)] s by simp
  have "configuration_ok pa (?c @ [\<lparr>sv_ID = m_ID m, sv_Address = raftAddress m, sv_Suffrage = Voter\<rparr>])"
    using configuration_ok_put[OF ok v free len, of Voter] vo n by simp
  then show ?thesis by (intro via_mset[OF e]) (simp add: keeps_quorum_def vo)
qed

lemma removal_step:
  assumes ch: "raft_changes ch" and ok: "configuration_ok pa c" and op: "RemoveMember local (Inr c) i = Inr x"
  shows "configuration_ok pa (ch x c) \<and> keeps_quorum c (ch x c)"
proof -
  let ?c = "filter (\<lambda>s. sv_ID s \<noteq> i) c"
  have x: "x = RemoveServer i" and f: "\<exists>s \<in> set c. sv_ID s = i"
    and g: "\<not> ((case filter (\<lambda>s. sv_ID s = i) c of [] \<Rightarrow> False | ss \<Rightarrow> sv_Suffrage (last ss) = Voter) \<and> voters c \<le> 3)"
    using op by (auto simp: RemoveMember_def Let_def list_ex_iff split: if_splits)
  have d: "distinct (map sv_ID c)" using ok by (simp add: configuration_ok_def)
  obtain s where s: "s \<in> set c" "sv_ID s = i" using f by blast
  have "last (filter (\<lambda>s. sv_ID s = i) c) = s" "filter (\<lambda>s. sv_ID s = i) c \<noteq> []"
  proof -
    show ne: "filter (\<lambda>s. sv_ID s = i) c \<noteq> []" using s by (auto simp: filter_empty_conv)
    from last_in_set[OF ne] have "last (filter (\<lambda>s. sv_ID s = i) c) \<in> set c" "sv_ID (last (filter (\<lambda>s. sv_ID s = i) c)) = i" by auto
    then show "last (filter (\<lambda>s. sv_ID s = i) c) = s" using d s by (metis distinct_map inj_on_eq_iff)
  qed
  then have g': "sv_Suffrage s = Voter \<longrightarrow> voters c > 3" using g by (auto split: list.splits)
  have e: "mset (ch x c) = mset ?c" using raft_changesD(3)[OF ch d] unfolding x .
  have "keeps_quorum c ?c" using voters_without[OF d s(1)] g' by (auto simp: keeps_quorum_def s(2) split: if_splits)
  then show ?thesis using without[OF ok] by (intro via_mset[OF e]) simp
qed

lemma readdress_step:
  assumes ch: "raft_changes ch" and ok: "configuration_ok pa c" and op: "updateAddress pa (Inr c) m = Inr x"
  shows "configuration_ok pa (ch x c) \<and> keeps_quorum c (ch x c)"
proof -
  obtain s ss where v: "member_valid pa m" and t: "address_taken pa m c = None" and fl: "filter (\<lambda>s. sv_ID s = m_ID m) c = s # ss"
    and x: "x = (if sv_Suffrage s = Voter then AddVoter (m_ID m) (raftAddress m) else AddNonvoter (m_ID m) (raftAddress m))"
    using op by (auto simp: updateAddress_def split: if_splits option.splits list.splits)
  have "s \<in> set (filter (\<lambda>s. sv_ID s = m_ID m) c)" by (simp add: fl)
  then have s: "s \<in> set c" "sv_ID s = m_ID m" by simp_all
  let ?c = "filter (\<lambda>s. sv_ID s \<noteq> m_ID m) c"
  have d: "distinct (map sv_ID c)" "length c \<le> maxMembers" "voters c \<le> maxVoters + 1" "\<forall>s \<in> set c. server_ok pa s"
    using ok by (simp_all add: configuration_ok_def list_all_iff)
  have iv: "suffrage_of c (m_ID m) = sv_Suffrage s"
  proof -
    obtain t where t: "List.find (\<lambda>s. sv_ID s = m_ID m) c = Some t" using s by (cases "List.find (\<lambda>s. sv_ID s = m_ID m) c") (auto simp: find_None_iff)
    then have "t = s" using find_in[OF t] s d(1) by (metis distinct_map inj_on_eq_iff)
    then show ?thesis by (simp add: suffrage_of_def t)
  qed
  have vo: "voters ?c + (if sv_Suffrage s = Voter then 1 else 0) = voters c" using voters_without[OF d(1) s(1)] s(2) by simp
  let ?f = "sv_Suffrage s"
  have e: "mset (ch x c) = mset (?c @ [\<lparr>sv_ID = m_ID m, sv_Address = raftAddress m, sv_Suffrage = ?f\<rparr>])"
    using raft_changesD(1,2)[OF ch d(1), of "m_ID m" "raftAddress m"] by (cases "sv_Suffrage s = Voter") (simp_all add: x iv)
  have len: "length ?c < maxMembers" using s d(2) length_filter_less[of s c "\<lambda>s. sv_ID s \<noteq> m_ID m"] by simp
  have "configuration_ok pa (?c @ [\<lparr>sv_ID = m_ID m, sv_Address = raftAddress m, sv_Suffrage = ?f\<rparr>])"
    by (rule configuration_ok_put[OF ok v _ len]) (use taken_free[OF t] d(3,4) vo in \<open>auto split: if_splits\<close>)
  then show ?thesis using vo by (intro via_mset[OF e]) (auto simp: keeps_quorum_def split: if_splits)
qed

interpretation membership: invariant_system "member_step pa ch" "\<lambda>c. raft_changes ch \<and> configuration_ok pa c" for pa ch
proof unfold_locales
  fix c c' assume "member_step pa ch c c'" "raft_changes ch \<and> configuration_ok pa c"
  then show "raft_changes ch \<and> configuration_ok pa c'"
    by cases (auto dest: learner_step promotion_step removal_step readdress_step)
qed

lemma member_step_quorum:
  "member_step pa ch c c' \<Longrightarrow> raft_changes ch \<and> configuration_ok pa c \<Longrightarrow> keeps_quorum c c'"
  by (cases rule: member_step.cases) (auto dest: learner_step promotion_step removal_step readdress_step)

section \<open>The voter target over time\<close>

record target_call =
  tc_now :: time
  tc_voters :: int
  tc_eligible :: int

definition adjust_call :: "64 word \<Rightarrow> int \<Rightarrow> int \<Rightarrow> int \<Rightarrow> target_call \<Rightarrow> target_state \<Rightarrow> target_state" where
  "adjust_call tm raise lower least c = adjustTarget (tc_now c) tm raise lower least (tc_voters c) (tc_eligible c)"

definition desired :: "int \<Rightarrow> target_call \<Rightarrow> int" where
  "desired least c = oddTarget (tc_eligible c) least"

text \<open>The calls of one term in their order, from any state left by an earlier term.\<close>

definition targets :: "64 word \<Rightarrow> int \<Rightarrow> int \<Rightarrow> int \<Rightarrow> target_state \<Rightarrow> target_call list \<Rightarrow> target_state" where
  "targets tm raise lower least e cs = fold (adjust_call tm raise lower least) cs e"

lemma oddTarget_range: "least \<le> oddTarget x least" "oddTarget x least \<le> max least (int maxVoters)"
  by (simp_all add: oddTarget_def Let_def)

lemma oddTarget_odd: "odd least \<Longrightarrow> odd (oddTarget x least)"
  by (auto simp: oddTarget_def Let_def maxVoters_def max_def min_def split: if_splits)

definition target_ok :: "64 word \<Rightarrow> int \<Rightarrow> target_call list \<Rightarrow> target_state \<Rightarrow> bool" where
  "target_ok tm least cs e \<longleftrightarrow> ts_term e = tm \<and> least \<le> ts_active e \<and> ts_active e \<le> max least (int maxVoters)
     \<and> (odd least \<longrightarrow> odd (ts_active e))
     \<and> (\<forall>t. ts_since e = Some t \<longrightarrow> (\<exists>pre suf. cs = pre @ suf \<and> suf \<noteq> [] \<and> tc_now (hd suf) = t
          \<and> (\<forall>c \<in> set suf. desired least c = ts_pending e)))"

lemma adjust_ok:
  assumes "0 < least" and old: "ts_term e \<noteq> tm \<or> ts_active e = 0 \<or> target_ok tm least cs e"
  shows "target_ok tm least (cs @ [c]) (adjust_call tm raise lower least c e)"
proof -
  let ?d = "desired least c"
  define e1 where "e1 = (if ts_term e \<noteq> tm \<or> ts_active e = 0
      then \<lparr>ts_term = tm, ts_active = oddTarget (tc_voters c) least, ts_pending = 0, ts_since = None\<rparr> else e)"
  have e1: "target_ok tm least cs e1"
    using old oddTarget_range[where least = least] oddTarget_odd[where least = least] by (auto simp: e1_def target_ok_def)
  then have ge: "\<not> ts_active e1 < least" by (simp add: target_ok_def)
  define e3 where "e3 = (if ?d \<noteq> ts_pending e1 \<or> ts_since e1 = None then e1\<lparr>ts_pending := ?d, ts_since := Some (tc_now c)\<rparr> else e1)"
  have "\<exists>pre suf. cs @ [c] = pre @ suf \<and> suf \<noteq> [] \<and> tc_now (hd suf) = t \<and> (\<forall>c \<in> set suf. desired least c = ts_pending e3)"
    if t: "ts_since e3 = Some t" for t
  proof (cases "?d \<noteq> ts_pending e1 \<or> ts_since e1 = None")
    case True
    then show ?thesis using t by (intro exI[of _ cs] exI[of _ "[c]"]) (auto simp: e3_def)
  next
    case False
    then have "ts_since e1 = Some t" using t by (auto simp: e3_def)
    then obtain pre suf where "cs = pre @ suf" "suf \<noteq> []" "tc_now (hd suf) = t" "\<forall>c \<in> set suf. desired least c = ts_pending e1"
      using e1 unfolding target_ok_def by blast
    then show ?thesis using False by (intro exI[of _ pre] exI[of _ "suf @ [c]"]) (auto simp: e3_def)
  qed
  then have e3: "target_ok tm least (cs @ [c]) e3" using e1 by (auto simp: target_ok_def e3_def)
  have "adjust_call tm raise lower least c e = (if ?d = ts_active e1 then e1\<lparr>ts_pending := 0, ts_since := None\<rparr>
      else if tc_now c - the (ts_since e3) \<ge> (if ?d < ts_active e3 then lower else raise)
        then e3\<lparr>ts_active := ?d, ts_pending := 0, ts_since := None\<rparr> else e3)"
    using ge unfolding adjust_call_def adjustTarget_def e1_def[symmetric] by (simp add: Let_def e3_def desired_def)
  then show ?thesis using e1 e3 oddTarget_range[where least = least] oddTarget_odd[where least = least]
    by (auto simp: target_ok_def desired_def)
qed

lemma adjustTarget_least: "least \<le> ts_active (adjustTarget now tm raise lower least vs el e)"
  using oddTarget_range(1) by (auto simp: adjustTarget_def Let_def)

lemma targets_ok:
  assumes "0 < least" "ts_term e \<noteq> tm \<or> ts_active e = 0" "cs \<noteq> []"
  shows "target_ok tm least cs (targets tm raise lower least e cs)"
  using assms(3)
proof (induction cs rule: rev_induct)
  case (snoc c cs)
  let ?u = "targets tm raise lower least e cs"
  have u: "ts_term ?u \<noteq> tm \<or> ts_active ?u = 0 \<or> target_ok tm least cs ?u"
    using snoc.IH assms(2) by (cases "cs = []") (auto simp: targets_def)
  show ?case using adjust_ok[OF assms(1) u, of c raise lower] by (simp add: targets_def)
qed simp

lemma adjust_moves:
  assumes ok: "target_ok tm least cs e" "0 < least" and m: "ts_active (adjust_call tm raise lower least c e) \<noteq> ts_active e"
  shows "\<exists>pre suf. cs @ [c] = pre @ suf \<and> suf \<noteq> [] \<and> (\<forall>x \<in> set suf. desired least x = ts_active (adjust_call tm raise lower least c e))
    \<and> tc_now c - tc_now (hd suf) \<ge> (if ts_active (adjust_call tm raise lower least c e) < ts_active e then lower else raise)"
proof -
  let ?d = "desired least c"
  have s: "ts_term e = tm" "ts_active e \<noteq> 0" "\<not> ts_active e < least" using ok by (auto simp: target_ok_def)
  define e3 where "e3 = (if ?d \<noteq> ts_pending e \<or> ts_since e = None then e\<lparr>ts_pending := ?d, ts_since := Some (tc_now c)\<rparr> else e)"
  have a: "adjust_call tm raise lower least c e = (if ?d = ts_active e then e\<lparr>ts_pending := 0, ts_since := None\<rparr>
      else if tc_now c - the (ts_since e3) \<ge> (if ?d < ts_active e3 then lower else raise)
        then e3\<lparr>ts_active := ?d, ts_pending := 0, ts_since := None\<rparr> else e3)"
    using s by (simp add: adjust_call_def adjustTarget_def Let_def e3_def desired_def)
  have act: "ts_active e3 = ts_active e" by (simp add: e3_def)
  have g: "tc_now c - the (ts_since e3) \<ge> (if ?d < ts_active e then lower else raise)"
    and new: "ts_active (adjust_call tm raise lower least c e) = ?d"
    using m act unfolding a by (auto split: if_splits)
  show ?thesis
  proof (cases "?d \<noteq> ts_pending e \<or> ts_since e = None")
    case True
    then show ?thesis using g new by (intro exI[of _ cs] exI[of _ "[c]"]) (auto simp: e3_def)
  next
    case False
    then obtain t where t: "ts_since e = Some t" by auto
    then obtain pre suf where "cs = pre @ suf" "suf \<noteq> []" "tc_now (hd suf) = t" "\<forall>c \<in> set suf. desired least c = ts_pending e"
      using ok by (auto simp: target_ok_def)
    then show ?thesis using False g new t by (intro exI[of _ pre] exI[of _ "suf @ [c]"]) (auto simp: e3_def)
  qed
qed

section \<open>Members that stay away\<close>

text \<open>A member is silent in a round that reads the configuration if it does not answer its probe; a round that gets
  past its reads hears from the members that do.\<close>

definition heard :: "addr_parser \<Rightarrow> round \<Rightarrow> configuration \<Rightarrow> string \<Rightarrow> bool" where
  "heard pa r c i \<longleftrightarrow> i \<in> fst ` set (probeMembers pa r c)"

definition silent :: "addr_parser \<Rightarrow> round \<Rightarrow> string \<Rightarrow> bool" where
  "silent pa r i \<longleftrightarrow> (\<exists>c index. rd_stored r = Inr (c, index) \<and> \<not> heard pa r c i)"

definition heard_in :: "addr_parser \<Rightarrow> round \<Rightarrow> string \<Rightarrow> bool" where
  "heard_in pa r i \<longleftrightarrow> \<not> rd_generationPending r \<and> rd_fence r = None \<and> rd_stillLeader r \<and> rd_fresh r
     \<and> (\<exists>n. rd_target r = Inr n)
     \<and> (\<exists>c index. rd_stored r = Inr (c, index) \<and> list_all (server_ok pa) c \<and> i \<in> sv_ID ` set c \<and> heard pa r c i
          \<and> snd (rememberMemberKeys pa r (probeMembers pa r c) c) = None)"

definition rounds :: "addr_parser \<Rightarrow> controller \<Rightarrow> round list \<Rightarrow> controller" where
  "rounds pa e rs = fold (\<lambda>r e. snd (snd (reconcile pa r e))) rs e"

lemma sort_servers_missing:
  assumes "sort_servers pa now h c (m, vs, ls) = (err, m', vs', ls')"
  shows "(fmlookup m' i = Some t \<longrightarrow> fmlookup m i = Some t \<or> t = now i \<and> i \<notin> set h)
    \<and> (list_all (server_ok pa) c \<longrightarrow> i \<in> set h \<longrightarrow> i \<in> sv_ID ` set c \<or> fmlookup m i = None \<longrightarrow> fmlookup m' i = None)"
  using assms
proof (induction c arbitrary: m vs ls)
  case (Cons s c)
  show ?case
  proof (cases "parseAddress pa (sv_Address s)")
    case (Inl e)
    then show ?thesis using Cons.prems by (simp add: server_ok_def)
  next
    case (Inr x)
    define n where "n = (if m_ID x \<in> set h then fmdrop (m_ID x) m
            else if fmlookup m (m_ID x) = None then fmupd (m_ID x) (now (m_ID x)) m else m)"
    obtain vs2 ls2 where p: "sort_servers pa now h c (n, vs2, ls2) = (err, m', vs', ls')"
      using Cons.prems by (auto simp: Inr n_def[symmetric] Let_def split: if_splits)
    have "fmlookup n i = Some t \<longrightarrow> fmlookup m i = Some t \<or> t = now i \<and> i \<notin> set h" by (auto simp: n_def split: if_splits)
    moreover have "fmlookup n i = None" if "i \<in> set h" "fmlookup m i = None" using that by (auto simp: n_def)
    moreover have "fmlookup n i = None" if "i \<in> set h" "server_ok pa s" "i = sv_ID s" using that by (simp add: n_def server_ok_def Inr)
    ultimately show ?thesis using Cons.IH[OF p] by (simp add: image_iff) blast
  qed
qed simp

lemma sort_servers_members:
  assumes "sort_servers pa now h c (m, vs, ls) = (None, m', vs', ls')"
  shows "length vs' = length vs + voters c"
    and "x \<in> set vs' \<Longrightarrow> x \<in> set vs \<or> (\<exists>s \<in> set c. sv_Suffrage s = Voter \<and> parseAddress pa (sv_Address s) = Inr x)"
    and "x \<in> set ls' \<Longrightarrow> x \<in> set ls \<or> (\<exists>s \<in> set c. sv_Suffrage s \<noteq> Voter \<and> parseAddress pa (sv_Address s) = Inr x)"
  using assms
  by (induction c arbitrary: m vs ls) (fastforce simp: Let_def split: sum.splits if_splits)+

text \<open>A round either leaves the table of missing members, forgets it, or goes through the servers.\<close>

lemma reconcile_cases:
  assumes "reconcile pa r e = (d, pins, e')"
  obtains (stopped) err where "d = Fails err" "cn_missing e' = cn_missing e \<or> cn_missing e' = fmempty" "\<And>i. \<not> heard_in pa r i"
  | (sorted) c index err vs ls where "rd_stored r = Inr (c, index)"
      "sort_servers pa (rd_noted r) (map fst (probeMembers pa r c)) c (cn_missing e, [], []) = (err, cn_missing e', vs, ls)"
      "err = None \<Longrightarrow> d = decide r index (map fst (probeMembers pa r c)) (cn_missing e') (ts_active (cn_target e')) vs ls"
      "err = None \<Longrightarrow> \<exists>n. rd_target r = Inr n \<and> n \<le> ts_active (cn_target e')"
      "err \<noteq> None \<Longrightarrow> d = Fails (the err)"
proof (cases "rd_generationPending r \<or> rd_fence r \<noteq> None \<or> \<not> rd_stillLeader r \<or> \<not> rd_fresh r
    \<or> (\<exists>x. rd_stored r = Inl x) \<or> (\<exists>x. rd_target r = Inl x)")
  case True
  then have "\<not> heard_in pa r i" for i by (auto simp: heard_in_def)
  moreover from True have "(\<exists>x. d = Fails x) \<and> (cn_missing e' = cn_missing e \<or> cn_missing e' = fmempty)"
    using assms
    by (auto simp: reconcile_def committedConfiguration_def split: if_splits option.splits sum.splits)
  ultimately show ?thesis using stopped by blast
next
  case False
  then obtain c index n where st: "rd_stored r = Inr (c, index)" and t: "rd_target r = Inr n"
    by (metis surj_pair sumE)
  obtain ps x where k: "rememberMemberKeys pa r (probeMembers pa r c) c = (ps, x)" by fastforce
  obtain err m vs ls where so: "sort_servers pa (rd_noted r) (map fst (probeMembers pa r c)) c (cn_missing e, [], []) = (err, m, vs, ls)"
    by (metis prod_cases4)
  note eq = assms[unfolded reconcile_def committedConfiguration_def]
  show ?thesis
  proof (cases x)
    case (Some y)
    then have "d = Fails y \<and> e' = e" using eq False by (simp add: st t k Let_def)
    moreover have "\<not> heard_in pa r i" for i using Some k st by (auto simp: heard_in_def)
    ultimately show ?thesis using stopped by blast
  next
    case None
    show ?thesis
    proof (rule sorted[OF st])
      show "sort_servers pa (rd_noted r) (map fst (probeMembers pa r c)) c (cn_missing e, [], []) = (err, cn_missing e', vs, ls)"
        using eq False None by (cases err) (auto simp: st t k so Let_def)
      show "d = decide r index (map fst (probeMembers pa r c)) (cn_missing e') (ts_active (cn_target e')) vs ls" if "err = None"
        using eq False None that by (auto simp: st t k so Let_def)
      show "\<exists>n. rd_target r = Inr n \<and> n \<le> ts_active (cn_target e')" if "err = None"
        using eq False None that by (auto simp: st t k so Let_def intro: adjustTarget_least)
      show "d = Fails (the err)" if "err \<noteq> None" using eq False None that by (auto simp: st t k so Let_def)
    qed
  qed
qed

lemma reconcile_missing:
  assumes "reconcile pa r e = (d, pins, e')"
  shows "(fmlookup (cn_missing e') i = Some t \<longrightarrow> fmlookup (cn_missing e) i = Some t \<or> t = rd_noted r i \<and> silent pa r i)
    \<and> (heard_in pa r i \<longrightarrow> fmlookup (cn_missing e') i = None)"
  using assms
proof (cases rule: reconcile_cases)
  case stopped
  then show ?thesis by auto
next
  case (sorted c index err vs ls)
  have "i \<in> set (map fst (probeMembers pa r c)) \<longleftrightarrow> heard pa r c i" by (simp add: heard_def)
  then show ?thesis using sort_servers_missing[OF sorted(2), of i t] sorted(1) by (auto simp: heard_in_def silent_def)
qed

lemma rounds_missing:
  assumes "cn_missing e = fmempty" "fmlookup (cn_missing (rounds pa e rs)) i = Some t"
  shows "\<exists>pre r suf. rs = pre @ r # suf \<and> rd_noted r i = t \<and> silent pa r i \<and> (\<forall>x \<in> set (r # suf). \<not> heard_in pa x i)"
  using assms(2)
proof (induction rs rule: rev_induct)
  case Nil
  then show ?case using assms(1) by (simp add: rounds_def)
next
  case (snoc x rs)
  obtain d pins e' where r: "reconcile pa x (rounds pa e rs) = (d, pins, e')" by (metis prod_cases3)
  have l: "fmlookup (cn_missing e') i = Some t" using snoc.prems r by (simp add: rounds_def)
  note m = reconcile_missing[OF r, of i t]
  have na: "\<not> heard_in pa x i" using m l by auto
  from m l consider "fmlookup (cn_missing (rounds pa e rs)) i = Some t" | "t = rd_noted x i" "silent pa x i" by blast
  then show ?case
  proof cases
    case 1
    from snoc.IH[OF this] obtain pre y suf where "rs = pre @ y # suf" "rd_noted y i = t" "silent pa y i"
      "\<forall>x \<in> set (y # suf). \<not> heard_in pa x i" by blast
    then show ?thesis using na by (intro exI[of _ pre] exI[of _ y] exI[of _ "suf @ [x]"]) auto
  next
    case 2
    then show ?thesis using na by (intro exI[of _ rs] exI[of _ x] exI[of _ "[]"]) auto
  qed
qed

section \<open>What the controller decides\<close>

lemma ready_learners_Inl:
  "ready_learners r index h missing ls ready = Inl (Retires m) \<Longrightarrow> m \<in> set ls \<and> overdue r missing m"
  by (induction r index h missing ls ready rule: ready_learners.induct) (auto split: if_splits sum.splits option.splits)

lemma ready_learners_no_promotion: "ready_learners r index h missing ls ready \<noteq> Inl (Promotes m)"
  by (induction r index h missing ls ready rule: ready_learners.induct) (auto split: if_splits sum.splits option.splits)

definition ready_member :: "round \<Rightarrow> 64 word \<Rightarrow> string list \<Rightarrow> member \<Rightarrow> bool" where
  "ready_member r index h m \<longleftrightarrow> m_ID m \<in> set h \<and> (\<exists>a. rd_admission r (m_ID m) = Inr (Some a) \<and> \<not> ad_Retired a \<and> ad_Member a = m)
     \<and> learnerCaughtUp (rd_learner r m) m (rd_applied r m) index = None"

lemma ready_learners_Inr:
  "ready_learners r index h missing ls ready = Inr ready' \<Longrightarrow> m \<in> set ready' \<Longrightarrow>
     m \<in> set ready \<or> m \<in> set ls \<and> ready_member r index h m"
  by (induction r index h missing ls ready rule: ready_learners.induct)
    (auto simp: ready_member_def split: if_splits sum.splits option.splits)

lemma failed_voter:
  assumes "List.find (overdue r missing) (sort_key m_ID vs) = Some m"
  shows "m \<in> set vs \<and> overdue r missing m"
  using find_in[OF assms] by simp

lemma decide_Retires:
  assumes "decide r index h missing target vs ls = Retires m"
  shows "overdue r missing m \<and> (m \<in> set ls \<or> m \<in> set vs \<and> target < int (length vs))"
  using assms
  by (auto simp: decide_def Let_def dest: failed_voter ready_learners_Inl split: if_splits sum.splits)

lemma decide_Promotes:
  assumes "decide r index h missing target vs ls = Promotes m"
  shows "m \<in> set ls \<and> ready_member r index h m \<and> (int (length vs) < target \<or>
     length vs \<le> maxVoters \<and> (\<exists>v \<in> set vs. overdue r missing v))"
proof -
  obtain ready where rd: "ready_learners r index h missing ls [] = Inr ready" "ready \<noteq> []" "m = hd ready"
    and why: "int (length vs) < target \<or> length vs \<le> maxVoters \<and> List.find (overdue r missing) (sort_key m_ID vs) \<noteq> None"
    using assms ready_learners_no_promotion[of r index h missing ls "[]" m]
    by (auto simp: decide_def Let_def scales_def split: if_splits sum.splits)
  then have "m \<in> set ready" by simp
  from ready_learners_Inr[OF rd(1) this] why show ?thesis by (auto dest: failed_voter)
qed

end
