(* ===== verification/Membership_Guarantees.thy ===== *)
theory Membership_Guarantees
  imports Membership_Safety
begin

text \<open>
  The properties of the cluster membership: bounds on the configuration, the voter target over time, the
  reasons for which the controller retires and promotes, the register of admissions and the
  configuration read from the log. The witnesses use a cluster of three voters and a learner.
\<close>

section \<open>Callers of the operations\<close>

text \<open>Every change that the controller or an admission asks for is one of the four operations, run on the
  configuration they read.\<close>

lemma carry_out_step:
  assumes "carry_out pa local env d = (w, Inr (Some x))" "re_removes env = Inr c" "re_promotes env = Inr (c, index)"
  shows "member_step pa ch c (ch x c)"
proof (cases d)
  case (Retires m)
  then have "RemoveMember local (Inr c) (m_ID m) = Inr x" using assms
    by (auto simp: carry_out_def retire_def Let_def split: sum.splits prod.splits if_splits option.splits)
  then show ?thesis by (rule member_step.removal)
next
  case (Promotes m)
  then have "Promote pa (re_port env) (re_observer env) (Inr (c, index)) (re_probe env) (re_applied env) m = Inr x"
    using assms by (auto simp: carry_out_def split: sum.splits)
  then show ?thesis by (rule member_step.promotion)
qed (use assms(1) in \<open>simp_all add: carry_out_def\<close>)

lemma admit_change_step:
  assumes "admit_change pa env changed a = Inr (Some x)" "am_conf3 env = Inr c"
  shows "member_step pa ch c (ch x c)"
proof -
  have "updateAddress pa (Inr c) (ad_Member a) = Inr x \<or> AddLearner pa (Inr c) (ad_Member a) = Inr x"
    using assms by (auto simp: admit_change_def split: if_splits sum.splits option.splits)
  then show ?thesis by (auto intro: member_step.readdress member_step.learner)
qed

lemma admit_result:
  assumes "admit pa env a = (w, Inr y)"
  shows "\<exists>changed. admit_change pa env changed a = Inr y"
  using assms by (auto simp: admit_def split: if_splits sum.splits option.splits prod.splits)

lemma admit_step:
  assumes "admit pa env a = (w, Inr (Some x))" "am_conf3 env = Inr c"
  shows "member_step pa ch c (ch x c)"
  using admit_result[OF assms(1)] admit_change_step[OF _ assms(2)] by blast

section \<open>The register of admissions\<close>

text \<open>The records under \<open>cluster_admissions/\<close>. Each step is one commit; its check makes the record at that moment the
  one that was read. Steps of different callers may come in any order.\<close>

type_synonym register = "string \<rightharpoonup> admission"

definition row_read :: "register \<Rightarrow> string \<Rightarrow> 64 word \<times> admission option \<Rightarrow> bool" where
  "row_read reg i row \<longleftrightarrow> (if fst row = 0 then reg i = None else reg i \<noteq> None \<and> snd row = reg i)"

inductive register_step :: "addr_parser \<Rightarrow> register \<Rightarrow> register \<Rightarrow> bool" for pa where
  admission: "admit pa env a = (Some w, res) \<Longrightarrow> am_record env = Inr row \<Longrightarrow> row_read reg (m_ID (ad_Member a)) row
    \<Longrightarrow> register_step pa reg (reg(m_ID (ad_Member a) \<mapsto> w))"
| retirement: "retire local (Inr row) commit conf m = (Some w, res) \<Longrightarrow> row_read reg (m_ID m) row
    \<Longrightarrow> register_step pa reg (reg(m_ID m \<mapsto> w))"
| pin: "rememberMemberKeys pa r keys c = (pins, err) \<Longrightarrow> (i, w) \<in> set pins \<Longrightarrow> row_read reg i (0, None)
    \<Longrightarrow> register_step pa reg (reg(i \<mapsto> w))"

lemma admit_key:
  assumes "admit pa env a = (Some w, res)" "am_record env = Inr (version, stored)"
  shows "w = a" and "version \<noteq> 0 \<Longrightarrow> \<exists>old. stored = Some old \<and> ad_KeyHash old = ad_KeyHash a"
  using assms
  by (auto simp: admit_def readmit_def split: if_splits sum.splits option.splits prod.splits)

definition keeps_key :: "register \<Rightarrow> register \<Rightarrow> bool" where
  "keeps_key reg reg' \<longleftrightarrow> (\<forall>i a. reg i = Some a \<longrightarrow> (\<exists>a'. reg' i = Some a' \<and> ad_KeyHash a' = ad_KeyHash a))"

lemma keeps_key_refl: "keeps_key a a"
  by (simp add: keeps_key_def)

lemma keeps_key_trans: "keeps_key a b \<Longrightarrow> keeps_key b c \<Longrightarrow> keeps_key a c"
  unfolding keeps_key_def by metis

lemma keeps_key_update:
  "(\<And>a. reg i = Some a \<Longrightarrow> ad_KeyHash w = ad_KeyHash a) \<Longrightarrow> keeps_key reg (reg(i \<mapsto> w))"
  by (auto simp: keeps_key_def)

lemma register_step_key: "register_step pa reg reg' \<Longrightarrow> keeps_key reg reg'"
proof (induction rule: register_step.induct)
  case (admission env a w res row reg)
  obtain version stored where row: "row = (version, stored)" by fastforce
  show ?case using admit_key[OF admission(1), of version stored] admission(2,3)
    by (intro keeps_key_update) (auto simp: row row_read_def split: if_splits)
next
  case (retirement local row commit conf m w res reg)
  then show ?case
    by (intro keeps_key_update)
      (auto simp: retire_def row_read_def Let_def split: if_splits option.splits prod.splits)
next
  case (pin r keys c pins err i w reg)
  then show ?case by (intro keeps_key_update) (simp add: row_read_def)
qed

interpretation admissions: invariant_system "register_step pa" "\<lambda>_. True" for pa
  by unfold_locales simp

section \<open>The configuration in the log\<close>

lemma config_entry_newest:
  assumes "config_entry entry f n = Some (Inr (c, i))"
  shows "i \<le> n \<and> f \<le> i \<and> entry i = Inr (Some (Inr c)) \<and> (\<forall>j. i < j \<longrightarrow> j \<le> n \<longrightarrow> entry j = Inr None)"
  using assms
proof (induction n)
  case (Suc n)
  show ?case
  proof (cases "entry (Suc n) = Inr None")
    case True
    then have "config_entry entry f n = Some (Inr (c, i))" using Suc.prems by (auto split: if_splits)
    from Suc.IH[OF this] show ?thesis using True le_Suc_eq by auto
  next
    case False
    then show ?thesis using Suc.prems by (auto split: if_splits sum.splits option.splits)
  qed
qed simp

lemma config_entry_none:
  "config_entry entry f n = None \<Longrightarrow> f \<le> j \<Longrightarrow> 0 < j \<Longrightarrow> j \<le> n \<Longrightarrow> entry j = Inr None"
proof (induction n)
  case (Suc n)
  then show ?case by (cases "j = Suc n") (auto split: if_splits sum.splits option.splits)
qed simp

section \<open>A small cluster\<close>

definition mb_pa :: addr_parser where
  "mb_pa = map_of [(''10.0.0.1:9000'', (ipv4 10 0 0 1, 9000)), (''10.0.0.2:9000'', (ipv4 10 0 0 2, 9000)),
     (''10.0.0.3:9000'', (ipv4 10 0 0 3, 9000)), (''10.0.0.4:9000'', (ipv4 10 0 0 4, 9000))]"

definition mb_conf :: configuration where
  "mb_conf = [\<lparr>sv_ID = ''v1'', sv_Address = ''v1@10.0.0.1:9000'', sv_Suffrage = Voter\<rparr>,
     \<lparr>sv_ID = ''v2'', sv_Address = ''v2@10.0.0.2:9000'', sv_Suffrage = Voter\<rparr>,
     \<lparr>sv_ID = ''v3'', sv_Address = ''v3@10.0.0.3:9000'', sv_Suffrage = Voter\<rparr>,
     \<lparr>sv_ID = ''l1'', sv_Address = ''l1@10.0.0.4:9000'', sv_Suffrage = Nonvoter\<rparr>]"

definition mb_learner :: member where
  "mb_learner = \<lparr>m_ID = ''l1'', m_Address = ''10.0.0.4:9000''\<rparr>"

text \<open>Raft's effect on a list of servers.\<close>

fun mb_change :: "raft_change \<Rightarrow> configuration \<Rightarrow> configuration" where
  "mb_change (AddVoter i a) c = filter (\<lambda>s. sv_ID s \<noteq> i) c @ [\<lparr>sv_ID = i, sv_Address = a, sv_Suffrage = Voter\<rparr>]"
| "mb_change (AddNonvoter i a) c = filter (\<lambda>s. sv_ID s \<noteq> i) c
     @ [\<lparr>sv_ID = i, sv_Address = a, sv_Suffrage = suffrage_of c i\<rparr>]"
| "mb_change (RemoveServer i) c = filter (\<lambda>s. sv_ID s \<noteq> i) c"

lemma mb_change_ok: "raft_changes mb_change"
  by (simp add: raft_changes_def)

definition mb_status :: "string \<Rightarrow> peer_status" where
  "mb_status i = \<lparr>ps_ID = i, ps_Role = ''Follower'', ps_Term = 1, ps_LastIndex = 9, ps_StateIndex = 9\<rparr>"

text \<open>A round of the controller on \<open>v1\<close>, at a time, with the members that answer.\<close>

definition mb_round :: "time \<Rightarrow> string list \<Rightarrow> round" where
  "mb_round now up = \<lparr>rd_local = ''v1'', rd_localKey = ''k'', rd_term = 1, rd_generationPending = False, rd_fence = None,
     rd_stored = Inr (mb_conf, 4), rd_stillLeader = True, rd_target = Inr 3, rd_fresh = True,
     rd_probe = (\<lambda>m. if m_ID m \<in> set up then Inr (mb_status (m_ID m), ''k'') else Inl KvErrInvalid),
     rd_version = (\<lambda>_. Inr 1), rd_commit = (\<lambda>_. None),
     rd_admission = (\<lambda>i. Inr (Some \<lparr>ad_Member = mb_learner, ad_KeyHash = ''k'', ad_Retired = False\<rparr>)),
     rd_learner = (\<lambda>m. Inr (mb_status (m_ID m))), rd_applied = (\<lambda>_. 5), rd_now = now, rd_noted = (\<lambda>_. now), rd_checked = (\<lambda>_. now),
     rd_grace = 100, rd_raise = 10, rd_lower = 20\<rparr>"

definition mb_start :: controller where
  "mb_start = \<lparr>cn_missing = fmempty, cn_target = \<lparr>ts_term = 0, ts_active = 0, ts_pending = 0, ts_since = None\<rparr>\<rparr>"

lemma mb_valid:
  "member_valid mb_pa \<lparr>m_ID = ''v1'', m_Address = ''10.0.0.1:9000''\<rparr>"
  "member_valid mb_pa \<lparr>m_ID = ''v2'', m_Address = ''10.0.0.2:9000''\<rparr>"
  "member_valid mb_pa \<lparr>m_ID = ''v3'', m_Address = ''10.0.0.3:9000''\<rparr>"
  "member_valid mb_pa mb_learner"
  by (simp_all add: member_valid_def mb_pa_def ipv4_def nodeIDPattern_def char_class_defs IsUnspecified_def IsMulticast_def
      Zone_def v4_byte_def mb_learner_def Unmap_def)

lemma mb_parse:
  "parseAddress mb_pa ''v1@10.0.0.1:9000'' = Inr \<lparr>m_ID = ''v1'', m_Address = ''10.0.0.1:9000''\<rparr>"
  "parseAddress mb_pa ''v2@10.0.0.2:9000'' = Inr \<lparr>m_ID = ''v2'', m_Address = ''10.0.0.2:9000''\<rparr>"
  "parseAddress mb_pa ''v3@10.0.0.3:9000'' = Inr \<lparr>m_ID = ''v3'', m_Address = ''10.0.0.3:9000''\<rparr>"
  "parseAddress mb_pa ''l1@10.0.0.4:9000'' = Inr mb_learner"
  using mb_valid[THEN parse_raftAddress] by (simp_all add: raftAddress_def mb_learner_def)

lemma mb_ok: "configuration_ok mb_pa mb_conf"
  by (simp add: configuration_ok_def mb_conf_def address_of_def server_ok_def mb_parse maxMembers_def maxVoters_def mb_learner_def)

lemmas mb_run = mb_round_def mb_conf_def mb_status_def mb_parse mb_learner_def mb_start_def reconcile_def
  committedConfiguration_def probeMembers_def Let_def adjustTarget_def oddTarget_def maxVoters_def decide_def
  overdue_def learnerCaughtUp_def scales_def

definition mb_target :: target_state where
  "mb_target = \<lparr>ts_term = 1, ts_active = 3, ts_pending = 0, ts_since = None\<rparr>"

lemma mb_retires:
  "reconcile mb_pa (mb_round 100 [''v2'', ''v3'']) (rounds mb_pa mb_start [mb_round 0 [''v2'', ''v3'']])
    = (Retires mb_learner, [], mb_start\<lparr>cn_missing := fmupd ''l1'' 0 fmempty, cn_target := mb_target\<rparr>)"
proof -
  have "reconcile mb_pa (mb_round 0 [''v2'', ''v3'']) mb_start
      = (Nothing, [], mb_start\<lparr>cn_missing := fmupd ''l1'' 0 fmempty, cn_target := mb_target\<rparr>)"
    by (simp add: mb_run mb_target_def)
  then have "rounds mb_pa mb_start [mb_round 0 [''v2'', ''v3'']] = mb_start\<lparr>cn_missing := fmupd ''l1'' 0 fmempty, cn_target := mb_target\<rparr>"
    by (simp add: rounds_def)
  moreover have "fmdrop i (fmupd ''l1'' 0 fmempty) = fmupd ''l1'' (0::time) fmempty" if "i \<noteq> ''l1''" for i
    using that by (intro fmap_ext) simp
  ultimately show ?thesis by (simp add: mb_run mb_target_def)
qed

lemma mb_promotes:
  "reconcile mb_pa (mb_round 100 [''v2'', ''l1'']) (mb_start\<lparr>cn_missing := fmupd ''v3'' 0 fmempty, cn_target := mb_target\<rparr>)
    = (Promotes mb_learner, [], mb_start\<lparr>cn_missing := fmupd ''v3'' 0 fmempty, cn_target := mb_target\<rparr>)"
proof -
  have "fmdrop i (fmupd ''v3'' 0 fmempty) = fmupd ''v3'' (0::time) fmempty" if "i \<noteq> ''v3''" for i
    using that by (intro fmap_ext) simp
  then show ?thesis by (simp add: mb_run mb_target_def)
qed

definition mb_voter :: raft_change where "mb_voter = AddVoter ''l1'' ''l1@10.0.0.4:9000''"

lemma mb_steps:
  "member_step mb_pa mb_change mb_conf (mb_change mb_voter mb_conf)"
  "member_step mb_pa mb_change (mb_change mb_voter mb_conf) (mb_change (RemoveServer ''v3'') (mb_change mb_voter mb_conf))"
proof -
  have "Promote mb_pa 9000 True (Inr (mb_conf, 4)) (Inr (mb_status ''l1'')) 5 mb_learner = Inr mb_voter"
    using mb_valid(4) by (simp add: Promote_def mb_conf_def mb_status_def mb_learner_def raftAddress_def maxVoters_def
        learnerCaughtUp_def mb_voter_def)
  then show "member_step mb_pa mb_change mb_conf (mb_change mb_voter mb_conf)" by (rule member_step.promotion)
  have "RemoveMember ''v1'' (Inr (mb_change mb_voter mb_conf)) ''v3'' = Inr (RemoveServer ''v3'')"
    by (simp add: RemoveMember_def mb_conf_def mb_voter_def nodeIDPattern_def char_class_defs)
  then show "member_step mb_pa mb_change (mb_change mb_voter mb_conf) (mb_change (RemoveServer ''v3'') (mb_change mb_voter mb_conf))"
    by (rule member_step.removal)
qed

definition mb_admission :: admission where
  "mb_admission = \<lparr>ad_Member = mb_learner, ad_KeyHash = ''k'', ad_Retired = False\<rparr>"

text \<open>A retired member comes back with its key.\<close>

definition mb_return :: admit_env where
  "mb_return = \<lparr>am_wait = None, am_generation = Inr \<lparr>rg_Generation = 0, rg_Lineage = []\<rparr>, am_approvals1 = fmempty, am_now1 = 0,
     am_probe1 = Inl KvErrInvalid, am_conf1 = Inr (butlast mb_conf), am_automatic = True, am_probe2 = Inl KvErrInvalid,
     am_record = Inr (2, Some (mb_admission\<lparr>ad_Retired := True\<rparr>)), am_probe3 = Inr (mb_status ''l1''), am_term = 1,
     am_approvals2 = fmempty, am_now2 = 0, am_commit = None, am_conf2 = Inr (butlast mb_conf), am_conf3 = Inr (butlast mb_conf)\<rparr>"

lemma mb_register:
  "register_step mb_pa [''l1'' \<mapsto> mb_admission] [''l1'' \<mapsto> mb_admission\<lparr>ad_Retired := True\<rparr>]"
  "register_step mb_pa [''l1'' \<mapsto> mb_admission\<lparr>ad_Retired := True\<rparr>] [''l1'' \<mapsto> mb_admission]"
proof -
  obtain res where "admit mb_pa mb_return mb_admission = (Some mb_admission, res)"
    by (simp add: admit_def mb_return_def readmit_def mb_conf_def maxMembers_def mb_admission_def mb_learner_def
        present_in_def mb_status_def)
  moreover have "row_read [''l1'' \<mapsto> mb_admission\<lparr>ad_Retired := True\<rparr>] (m_ID (ad_Member mb_admission))
      (2, Some (mb_admission\<lparr>ad_Retired := True\<rparr>))" "m_ID (ad_Member mb_admission) = ''l1''"
    by (simp_all add: row_read_def mb_admission_def mb_learner_def)
  ultimately show "register_step mb_pa [''l1'' \<mapsto> mb_admission\<lparr>ad_Retired := True\<rparr>] [''l1'' \<mapsto> mb_admission]"
    using register_step.admission[of mb_pa mb_return mb_admission mb_admission res "(2, Some (mb_admission\<lparr>ad_Retired := True\<rparr>))"
        "[''l1'' \<mapsto> mb_admission\<lparr>ad_Retired := True\<rparr>]"] by (simp add: mb_return_def)
  obtain res where "retire ''v1'' (Inr (1, Some mb_admission)) None (Inr mb_conf) mb_learner = (Some (mb_admission\<lparr>ad_Retired := True\<rparr>), res)"
    by (simp add: retire_def Let_def)
  from register_step.retirement[OF this, of "[''l1'' \<mapsto> mb_admission]" mb_pa]
  show "register_step mb_pa [''l1'' \<mapsto> mb_admission] [''l1'' \<mapsto> mb_admission\<lparr>ad_Retired := True\<rparr>]"
    by (simp add: row_read_def mb_learner_def)
qed

section \<open>Properties\<close>

text \<open>
  C15. Whatever sequence of additions, promotions, removals and changes of address succeeds, in any order, the
  configuration keeps distinct identities at distinct addresses, at most 16 members and at most 8 voters
  (7 and the one being replaced), and it never goes below three voters, or below the number it started from.
\<close>
theorem membership_bounds:
  assumes "raft_changes ch" "configuration_ok pa c" "(member_step pa ch)\<^sup>*\<^sup>* c c'"
  shows "configuration_ok pa c' \<and> min 3 (voters c) \<le> voters c'"
proof
  have inv: "raft_changes ch \<and> configuration_ok pa c" using assms(1,2) by blast
  show "configuration_ok pa c'" using membership.invariant[OF assms(3) inv] by blast
  have "keeps_quorum c c'"
    by (rule membership.monotone[OF assms(3) inv]) (auto simp: keeps_quorum_def dest: member_step_quorum)
  then show "min 3 (voters c) \<le> voters c'" by (simp add: keeps_quorum_def)
qed

theorem membership_bounds_witness:
  "configuration_ok mb_pa (mb_change (RemoveServer ''v3'') (mb_change mb_voter mb_conf))
    \<and> 3 \<le> voters (mb_change (RemoveServer ''v3'') (mb_change mb_voter mb_conf))"
proof -
  have "(member_step mb_pa mb_change)\<^sup>*\<^sup>* mb_conf (mb_change (RemoveServer ''v3'') (mb_change mb_voter mb_conf))"
    using converse_rtranclp_into_rtranclp[of "member_step mb_pa mb_change", OF mb_steps(1) r_into_rtranclp, OF mb_steps(2)] .
  from membership_bounds[OF mb_change_ok mb_ok this] show ?thesis by (simp add: mb_conf_def)
qed



text \<open>
  C16. A controller that starts with nobody missing retires a member only if, in this or an earlier round, the member
  did not answer its probe, the grace period has passed since then, and no round from that one on has heard
  from it. A voter is retired only while there are more voters than the target, which is at least the floor.
\<close>
theorem retired_after_grace:
  assumes "cn_missing e = fmempty" "reconcile pa r (rounds pa e rs) = (Retires m, pins, e')"
  shows "(\<exists>pre x suf. rs @ [r] = pre @ x # suf \<and> silent pa x (m_ID m) \<and> (\<forall>y \<in> set (x # suf). \<not> heard_in pa y (m_ID m))
      \<and> rd_grace r \<le> rd_checked r (m_ID m) - rd_noted x (m_ID m))
    \<and> (\<exists>c index s n. rd_stored r = Inr (c, index) \<and> s \<in> set c \<and> parseAddress pa (sv_Address s) = Inr m \<and> rd_target r = Inr n
      \<and> (sv_Suffrage s = Voter \<longrightarrow> n \<le> ts_active (cn_target e') \<and> ts_active (cn_target e') < int (voters c)))"
  using assms(2)
proof (cases rule: reconcile_cases)
  case (sorted c index err vs ls)
  have err: "err = None" using sorted(5) by (cases err) auto
  note d = decide_Retires[OF sorted(3)[OF err, symmetric]] and srt = sort_servers_members[OF sorted(2)[unfolded err]]
  from d obtain t where t: "fmlookup (cn_missing e') (m_ID m) = Some t" "rd_grace r \<le> rd_checked r (m_ID m) - t"
    by (auto simp: overdue_def split: option.splits)
  have "fmlookup (cn_missing (rounds pa e (rs @ [r]))) (m_ID m) = Some t" using assms(2) t(1) by (simp add: rounds_def)
  from rounds_missing[OF assms(1) this] t(2) show ?thesis using d srt sorted(1) sorted(4)[OF err] by fastforce
qed simp

theorem retired_after_grace_witness:
  "\<exists>pre x suf. [mb_round 0 [''v2'', ''v3'']] @ [mb_round 100 [''v2'', ''v3'']] = pre @ x # suf \<and> silent mb_pa x ''l1''
    \<and> (\<forall>y \<in> set (x # suf). \<not> heard_in mb_pa y ''l1'') \<and> 100 \<le> 100 - rd_noted x ''l1''"
  using retired_after_grace[OF _ mb_retires] by (simp add: mb_start_def mb_learner_def mb_round_def)

text \<open>
  The controller promotes a member only if it is a learner of the committed configuration, answered its probe,
  has an admission that is not retired and names exactly this address, and reported the state it must have caught
  up to; and only when voters are below the target or a voter has been missing for the grace period.
\<close>
theorem promoted_when_ready:
  assumes "reconcile pa r e = (Promotes m, pins, e')"
  shows "\<exists>c index. rd_stored r = Inr (c, index) \<and> (\<exists>s \<in> set c. sv_Suffrage s \<noteq> Voter \<and> parseAddress pa (sv_Address s) = Inr m)
    \<and> heard pa r c (m_ID m) \<and> (\<exists>a. rd_admission r (m_ID m) = Inr (Some a) \<and> \<not> ad_Retired a \<and> ad_Member a = m)
    \<and> learnerCaughtUp (rd_learner r m) m (rd_applied r m) index = None
    \<and> (int (voters c) < ts_active (cn_target e') \<or> voters c \<le> maxVoters
        \<and> (\<exists>s v. s \<in> set c \<and> sv_Suffrage s = Voter \<and> parseAddress pa (sv_Address s) = Inr v \<and> overdue r (cn_missing e') v))"
  using assms
proof (cases rule: reconcile_cases)
  case (sorted c index err vs ls)
  have err: "err = None" using sorted(5) by (cases err) auto
  note srt = sort_servers_members[OF sorted(2)[unfolded err]]
  from decide_Promotes[OF sorted(3)[OF err, symmetric]] show ?thesis
    using srt sorted(1) by (fastforce simp: ready_member_def heard_def)
qed simp

theorem promoted_when_ready_witness:
  "heard mb_pa (mb_round 100 [''v2'', ''l1'']) mb_conf ''l1''"
  using promoted_when_ready[OF mb_promotes] by (auto simp: mb_round_def mb_learner_def)

text \<open>
  C18. An identity stays bound to the key of its first admission record: whatever admissions, retirements and pins of
  healthy voters are committed, in any order, the record is never deleted and its key hash never changes.
\<close>
theorem identity_keeps_key:
  assumes "(register_step pa)\<^sup>*\<^sup>* reg reg'" "reg i = Some a"
  shows "\<exists>a'. reg' i = Some a' \<and> ad_KeyHash a' = ad_KeyHash a"
proof -
  have "keeps_key reg reg'"
    by (rule admissions.monotone[OF assms(1) TrueI keeps_key_refl keeps_key_trans register_step_key])
  then show ?thesis using assms(2) by (simp add: keeps_key_def)
qed

theorem identity_keeps_key_witness:
  "\<exists>a'. [''l1'' \<mapsto> mb_admission] ''l1'' = Some a' \<and> ad_KeyHash a' = ''k''"
proof -
  have "(register_step mb_pa)\<^sup>*\<^sup>* [''l1'' \<mapsto> mb_admission] [''l1'' \<mapsto> mb_admission]"
    using converse_rtranclp_into_rtranclp[of "register_step mb_pa", OF mb_register(1) r_into_rtranclp, OF mb_register(2)] .
  from identity_keeps_key[OF this, of "''l1''" mb_admission] show ?thesis by (simp add: mb_admission_def)
qed

text \<open>
  The configuration that the controller works on is committed: its index is at most the commit index it was asked
  for, and the log holds no newer configuration entry up to that index. Snapshots are listed with configurations
  no newer than themselves.
\<close>
theorem committed_configuration:
  assumes "configurationAtIndex (Inr f) (Inr l) entry metas through = Inr (c, i)"
    and "\<forall>ms m. metas = Inr ms \<longrightarrow> m \<in> set ms \<longrightarrow> snd (snd m) \<le> fst m"
  shows "i \<le> through \<and> (\<forall>j. f \<le> j \<longrightarrow> 0 < j \<longrightarrow> i < j \<longrightarrow> j \<le> min l through \<longrightarrow> entry j = Inr None)"
proof (cases "config_entry entry f (min l through)")
  case None
  then obtain ms m where m: "metas = Inr ms" "List.find (\<lambda>m. fst m \<le> through) ms = Some m" "(c, i) = snd m"
    using assms(1) by (auto simp: configurationAtIndex_def split: sum.splits option.splits)
  then have "m \<in> set ms" "fst m \<le> through" by (auto simp: find_Some_iff)
  then have "i \<le> through" using assms(2) m(1,3) by (metis order_trans snd_conv)
  then show ?thesis using config_entry_none[OF None] by blast
next
  case (Some x)
  then have "config_entry entry f (min l through) = Some (Inr (c, i))"
    using assms(1) by (simp add: configurationAtIndex_def)
  from config_entry_newest[OF this] show ?thesis by auto
qed

theorem committed_configuration_witness:
  "configurationAtIndex (Inr 1) (Inr 5) (\<lambda>i. if i = 2 then Inr (Some (Inr mb_conf)) else Inr None) (Inr []) 3 = Inr (mb_conf, 2)
    \<and> (2::nat) \<le> 3"
proof -
  have "configurationAtIndex (Inr 1) (Inr 5) (\<lambda>i. if i = 2 then Inr (Some (Inr mb_conf)) else Inr None) (Inr []) 3 = Inr (mb_conf, 2)"
    by (simp add: configurationAtIndex_def eval_nat_numeral)
  from committed_configuration[OF this] this show ?thesis by simp
qed

end
