(* ===== verification/Recovery_Guarantees.thy ===== *)
theory Recovery_Guarantees
  imports Recovery_Safety Bootstrap Membership_Guarantees
begin

text \<open>
  The properties of automatic recovery, of the return of members and of the first start. The witnesses use a cluster of three voters of
  which two are lost for good.
\<close>

section \<open>Approvals\<close>

definition served :: "rejoin_env list \<Rightarrow> (string, rejoinApproval) fmap" where
  "served js = fold (\<lambda>j v. snd (rejoinServe j v)) js fmempty"

text \<open>A request that earns an approval.\<close>

definition earns :: "rejoin_env \<Rightarrow> string \<Rightarrow> rejoinApproval \<Rightarrow> bool" where
  "earns j i v \<longleftrightarrow> rj_refused j = None \<and> rj_current j = Inr (ra_recovery v) \<and> rj_recovery j = ra_recovery v \<and> rj_leader j
     \<and> \<not> rj_pending j \<and> rj_fence j = None \<and> m_ID (rj_member j) = i \<and> rj_hash j = ra_key v
     \<and> \<not> identity_mismatch (rj_row j) (rj_hash j) i \<and> ra_expires v = rj_now j + 60 * second"

lemma live_approvals_lookup: "fmlookup (live_approvals clock values) i = Some v \<Longrightarrow> fmlookup values i = Some v"
  by (simp add: live_approvals_def split: if_splits)

lemma live_approvals_card: "fcard (fmdom (live_approvals clock values)) \<le> fcard (fmdom values)"
  by (rule fcard_mono) (auto simp: live_approvals_def)

lemma rejoinServe_lookup:
  "fmlookup (snd (rejoinServe j values)) i = Some v \<Longrightarrow> fmlookup values i = Some v \<or> earns j i v"
  by (auto simp: rejoinServe_def earns_def Let_def dest: live_approvals_lookup split: option.splits sum.splits if_splits)

lemma rejoinServe_card: "fcard (fmdom values) \<le> 64 \<Longrightarrow> fcard (fmdom (snd (rejoinServe j values))) \<le> 64"
proof -
  assume c: "fcard (fmdom values) \<le> 64"
  let ?l = "live_approvals (rj_clock j) values"
  have "fcard (fmdom ?l) \<le> 64" using live_approvals_card[of "rj_clock j" "values"] c by simp
  moreover have "fcard (finsert i (fmdom ?l)) \<le> 64" if "\<not> 64 \<le> fcard (fmdom ?l)" for i
    using that by (simp add: fcard_finsert_if)
  ultimately show ?thesis using c by (simp add: rejoinServe_def Let_def split: option.splits sum.splits)
qed

section \<open>Generations\<close>

lemma choose_generation_ok:
  assumes "choose_generation clusterID f current i = (i', None)"
  shows "rg_Generation (gi_Recovery i) \<noteq> 0 \<Longrightarrow> i' = i"
    and "rg_Generation (gi_Recovery i) = 0 \<Longrightarrow> \<exists>highest. known_generation clusterID f current = Inr highest
      \<and> (highest \<noteq> - 1 \<longrightarrow> highest < rg_Generation (gi_Recovery i'))"
proof -
  show "i' = i" if "rg_Generation (gi_Recovery i) \<noteq> 0" using assms that by (simp add: choose_generation_def)
  assume z: "rg_Generation (gi_Recovery i) = 0"
  then obtain highest where k: "known_generation clusterID f current = Inr highest"
    and g: "rg_Generation (gi_Recovery i') = max (highest + 1) (fg_millis f)"
    using assms by (auto simp: choose_generation_def Let_def split: sum.splits)
  have "highest < max (highest + 1) (fg_millis f)" if "highest \<noteq> - 1"
    using that by (simp add: less_max_iff_disj not_le[symmetric] inc_less_eq_self_iff_eq)
  then show "\<exists>highest. known_generation clusterID f current = Inr highest
      \<and> (highest \<noteq> - 1 \<longrightarrow> highest < rg_Generation (gi_Recovery i'))" using k g by auto
qed

lemma finish_cases:
  assumes "finishRecoveryGeneration clusterID f i = (i', committed, e)" "Node_recoveryGeneration (fg_row f) = Inr current"
  obtains "committed = None" "e \<noteq> None"
  | "committed = None" "current = gi_Recovery i'"
  | "committed = Some (gi_Recovery i')" "rg_Generation current < rg_Generation (gi_Recovery i')"
      "choose_generation clusterID f (rg_Generation current) i = (i', None)"
proof (cases "fg_fence f")
  case None
  obtain j x where c: "choose_generation clusterID f (rg_Generation current) i = (j, x)" by fastforce
  have "committed = None \<and> e \<noteq> None \<or> committed = None \<and> current = gi_Recovery i' \<or>
    committed = Some (gi_Recovery i') \<and> rg_Generation current < rg_Generation (gi_Recovery i') \<and> j = i' \<and> x = None"
    using assms None c
    by (cases x) (auto simp: finishRecoveryGeneration_def Let_def split: if_splits option.splits, metis)
  then show ?thesis using that c by blast
next
  case (Some a)
  then have "committed = None" "e = Some a" using assms by (auto simp: finishRecoveryGeneration_def)
  then show ?thesis using that(1) by simp
qed

section \<open>Two survivors\<close>

text \<open>A voter and a learner are left of a cluster with three voters.\<close>

definition rw_ip1 :: addr where "rw_ip1 = ipv4 10 0 0 1"
definition rw_ip4 :: addr where "rw_ip4 = ipv4 10 0 0 4"
definition rw_voter :: addr_port where "rw_voter = (rw_ip1, 9100)"
definition rw_learner :: addr_port where "rw_learner = (rw_ip4, 9100)"

definition rw_rank :: "addr \<Rightarrow> string" where
  "rw_rank a = (if a = rw_ip1 then ''a'' else ''b'')"

definition rw_view :: "string \<Rightarrow> string \<Rightarrow> recovery_view" where
  "rw_view i role = \<lparr>rv_TransportRecovery = None, rv_NodeID = i, rv_LastLogIndex = 9, rv_LastLogTerm = 1, rv_HasLeader = False,
     rv_MembershipRole = role, rv_DiscoveryViewHash = ''h'', rv_Recovery = no_generation, rv_Protocol = 1\<rparr>"

definition rw_evaluation :: "addr \<Rightarrow> recovery_view \<Rightarrow> evaluation" where
  "rw_evaluation a own = \<lparr>ev_guarded = True, ev_conflict = False, ev_localAddr = a, ev_own = Inr own, ev_generationPending = False,
     ev_blocked = (\<lambda>_. False), ev_conf = Inr mb_conf,
     ev_views = (\<lambda>b. Inr (if b = rw_voter then rw_view ''v1'' ''voter'' else rw_view ''l1'' ''learner'')),
     ev_cancelled = (\<lambda>_. False), ev_probe = (\<lambda>_. Inl KvErrInvalid), ev_ctx = None, ev_leaderAgain = False\<rparr>"

definition rw_plan :: recovery_plan where
  "rw_plan = \<lparr>rp_winner = rw_view ''v1'' ''voter'', rp_lost = [''v2'', ''v3''], rp_view = ''h''\<rparr>"

definition rw_fingerprint :: fingerprint where
  "rw_fingerprint = (''h'', ''v1'', [''v2'', ''v3''], no_generation)"

lemma rw_plan_fields: "rp_winner rw_plan = rw_view ''v1'' ''voter''" "rp_view rw_plan = ''h''" "rv_NodeID (rw_view i r) = i"
    "rv_MembershipRole (rw_view i r) = r" "rv_LastLogIndex (rw_view i r) = 9" "rv_LastLogTerm (rw_view i r) = 1"
  by (simp_all add: rw_plan_def rw_view_def)

lemma rw_lookups: "mb_pa ''10.0.0.1:9000'' = Some (rw_ip1, 9000)" "mb_pa ''10.0.0.2:9000'' = Some (ipv4 10 0 0 2, 9000)"
    "mb_pa ''10.0.0.3:9000'' = Some (ipv4 10 0 0 3, 9000)"
  by (simp_all add: mb_pa_def rw_ip1_def)

lemma rw_addresses: "rw_ip1 \<noteq> rw_ip4" "ipv4 10 0 0 2 \<noteq> rw_ip1" "ipv4 10 0 0 3 \<noteq> rw_ip1" "ipv4 10 0 0 2 \<noteq> rw_ip4" "ipv4 10 0 0 3 \<noteq> rw_ip4"
  by (simp_all add: ipv4_def rw_ip1_def rw_ip4_def)

lemmas rw_defs = rw_evaluation_def rw_view_def rw_voter_def rw_learner_def view_agrees_def transport_differs_def can_win_def no_generation_def
  recoveryWinner_def still_reachable_def

lemma rw_count:
  "count_voters mb_pa [''v1'', ''l1''] [rw_voter, rw_learner] mb_conf (0, 0, [])
    = Inr (3, 1, [\<lparr>m_ID = ''v2'', m_Address = ''10.0.0.2:9000''\<rparr>, \<lparr>m_ID = ''v3'', m_Address = ''10.0.0.3:9000''\<rparr>])"
  "count_voters mb_pa [''l1'', ''v1''] [rw_learner, rw_voter] mb_conf (0, 0, [])
    = Inr (3, 1, [\<lparr>m_ID = ''v2'', m_Address = ''10.0.0.2:9000''\<rparr>, \<lparr>m_ID = ''v3'', m_Address = ''10.0.0.3:9000''\<rparr>])"
  using rw_addresses rw_addresses[symmetric] by (simp_all add: mb_conf_def mb_parse rw_voter_def rw_learner_def rw_lookups)

lemma rw_sees_voter:
  "evaluate mb_pa rw_rank (rw_evaluation rw_ip1 (rw_view ''v1'' ''voter'')) [rw_voter, rw_learner] ''h'' now = Inr (rw_plan, rw_fingerprint)"
  using rw_addresses rw_addresses[symmetric] rw_count(1)
  by (simp add: evaluate_def rw_defs rw_plan_def rw_fingerprint_def Let_def)

lemma rw_sees_learner:
  "evaluate mb_pa rw_rank (rw_evaluation rw_ip4 (rw_view ''l1'' ''learner'')) [rw_learner, rw_voter] ''h'' now = Inr (rw_plan, rw_fingerprint)"
  using rw_addresses rw_addresses[symmetric] rw_count(2)
  by (simp add: evaluate_def rw_defs rw_plan_def rw_fingerprint_def Let_def)

definition rw_config :: recovery_config where
  "rw_config = \<lparr>rc_localID = ''v1'', rc_localAddr = rw_ip1, rc_statusPort = 9100, rc_window = 30 * second\<rparr>"

definition rw_at :: "int \<Rightarrow> clock" where "rw_at k = \<lparr>ck_mono = k * second, ck_wall = k * second\<rparr>"

definition rw_on :: policy_status where "rw_on = \<lparr>pl_Mode = ''on'', pl_Valid = True\<rparr>"

definition rw_tick :: "int \<Rightarrow> tick_env" where
  "rw_tick k = \<lparr>tk_now = rw_at k, tk_policy = rw_on, tk_signature = ''s'', tk_conflict = False, tk_refresh = None,
     tk_addresses = [rw_voter, rw_learner], tk_fresh = True, tk_view = ''h'',
     tk_evaluation = rw_evaluation rw_ip1 (rw_view ''v1'' ''voter'')\<rparr>"

definition rw_perform :: perform_env where
  "rw_perform = \<lparr>pf_policy1 = rw_on, pf_signature1 = ''s'', pf_now1 = rw_at 31, pf_now2 = rw_at 31, pf_refresh = None,
     pf_addresses = [rw_voter, rw_learner], pf_fresh = True, pf_view = ''h'', pf_now3 = rw_at 31,
     pf_evaluation = rw_evaluation rw_ip1 (rw_view ''v1'' ''voter''), pf_policy2 = rw_on, pf_signature2 = ''s'', pf_fresh2 = True,
     pf_view2 = ''h'', pf_conflict = False, pf_now4 = rw_at 32, pf_close = None, pf_position = (9, 1), pf_last = Inr 9, pf_tail = Inr 1,
     pf_present = False, pf_write = None\<rparr>"

definition rw_node :: recovery_node where
  "rw_node = \<lparr>rn_selfFenced = False, rn_controlPending = False, rn_control = 0, rn_details = ([], [], [])\<rparr>"

definition rw_manager :: "int \<Rightarrow> bool \<Rightarrow> recoveryManager" where
  "rw_manager k b = \<lparr>rm_lastSample = Some (rw_at k), rm_since = Some (rw_at 0), rm_missingSince = None, rm_fingerprint = Some rw_fingerprint,
     rm_policyFingerprint = ''s'', rm_reported = b, rm_fenceReported = False, rm_conflictDetected = False\<rparr>"

lemma rw_valid: "validRecoveryAddresses [rw_voter, rw_learner] 9100"
  by (simp add: validRecoveryAddresses_def rw_voter_def rw_learner_def rw_ip1_def rw_ip4_def ipv4_def IsUnspecified_def IsMulticast_def Unmap_def v4_byte_def Zone_def)

lemma rw_listed: "fst rw_voter = rw_ip1"
  by (simp add: rw_voter_def)

lemma rw_ticks:
  "\<exists>e n. tick mb_pa rw_rank rw_config (rw_tick 0) (newManager, rw_node) = (e, rw_manager 0 False, n)"
  "\<exists>e n'. tick mb_pa rw_rank rw_config (rw_tick 30) (rw_manager 0 False, n) = (e, rw_manager 30 True, n')"
  using rw_valid rw_listed
  by (simp_all add: tick_def rw_tick_def rw_config_def rw_on_def tick_start_def newManager_def resetWindow_def Let_def rw_sees_voter
      collect_def rw_manager_def rw_at_def recoverySampleGapValid_def recoveryWindowElapsed_def autoRecoveryInterval_def second_def
      rw_plan_fields)

lemma rw_run: "\<exists>n. manager_run mb_pa rw_rank rw_config [Ticked (rw_tick 0), Ticked (rw_tick 30)] (rw_manager 30 True, n)"
proof -
  obtain e n where "tick mb_pa rw_rank rw_config (rw_tick 0) (newManager, rw_node) = (e, rw_manager 0 False, n)" using rw_ticks(1) by blast
  from manager_run.ticks[OF manager_run.begins this]
  have r: "manager_run mb_pa rw_rank rw_config [Ticked (rw_tick 0)] (rw_manager 0 False, n)" by simp
  obtain e n' where "tick mb_pa rw_rank rw_config (rw_tick 30) (rw_manager 0 False, n) = (e, rw_manager 30 True, n')" using rw_ticks(2) by blast
  from manager_run.ticks[OF r this] show ?thesis by auto
qed

lemma rw_performs:
  "performRecovery mb_pa rw_rank rw_config rw_perform (rw_manager 30 True)
    = (True, Inr \<lparr>sr_NodeID = ''v1'', sr_ExpectedLastIndex = 9, sr_AllowLearner = False\<rparr>, rw_manager 30 True)"
  using rw_valid
  by (simp add: performRecovery_def rw_perform_def rw_config_def rw_manager_def rw_on_def rw_at_def recoverySampleGapValid_def
      recoveryWindowElapsed_def autoRecoveryInterval_def second_def rw_sees_voter rw_plan_fields write_request_def)

definition cl_round :: "int \<Rightarrow> refresh_env" where
  "cl_round k = \<lparr>rf_local = Some \<lparr>ps_ID = ''v1'', ps_Role = ''Leader'', ps_Term = 1, ps_LastIndex = 9, ps_StateIndex = 9\<rparr>, rf_fresh = True,
     rf_addresses = 1, rf_started = None,
     rf_results = [\<lparr>ob_Address = ''10.0.0.2:9100'', ob_Status = \<lparr>ps_ID = ''v2'', ps_Role = ''Leader'', ps_Term = 2, ps_LastIndex = 9, ps_StateIndex = 9\<rparr>\<rparr>],
     rf_finished = None, rf_now = rw_at k\<rparr>"

definition cl_start :: observer where
  "cl_start = \<lparr>os_leaders = \<lparr>lc_consecutive = 0, lc_latched = False, lc_singleSince = None, lc_lastRound = None\<rparr>,
     os_observations = [], os_updated = None\<rparr>"

definition gw_finish :: finish_env where
  "gw_finish = \<lparr>fg_fence = None, fg_row = (0, None), fg_guard = None, fg_watermark = Missing, fg_millis = 5, fg_lineage = ''l'',
     fg_replace = None, fg_lstat = None, fg_commit = None, fg_guard2 = None, fg_replace2 = None, fg_consume = None\<rparr>"

definition gw_intent :: generationIntent where
  "gw_intent = \<lparr>gi_ClusterID = ''c'', gi_NodeID = ''v1'', gi_Recovery = no_generation\<rparr>"

definition aj_request :: rejoin_env where
  "aj_request = \<lparr>rj_refused = None, rj_member = mb_learner, rj_recovery = no_generation, rj_current = Inr no_generation, rj_leader = True,
     rj_pending = False, rj_fence = None, rj_hash = ''k'', rj_row = (0, None), rj_row2 = (0, None), rj_clock = (\<lambda>_. 0), rj_now = 0\<rparr>"

definition bw_env :: bootstrap_env where
  "bw_env = \<lparr>be_addresses = [rw_voter, rw_learner], be_fresh = True, be_view = ''h'', be_local = \<lparr>m_ID = ''v1'', m_Address = ''10.0.0.1:9000''\<rparr>,
     be_localAddr = rw_ip1, be_lastIndex = 0, be_genesis = None, be_leader = False, be_conf = Inr [], be_update = None, be_history = None,
     be_previous = Missing, be_probe = (\<lambda>_. Inr \<lparr>bs_ID = ''l1'', bs_LastIndex = 0, bs_BootstrapView = ''h''\<rparr>), be_marker = Missing,
     be_intent = Missing, be_replace = None, be_bootstrap = None\<rparr>"

definition bw_start :: automatic where "bw_start = \<lparr>at_view = [], at_since = None\<rparr>"

section \<open>Properties\<close>

text \<open>
  C10. A request for recovery is written only by a node that wins the evaluation, under a signed policy in mode on, and
  only after an unbroken row of ticks that ends with the last one: all of them found the same plan under the same
  policy, with no gap of more than 45 seconds between neighbours on either clock, and the first of them at least the
  whole window before. The plan still holds when it is evaluated again, and the log of the stopped node is where
  the plan says.
\<close>
theorem recovery_needs_evidence:
  assumes "manager_run pa rank c evs (m, n)" "performRecovery pa rank c p m = (True, Inr request, m')"
  shows "\<exists>fp pre ts plan. evs = pre @ map Ticked ts \<and> ts \<noteq> [] \<and> (\<forall>t \<in> set ts. evidence pa rank c fp (pf_signature1 p) t)
    \<and> in_a_row (map tk_now ts) \<and> rc_window c \<le> recoveryWindowElapsed (tk_now (hd ts)) (pf_now1 p)
    \<and> recoverySampleGapValid (Some (tk_now (last ts))) (pf_now4 p)
    \<and> evaluate pa rank (pf_evaluation p) (pf_addresses p) (pf_view p) (pf_now3 p) = Inr (plan, fp)
    \<and> pl_Valid (pf_policy2 p) \<and> pl_Mode (pf_policy2 p) = ''on'' \<and> \<not> pf_conflict p
    \<and> rv_NodeID (rp_winner plan) = rc_localID c \<and> sr_NodeID request = rc_localID c
    \<and> pf_position p = (rv_LastLogIndex (rp_winner plan), rv_LastLogTerm (rp_winner plan))"
proof -
  obtain s plan fp where s: "rm_since m = Some s" "pf_signature1 p = rm_policyFingerprint m"
      "\<not> recoveryWindowElapsed s (pf_now1 p) < rc_window c" "Some fp = rm_fingerprint m"
    and e: "evaluate pa rank (pf_evaluation p) (pf_addresses p) (pf_view p) (pf_now3 p) = Inr (plan, fp)"
    and g: "rv_NodeID (rp_winner plan) = rc_localID c" "pl_Valid (pf_policy2 p)" "pl_Mode (pf_policy2 p) = ''on''" "\<not> pf_conflict p"
      "recoverySampleGapValid (rm_lastSample m) (pf_now4 p)" and w: "write_request c p (rp_winner plan) = Inr request"
    using assms(2) unfolding performRecovery_def Let_def by (auto split: option.splits sum.splits if_splits prod.splits)
  have r: "sr_NodeID request = rc_localID c" "pf_position p = (rv_LastLogIndex (rp_winner plan), rv_LastLogTerm (rp_winner plan))"
    using w by (auto simp: write_request_def split: option.splits if_splits sum.splits)
  from manager_run_ok[OF assms(1)] s(1,4) obtain pre ts where "evs = pre @ map Ticked ts" "ts \<noteq> []" "tk_now (hd ts) = s"
      "list_all (evidence pa rank c fp (rm_policyFingerprint m)) ts" "in_a_row (map tk_now ts)" "rm_lastSample m = Some (tk_now (last ts))"
    unfolding manager_ok_def by fastforce
  then show ?thesis using s e g r by (intro exI[of _ fp] exI[of _ pre] exI[of _ ts] exI[of _ plan]) (simp add: list_all_iff)
qed

theorem recovery_needs_evidence_witness:
  "\<exists>pre ts. [Ticked (rw_tick 0), Ticked (rw_tick 30)] = pre @ map Ticked ts \<and> ts \<noteq> []
    \<and> 30 * second \<le> recoveryWindowElapsed (tk_now (hd ts)) (rw_at 31)"
proof -
  obtain n where "manager_run mb_pa rw_rank rw_config [Ticked (rw_tick 0), Ticked (rw_tick 30)] (rw_manager 30 True, n)"
    using rw_run by blast
  from recovery_needs_evidence[OF this rw_performs] show ?thesis by (force simp: rw_config_def rw_perform_def)
qed



text \<open>
  C12. Nodes that evaluate the same views of the same addresses, in whatever order discovery lists them, name the same
  winner, so at most one of them asks for recovery. Ranks of different addresses differ, as SHA-256 gives them.
\<close>
theorem winner_agreed:
  assumes "evaluate pa rank ev1 as1 h1 now1 = Inr (plan1, fp1)" "evaluate pa rank ev2 as2 h2 now2 = Inr (plan2, fp2)"
    and "set as1 = set as2" "\<forall>a \<in> set as1. ev_views ev1 a = ev_views ev2 a" "inj_on (\<lambda>a. rank (fst a)) (set as1)"
  shows "rp_winner plan1 = rp_winner plan2"
proof -
  have same: "set (view_list ev1 as1) = set (view_list ev2 as2)" using assms(3,4) by (auto simp: view_list_def)
  obtain a1 where a1: "candidate (view_list ev1 as1) (rp_winner plan1, a1)" "unbeaten rank (view_list ev1 as1) (rp_winner plan1, a1)"
    using assms(1) by (rule evaluate_plan) (auto simp: plan_sound_def)
  obtain a2 where a2: "candidate (view_list ev2 as2) (rp_winner plan2, a2)" "unbeaten rank (view_list ev2 as2) (rp_winner plan2, a2)"
    using assms(2) by (rule evaluate_plan) (auto simp: plan_sound_def)
  have "rank (fst a1) = rank (fst a2)"
    by (rule recoveryWinner_total) (use a1 a2 same in \<open>auto simp: unbeaten_def candidate_def simp del: split_paired_All\<close>)
  moreover have "a1 \<in> set as1" "a2 \<in> set as1" using a1(1) a2(1) assms(3) by (auto simp: candidate_def view_list_def)
  ultimately have "a1 = a2" using assms(5) by (auto dest: inj_onD)
  moreover have "ev_views ev2 a1 = Inr (rp_winner plan1)" "ev_views ev2 a2 = Inr (rp_winner plan2)"
    using a1(1) a2(1) same by (auto simp: candidate_def view_list_def)
  ultimately show ?thesis by simp
qed

theorem winner_agreed_witness:
  "\<exists>p q f g. evaluate mb_pa rw_rank (rw_evaluation rw_ip1 (rw_view ''v1'' ''voter'')) [rw_voter, rw_learner] ''h'' (rw_at 0) = Inr (p, f)
    \<and> evaluate mb_pa rw_rank (rw_evaluation rw_ip4 (rw_view ''l1'' ''learner'')) [rw_learner, rw_voter] ''h'' (rw_at 7) = Inr (q, g)
    \<and> rp_winner p = rp_winner q"
proof -
  have "inj_on (\<lambda>a. rw_rank (fst a)) (set [rw_voter, rw_learner])"
    using rw_addresses by (auto simp: rw_rank_def rw_voter_def rw_learner_def inj_on_def)
  moreover obtain p f where p: "evaluate mb_pa rw_rank (rw_evaluation rw_ip1 (rw_view ''v1'' ''voter'')) [rw_voter, rw_learner] ''h'' (rw_at 0) = Inr (p, f)"
    using rw_sees_voter by blast
  moreover obtain q g where q: "evaluate mb_pa rw_rank (rw_evaluation rw_ip4 (rw_view ''l1'' ''learner'')) [rw_learner, rw_voter] ''h'' (rw_at 7) = Inr (q, g)"
    using rw_sees_learner by blast
  ultimately have "rp_winner p = rp_winner q" by (intro winner_agreed[OF p q]) (auto simp: rw_evaluation_def)
  then show ?thesis using p q by blast
qed

text \<open>
  C14. The latch that stops recovery and resets: it is set only by two neighbouring rounds of the observer, at most 45
  seconds apart, that each saw several leaders, and it is cleared only by an unbroken row of rounds with
  exactly one leader that spans two minutes on both clocks. A round that fails, or that comes late, starts over.
\<close>
theorem conflict_latch:
  assumes "os_leaders w = \<lparr>lc_consecutive = 0, lc_latched = b, lc_singleSince = None, lc_lastRound = None\<rparr>"
    and "old = refreshes w rs" "new = snd (Refresh r old)"
  shows "(\<not> leaderConflictDetected old \<longrightarrow> leaderConflictDetected new \<longrightarrow>
        rs \<noteq> [] \<and> several (last rs) \<and> several r \<and> recoverySampleGapValid (Some (rf_now (last rs))) (rf_now r))
    \<and> (leaderConflictDetected old \<longrightarrow> \<not> leaderConflictDetected new \<longrightarrow>
        (\<exists>pre suf. rs @ [r] = pre @ suf \<and> suf \<noteq> [] \<and> list_all single suf \<and> in_a_row (map rf_now suf)
          \<and> 120 * second \<le> recoveryWindowElapsed (rf_now (hd suf)) (rf_now r)))"
proof -
  have ok: "conflict_ok rs (os_leaders old)" using conflict_ok_refreshes conflict_ok_start assms(1,2) by simp
  show ?thesis
  proof (cases "completes r")
    case True
    then show ?thesis using observe_latch[OF ok True] assms(3)
      by (auto simp: leaderConflictDetected_def Refresh_leaders leaderConflictClearWindow_def)
  next
    case False
    then show ?thesis using assms(3) by (auto simp: leaderConflictDetected_def Refresh_leaders breakContinuity_def)
  qed
qed

theorem conflict_latch_witness:
  "leaderConflictDetected (snd (Refresh (cl_round 15) (refreshes cl_start [cl_round 0]))) \<and> several (cl_round 0) \<and> several (cl_round 15)"
proof -
  have "\<not> leaderConflictDetected (refreshes cl_start [cl_round 0])"
    "leaderConflictDetected (snd (Refresh (cl_round 15) (refreshes cl_start [cl_round 0])))"
    by (simp_all add: refreshes_def Refresh_def leaderConflictDetected_def cl_round_def cl_start_def observe_def leader_ids_def
        recoverySampleGapValid_def rw_at_def autoRecoveryInterval_def second_def Let_def)
  then show ?thesis using conflict_latch[of cl_start False _ "[cl_round 0]" _ "cl_round 15", OF _ refl refl] by (simp add: cl_start_def)
qed

text \<open>
  Finishing a recovery commits a generation strictly above the one in force; a new one is above every generation known
  to the guard and to the watermark, unless those are at the end of the range; a restart commits the generation
  that was chosen before; and success means that the generation of the intent is the one in force.
\<close>
theorem generation_grows:
  assumes "finishRecoveryGeneration clusterID f i = (i', committed, e)" "Node_recoveryGeneration (fg_row f) = Inr current"
  shows "(\<forall>g. committed = Some g \<longrightarrow> g = gi_Recovery i' \<and> rg_Generation current < rg_Generation g
      \<and> (rg_Generation (gi_Recovery i) \<noteq> 0 \<longrightarrow> g = gi_Recovery i)
      \<and> (rg_Generation (gi_Recovery i) = 0 \<longrightarrow> (\<exists>highest. known_generation clusterID f (rg_Generation current) = Inr highest
          \<and> (highest \<noteq> - 1 \<longrightarrow> highest < rg_Generation g))))
    \<and> (e = None \<longrightarrow> committed = Some (gi_Recovery i') \<or> committed = None \<and> current = gi_Recovery i')"
  using assms
proof (cases rule: finish_cases)
  case 3
  then show ?thesis using choose_generation_ok[OF 3(3)] by auto
qed auto

theorem generation_grows_witness:
  "\<exists>i' g. finishRecoveryGeneration ''c'' gw_finish gw_intent = (i', Some g, None) \<and> 0 < rg_Generation g"
proof -
  have "finishRecoveryGeneration ''c'' gw_finish gw_intent
      = (gw_intent\<lparr>gi_Recovery := \<lparr>rg_Generation = 5, rg_Lineage = ''l''\<rparr>\<rparr>, Some \<lparr>rg_Generation = 5, rg_Lineage = ''l''\<rparr>, None)"
    by (simp add: finishRecoveryGeneration_def gw_finish_def gw_intent_def Node_recoveryGeneration_def no_generation_def
        choose_generation_def known_generation_def)
  from generation_grows[OF this, of no_generation] this show ?thesis
    by (simp add: gw_finish_def Node_recoveryGeneration_def no_generation_def)
qed

text \<open>
  An approval to come back is held only by a member that the leader, with a verified quorum and no recovery under way,
  verified as a candidate with exactly this key and the current generation less than a minute ago, whose admission
  record, if there is one, has this key; and there are never more than 64.
\<close>
theorem approval_bound:
  assumes "approved (served js) now a current"
  shows "fcard (fmdom (served js)) \<le> 64
    \<and> (\<exists>j \<in> set js. rj_refused j = None \<and> rj_leader j \<and> \<not> rj_pending j \<and> rj_fence j = None \<and> rj_current j = Inr current
      \<and> rj_recovery j = current \<and> m_ID (rj_member j) = m_ID (ad_Member a) \<and> rj_hash j = ad_KeyHash a
      \<and> \<not> identity_mismatch (rj_row j) (ad_KeyHash a) (m_ID (ad_Member a)) \<and> now < rj_now j + 60 * second)"
proof
  show "fcard (fmdom (served js)) \<le> 64"
    by (induction js rule: rev_induct) (auto simp: served_def rejoinServe_card fcard_fempty)
  have "\<exists>j \<in> set js. earns j i v" if "fmlookup (served js) i = Some v" for i v
    using that
  proof (induction js rule: rev_induct)
    case (snoc j js)
    then show ?case using rejoinServe_lookup[of j "served js" i v] by (auto simp: served_def)
  qed (simp add: served_def)
  then show "\<exists>j \<in> set js. rj_refused j = None \<and> rj_leader j \<and> \<not> rj_pending j \<and> rj_fence j = None \<and> rj_current j = Inr current
      \<and> rj_recovery j = current \<and> m_ID (rj_member j) = m_ID (ad_Member a) \<and> rj_hash j = ad_KeyHash a
      \<and> \<not> identity_mismatch (rj_row j) (ad_KeyHash a) (m_ID (ad_Member a)) \<and> now < rj_now j + 60 * second"
    using assms by (fastforce simp: approved_def earns_def split: option.splits)
qed

theorem approval_bound_witness:
  "\<exists>j \<in> set [aj_request]. rj_hash j = ''k'' \<and> 1 < rj_now j + 60 * second"
proof -
  have "approved (served [aj_request]) 1 mb_admission no_generation"
    by (simp add: approved_def served_def aj_request_def rejoinServe_def identity_mismatch_def live_approvals_def mb_admission_def
        second_def Let_def fcard_fempty)
  from approval_bound[OF this] show ?thesis by (simp add: mb_admission_def)
qed

text \<open>
  C13. A cluster is founded once. A node founds it only if discovery has given it the same addresses for thirty seconds,
  it finds no trace of an earlier history of its own and every other listed address reports an empty log and the same
  view of discovery; and two nodes that see the same addresses never both found it. Ranks of different addresses differ.
\<close>
theorem founded_once:
  assumes "fst (automatic_tick rank now1 b1 (ticked rank a ts)) = Founded" "fst (automatic_tick rank now2 b2 a2) = Founded"
    and "set (be_addresses b1) = set (be_addresses b2)" "inj_on rank (fst ` set (be_addresses b1))"
    and "at_since a = None" "at_view a = []" "be_view b1 \<noteq> []" "\<forall>(now, b) \<in> set ts. be_view b \<noteq> []"
  shows "be_localAddr b1 = be_localAddr b2 \<and> be_lastIndex b1 = 0 \<and> be_previous b1 = Missing \<and> be_marker b1 = Missing
    \<and> (\<forall>x \<in> set (be_addresses b1). fst x \<noteq> be_localAddr b1 \<longrightarrow>
        (\<exists>st. be_probe b1 x = Inr st \<and> bs_LastIndex st = 0 \<and> bs_BootstrapView st = be_view b1))
    \<and> (\<exists>pre s b suf. ts = pre @ (s, b) # suf \<and> 30 * second \<le> ck_mono now1 - ck_mono s
        \<and> (\<forall>(now, b) \<in> set ((s, b) # suf). reads_view b \<longrightarrow> be_view b = be_view b1))"
proof -
  note f1 = Founded_conditions[OF assms(1)] and f2 = Founded_conditions[OF assms(2)]
  have "rank (be_localAddr b1) = rank (be_localAddr b2)" using f1(4,5) f2(4,5) assms(3) by (metis linorder_neqE)
  then have l: "be_localAddr b1 = be_localAddr b2" using f1(4) f2(4) assms(3,4) by (metis imageI inj_onD)
  let ?a = "ticked rank a ts"
  have v: "at_view ?a = be_view b1"
    using f1(3) by (auto simp: note_view_def stable_view_def second_def split: if_splits)
  have "at_since ?a \<noteq> None"
  proof
    assume n: "at_since ?a = None"
    have "at_since ?a = None \<longrightarrow> at_view ?a = []"
      by (induction ts rule: rev_induct) (use assms(5,6) in \<open>auto simp: ticked_def automatic_tick_state note_view_def split: prod.splits\<close>)
    then show False using n v assms(7) by simp
  qed
  then obtain s where s: "at_since ?a = Some s" by blast
  have "30 * second \<le> ck_mono now1 - ck_mono s" using f1(3) v s by (simp add: note_view_def stable_view_def)
  moreover from ticked_since[OF s assms(5,6,8)] obtain pre b suf where "ts = pre @ (s, b) # suf"
    "\<forall>(now, b) \<in> set ((s, b) # suf). reads_view b \<longrightarrow> be_view b = be_view b1" unfolding v by blast
  moreover have "\<exists>st. be_probe b1 x = Inr st \<and> bs_LastIndex st = 0 \<and> bs_BootstrapView st = be_view b1"
    if "x \<in> set (be_addresses b1)" "fst x \<noteq> be_localAddr b1" for x
    using f1(6) that by (cases "be_probe b1 x") (auto simp: empty_peer_def)
  ultimately show ?thesis using l f1(2,7,8) by blast
qed

theorem founded_once_witness:
  "\<exists>st. be_probe bw_env rw_learner = Inr st \<and> bs_LastIndex st = 0 \<and> bs_BootstrapView st = ''h''"
proof -
  have "\<not> rw_rank rw_ip4 < rw_rank rw_ip1" using rw_addresses by (simp add: rw_rank_def)
  then have f: "fst (automatic_tick rw_rank (rw_at 30) bw_env (ticked rw_rank bw_start [(rw_at 0, bw_env)])) = Founded"
    by (simp add: automatic_tick_def ticked_def bw_env_def bw_start_def note_view_def stable_view_def rw_at_def second_def
        found_cluster_def empty_peer_def intent_ready_def rw_voter_def rw_learner_def Let_def)
  have "inj_on rw_rank (fst ` set (be_addresses bw_env))"
    using rw_addresses by (simp add: bw_env_def rw_rank_def rw_voter_def rw_learner_def)
  moreover have "rw_learner \<in> set (be_addresses bw_env)" "fst rw_learner \<noteq> be_localAddr bw_env"
    using rw_addresses by (simp_all add: bw_env_def rw_learner_def)
  ultimately show ?thesis using founded_once[OF f f refl] by (auto simp: bw_env_def bw_start_def)
qed

end
