(* ===== verification/Spec2Isabelle.thy ===== *)
theory Spec2Isabelle
  imports Guarantees Safety Composition Content_Footprint Agent_Guarantees Agent_Limits Async_Guarantees Recovery_Guarantees
begin

text \<open>
  Verification of Flux Drop, a static-site host in Go. Browsers and agents publish a directory of
  files as a project with a public slug; a small Raft cluster keeps the metadata (projects, publish
  operations, quotas, slugs, sessions, unlock grants, storage accounting) in a replicated key-value
  state machine that the rest of the program uses through optimistic transactions. Agents act for a
  user with keys, or through an OAuth server whose grants and credentials live in the same store.

  The parts of the program and the theories that model them (paths under \<open>src/internal\<close>):

  \<^item> \<open>Prelude\<close>: errors of all packages as one datatype, 64-bit wrap-around, character classes for the
    regular expressions, strings and maps shared by the components, and the locales \<open>invariant_system\<close> and \<open>refinement\<close> that
    carry invariants and monotone relations along the runs of a step relation.

  \<^item> \<open>Cluster_State\<close> models \<open>kv/protocol.go\<close> and \<open>cluster/state.go\<close>: records, checks, writes and
    transactions as records; \<open>cstate\<close> is the struct \<open>state\<close>; \<open>validateTransaction\<close>, \<open>Apply\<close>, \<open>read\<close>,
    \<open>Snapshot\<close> and \<open>Restore\<close> are the functions of those names. JSON is a parameter (\<open>wire\<close>), as are the
    length and the validity of raw values. Versions and log indices are 64-bit words. Shown: \<open>Apply\<close> is
    all or nothing, keeps the byte counter exact and the capacities respected; a version identifies
    the record of a key along any evolution; a snapshot restores the state whatever the iteration
    order of Go's maps.

  \<^item> \<open>Metadata_Tx\<close> models \<open>metadata/transaction.go\<close>: \<open>tx\<close> is the struct \<open>Tx\<close>, its methods are state
    transformers that may fail, \<open>run\<close> is the loop of eight attempts over an abstract backend. A
    schedule says which state each read and the final commit reach, so every interleaving with other
    clients is covered. The locales \<open>versioned_backend\<close> and \<open>atomic_backend\<close> state what a backend promises;
    in them a successful attempt is shown to equal an atomic execution, and a failed one to have
    no effect or its whole effect. Gob and JSON encoding of documents are a parameter (\<open>codec\<close>).

  \<^item> \<open>Node\<close> models the client operations of \<open>cluster/node.go\<close> for a node without the asynchronous
    writer; the answers of the Raft library are the parameter \<open>raft_env\<close>. The node interprets both
    locales, which gives serializability, bounded retries, all-or-nothing errors; \<open>Scan\<close> pages exactly.

  \<^item> \<open>Async_Writer\<close> models \<open>cluster/async.go\<close> and the snapshot reads of \<open>cluster/transaction_reads.go\<close>: the
    leader's speculative view, its authority window, the queue of proposals and the rule which writes
    are acknowledged before replication; every critical section is a function. \<open>Async_Safety\<close> interleaves
    commits, reads, the worker, the heartbeat and the log of other leaders (\<open>async_step\<close>) and carries the
    invariant that applying the queue to the node gives the view; \<open>Async_Stamps\<close> shows what a stamp
    identifies; \<open>Async_Guarantees\<close> states the results: reads are exact, queued entries are accepted,
    security changes are acknowledged only when committed, local acknowledgements keep the policy.

  \<^item> \<open>Membership\<close> models \<open>cluster/membership.go\<close>, \<open>dynamic_target.go\<close> and the controller of \<open>enrollment.go\<close>: members, the
    operations that change Raft's configuration (each gives the change it asks Raft for), the voter target,
    a round of the controller with its probes, and admission. \<open>Membership_Safety\<close> carries the invariant of the
    configuration along any sequence of operations (\<open>member_step\<close>) and relates the controller's tables to the
    rounds they come from; \<open>Membership_Guarantees\<close> states the results: limits and quorum, hysteresis of the
    target, why members are retired and promoted, identities bound to keys, committed configurations.

  \<^item> \<open>Observer\<close> models the rounds of \<open>cluster/status.go\<close> and the latch of \<open>leader_conflicts.go\<close>; \<open>Recovery\<close> models
    \<open>auto_recovery.go\<close> with its policy; \<open>Rejoin\<close> models \<open>recovery_generation.go\<close>, the validation of \<open>recovery.go\<close>, the
    view of \<open>recovery_view.go\<close> and \<open>rejoin_protocol.go\<close>; \<open>Bootstrap\<close> models \<open>automatic.go\<close>. \<open>Recovery_Safety\<close> shows what a plan
    rests on and follows the manager through ticks and refused attempts (\<open>manager_run\<close>); \<open>Recovery_Guarantees\<close> states
    the results: a node recovers alone only on a whole window of agreeing evidence and without a majority, nodes
    agree who does, generations grow, approvals are bound to a key, and a cluster is founded once.

  \<^item> \<open>Documents\<close>: the typed records stored in the collections (projects, operations, digests, quotas,
    transfers, grants, budgets, storage versions and allocations, sessions, agent records), the
    document type that joins them, and keys.

  \<^item> \<open>Session\<close> models \<open>session/raft.go\<close> and the service of \<open>session/session.go\<close>: creation under a
    per-minute budget, rotation, login and logout.

  \<^item> \<open>Content\<close> models \<open>content/content.go\<close>, \<open>content/version.go\<close> and \<open>content/footprint.go\<close>: path and file
    validation, staging with collected file errors, manifests and storage footprints.
    \<open>Content_Paths\<close> develops clean relative paths, \<open>Content_Safety\<close> shows that staged paths are safe and
    that peers accept staged manifests, \<open>Content_Footprint\<close> bounds footprints.

  \<^item> \<open>Project_Store\<close>, \<open>Storage\<close>, \<open>Project_Publish\<close>, \<open>Project_Manage\<close>, \<open>Project_Unlock\<close> model the repository of
    \<open>project/\<close> on the cluster (\<open>raft.go\<close>, \<open>raft_rules.go\<close>, \<open>slugs.go\<close>, \<open>storage*.go\<close>, \<open>transfer.go\<close>,
    \<open>revisions.go\<close>, \<open>watermark.go\<close>, \<open>grants.go\<close>): each handler is the transaction body the code runs, guards
    and error branches in the order of the code. \<open>cfg\<close> holds the fields of \<open>RaftRepository\<close> a call reads:
    its clock, limits, storage offers and hash functions.

  \<^item> \<open>Project_Core\<close>, \<open>Project_Refine\<close>, \<open>Publish_Refine\<close>: the abstract specification. \<open>core\<close> keeps only
    projects, quotas, slugs and operations; \<open>core_step\<close> lists the transitions a repository may take
    (reserve, activate, abort, move to an account, delete, rename, edit, refund) and \<open>core_ok\<close> is their
    invariant. Every handler is shown to refine them and to keep the owner index exact.

  \<^item> \<open>Repository\<close>: all requests as one machine, an interpretation of the locale \<open>refinement\<close>. \<open>Scenario\<close> executes a publication inside the logic to
    give witnesses. \<open>Guarantees\<close> states what holds of every reachable store, \<open>Safety\<close> what single
    requests guarantee, \<open>Composition\<close> that requests run by clients on a node are steps of the machine;
    this theory closes the chain from the replicated log to the specification.

  \<^item> \<open>Captured\<close> models transaction bodies that assign variables of the function around them
    (\<open>metadata/transaction.go\<close>, \<open>run\<close> and \<open>Tx.Get\<close>): gob transmits no zero fields, so a variable read in
    a second attempt keeps what the first one left in it. \<open>Unicode_Text\<close> models the functions of
    \<open>unicode/utf8\<close> and \<open>strings\<close> the handlers apply to names.

  \<^item> \<open>Agent_Keys\<close> models \<open>project/agent_keys.go\<close>: an account's keys, of which only digests are stored.
    Shown: the index is exact, there are at most five keys, and revocation ends a key.

  \<^item> \<open>Agent_OAuth\<close> models \<open>httpserver/agent_tokens.go\<close>, \<open>agent_authorize.go\<close>, \<open>agent_gateway.go\<close> and
    \<open>agent_connections.go\<close>, \<open>Agent_Maintenance\<close> models \<open>project/agent_maintenance.go\<close>: one body per
    transaction, and the handlers as functions of the results of their calls. \<open>Agent_System\<close> is the
    abstract life of grants (\<open>life_step\<close>, \<open>life_ok\<close>), \<open>Agent_Refine\<close> shows that every transaction is a step
    of it, \<open>Agent_Scenario\<close> runs a connection inside the logic, and \<open>Agent_Guarantees\<close> states what
    follows: revocation is final, codes and refresh tokens are redeemed soundly and once, consents are
    answered once, cleanup keeps replay tombstones long enough. One theorem there is a defect: a
    redemption that loses a compare-and-set revokes its own grant when it is retried.

  \<^item> \<open>Addresses\<close> and \<open>Agent_Clients\<close> model \<open>httpserver/agent_clients.go\<close> and parts of \<open>agent_auth.go\<close>:
    addresses at their width and the gate on outbound connections, which is proved equal to a table of
    ranges; redirect addresses, registration, client documents, the rate limit, cross-origin rules and
    the replicated encryption key. \<open>Agent_Limits\<close> shows the rate limit over time and that a crashed
    lease holder does not block a grant.

  Bounds: the retry loop has eight attempts as in the code and the slug search its six suffix lengths. The
  loops that wait for a lease and for the encryption key run over a list of polls and return nothing
  if it ends first; 601 polls are shown to be enough for a lease. Every other loop is structural
  recursion, so no fuel is used. Integers that the code bounds (bytes, counts) are
  unbounded integers where a preceding guard excludes overflow, and wrap explicitly otherwise
  (revisions); versions are words. Times are integers in nanoseconds.

  What the theorems rely on: SHA-256 yields hex digests and keeps the owner keys of anonymous and
  account owners apart (\<open>hash_ok\<close>), encoders and decoders agree (\<open>faithful_codec\<close>, \<open>faithful_wire\<close>), Raft's
  futures mean what its documentation says (\<open>raft_ok\<close>), its changes of a configuration do too
  (\<open>raft_changes\<close>), ranks of different addresses differ, and while a node leads the term of its view its
  log moves only by its own entries (\<open>own_reign\<close>).

  Not modelled: the Firestore variants of the stores, which repeat the same rules against a
  third-party client; the remaining HTTP handlers, the admin pages, the MCP server, previews,
  analytics and command line, which are I/O and glue around the repository; the storage pool and
  replica transfer, which move bytes between machines; the cluster's TLS transport, certificates,
  remote calls, backups and start-up, and the files that recovery copies and moves; password hashing (a third-party KDF). Of the OAuth server: parsing of HTTP, JSON and URLs, AES-GCM, and the reverse proxy of the
  gateway enter as results of calls.
\<close>

section \<open>The whole system\<close>

text \<open>
  C1. The cluster implements the specification. Whatever requests clients run against a node, each
  with its own clock, limits and interleaving of reads and commits, and whether they succeed, fail or
  are cut off, the documents the node holds abstract to a state that transitions of the abstract
  specification reach from the empty one; so accounting is exact, slugs identify projects, pending
  operations and projects agree, and the owner index is exact.
\<close>

theorem cluster_refines_specification:
  assumes "serving ops wr marshal cd cf s" "faithful_codec cd" "hash_ok cf"
  shows "(spec_step cf)\<^sup>*\<^sup>* (core_of Map.empty) (core_of (node_docs cd s)) \<and> core_ok cf (core_of (node_docs cd s))
    \<and> index_ok cf (node_docs cd s)"
proof -
  have r: "reachable cd cf (node_docs cd s)" by (rule serving_reachable[OF assms(1,2)])
  show ?thesis using repo.simulated[OF r[unfolded reachable_def] empty_sound(1)[OF assms(3)]] reachable_sound[OF r assms(3)]
    by simp
qed

text \<open>A fresh node on which the demonstration reservation is made.\<close>

definition fresh_node :: "raft_env \<times> doc cstate" where
  "fresh_node = (demo_env, newState ''cluster'')"

definition doc_wire :: "(doc kv_transaction, doc) wire" where
  "doc_wire = \<lparr>data_len = (\<lambda>_. 100), decode_tx = Some, chain = (\<lambda>_ _. replicate 64 (CHR ''0''))\<rparr>"

definition fresh_schedule :: "(raft_env \<times> doc cstate) schedule" where
  "fresh_schedule = \<lparr>at_read = (\<lambda>_. fresh_node), at_validate = fresh_node, at_finish = fresh_node\<rparr>"

lemma fresh_valid: "valid_schedule (node_later ops doc_wire) (node_ok doc_wire Some) fresh_schedule"
  by (simp add: valid_schedule_def fresh_schedule_def fresh_node_def node_later_def node_ok_def demo_env_def raft_ok_def
      faithful_wire_def doc_wire_def evolves_def newState_ok)

lemma fresh_serving: "serving ops doc_wire Some doc_codec demo_cfg fresh_node"
  by (rule serving.empty) (simp add: node_docs_def view_def fresh_node_def node_lookup_def newState_def stored_def rec_version_def fun_eq_iff)

theorem cluster_refines_specification_witness:
  "core_ok demo_cfg (core_of (node_docs doc_codec (snd (Run (node_backend (cd_raw doc_codec) doc_wire Some)
     (\<lambda>_. perform demo_cfg doc_codec (RReserve demo_bearer demo_reservation)) (\<lambda>_. fresh_schedule) (\<lambda>_. None)))))"
proof -
  have f: "at_finish fresh_schedule = fresh_node" by (simp add: fresh_schedule_def)
  have "serving (cd_raw doc_codec) doc_wire Some doc_codec demo_cfg (snd (Run (node_backend (cd_raw doc_codec) doc_wire Some)
     (\<lambda>_. perform demo_cfg doc_codec (RReserve demo_bearer demo_reservation)) (\<lambda>_. fresh_schedule) (\<lambda>_. None)))"
    unfolding Run_def by (rule serving.request) (simp_all add: f fresh_serving fresh_valid)
  from cluster_refines_specification[OF this _ hash_ok_demo] show ?thesis by simp
qed

end
